(* ===== verification/Prelude.thy ===== *)
theory Prelude
  imports Complex_Main "HOL-Library.Word" "HOL-Library.Monad_Syntax"
begin

text \<open>
  Shared ground of the development: the names of the machine types, the collections of
  rewrite rules the component theories feed, and the generic facts on natural-number
  division, lists, options and maps that no component owns.

  Three conventions hold everywhere.
  \<^item> A Rust value of type \<open>T\<close> that may be reached through a panicking expression is modelled
    as \<open>T rust\<close>, that is \<open>T option\<close>: \<open>None\<close> is the panic.
  \<^item> A \<open>Result<T, E>\<close> is \<open>E + T\<close>: \<open>Inl\<close> is \<open>Err\<close>, \<open>Inr\<close> is \<open>Ok\<close>.
  \<^item> An \<open>Option<T>\<close> of the source is \<open>T option\<close>.
\<close>

section \<open>Machine types\<close>

type_synonym u8 = "8 word"
type_synonym u16 = "16 word"
type_synonym u32 = "32 word"
type_synonym u64 = "64 word"
type_synonym u128 = "128 word"

type_synonym 'a rust = "'a option"

declare of_nat_unat [simp del]

section \<open>Rule collections\<close>

named_theorems rust_ok \<open>arithmetic steps that succeed when the exact result is in range\<close>
named_theorems unat_eval \<open>natural-number readings of word expressions\<close>
named_theorems amm_nat \<open>natural-number facts about constant-product quotients\<close>

section \<open>Division with rounding up\<close>

definition ceil_nat :: "nat \<Rightarrow> nat \<Rightarrow> nat" where
  "ceil_nat a b = (a + b - 1) div b"

lemma ceil_nat_le_iff: "0 < b \<Longrightarrow> ceil_nat a b \<le> k \<longleftrightarrow> a \<le> k * b"
proof -
  assume b: "0 < b"
  have "ceil_nat a b \<le> k \<longleftrightarrow> (a + b - 1) div b < Suc k"
    by (simp add: ceil_nat_def less_Suc_eq_le)
  also have "\<dots> \<longleftrightarrow> a + b - 1 < Suc k * b"
    using b by (simp add: div_less_iff_less_mult)
  also have "\<dots> \<longleftrightarrow> a \<le> k * b"
    using b by (simp, linarith)
  finally show ?thesis .
qed

lemma ceil_nat_mult_ge: "0 < b \<Longrightarrow> a \<le> ceil_nat a b * b"
  using ceil_nat_le_iff [of b a "ceil_nat a b"] by simp

lemma ceil_nat_mono: "0 < b \<Longrightarrow> a \<le> a' \<Longrightarrow> ceil_nat a b \<le> ceil_nat a' b"
  using ceil_nat_mult_ge [of b a'] by (simp add: ceil_nat_le_iff)

lemma ceil_nat_le_self: "0 < b \<Longrightarrow> ceil_nat a b \<le> a"
  by (cases b) (simp_all add: ceil_nat_le_iff)

lemma ceil_nat_0 [simp]: "0 < b \<Longrightarrow> ceil_nat 0 b = 0"
  by (simp add: ceil_nat_def)

lemma ceil_nat_pos: "0 < b \<Longrightarrow> 0 < a \<Longrightarrow> 0 < ceil_nat a b"
  using ceil_nat_mult_ge [of b a] by (cases "ceil_nat a b") auto

lemma ceil_nat_eq_0_iff: "0 < b \<Longrightarrow> ceil_nat a b = 0 \<longleftrightarrow> a = 0"
  using ceil_nat_le_iff [of b a 0] by simp

lemma div_mult_le_nat: "a div b * b \<le> (a :: nat)"
  by (simp add: div_mult_mod_eq [symmetric])

lemma less_div_mult_nat: "0 < b \<Longrightarrow> a < (a div b + 1) * (b :: nat)"
  by (metis Suc_eq_plus1 dividend_less_div_times mult.commute mult_Suc_right mult_Suc add.commute)

lemma div_less_of_mult: "a < k * (b :: nat) \<Longrightarrow> a div b < k"
  by (metis div_less_iff_less_mult gr0I mult_zero_right not_less_zero)

lemma div_le_of_mult: "0 < b \<Longrightarrow> a \<le> k * (b :: nat) \<Longrightarrow> a div b \<le> k"
  using div_le_mono [of a "k * b" b] by simp

lemma mult_bound: "a < m \<Longrightarrow> b < n \<Longrightarrow> a * b < m * (n :: nat)"
  by (simp add: mult_strict_mono)

text \<open>
  Trading there and back: if the way in rounds down and the way back rounds down from the reserves the way in left
  behind, the way back returns at most what went in.
\<close>

lemma round_trip_le:
  assumes "dy * (ri + dx) \<le> ro * (dx :: nat)" and "out * ro \<le> (ri + dx) * dy" and "0 < ro"
  shows "out \<le> dx"
proof -
  have "out * ro \<le> dx * ro" using assms(1,2) unfolding mult.commute [of "ri + dx"] mult.commute [of dx] by (rule order_trans [rotated])
  then show ?thesis using assms(3) by simp
qed

section \<open>Lists, options and maps\<close>

lemma bind_Some_iff:
  "Option.bind m f = Some y \<longleftrightarrow> (\<exists>x. m = Some x \<and> f x = Some y)"
  by (cases m) auto

lemma dom_map_upd_same: "m k = Some v \<Longrightarrow> dom (m(k \<mapsto> v')) = dom m"
  by auto

lemma take_Cons_trim: "length (take n (x # xs)) \<le> n"
  by simp

end
