(* ===== verification/Prog.thy ===== *)
theory Prog
  imports Prelude
begin

text \<open>
  Programs over a state: the shape of every function that reads or writes a cache, a table or the outside world. An
  \<open>outcome\<close> is the value of a \<open>Result\<close>, or a panic; \<open>then_do\<close> is the \<open>?\<close> operator together with the sequencing of effects.
  The predicate \<open>yields\<close> is the reasoning device: from every state that satisfies the invariant the program has the same
  outcome and re-establishes the invariant.
\<close>

section \<open>Programs\<close>

datatype 'a outcome = Ok 'a | Err string | Panic

type_synonym ('s, 'a) prog = "'s \<Rightarrow> 'a outcome \<times> 's"

definition ret :: "'a \<Rightarrow> ('s, 'a) prog" where
  "ret a = (\<lambda>s. (Ok a, s))"

definition fail :: "string \<Rightarrow> ('s, 'a) prog" where
  "fail e = (\<lambda>s. (Err e, s))"

definition panic :: "('s, 'a) prog" where
  "panic = (\<lambda>s. (Panic, s))"

fun bind_outcome :: "'a outcome \<times> 's \<Rightarrow> ('a \<Rightarrow> ('s, 'b) prog) \<Rightarrow> 'b outcome \<times> 's" where
  "bind_outcome (Ok a, s) f = f a s"
| "bind_outcome (Err e, s) f = (Err e, s)"
| "bind_outcome (Panic, s) f = (Panic, s)"

definition then_do :: "('s, 'a) prog \<Rightarrow> ('a \<Rightarrow> ('s, 'b) prog) \<Rightarrow> ('s, 'b) prog" where
  "then_do m f = (\<lambda>s. bind_outcome (m s) f)"

text \<open>A panicking computation, an option with \<open>ok_or_else\<close>, a \<open>Result\<close> with \<open>?\<close>, a \<open>Result\<close> with \<open>unwrap\<close>.\<close>

definition of_rust :: "'a rust \<Rightarrow> ('s, 'a) prog" where
  "of_rust x = (case x of None \<Rightarrow> panic | Some a \<Rightarrow> ret a)"

definition ok_or :: "string \<Rightarrow> 'a option \<Rightarrow> ('s, 'a) prog" where
  "ok_or e x = (case x of None \<Rightarrow> fail e | Some a \<Rightarrow> ret a)"

definition of_result :: "string + 'a \<Rightarrow> ('s, 'a) prog" where
  "of_result x = (case x of Inl e \<Rightarrow> fail e | Inr a \<Rightarrow> ret a)"

definition unwrap_result :: "'e + 'a \<Rightarrow> ('s, 'a) prog" where
  "unwrap_result x = (case x of Inl e \<Rightarrow> panic | Inr a \<Rightarrow> ret a)"

definition read_state :: "('s \<Rightarrow> 'a) \<Rightarrow> ('s, 'a) prog" where
  "read_state f = (\<lambda>s. (Ok (f s), s))"

lemma prog_simps [simp]:
  "ret a s = (Ok a, s)" "fail e s = (Err e, s)" "panic s = (Panic, s)"
  "of_rust (Some a) = ret a" "of_rust None = panic"
  "ok_or e (Some a) = ret a" "ok_or e None = fail e"
  "of_result (Inr a) = ret a" "of_result (Inl e) = fail e"
  "unwrap_result (Inr a) = ret a" "unwrap_result (Inl e') = panic"
  "read_state f s = (Ok (f s), s)"
  by (simp_all add: ret_def fail_def panic_def of_rust_def ok_or_def of_result_def unwrap_result_def read_state_def)

lemma then_do_simps [simp]:
  "then_do (ret a) f = f a" "then_do (fail e) f = fail e" "then_do panic f = panic"
  by (simp_all add: then_do_def fun_eq_iff)

lemma then_do_run: "then_do m f s = bind_outcome (m s) f"
  by (simp add: then_do_def)

lemma then_do_assoc: "then_do (then_do m f) g = then_do m (\<lambda>a. then_do (f a) g)"
proof
  fix s
  show "then_do (then_do m f) g s = then_do m (\<lambda>a. then_do (f a) g) s"
    by (cases "m s"; cases "fst (m s)") (auto simp: then_do_run)
qed

lemma then_do_if: "then_do (if c then m else m') f = (if c then then_do m f else then_do m' f)"
  by simp

lemma then_do_option:
  "then_do (case x of None \<Rightarrow> m | Some a \<Rightarrow> g a) f = (case x of None \<Rightarrow> then_do m f | Some a \<Rightarrow> then_do (g a) f)"
  by (cases x) simp_all

lemmas then_do_push = then_do_if then_do_option then_do_assoc

section \<open>Programs whose outcome does not depend on the state\<close>

definition yields :: "('s \<Rightarrow> bool) \<Rightarrow> ('s, 'a) prog \<Rightarrow> 'a outcome \<Rightarrow> bool" where
  "yields I m r \<longleftrightarrow> (\<forall>s. I s \<longrightarrow> fst (m s) = r \<and> I (snd (m s)))"

definition transparent :: "('s \<Rightarrow> bool) \<Rightarrow> ('s, 'a) prog \<Rightarrow> bool" where
  "transparent I m \<longleftrightarrow> (\<exists>r. yields I m r)"

named_theorems transparent_intro \<open>programs whose outcome the invariant determines\<close>

lemma yields_basic:
  "yields I (ret a) (Ok a)" "yields I (fail e) (Err e)" "yields I panic Panic"
  by (simp_all add: yields_def)

lemma yields_then: "yields I m (Ok a) \<Longrightarrow> yields I (f a) r \<Longrightarrow> yields I (then_do m f) r"
  by (auto simp: yields_def then_do_def) (metis bind_outcome.simps(1) prod.collapse)+

lemma yields_then_err: "yields I m (Err e) \<Longrightarrow> yields I (then_do m f) (Err e)"
  by (auto simp: yields_def then_do_def) (metis bind_outcome.simps(2) fst_conv snd_conv prod.collapse)+

lemma yields_then_panic: "yields I m Panic \<Longrightarrow> yields I (then_do m f) Panic"
  by (auto simp: yields_def then_do_def) (metis bind_outcome.simps(3) fst_conv snd_conv prod.collapse)+

lemma yields_then_rust: "x = Some a \<Longrightarrow> yields I (f a) r \<Longrightarrow> yields I (then_do (of_rust x) f) r"
  by simp

lemma transparentI: "yields I m r \<Longrightarrow> transparent I m"
  by (auto simp: transparent_def)

lemma transparent_then [transparent_intro]:
  assumes "transparent I m" and "\<And>a. transparent I (f a)"
  shows "transparent I (then_do m f)"
proof -
  obtain r where r: "yields I m r" using assms(1) by (auto simp: transparent_def)
  show ?thesis
  proof (cases r)
    case (Ok a)
    obtain r' where "yields I (f a) r'" using assms(2) [of a] by (auto simp: transparent_def)
    then show ?thesis using r Ok by (blast intro: transparentI yields_then)
  next
    case (Err e)
    then show ?thesis using r by (blast intro: transparentI yields_then_err)
  next
    case Panic
    then show ?thesis using r by (blast intro: transparentI yields_then_panic)
  qed
qed

lemma transparent_basic [transparent_intro]:
  "transparent I (ret a)" "transparent I (fail e)" "transparent I panic"
  by (blast intro: transparentI yields_basic)+

lemma transparent_of_rust [transparent_intro]: "transparent I (of_rust x)"
  by (cases x) (simp_all add: transparent_basic)

lemma transparent_ok_or [transparent_intro]: "transparent I (ok_or e x)"
  by (cases x) (simp_all add: transparent_basic)

lemma transparent_of_result [transparent_intro]: "transparent I (of_result x)"
  by (cases x) (simp_all add: transparent_basic)

lemma transparent_unwrap_result [transparent_intro]: "transparent I (unwrap_result x)"
  by (cases x) (simp_all add: transparent_basic)

lemma transparent_if [transparent_intro]:
  "transparent I m \<Longrightarrow> transparent I m' \<Longrightarrow> transparent I (if b then m else m')"
  by simp

lemma transparent_case_option [transparent_intro]:
  "transparent I m \<Longrightarrow> (\<And>a. transparent I (f a)) \<Longrightarrow> transparent I (case x of None \<Rightarrow> m | Some a \<Rightarrow> f a)"
  by (cases x) simp_all

lemma transparent_same: "transparent I m \<Longrightarrow> I s \<Longrightarrow> I s' \<Longrightarrow> fst (m s) = fst (m s') \<and> I (snd (m s))"
  by (auto simp: transparent_def yields_def)

section \<open>Reading a program backwards from its result\<close>

text \<open>
  \<open>returns I m b\<close>: from some state of the invariant the program returns \<open>b\<close>. The rules of \<open>returns_dest\<close> peel off one
  step each, so that \<open>auto\<close> turns a successful run into the facts of the branch it took.
\<close>

definition returns :: "('s \<Rightarrow> bool) \<Rightarrow> ('s, 'a) prog \<Rightarrow> 'a \<Rightarrow> bool" where
  "returns I m b \<longleftrightarrow> (\<exists>s. I s \<and> fst (m s) = Ok b)"

definition require :: "string \<Rightarrow> ('s, 'a option) prog \<Rightarrow> ('s, 'a) prog" where
  "require e m = then_do m (ok_or e)"

named_theorems returns_dest \<open>one step of a successful run\<close>

lemma returnsI: "I s \<Longrightarrow> fst (m s) = Ok b \<Longrightarrow> returns I m b"
  by (auto simp: returns_def)

lemma returns_basic [simp]:
  "\<not> returns I (fail e) b" "\<not> returns I panic b"
  by (auto simp: returns_def)

lemma returns_ret [returns_dest]: "returns I (ret a) b \<Longrightarrow> b = a"
  by (auto simp: returns_def)

lemma returns_then:
  assumes "returns I (then_do m f) b" and "yields I m r"
  obtains a where "r = Ok a" "returns I (f a) b"
proof -
  obtain s where s: "I s" "fst (then_do m f s) = Ok b" using assms(1) by (auto simp: returns_def)
  obtain r' s' where m: "m s = (r', s')" by (cases "m s")
  have "r' = r" "I s'" using assms(2) s(1) m by (auto simp: yields_def)
  moreover have "\<exists>a. r' = Ok a \<and> fst (f a s') = Ok b"
    using s(2) m by (cases r') (auto simp: then_do_run)
  ultimately show ?thesis using that by (auto simp: returns_def)
qed

lemma returns_then_ok: "returns I (then_do m f) b \<Longrightarrow> yields I m (Ok a) \<Longrightarrow> returns I (f a) b"
  by (erule returns_then, assumption) simp

lemma returns_then_of_rust [returns_dest]:
  "returns I (then_do (of_rust x) f) b \<Longrightarrow> \<exists>a. x = Some a \<and> returns I (f a) b"
  by (cases x) auto

lemma returns_then_ok_or [returns_dest]:
  "returns I (then_do (ok_or e x) f) b \<Longrightarrow> \<exists>a. x = Some a \<and> returns I (f a) b"
  by (cases x) auto

lemma returns_require [returns_dest]:
  "returns I (then_do (require e m) f) b \<Longrightarrow> returns I (then_do m (\<lambda>x. then_do (ok_or e x) f)) b"
  by (simp add: require_def then_do_assoc)

text \<open>A block under an \<open>if\<close> that appends to a list.\<close>

definition on_flag :: "bool \<Rightarrow> ('s, 'a list) prog \<Rightarrow> ('s, 'a list) prog" where
  "on_flag c m = (if c then m else ret [])"

lemma yields_on_flag: "yields I m (Ok xs) \<Longrightarrow> yields I (on_flag c m) (Ok (if c then xs else []))"
  by (simp add: on_flag_def yields_basic del: prog_simps)

lemma returns_on_flag:
  assumes "returns I (then_do (on_flag c m) f) b" and "yields I m r"
  shows "\<exists>xs. (c \<longrightarrow> r = Ok xs) \<and> returns I (f (if c then xs else [])) b"
  using assms by (cases c) (auto simp: on_flag_def simp del: prog_simps elim: returns_then)

lemma transparent_on_flag [transparent_intro]: "transparent I m \<Longrightarrow> transparent I (on_flag c m)"
  unfolding on_flag_def by (intro transparent_intro)

lemma yields_require:
  "yields I m (Ok (Some a)) \<Longrightarrow> yields I (f a) r \<Longrightarrow> yields I (then_do (require e m) f) r"
  unfolding require_def then_do_assoc by (erule yields_then) simp

lemma transparent_require [transparent_intro]: "transparent I m \<Longrightarrow> transparent I (require e m)"
  unfolding require_def by (intro transparent_then transparent_ok_or)

section \<open>The contract of a memo table\<close>

text \<open>
  A table remembers results under their key. \<open>fetch\<close> is the lookup a client calls, \<open>compute\<close> the computation it falls
  back to, \<open>wrap\<close> the outcome a remembered value stands for and \<open>keep\<close> the part of an outcome that is remembered. The
  provider promises that what is remembered is what would be computed.
\<close>

locale memo_table =
  fixes inv :: "'s \<Rightarrow> bool"
    and cache_of :: "'s \<Rightarrow> 'k \<Rightarrow> 'v option"
    and put :: "'k \<Rightarrow> 'v \<Rightarrow> 's \<Rightarrow> 's"
    and wrap :: "'v \<Rightarrow> 'r outcome"
    and keep :: "'r outcome \<Rightarrow> 'v option"
    and compute :: "'k \<Rightarrow> ('s, 'r) prog"
    and spec :: "'k \<Rightarrow> 'r outcome"
    and fetch :: "'k \<Rightarrow> ('s, 'r) prog"
  assumes hit: "cache_of s k = Some v \<Longrightarrow> fetch k s = (wrap v, s)"
    and miss: "cache_of s k = None \<Longrightarrow> fetch k s = (case compute k s of (r, s') \<Rightarrow>
        (r, case keep r of None \<Rightarrow> s' | Some v \<Rightarrow> put k v s'))"
    and computes: "yields inv (compute k) (spec k)"
    and remembered: "inv s \<Longrightarrow> cache_of s k = Some v \<Longrightarrow> wrap v = spec k"
    and put_keeps: "inv s \<Longrightarrow> keep (spec k) = Some v \<Longrightarrow> inv (put k v s)"
begin

lemma fetch_yields: "yields inv (fetch k) (spec k)"
  unfolding yields_def
proof (intro allI impI)
  fix s assume s: "inv s"
  show "fst (fetch k s) = spec k \<and> inv (snd (fetch k s))"
  proof (cases "cache_of s k")
    case (Some v)
    then show ?thesis using hit [OF Some] remembered [OF s Some] s by simp
  next
    case None
    obtain r s' where c: "compute k s = (r, s')" by (cases "compute k s")
    have "r = spec k" "inv s'" using computes [of k] s c by (auto simp: yields_def)
    then show ?thesis
      using miss [OF None] c put_keeps by (auto split: option.split)
  qed
qed

lemma fetch_transparent: "transparent inv (fetch k)"
  by (rule transparentI [OF fetch_yields])

end

end
