(* ===== verification/RustInt.thy ===== *)
theory RustInt
  imports Prelude
begin

text \<open>
  Rust's fixed-width unsigned arithmetic. The plain operators panic on overflow when the
  crate is built with overflow checks (the \<open>dev\<close> profile of the repository) and wrap
  around when it is not (its \<open>release\<close> profile): the profile is an argument of every
  operator. Division by zero panics in both. The \<open>checked_\<close>, \<open>saturating_\<close> and \<open>as\<close>
  operations do not depend on the profile.
\<close>

section \<open>Operators\<close>

datatype profile = Checked | Wrapping

definition add_w :: "profile \<Rightarrow> 'a::len word \<Rightarrow> 'a word \<Rightarrow> 'a word rust" where
  "add_w p a b = (if p = Checked \<and> 2 ^ LENGTH('a) \<le> unat a + unat b then None else Some (a + b))"

definition sub_w :: "profile \<Rightarrow> 'a::len word \<Rightarrow> 'a word \<Rightarrow> 'a word rust" where
  "sub_w p a b = (if p = Checked \<and> a < b then None else Some (a - b))"

definition mul_w :: "profile \<Rightarrow> 'a::len word \<Rightarrow> 'a word \<Rightarrow> 'a word rust" where
  "mul_w p a b = (if p = Checked \<and> 2 ^ LENGTH('a) \<le> unat a * unat b then None else Some (a * b))"

definition div_w :: "'a::len word \<Rightarrow> 'a word \<Rightarrow> 'a word rust" where
  "div_w a b = (if b = 0 then None else Some (a div b))"

definition checked_add :: "'a::len word \<Rightarrow> 'a word \<Rightarrow> 'a word option" where
  "checked_add a b = (if unat a + unat b < 2 ^ LENGTH('a) then Some (a + b) else None)"

definition checked_sub :: "'a::len word \<Rightarrow> 'a word \<Rightarrow> 'a word option" where
  "checked_sub a b = (if b \<le> a then Some (a - b) else None)"

definition checked_mul :: "'a::len word \<Rightarrow> 'a word \<Rightarrow> 'a word option" where
  "checked_mul a b = (if unat a * unat b < 2 ^ LENGTH('a) then Some (a * b) else None)"

definition checked_div :: "'a::len word \<Rightarrow> 'a word \<Rightarrow> 'a word option" where
  "checked_div a b = (if b = 0 then None else Some (a div b))"

definition saturating_add :: "'a::len word \<Rightarrow> 'a word \<Rightarrow> 'a word" where
  "saturating_add a b = (if unat a + unat b < 2 ^ LENGTH('a) then a + b else - 1)"

definition saturating_sub :: "'a::len word \<Rightarrow> 'a word \<Rightarrow> 'a word" where
  "saturating_sub a b = (if b \<le> a then a - b else 0)"

definition saturating_mul :: "'a::len word \<Rightarrow> 'a word \<Rightarrow> 'a word" where
  "saturating_mul a b = (if unat a * unat b < 2 ^ LENGTH('a) then a * b else - 1)"

definition unwrap_or :: "'a option \<Rightarrow> 'a \<Rightarrow> 'a" where
  "unwrap_or x d = (case x of None \<Rightarrow> d | Some v \<Rightarrow> v)"

definition unwrap_ok :: "'e + 'a \<Rightarrow> 'a rust" where
  "unwrap_ok r = (case r of Inl _ \<Rightarrow> None | Inr v \<Rightarrow> Some v)"

abbreviation as_u64 :: "'a::len word \<Rightarrow> u64" where "as_u64 \<equiv> ucast"
abbreviation as_u128 :: "'a::len word \<Rightarrow> u128" where "as_u128 \<equiv> ucast"

text \<open>\<open>i64\<close> values are integers; the result of an operation out of range panics or wraps.\<close>

definition i64_range :: "int \<Rightarrow> bool" where
  "i64_range n \<longleftrightarrow> - (2 ^ 63) \<le> n \<and> n < 2 ^ 63"

definition wrap_i64 :: "int \<Rightarrow> int" where
  "wrap_i64 n = (n + 2 ^ 63) mod 2 ^ 64 - 2 ^ 63"

definition i64_result :: "profile \<Rightarrow> int \<Rightarrow> int rust" where
  "i64_result p n = (if i64_range n then Some n else if p = Checked then None else Some (wrap_i64 n))"

lemma unwrap_or_simps [simp]: "unwrap_or None d = d" "unwrap_or (Some v) d = v"
  by (simp_all add: unwrap_or_def)

lemma unwrap_ok_simps [simp]: "unwrap_ok (Inl e) = None" "unwrap_ok (Inr v) = Some v"
  by (simp_all add: unwrap_ok_def)

section \<open>Reading words as natural numbers\<close>

lemma word_of_nat_unat [simp]: "word_of_nat (unat x) = (x :: 'a::len word)"
  by (simp add: of_nat_unat)

lemma unat_u64_less: "unat (x :: u64) < 18446744073709551616"
  using unsigned_less [of x, where 'a = nat] by simp

lemma unat_u128_less: "unat (x :: u128) < 340282366920938463463374607431768211456"
  using unsigned_less [of x, where 'a = nat] by simp

lemma unat_as_u128 [simp]: "unat (as_u128 (x :: u64)) = unat x"
proof -
  have "unat x < 2 ^ 128"
    by (rule less_trans [OF unat_u64_less]) simp
  then show ?thesis by (simp add: unsigned_ucast_eq take_bit_nat_eq_self)
qed

lemma unat_as_u64 [unat_eval]: "unat (as_u64 (x :: u128)) = unat x mod 18446744073709551616"
  by (simp add: unsigned_ucast_eq take_bit_eq_mod)

lemma unat_as_u64_small [simp]:
  "unat (x :: u128) < 18446744073709551616 \<Longrightarrow> unat (as_u64 x) = unat x"
  by (simp add: unat_eval)

lemma as_u64_as_u128 [simp]: "as_u64 (as_u128 (x :: u64)) = x"
  using unat_u64_less [of x] by (simp add: word_unat_eq_iff unat_eval)

lemma unat_of_nat_small [simp]:
  "n < 2 ^ LENGTH('a::len) \<Longrightarrow> unat (word_of_nat n :: 'a word) = n"
  by (simp add: unat_of_nat)

lemma word_of_nat_eqI: "unat (x :: 'a::len word) = n \<Longrightarrow> x = word_of_nat n"
  by auto

section \<open>Steps that stay in range\<close>

lemma add_w_ok [rust_ok]:
  "unat a + unat b < 2 ^ LENGTH('a::len) \<Longrightarrow> add_w p a (b :: 'a word) = Some (a + b)"
  by (simp add: add_w_def)

lemma sub_w_ok [rust_ok]: "b \<le> a \<Longrightarrow> sub_w p a (b :: 'a::len word) = Some (a - b)"
  by (auto simp: sub_w_def)

lemma mul_w_ok [rust_ok]:
  "unat a * unat b < 2 ^ LENGTH('a::len) \<Longrightarrow> mul_w p a (b :: 'a word) = Some (a * b)"
  by (simp add: mul_w_def)

lemma div_w_ok [rust_ok]: "b \<noteq> 0 \<Longrightarrow> div_w a b = Some (a div b)"
  by (simp add: div_w_def)

lemma checked_add_ok [rust_ok]:
  "unat a + unat b < 2 ^ LENGTH('a::len) \<Longrightarrow> checked_add a (b :: 'a word) = Some (a + b)"
  by (simp add: checked_add_def)

lemma checked_sub_ok [rust_ok]: "b \<le> a \<Longrightarrow> checked_sub a (b :: 'a::len word) = Some (a - b)"
  by (simp add: checked_sub_def)

lemma checked_mul_ok [rust_ok]:
  "unat a * unat b < 2 ^ LENGTH('a::len) \<Longrightarrow> checked_mul a (b :: 'a word) = Some (a * b)"
  by (simp add: checked_mul_def)

lemma checked_div_ok [rust_ok]: "b \<noteq> 0 \<Longrightarrow> checked_div a b = Some (a div b)"
  by (simp add: checked_div_def)

text \<open>The same steps with the bound of \<open>u128\<close> written out, for use as rewriting facts.\<close>

lemma u128_ok:
  "unat a + unat b < 2 ^ 128 \<Longrightarrow> add_w p a (b :: u128) = Some (a + b)"
  "unat a * unat b < 2 ^ 128 \<Longrightarrow> mul_w p a (b :: u128) = Some (a * b)"
  "unat a + unat b < 2 ^ 128 \<Longrightarrow> checked_add a (b :: u128) = Some (a + b)"
  "unat a * unat b < 2 ^ 128 \<Longrightarrow> checked_mul a (b :: u128) = Some (a * b)"
  by (simp_all add: rust_ok)

lemma unat_add_ok [unat_eval]:
  "unat a + unat b < 2 ^ LENGTH('a::len) \<Longrightarrow> unat (a + b :: 'a word) = unat a + unat b"
  by (simp add: unat_word_ariths)

lemma unat_mul_ok [unat_eval]:
  "unat a * unat b < 2 ^ LENGTH('a::len) \<Longrightarrow> unat (a * b :: 'a word) = unat a * unat b"
  by (simp add: unat_word_ariths)

lemma unat_sub_ok [unat_eval]: "b \<le> a \<Longrightarrow> unat (a - b :: 'a::len word) = unat a - unat b"
  by (rule unat_sub)

lemma unat_div_ok [unat_eval]: "unat (a div b :: 'a::len word) = unat a div unat b"
  by (rule unat_div_distrib)

lemma word_le_unat: "a \<le> b \<longleftrightarrow> unat a \<le> unat (b :: 'a::len word)"
  by (rule word_le_nat_alt)

lemma unat_saturating_sub [unat_eval]:
  "unat (saturating_sub a b :: 'a::len word) = unat a - unat b"
  by (simp add: saturating_sub_def unat_sub word_le_nat_alt)

lemma unat_saturating_add_le: "unat (saturating_add a b :: 'a::len word) \<le> unat a + unat b"
proof (cases "unat a + unat b < 2 ^ LENGTH('a)")
  case True
  then show ?thesis by (simp add: saturating_add_def unat_add_ok)
next
  case False
  have "unat (saturating_add a b) < 2 ^ LENGTH('a)"
    by (rule unsigned_less)
  with False show ?thesis by linarith
qed

lemma word_neq_0_unat: "x \<noteq> 0 \<longleftrightarrow> 0 < unat (x :: 'a::len word)"
  by (simp add: unat_gt_0)

lemma wrap_i64_small: "i64_range n \<Longrightarrow> wrap_i64 n = n"
  by (simp add: wrap_i64_def i64_range_def)

lemma i64_result_ok [rust_ok]: "i64_range n \<Longrightarrow> i64_result p n = Some n"
  by (simp add: i64_result_def)

end
