(* ===== verification/Solana.thy ===== *)
theory Solana
  imports RustInt
begin

text \<open>
  The Solana vocabulary the SDK builds on: public keys as 256-bit words (the 32 bytes read
  big-endian, so a \<open>pubkey!\<close> literal is the number its base58 text denotes), account metas,
  instructions, little-endian byte images, and the constants of
  \<open>sol-trade-sdk/src/constants/accounts.rs\<close>. The functions of the \<open>solana_sdk\<close>, \<open>fnv\<close> and system-program
  crates are not part of the repository: they are the fields of the record \<open>chain_ext\<close>,
  an argument of every definition that calls them.
\<close>

section \<open>Keys, metas, instructions\<close>

type_synonym pubkey = "256 word"

definition pubkey_default :: pubkey where
  "pubkey_default = 0"

record account_meta =
  meta_pubkey :: pubkey
  is_signer :: bool
  is_writable :: bool

record instruction =
  program_id :: pubkey
  accounts :: "account_meta list"
  data :: "u8 list"

definition meta_new :: "pubkey \<Rightarrow> bool \<Rightarrow> account_meta" where
  "meta_new k s = \<lparr>meta_pubkey = k, is_signer = s, is_writable = True\<rparr>"

definition meta_new_readonly :: "pubkey \<Rightarrow> bool \<Rightarrow> account_meta" where
  "meta_new_readonly k s = \<lparr>meta_pubkey = k, is_signer = s, is_writable = False\<rparr>"

lemma meta_simps [simp]:
  "meta_pubkey (meta_new k b) = k" "is_signer (meta_new k b) = b" "is_writable (meta_new k b)"
  "meta_pubkey (meta_new_readonly k b) = k" "is_signer (meta_new_readonly k b) = b" "\<not> is_writable (meta_new_readonly k b)"
  by (simp_all add: meta_new_def meta_new_readonly_def)

text \<open>The wallet is the one account that has to sign.\<close>

definition sole_signer :: "pubkey \<Rightarrow> instruction \<Rightarrow> bool" where
  "sole_signer k ix \<longleftrightarrow> filter is_signer (accounts ix) = [meta_new k True]"

section \<open>Byte images\<close>

definition to_le_bytes :: "'a::len word \<Rightarrow> u8 list" where
  "to_le_bytes w = map (\<lambda>i. ucast (drop_bit (8 * i) w)) [0..<LENGTH('a) div 8]"

fun le_value :: "u8 list \<Rightarrow> nat" where
  "le_value [] = 0"
| "le_value (b # bs) = unat b + 256 * le_value bs"

definition pubkey_bytes :: "pubkey \<Rightarrow> u8 list" where
  "pubkey_bytes k = rev (to_le_bytes k)"

lemma length_to_le_bytes [simp]: "length (to_le_bytes (w :: 'a::len word)) = LENGTH('a) div 8"
  by (simp add: to_le_bytes_def)

lemma length_pubkey_bytes [simp]: "length (pubkey_bytes k) = 32"
  by (simp add: pubkey_bytes_def)

text \<open>Reading the bytes of a number back gives the number: the image is the base-256 expansion.\<close>

lemma le_value_upt:
  "le_value (map (\<lambda>i. word_of_nat (n div 256 ^ i)) [0..<k]) = n mod 256 ^ k"
proof (induction k arbitrary: n)
  case 0
  then show ?case by simp
next
  case (Suc k)
  have shift: "map (\<lambda>i. word_of_nat (n div 256 ^ i) :: u8) [Suc 0..<Suc k]
      = map (\<lambda>i. word_of_nat (n div 256 div 256 ^ i)) [0..<k]"
    by (simp add: map_Suc_upt [symmetric] div_mult2_eq del: upt_Suc)
  have "le_value (map (\<lambda>i. word_of_nat (n div 256 ^ i)) [0..<Suc k])
      = n mod 256 + 256 * (n div 256 mod 256 ^ k)"
    using Suc.IH [of "n div 256"] shift by (simp add: upt_conv_Cons unat_of_nat del: upt_Suc)
  also have "\<dots> = n mod 256 ^ Suc k"
    by (simp add: mod_mult2_eq)
  finally show ?case .
qed

lemma to_le_bytes_nat:
  "to_le_bytes (w :: 'a::len word) = map (\<lambda>i. word_of_nat (unat w div 256 ^ i)) [0..<LENGTH('a) div 8]"
proof -
  have "ucast (drop_bit (8 * i) w) = (word_of_nat (unat w div 256 ^ i) :: u8)" for i
  proof -
    have d: "unat (drop_bit (8 * i) w) = unat w div 2 ^ (8 * i)"
      unfolding unat_drop_bit_eq by (rule drop_bit_eq_div)
    have "unat (ucast (drop_bit (8 * i) w) :: u8) = take_bit 8 (unat w div 2 ^ (8 * i))"
      by (simp only: unsigned_ucast_eq d) simp
    then show ?thesis
      by (simp add: word_unat_eq_iff unat_of_nat take_bit_eq_mod power_mult)
  qed
  then show ?thesis by (simp add: to_le_bytes_def)
qed

lemma le_value_to_le_bytes:
  "8 dvd LENGTH('a::len) \<Longrightarrow> le_value (to_le_bytes (w :: 'a word)) = unat w"
proof -
  assume "8 dvd LENGTH('a)"
  then obtain k where k: "LENGTH('a) = 8 * k"
    by (elim dvdE)
  have "(256 :: nat) ^ (LENGTH('a) div 8) = 2 ^ LENGTH('a)"
    unfolding k by (simp add: power_mult)
  then show ?thesis
    using unsigned_less [of w, where 'a = nat] by (simp add: to_le_bytes_nat le_value_upt)
qed

text \<open>The 64-bit number an on-chain program reads at an offset of the instruction data.\<close>

definition u64_field :: "u8 list \<Rightarrow> nat \<Rightarrow> nat" where
  "u64_field bytes i = le_value (take 8 (drop i bytes))"

lemma u64_field_first: "length disc = 8 \<Longrightarrow> u64_field (disc @ to_le_bytes (a :: u64) @ rest) 8 = unat a"
  by (simp add: u64_field_def le_value_to_le_bytes)

lemma u64_field_second:
  "length disc = 8 \<Longrightarrow> u64_field (disc @ to_le_bytes (a :: u64) @ to_le_bytes (b :: u64) @ rest) 16 = unat b"
  by (simp add: u64_field_def le_value_to_le_bytes)

section \<open>Constants (constants/accounts.rs)\<close>

definition SYSTEM_PROGRAM :: pubkey where
  "SYSTEM_PROGRAM = 0"

definition TOKEN_PROGRAM :: pubkey where
  "TOKEN_PROGRAM = 3106054211088883198575105191760876350940303353676611666299516346430146937001"

definition TOKEN_PROGRAM_2022 :: pubkey where
  "TOKEN_PROGRAM_2022 = 3106054213517619466333521364411816883583182866730275619636245252638471457788"

definition SOL_TOKEN_ACCOUNT :: pubkey where
  "SOL_TOKEN_ACCOUNT = 2988679396378646993494765771507681406623014513651778753134412041978399162368"

definition WSOL_TOKEN_ACCOUNT :: pubkey where
  "WSOL_TOKEN_ACCOUNT = 2988679396378646993494765771507681406623014513651778753134412041978399162369"

definition USD1_TOKEN_ACCOUNT :: pubkey where
  "USD1_TOKEN_ACCOUNT = 3178882394281730725188736054871465834804293037239186274067888485099793112122"

definition USDC_TOKEN_ACCOUNT :: pubkey where
  "USDC_TOKEN_ACCOUNT = 90000504370102394704099784797280792267247599056409324908524740370261802442081"

definition ASSOCIATED_TOKEN_PROGRAM_ID :: pubkey where
  "ASSOCIATED_TOKEN_PROGRAM_ID = 63590851936555425018482094543133168213809614203979002813017495418995103889497"

definition SYSTEM_PROGRAM_META :: account_meta where
  "SYSTEM_PROGRAM_META = meta_new_readonly SYSTEM_PROGRAM False"

lemmas token_account_defs =
  SOL_TOKEN_ACCOUNT_def WSOL_TOKEN_ACCOUNT_def USD1_TOKEN_ACCOUNT_def USDC_TOKEN_ACCOUNT_def

section \<open>Code outside the repository\<close>

text \<open>
  \<open>find_program_address\<close> and \<open>try_find_program_address\<close> derive an address and its bump from seeds and a program id;
  \<open>create_with_seed\<close> derives an address from a base, a seed and an owner; \<open>fnv_hash\<close> is the
  64-bit FNV hash of a byte string; the fields named \<open>ix_\<close> build the instructions of the system and compute-budget
  programs; \<open>choose_key\<close> is the draw of \<open>rand\<close>'s \<open>choose\<close> in the call at hand, whose documented contract is \<open>chooses\<close>:
  an element of the slice, nothing exactly when it is empty. \<open>sample_ext\<close> is a concrete instance, used to evaluate.
\<close>

record chain_ext =
  find_program_address :: "u8 list list \<Rightarrow> pubkey \<Rightarrow> pubkey \<times> u8"
  try_find_program_address :: "u8 list list \<Rightarrow> pubkey \<Rightarrow> (pubkey \<times> u8) option"
  create_with_seed :: "pubkey \<Rightarrow> u8 list \<Rightarrow> pubkey \<Rightarrow> string + pubkey"
  fnv_hash :: "u8 list \<Rightarrow> u64"
  ix_transfer :: "pubkey \<Rightarrow> pubkey \<Rightarrow> u64 \<Rightarrow> instruction"
  ix_create_account_with_seed ::
    "pubkey \<Rightarrow> pubkey \<Rightarrow> pubkey \<Rightarrow> u8 list \<Rightarrow> u64 \<Rightarrow> u64 \<Rightarrow> pubkey \<Rightarrow> instruction"
  ix_advance_nonce_account :: "pubkey \<Rightarrow> pubkey \<Rightarrow> instruction"
  ix_set_compute_unit_price :: "u64 \<Rightarrow> instruction"
  ix_set_compute_unit_limit :: "u32 \<Rightarrow> instruction"
  choose_key :: "pubkey list \<Rightarrow> pubkey option"

definition chooses :: "chain_ext \<Rightarrow> bool" where
  "chooses ext \<longleftrightarrow> (\<forall>keys. case choose_key ext keys of None \<Rightarrow> keys = [] | Some k \<Rightarrow> k \<in> set keys)"

definition sample_ext :: chain_ext where
  "sample_ext = \<lparr>
     find_program_address = (\<lambda>seeds program. (word_of_nat (le_value (rev (concat seeds))) + program, 255)),
     try_find_program_address = (\<lambda>seeds program. Some (word_of_nat (le_value (rev (concat seeds))) + program, 255)),
     create_with_seed = (\<lambda>base seed owner. Inr (base + word_of_nat (le_value seed) + owner)),
     fnv_hash = (\<lambda>bytes. word_of_nat (le_value bytes)),
     ix_transfer = (\<lambda>source destination lamports. \<lparr>program_id = 0,
       accounts = [meta_new source True, meta_new destination False], data = [2, 0, 0, 0] @ to_le_bytes lamports\<rparr>),
     ix_create_account_with_seed = (\<lambda>source destination base seed lamports space owner. \<lparr>program_id = 0,
       accounts = [meta_new source True, meta_new destination False], data = [3, 0, 0, 0] @ seed @ to_le_bytes lamports\<rparr>),
     ix_advance_nonce_account = (\<lambda>nonce authority. \<lparr>program_id = 0,
       accounts = [meta_new nonce False, meta_new_readonly authority True], data = [4, 0, 0, 0]\<rparr>),
     ix_set_compute_unit_price = (\<lambda>price. \<lparr>program_id = 1, accounts = [], data = 3 # to_le_bytes price\<rparr>),
     ix_set_compute_unit_limit = (\<lambda>limit. \<lparr>program_id = 1, accounts = [], data = 2 # to_le_bytes limit\<rparr>),
     choose_key = (\<lambda>keys. case keys of [] \<Rightarrow> None | k # _ \<Rightarrow> Some k)\<rparr>"

lemma sample_ext_chooses: "chooses sample_ext"
  by (auto simp: chooses_def sample_ext_def split: list.split)

definition str_bytes :: "string \<Rightarrow> u8 list" where
  "str_bytes s = map (\<lambda>c. word_of_nat (of_char c)) s"

end
