(* ===== verification/Caches.thy ===== *)
theory Caches
  imports Prog Solana
begin

text \<open>
  The process-wide caches and the token-account helpers over them: \<open>sol-trade-sdk/src/common/fast_fn.rs\<close>,
  \<open>common/seed.rs\<close>, \<open>common/spl_token.rs\<close>, \<open>common/spl_token_2022.rs\<close>, \<open>common/spl_associated_token_account.rs\<close> and
  \<open>trading/common/compute_budget_manager.rs\<close>. The static tables and the two rent cells are the fields of \<open>caches\<close>, which
  every function threads. The last sections interpret \<open>memo_table\<close> on each table.
\<close>

section \<open>Token instructions (spl\_token.rs, spl\_token\_2022.rs)\<close>

definition close_account :: "pubkey \<Rightarrow> pubkey \<Rightarrow> pubkey \<Rightarrow> pubkey \<Rightarrow> pubkey list \<Rightarrow> instruction" where
  "close_account token_program account destination owner signers =
     \<lparr>program_id = token_program,
      accounts = [meta_new account False, meta_new destination False, meta_new_readonly owner (signers = [])]
                 @ map (\<lambda>k. meta_new_readonly k True) signers,
      data = [9]\<rparr>"

definition token_transfer :: "pubkey \<Rightarrow> pubkey \<Rightarrow> pubkey \<Rightarrow> pubkey \<Rightarrow> u64 \<Rightarrow> pubkey list \<Rightarrow> instruction" where
  "token_transfer token_program source destination owner amount signers =
     \<lparr>program_id = token_program,
      accounts = [meta_new source False, meta_new destination False, meta_new_readonly owner (signers = [])]
                 @ map (\<lambda>k. meta_new_readonly k True) signers,
      data = 3 # to_le_bytes amount\<rparr>"

definition initialize_account3 :: "pubkey \<Rightarrow> pubkey \<Rightarrow> pubkey \<Rightarrow> pubkey \<Rightarrow> instruction" where
  "initialize_account3 token_program account mint owner =
     \<lparr>program_id = token_program, accounts = [meta_new account False, meta_new_readonly mint False],
      data = 18 # pubkey_bytes owner\<rparr>"

definition initialize_account3_2022 :: "pubkey \<Rightarrow> pubkey \<Rightarrow> pubkey \<Rightarrow> pubkey \<Rightarrow> instruction" where
  "initialize_account3_2022 token_program account mint owner =
     \<lparr>program_id = token_program, accounts = [meta_new account False, meta_new_readonly mint False],
      data = 18 # pubkey_bytes owner\<rparr>"

section \<open>Derived addresses (spl\_associated\_token\_account.rs, seed.rs)\<close>

definition get_associated_token_address_with_program_id :: "chain_ext \<Rightarrow> pubkey \<Rightarrow> pubkey \<Rightarrow> pubkey \<Rightarrow> pubkey" where
  "get_associated_token_address_with_program_id ext wallet mint token_program =
     fst (find_program_address ext [pubkey_bytes wallet, pubkey_bytes token_program, pubkey_bytes mint]
            ASSOCIATED_TOKEN_PROGRAM_ID)"

definition get_associated_token_address :: "chain_ext \<Rightarrow> pubkey \<Rightarrow> pubkey \<Rightarrow> pubkey" where
  "get_associated_token_address ext wallet mint =
     get_associated_token_address_with_program_id ext wallet mint TOKEN_PROGRAM"

definition create_associated_token_account_idempotent :: "chain_ext \<Rightarrow> pubkey \<Rightarrow> pubkey \<Rightarrow> pubkey \<Rightarrow> pubkey \<Rightarrow> instruction" where
  "create_associated_token_account_idempotent ext funding wallet mint token_program =
     \<lparr>program_id = ASSOCIATED_TOKEN_PROGRAM_ID,
      accounts = [meta_new funding True,
        meta_new (get_associated_token_address_with_program_id ext wallet mint token_program) False,
        meta_new_readonly wallet False, meta_new_readonly mint False, meta_new_readonly SYSTEM_PROGRAM False,
        meta_new_readonly token_program False],
      data = [1]\<rparr>"

text \<open>The eight hexadecimal digits of a 32-bit word, most significant first, as the loop over \<open>buf\<close> writes them.\<close>

definition hex_digit :: "u8 \<Rightarrow> u8" where
  "hex_digit nibble = (if nibble \<le> 9 then 48 + nibble else 97 + (nibble - 10))"

definition hex_nibble :: "u32 \<Rightarrow> nat \<Rightarrow> u8" where
  "hex_nibble v i = ucast (and (drop_bit (28 - i * 4) v) 15)"

definition hex_seed :: "u32 \<Rightarrow> u8 list" where
  "hex_seed v = map (\<lambda>i. hex_digit (hex_nibble v i)) [0..<8]"

definition mint_seed :: "chain_ext \<Rightarrow> pubkey \<Rightarrow> u8 list" where
  "mint_seed ext mint = hex_seed (ucast (and (fnv_hash ext (pubkey_bytes mint)) 0xFFFFFFFF))"

definition get_associated_token_address_with_program_id_use_seed ::
  "chain_ext \<Rightarrow> pubkey \<Rightarrow> pubkey \<Rightarrow> pubkey \<Rightarrow> string + pubkey" where
  "get_associated_token_address_with_program_id_use_seed ext wallet mint token_program =
     create_with_seed ext wallet (mint_seed ext mint) token_program"

section \<open>The caches\<close>

datatype pda_cache_key =
    PumpFunUserVolume pubkey
  | PumpFunBondingCurve pubkey
  | PumpFunBondingCurveV2 pubkey
  | PumpFunCreatorVault pubkey
  | BonkPool pubkey pubkey
  | BonkVault pubkey pubkey
  | PumpSwapUserVolume pubkey
  | PumpSwapPoolV2 pubkey

datatype instruction_cache_key =
    CreateAssociatedTokenAccount pubkey pubkey pubkey pubkey bool
  | CloseWsolAccount pubkey pubkey

text \<open>Wallet, mint, token program, seed flag.\<close>

type_synonym ata_cache_key = "pubkey \<times> pubkey \<times> pubkey \<times> bool"

record caches =
  pda_cache :: "pda_cache_key \<rightharpoonup> pubkey"
  ata_cache :: "ata_cache_key \<rightharpoonup> pubkey"
  instruction_cache :: "instruction_cache_key \<rightharpoonup> instruction list"
  compute_budget_cache :: "u64 \<times> u32 \<rightharpoonup> instruction list"
  spl_token_rent :: u64
  spl_token_2022_rent :: u64

definition RENT_UNINITIALIZED :: u64 where
  "RENT_UNINITIALIZED = - 1"

definition caches_init :: caches where
  "caches_init = \<lparr>pda_cache = Map.empty, ata_cache = Map.empty, instruction_cache = Map.empty,
     compute_budget_cache = Map.empty, spl_token_rent = RENT_UNINITIALIZED, spl_token_2022_rent = RENT_UNINITIALIZED\<rparr>"

subsection \<open>Rents (seed.rs)\<close>

definition DEFAULT_TOKEN_ACCOUNT_RENT :: u64 where
  "DEFAULT_TOKEN_ACCOUNT_RENT = 2039280"

definition set_default_rents :: "(caches, unit) prog" where
  "set_default_rents s = (Ok (), s\<lparr>spl_token_rent := DEFAULT_TOKEN_ACCOUNT_RENT,
                                    spl_token_2022_rent := DEFAULT_TOKEN_ACCOUNT_RENT\<rparr>)"

text \<open>The two answers of \<open>get_minimum_balance_for_rent_exemption(165)\<close> are arguments.\<close>

definition update_rents :: "string + u64 \<Rightarrow> string + u64 \<Rightarrow> (caches, unit) prog" where
  "update_rents rent1 rent2 = then_do (of_result rent1) (\<lambda>r1.
     then_do (\<lambda>s. (Ok (), s\<lparr>spl_token_rent := r1\<rparr>)) (\<lambda>_.
     then_do (of_result rent2) (\<lambda>r2. \<lambda>s. (Ok (), s\<lparr>spl_token_2022_rent := r2\<rparr>))))"

definition create_associated_token_account_use_seed ::
  "chain_ext \<Rightarrow> pubkey \<Rightarrow> pubkey \<Rightarrow> pubkey \<Rightarrow> pubkey \<Rightarrow> (caches, instruction list) prog" where
  "create_associated_token_account_use_seed ext payer owner mint token_program =
     (let is_2022 = (token_program = TOKEN_PROGRAM_2022) in
      then_do (read_state (if is_2022 then spl_token_2022_rent else spl_token_rent)) (\<lambda>rent.
      if rent = RENT_UNINITIALIZED then fail ''Rent not initialized''
      else let seed = mint_seed ext mint in
        then_do (of_result (create_with_seed ext payer seed token_program)) (\<lambda>ata_like.
        ret [ix_create_account_with_seed ext payer ata_like payer seed rent 165 token_program,
             (if is_2022 then initialize_account3_2022 else initialize_account3) token_program ata_like mint owner])))"

subsection \<open>Cached lookups (fast\_fn.rs)\<close>

definition get_cached_pda :: "pda_cache_key \<Rightarrow> pubkey option \<Rightarrow> (caches, pubkey option) prog" where
  "get_cached_pda key computed s =
     (case pda_cache s key of
        Some pda \<Rightarrow> (Ok (Some pda), s)
      | None \<Rightarrow> (Ok computed, case computed of None \<Rightarrow> s | Some pda \<Rightarrow> s\<lparr>pda_cache := (pda_cache s)(key \<mapsto> pda)\<rparr>))"

definition get_cached_instructions ::
  "instruction_cache_key \<Rightarrow> (caches, instruction list) prog \<Rightarrow> (caches, instruction list) prog" where
  "get_cached_instructions key compute s =
     (case instruction_cache s key of
        Some ixs \<Rightarrow> (Ok ixs, s)
      | None \<Rightarrow> (case compute s of
          (Ok ixs, s') \<Rightarrow> (Ok ixs, s'\<lparr>instruction_cache := (instruction_cache s')(key \<mapsto> ixs)\<rparr>)
        | (r, s') \<Rightarrow> (r, s')))"

text \<open>The condition under which an account is derived with a seed instead of as an associated token account.\<close>

definition seed_account :: "pubkey \<Rightarrow> pubkey \<Rightarrow> bool \<Rightarrow> bool" where
  "seed_account mint token_program use_seed \<longleftrightarrow> use_seed \<and> mint \<noteq> WSOL_TOKEN_ACCOUNT \<and> mint \<noteq> SOL_TOKEN_ACCOUNT
     \<and> (token_program = TOKEN_PROGRAM \<or> token_program = TOKEN_PROGRAM_2022)"

definition ata_compute :: "chain_ext \<Rightarrow> ata_cache_key \<Rightarrow> (caches, pubkey) prog" where
  "ata_compute ext = (\<lambda>(wallet, mint, token_program, use_seed).
     if seed_account mint token_program use_seed
     then unwrap_result (get_associated_token_address_with_program_id_use_seed ext wallet mint token_program)
     else ret (get_associated_token_address_with_program_id ext wallet mint token_program))"

definition ata_fast :: "chain_ext \<Rightarrow> ata_cache_key \<Rightarrow> (caches, pubkey) prog" where
  "ata_fast ext key s =
     (case ata_cache s key of
        Some a \<Rightarrow> (Ok a, s)
      | None \<Rightarrow> (case ata_compute ext key s of
          (Ok a, s') \<Rightarrow> (Ok a, s'\<lparr>ata_cache := (ata_cache s')(key \<mapsto> a)\<rparr>)
        | (r, s') \<Rightarrow> (r, s')))"

definition get_associated_token_address_with_program_id_fast_use_seed ::
  "chain_ext \<Rightarrow> pubkey \<Rightarrow> pubkey \<Rightarrow> pubkey \<Rightarrow> bool \<Rightarrow> (caches, pubkey) prog" where
  "get_associated_token_address_with_program_id_fast_use_seed ext wallet mint token_program use_seed =
     ata_fast ext (wallet, mint, token_program, use_seed)"

definition get_associated_token_address_with_program_id_fast ::
  "chain_ext \<Rightarrow> pubkey \<Rightarrow> pubkey \<Rightarrow> pubkey \<Rightarrow> (caches, pubkey) prog" where
  "get_associated_token_address_with_program_id_fast ext wallet mint token_program =
     ata_fast ext (wallet, mint, token_program, False)"

text \<open>The closure \<open>_create_associated_token_account_idempotent_fast\<close> hands to the instruction cache.\<close>

definition create_ata_compute :: "chain_ext \<Rightarrow> pubkey \<Rightarrow> pubkey \<Rightarrow> pubkey \<Rightarrow> pubkey \<Rightarrow> bool \<Rightarrow> (caches, instruction list) prog" where
  "create_ata_compute ext payer owner mint token_program use_seed =
     (if seed_account mint token_program use_seed
      then (\<lambda>s. case create_associated_token_account_use_seed ext payer owner mint token_program s of
              (Err e, s') \<Rightarrow> (Panic, s') | r \<Rightarrow> r)
      else then_do (get_associated_token_address_with_program_id_fast ext owner mint token_program) (\<lambda>ata.
        ret [\<lparr>program_id = ASSOCIATED_TOKEN_PROGRAM_ID,
              accounts = [meta_new payer True, meta_new ata False, meta_new_readonly owner False,
                meta_new_readonly mint False, SYSTEM_PROGRAM_META, meta_new_readonly token_program False],
              data = [1]\<rparr>]))"

definition create_associated_token_account_idempotent_fast_use_seed ::
  "chain_ext \<Rightarrow> pubkey \<Rightarrow> pubkey \<Rightarrow> pubkey \<Rightarrow> pubkey \<Rightarrow> bool \<Rightarrow> (caches, instruction list) prog" where
  "create_associated_token_account_idempotent_fast_use_seed ext payer owner mint token_program use_seed =
     get_cached_instructions (CreateAssociatedTokenAccount payer owner mint token_program use_seed)
       (create_ata_compute ext payer owner mint token_program use_seed)"

definition create_associated_token_account_idempotent_fast ::
  "chain_ext \<Rightarrow> pubkey \<Rightarrow> pubkey \<Rightarrow> pubkey \<Rightarrow> pubkey \<Rightarrow> (caches, instruction list) prog" where
  "create_associated_token_account_idempotent_fast ext payer owner mint token_program =
     create_associated_token_account_idempotent_fast_use_seed ext payer owner mint token_program False"

definition close_wsol_compute :: "pubkey \<Rightarrow> pubkey \<Rightarrow> (caches, instruction list) prog" where
  "close_wsol_compute payer wsol_token_account = ret [close_account TOKEN_PROGRAM wsol_token_account payer payer []]"

subsection \<open>Compute budget (compute\_budget\_manager.rs)\<close>

definition budget_compute :: "chain_ext \<Rightarrow> u64 \<times> u32 \<Rightarrow> instruction list" where
  "budget_compute ext = (\<lambda>(unit_price, unit_limit).
     (if 0 < unit_price then [ix_set_compute_unit_price ext unit_price] else [])
     @ (if 0 < unit_limit then [ix_set_compute_unit_limit ext unit_limit] else []))"

definition compute_budget_instructions :: "chain_ext \<Rightarrow> u64 \<Rightarrow> u32 \<Rightarrow> (caches, instruction list) prog" where
  "compute_budget_instructions ext unit_price unit_limit s =
     (case compute_budget_cache s (unit_price, unit_limit) of
        Some ixs \<Rightarrow> (Ok ixs, s)
      | None \<Rightarrow> (let insts = budget_compute ext (unit_price, unit_limit) in
          (Ok insts, s\<lparr>compute_budget_cache := (compute_budget_cache s)((unit_price, unit_limit) \<mapsto> insts)\<rparr>)))"

definition extend_compute_budget_instructions ::
  "chain_ext \<Rightarrow> instruction list \<Rightarrow> u64 \<Rightarrow> u32 \<Rightarrow> (caches, instruction list) prog" where
  "extend_compute_budget_instructions ext instructions unit_price unit_limit s =
     (case compute_budget_cache s (unit_price, unit_limit) of
        Some ixs \<Rightarrow> (Ok (instructions @ ixs), s)
      | None \<Rightarrow> (let insts = budget_compute ext (unit_price, unit_limit) in
          (Ok (instructions @ insts),
           s\<lparr>compute_budget_cache := (compute_budget_cache s)((unit_price, unit_limit) \<mapsto> insts)\<rparr>)))"

end
