(* ===== verification/Pdas.thy ===== *)
theory Pdas
  imports Caches
begin

text \<open>
  Program-derived addresses: the cached and uncached derivations of \<open>sol-trade-sdk/src/instruction/utils/pumpfun.rs\<close>,
  \<open>instruction/utils/pumpswap.rs\<close> and \<open>instruction/utils/bonk.rs\<close>; what each cache entry must hold (\<open>coherent\<close>); and the
  interpretations of \<open>memo_table\<close> that make every cached lookup return what its derivation computes.
\<close>

section \<open>Programs\<close>

definition PUMPFUN :: pubkey where
  "PUMPFUN = 605814335005781813025241542787157911726959411820757128006101511735853521072"

definition PUMPSWAP_AMM_PROGRAM :: pubkey where
  "PUMPSWAP_AMM_PROGRAM = 5464630119619898166266341678619113288817485149253204375108042491183227316323"

definition FEE_PROGRAM :: pubkey where
  "FEE_PROGRAM = 5523161579545683411560766772452059568836141597500650743062411982055873346672"

definition BONK :: pubkey where
  "BONK = 2269042859434166448385157605447593008716662538106545696250340109426254530850"

section \<open>Derivations\<close>

definition try_pda :: "chain_ext \<Rightarrow> u8 list list \<Rightarrow> pubkey \<Rightarrow> pubkey option" where
  "try_pda ext seeds program = map_option fst (try_find_program_address ext seeds program)"

text \<open>The computation behind each key. No function of the sources uses the key \<open>PumpSwapPoolV2\<close>.\<close>

fun pda_spec :: "chain_ext \<Rightarrow> pda_cache_key \<Rightarrow> pubkey option" where
  "pda_spec ext (PumpFunUserVolume user) =
     try_pda ext [str_bytes ''user_volume_accumulator'', pubkey_bytes user] PUMPFUN"
| "pda_spec ext (PumpFunBondingCurve mint) = try_pda ext [str_bytes ''bonding-curve'', pubkey_bytes mint] PUMPFUN"
| "pda_spec ext (PumpFunBondingCurveV2 mint) = try_pda ext [str_bytes ''bonding-curve-v2'', pubkey_bytes mint] PUMPFUN"
| "pda_spec ext (PumpFunCreatorVault creator) = try_pda ext [str_bytes ''creator-vault'', pubkey_bytes creator] PUMPFUN"
| "pda_spec ext (BonkPool base quote) = try_pda ext [str_bytes ''pool'', pubkey_bytes base, pubkey_bytes quote] BONK"
| "pda_spec ext (BonkVault pool mint) = try_pda ext [str_bytes ''pool_vault'', pubkey_bytes pool, pubkey_bytes mint] BONK"
| "pda_spec ext (PumpSwapUserVolume user) =
     try_pda ext [str_bytes ''user_volume_accumulator'', pubkey_bytes user] PUMPSWAP_AMM_PROGRAM"
| "pda_spec ext (PumpSwapPoolV2 mint) = None"

definition cached_pda :: "chain_ext \<Rightarrow> pda_cache_key \<Rightarrow> (caches, pubkey option) prog" where
  "cached_pda ext key = get_cached_pda key (pda_spec ext key)"

definition get_bonding_curve_pda :: "chain_ext \<Rightarrow> pubkey \<Rightarrow> (caches, pubkey option) prog" where
  "get_bonding_curve_pda ext mint = cached_pda ext (PumpFunBondingCurve mint)"

definition get_bonding_curve_v2_pda :: "chain_ext \<Rightarrow> pubkey \<Rightarrow> (caches, pubkey option) prog" where
  "get_bonding_curve_v2_pda ext mint = cached_pda ext (PumpFunBondingCurveV2 mint)"

definition get_creator_vault_pda :: "chain_ext \<Rightarrow> pubkey \<Rightarrow> (caches, pubkey option) prog" where
  "get_creator_vault_pda ext creator = cached_pda ext (PumpFunCreatorVault creator)"

definition pumpfun_get_user_volume_accumulator_pda :: "chain_ext \<Rightarrow> pubkey \<Rightarrow> (caches, pubkey option) prog" where
  "pumpfun_get_user_volume_accumulator_pda ext user = cached_pda ext (PumpFunUserVolume user)"

definition pumpswap_get_user_volume_accumulator_pda :: "chain_ext \<Rightarrow> pubkey \<Rightarrow> (caches, pubkey option) prog" where
  "pumpswap_get_user_volume_accumulator_pda ext user = cached_pda ext (PumpSwapUserVolume user)"

definition bonk_get_pool_pda :: "chain_ext \<Rightarrow> pubkey \<Rightarrow> pubkey \<Rightarrow> (caches, pubkey option) prog" where
  "bonk_get_pool_pda ext base quote = cached_pda ext (BonkPool base quote)"

definition bonk_get_vault_pda :: "chain_ext \<Rightarrow> pubkey \<Rightarrow> pubkey \<Rightarrow> (caches, pubkey option) prog" where
  "bonk_get_vault_pda ext pool mint = cached_pda ext (BonkVault pool mint)"

definition get_fee_sharing_config_pda :: "chain_ext \<Rightarrow> pubkey \<Rightarrow> pubkey option" where
  "get_fee_sharing_config_pda ext mint = try_pda ext [str_bytes ''sharing-config'', pubkey_bytes mint] FEE_PROGRAM"

definition get_pool_v2_pda :: "chain_ext \<Rightarrow> pubkey \<Rightarrow> pubkey option" where
  "get_pool_v2_pda ext base_mint =
     Some (fst (find_program_address ext [str_bytes ''pool-v2'', pubkey_bytes base_mint] PUMPSWAP_AMM_PROGRAM))"

definition get_pump_pool_authority_pda :: "chain_ext \<Rightarrow> pubkey \<Rightarrow> pubkey" where
  "get_pump_pool_authority_pda ext mint =
     fst (find_program_address ext [str_bytes ''pool-authority'', pubkey_bytes mint] PUMPFUN)"

definition get_canonical_pool_pda :: "chain_ext \<Rightarrow> pubkey \<Rightarrow> pubkey" where
  "get_canonical_pool_pda ext mint =
     (let authority = get_pump_pool_authority_pda ext mint in
      fst (find_program_address ext [str_bytes ''pool'', to_le_bytes (0 :: u16), pubkey_bytes authority,
             pubkey_bytes mint, pubkey_bytes WSOL_TOKEN_ACCOUNT] PUMPSWAP_AMM_PROGRAM))"

definition coin_creator_vault_authority_pda :: "chain_ext \<Rightarrow> pubkey \<Rightarrow> pubkey" where
  "coin_creator_vault_authority_pda ext coin_creator =
     fst (find_program_address ext [str_bytes ''creator_vault'', pubkey_bytes coin_creator] PUMPSWAP_AMM_PROGRAM)"

definition coin_creator_vault_ata_pda :: "chain_ext \<Rightarrow> pubkey \<Rightarrow> pubkey \<Rightarrow> pubkey" where
  "coin_creator_vault_ata_pda ext coin_creator quote_mint =
     get_associated_token_address_with_program_id ext (coin_creator_vault_authority_pda ext coin_creator)
       quote_mint TOKEN_PROGRAM"

definition fee_recipient_ata :: "chain_ext \<Rightarrow> pubkey \<Rightarrow> pubkey \<Rightarrow> (caches, pubkey) prog" where
  "fee_recipient_ata ext fee_recipient quote_mint =
     get_associated_token_address_with_program_id_fast ext fee_recipient quote_mint TOKEN_PROGRAM"

definition get_user_volume_accumulator_wsol_ata :: "chain_ext \<Rightarrow> pubkey \<Rightarrow> (caches, pubkey option) prog" where
  "get_user_volume_accumulator_wsol_ata ext user =
     then_do (pumpswap_get_user_volume_accumulator_pda ext user) (\<lambda>acc. case acc of
       None \<Rightarrow> ret None
     | Some accumulator \<Rightarrow>
         then_do (get_associated_token_address_with_program_id_fast ext accumulator WSOL_TOKEN_ACCOUNT TOKEN_PROGRAM)
           (\<lambda>a. ret (Some a)))"

definition get_user_volume_accumulator_quote_ata ::
  "chain_ext \<Rightarrow> pubkey \<Rightarrow> pubkey \<Rightarrow> pubkey \<Rightarrow> (caches, pubkey option) prog" where
  "get_user_volume_accumulator_quote_ata ext user quote_mint quote_token_program =
     then_do (pumpswap_get_user_volume_accumulator_pda ext user) (\<lambda>acc. case acc of
       None \<Rightarrow> ret None
     | Some accumulator \<Rightarrow>
         then_do (get_associated_token_address_with_program_id_fast ext accumulator quote_mint quote_token_program)
           (\<lambda>a. ret (Some a)))"

definition fast_init :: "chain_ext \<Rightarrow> pubkey \<Rightarrow> (caches, unit) prog" where
  "fast_init ext payer =
     then_do (pumpfun_get_user_volume_accumulator_pda ext payer) (\<lambda>_.
     then_do (pumpswap_get_user_volume_accumulator_pda ext payer) (\<lambda>_.
     then_do (get_associated_token_address_with_program_id_fast ext payer WSOL_TOKEN_ACCOUNT TOKEN_PROGRAM) (\<lambda>wsol.
     then_do (get_cached_instructions (CloseWsolAccount payer wsol) (close_wsol_compute payer wsol)) (\<lambda>_.
     ret ()))))"

section \<open>What the tables must hold\<close>

fun ata_spec :: "chain_ext \<Rightarrow> ata_cache_key \<Rightarrow> pubkey outcome" where
  "ata_spec ext (wallet, mint, token_program, use_seed) =
     (if seed_account mint token_program use_seed
      then (case get_associated_token_address_with_program_id_use_seed ext wallet mint token_program of
              Inl _ \<Rightarrow> Panic | Inr a \<Rightarrow> Ok a)
      else Ok (get_associated_token_address_with_program_id ext wallet mint token_program))"

text \<open>The instructions under a key, given the two rents.\<close>

fun ix_spec :: "chain_ext \<Rightarrow> u64 \<Rightarrow> u64 \<Rightarrow> instruction_cache_key \<Rightarrow> instruction list outcome" where
  "ix_spec ext r1 r2 (CreateAssociatedTokenAccount payer owner mint token_program use_seed) =
     (if seed_account mint token_program use_seed
      then (let rent = (if token_program = TOKEN_PROGRAM_2022 then r2 else r1) in
            if rent = RENT_UNINITIALIZED then Panic
            else case create_with_seed ext payer (mint_seed ext mint) token_program of
              Inl _ \<Rightarrow> Panic
            | Inr a \<Rightarrow> Ok [ix_create_account_with_seed ext payer a payer (mint_seed ext mint) rent 165 token_program,
                (if token_program = TOKEN_PROGRAM_2022 then initialize_account3_2022 else initialize_account3)
                  token_program a mint owner])
      else Ok [\<lparr>program_id = ASSOCIATED_TOKEN_PROGRAM_ID,
              accounts = [meta_new payer True,
                meta_new (get_associated_token_address_with_program_id ext owner mint token_program) False,
                meta_new_readonly owner False, meta_new_readonly mint False, SYSTEM_PROGRAM_META,
                meta_new_readonly token_program False],
              data = [1]\<rparr>])"
| "ix_spec ext r1 r2 (CloseWsolAccount payer account) = Ok [close_account TOKEN_PROGRAM account payer payer []]"

definition coherent :: "chain_ext \<Rightarrow> u64 \<Rightarrow> u64 \<Rightarrow> caches \<Rightarrow> bool" where
  "coherent ext r1 r2 s \<longleftrightarrow>
     spl_token_rent s = r1 \<and> spl_token_2022_rent s = r2
     \<and> (\<forall>k v. pda_cache s k = Some v \<longrightarrow> pda_spec ext k = Some v)
     \<and> (\<forall>k v. ata_cache s k = Some v \<longrightarrow> ata_spec ext k = Ok v)
     \<and> (\<forall>k v. instruction_cache s k = Some v \<longrightarrow> ix_spec ext r1 r2 k = Ok v)
     \<and> (\<forall>k v. compute_budget_cache s k = Some v \<longrightarrow> budget_compute ext k = v)"

lemma coherent_init: "coherent ext RENT_UNINITIALIZED RENT_UNINITIALIZED caches_init"
  by (simp add: coherent_def caches_init_def)

section \<open>The tables keep their contract\<close>

fun keep_ok :: "'a outcome \<Rightarrow> 'a option" where
  "keep_ok (Ok a) = Some a"
| "keep_ok _ = None"

fun keep_some :: "'a option outcome \<Rightarrow> 'a option" where
  "keep_some (Ok x) = x"
| "keep_some _ = None"

text \<open>The computation behind an instruction key.\<close>

fun ix_compute :: "chain_ext \<Rightarrow> instruction_cache_key \<Rightarrow> (caches, instruction list) prog" where
  "ix_compute ext (CreateAssociatedTokenAccount payer owner mint token_program use_seed) =
     create_ata_compute ext payer owner mint token_program use_seed"
| "ix_compute ext (CloseWsolAccount payer account) = close_wsol_compute payer account"

lemma keep_ok_Some [simp]: "keep_ok r = Some v \<longleftrightarrow> r = Ok v"
  by (cases r) auto

interpretation pda: memo_table "coherent ext r1 r2" pda_cache "\<lambda>k v. pda_cache_update (\<lambda>m. m(k \<mapsto> v))"
    "\<lambda>v. Ok (Some v)" keep_some "\<lambda>k. ret (pda_spec ext k)" "\<lambda>k. Ok (pda_spec ext k)" "cached_pda ext"
  for ext r1 r2
  by unfold_locales
     (auto simp: cached_pda_def get_cached_pda_def yields_def coherent_def split: option.split)

lemma ata_compute_yields: "yields (coherent ext r1 r2) (ata_compute ext k) (ata_spec ext k)"
  by (cases k) (auto simp: yields_def ata_compute_def split: sum.split)

interpretation ata: memo_table "coherent ext r1 r2" ata_cache "\<lambda>k v. ata_cache_update (\<lambda>m. m(k \<mapsto> v))"
    Ok keep_ok "ata_compute ext" "ata_spec ext" "ata_fast ext"
  for ext r1 r2
  by unfold_locales
     (auto simp: ata_fast_def ata_compute_yields coherent_def
       simp del: ata_spec.simps split_paired_All split_paired_Ex split: option.split outcome.split prod.split)

lemma ata_fast_yields:
  "yields (coherent ext r1 r2) (get_associated_token_address_with_program_id_fast ext w m p) (ata_spec ext (w, m, p, False))"
  "yields (coherent ext r1 r2) (get_associated_token_address_with_program_id_fast_use_seed ext w m p u) (ata_spec ext (w, m, p, u))"
  unfolding get_associated_token_address_with_program_id_fast_def
    get_associated_token_address_with_program_id_fast_use_seed_def
  by (rule ata.fetch_yields)+

lemma ix_compute_yields: "yields (coherent ext r1 r2) (ix_compute ext k) (ix_spec ext r1 r2 k)"
proof (cases k)
  case (CreateAssociatedTokenAccount payer owner mint prog u)
  show ?thesis
  proof (cases "seed_account mint prog u")
    case True
    then show ?thesis
      by (cases "create_with_seed ext payer (mint_seed ext mint) prog")
         (auto simp: CreateAssociatedTokenAccount yields_def create_ata_compute_def
           create_associated_token_account_use_seed_def Let_def coherent_def then_do_run)
  next
    case False
    have "\<not> seed_account mint prog False" by (simp add: seed_account_def)
    then have "yields (coherent ext r1 r2) (get_associated_token_address_with_program_id_fast ext owner mint prog)
        (Ok (get_associated_token_address_with_program_id ext owner mint prog))"
      using ata_fast_yields(1) [of ext r1 r2 owner mint prog] by simp
    then show ?thesis
      using False unfolding CreateAssociatedTokenAccount ix_compute.simps ix_spec.simps create_ata_compute_def
      by (auto intro: yields_then yields_basic)
  qed
next
  case (CloseWsolAccount payer account)
  then show ?thesis by (simp add: close_wsol_compute_def yields_basic)
qed

interpretation ixs: memo_table "coherent ext r1 r2" instruction_cache "\<lambda>k v. instruction_cache_update (\<lambda>m. m(k \<mapsto> v))"
    Ok keep_ok "ix_compute ext" "ix_spec ext r1 r2" "\<lambda>k. get_cached_instructions k (ix_compute ext k)"
  for ext r1 r2
  by unfold_locales
     (auto simp: get_cached_instructions_def ix_compute_yields coherent_def
       simp del: ix_spec.simps split: option.split outcome.split prod.split)

interpretation budget: memo_table "coherent ext r1 r2" compute_budget_cache
    "\<lambda>k v. compute_budget_cache_update (\<lambda>m. m(k \<mapsto> v))"
    Ok keep_ok "\<lambda>k. ret (budget_compute ext k)" "\<lambda>k. Ok (budget_compute ext k)"
    "\<lambda>(unit_price, unit_limit). compute_budget_instructions ext unit_price unit_limit"
  for ext r1 r2
  by unfold_locales
     (auto simp: compute_budget_instructions_def yields_def coherent_def Let_def
       simp del: split_paired_All split_paired_Ex split: option.split)

lemma extend_budget_yields:
  "yields (coherent ext r1 r2) (extend_compute_budget_instructions ext ixs unit_price unit_limit)
     (Ok (ixs @ budget_compute ext (unit_price, unit_limit)))"
  by (auto simp: yields_def extend_compute_budget_instructions_def coherent_def Let_def split: option.split)

lemma create_ata_yields:
  "yields (coherent ext r1 r2) (create_associated_token_account_idempotent_fast_use_seed ext payer owner mint prog u)
     (ix_spec ext r1 r2 (CreateAssociatedTokenAccount payer owner mint prog u))"
  unfolding create_associated_token_account_idempotent_fast_use_seed_def ix_compute.simps [symmetric]
  by (rule ixs.fetch_yields)

lemma close_wsol_yields:
  "yields (coherent ext r1 r2) (get_cached_instructions (CloseWsolAccount payer account) (close_wsol_compute payer account))
     (Ok [close_account TOKEN_PROGRAM account payer payer []])"
  using ixs.fetch_yields [of ext r1 r2 "CloseWsolAccount payer account"] by simp

section \<open>What the cached operations yield\<close>

text \<open>One rule per operation, for programs that call it: its outcome, and one step of a successful run.\<close>

lemma cached_pda_yields: "yields (coherent ext r1 r2) (cached_pda ext k) (Ok (pda_spec ext k))"
  by (rule pda.fetch_yields)

lemmas pda_getters = get_bonding_curve_pda_def get_bonding_curve_v2_pda_def get_creator_vault_pda_def
  pumpfun_get_user_volume_accumulator_pda_def pumpswap_get_user_volume_accumulator_pda_def
  bonk_get_pool_pda_def bonk_get_vault_pda_def

lemma ata_plain_yields:
  "yields (coherent ext r1 r2) (get_associated_token_address_with_program_id_fast ext w m p)
     (Ok (get_associated_token_address_with_program_id ext w m p))"
  using ata_fast_yields(1) [of ext r1 r2 w m p] by (simp add: seed_account_def)

lemma returns_cached_pda [returns_dest]:
  "returns (coherent ext r1 r2) (then_do (cached_pda ext k) f) b \<Longrightarrow> returns (coherent ext r1 r2) (f (pda_spec ext k)) b"
  by (erule returns_then_ok) (rule cached_pda_yields)

lemma returns_ata_plain [returns_dest]:
  "returns (coherent ext r1 r2) (then_do (get_associated_token_address_with_program_id_fast ext w m p) f) b
     \<Longrightarrow> returns (coherent ext r1 r2) (f (get_associated_token_address_with_program_id ext w m p)) b"
  by (erule returns_then_ok) (rule ata_plain_yields)

lemma returns_ata_seed [returns_dest]:
  "returns (coherent ext r1 r2) (then_do (get_associated_token_address_with_program_id_fast_use_seed ext w m p u) f) b
     \<Longrightarrow> \<exists>a. ata_spec ext (w, m, p, u) = Ok a \<and> returns (coherent ext r1 r2) (f a) b"
  by (erule returns_then, rule ata_fast_yields(2)) blast

lemma returns_create_ata [returns_dest]:
  "returns (coherent ext r1 r2) (then_do (create_associated_token_account_idempotent_fast_use_seed ext payer owner m p u) f) b
     \<Longrightarrow> \<exists>ixs. ix_spec ext r1 r2 (CreateAssociatedTokenAccount payer owner m p u) = Ok ixs
           \<and> returns (coherent ext r1 r2) (f ixs) b"
  by (erule returns_then, rule create_ata_yields) blast

lemma returns_close_wsol [returns_dest]:
  "returns (coherent ext r1 r2)
      (then_do (get_cached_instructions (CloseWsolAccount payer account) (close_wsol_compute payer account)) f) b
     \<Longrightarrow> returns (coherent ext r1 r2) (f [close_account TOKEN_PROGRAM account payer payer []]) b"
  by (erule returns_then_ok) (rule close_wsol_yields)

lemma returns_extend_budget [returns_dest]:
  "returns (coherent ext r1 r2) (then_do (extend_compute_budget_instructions ext ixs unit_price unit_limit) f) b
     \<Longrightarrow> returns (coherent ext r1 r2) (f (ixs @ budget_compute ext (unit_price, unit_limit))) b"
  by (erule returns_then_ok) (rule extend_budget_yields)

lemmas cached_transparent [transparent_intro] =
  transparentI [OF cached_pda_yields] transparentI [OF ata_plain_yields] transparentI [OF ata_fast_yields(2)]
  transparentI [OF create_ata_yields] transparentI [OF close_wsol_yields] transparentI [OF extend_budget_yields]

section \<open>Addresses under a seed\<close>

lemma hex_digit_inj: "unat a < 16 \<Longrightarrow> unat b < 16 \<Longrightarrow> hex_digit a = hex_digit b \<Longrightarrow> a = b"
proof -
  assume a: "unat a < 16" and b: "unat b < 16" and eq: "hex_digit a = hex_digit b"
  have val: "unat (hex_digit x) = (if unat x \<le> 9 then 48 + unat x else 87 + unat x)" if "unat x < 16" for x
  proof -
    have "hex_digit x = word_of_nat (if unat x \<le> 9 then 48 + unat x else 87 + unat x)"
      by (simp add: hex_digit_def word_le_nat_alt)
    then show ?thesis using that by (simp add: unat_of_nat)
  qed
  have "(if unat a \<le> 9 then 48 + unat a else 87 + unat a) = (if unat b \<le> 9 then 48 + unat b else 87 + unat b)"
    using val [OF a] val [OF b] eq by simp
  then have "unat a = unat b" using a b by (auto split: if_splits)
  then show "a = b" by (rule word_unat_eq_iff [THEN iffD2])
qed

lemma unat_hex_nibble: "unat (hex_nibble v i) < 16"
proof -
  have "unat (hex_nibble v i) \<le> unat (and (drop_bit (28 - i * 4) v) 15)"
    by (simp add: hex_nibble_def unsigned_ucast_eq take_bit_nat_less_eq_self)
  also have "\<dots> \<le> unat (15 :: u32)"
    unfolding word_le_nat_alt [symmetric] by (rule word_and_le1)
  finally show ?thesis by simp
qed

lemma bit_hex_nibble:
  assumes "n < 32"
  shows "bit (v :: u32) n \<longleftrightarrow> bit (hex_nibble v (7 - n div 4)) (n mod 4)"
proof -
  have "n div 4 \<le> 7" using assms by simp
  then have "28 - (7 - n div 4) * 4 = n div 4 * 4" by simp
  then have pos: "28 - (7 - n div 4) * 4 + n mod 4 = n" by simp
  have "bit (15 :: u32) k" if "k < 4" for k :: nat
    using that by (auto simp: numeral_eq_Suc less_Suc_eq)
  then have "bit (15 :: u32) (n mod 4)" by simp
  moreover have "n mod 4 < 8" by (rule less_trans [of _ 4]) simp_all
  ultimately show ?thesis
    using pos by (simp add: hex_nibble_def bit_ucast_iff bit_and_iff bit_drop_bit_eq)
qed

lemma hex_seed_inj: "hex_seed v = hex_seed w \<longleftrightarrow> v = w"
proof
  assume eq: "hex_seed v = hex_seed w"
  have nib: "hex_nibble v i = hex_nibble w i" if "i < 8" for i
    using eq that by (auto simp: hex_seed_def intro: hex_digit_inj unat_hex_nibble)
  show "v = w"
  proof (rule bit_word_eqI)
    fix n assume "n < LENGTH(32)"
    then have "n < 32" by simp
    then show "bit v n \<longleftrightarrow> bit w n"
      using nib [of "7 - n div 4"] bit_hex_nibble [of n v] bit_hex_nibble [of n w] by simp
  qed
qed simp

section \<open>Creating an account and looking it up\<close>

lemma coherent_rents: "coherent ext r1 r2 (caches_init\<lparr>spl_token_rent := r1, spl_token_2022_rent := r2\<rparr>)"
  by (simp add: coherent_def caches_init_def)

text \<open>The account the creation instructions are about: the one they initialise, or the one they create idempotently.\<close>

definition created_account :: "pubkey \<Rightarrow> pubkey \<Rightarrow> bool \<Rightarrow> instruction list \<Rightarrow> pubkey" where
  "created_account mint prog u ixs =
     (if seed_account mint prog u then meta_pubkey (accounts (ixs ! 1) ! 0) else meta_pubkey (accounts (ixs ! 0) ! 1))"

lemma created_of_spec:
  assumes "ix_spec ext r1 r2 (CreateAssociatedTokenAccount payer payer mint prog u) = Ok ixs"
  shows "ata_spec ext (payer, mint, prog, u) = Ok (created_account mint prog u ixs)
    \<and> (seed_account mint prog u \<longrightarrow> hd ixs = ix_create_account_with_seed ext payer (created_account mint prog u ixs) payer
         (mint_seed ext mint) (if prog = TOKEN_PROGRAM_2022 then r2 else r1) 165 prog)"
  using assms
  by (auto simp: created_account_def get_associated_token_address_with_program_id_use_seed_def meta_new_def
      initialize_account3_def initialize_account3_2022_def Let_def split: if_splits sum.splits)

lemma sample_creation:
  "\<exists>ixs s1. create_associated_token_account_idempotent_fast_use_seed sample_ext 7 7 9 TOKEN_PROGRAM True
     (caches_init\<lparr>spl_token_rent := 5, spl_token_2022_rent := 6\<rparr>) = (Ok ixs, s1)"
proof -
  let ?m = "create_associated_token_account_idempotent_fast_use_seed sample_ext 7 7 9 TOKEN_PROGRAM True"
  let ?s = "caches_init\<lparr>spl_token_rent := 5, spl_token_2022_rent := 6\<rparr>"
  have "\<exists>ixs. ix_spec sample_ext 5 6 (CreateAssociatedTokenAccount 7 7 9 TOKEN_PROGRAM True) = Ok ixs"
    by (simp add: sample_ext_def RENT_UNINITIALIZED_def Let_def TOKEN_PROGRAM_def TOKEN_PROGRAM_2022_def)
  then obtain ixs where "fst (?m ?s) = Ok ixs"
    using create_ata_yields [of sample_ext 5 6 7 7 9 TOKEN_PROGRAM True] coherent_rents by (auto simp: yields_def simp del: ix_spec.simps)
  then have "?m ?s = (Ok ixs, snd (?m ?s))" by (simp add: prod_eq_iff)
  then show ?thesis by blast
qed

text \<open>
  For a wallet that pays for its own account, the instructions that create its token account for a mint create the
  very address that a later lookup returns, with or without the seed scheme and whatever either call found in the caches;
  under the seed scheme the account is funded with the rent of its own token program.
\<close>

theorem created_account_is_looked_up:
  assumes "coherent ext r1 r2 s" and "coherent ext r1 r2 s'"
    and "fst (create_associated_token_account_idempotent_fast_use_seed ext payer payer mint prog u s) = Ok ixs"
  shows "fst (get_associated_token_address_with_program_id_fast_use_seed ext payer mint prog u s')
           = Ok (created_account mint prog u ixs)
    \<and> (seed_account mint prog u \<longrightarrow> hd ixs = ix_create_account_with_seed ext payer (created_account mint prog u ixs) payer
         (mint_seed ext mint) (if prog = TOKEN_PROGRAM_2022 then r2 else r1) 165 prog)"
proof -
  have "ix_spec ext r1 r2 (CreateAssociatedTokenAccount payer payer mint prog u) = Ok ixs"
    using create_ata_yields [of ext r1 r2 payer payer mint prog u] assms(1,3) by (auto simp: yields_def simp del: ix_spec.simps)
  from created_of_spec [OF this]
  show ?thesis
    using ata_fast_yields(2) [of ext r1 r2 payer mint prog u] assms(2) by (auto simp: yields_def simp del: ata_spec.simps)
qed

theorem created_account_is_looked_up_witness:
  "\<exists>ixs. fst (get_associated_token_address_with_program_id_fast_use_seed sample_ext 7 9 TOKEN_PROGRAM True
       (caches_init\<lparr>spl_token_rent := 5, spl_token_2022_rent := 6\<rparr>)) = Ok (created_account 9 TOKEN_PROGRAM True ixs)"
proof -
  obtain ixs s1 where "create_associated_token_account_idempotent_fast_use_seed sample_ext 7 7 9 TOKEN_PROGRAM True
     (caches_init\<lparr>spl_token_rent := 5, spl_token_2022_rent := 6\<rparr>) = (Ok ixs, s1)"
    using sample_creation by blast
  from created_account_is_looked_up [OF coherent_rents coherent_rents arg_cong [where f = fst, OF this, simplified]]
  show ?thesis by blast
qed

text \<open>
  Account-creation instructions are remembered for good: once a call has returned them, a later change of the two
  rents does not reach them, and the same call returns the instructions with the old rent.
\<close>

theorem creation_keeps_old_rent:
  assumes "create_associated_token_account_idempotent_fast_use_seed ext payer owner mint prog u s = (Ok ixs, s1)"
  shows "fst (then_do (update_rents (Inr rent1) (Inr rent2))
           (\<lambda>_. create_associated_token_account_idempotent_fast_use_seed ext payer owner mint prog u) s1) = Ok ixs"
  using assms
  by (auto simp: create_associated_token_account_idempotent_fast_use_seed_def get_cached_instructions_def update_rents_def
      then_do_run split: option.splits prod.splits outcome.splits)

theorem creation_keeps_old_rent_witness:
  "\<exists>ixs s1. create_associated_token_account_idempotent_fast_use_seed sample_ext 7 7 9 TOKEN_PROGRAM True
       (caches_init\<lparr>spl_token_rent := 5, spl_token_2022_rent := 6\<rparr>) = (Ok ixs, s1)
     \<and> fst (then_do (update_rents (Inr 50) (Inr 60))
           (\<lambda>_. create_associated_token_account_idempotent_fast_use_seed sample_ext 7 7 9 TOKEN_PROGRAM True) s1) = Ok ixs"
  using sample_creation creation_keeps_old_rent [of sample_ext 7 7 9 TOKEN_PROGRAM True _ _ _ 50 60] by blast

end
