(* ===== verification/F64.thy ===== *)
theory F64
  imports RustInt
begin

text \<open>
  IEEE-754 binary64 numbers as the sources use them: sign and magnitude, the magnitude an exact rational,
  every operation the exact result rounded to nearest, ties to even, with gradual underflow and overflow
  to infinity. The definitions are executable. The lemmas are the two facts the clients need: rounding is monotone,
  and it fixes the numbers that are representable.
\<close>

section \<open>Rounding\<close>

fun ilog2 :: "nat \<Rightarrow> nat" where
  "ilog2 n = (if n < 2 then 0 else Suc (ilog2 (n div 2)))"

declare ilog2.simps [simp del]

text \<open>The exponent of a positive rational: the largest \<open>e\<close> with \<open>2 powi e \<le> x\<close>.\<close>

definition expo :: "rat \<Rightarrow> int" where
  "expo x = (if 1 \<le> x then int (ilog2 (nat \<lfloor>x\<rfloor>))
             else let c = nat \<lceil>1 / x\<rceil> in - int (if c = 2 ^ ilog2 c then ilog2 c else Suc (ilog2 c)))"

definition round_half_even :: "rat \<Rightarrow> int" where
  "round_half_even x =
     (let f = \<lfloor>x\<rfloor>; d = x - of_int f in
      if d < 1 / 2 then f else if 1 / 2 < d then f + 1 else if even f then f else f + 1)"

definition ulp_at :: "rat \<Rightarrow> rat" where
  "ulp_at x = 2 powi (max (expo x) (- 1022) - 52)"

definition round_mag :: "rat \<Rightarrow> rat" where
  "round_mag x = (if x = 0 then 0 else of_int (round_half_even (x / ulp_at x)) * ulp_at x)"

section \<open>Values and operations\<close>

datatype f64 = NaN | Inf bool | Fin bool rat

text \<open>\<open>mk s x\<close> rounds the magnitude \<open>x\<close> and gives it the sign \<open>s\<close> (\<open>True\<close> is negative).\<close>

definition mk :: "bool \<Rightarrow> rat \<Rightarrow> f64" where
  "mk s x = (let m = round_mag x in if 2 ^ 1024 \<le> m then Inf s else Fin s m)"

text \<open>The value of a finite number, and the number a non-zero exact result rounds to.\<close>

fun val :: "f64 \<Rightarrow> rat" where
  "val (Fin s m) = (if s then - m else m)"
| "val _ = 0"

definition of_exact :: "bool \<Rightarrow> rat \<Rightarrow> f64" where
  "of_exact zs x = (if x = 0 then Fin zs 0 else mk (x < 0) \<bar>x\<bar>)"

definition f64_lit :: "rat \<Rightarrow> f64" where
  "f64_lit x = of_exact False x"

definition f64_of_nat :: "nat \<Rightarrow> f64" where
  "f64_of_nat n = of_exact False (of_nat n)"

definition f64_of_u64 :: "'a::len word \<Rightarrow> f64" where
  "f64_of_u64 w = f64_of_nat (unat w)"

fun f64_neg :: "f64 \<Rightarrow> f64" where
  "f64_neg NaN = NaN"
| "f64_neg (Inf s) = Inf (\<not> s)"
| "f64_neg (Fin s m) = Fin (\<not> s) m"

fun f64_add :: "f64 \<Rightarrow> f64 \<Rightarrow> f64" where
  "f64_add (Fin s a) (Fin t b) = of_exact (s \<and> t) (val (Fin s a) + val (Fin t b))"
| "f64_add (Inf s) (Inf t) = (if s = t then Inf s else NaN)"
| "f64_add (Inf s) (Fin t b) = Inf s"
| "f64_add (Fin s a) (Inf t) = Inf t"
| "f64_add _ _ = NaN"

definition f64_sub :: "f64 \<Rightarrow> f64 \<Rightarrow> f64" where
  "f64_sub a b = f64_add a (f64_neg b)"

fun f64_mul :: "f64 \<Rightarrow> f64 \<Rightarrow> f64" where
  "f64_mul (Fin s a) (Fin t b) = mk (s \<noteq> t) (a * b)"
| "f64_mul (Inf s) (Inf t) = Inf (s \<noteq> t)"
| "f64_mul (Inf s) (Fin t b) = (if b = 0 then NaN else Inf (s \<noteq> t))"
| "f64_mul (Fin s a) (Inf t) = (if a = 0 then NaN else Inf (s \<noteq> t))"
| "f64_mul _ _ = NaN"

fun f64_div :: "f64 \<Rightarrow> f64 \<Rightarrow> f64" where
  "f64_div (Fin s a) (Fin t b) =
     (if b = 0 then (if a = 0 then NaN else Inf (s \<noteq> t)) else mk (s \<noteq> t) (a / b))"
| "f64_div (Inf s) (Inf t) = NaN"
| "f64_div (Inf s) (Fin t b) = Inf (s \<noteq> t)"
| "f64_div (Fin s a) (Inf t) = Fin (s \<noteq> t) 0"
| "f64_div _ _ = NaN"

fun f64_le :: "f64 \<Rightarrow> f64 \<Rightarrow> bool" where
  "f64_le (Fin s a) (Fin t b) = (val (Fin s a) \<le> val (Fin t b))"
| "f64_le (Inf s) (Inf t) = (s \<or> \<not> t)"
| "f64_le (Inf s) (Fin t b) = s"
| "f64_le (Fin s a) (Inf t) = (\<not> t)"
| "f64_le _ _ = False"

fun f64_lt :: "f64 \<Rightarrow> f64 \<Rightarrow> bool" where
  "f64_lt (Fin s a) (Fin t b) = (val (Fin s a) < val (Fin t b))"
| "f64_lt (Inf s) (Inf t) = (s \<and> \<not> t)"
| "f64_lt (Inf s) (Fin t b) = s"
| "f64_lt (Fin s a) (Inf t) = (\<not> t)"
| "f64_lt _ _ = False"

definition f64_eq :: "f64 \<Rightarrow> f64 \<Rightarrow> bool" where
  "f64_eq a b = (f64_le a b \<and> f64_le b a)"

text \<open>\<open>f64::min\<close> ignores a NaN operand.\<close>

definition f64_min :: "f64 \<Rightarrow> f64 \<Rightarrow> f64" where
  "f64_min a b = (if a = NaN then b else if b = NaN then a else if f64_le a b then a else b)"

text \<open>\<open>f64::round\<close> rounds half away from zero.\<close>

fun f64_round :: "f64 \<Rightarrow> f64" where
  "f64_round (Fin s m) = Fin s (of_int \<lfloor>m + 1 / 2\<rfloor>)"
| "f64_round x = x"

text \<open>\<open>as u64\<close> truncates and saturates; NaN gives zero.\<close>

fun u64_of_f64 :: "f64 \<Rightarrow> u64" where
  "u64_of_f64 NaN = 0"
| "u64_of_f64 (Inf s) = (if s then 0 else - 1)"
| "u64_of_f64 (Fin s m) = (if s then 0 else if 2 ^ 64 \<le> m then - 1 else word_of_int \<lfloor>m\<rfloor>)"

fun f64_is_finite :: "f64 \<Rightarrow> bool" where
  "f64_is_finite (Fin s m) = True"
| "f64_is_finite _ = False"

section \<open>The exponent\<close>

lemma ilog2_bounds: "0 < n \<Longrightarrow> 2 ^ ilog2 n \<le> n \<and> n < 2 ^ Suc (ilog2 n)"
proof (induction n rule: ilog2.induct)
  case (1 n)
  show ?case
  proof (cases "n < 2")
    case True
    with 1 show ?thesis by (simp add: ilog2.simps)
  next
    case False
    with 1 have "2 ^ ilog2 (n div 2) \<le> n div 2 \<and> n div 2 < 2 ^ Suc (ilog2 (n div 2))"
      by simp
    with False show ?thesis by (subst (1 2) ilog2.simps) auto
  qed
qed

lemma expo_bounds: "0 < x \<Longrightarrow> 2 powi expo x \<le> x \<and> x < 2 powi (expo x + 1)"
proof -
  assume x: "0 < x"
  show ?thesis
  proof (cases "1 \<le> x")
    case True
    let ?n = "nat \<lfloor>x\<rfloor>"
    have n: "0 < ?n" using True by simp
    have "(2 :: rat) ^ ilog2 ?n \<le> of_nat ?n" and "of_nat ?n + 1 \<le> (2 :: rat) ^ Suc (ilog2 ?n)"
    proof -
      have "of_nat (2 ^ ilog2 ?n) \<le> (of_nat ?n :: rat)" using ilog2_bounds [OF n] by (subst of_nat_le_iff) simp
      then show "(2 :: rat) ^ ilog2 ?n \<le> of_nat ?n" by simp
      have "of_nat (Suc ?n) \<le> (of_nat (2 ^ Suc (ilog2 ?n)) :: rat)"
        using ilog2_bounds [OF n] by (subst of_nat_le_iff) simp
      then show "of_nat ?n + 1 \<le> (2 :: rat) ^ Suc (ilog2 ?n)" by simp
    qed
    moreover have "of_nat ?n \<le> x" "x < of_nat ?n + 1"
      using True by (simp_all add: of_nat_nat, linarith+)
    moreover have "expo x = int (ilog2 ?n)" "expo x + 1 = int (Suc (ilog2 ?n))"
      using True by (simp_all add: expo_def)
    ultimately show ?thesis by (simp only: power_int_of_nat) linarith
  next
    case False
    define c where "c = nat \<lceil>1 / x\<rceil>"
    define k where "k = (if c = 2 ^ ilog2 c then ilog2 c else Suc (ilog2 c))"
    have x1: "1 < 1 / x" using x False by simp
    have c1: "1 < c" using x1 unfolding c_def by linarith
    have ceil: "of_nat c - 1 < 1 / x" "1 / x \<le> of_nat c"
      unfolding c_def using x1 by (simp_all add: of_nat_nat, linarith+)
    have b: "2 ^ ilog2 c \<le> c" "c < 2 ^ Suc (ilog2 c)" using ilog2_bounds [of c] c1 by auto
    have kpos: "0 < k" using c1 b by (auto simp: k_def intro: ccontr)
    have up: "c \<le> 2 ^ k" using b by (auto simp: k_def)
    have lo: "2 ^ (k - 1) < c"
    proof (cases "c = 2 ^ ilog2 c")
      case True
      then show ?thesis using kpos by (metis k_def diff_less less_one one_less_numeral_iff power_strict_increasing semiring_norm(76))
    next
      case False
      then show ?thesis using b by (simp add: k_def)
    qed
    have "1 / x \<le> 2 ^ k"
      using ceil(2) up by (metis of_nat_le_iff of_nat_numeral of_nat_power order_trans)
    then have low: "1 / 2 ^ k \<le> x"
      using x by (simp add: field_simps)
    have "of_nat (Suc (2 ^ (k - 1))) \<le> (of_nat c :: rat)"
      using lo by (subst of_nat_le_iff) simp
    then have "2 ^ (k - 1) < 1 / x" using ceil(1) by simp
    then have high: "x < 1 / 2 ^ (k - 1)"
      using x by (simp add: field_simps)
    have e: "expo x = - int k" "expo x + 1 = - int (k - 1)"
      using False kpos by (simp_all add: expo_def c_def k_def Let_def)
    have "(2 :: rat) powi (expo x + 1) = 1 / 2 ^ (k - 1)"
      unfolding e(2) by (simp only: power_int_minus_divide power_int_of_nat)
    moreover have "(2 :: rat) powi expo x = 1 / 2 ^ k"
      unfolding e(1) by (simp only: power_int_minus_divide power_int_of_nat)
    ultimately show ?thesis
      using low high by simp
  qed
qed


lemma expo_unique: "2 powi e \<le> x \<Longrightarrow> x < 2 powi (e + 1) \<Longrightarrow> expo x = e"
proof -
  assume e: "2 powi e \<le> x" "x < 2 powi (e + 1)"
  have x: "0 < x" using e(1) by (rule less_le_trans [rotated]) simp
  have "e < expo x + 1" using e(1) expo_bounds [OF x]
    by (metis le_less_trans one_less_numeral_iff power_int_le_imp_le_exp semiring_norm(76) linorder_not_le
        power_int_increasing order.strict_trans2 less_irrefl one_le_numeral)
  moreover have "expo x < e + 1" using e(2) expo_bounds [OF x]
    by (metis le_less_trans linorder_not_le power_int_increasing less_irrefl one_le_numeral)
  ultimately show ?thesis by simp
qed

section \<open>Rounding to an integer\<close>

lemma round_half_even_of_int [simp]: "round_half_even (of_int k) = k"
  by (simp add: round_half_even_def)

lemma round_half_even_floor: "round_half_even x \<in> {\<lfloor>x\<rfloor>, \<lfloor>x\<rfloor> + 1}"
  by (auto simp: round_half_even_def Let_def)

lemma round_half_even_mono: "x \<le> y \<Longrightarrow> round_half_even x \<le> round_half_even y"
proof -
  assume le: "x \<le> y"
  then have f: "\<lfloor>x\<rfloor> \<le> \<lfloor>y\<rfloor>" by (rule floor_mono)
  show ?thesis
  proof (cases "\<lfloor>x\<rfloor> = \<lfloor>y\<rfloor>")
    case True
    with le show ?thesis by (auto simp: round_half_even_def Let_def)
  next
    case False
    with f have "\<lfloor>x\<rfloor> + 1 \<le> \<lfloor>y\<rfloor>" by simp
    then show ?thesis
      using round_half_even_floor [of x] round_half_even_floor [of y] by auto
  qed
qed

lemma round_half_even_le: "x \<le> of_int k \<Longrightarrow> round_half_even x \<le> k"
  using round_half_even_mono [of x "of_int k"] by simp

lemma round_half_even_ge: "of_int k \<le> x \<Longrightarrow> k \<le> round_half_even x"
  using round_half_even_mono [of "of_int k" x] by simp

section \<open>Rounding to a binary64 magnitude\<close>

abbreviation cexp :: "rat \<Rightarrow> int" where "cexp x \<equiv> max (expo x) (- 1022)"

lemma ulp_pos [simp]: "0 < ulp_at x"
  by (simp add: ulp_at_def)

lemma powi_split: "(2 :: rat) powi (a + b) = 2 powi a * 2 powi b"
  by (rule power_int_add) simp

lemma round_mag_0 [simp]: "round_mag 0 = 0"
  by (simp add: round_mag_def)

lemma round_mag_nonneg: "0 \<le> x \<Longrightarrow> 0 \<le> round_mag x"
  using round_half_even_ge [of 0 "x / ulp_at x"] by (simp add: round_mag_def less_imp_le)

lemma round_mag_le_pow: "0 < x \<Longrightarrow> round_mag x \<le> 2 powi (cexp x + 1)"
proof -
  assume x: "0 < x"
  have p: "2 powi (cexp x + 1) = of_int (2 ^ 53) * ulp_at x"
    using powi_split [of 53 "cexp x - 52"] by (simp add: ulp_at_def add.commute [of 1])
  have "x < 2 powi (cexp x + 1)"
    using expo_bounds [OF x] by (rule conjE) (erule less_le_trans, rule power_int_increasing, simp_all)
  then have "x / ulp_at x \<le> of_int (2 ^ 53)"
    by (simp add: p pos_divide_le_eq)
  then have "round_half_even (x / ulp_at x) \<le> 2 ^ 53"
    by (rule round_half_even_le)
  then have "of_int (round_half_even (x / ulp_at x)) \<le> (of_int (2 ^ 53) :: rat)"
    by (simp only: of_int_le_iff)
  then show ?thesis
    using x by (simp only: p round_mag_def) (simp add: mult_right_mono less_imp_le)
qed

lemma round_mag_ge_pow: "0 < x \<Longrightarrow> - 1022 \<le> expo x \<Longrightarrow> 2 powi expo x \<le> round_mag x"
proof -
  assume x: "0 < x" and e: "- 1022 \<le> expo x"
  have p: "2 powi expo x = of_int (2 ^ 52) * ulp_at x"
    using powi_split [of 52 "expo x - 52"] e by (simp add: ulp_at_def max_def)
  have "of_int (2 ^ 52) \<le> x / ulp_at x"
    using expo_bounds [OF x] by (simp add: p pos_le_divide_eq)
  then have "2 ^ 52 \<le> round_half_even (x / ulp_at x)"
    by (rule round_half_even_ge)
  then have "(of_int (2 ^ 52) :: rat) \<le> of_int (round_half_even (x / ulp_at x))"
    by (simp only: of_int_le_iff)
  then show ?thesis
    using x by (simp only: p round_mag_def) (simp add: mult_right_mono less_imp_le)
qed

theorem round_mag_mono: "0 \<le> x \<Longrightarrow> x \<le> y \<Longrightarrow> round_mag x \<le> round_mag y"
proof (cases "x = 0")
  case False
  assume "0 \<le> x" and le: "x \<le> y"
  with False have x: "0 < x" and y: "0 < y" by auto
  have "expo x \<le> expo y"
  proof (rule ccontr)
    assume "\<not> expo x \<le> expo y"
    then have "(2 :: rat) powi (expo y + 1) \<le> 2 powi expo x"
      by (intro power_int_increasing) auto
    then show False using expo_bounds [OF x] expo_bounds [OF y] le by linarith
  qed
  then consider (same) "cexp x = cexp y" | (diff) "cexp x + 1 \<le> expo y" "- 1022 \<le> expo y" by linarith
  then show ?thesis
  proof cases
    case same
    then have u: "ulp_at x = ulp_at y" by (simp add: ulp_at_def)
    have "round_half_even (x / ulp_at y) \<le> round_half_even (y / ulp_at y)"
      using le by (intro round_half_even_mono divide_right_mono) (simp_all add: less_imp_le)
    then show ?thesis
      using x y u by (simp add: round_mag_def mult_right_mono less_imp_le)
  next
    case diff
    have "round_mag x \<le> 2 powi (cexp x + 1)" by (rule round_mag_le_pow [OF x])
    also have "\<dots> \<le> 2 powi expo y" using diff by (intro power_int_increasing) auto
    also have "\<dots> \<le> round_mag y" by (rule round_mag_ge_pow [OF y diff(2)])
    finally show ?thesis .
  qed
qed (simp add: round_mag_nonneg)

text \<open>The magnitudes a binary64 number can have, overflow apart.\<close>

definition rep :: "rat \<Rightarrow> bool" where
  "rep m \<longleftrightarrow> (\<exists>(k :: nat) e. k \<le> 2 ^ 53 \<and> - 1074 \<le> e \<and> m = of_nat k * 2 powi e)"

lemma powi_int: "0 \<le> d \<Longrightarrow> (2 :: rat) powi d = of_int (2 ^ nat d)"
  by (metis nat_0_le of_int_numeral of_int_power power_int_of_nat)

lemma round_mag_rep: "rep m \<Longrightarrow> round_mag m = m"
proof (cases "m = 0")
  case False
  assume "rep m"
  then obtain k e where k: "k \<le> 2 ^ 53" "- 1074 \<le> e" and m: "m = of_nat k * 2 powi e"
    by (auto simp: rep_def)
  have pos: "0 < m" using False by (auto simp: m)
  have int: "\<exists>j. m / ulp_at m = of_int j"
  proof (cases "cexp m - 52 \<le> e")
    case True
    have "m / ulp_at m = of_nat k * (2 powi e / 2 powi (cexp m - 52))"
      by (simp add: m ulp_at_def)
    also have "\<dots> = of_nat k * 2 powi (e - (cexp m - 52))"
      by (simp add: power_int_diff)
    also have "\<dots> = of_int (int k * 2 ^ nat (e - (cexp m - 52)))"
      using True by (simp add: powi_int)
    finally show ?thesis by blast
  next
    case False
    then have c: "cexp m = expo m" "e + 53 \<le> expo m" using k(2) by auto
    have "(2 :: rat) powi (e + 53) \<le> 2 powi expo m" using c by (intro power_int_increasing) auto
    also have "\<dots> \<le> m" using expo_bounds [OF pos] by simp
    finally have "2 ^ 53 * 2 powi e \<le> of_nat k * (2 :: rat) powi e"
      using powi_split [of e 53] by (simp add: m mult.commute)
    then have "(2 :: rat) ^ 53 \<le> of_nat k" by (rule mult_right_le_imp_le) simp
    then have "(of_nat (2 ^ 53) :: rat) \<le> of_nat k" by simp
    then have "k = 2 ^ 53" using k(1) by (simp only: of_nat_le_iff)
    then have m2: "m = 2 powi (e + 53)" using powi_split [of e 53] by (simp add: m mult.commute)
    then have "expo m = e + 53" by (intro expo_unique) (auto intro: power_int_strict_increasing)
    then have u: "ulp_at m = 2 powi (e + 1)" using c by (simp add: ulp_at_def add.commute [of 1])
    have "m / ulp_at m = 2 powi (e + 53) / 2 powi (e + 1)" unfolding u by (simp only: m2)
    also have "\<dots> = 2 powi (e + 53 - (e + 1))" by (rule power_int_diff [symmetric]) simp
    also have "\<dots> = of_int (2 ^ 52)" by simp
    finally show ?thesis by blast
  qed
  then obtain j where "m / ulp_at m = of_int j" ..
  then have "round_mag m = m / ulp_at m * ulp_at m" using False by (simp add: round_mag_def)
  then show ?thesis using ulp_pos [of m] by (simp del: ulp_pos)
qed simp


lemma round_mag_le: "rep m \<Longrightarrow> 0 \<le> x \<Longrightarrow> x \<le> m \<Longrightarrow> round_mag x \<le> m"
  using round_mag_mono [of x m] by (simp add: round_mag_rep)

lemma round_mag_ge: "rep m \<Longrightarrow> 0 \<le> m \<Longrightarrow> m \<le> x \<Longrightarrow> m \<le> round_mag x"
  using round_mag_mono [of m x] by (simp add: round_mag_rep)

lemma rep_nat: "n \<le> 2 ^ 53 \<Longrightarrow> rep (of_nat n)"
  unfolding rep_def by (rule exI [of _ n], rule exI [of _ 0]) simp

lemma rep_numeral: "numeral n \<le> (2 :: nat) ^ 53 \<Longrightarrow> rep (numeral n)"
  using rep_nat [of "numeral n"] by simp

lemma rep_0 [simp]: "rep 0" and rep_1 [simp]: "rep 1"
  using rep_nat [of 0] rep_nat [of 1] by simp_all

lemma rep_powi: "- 1074 \<le> e \<Longrightarrow> rep (2 powi e)"
  unfolding rep_def by (rule exI [of _ 1], rule exI [of _ e]) simp

lemma rep_pow2: "rep (2 ^ n)"
  using rep_powi [of "int n"] by (simp add: power_int_of_nat)

lemma rep_round_mag: "0 \<le> x \<Longrightarrow> rep (round_mag x)"
proof (cases "x = 0")
  case False
  assume "0 \<le> x"
  with False have x: "0 < x" by simp
  let ?j = "round_half_even (x / ulp_at x)"
  have r: "round_mag x = of_int ?j * 2 powi (cexp x - 52)"
    using x by (simp add: round_mag_def ulp_at_def)
  have j0: "0 \<le> ?j" using x by (intro round_half_even_ge) (simp add: less_imp_le)
  have p: "2 powi (cexp x + 1) = (of_int (2 ^ 53) :: rat) * 2 powi (cexp x - 52)"
    using powi_split [of 53 "cexp x - 52"] by (simp add: add.commute [of 1])
  have "of_int ?j * 2 powi (cexp x - 52) \<le> (of_int (2 ^ 53) :: rat) * 2 powi (cexp x - 52)"
    using round_mag_le_pow [OF x] by (simp only: r p)
  then have "(of_int ?j :: rat) \<le> of_int (2 ^ 53)" by (rule mult_right_le_imp_le) simp
  then have "?j \<le> 2 ^ 53" by (simp only: of_int_le_iff)
  then have "nat ?j \<le> 2 ^ 53" using j0 by (simp add: nat_le_iff)
  moreover have "(of_nat (nat ?j) :: rat) = of_int ?j" using j0 by simp
  ultimately show ?thesis
    unfolding rep_def r by (intro exI [of _ "nat ?j"] exI [of _ "cexp x - 52"]) simp
qed simp

lemma rep_half: "rep m \<Longrightarrow> - 1021 \<le> E \<Longrightarrow> 2 powi E \<le> m \<Longrightarrow> rep (m / 2)"
proof -
  assume "rep m" and E: "- 1021 \<le> E" "2 powi E \<le> m"
  then obtain k e where k: "k \<le> 2 ^ 53" "- 1074 \<le> e" and m: "m = of_nat k * 2 powi e"
    by (auto simp: rep_def)
  define t :: int where "t = - 1074"
  show ?thesis
  proof (cases "e = t")
    case False
    have "(2 :: rat) powi e = 2 powi (e - 1) * 2" using powi_split [of "e - 1" 1] by simp
    then have "m / 2 = of_nat k * 2 powi (e - 1)" by (simp add: m)
    moreover have "- 1074 \<le> e - 1" using k(2) False by (simp add: t_def)
    ultimately show ?thesis unfolding rep_def using k(1) by blast
  next
    case True
    have "of_nat (2 ^ 53) * 2 powi t = (2 :: rat) powi (53 + t)"
      unfolding powi_split by simp
    also have "\<dots> \<le> 2 powi E" using E(1) by (intro power_int_increasing) (simp_all add: t_def)
    also have "\<dots> \<le> of_nat k * 2 powi t" using E(2) by (simp only: m True)
    finally have "of_nat (2 ^ 53) * 2 powi t \<le> (of_nat k :: rat) * 2 powi t" .
    then have "(of_nat (2 ^ 53) :: rat) \<le> of_nat k" by (rule mult_right_le_imp_le) simp
    then have "k = 2 ^ 53" using k(1) by (simp only: of_nat_le_iff)
    then have "m / 2 = of_nat (2 ^ 52) * 2 powi t" by (simp add: m True)
    moreover have "- 1074 \<le> t" by (simp add: t_def)
    moreover have "(2 :: nat) ^ 52 \<le> 2 ^ 53" by simp
    ultimately show ?thesis unfolding rep_def by blast
  qed
qed

section \<open>Operations on finite numbers\<close>

lemma mk_finite: "0 \<le> x \<Longrightarrow> x \<le> 2 ^ n \<Longrightarrow> n < 1024 \<Longrightarrow> mk s x = Fin s (round_mag x)"
proof -
  assume "0 \<le> x" "x \<le> 2 ^ n" "n < 1024"
  then have "round_mag x \<le> 2 ^ n" using round_mag_le [OF rep_pow2] by blast
  moreover have "(2 :: rat) ^ n < 2 ^ 1024"
    using \<open>n < 1024\<close> by (rule power_strict_increasing) simp
  ultimately have "\<not> 2 ^ 1024 \<le> round_mag x" by linarith
  then show ?thesis unfolding mk_def Let_def by (rule if_not_P)
qed

lemma of_exact_finite:
  "\<bar>x\<bar> \<le> 2 ^ n \<Longrightarrow> n < 1024 \<Longrightarrow> x \<noteq> 0 \<Longrightarrow> of_exact s x = Fin (x < 0) (round_mag \<bar>x\<bar>)"
  by (simp add: of_exact_def mk_finite)

lemma f64_of_nat_eq: "n \<le> 2 ^ k \<Longrightarrow> k < 1024 \<Longrightarrow> f64_of_nat n = Fin False (round_mag (of_nat n))"
proof (cases "n = 0")
  case False
  assume "n \<le> 2 ^ k" "k < 1024"
  then have "(of_nat n :: rat) \<le> of_nat (2 ^ k)" by (subst of_nat_le_iff)
  then have "of_nat n \<le> (2 :: rat) ^ k" by simp
  with False \<open>k < 1024\<close> show ?thesis by (simp add: f64_of_nat_def of_exact_def mk_finite)
qed (simp add: f64_of_nat_def of_exact_def)

lemma round_mag_of_nat_bounds:
  "n \<le> 2 ^ k \<Longrightarrow> round_mag (of_nat n) \<le> 2 ^ k" "0 < n \<Longrightarrow> 1 \<le> round_mag (of_nat n)"
proof -
  show "round_mag (of_nat n) \<le> 2 ^ k" if "n \<le> 2 ^ k"
  proof (rule round_mag_le [OF rep_pow2])
    have "(of_nat n :: rat) \<le> of_nat (2 ^ k)" using that by (subst of_nat_le_iff)
    then show "of_nat n \<le> (2 :: rat) ^ k" by simp
  qed simp
  show "1 \<le> round_mag (of_nat n)" if "0 < n"
    using that by (intro round_mag_ge rep_1) simp_all
qed

lemma f64_of_u64_eq: "f64_of_u64 (w :: u64) = Fin False (round_mag (of_nat (unat w)))"
  unfolding f64_of_u64_def using unat_u64_less [of w] by (intro f64_of_nat_eq [of _ 64]) simp_all

lemma f64_of_u64_exact: "unat (w :: u64) \<le> 2 ^ 53 \<Longrightarrow> f64_of_u64 w = Fin False (of_nat (unat w))"
  unfolding f64_of_u64_eq by (simp only: round_mag_rep [OF rep_nat])

section \<open>Evaluation on literals\<close>

lemma floor_rat_numeral:
  "\<lfloor>(numeral a :: rat) / numeral b\<rfloor> = numeral a div numeral b" "\<lfloor>1 / (numeral b :: rat)\<rfloor> = 1 div numeral b"
  using floor_divide_of_int_eq [of "numeral a" "numeral b", where 'a = rat]
    floor_divide_of_int_eq [of 1 "numeral b", where 'a = rat] by simp_all

lemma ceiling_rat_numeral:
  "\<lceil>(numeral a :: rat) / numeral b\<rceil> = - (- numeral a div numeral b)"
  using ceiling_divide_eq_div [of "numeral a" "numeral b", where 'a = rat] by simp

lemmas f64_compute = floor_rat_numeral ceiling_rat_numeral f64_lit_def of_exact_def mk_def round_mag_def
  ulp_at_def expo_def round_half_even_def ilog2.simps Let_def f64_sub_def f64_eq_def f64_of_u64_def f64_of_nat_def

end
