(* ===== verification/GasFee.thy ===== *)
theory GasFee
  imports F64
begin

text \<open>
  The submission channels of \<open>sol-trade-sdk/src/swqos/mod.rs\<close> (types, configurations, blacklist, minimum tips) and the
  fee table of \<open>common/gas_fee_strategy.rs\<close>. The table is a map from channel, trade type and strategy kind to the fee
  values. Every writer of the source is a sequence of atomic read-copy-update steps; \<open>gas_step\<close> is one such step, and the
  operations are defined by the steps they perform, so that the last section can interleave them.
\<close>

section \<open>Channels\<close>

datatype trade_type = Create | CreateAndBuy | Buy | Sell

datatype swqos_type = Jito | NextBlock | ZeroSlot | Temporal | Bloxroute | Node1 | FlashBlock | BlockRazor
  | Astralane | Stellium | Lightspeed | Soyas | Speedlanding | Helius | SwqosDefault

definition swqos_values :: "swqos_type list" where
  "swqos_values = [Jito, NextBlock, ZeroSlot, Temporal, Bloxroute, Node1, FlashBlock, BlockRazor,
     Astralane, Stellium, Lightspeed, Soyas, Speedlanding, Helius, SwqosDefault]"

datatype swqos_region = NewYork | Frankfurt | Amsterdam | Dublin | SLC | Tokyo | Singapore | London | LosAngeles
  | RegionDefault

datatype swqos_transport = Http | Grpc | Quic
datatype astralane_transport = Binary | Plain | AstralaneQuic

datatype swqos_config =
    CfgDefault string
  | CfgJito string swqos_region "string option"
  | CfgNextBlock string swqos_region "string option"
  | CfgBloxroute string swqos_region "string option"
  | CfgTemporal string swqos_region "string option"
  | CfgZeroSlot string swqos_region "string option"
  | CfgNode1 string swqos_region "string option" "swqos_transport option"
  | CfgFlashBlock string swqos_region "string option"
  | CfgBlockRazor string swqos_region "string option" "swqos_transport option"
  | CfgAstralane string swqos_region "string option" "astralane_transport option"
  | CfgStellium string swqos_region "string option"
  | CfgLightspeed string swqos_region "string option"
  | CfgSoyas string swqos_region "string option"
  | CfgSpeedlanding string swqos_region "string option"
  | CfgHelius string swqos_region "string option" "bool option"

fun swqos_type_of :: "swqos_config \<Rightarrow> swqos_type" where
  "swqos_type_of (CfgDefault _) = SwqosDefault"
| "swqos_type_of (CfgJito _ _ _) = Jito"
| "swqos_type_of (CfgNextBlock _ _ _) = NextBlock"
| "swqos_type_of (CfgBloxroute _ _ _) = Bloxroute"
| "swqos_type_of (CfgTemporal _ _ _) = Temporal"
| "swqos_type_of (CfgZeroSlot _ _ _) = ZeroSlot"
| "swqos_type_of (CfgNode1 _ _ _ _) = Node1"
| "swqos_type_of (CfgFlashBlock _ _ _) = FlashBlock"
| "swqos_type_of (CfgBlockRazor _ _ _ _) = BlockRazor"
| "swqos_type_of (CfgAstralane _ _ _ _) = Astralane"
| "swqos_type_of (CfgStellium _ _ _) = Stellium"
| "swqos_type_of (CfgLightspeed _ _ _) = Lightspeed"
| "swqos_type_of (CfgSoyas _ _ _) = Soyas"
| "swqos_type_of (CfgSpeedlanding _ _ _) = Speedlanding"
| "swqos_type_of (CfgHelius _ _ _ _) = Helius"

definition SWQOS_BLACKLIST :: "swqos_type list" where
  "SWQOS_BLACKLIST = [NextBlock]"

definition is_blacklisted :: "swqos_config \<Rightarrow> bool" where
  "is_blacklisted c = (swqos_type_of c \<in> set SWQOS_BLACKLIST)"

text \<open>The default \<open>min_tip_sol\<close> of the client trait, with the constants of \<open>constants/swqos.rs\<close>.\<close>

fun min_tip_sol :: "swqos_type \<Rightarrow> f64" where
  "min_tip_sol Jito = f64_lit (1 / 100000)"
| "min_tip_sol NextBlock = f64_lit (1 / 1000)"
| "min_tip_sol ZeroSlot = f64_lit (1 / 10000)"
| "min_tip_sol Temporal = f64_lit (1 / 10000)"
| "min_tip_sol Bloxroute = f64_lit (1 / 10000)"
| "min_tip_sol Node1 = f64_lit (1 / 10000)"
| "min_tip_sol FlashBlock = f64_lit (1 / 10000)"
| "min_tip_sol BlockRazor = f64_lit (1 / 10000)"
| "min_tip_sol Astralane = f64_lit (1 / 100000)"
| "min_tip_sol Stellium = f64_lit (1 / 10000)"
| "min_tip_sol Lightspeed = f64_lit (1 / 10000)"
| "min_tip_sol Soyas = f64_lit (1 / 1000)"
| "min_tip_sol Speedlanding = f64_lit (1 / 1000)"
| "min_tip_sol Helius = f64_lit (2 / 10000)"
| "min_tip_sol SwqosDefault = f64_lit (1 / 100000)"

section \<open>The fee table\<close>

datatype gas_fee_strategy_type = Normal | LowTipHighCuPrice | HighTipLowCuPrice

definition gas_fee_strategy_values :: "gas_fee_strategy_type list" where
  "gas_fee_strategy_values = [Normal, LowTipHighCuPrice, HighTipLowCuPrice]"

record gas_fee_strategy_value =
  cu_limit :: u32
  cu_price :: u64
  tip :: f64

type_synonym gas_key = "swqos_type \<times> trade_type \<times> gas_fee_strategy_type"
type_synonym gas_table = "gas_key \<rightharpoonup> gas_fee_strategy_value"

definition gas_new :: gas_table where
  "gas_new = Map.empty"

text \<open>One atomic step: a closure handed to \<open>rcu\<close>, or the \<open>store\<close> of \<open>clear\<close>.\<close>

datatype gas_step =
    Remove "gas_key list"
  | Insert gas_key gas_fee_strategy_value
  | Adjust trade_type "gas_fee_strategy_value \<Rightarrow> gas_fee_strategy_value"
  | Store_empty

fun gas_apply :: "gas_step \<Rightarrow> gas_table \<Rightarrow> gas_table" where
  "gas_apply (Remove ks) m = (\<lambda>k. if k \<in> set ks then None else m k)"
| "gas_apply (Insert k v) m = m(k \<mapsto> v)"
| "gas_apply (Adjust t f) m = (\<lambda>(s, t', st). map_option (if t' = t then f else id) (m (s, t', st)))"
| "gas_apply Store_empty m = Map.empty"

definition gas_run :: "gas_step list \<Rightarrow> gas_table \<Rightarrow> gas_table" where
  "gas_run steps m = fold gas_apply steps m"

definition del_steps :: "swqos_type \<Rightarrow> trade_type \<Rightarrow> gas_fee_strategy_type \<Rightarrow> gas_step list" where
  "del_steps s t st = [Remove [(s, t, st)]]"

definition del_all_steps :: "swqos_type \<Rightarrow> trade_type \<Rightarrow> gas_step list" where
  "del_all_steps s t = [Remove [(s, t, Normal), (s, t, LowTipHighCuPrice), (s, t, HighTipLowCuPrice)]]"

definition set_steps ::
  "swqos_type \<Rightarrow> trade_type \<Rightarrow> gas_fee_strategy_type \<Rightarrow> u32 \<Rightarrow> u64 \<Rightarrow> f64 \<Rightarrow> gas_step list" where
  "set_steps s t st limit price tp =
     (if st = Normal then del_steps s t HighTipLowCuPrice @ del_steps s t LowTipHighCuPrice
      else del_steps s t Normal)
     @ [Insert (s, t, st) \<lparr>cu_limit = limit, cu_price = price, tip = tp\<rparr>]"

definition set_global_fee_strategy_steps :: "u32 \<Rightarrow> u32 \<Rightarrow> u64 \<Rightarrow> u64 \<Rightarrow> f64 \<Rightarrow> f64 \<Rightarrow> gas_step list" where
  "set_global_fee_strategy_steps buy_limit sell_limit buy_price sell_price buy_tip sell_tip =
     concat (map (\<lambda>s. if s = SwqosDefault then []
                      else set_steps s Buy Normal buy_limit buy_price buy_tip
                           @ set_steps s Sell Normal sell_limit sell_price sell_tip) swqos_values)
     @ set_steps SwqosDefault Buy Normal buy_limit buy_price (f64_lit 0)
     @ set_steps SwqosDefault Sell Normal sell_limit sell_price (f64_lit 0)"

definition high_low_steps :: "swqos_type \<Rightarrow> trade_type \<Rightarrow> u32 \<Rightarrow> u64 \<Rightarrow> u64 \<Rightarrow> f64 \<Rightarrow> f64 \<Rightarrow> gas_step list" where
  "high_low_steps s t limit low_price high_price low_tip high_tip =
     del_steps s t Normal
     @ set_steps s t LowTipHighCuPrice limit high_price low_tip
     @ set_steps s t HighTipLowCuPrice limit low_price high_tip"

definition set_high_low_fee_strategies_steps ::
  "swqos_type list \<Rightarrow> trade_type \<Rightarrow> u32 \<Rightarrow> u64 \<Rightarrow> u64 \<Rightarrow> f64 \<Rightarrow> f64 \<Rightarrow> gas_step list" where
  "set_high_low_fee_strategies_steps ss t limit low_price high_price low_tip high_tip =
     concat (map (\<lambda>s. high_low_steps s t limit low_price high_price low_tip high_tip) ss)"

definition set_high_low_fee_strategy_steps ::
  "swqos_type \<Rightarrow> trade_type \<Rightarrow> u32 \<Rightarrow> u64 \<Rightarrow> u64 \<Rightarrow> f64 \<Rightarrow> f64 \<Rightarrow> gas_step list" where
  "set_high_low_fee_strategy_steps s t limit low_price high_price low_tip high_tip =
     (if s = SwqosDefault then [] else high_low_steps s t limit low_price high_price low_tip high_tip)"

definition set_normal_fee_strategy_steps :: "swqos_type \<Rightarrow> u32 \<Rightarrow> u64 \<Rightarrow> f64 \<Rightarrow> f64 \<Rightarrow> gas_step list" where
  "set_normal_fee_strategy_steps s limit price buy_tip sell_tip =
     del_all_steps s Buy @ del_all_steps s Sell
     @ set_steps s Buy Normal limit price buy_tip @ set_steps s Sell Normal limit price sell_tip"

definition set_normal_fee_strategies_steps :: "swqos_type list \<Rightarrow> u32 \<Rightarrow> u64 \<Rightarrow> f64 \<Rightarrow> f64 \<Rightarrow> gas_step list" where
  "set_normal_fee_strategies_steps ss limit price buy_tip sell_tip =
     concat (map (\<lambda>s. set_normal_fee_strategy_steps s limit price buy_tip sell_tip) ss)"

definition update_buy_tip_steps :: "f64 \<Rightarrow> gas_step list" where
  "update_buy_tip_steps x = [Adjust Buy (\<lambda>v. v\<lparr>tip := x\<rparr>)]"

definition update_sell_tip_steps :: "f64 \<Rightarrow> gas_step list" where
  "update_sell_tip_steps x = [Adjust Sell (\<lambda>v. v\<lparr>tip := x\<rparr>)]"

definition update_buy_cu_price_steps :: "u64 \<Rightarrow> gas_step list" where
  "update_buy_cu_price_steps x = [Adjust Buy (\<lambda>v. v\<lparr>cu_price := x\<rparr>)]"

definition update_sell_cu_price_steps :: "u64 \<Rightarrow> gas_step list" where
  "update_sell_cu_price_steps x = [Adjust Sell (\<lambda>v. v\<lparr>cu_price := x\<rparr>)]"

definition clear_steps :: "gas_step list" where
  "clear_steps = [Store_empty]"

text \<open>
  Reading. The channels are collected in a hash set, whose iteration order is not specified: \<open>order\<close> is that order.
\<close>

definition strategy_channels :: "gas_table \<Rightarrow> trade_type \<Rightarrow> swqos_type set" where
  "strategy_channels m t = {s. \<exists>st. m (s, t, st) \<noteq> None}"

definition get_strategies ::
  "swqos_type list \<Rightarrow> gas_table \<Rightarrow> trade_type \<Rightarrow> (swqos_type \<times> gas_fee_strategy_type \<times> gas_fee_strategy_value) list" where
  "get_strategies order m t =
     concat (map (\<lambda>s. List.map_filter (\<lambda>st. map_option (\<lambda>v. (s, st, v)) (m (s, t, st))) gas_fee_strategy_values) order)"

section \<open>Calls and the table's invariant\<close>

text \<open>A call of the public interface, and the steps it performs.\<close>

datatype gas_call =
    SetGlobal u32 u32 u64 u64 f64 f64
  | SetHighLows "swqos_type list" trade_type u32 u64 u64 f64 f64
  | SetHighLow swqos_type trade_type u32 u64 u64 f64 f64
  | SetNormals "swqos_type list" u32 u64 f64 f64
  | SetNormal swqos_type u32 u64 f64 f64
  | SetOne swqos_type trade_type gas_fee_strategy_type u32 u64 f64
  | DelAll swqos_type trade_type
  | Del swqos_type trade_type gas_fee_strategy_type
  | Clear
  | UpdateBuyTip f64
  | UpdateSellTip f64
  | UpdateBuyCuPrice u64
  | UpdateSellCuPrice u64

fun call_steps :: "gas_call \<Rightarrow> gas_step list" where
  "call_steps (SetGlobal a b c d e f) = set_global_fee_strategy_steps a b c d e f"
| "call_steps (SetHighLows a b c d e f g) = set_high_low_fee_strategies_steps a b c d e f g"
| "call_steps (SetHighLow a b c d e f g) = set_high_low_fee_strategy_steps a b c d e f g"
| "call_steps (SetNormals a b c d e) = set_normal_fee_strategies_steps a b c d e"
| "call_steps (SetNormal a b c d e) = set_normal_fee_strategy_steps a b c d e"
| "call_steps (SetOne a b c d e f) = set_steps a b c d e f"
| "call_steps (DelAll a b) = del_all_steps a b"
| "call_steps (Del a b c) = del_steps a b c"
| "call_steps Clear = clear_steps"
| "call_steps (UpdateBuyTip x) = update_buy_tip_steps x"
| "call_steps (UpdateSellTip x) = update_sell_tip_steps x"
| "call_steps (UpdateBuyCuPrice x) = update_buy_cu_price_steps x"
| "call_steps (UpdateSellCuPrice x) = update_sell_cu_price_steps x"

text \<open>Sequential use of the table: each call runs to its end before the next begins.\<close>

inductive gas_reachable :: "gas_table \<Rightarrow> bool" where
  gas_init: "gas_reachable gas_new"
| gas_call: "gas_reachable m \<Longrightarrow> gas_reachable (gas_run (call_steps c) m)"

definition exclusive :: "gas_table \<Rightarrow> bool" where
  "exclusive m \<longleftrightarrow> (\<forall>s t. m (s, t, Normal) = None \<or>
      m (s, t, LowTipHighCuPrice) = None \<and> m (s, t, HighTipLowCuPrice) = None)"


lemma gas_run_simps [simp]:
  "gas_run [] m = m" "gas_run (x # xs) m = gas_run xs (gas_apply x m)" "gas_run (xs @ ys) m = gas_run ys (gas_run xs m)"
  by (simp_all add: gas_run_def)

definition keeps_exclusive :: "gas_step list \<Rightarrow> bool" where
  "keeps_exclusive steps \<longleftrightarrow> (\<forall>m. exclusive m \<longrightarrow> exclusive (gas_run steps m))"

named_theorems keeps_intro \<open>step lists that keep the table exclusive\<close>

lemma keeps_Nil [keeps_intro]: "keeps_exclusive []"
  by (simp add: keeps_exclusive_def)

lemma keeps_append [keeps_intro]: "keeps_exclusive xs \<Longrightarrow> keeps_exclusive ys \<Longrightarrow> keeps_exclusive (xs @ ys)"
  by (simp add: keeps_exclusive_def)

lemma keeps_concat [keeps_intro]: "(\<And>s. keeps_exclusive (f s)) \<Longrightarrow> keeps_exclusive (concat (map f ss))"
  by (induction ss) (simp_all add: keeps_intro)

lemma keeps_Remove [keeps_intro]: "keeps_exclusive [Remove ks]"
  by (auto simp: keeps_exclusive_def exclusive_def) (metis option.distinct(1))+

lemma keeps_Adjust [keeps_intro]: "keeps_exclusive [Adjust t f]"
  by (auto simp: keeps_exclusive_def exclusive_def)

lemma keeps_Store [keeps_intro]: "keeps_exclusive [Store_empty]"
  by (simp add: keeps_exclusive_def exclusive_def)

lemma keeps_set [keeps_intro]: "keeps_exclusive (set_steps s t st limit price tp)"
  by (cases st) (auto simp: keeps_exclusive_def exclusive_def set_steps_def del_steps_def)

lemma keeps_high_low [keeps_intro]: "keeps_exclusive (high_low_steps s t limit lp hp lt ht)"
  unfolding high_low_steps_def del_steps_def by (intro keeps_intro)

lemma keeps_normal [keeps_intro]: "keeps_exclusive (set_normal_fee_strategy_steps s limit price bt st)"
  unfolding set_normal_fee_strategy_steps_def del_all_steps_def by (intro keeps_intro)

lemma keeps_call: "keeps_exclusive (call_steps c)"
  by (cases c)
     (auto simp: set_global_fee_strategy_steps_def set_high_low_fee_strategies_steps_def
        set_high_low_fee_strategy_steps_def set_normal_fee_strategies_steps_def
        del_all_steps_def del_steps_def clear_steps_def update_buy_tip_steps_def update_sell_tip_steps_def
        update_buy_cu_price_steps_def update_sell_cu_price_steps_def intro!: keeps_intro)

section \<open>What a call leaves behind\<close>

lemma set_steps_lookup:
  "gas_run (set_steps s t st limit price tp) m k =
     (if k = (s, t, st) then Some \<lparr>cu_limit = limit, cu_price = price, tip = tp\<rparr>
      else if fst k = s \<and> fst (snd k) = t \<and> (st = Normal \<or> snd (snd k) = Normal) then None else m k)"
  by (cases k; cases "snd (snd k)"; cases st) (auto simp: set_steps_def del_steps_def)

text \<open>A loop over distinct channels whose body touches only its own channel acts on each channel once.\<close>

lemma channel_loop:
  assumes "\<And>s' m' t' st'. gas_run (f s') m' (s, t', st') = (if s = s' then E t' st' (m' (s, t', st')) else m' (s, t', st'))"
    and "distinct ss"
  shows "gas_run (concat (map f ss)) m (s, t, st) = (if s \<in> set ss then E t st (m (s, t, st)) else m (s, t, st))"
  using assms(2)
proof (induction ss arbitrary: m)
  case (Cons x ss)
  then show ?case using assms(1) [of x m] by auto
qed simp

lemma swqos_values_complete: "s \<in> set swqos_values" "distinct swqos_values"
  by (cases s) (simp_all add: swqos_values_def)

text \<open>The value \<open>set_global_fee_strategy\<close> gives a channel.\<close>

definition global_entry ::
  "u32 \<Rightarrow> u32 \<Rightarrow> u64 \<Rightarrow> u64 \<Rightarrow> f64 \<Rightarrow> f64 \<Rightarrow> swqos_type \<Rightarrow> trade_type \<Rightarrow> gas_fee_strategy_type
    \<Rightarrow> gas_fee_strategy_value option \<Rightarrow> gas_fee_strategy_value option" where
  "global_entry bl sl bp sp bt st s t k old =
     (if t \<notin> {Buy, Sell} then old
      else if k \<noteq> Normal then None
      else Some \<lparr>cu_limit = (if t = Buy then bl else sl), cu_price = (if t = Buy then bp else sp),
                 tip = (if s = SwqosDefault then f64_lit 0 else if t = Buy then bt else st)\<rparr>)"

lemma set_global_lookup:
  "gas_run (set_global_fee_strategy_steps bl sl bp sp bt st) m (s, t, k) = global_entry bl sl bp sp bt st s t k (m (s, t, k))"
proof -
  define f where "f = (\<lambda>s. if s = SwqosDefault then []
      else set_steps s Buy Normal bl bp bt @ set_steps s Sell Normal sl sp st)"
  have loop: "gas_run (concat (map f swqos_values)) m (s, t', k')
      = (if s = SwqosDefault then m (s, t', k') else global_entry bl sl bp sp bt st s t' k' (m (s, t', k')))" for t' k'
    by (subst channel_loop [where E = "\<lambda>t' st' old. if s = SwqosDefault then old else global_entry bl sl bp sp bt st s t' st' old"])
       (auto simp: f_def set_steps_lookup global_entry_def swqos_values_complete)
  show ?thesis
    unfolding set_global_fee_strategy_steps_def f_def [symmetric]
    by (auto simp: set_steps_lookup loop global_entry_def)
qed

section \<open>Properties\<close>

text \<open>
  C31: whatever sequence of calls built the fee table, no channel ever has both a normal strategy and a high/low pair for
  the same trade type, so a trade never pays for one channel twice.
\<close>

theorem gas_table_exclusive:
  "gas_reachable m \<Longrightarrow> m (s, t, Normal) = None \<or>
     m (s, t, LowTipHighCuPrice) = None \<and> m (s, t, HighTipLowCuPrice) = None"
proof -
  assume "gas_reachable m"
  then have "exclusive m"
  proof induction
    case gas_init
    then show ?case by (simp add: exclusive_def gas_new_def)
  next
    case (gas_call m c)
    then show ?case using keeps_call [of c] by (simp add: keeps_exclusive_def)
  qed
  then show ?thesis by (simp add: exclusive_def)
qed

theorem gas_table_exclusive_witness:
  "gas_run (call_steps (SetHighLow Jito Buy 100 1 2 (f64_lit 3) (f64_lit 4)))
     (gas_run (call_steps (SetOne Jito Buy Normal 100 7 (f64_lit 1))) gas_new) (Jito, Buy, Normal) = None"
proof -
  define m where "m = gas_run (call_steps (SetHighLow Jito Buy 100 1 2 (f64_lit 3) (f64_lit 4)))
     (gas_run (call_steps (SetOne Jito Buy Normal 100 7 (f64_lit 1))) gas_new)"
  have "gas_reachable m" unfolding m_def by (intro gas_reachable.intros)
  moreover have "m (Jito, Buy, LowTipHighCuPrice) \<noteq> None"
    by (simp add: m_def set_high_low_fee_strategy_steps_def high_low_steps_def set_steps_lookup)
  ultimately show ?thesis unfolding m_def [symmetric] using gas_table_exclusive [of m Jito Buy] by auto
qed

text \<open>
  After \<open>set_global_fee_strategy\<close> the strategies read back for a purchase or a sale are exactly one normal strategy
  for each channel of the table, with the limits, prices and tips passed in, except that the plain RPC channel tips nothing;
  the order is the hash set's.
\<close>

theorem set_global_then_get:
  assumes "set order = strategy_channels m' t" and "distinct order" and "t \<in> {Buy, Sell}"
    and "m' = gas_run (set_global_fee_strategy_steps bl sl bp sp bt st) m"
  shows "get_strategies order m' t =
       map (\<lambda>s. (s, Normal, \<lparr>cu_limit = (if t = Buy then bl else sl), cu_price = (if t = Buy then bp else sp),
                   tip = (if s = SwqosDefault then f64_lit 0 else if t = Buy then bt else st)\<rparr>)) order
     \<and> set order = set swqos_values \<and> length order = 15"
proof (intro conjI)
  have look: "m' (s, t, k) = global_entry bl sl bp sp bt st s t k (m (s, t, k))" for s k
    by (simp add: assms(4) set_global_lookup)
  show "get_strategies order m' t =
       map (\<lambda>s. (s, Normal, \<lparr>cu_limit = (if t = Buy then bl else sl), cu_price = (if t = Buy then bp else sp),
                   tip = (if s = SwqosDefault then f64_lit 0 else if t = Buy then bt else st)\<rparr>)) order"
    using assms(3)
    by (induction order)
       (auto simp: get_strategies_def gas_fee_strategy_values_def List.map_filter_def look global_entry_def)
  have "m' (s, t, Normal) \<noteq> None" for s
    using assms(3) by (auto simp: look global_entry_def)
  then have "strategy_channels m' t = UNIV" by (auto simp: strategy_channels_def) blast
  then show all: "set order = set swqos_values"
    using assms(1) swqos_values_complete(1) by auto
  have "length order = card (set order)" using assms(2) by (simp add: distinct_card)
  also have "\<dots> = 15" by (simp add: all swqos_values_def)
  finally show "length order = 15" .
qed

theorem set_global_then_get_witness:
  "get_strategies swqos_values
       (gas_run (set_global_fee_strategy_steps 150000 150000 500000 500000 (f64_lit (1 / 10000)) (f64_lit (1 / 10000))) gas_new) Sell
     = map (\<lambda>s. (s, Normal, \<lparr>cu_limit = 150000, cu_price = 500000,
                   tip = (if s = SwqosDefault then f64_lit 0 else f64_lit (1 / 10000))\<rparr>)) swqos_values"
proof -
  let ?m = "gas_run (set_global_fee_strategy_steps 150000 150000 500000 500000 (f64_lit (1 / 10000)) (f64_lit (1 / 10000))) gas_new"
  have "set swqos_values = strategy_channels ?m Sell"
    using swqos_values_complete(1) by (auto simp: strategy_channels_def set_global_lookup global_entry_def)
  then show ?thesis
    using set_global_then_get [of swqos_values ?m Sell 150000 150000 500000 500000 "f64_lit (1 / 10000)" "f64_lit (1 / 10000)" gas_new]
      swqos_values_complete(2) by auto
qed

text \<open>
  Exclusiveness rests on the calls not overlapping. A \<open>set\<close> is three separate atomic updates: when a normal and a low-tip
  \<open>set\<close> of one channel interleave, both entries can be left in the table.
\<close>

theorem gas_set_race:
  "\<exists>steps \<in> shuffles (set_steps s t Normal l1 p1 t1) (set_steps s t LowTipHighCuPrice l2 p2 t2).
     gas_run steps gas_new (s, t, Normal) \<noteq> None \<and> gas_run steps gas_new (s, t, LowTipHighCuPrice) \<noteq> None"
proof -
  let ?a = "Remove [(s, t, HighTipLowCuPrice)]" and ?b = "Remove [(s, t, LowTipHighCuPrice)]"
    and ?i = "Insert (s, t, Normal) \<lparr>cu_limit = l1, cu_price = p1, tip = t1\<rparr>"
    and ?c = "Remove [(s, t, Normal)]"
    and ?j = "Insert (s, t, LowTipHighCuPrice) \<lparr>cu_limit = l2, cu_price = p2, tip = t2\<rparr>"
  have "[?a, ?b, ?c, ?i, ?j] \<in> shuffles [?a, ?b, ?i] [?c, ?j]" by simp
  then show ?thesis
    by (intro bexI [of _ "[?a, ?b, ?c, ?i, ?j]"]) (simp_all add: set_steps_def del_steps_def gas_new_def)
qed

end
