(* ===== verification/CalcCommon.thy ===== *)
theory CalcCommon
  imports RustInt
begin

text \<open>
  \<open>sol-trade-sdk/src/utils/calc/common.rs\<close>: ceiling division, basis-point fees and the two
  slippage adjustments every venue calculator uses, and the contract of a constant-product
  trade (the locale \<open>constant_product_trade\<close>) that the venue theories interpret.
\<close>

section \<open>Operations\<close>

definition ceil_div :: "profile \<Rightarrow> u128 \<Rightarrow> u128 \<Rightarrow> u128 rust" where
  "ceil_div p a b = do { s \<leftarrow> add_w p a b; t \<leftarrow> sub_w p s 1; div_w t b }"

definition compute_fee :: "profile \<Rightarrow> u128 \<Rightarrow> u128 \<Rightarrow> u128 rust" where
  "compute_fee p amount fee_basis_points =
     do { m \<leftarrow> mul_w p amount fee_basis_points; ceil_div p m 10000 }"

definition MAX_SLIPPAGE_BASIS_POINTS :: u64 where
  "MAX_SLIPPAGE_BASIS_POINTS = 9999"

definition calculate_with_slippage_buy :: "profile \<Rightarrow> u64 \<Rightarrow> u64 \<Rightarrow> u64 rust" where
  "calculate_with_slippage_buy p amount basis_points =
     (let bps = (if MAX_SLIPPAGE_BASIS_POINTS < basis_points
                 then MAX_SLIPPAGE_BASIS_POINTS else basis_points)
      in do { m \<leftarrow> mul_w p amount bps; d \<leftarrow> div_w m 10000; add_w p amount d })"

definition calculate_with_slippage_sell :: "profile \<Rightarrow> u64 \<Rightarrow> u64 \<Rightarrow> u64 rust" where
  "calculate_with_slippage_sell p amount basis_points =
     (if amount \<le> basis_points div 10000 then Some 1
      else do { m \<leftarrow> mul_w p amount basis_points; d \<leftarrow> div_w m 10000; sub_w p amount d })"

section \<open>Ceiling division and fees\<close>

lemma ceil_div_eval [rust_ok]:
  assumes "0 < unat b" and "unat a + unat b < 2 ^ 128"
  shows "ceil_div p a b = Some (word_of_nat (ceil_nat (unat a) (unat b)))"
proof -
  have s: "unat (a + b) = unat a + unat b"
    using assms by (simp add: unat_add_ok)
  then have one: "(1 :: u128) \<le> a + b"
    using assms by (simp add: word_le_nat_alt)
  have "unat ((a + b - 1) div b) = ceil_nat (unat a) (unat b)"
    using one s by (simp add: unat_eval ceil_nat_def)
  then show ?thesis
    using assms one by (auto simp: ceil_div_def rust_ok word_neq_0_unat dest: word_of_nat_eqI)
qed

lemma ceil_div_zero: "ceil_div Wrapping a 0 = None" "ceil_div Checked a 0 = None"
  by (simp_all add: ceil_div_def add_w_def sub_w_def div_w_def)

lemma compute_fee_eval [rust_ok]:
  assumes "unat amount * unat bps + 10000 < 2 ^ 128"
  shows "compute_fee p amount bps = Some (word_of_nat (ceil_nat (unat amount * unat bps) 10000))"
  using assms by (simp add: compute_fee_def rust_ok unat_mul_ok)

section \<open>Slippage\<close>

text \<open>The amount a slippage rate takes off or adds, over the natural numbers.\<close>

definition slip :: "nat \<Rightarrow> nat \<Rightarrow> nat" where
  "slip amount bps = amount * bps div 10000"

lemma slip_le: "bps \<le> 10000 \<Longrightarrow> slip amount bps \<le> amount"
  unfolding slip_def by (rule div_le_of_mult) simp_all

lemma slip_less: "bps < 10000 \<Longrightarrow> 0 < amount \<Longrightarrow> slip amount bps < amount"
  unfolding slip_def by (rule div_less_of_mult) simp

lemma slippage_buy_eval:
  assumes "unat amount * 9999 < 2 ^ 64" and "unat amount + slip (unat amount) (min (unat bps) 9999) < 2 ^ 64"
  shows "calculate_with_slippage_buy p amount bps =
           Some (word_of_nat (unat amount + slip (unat amount) (min (unat bps) 9999)))"
proof -
  define b where "b = (if MAX_SLIPPAGE_BASIS_POINTS < bps then MAX_SLIPPAGE_BASIS_POINTS else bps)"
  have b: "unat b = min (unat bps) 9999"
    by (simp add: b_def MAX_SLIPPAGE_BASIS_POINTS_def word_less_nat_alt)
  have "unat amount * unat b \<le> unat amount * 9999"
    by (simp add: b)
  with assms(1) have m: "unat amount * unat b < 2 ^ 64" by (rule le_less_trans [rotated])
  then have d: "unat (amount * b div 10000) = slip (unat amount) (min (unat bps) 9999)"
    by (simp add: unat_eval slip_def b)
  show ?thesis
    using m d assms(2)
    by (simp add: calculate_with_slippage_buy_def Let_def b_def [symmetric] rust_ok
        word_of_nat_eqI unat_add_ok)
qed

lemma slippage_sell_zero: "calculate_with_slippage_sell p 0 bps = Some 1"
  by (simp add: calculate_with_slippage_sell_def)

lemma slippage_sell_eval:
  assumes "0 < unat amount" and "unat bps < 10000" and "unat amount * unat bps < 2 ^ 64"
  shows "calculate_with_slippage_sell p amount bps =
           Some (word_of_nat (unat amount - slip (unat amount) (unat bps)))"
proof -
  have guard: "\<not> amount \<le> bps div 10000"
    using assms by (simp add: word_le_nat_alt unat_div_ok)
  have d: "unat (amount * bps div 10000) = slip (unat amount) (unat bps)"
    using assms by (simp add: unat_eval slip_def)
  then have le: "amount * bps div 10000 \<le> amount"
    using slip_le [of "unat bps" "unat amount"] assms by (simp add: word_le_nat_alt)
  show ?thesis
    using guard le d assms
    by (simp add: calculate_with_slippage_sell_def rust_ok word_of_nat_eqI unat_sub)
qed

section \<open>The constant-product contract\<close>

text \<open>
  A venue's quote is described by the reserves it starts from and the amounts that cross
  the pool. The one law a venue promises is that it rounds its output down; everything a
  caller wants to know about the pool follows.
\<close>

locale constant_product_trade =
  fixes valid :: "'t \<Rightarrow> bool"
    and reserve_in :: "'t \<Rightarrow> nat"
    and reserve_out :: "'t \<Rightarrow> nat"
    and amount_in :: "'t \<Rightarrow> nat"
    and amount_out :: "'t \<Rightarrow> nat"
  assumes rounds_down:
    "valid t \<Longrightarrow> amount_out t * (reserve_in t + amount_in t) \<le> reserve_out t * amount_in t"
    and reserve_in_pos: "valid t \<Longrightarrow> 0 < reserve_in t"
begin

lemma out_le_reserve: "valid t \<Longrightarrow> amount_out t \<le> reserve_out t"
proof -
  assume v: "valid t"
  have "amount_out t * (reserve_in t + amount_in t) \<le> reserve_out t * (reserve_in t + amount_in t)"
    using rounds_down [OF v] by (simp add: add_mult_distrib2)
  then show ?thesis using reserve_in_pos [OF v] by simp
qed

lemma out_less_reserve: "valid t \<Longrightarrow> 0 < reserve_out t \<Longrightarrow> amount_out t < reserve_out t"
proof -
  assume v: "valid t" and o: "0 < reserve_out t"
  have "amount_out t * (reserve_in t + amount_in t) < reserve_out t * (reserve_in t + amount_in t)"
    using rounds_down [OF v] mult_pos_pos [OF o reserve_in_pos [OF v]]
    unfolding add_mult_distrib2 by linarith
  then show ?thesis by simp
qed

lemma product_kept:
  "valid t \<Longrightarrow>
     reserve_in t * reserve_out t
       \<le> (reserve_in t + amount_in t) * (reserve_out t - amount_out t)"
proof -
  assume v: "valid t"
  have "(reserve_in t + amount_in t) * (reserve_out t - amount_out t)
      = (reserve_in t + amount_in t) * reserve_out t
        - amount_out t * (reserve_in t + amount_in t)"
    by (simp add: diff_mult_distrib2 mult.commute diff_mult_distrib)
  moreover have "(reserve_in t + amount_in t) * reserve_out t
      = reserve_in t * reserve_out t + reserve_out t * amount_in t"
    by (simp add: algebra_simps)
  ultimately show ?thesis using rounds_down [OF v] by linarith
qed

end

text \<open>The quotient every venue computes satisfies the law.\<close>

lemma cp_floor_law [amm_nat]: "ro * dx div (ri + dx) * (ri + dx) \<le> ro * (dx :: nat)"
  by (rule div_mult_le_nat)

lemma cp_floor_le [amm_nat]: "ro * dx div (ri + dx) \<le> (ro :: nat)"
proof (cases "ri + dx = 0")
  case False
  then show ?thesis by (intro div_le_of_mult) (simp_all add: add_mult_distrib2)
qed simp

end
