(* ===== verification/CalcPumpFun.thy ===== *)
theory CalcPumpFun
  imports CalcCommon Solana F64
begin

text \<open>
  The Pump.fun bonding curve: \<open>sol-trade-sdk/src/utils/calc/pumpfun.rs\<close>, the curve account of
  \<open>common/bonding_curve.rs\<close>, the initial quote of \<open>common/global.rs\<close> and the free-standing
  \<open>get_buy_price\<close> of \<open>instruction/utils/pumpfun.rs\<close>.
\<close>

section \<open>Constants (instruction/utils/pumpfun.rs, global\_constants)\<close>

definition INITIAL_VIRTUAL_TOKEN_RESERVES :: u64 where "INITIAL_VIRTUAL_TOKEN_RESERVES = 1073000000000000"
definition INITIAL_VIRTUAL_SOL_RESERVES :: u64 where "INITIAL_VIRTUAL_SOL_RESERVES = 30000000000"
definition INITIAL_REAL_TOKEN_RESERVES :: u64 where "INITIAL_REAL_TOKEN_RESERVES = 793100000000000"
definition TOKEN_TOTAL_SUPPLY :: u64 where "TOKEN_TOTAL_SUPPLY = 1000000000000000"
definition FEE_BASIS_POINTS :: u64 where "FEE_BASIS_POINTS = 95"
definition CREATOR_FEE :: u64 where "CREATOR_FEE = 30"

lemmas pumpfun_const_defs = INITIAL_VIRTUAL_TOKEN_RESERVES_def INITIAL_VIRTUAL_SOL_RESERVES_def
  INITIAL_REAL_TOKEN_RESERVES_def TOKEN_TOTAL_SUPPLY_def FEE_BASIS_POINTS_def CREATOR_FEE_def

section \<open>Quotes (utils/calc/pumpfun.rs)\<close>

definition sol_to_lamports :: "f64 \<Rightarrow> u64" where
  "sol_to_lamports sol = u64_of_f64 (f64_mul sol (f64_lit 1000000000))"

text \<open>\<open>sol_str_to_lamports("0.01").unwrap_or(0)\<close>: the text parses to the nearest binary64 number.\<close>

definition small_buy_lamports :: u64 where
  "small_buy_lamports = sol_to_lamports (f64_lit (1 / 100))"

text \<open>The statement both quotes share: the protocol fee plus, for a coin that has one, the creator's.\<close>

definition total_fee_basis_points :: "profile \<Rightarrow> pubkey \<Rightarrow> u64 rust" where
  "total_fee_basis_points p creator =
     add_w p FEE_BASIS_POINTS (if creator \<noteq> pubkey_default then CREATOR_FEE else 0)"

definition get_buy_token_amount_from_sol_amount ::
  "profile \<Rightarrow> u128 \<Rightarrow> u128 \<Rightarrow> u128 \<Rightarrow> pubkey \<Rightarrow> u64 \<Rightarrow> u64 rust" where
  "get_buy_token_amount_from_sol_amount p virtual_token_reserves virtual_sol_reserves
       real_token_reserves creator amount =
     (if amount = 0 then Some 0
      else if virtual_token_reserves = 0 then Some 0
      else do {
        fee \<leftarrow> total_fee_basis_points p creator;
        m \<leftarrow> checked_mul (as_u128 amount) 10000;
        d \<leftarrow> add_w p (as_u128 fee) 10000;
        input_amount \<leftarrow> checked_div m d;
        denominator \<leftarrow> add_w p virtual_sol_reserves input_amount;
        n \<leftarrow> checked_mul input_amount virtual_token_reserves;
        q \<leftarrow> checked_div n denominator;
        let tokens_received = min q real_token_reserves;
        Some (as_u64 (if tokens_received \<le> 100000000
                      then (if small_buy_lamports < amount then 25547619000000 else 255476000000)
                      else tokens_received))
      })"

definition get_sell_sol_amount_from_token_amount ::
  "profile \<Rightarrow> u128 \<Rightarrow> u128 \<Rightarrow> pubkey \<Rightarrow> u64 \<Rightarrow> u64 rust" where
  "get_sell_sol_amount_from_token_amount p virtual_token_reserves virtual_sol_reserves creator amount =
     (if amount = 0 then Some 0
      else if virtual_token_reserves = 0 then Some 0
      else do {
        let numerator = unwrap_or (checked_mul (as_u128 amount) virtual_sol_reserves) 0;
        let denominator = unwrap_or (checked_add virtual_token_reserves (as_u128 amount)) 1;
        let sol_cost = unwrap_or (checked_div numerator denominator) 0;
        bps \<leftarrow> total_fee_basis_points p creator;
        fee \<leftarrow> compute_fee p sol_cost (as_u128 bps);
        Some (as_u64 (saturating_sub sol_cost fee))
      })"

section \<open>The curve account (common/bonding\_curve.rs)\<close>

record bonding_curve_account =
  bc_discriminator :: u64
  bc_account :: pubkey
  bc_virtual_token_reserves :: u64
  bc_virtual_sol_reserves :: u64
  bc_real_token_reserves :: u64
  bc_real_sol_reserves :: u64
  bc_token_total_supply :: u64
  bc_complete :: bool
  bc_creator :: pubkey
  bc_is_mayhem_mode :: bool
  bc_is_cashback_coin :: bool

datatype curve_error = CurveComplete

text \<open>The statements the three buy quotes share: tokens left on the curve, rounded up, taken off the virtual reserve.\<close>

definition curve_tokens_out :: "profile \<Rightarrow> u64 \<Rightarrow> u64 \<Rightarrow> u64 \<Rightarrow> u128 rust" where
  "curve_tokens_out p virtual_sol virtual_token amount = do {
     n \<leftarrow> mul_w p (as_u128 virtual_sol) (as_u128 virtual_token);
     i \<leftarrow> add_w p (as_u128 virtual_sol) (as_u128 amount);
     q \<leftarrow> div_w n i;
     r \<leftarrow> add_w p q 1;
     sub_w p (as_u128 virtual_token) r
   }"

definition curve_get_buy_price :: "profile \<Rightarrow> bonding_curve_account \<Rightarrow> u64 \<Rightarrow> (curve_error + u64) rust" where
  "curve_get_buy_price p self amount =
     (if bc_complete self then Some (Inl CurveComplete)
      else if amount = 0 then Some (Inr 0)
      else do {
        s \<leftarrow> curve_tokens_out p (bc_virtual_sol_reserves self) (bc_virtual_token_reserves self) amount;
        let s_u64 = as_u64 s;
        Some (Inr (if s_u64 < bc_real_token_reserves self then s_u64 else bc_real_token_reserves self))
      })"

definition curve_get_sell_price ::
  "profile \<Rightarrow> bonding_curve_account \<Rightarrow> u64 \<Rightarrow> u64 \<Rightarrow> (curve_error + u64) rust" where
  "curve_get_sell_price p self amount fee_basis_points =
     (if bc_complete self then Some (Inl CurveComplete)
      else if amount = 0 then Some (Inr 0)
      else do {
        m \<leftarrow> mul_w p (as_u128 amount) (as_u128 (bc_virtual_sol_reserves self));
        d \<leftarrow> add_w p (as_u128 (bc_virtual_token_reserves self)) (as_u128 amount);
        n \<leftarrow> div_w m d;
        f \<leftarrow> mul_w p n (as_u128 fee_basis_points);
        a \<leftarrow> div_w f 10000;
        s \<leftarrow> sub_w p n a;
        Some (Inr (as_u64 s))
      })"

definition get_market_cap_sol :: "profile \<Rightarrow> bonding_curve_account \<Rightarrow> u64 rust" where
  "get_market_cap_sol p self =
     (if bc_virtual_token_reserves self = 0 then Some 0
      else do {
        m \<leftarrow> mul_w p (as_u128 (bc_token_total_supply self)) (as_u128 (bc_virtual_sol_reserves self));
        q \<leftarrow> div_w m (as_u128 (bc_virtual_token_reserves self));
        Some (as_u64 q)
      })"

definition get_buy_out_price :: "profile \<Rightarrow> bonding_curve_account \<Rightarrow> u64 \<Rightarrow> u64 \<Rightarrow> u64 rust" where
  "get_buy_out_price p self amount fee_basis_points = do {
     let sol_tokens = (if amount < bc_real_sol_reserves self
                       then as_u128 (bc_real_sol_reserves self) else as_u128 amount);
     m \<leftarrow> mul_w p sol_tokens (as_u128 (bc_virtual_sol_reserves self));
     d \<leftarrow> sub_w p (as_u128 (bc_virtual_token_reserves self)) sol_tokens;
     q \<leftarrow> div_w m d;
     total_sell_value \<leftarrow> add_w p q 1;
     f \<leftarrow> mul_w p total_sell_value (as_u128 fee_basis_points);
     fee \<leftarrow> div_w f 10000;
     t \<leftarrow> add_w p total_sell_value fee;
     Some (as_u64 t)
   }"

definition get_final_market_cap_sol :: "profile \<Rightarrow> bonding_curve_account \<Rightarrow> u64 \<Rightarrow> u64 rust" where
  "get_final_market_cap_sol p self fee_basis_points = do {
     v \<leftarrow> get_buy_out_price p self (bc_real_token_reserves self) fee_basis_points;
     total_virtual_value \<leftarrow> add_w p (as_u128 (bc_virtual_sol_reserves self)) (as_u128 v);
     total_virtual_tokens \<leftarrow>
       sub_w p (as_u128 (bc_virtual_token_reserves self)) (as_u128 (bc_real_token_reserves self));
     if total_virtual_tokens = 0 then Some 0
     else do {
       m \<leftarrow> mul_w p (as_u128 (bc_token_total_supply self)) total_virtual_value;
       q \<leftarrow> div_w m total_virtual_tokens;
       Some (as_u64 q)
     }
   }"

definition get_token_price :: "bonding_curve_account \<Rightarrow> f64" where
  "get_token_price self =
     (let v_sol = f64_div (f64_of_u64 (bc_virtual_sol_reserves self)) (f64_lit 100000000);
          v_tokens = f64_div (f64_of_u64 (bc_virtual_token_reserves self)) (f64_lit 100000)
      in f64_div v_sol v_tokens)"

text \<open>The account a constructor falls back to when it is given none is \<open>get_bonding_curve_pda(mint).unwrap()\<close>.\<close>

definition curve_from_dev_trade ::
  "profile \<Rightarrow> pubkey rust \<Rightarrow> pubkey \<Rightarrow> u64 \<Rightarrow> u64 \<Rightarrow> pubkey \<Rightarrow> bool \<Rightarrow> bool \<Rightarrow> bonding_curve_account rust" where
  "curve_from_dev_trade p mint_pda bonding_curve dev_token_amount dev_sol_amount creator mayhem cashback = do {
     account \<leftarrow> (if bonding_curve \<noteq> pubkey_default then Some bonding_curve else mint_pda);
     vt \<leftarrow> sub_w p INITIAL_VIRTUAL_TOKEN_RESERVES dev_token_amount;
     vs \<leftarrow> add_w p INITIAL_VIRTUAL_SOL_RESERVES dev_sol_amount;
     rt \<leftarrow> sub_w p INITIAL_REAL_TOKEN_RESERVES dev_token_amount;
     Some \<lparr>bc_discriminator = 0, bc_account = account, bc_virtual_token_reserves = vt,
           bc_virtual_sol_reserves = vs, bc_real_token_reserves = rt, bc_real_sol_reserves = dev_sol_amount,
           bc_token_total_supply = TOKEN_TOTAL_SUPPLY, bc_complete = False, bc_creator = creator,
           bc_is_mayhem_mode = mayhem, bc_is_cashback_coin = cashback\<rparr>
   }"

definition curve_from_trade ::
  "pubkey rust \<Rightarrow> pubkey \<Rightarrow> pubkey \<Rightarrow> u64 \<Rightarrow> u64 \<Rightarrow> u64 \<Rightarrow> u64 \<Rightarrow> bool \<Rightarrow> bool \<Rightarrow> bonding_curve_account rust" where
  "curve_from_trade mint_pda bonding_curve creator vt vs rt rs mayhem cashback = do {
     account \<leftarrow> (if bonding_curve \<noteq> pubkey_default then Some bonding_curve else mint_pda);
     Some \<lparr>bc_discriminator = 0, bc_account = account, bc_virtual_token_reserves = vt,
           bc_virtual_sol_reserves = vs, bc_real_token_reserves = rt, bc_real_sol_reserves = rs,
           bc_token_total_supply = TOKEN_TOTAL_SUPPLY, bc_complete = False, bc_creator = creator,
           bc_is_mayhem_mode = mayhem, bc_is_cashback_coin = cashback\<rparr>
   }"

section \<open>The initial and the free-standing quote\<close>

text \<open>\<open>GlobalAccount::get_initial_buy_price\<close>, over the three fields it reads.\<close>

definition get_initial_buy_price :: "profile \<Rightarrow> u64 \<Rightarrow> u64 \<Rightarrow> u64 \<Rightarrow> u64 \<Rightarrow> u64 rust" where
  "get_initial_buy_price p initial_virtual_sol initial_virtual_token initial_real_token amount =
     (if amount = 0 then Some 0
      else do {
        s \<leftarrow> curve_tokens_out p initial_virtual_sol initial_virtual_token amount;
        Some (if s < as_u128 initial_real_token then as_u64 s else initial_real_token)
      })"

definition pumpfun_get_buy_price :: "profile \<Rightarrow> u64 \<Rightarrow> u64 \<Rightarrow> u64 \<Rightarrow> u64 \<Rightarrow> u64 rust" where
  "pumpfun_get_buy_price p amount virtual_sol virtual_token real_token =
     (if amount = 0 then Some 0
      else do {
        s \<leftarrow> curve_tokens_out p virtual_sol virtual_token amount;
        Some (min (as_u64 s) real_token)
      })"

section \<open>Evaluation\<close>

lemma small_buy_lamports_eval: "small_buy_lamports = 10000000"
  by (simp add: small_buy_lamports_def sol_to_lamports_def f64_compute)

definition pf_bps :: "pubkey \<Rightarrow> nat" where
  "pf_bps creator = (if creator \<noteq> pubkey_default then 125 else 95)"

lemma total_fee_eval: "total_fee_basis_points p creator = Some (word_of_nat (pf_bps creator))"
  by (simp add: total_fee_basis_points_def pf_bps_def pumpfun_const_defs add_w_def)

lemma u64_mult_u64': "unat (a :: u64) * unat (b :: u64) < 340282366920938463463374607431768211456"
  using mult_bound [OF unat_u64_less [of a] unat_u64_less [of b]] by simp

definition pf_net_input :: "pubkey \<Rightarrow> nat \<Rightarrow> nat" where
  "pf_net_input creator amount = amount * 10000 div (pf_bps creator + 10000)"

lemma pf_net_input_le: "pf_net_input c a \<le> a"
  unfolding pf_net_input_def by (rule div_le_of_mult) (simp_all add: pf_bps_def)

text \<open>The tokens the curve gives for an amount net of fees, capped by the real reserve.\<close>

definition pf_tokens :: "nat \<Rightarrow> nat \<Rightarrow> nat \<Rightarrow> nat \<Rightarrow> nat" where
  "pf_tokens vt vs rt net = min (net * vt div (vs + net)) rt"

lemma pumpfun_buy_eval:
  fixes vt vs rt amount :: u64 and creator :: pubkey
  assumes "amount \<noteq> 0" and "vt \<noteq> 0" and "vs \<noteq> 0"
  defines "t \<equiv> pf_tokens (unat vt) (unat vs) (unat rt) (pf_net_input creator (unat amount))"
  shows "get_buy_token_amount_from_sol_amount p (as_u128 vt) (as_u128 vs) (as_u128 rt) creator amount =
     Some (if t \<le> 100000000 then (if unat amount > 10000000 then 25547619000000 else 255476000000)
           else word_of_nat t)"
proof -
  define net where "net = pf_net_input creator (unat amount)"
  define fw :: u128 where "fw = as_u128 (word_of_nat (pf_bps creator) :: u64)"
  define nw :: u128 where "nw = as_u128 amount * 10000 div (fw + 10000)"
  define qw :: u128 where "qw = nw * as_u128 vt div (as_u128 vs + nw)"
  have fw: "unat fw = pf_bps creator" by (simp add: fw_def pf_bps_def)
  have bps: "pf_bps creator \<le> 125" by (simp add: pf_bps_def)
  have a: "unat (as_u128 amount) * unat (10000 :: u128) < 2 ^ 128"
    using unat_u64_less [of amount] by simp
  have d: "unat fw + unat (10000 :: u128) < 2 ^ 128" using fw bps by simp
  have dn: "unat (fw + 10000) = pf_bps creator + 10000" using d fw by (simp add: unat_add_ok)
  have net: "unat nw = net"
    using a by (simp add: nw_def net_def pf_net_input_def unat_eval dn)
  have net64: "net < 18446744073709551616"
    using pf_net_input_le [of creator "unat amount"] unat_u64_less [of amount] by (simp add: net_def)
  have den: "unat (as_u128 vs) + unat nw < 2 ^ 128"
    using net net64 unat_u64_less [of vs] by simp
  have dnz: "as_u128 vs + nw \<noteq> 0"
    using assms(3) den by (simp add: word_neq_0_unat unat_add_ok)
  have num: "unat nw * unat (as_u128 vt) < 2 ^ 128"
    using mult_bound [OF net64 unat_u64_less [of vt]] net by simp
  have q: "unat qw = net * unat vt div (unat vs + net)"
    using num den net by (simp add: qw_def unat_eval)
  have t: "unat (min qw (as_u128 rt)) = t"
    by (simp add: t_def pf_tokens_def min_def word_le_nat_alt q net_def [symmetric])
  have t64: "t < 18446744073709551616"
    using unat_u64_less [of rt] by (simp add: t_def pf_tokens_def)
  have le: "(min qw (as_u128 rt) \<le> 100000000) = (t \<le> 100000000)"
    using t by (simp add: word_le_nat_alt)
  have lt: "((10000000 :: u64) < amount) = (10000000 < unat amount)"
    by (simp add: word_less_nat_alt)
  have c: "as_u64 (min qw (as_u128 rt)) = word_of_nat t"
    using t t64 by (simp add: word_of_nat_eqI)
  have dd: "fw + 10000 \<noteq> 0" using dn by (simp add: word_neq_0_unat)
  have vtnz: "as_u128 vt \<noteq> 0" using assms(2) by (simp add: word_neq_0_unat)
  show ?thesis
    unfolding get_buy_token_amount_from_sol_amount_def total_fee_eval bind.bind_lunit fw_def [symmetric]
      u128_ok(4) [OF a] u128_ok(1) [OF d] checked_div_ok [OF dd] nw_def [symmetric] u128_ok(1) [OF den]
      u128_ok(4) [OF num] checked_div_ok [OF dnz] qw_def [symmetric] Let_def le small_buy_lamports_eval lt
    using assms(1) vtnz c by simp
qed

text \<open>The sell quote in closed form: the pool's output less a fee rounded up.\<close>

definition pf_sell_gross :: "nat \<Rightarrow> nat \<Rightarrow> nat \<Rightarrow> nat" where
  "pf_sell_gross vt vs amount = amount * vs div (vt + amount)"

lemma pumpfun_sell_eval:
  fixes vt vs amount :: u64 and creator :: pubkey
  assumes "amount \<noteq> 0" and "vt \<noteq> 0"
  defines "n \<equiv> pf_sell_gross (unat vt) (unat vs) (unat amount)"
  shows "get_sell_sol_amount_from_token_amount p (as_u128 vt) (as_u128 vs) creator amount =
     Some (word_of_nat (n - ceil_nat (n * pf_bps creator) 10000))"
proof -
  have m: "unat (as_u128 amount) * unat (as_u128 vs) < 2 ^ 128"
    using u64_mult_u64' [of amount vs] by simp
  have d: "unat (as_u128 vt) + unat (as_u128 amount) < 2 ^ 128"
    using unat_u64_less [of vt] unat_u64_less [of amount] by simp
  have dnz: "as_u128 vt + as_u128 amount \<noteq> 0"
    using assms(2) d by (simp add: word_neq_0_unat unat_add_ok)
  define nw where "nw = as_u128 amount * as_u128 vs div (as_u128 vt + as_u128 amount)"
  have n: "unat nw = n"
    using m d by (simp add: nw_def unat_eval n_def pf_sell_gross_def)
  have n64: "n < 18446744073709551616"
    using cp_floor_le [of "unat vs" "unat amount" "unat vt"] unat_u64_less [of vs]
    by (simp add: n_def pf_sell_gross_def mult.commute)
  define fw :: u64 where "fw = word_of_nat (pf_bps creator)"
  have fw: "unat fw = pf_bps creator" by (simp add: fw_def pf_bps_def)
  have "n * pf_bps creator \<le> n * 125" by (simp add: pf_bps_def)
  also have "\<dots> < 2 ^ 128 - 10000" using n64 by simp
  finally have "unat nw * unat (as_u128 fw) + 10000 < 2 ^ 128" by (simp add: n fw)
  then have fee: "compute_fee p nw (as_u128 fw) = Some (word_of_nat (ceil_nat (n * pf_bps creator) 10000))"
    by (simp add: compute_fee_eval n fw)
  have "ceil_nat (n * pf_bps creator) 10000 \<le> n"
    by (simp add: ceil_nat_le_iff pf_bps_def)
  then have "unat (saturating_sub nw (word_of_nat (ceil_nat (n * pf_bps creator) 10000)))
      = n - ceil_nat (n * pf_bps creator) 10000"
    using n n64 by (simp add: unat_eval)
  then have s: "as_u64 (saturating_sub nw (word_of_nat (ceil_nat (n * pf_bps creator) 10000)))
      = word_of_nat (n - ceil_nat (n * pf_bps creator) 10000)"
    using n64 by (simp add: word_of_nat_eqI del: of_nat_diff)
  have vtnz: "as_u128 vt \<noteq> 0" using assms(2) by (simp add: word_neq_0_unat)
  show ?thesis
    unfolding get_sell_sol_amount_from_token_amount_def total_fee_eval bind.bind_lunit Let_def
      u128_ok(4) [OF m] u128_ok(3) [OF d] unwrap_or_simps checked_div_ok [OF dnz] nw_def [symmetric]
      fw_def [symmetric] fee s
    using assms(1) vtnz by (simp del: of_nat_diff)
qed

text \<open>The tokens the curve itself pays: the shared statements never underflow on a curve that holds tokens.\<close>

definition curve_out_nat :: "nat \<Rightarrow> nat \<Rightarrow> nat \<Rightarrow> nat" where
  "curve_out_nat vs vt amount = vt - (vs * vt div (vs + amount) + 1)"

lemma curve_floor_less: "0 < vt \<Longrightarrow> 0 < a \<Longrightarrow> vs * vt div (vs + a) < (vt :: nat)"
  by (rule div_less_of_mult) (simp add: algebra_simps)

lemma curve_tokens_out_eval:
  assumes "vt \<noteq> 0" and "amount \<noteq> 0"
  shows "\<exists>s. curve_tokens_out p vs vt amount = Some s \<and> unat s = curve_out_nat (unat vs) (unat vt) (unat amount)"
proof -
  have m: "unat (as_u128 vs) * unat (as_u128 vt) < 2 ^ 128"
    using u64_mult_u64' [of vs vt] by simp
  have i: "unat (as_u128 vs) + unat (as_u128 amount) < 2 ^ 128"
    using unat_u64_less [of vs] unat_u64_less [of amount] by simp
  have inz: "as_u128 vs + as_u128 amount \<noteq> 0"
    using assms(2) i by (simp add: word_neq_0_unat unat_add_ok)
  define qw where "qw = as_u128 vs * as_u128 vt div (as_u128 vs + as_u128 amount)"
  have q: "unat qw = unat vs * unat vt div (unat vs + unat amount)"
    using m i by (simp add: qw_def unat_eval)
  have lt: "unat qw < unat vt"
    using assms curve_floor_less [of "unat vt" "unat amount" "unat vs"] by (simp add: q word_neq_0_unat)
  then have r: "unat qw + unat (1 :: u128) < 2 ^ 128"
    using unat_u64_less [of vt] by simp
  then have le: "qw + 1 \<le> as_u128 vt"
    using lt by (simp add: word_le_nat_alt unat_add_ok)
  have "curve_tokens_out p vs vt amount = Some (as_u128 vt - (qw + 1))"
    unfolding curve_tokens_out_def u128_ok(2) [OF m] u128_ok(1) [OF i] bind.bind_lunit div_w_ok [OF inz]
      qw_def [symmetric] u128_ok(1) [OF r] sub_w_ok [OF le] ..
  moreover have "unat (as_u128 vt - (qw + 1)) = curve_out_nat (unat vs) (unat vt) (unat amount)"
    using le r by (simp add: unat_sub unat_add_ok q curve_out_nat_def)
  ultimately show ?thesis by blast
qed


lemma curve_out_law: "0 < vt \<Longrightarrow> 0 < a \<Longrightarrow> curve_out_nat vs vt a * (vs + a) \<le> vt * a"
proof -
  assume "0 < vt" "0 < a"
  let ?r = "vs * vt div (vs + a) + 1"
  have "vs * vt < ?r * (vs + a)" using \<open>0 < a\<close> by (intro less_div_mult_nat) simp
  moreover have "curve_out_nat vs vt a * (vs + a) = vt * (vs + a) - ?r * (vs + a)"
    by (simp only: curve_out_nat_def diff_mult_distrib)
  moreover have "vt * (vs + a) = vs * vt + vt * a" by (simp add: algebra_simps)
  ultimately show ?thesis by linarith
qed

lemma curve_out_less: "0 < vt \<Longrightarrow> curve_out_nat vs vt a < vt"
  by (simp add: curve_out_nat_def)

lemma curve_buy_eval:
  assumes "\<not> bc_complete c" and "bc_virtual_token_reserves c \<noteq> 0" and "amount \<noteq> 0"
  shows "curve_get_buy_price p c amount = Some (Inr (word_of_nat
     (min (curve_out_nat (unat (bc_virtual_sol_reserves c)) (unat (bc_virtual_token_reserves c)) (unat amount))
          (unat (bc_real_token_reserves c)))))"
proof -
  let ?vt = "bc_virtual_token_reserves c" and ?vs = "bc_virtual_sol_reserves c" and ?rt = "bc_real_token_reserves c"
  obtain s where s: "curve_tokens_out p ?vs ?vt amount = Some s"
    "unat s = curve_out_nat (unat ?vs) (unat ?vt) (unat amount)"
    using curve_tokens_out_eval [OF assms(2,3)] by blast
  have "unat s < unat ?vt"
    unfolding s(2) using assms(2) by (intro curve_out_less) (simp add: word_neq_0_unat)
  then have "unat s < 18446744073709551616" using unat_u64_less [of ?vt] by (rule less_trans)
  then have c: "unat (as_u64 s) = curve_out_nat (unat ?vs) (unat ?vt) (unat amount)"
    using s(2) by simp
  have "(if as_u64 s < ?rt then as_u64 s else ?rt)
      = word_of_nat (min (curve_out_nat (unat ?vs) (unat ?vt) (unat amount)) (unat ?rt))"
    using c by (intro word_of_nat_eqI) (auto simp: word_less_nat_alt)
  then show ?thesis
    unfolding curve_get_buy_price_def s(1) bind.bind_lunit Let_def using assms(1,3) by simp
qed

section \<open>The constant-product contract of the curve\<close>

definition curve_buy_run :: "profile \<times> bonding_curve_account \<times> u64 \<times> u64 \<Rightarrow> bool" where
  "curve_buy_run = (\<lambda>(p, c, amount, t). bc_virtual_token_reserves c \<noteq> 0 \<and> bc_virtual_sol_reserves c \<noteq> 0
      \<and> curve_get_buy_price p c amount = Some (Inr t))"

lemma curve_buy_run_value:
  assumes "bc_virtual_token_reserves c \<noteq> 0" and "curve_get_buy_price p c amount = Some (Inr t)"
  shows "amount = 0 \<and> t = 0 \<or> amount \<noteq> 0 \<and> unat t =
     min (curve_out_nat (unat (bc_virtual_sol_reserves c)) (unat (bc_virtual_token_reserves c)) (unat amount))
         (unat (bc_real_token_reserves c))"
proof (cases "amount = 0")
  case True
  then show ?thesis using assms by (auto simp: curve_get_buy_price_def split: if_splits)
next
  case False
  have nc: "\<not> bc_complete c" using assms by (auto simp: curve_get_buy_price_def)
  define k where "k = min (curve_out_nat (unat (bc_virtual_sol_reserves c)) (unat (bc_virtual_token_reserves c)) (unat amount))
         (unat (bc_real_token_reserves c))"
  have "k \<le> unat (bc_real_token_reserves c)" by (simp add: k_def)
  then have "k < 18446744073709551616" using unat_u64_less [of "bc_real_token_reserves c"] by (rule le_less_trans)
  moreover have "t = word_of_nat k"
    using assms(2) unfolding curve_buy_eval [OF nc assms(1) False] k_def [symmetric] by simp
  ultimately have "unat t = k" by simp
  then show ?thesis using False by (simp add: k_def)
qed

lemma curve_buy_run_law:
  assumes nz: "bc_virtual_token_reserves c \<noteq> 0"
    and run: "curve_get_buy_price p c amount = Some (Inr t)"
  shows "unat t * (unat (bc_virtual_sol_reserves c) + unat amount) \<le> unat (bc_virtual_token_reserves c) * unat amount"
proof (cases "amount = 0")
  case False
  let ?vs = "unat (bc_virtual_sol_reserves c)" and ?vt = "unat (bc_virtual_token_reserves c)"
  have "unat t * (?vs + unat amount) \<le> curve_out_nat ?vs ?vt (unat amount) * (?vs + unat amount)"
    using curve_buy_run_value [OF nz run] False by (intro mult_right_mono) auto
  also have "\<dots> \<le> ?vt * unat amount"
    using nz False by (intro curve_out_law) (simp_all add: word_neq_0_unat)
  finally show ?thesis .
qed (use curve_buy_run_value [OF nz run] in simp)

interpretation pf_curve: constant_product_trade curve_buy_run
  "\<lambda>(p, c, amount, t). unat (bc_virtual_sol_reserves c)" "\<lambda>(p, c, amount, t). unat (bc_virtual_token_reserves c)"
  "\<lambda>(p, c, amount, t). unat amount" "\<lambda>(p, c, amount, t). unat t"
  by unfold_locales (auto simp: curve_buy_run_def word_neq_0_unat intro: curve_buy_run_law)

section \<open>Properties\<close>

text \<open>
  On a live curve that holds virtual tokens and SOL, \<open>BondingCurveAccount::get_buy_price\<close> always returns a
  quote, at either build profile and for every amount; the quote is at most the real token reserve and paying it
  does not lower the product of the virtual reserves.
\<close>

theorem curve_buy_keeps_product:
  assumes "\<not> bc_complete c" and "bc_virtual_token_reserves c \<noteq> 0" and "bc_virtual_sol_reserves c \<noteq> 0"
  shows "\<exists>t. curve_get_buy_price p c amount = Some (Inr t)
     \<and> t \<le> bc_real_token_reserves c
     \<and> unat (bc_virtual_sol_reserves c) * unat (bc_virtual_token_reserves c)
         \<le> (unat (bc_virtual_sol_reserves c) + unat amount) * (unat (bc_virtual_token_reserves c) - unat t)"
proof -
  obtain t where t: "curve_get_buy_price p c amount = Some (Inr t)"
    using curve_buy_eval [OF assms(1,2)] assms(1) by (cases "amount = 0") (auto simp: curve_get_buy_price_def)
  have run: "curve_buy_run (p, c, amount, t)" using t assms by (simp add: curve_buy_run_def)
  have "t \<le> bc_real_token_reserves c"
    using curve_buy_run_value [OF assms(2) t] by (auto simp: word_le_nat_alt)
  then show ?thesis using t pf_curve.product_kept [OF run] by auto
qed

definition sample_curve :: bonding_curve_account where
  "sample_curve = \<lparr>bc_discriminator = 0, bc_account = 5, bc_virtual_token_reserves = INITIAL_VIRTUAL_TOKEN_RESERVES,
     bc_virtual_sol_reserves = INITIAL_VIRTUAL_SOL_RESERVES, bc_real_token_reserves = INITIAL_REAL_TOKEN_RESERVES,
     bc_real_sol_reserves = 0, bc_token_total_supply = TOKEN_TOTAL_SUPPLY, bc_complete = False, bc_creator = 9,
     bc_is_mayhem_mode = False, bc_is_cashback_coin = False\<rparr>"

theorem curve_buy_keeps_product_witness:
  "\<exists>t. curve_get_buy_price Checked sample_curve 1000000000 = Some (Inr t)
     \<and> t \<le> INITIAL_REAL_TOKEN_RESERVES
     \<and> (30000000000 * 1073000000000000 :: nat) \<le> (30000000000 + 1000000000) * (1073000000000000 - unat t)"
  using curve_buy_keeps_product [of sample_curve Checked 1000000000]
  by (simp add: sample_curve_def pumpfun_const_defs)

text \<open>
  The three copies of the curve's buy quote agree on every input and at both profiles, panics included: the account
  method (when the curve is live), the free function of the instruction module, and the global account's initial quote,
  although the last compares before it narrows and the others after.
\<close>

theorem buy_price_copies_agree:
  "pumpfun_get_buy_price p amount vs vt rt = get_initial_buy_price p vs vt rt amount \<and>
   curve_get_buy_price p c amount =
     (if bc_complete c then Some (Inl CurveComplete)
      else map_option Inr (pumpfun_get_buy_price p amount (bc_virtual_sol_reserves c)
             (bc_virtual_token_reserves c) (bc_real_token_reserves c)))"
proof
  show "curve_get_buy_price p c amount =
     (if bc_complete c then Some (Inl CurveComplete)
      else map_option Inr (pumpfun_get_buy_price p amount (bc_virtual_sol_reserves c)
             (bc_virtual_token_reserves c) (bc_real_token_reserves c)))"
    by (cases "curve_tokens_out p (bc_virtual_sol_reserves c) (bc_virtual_token_reserves c) amount")
       (auto simp: curve_get_buy_price_def pumpfun_get_buy_price_def min_def Let_def)
  have narrow: "min (as_u64 s) rt = (if s < as_u128 rt then as_u64 s else rt)"
    if "unat s < 18446744073709551616 \<or> s = - 1" for s :: u128
  proof (cases "s = - 1")
    case True
    have "unat (as_u128 rt) < unat (- 1 :: u128)"
      using unat_u64_less [of rt] by (simp add: unsigned_minus_1_eq_mask mask_eq_exp_minus_1)
    then have "\<not> s < as_u128 rt" by (simp add: True word_less_nat_alt)
    moreover have "rt \<le> as_u64 (- 1 :: u128)"
      using unat_u64_less [of rt] by (simp add: word_le_nat_alt unat_as_u64 unsigned_minus_1_eq_mask mask_eq_exp_minus_1)
    ultimately show ?thesis using True by (simp add: min_def)
  next
    case False
    with that have "unat (as_u64 s) = unat s" by simp
    then show ?thesis by (auto simp: min_def word_le_nat_alt word_less_nat_alt word_unat_eq_iff)
  qed
  have range: "unat s < 18446744073709551616 \<or> s = - 1"
    if run: "curve_tokens_out p vs vt amount = Some s" and nz: "amount \<noteq> 0" for s
  proof (cases "vt = 0")
    case True
    have "unat (as_u128 vs) + unat (as_u128 amount) < 2 ^ 128"
      using unat_u64_less [of vs] unat_u64_less [of amount] by simp
    then have "as_u128 vs + as_u128 amount \<noteq> 0"
      using nz by (simp add: word_neq_0_unat unat_add_ok)
    then show ?thesis
      using run True
      by (auto simp: curve_tokens_out_def mul_w_def div_w_def add_w_def sub_w_def bind_Some_iff split: if_splits)
  next
    case False
    then obtain s' where "curve_tokens_out p vs vt amount = Some s'"
      "unat s' = curve_out_nat (unat vs) (unat vt) (unat amount)"
      using curve_tokens_out_eval [of vt amount p vs] nz by auto
    moreover have "curve_out_nat (unat vs) (unat vt) (unat amount) < unat vt"
      using False by (intro curve_out_less) (simp add: word_neq_0_unat)
    ultimately show ?thesis using run unat_u64_less [of vt] by simp
  qed
  show "pumpfun_get_buy_price p amount vs vt rt = get_initial_buy_price p vs vt rt amount"
    by (cases "curve_tokens_out p vs vt amount"; cases "amount = 0")
       (simp_all add: pumpfun_get_buy_price_def get_initial_buy_price_def narrow range)
qed


text \<open>
  A Pump.fun purchase quote on a curve with reserves always returns. When the curve can give more than 100 tokens, the
  quote is at most the real reserve and pays out no more than the constant product allows for the amount net of
  the 0.95 % protocol fee and, for a coin that has a creator, the 0.30 % creator fee.
\<close>

theorem pumpfun_buy_quote:
  fixes vt vs rt amount :: u64
  assumes "amount \<noteq> 0" and "vt \<noteq> 0" and "vs \<noteq> 0"
    and "100000000 < pf_tokens (unat vt) (unat vs) (unat rt) (unat amount * 10000 div (pf_bps creator + 10000))"
  shows "\<exists>t. get_buy_token_amount_from_sol_amount p (as_u128 vt) (as_u128 vs) (as_u128 rt) creator amount = Some t
     \<and> t \<le> rt
     \<and> unat vs * unat vt
        \<le> (unat vs + unat amount * 10000 div (pf_bps creator + 10000)) * (unat vt - unat t)"
proof -
  define net where "net = pf_net_input creator (unat amount)"
  define t where "t = pf_tokens (unat vt) (unat vs) (unat rt) net"
  have net: "unat amount * 10000 div (pf_bps creator + 10000) = net" by (simp add: net_def pf_net_input_def)
  have big: "100000000 < t" using assms(4) by (simp add: t_def net)
  have t: "t \<le> unat rt" "t \<le> unat vt * net div (unat vs + net)"
    by (simp_all add: t_def pf_tokens_def mult.commute)
  have t64: "t < 18446744073709551616" using t(1) unat_u64_less [of rt] by (rule le_less_trans)
  have "t * (unat vs + net) \<le> unat vt * net"
    using mult_right_mono [OF t(2), of "unat vs + net"] cp_floor_law [of "unat vt" net "unat vs"] by linarith
  moreover have "(unat vs + net) * (unat vt - t) = (unat vs + net) * unat vt - t * (unat vs + net)"
    by (simp add: diff_mult_distrib2 diff_mult_distrib mult.commute)
  moreover have "(unat vs + net) * unat vt = unat vs * unat vt + unat vt * net" by (simp add: algebra_simps)
  ultimately have prod: "unat vs * unat vt \<le> (unat vs + net) * (unat vt - t)" by linarith
  have "get_buy_token_amount_from_sol_amount p (as_u128 vt) (as_u128 vs) (as_u128 rt) creator amount
      = Some (word_of_nat t)"
    using big by (simp only: pumpfun_buy_eval [OF assms(1-3)] net_def [symmetric] t_def [symmetric]) simp
  then show ?thesis
    using t(1) t64 prod by (auto simp: word_le_nat_alt net)
qed

theorem pumpfun_buy_quote_witness:
  "\<exists>t. get_buy_token_amount_from_sol_amount Checked (as_u128 INITIAL_VIRTUAL_TOKEN_RESERVES)
       (as_u128 INITIAL_VIRTUAL_SOL_RESERVES) (as_u128 INITIAL_REAL_TOKEN_RESERVES) 9 1000000000 = Some t
     \<and> t \<le> INITIAL_REAL_TOKEN_RESERVES"
  using pumpfun_buy_quote [of 1000000000 INITIAL_VIRTUAL_TOKEN_RESERVES INITIAL_VIRTUAL_SOL_RESERVES
      INITIAL_REAL_TOKEN_RESERVES 9 Checked]
  by (auto simp: pumpfun_const_defs pf_tokens_def pf_bps_def pubkey_default_def)

text \<open>
  On a curve that is almost sold out the quote is not capped by what is left: with at most 100 tokens in the real
  reserve, every purchase is quoted at a fixed 255476 tokens (25547619 tokens above 0.01 SOL), more than the
  curve holds.
\<close>

theorem pumpfun_buy_quote_exceeds_reserve:
  fixes vt vs rt amount :: u64
  assumes "amount \<noteq> 0" and "vt \<noteq> 0" and "vs \<noteq> 0" and "unat rt \<le> 100000000"
  shows "\<exists>t. get_buy_token_amount_from_sol_amount p (as_u128 vt) (as_u128 vs) (as_u128 rt) creator amount = Some t
     \<and> t \<in> {255476000000, 25547619000000} \<and> rt < t"
proof -
  have "pf_tokens (unat vt) (unat vs) (unat rt) (pf_net_input creator (unat amount)) \<le> 100000000"
    using assms(4) by (simp add: pf_tokens_def)
  then show ?thesis
    using assms(4) by (simp add: pumpfun_buy_eval [OF assms(1-3)] word_less_nat_alt)
qed

theorem pumpfun_buy_quote_exceeds_reserve_witness:
  "\<exists>t. get_buy_token_amount_from_sol_amount Wrapping (as_u128 (279900000000000 :: u64))
       (as_u128 (115000000000 :: u64)) (as_u128 (50000000 :: u64)) 9 5000000 = Some t
     \<and> t \<in> {255476000000, 25547619000000} \<and> (50000000 :: u64) < t"
  using pumpfun_buy_quote_exceeds_reserve [of 5000000 279900000000000 115000000000 50000000 Wrapping 9] by simp

text \<open>
  Selling back what was just bought never pays: the SOL quote for the tokens a curve purchase returned, taken at the
  reserves the purchase left behind, is at most the SOL spent, whatever the fee.
\<close>

theorem curve_round_trip:
  fixes vt' vs' t amount s :: u64
  assumes buy: "curve_get_buy_price p c amount = Some (Inr t)"
    and vt: "bc_virtual_token_reserves c \<noteq> 0"
    and vs: "bc_virtual_sol_reserves c \<noteq> 0"
    and vt': "unat vt' = unat (bc_virtual_token_reserves c) - unat t"
    and vs': "unat vs' = unat (bc_virtual_sol_reserves c) + unat amount"
    and pos: "vt' \<noteq> 0"
    and sell: "get_sell_sol_amount_from_token_amount p' (as_u128 vt') (as_u128 vs') creator t = Some s"
  shows "s \<le> amount"
proof (cases "t = 0")
  case True
  then show ?thesis using sell by (simp add: get_sell_sol_amount_from_token_amount_def)
next
  case False
  let ?vt = "unat (bc_virtual_token_reserves c)" and ?vs = "unat (bc_virtual_sol_reserves c)"
  have run: "curve_buy_run (p, c, amount, t)" using buy vt vs by (simp add: curve_buy_run_def)
  define n where "n = pf_sell_gross (unat vt') (unat vs') (unat t)"
  have "unat t < ?vt" using pos vt' by (simp add: word_neq_0_unat)
  then have sum: "unat vt' + unat t = ?vt" by (simp add: vt')
  have "n * ?vt \<le> unat t * (?vs + unat amount)"
    unfolding n_def pf_sell_gross_def sum vs' by (rule div_mult_le_nat)
  then have "n * ?vt \<le> (?vs + unat amount) * unat t" by (simp only: mult.commute)
  moreover have "unat t * (?vs + unat amount) \<le> ?vt * unat amount"
    using pf_curve.rounds_down [OF run] by simp
  ultimately have n: "n \<le> unat amount"
    using round_trip_le [of "unat t" ?vs "unat amount" ?vt n] vt by (simp add: word_neq_0_unat)
  then have "n - ceil_nat (n * pf_bps creator) 10000 < 18446744073709551616"
    using unat_u64_less [of amount] by linarith
  moreover have "s = word_of_nat (n - ceil_nat (n * pf_bps creator) 10000)"
    using sell unfolding pumpfun_sell_eval [OF False pos] n_def by simp
  ultimately have "unat s = n - ceil_nat (n * pf_bps creator) 10000"
    by (simp del: of_nat_diff)
  then show ?thesis using n by (simp add: word_le_nat_alt)
qed

theorem curve_round_trip_witness:
  "\<exists>t s vt' vs'. curve_get_buy_price Checked sample_curve 1000000000 = Some (Inr t)
     \<and> get_sell_sol_amount_from_token_amount Checked (as_u128 (vt' :: u64)) (as_u128 (vs' :: u64)) 9 t = Some s
     \<and> 0 < t \<and> s \<le> 1000000000"
proof -
  have buy: "curve_get_buy_price Checked sample_curve 1000000000 = Some (Inr 34612903225806)"
    by (simp add: curve_buy_eval sample_curve_def pumpfun_const_defs curve_out_nat_def)
  have "pf_sell_gross 1038387096774194 31000000000 34612903225806 = 999999999"
    by (simp add: pf_sell_gross_def)
  then have sell: "get_sell_sol_amount_from_token_amount Checked (as_u128 (1038387096774194 :: u64))
      (as_u128 (31000000000 :: u64)) 9 34612903225806 = Some 987499999"
    by (subst pumpfun_sell_eval) (simp_all add: pf_bps_def pubkey_default_def ceil_nat_def)
  have "(987499999 :: u64) \<le> 1000000000"
    by (rule curve_round_trip [OF buy _ _ _ _ _ sell])
       (simp_all add: sample_curve_def pumpfun_const_defs)
  moreover have "(0 :: u64) < 34612903225806" by simp
  ultimately show ?thesis using buy sell by blast
qed

end
