(* ===== verification/CalcBonk.thy ===== *)
theory CalcBonk
  imports CalcCommon
begin

text \<open>
  The Bonk launchpad quotes: \<open>sol-trade-sdk/src/utils/calc/bonk.rs\<close> and the general forms
  \<open>get_amount_in_net\<close>, \<open>get_amount_in\<close> and \<open>get_amount_out\<close> of \<open>instruction/utils/bonk.rs\<close>. The \<open>unwrap\<close> of a
  \<open>checked_\<close> operation is the bind of the option monad: \<open>None\<close> is the panic.
\<close>

section \<open>Operations\<close>

definition BONK_PLATFORM_FEE_RATE :: u128 where "BONK_PLATFORM_FEE_RATE = 100"
definition BONK_PROTOCOL_FEE_RATE :: u128 where "BONK_PROTOCOL_FEE_RATE = 25"
definition BONK_SHARE_FEE_RATE :: u128 where "BONK_SHARE_FEE_RATE = 0"

lemmas bonk_rate_defs = BONK_PLATFORM_FEE_RATE_def BONK_PROTOCOL_FEE_RATE_def BONK_SHARE_FEE_RATE_def

text \<open>One fee statement: \<open>amount * rate / 10000\<close>.\<close>

definition bonk_fee :: "profile \<Rightarrow> u128 \<Rightarrow> u128 \<Rightarrow> u128 rust" where
  "bonk_fee p amount rate = do { m \<leftarrow> mul_w p amount rate; div_w m 10000 }"

text \<open>The three fees and the three checked subtractions that every quote repeats.\<close>

definition bonk_net :: "profile \<Rightarrow> u128 \<Rightarrow> u128 \<Rightarrow> u128 \<Rightarrow> u128 \<Rightarrow> u128 rust" where
  "bonk_net p amount protocol_rate platform_rate share_rate = do {
     protocol_fee \<leftarrow> bonk_fee p amount protocol_rate;
     platform_fee \<leftarrow> bonk_fee p amount platform_rate;
     share_fee \<leftarrow> bonk_fee p amount share_rate;
     a \<leftarrow> checked_sub amount protocol_fee;
     b \<leftarrow> checked_sub a platform_fee;
     checked_sub b share_fee
   }"

text \<open>The closing statement of every quote: \<open>x - (x * slippage_basis_points) / 10000\<close>.\<close>

definition bonk_slippage :: "profile \<Rightarrow> u128 \<Rightarrow> u128 \<Rightarrow> u128 rust" where
  "bonk_slippage p amount slippage_basis_points = do {
     s \<leftarrow> bonk_fee p amount slippage_basis_points;
     sub_w p amount s
   }"

definition bonk_get_amount_in_net :: "profile \<Rightarrow> u64 \<Rightarrow> u128 \<Rightarrow> u128 \<Rightarrow> u128 \<Rightarrow> u64 rust" where
  "bonk_get_amount_in_net p amount_in protocol_rate platform_rate share_rate = do {
     n \<leftarrow> bonk_net p (as_u128 amount_in) protocol_rate platform_rate share_rate;
     Some (as_u64 n)
   }"

definition bonk_get_amount_out ::
  "profile \<Rightarrow> u64 \<Rightarrow> u128 \<Rightarrow> u128 \<Rightarrow> u128 \<Rightarrow> u128 \<Rightarrow> u128 \<Rightarrow> u128 \<Rightarrow> u128 \<Rightarrow> u128 \<Rightarrow> u64 rust" where
  "bonk_get_amount_out p amount_in protocol_rate platform_rate share_rate
       virtual_base virtual_quote real_base real_quote slippage_basis_points = do {
     amount_in_net \<leftarrow> bonk_net p (as_u128 amount_in) protocol_rate platform_rate share_rate;
     input_reserve \<leftarrow> checked_add virtual_quote real_quote;
     output_reserve \<leftarrow> checked_sub virtual_base real_base;
     numerator \<leftarrow> checked_mul amount_in_net output_reserve;
     denominator \<leftarrow> checked_add input_reserve amount_in_net;
     amount_out \<leftarrow> checked_div numerator denominator;
     r \<leftarrow> bonk_slippage p amount_out slippage_basis_points;
     Some (as_u64 r)
   }"

definition bonk_get_amount_in ::
  "profile \<Rightarrow> u64 \<Rightarrow> u128 \<Rightarrow> u128 \<Rightarrow> u128 \<Rightarrow> u128 \<Rightarrow> u128 \<Rightarrow> u128 \<Rightarrow> u128 \<Rightarrow> u128 \<Rightarrow> u64 rust" where
  "bonk_get_amount_in p amount_out protocol_rate platform_rate share_rate
       virtual_base virtual_quote real_base real_quote slippage_basis_points = do {
     m \<leftarrow> mul_w p (as_u128 amount_out) 10000;
     d \<leftarrow> sub_w p 10000 slippage_basis_points;
     amount_out_with_slippage \<leftarrow> div_w m d;
     input_reserve \<leftarrow> checked_add virtual_quote real_quote;
     output_reserve \<leftarrow> checked_sub virtual_base real_base;
     numerator \<leftarrow> checked_mul amount_out_with_slippage input_reserve;
     denominator \<leftarrow> checked_sub output_reserve amount_out_with_slippage;
     amount_in_net \<leftarrow> checked_div numerator denominator;
     f1 \<leftarrow> add_w p protocol_rate platform_rate;
     total_fee_rate \<leftarrow> add_w p f1 share_rate;
     m2 \<leftarrow> mul_w p amount_in_net 10000;
     d2 \<leftarrow> sub_w p 10000 total_fee_rate;
     amount_in \<leftarrow> div_w m2 d2;
     Some (as_u64 amount_in)
   }"

definition bonk_get_buy_token_amount_from_sol_amount ::
  "profile \<Rightarrow> u64 \<Rightarrow> u128 \<Rightarrow> u128 \<Rightarrow> u128 \<Rightarrow> u128 \<Rightarrow> u128 \<Rightarrow> u64 rust" where
  "bonk_get_buy_token_amount_from_sol_amount p amount_in virtual_base virtual_quote real_base real_quote
       slippage_basis_points = do {
     amount_in_net \<leftarrow> bonk_net p (as_u128 amount_in) BONK_PROTOCOL_FEE_RATE BONK_PLATFORM_FEE_RATE BONK_SHARE_FEE_RATE;
     input_reserve \<leftarrow> checked_add virtual_quote real_quote;
     output_reserve \<leftarrow> checked_sub virtual_base real_base;
     numerator \<leftarrow> checked_mul amount_in_net output_reserve;
     denominator \<leftarrow> checked_add input_reserve amount_in_net;
     amount_out \<leftarrow> checked_div numerator denominator;
     r \<leftarrow> bonk_slippage p amount_out slippage_basis_points;
     Some (as_u64 r)
   }"

definition bonk_get_sell_sol_amount_from_token_amount ::
  "profile \<Rightarrow> u64 \<Rightarrow> u128 \<Rightarrow> u128 \<Rightarrow> u128 \<Rightarrow> u128 \<Rightarrow> u128 \<Rightarrow> u64 rust" where
  "bonk_get_sell_sol_amount_from_token_amount p amount_in virtual_base virtual_quote real_base real_quote
       slippage_basis_points = do {
     input_reserve \<leftarrow> checked_sub virtual_base real_base;
     output_reserve \<leftarrow> checked_add virtual_quote real_quote;
     numerator \<leftarrow> checked_mul (as_u128 amount_in) output_reserve;
     denominator \<leftarrow> checked_add input_reserve (as_u128 amount_in);
     sol_amount_out \<leftarrow> checked_div numerator denominator;
     sol_amount_net \<leftarrow> bonk_net p sol_amount_out BONK_PROTOCOL_FEE_RATE BONK_PLATFORM_FEE_RATE BONK_SHARE_FEE_RATE;
     r \<leftarrow> bonk_slippage p sol_amount_net slippage_basis_points;
     Some (as_u64 r)
   }"

section \<open>Evaluation\<close>

definition bonk_net_nat :: "nat \<Rightarrow> nat" where
  "bonk_net_nat a = a - a * 25 div 10000 - a * 100 div 10000"

lemma bonk_fee_eval:
  "unat a * unat r < 2 ^ 128 \<Longrightarrow> \<exists>f. bonk_fee p a r = Some f \<and> unat f = unat a * unat r div 10000"
  by (rule exI [of _ "a * r div 10000"]) (simp add: bonk_fee_def rust_ok unat_eval)

lemma bonk_net_eval:
  assumes "unat a < 2 ^ 100"
  shows "\<exists>n. bonk_net p a BONK_PROTOCOL_FEE_RATE BONK_PLATFORM_FEE_RATE BONK_SHARE_FEE_RATE = Some n
     \<and> unat n = bonk_net_nat (unat a)"
proof -
  have b: "unat a * 25 < 2 ^ 128" "unat a * 100 < 2 ^ 128" using assms by simp_all
  obtain f1 where f1: "bonk_fee p a 25 = Some f1" "unat f1 = unat a * 25 div 10000"
    using bonk_fee_eval [of a 25 p] b by auto
  obtain f2 where f2: "bonk_fee p a 100 = Some f2" "unat f2 = unat a * 100 div 10000"
    using bonk_fee_eval [of a 100 p] b by auto
  obtain f3 where f3: "bonk_fee p a 0 = Some f3" "unat f3 = 0"
    using bonk_fee_eval [of a 0 p] by auto
  have s1: "f1 \<le> a" using f1 by (simp add: word_le_nat_alt)
  have s2: "f2 \<le> a - f1" using f1 f2 s1 by (simp add: word_le_nat_alt unat_sub)
  have n: "unat (a - f1 - f2) = bonk_net_nat (unat a)"
    using f1(2) f2(2) unat_sub [OF s1] unat_sub [OF s2] by (simp add: bonk_net_nat_def)
  have "f3 = 0" using f3(2) by (simp add: unat_eq_zero)
  then show ?thesis
    using f1 f2 f3 s1 s2 n by (simp add: bonk_net_def bonk_rate_defs checked_sub_def)
qed

lemma bonk_net_le: "bonk_net_nat a \<le> a"
  by (simp add: bonk_net_nat_def)

lemma bonk_slippage_eval:
  assumes "unat a < 2 ^ 100" and "unat s \<le> 10000"
  shows "\<exists>r. bonk_slippage p a s = Some r \<and> unat r = unat a - slip (unat a) (unat s)"
proof -
  have "unat a * unat s \<le> unat a * 10000" using assms(2) by simp
  also have "\<dots> < 2 ^ 128" using assms(1) by simp
  finally have "unat a * unat s < 2 ^ 128" .
  then obtain f where f: "bonk_fee p a s = Some f" "unat f = slip (unat a) (unat s)"
    using bonk_fee_eval [of a s p] by (auto simp: slip_def)
  have "f \<le> a" using f(2) slip_le [OF assms(2)] by (simp add: word_le_nat_alt)
  then show ?thesis using f by (simp add: bonk_slippage_def rust_ok unat_sub)
qed

text \<open>Tokens the curve pays for an amount net of fees, before slippage.\<close>

definition bonk_out_nat :: "nat \<Rightarrow> nat \<Rightarrow> nat \<Rightarrow> nat" where
  "bonk_out_nat input_reserve output_reserve net = net * output_reserve div (input_reserve + net)"

lemma bonk_buy_eval:
  fixes vb vq rb rq amount_in :: u64 and s :: u128
  assumes "rb \<le> vb" and "vq \<noteq> 0" and "unat s \<le> 10000"
  defines "out \<equiv> bonk_out_nat (unat vq + unat rq) (unat vb - unat rb) (bonk_net_nat (unat amount_in))"
  shows "\<exists>t. bonk_get_buy_token_amount_from_sol_amount p amount_in (as_u128 vb) (as_u128 vq) (as_u128 rb) (as_u128 rq) s
       = Some t \<and> unat t = out - slip out (unat s)"
proof -
  define net where "net = bonk_net_nat (unat amount_in)"
  obtain n where n: "bonk_net p (as_u128 amount_in) BONK_PROTOCOL_FEE_RATE BONK_PLATFORM_FEE_RATE BONK_SHARE_FEE_RATE
      = Some n" "unat n = net"
    using bonk_net_eval [of "as_u128 amount_in" p] unat_u64_less [of amount_in] by (auto simp: net_def)
  have net64: "net < 18446744073709551616"
    using bonk_net_le [of "unat amount_in"] unat_u64_less [of amount_in] by (simp add: net_def)
  have ir: "unat (as_u128 vq) + unat (as_u128 rq) < 2 ^ 128"
    using unat_u64_less [of vq] unat_u64_less [of rq] by simp
  have irv: "unat (as_u128 vq + as_u128 rq) = unat vq + unat rq" using ir by (simp add: unat_add_ok)
  have le: "as_u128 rb \<le> as_u128 vb" using assms(1) by (simp add: word_le_nat_alt)
  have orv: "unat (as_u128 vb - as_u128 rb) = unat vb - unat rb" using unat_sub [OF le] by simp
  have num: "unat n * unat (as_u128 vb - as_u128 rb) < 2 ^ 128"
    using mult_bound [OF net64, of "unat vb - unat rb" 18446744073709551616] unat_u64_less [of vb] by (simp add: n orv)
  have den: "unat (as_u128 vq + as_u128 rq) + unat n < 2 ^ 128"
    using net64 unat_u64_less [of vq] unat_u64_less [of rq] by (simp add: irv n)
  have dnz: "as_u128 vq + as_u128 rq + n \<noteq> 0"
    using assms(2) unat_add_ok [of "as_u128 vq + as_u128 rq" n] den by (simp add: word_neq_0_unat irv)
  define q where "q = n * (as_u128 vb - as_u128 rb) div (as_u128 vq + as_u128 rq + n)"
  have qv: "unat q = out"
    using num den by (simp add: q_def unat_eval irv orv n out_def bonk_out_nat_def net_def [symmetric])
  have "out \<le> unat vb - unat rb"
    unfolding out_def bonk_out_nat_def using cp_floor_le [of "unat vb - unat rb"] by (simp add: mult.commute)
  then have o64: "out < 18446744073709551616" using unat_u64_less [of vb] by simp
  obtain r where r: "bonk_slippage p q s = Some r" "unat r = out - slip out (unat s)"
    using bonk_slippage_eval [of q s p] assms(3) o64 qv by auto
  have "bonk_get_buy_token_amount_from_sol_amount p amount_in (as_u128 vb) (as_u128 vq) (as_u128 rb) (as_u128 rq) s
      = Some (as_u64 r)"
    unfolding bonk_get_buy_token_amount_from_sol_amount_def n(1) bind.bind_lunit u128_ok(3) [OF ir]
      checked_sub_ok [OF le] u128_ok(4) [OF num] u128_ok(3) [OF den] checked_div_ok [OF dnz] q_def [symmetric] r(1) ..
  moreover have "unat (as_u64 r) = out - slip out (unat s)"
    using r(2) o64 by simp
  ultimately show ?thesis by blast
qed

section \<open>The constant-product contract\<close>

type_synonym bonk_args = "profile \<times> u64 \<times> u64 \<times> u64 \<times> u64 \<times> u64 \<times> u128"

definition bonk_buy_run :: "bonk_args \<times> u64 \<Rightarrow> bool" where
  "bonk_buy_run = (\<lambda>((p, a, vb, vq, rb, rq, s), t). rb \<le> vb \<and> vq \<noteq> 0 \<and> unat s \<le> 10000 \<and>
      bonk_get_buy_token_amount_from_sol_amount p a (as_u128 vb) (as_u128 vq) (as_u128 rb) (as_u128 rq) s = Some t)"

lemma bonk_buy_run_law:
  fixes vb vq rb rq a t :: u64 and s :: u128
  assumes v: "rb \<le> vb" "vq \<noteq> 0" "unat s \<le> 10000"
    and run: "bonk_get_buy_token_amount_from_sol_amount p a (as_u128 vb) (as_u128 vq) (as_u128 rb) (as_u128 rq) s = Some t"
  shows "unat t * (unat vq + unat rq + bonk_net_nat (unat a)) \<le> (unat vb - unat rb) * bonk_net_nat (unat a)"
proof -
  let ?net = "bonk_net_nat (unat a)" and ?ir = "unat vq + unat rq" and ?or = "unat vb - unat rb"
  have "unat t \<le> bonk_out_nat ?ir ?or ?net"
    using bonk_buy_eval [OF v, where p = p and amount_in = a and rq = rq] run by auto
  then have "unat t * (?ir + ?net) \<le> bonk_out_nat ?ir ?or ?net * (?ir + ?net)"
    by (rule mult_right_mono) simp
  also have "\<dots> \<le> ?or * ?net"
    unfolding bonk_out_nat_def using div_mult_le_nat [of "?net * ?or" "?ir + ?net"] by (simp add: mult.commute)
  finally show ?thesis .
qed

interpretation bonk_buy: constant_product_trade bonk_buy_run
  "\<lambda>((p, a, vb, vq, rb, rq, s), t). unat vq + unat rq" "\<lambda>((p, a, vb, vq, rb, rq, s), t). unat vb - unat rb"
  "\<lambda>((p, a, vb, vq, rb, rq, s), t). bonk_net_nat (unat a)" "\<lambda>((p, a, vb, vq, rb, rq, s), t). unat t"
  by unfold_locales (auto simp: bonk_buy_run_def word_neq_0_unat intro: bonk_buy_run_law)

section \<open>Properties\<close>

text \<open>
  The Bonk purchase quote never panics on reserves that fit in 64 bits, with the base not oversold, a positive virtual
  quote and a slippage of at most 100 %; the quote is at most the tokens left, and paying it keeps the constant
  product counted on the amount net of the 1.25 % fees.
\<close>

theorem bonk_buy_quote:
  fixes vb vq rb rq amount_in :: u64 and s :: u128
  assumes "rb \<le> vb" and "vq \<noteq> 0" and "unat s \<le> 10000"
  shows "\<exists>t. bonk_get_buy_token_amount_from_sol_amount p amount_in (as_u128 vb) (as_u128 vq) (as_u128 rb) (as_u128 rq) s
       = Some t
     \<and> unat t \<le> unat vb - unat rb
     \<and> (unat vq + unat rq) * (unat vb - unat rb)
         \<le> (unat vq + unat rq + bonk_net_nat (unat amount_in)) * (unat vb - unat rb - unat t)"
proof -
  obtain t where t: "bonk_get_buy_token_amount_from_sol_amount p amount_in (as_u128 vb) (as_u128 vq) (as_u128 rb)
      (as_u128 rq) s = Some t"
    using bonk_buy_eval [OF assms] by blast
  have run: "bonk_buy_run ((p, amount_in, vb, vq, rb, rq, s), t)"
    using assms t by (simp add: bonk_buy_run_def)
  show ?thesis
    using t bonk_buy.out_le_reserve [OF run] bonk_buy.product_kept [OF run] by auto
qed

theorem bonk_buy_quote_witness:
  "\<exists>t. bonk_get_buy_token_amount_from_sol_amount Checked 1000000000 (as_u128 (1073025605596382 :: u64))
       (as_u128 (30000852951 :: u64)) (as_u128 (100000000000000 :: u64)) (as_u128 (3000000000 :: u64)) 100 = Some t
     \<and> unat t \<le> 973025605596382"
  using bonk_buy_quote [of 100000000000000 1073025605596382 30000852951 100 Checked 1000000000 3000000000] by auto

text \<open>
  The inverse quote \<open>get_amount_in\<close> rounds down at every step, so the amount it asks for can fall short: at a pool of
  3000 quote and 1000 base units, it asks for 30 units to buy 10, and 30 units buy only 9.
\<close>

theorem bonk_amount_in_insufficient:
  "\<exists>a. bonk_get_amount_in p 10 25 100 0 1000 3000 0 0 0 = Some a \<and>
       (\<exists>t. bonk_get_amount_out p a 25 100 0 1000 3000 0 0 0 = Some t \<and> t < 10)"
  by (simp add: bonk_get_amount_in_def bonk_get_amount_out_def bonk_net_def bonk_fee_def bonk_slippage_def
      mul_w_def div_w_def add_w_def sub_w_def checked_sub_def checked_add_def checked_mul_def checked_div_def)

end
