(* ===== verification/Params.thy ===== *)
theory Params
  imports Pdas GasFee CalcPumpFun CalcBonk
begin

text \<open>
  The parameters of a swap, \<open>sol-trade-sdk/src/trading/core/params.rs\<close>: the request (\<open>SwapParams\<close>), the parameters of each
  protocol (\<open>DexParamEnum\<close>) and the constructors that need no RPC. The PumpFun constructors resolve the creator vault, so
  \<open>resolve_creator_vault_for_ix\<close> and the fee-recipient tables of \<open>instruction/utils/pumpfun.rs\<close> are here too.
\<close>

section \<open>Protocol parameters\<close>

record pumpfun_params =
  pf_bonding_curve :: bonding_curve_account
  pf_associated_bonding_curve :: pubkey
  pf_creator_vault :: pubkey
  pf_token_program :: pubkey
  pf_close_token_account_when_sell :: "bool option"
  pf_fee_recipient :: pubkey

record pumpswap_params =
  ps_pool :: pubkey
  ps_base_mint :: pubkey
  ps_quote_mint :: pubkey
  ps_pool_base_token_account :: pubkey
  ps_pool_quote_token_account :: pubkey
  ps_pool_base_token_reserves :: u64
  ps_pool_quote_token_reserves :: u64
  ps_coin_creator_vault_ata :: pubkey
  ps_coin_creator_vault_authority :: pubkey
  ps_base_token_program :: pubkey
  ps_quote_token_program :: pubkey
  ps_is_mayhem_mode :: bool
  ps_is_cashback_coin :: bool

record bonk_params =
  bk_virtual_base :: u128
  bk_virtual_quote :: u128
  bk_real_base :: u128
  bk_real_quote :: u128
  bk_pool_state :: pubkey
  bk_base_vault :: pubkey
  bk_quote_vault :: pubkey
  bk_mint_token_program :: pubkey
  bk_platform_config :: pubkey
  bk_platform_associated_account :: pubkey
  bk_creator_associated_account :: pubkey
  bk_global_config :: pubkey

record raydium_cpmm_params =
  rc_pool_state :: pubkey
  rc_amm_config :: pubkey
  rc_base_mint :: pubkey
  rc_quote_mint :: pubkey
  rc_base_reserve :: u64
  rc_quote_reserve :: u64
  rc_base_vault :: pubkey
  rc_quote_vault :: pubkey
  rc_base_token_program :: pubkey
  rc_quote_token_program :: pubkey
  rc_observation_state :: pubkey

record raydium_amm_v4_params =
  ra_amm :: pubkey
  ra_coin_mint :: pubkey
  ra_pc_mint :: pubkey
  ra_token_coin :: pubkey
  ra_token_pc :: pubkey
  ra_coin_reserve :: u64
  ra_pc_reserve :: u64

record meteora_damm_v2_params =
  md_pool :: pubkey
  md_token_a_vault :: pubkey
  md_token_b_vault :: pubkey
  md_token_a_mint :: pubkey
  md_token_b_mint :: pubkey
  md_token_a_program :: pubkey
  md_token_b_program :: pubkey

datatype dex_param_enum =
    DexPumpFun pumpfun_params
  | DexPumpSwap pumpswap_params
  | DexBonk bonk_params
  | DexRaydiumCpmm raydium_cpmm_params
  | DexRaydiumAmmV4 raydium_amm_v4_params
  | DexMeteoraDammV2 meteora_damm_v2_params

section \<open>The swap request\<close>

type_synonym hash = "256 word"

record durable_nonce_info =
  nonce_account :: "pubkey option"
  current_nonce :: "hash option"

text \<open>
  A channel client, by what the executor asks of it: its kind, the answer of \<open>get_tip_account\<close> with the result of
  parsing it, and whether a Helius client was configured with \<open>swqos_only\<close>. A middleware, by its two methods. An address table is its key and its entries.
\<close>

record swqos_client =
  client_type :: swqos_type
  client_tip_account :: "string + pubkey option"
  client_swqos_only :: bool

type_synonym middleware_method = "instruction list \<Rightarrow> string \<Rightarrow> bool \<Rightarrow> string + instruction list"

record middleware =
  process_protocol_instructions :: middleware_method
  process_full_instructions :: middleware_method

type_synonym lookup_table = "pubkey \<times> pubkey list"

text \<open>
  \<open>SwapParams\<close> without the RPC handle and the fields that steer logging, timing and thread placement. The payer is
  its public key.
\<close>

record swap_params =
  sp_payer :: pubkey
  sp_trade_type :: trade_type
  sp_input_mint :: pubkey
  sp_input_token_program :: "pubkey option"
  sp_output_mint :: pubkey
  sp_output_token_program :: "pubkey option"
  sp_input_amount :: "u64 option"
  sp_slippage_basis_points :: "u64 option"
  sp_address_lookup_table_account :: "lookup_table option"
  sp_recent_blockhash :: "hash option"
  sp_wait_tx_confirmed :: bool
  sp_protocol_params :: dex_param_enum
  sp_open_seed_optimize :: bool
  sp_swqos_clients :: "swqos_client list"
  sp_middleware_manager :: "middleware list option"
  sp_durable_nonce :: "durable_nonce_info option"
  sp_with_tip :: bool
  sp_create_input_mint_ata :: bool
  sp_close_input_mint_ata :: bool
  sp_create_output_mint_ata :: bool
  sp_close_output_mint_ata :: bool
  sp_fixed_output_amount :: "u64 option"
  sp_gas_fee_strategy :: gas_table
  sp_simulate :: bool
  sp_check_min_tip :: bool
  sp_use_exact_sol_amount :: "bool option"

definition DEFAULT_SLIPPAGE :: u64 where
  "DEFAULT_SLIPPAGE = 1000"

abbreviation sp_slippage :: "swap_params \<Rightarrow> u64" where
  "sp_slippage params \<equiv> unwrap_or (sp_slippage_basis_points params) DEFAULT_SLIPPAGE"

section \<open>Fee recipients and creator vaults (instruction/utils/pumpfun.rs)\<close>

definition FEE_RECIPIENT :: pubkey where
  "FEE_RECIPIENT = 33815636389803796248051630859236957259125835497572444984761710316249188971494"

definition MAYHEM_FEE_RECIPIENTS :: "pubkey list" where
  "MAYHEM_FEE_RECIPIENTS = [
     105196446279224453766958237438616902738388588415323768478348671427394625668873,
     24206380283546109640866570173812824876675430458369938279728741931606108605279,
     49961144860750319907059871686026100187309739452480800830536457100770646211882,
     23337362324020163251603428883238075480236503764054386496578302904243604113312,
     52880547253474284440380703087019787949715546964618153762911258856907513030235,
     98738873404214147101930461316119415443342850261328883895258019890188057835955,
     20745648178771734608951765849562387191683297129807662095049454907249319863132,
     34699999414150005201840959587156085922561010500186485079216323476316046513259]"

definition PUMPFUN_AMM_FEES :: "pubkey list" where
  "PUMPFUN_AMM_FEES = [
     43670800817790450857629080684740984424511516707089558686432872109121123730741,
     45011222677600308553971655291504439457953244532308390508249523783160082977040,
     59487008689779567383944573944503107399308920459965045400072859194696843466699,
     63818695762686521773281609311327526056140595241054173892162788061755763827947,
     78281751054653007194127143988748273744282697135300120209194116580140980282950,
     97548618151291706607517374984479009641095012075079990327654536892445681533281,
     101326529188024849405276091558047387544244268681743864046836713573388525729862]"

definition is_mayhem_fee_recipient :: "pubkey \<Rightarrow> bool" where
  "is_mayhem_fee_recipient k \<longleftrightarrow> k \<in> set MAYHEM_FEE_RECIPIENTS"

definition is_amm_fee_recipient :: "pubkey \<Rightarrow> bool" where
  "is_amm_fee_recipient k \<longleftrightarrow> k \<in> set PUMPFUN_AMM_FEES"

definition get_mayhem_fee_recipient_meta_random :: "chain_ext \<Rightarrow> account_meta" where
  "get_mayhem_fee_recipient_meta_random ext =
     meta_new (unwrap_or (choose_key ext MAYHEM_FEE_RECIPIENTS) (hd MAYHEM_FEE_RECIPIENTS)) False"

definition get_standard_fee_recipient_meta_random :: "chain_ext \<Rightarrow> account_meta" where
  "get_standard_fee_recipient_meta_random ext =
     meta_new (unwrap_or (choose_key ext (FEE_RECIPIENT # PUMPFUN_AMM_FEES)) FEE_RECIPIENT) False"

definition pump_fun_fee_recipient_meta :: "chain_ext \<Rightarrow> pubkey \<Rightarrow> bool \<Rightarrow> account_meta" where
  "pump_fun_fee_recipient_meta ext from_stream is_mayhem_mode =
     (if from_stream \<noteq> pubkey_default then meta_new from_stream False
      else if is_mayhem_mode then get_mayhem_fee_recipient_meta_random ext
      else get_standard_fee_recipient_meta_random ext)"

definition get_creator :: "chain_ext \<Rightarrow> pubkey \<Rightarrow> (caches, pubkey) prog" where
  "get_creator ext creator_vault_pda =
     (if creator_vault_pda = pubkey_default then ret pubkey_default
      else then_do (get_creator_vault_pda ext pubkey_default) (\<lambda>default_vault.
        case default_vault of
          Some d \<Rightarrow> ret (if creator_vault_pda = d then pubkey_default else creator_vault_pda)
        | None \<Rightarrow> ret creator_vault_pda))"

definition phantom_default_creator_vault :: pubkey where
  "phantom_default_creator_vault = 8159028663138181534600751385704148693293239487338874843468938968148976933941"

definition is_phantom_default_creator_vault :: "pubkey \<Rightarrow> bool" where
  "is_phantom_default_creator_vault k \<longleftrightarrow> k = phantom_default_creator_vault"

definition resolve_creator_vault_for_ix :: "chain_ext \<Rightarrow> pubkey \<Rightarrow> pubkey \<Rightarrow> pubkey \<Rightarrow> (caches, pubkey option) prog" where
  "resolve_creator_vault_for_ix ext creator vault_from_event mint =
     (if creator = pubkey_default then
        (if vault_from_event = pubkey_default then ret None
         else if vault_from_event = phantom_default_creator_vault then ret None
         else ret (Some vault_from_event))
      else if vault_from_event = phantom_default_creator_vault then get_creator_vault_pda ext creator
      else then_do (get_creator_vault_pda ext creator) (\<lambda>derived. case derived of
        None \<Rightarrow> ret None
      | Some v_derived \<Rightarrow>
          if vault_from_event = pubkey_default then ret (Some v_derived)
          else if vault_from_event = v_derived then ret (Some vault_from_event)
          else (case get_fee_sharing_config_pda ext mint of
              None \<Rightarrow> ret (Some v_derived)
            | Some sharing \<Rightarrow> then_do (get_creator_vault_pda ext sharing) (\<lambda>shared. case shared of
                None \<Rightarrow> ret None
              | Some v_sharing \<Rightarrow>
                  if vault_from_event = v_sharing then ret (Some vault_from_event) else ret (Some v_derived)))))"

section \<open>Constructors\<close>

subsection \<open>PumpFun\<close>

definition pf_resolved_vault :: "chain_ext \<Rightarrow> pubkey \<Rightarrow> pubkey \<Rightarrow> pubkey \<Rightarrow> (caches, pubkey) prog" where
  "pf_resolved_vault ext creator creator_vault mint =
     then_do (resolve_creator_vault_for_ix ext creator creator_vault mint) (\<lambda>r. case r of
       Some v \<Rightarrow> ret v
     | None \<Rightarrow> then_do (get_creator_vault_pda ext creator) (\<lambda>d. ret (unwrap_or d pubkey_default)))"

definition pumpfun_immediate_sell :: "pubkey \<Rightarrow> pubkey \<Rightarrow> bool \<Rightarrow> pumpfun_params" where
  "pumpfun_immediate_sell creator_vault token_program close_token_account_when_sell =
     \<lparr>pf_bonding_curve = \<lparr>bc_discriminator = 0, bc_account = pubkey_default, bc_virtual_token_reserves = 0,
        bc_virtual_sol_reserves = 0, bc_real_token_reserves = 0, bc_real_sol_reserves = 0, bc_token_total_supply = 0,
        bc_complete = False, bc_creator = pubkey_default, bc_is_mayhem_mode = False, bc_is_cashback_coin = False\<rparr>,
      pf_associated_bonding_curve = pubkey_default, pf_creator_vault = creator_vault, pf_token_program = token_program,
      pf_close_token_account_when_sell = Some close_token_account_when_sell, pf_fee_recipient = pubkey_default\<rparr>"

text \<open>\<open>BondingCurveAccount\<close>'s constructors call \<open>get_bonding_curve_pda(mint).unwrap()\<close> only when they are given no account.\<close>

definition pf_curve_pda :: "chain_ext \<Rightarrow> pubkey \<Rightarrow> pubkey \<Rightarrow> (caches, pubkey rust) prog" where
  "pf_curve_pda ext bonding_curve mint =
     (if bonding_curve \<noteq> pubkey_default then ret (Some bonding_curve) else get_bonding_curve_pda ext mint)"

definition pumpfun_from_dev_trade ::
  "chain_ext \<Rightarrow> profile \<Rightarrow> pubkey \<Rightarrow> u64 \<Rightarrow> u64 \<Rightarrow> pubkey \<Rightarrow> pubkey \<Rightarrow> pubkey \<Rightarrow> pubkey \<Rightarrow> bool option \<Rightarrow> pubkey \<Rightarrow> pubkey
     \<Rightarrow> bool \<Rightarrow> bool option \<Rightarrow> (caches, pumpfun_params) prog" where
  "pumpfun_from_dev_trade ext p mint token_amount max_sol_cost creator bonding_curve associated_bonding_curve creator_vault
       close_when_sell fee_recipient token_program is_cashback_coin mayhem_mode =
     (let is_mayhem_mode = unwrap_or mayhem_mode (is_mayhem_fee_recipient fee_recipient) in
      then_do (pf_curve_pda ext bonding_curve mint) (\<lambda>mint_pda.
      then_do (of_rust (curve_from_dev_trade p mint_pda bonding_curve token_amount max_sol_cost creator
                 is_mayhem_mode is_cashback_coin)) (\<lambda>curve.
      then_do (pf_resolved_vault ext (bc_creator curve) creator_vault mint) (\<lambda>vault.
      ret \<lparr>pf_bonding_curve = curve, pf_associated_bonding_curve = associated_bonding_curve, pf_creator_vault = vault,
           pf_token_program = token_program, pf_close_token_account_when_sell = close_when_sell,
           pf_fee_recipient = fee_recipient\<rparr>))))"

definition pumpfun_from_trade ::
  "chain_ext \<Rightarrow> pubkey \<Rightarrow> pubkey \<Rightarrow> pubkey \<Rightarrow> pubkey \<Rightarrow> pubkey \<Rightarrow> u64 \<Rightarrow> u64 \<Rightarrow> u64 \<Rightarrow> u64 \<Rightarrow> bool option \<Rightarrow> pubkey \<Rightarrow> pubkey
     \<Rightarrow> bool \<Rightarrow> bool option \<Rightarrow> (caches, pumpfun_params) prog" where
  "pumpfun_from_trade ext bonding_curve associated_bonding_curve mint creator creator_vault vt vs rt rs
       close_when_sell fee_recipient token_program is_cashback_coin mayhem_mode =
     (let is_mayhem_mode = (case mayhem_mode of Some v \<Rightarrow> v | None \<Rightarrow> is_mayhem_fee_recipient fee_recipient) in
      then_do (pf_curve_pda ext bonding_curve mint) (\<lambda>mint_pda.
      then_do (of_rust (curve_from_trade mint_pda bonding_curve creator vt vs rt rs is_mayhem_mode is_cashback_coin)) (\<lambda>curve.
      then_do (pf_resolved_vault ext (bc_creator curve) creator_vault mint) (\<lambda>vault.
      ret \<lparr>pf_bonding_curve = curve, pf_associated_bonding_curve = associated_bonding_curve, pf_creator_vault = vault,
           pf_token_program = token_program, pf_close_token_account_when_sell = close_when_sell,
           pf_fee_recipient = fee_recipient\<rparr>))))"

definition with_creator_vault :: "pumpfun_params \<Rightarrow> pubkey \<Rightarrow> pumpfun_params" where
  "with_creator_vault self creator_vault = self\<lparr>pf_creator_vault := creator_vault\<rparr>"

subsection \<open>PumpSwap\<close>

definition MAYHEM_FEE_RECIPIENT :: pubkey where
  "MAYHEM_FEE_RECIPIENT = MAYHEM_FEE_RECIPIENTS ! 0"

definition pumpswap_params_new ::
  "pubkey \<Rightarrow> pubkey \<Rightarrow> pubkey \<Rightarrow> pubkey \<Rightarrow> pubkey \<Rightarrow> u64 \<Rightarrow> u64 \<Rightarrow> pubkey \<Rightarrow> pubkey \<Rightarrow> pubkey \<Rightarrow> pubkey \<Rightarrow> pubkey \<Rightarrow> bool
     \<Rightarrow> pumpswap_params" where
  "pumpswap_params_new pool base_mint quote_mint base_account quote_account base_reserves quote_reserves
       vault_ata vault_authority base_token_program quote_token_program fee_recipient is_cashback_coin =
     \<lparr>ps_pool = pool, ps_base_mint = base_mint, ps_quote_mint = quote_mint,
      ps_pool_base_token_account = base_account, ps_pool_quote_token_account = quote_account,
      ps_pool_base_token_reserves = base_reserves, ps_pool_quote_token_reserves = quote_reserves,
      ps_coin_creator_vault_ata = vault_ata, ps_coin_creator_vault_authority = vault_authority,
      ps_base_token_program = base_token_program, ps_quote_token_program = quote_token_program,
      ps_is_mayhem_mode = (fee_recipient = MAYHEM_FEE_RECIPIENT), ps_is_cashback_coin = is_cashback_coin\<rparr>"

definition pumpswap_params_from_trade ::
  "pubkey \<Rightarrow> pubkey \<Rightarrow> pubkey \<Rightarrow> pubkey \<Rightarrow> pubkey \<Rightarrow> u64 \<Rightarrow> u64 \<Rightarrow> pubkey \<Rightarrow> pubkey \<Rightarrow> pubkey \<Rightarrow> pubkey \<Rightarrow> pubkey \<Rightarrow> bool
     \<Rightarrow> pumpswap_params" where
  "pumpswap_params_from_trade = pumpswap_params_new"

subsection \<open>Bonk\<close>

definition bonk_immediate_sell :: "pubkey \<Rightarrow> pubkey \<Rightarrow> pubkey \<Rightarrow> pubkey \<Rightarrow> pubkey \<Rightarrow> bonk_params" where
  "bonk_immediate_sell mint_token_program platform_config platform_account creator_account global_config =
     \<lparr>bk_virtual_base = 0, bk_virtual_quote = 0, bk_real_base = 0, bk_real_quote = 0, bk_pool_state = pubkey_default,
      bk_base_vault = pubkey_default, bk_quote_vault = pubkey_default, bk_mint_token_program = mint_token_program,
      bk_platform_config = platform_config, bk_platform_associated_account = platform_account,
      bk_creator_associated_account = creator_account, bk_global_config = global_config\<rparr>"

definition bonk_from_trade ::
  "u64 \<Rightarrow> u64 \<Rightarrow> u64 \<Rightarrow> u64 \<Rightarrow> pubkey \<Rightarrow> pubkey \<Rightarrow> pubkey \<Rightarrow> pubkey \<Rightarrow> pubkey \<Rightarrow> pubkey \<Rightarrow> pubkey \<Rightarrow> pubkey \<Rightarrow> bonk_params" where
  "bonk_from_trade virtual_base virtual_quote real_base_after real_quote_after pool_state base_vault quote_vault
       base_token_program platform_config platform_account creator_account global_config =
     \<lparr>bk_virtual_base = as_u128 virtual_base, bk_virtual_quote = as_u128 virtual_quote,
      bk_real_base = as_u128 real_base_after, bk_real_quote = as_u128 real_quote_after, bk_pool_state = pool_state,
      bk_base_vault = base_vault, bk_quote_vault = quote_vault, bk_mint_token_program = base_token_program,
      bk_platform_config = platform_config, bk_platform_associated_account = platform_account,
      bk_creator_associated_account = creator_account, bk_global_config = global_config\<rparr>"

definition DEFAULT_VIRTUAL_BASE :: u128 where "DEFAULT_VIRTUAL_BASE = 1073025605596382"
definition DEFAULT_VIRTUAL_QUOTE :: u128 where "DEFAULT_VIRTUAL_QUOTE = 30000852951"

definition bonk_from_dev_trade ::
  "profile \<Rightarrow> bool \<Rightarrow> u64 \<Rightarrow> u64 \<Rightarrow> pubkey \<Rightarrow> pubkey \<Rightarrow> pubkey \<Rightarrow> pubkey \<Rightarrow> pubkey \<Rightarrow> pubkey \<Rightarrow> pubkey \<Rightarrow> pubkey
     \<Rightarrow> bonk_params rust" where
  "bonk_from_dev_trade p is_exact_in amount_in amount_out pool_state base_vault quote_vault
       base_token_program platform_config platform_account creator_account global_config = do {
     _ \<leftarrow> (if is_exact_in then Some amount_in
           else bonk_get_amount_in p amount_out BONK_PROTOCOL_FEE_RATE BONK_PLATFORM_FEE_RATE BONK_SHARE_FEE_RATE
                  DEFAULT_VIRTUAL_BASE DEFAULT_VIRTUAL_QUOTE 0 0 0);
     real_quote \<leftarrow> bonk_get_amount_in_net p amount_in BONK_PROTOCOL_FEE_RATE BONK_PLATFORM_FEE_RATE BONK_SHARE_FEE_RATE;
     out \<leftarrow> (if is_exact_in
             then bonk_get_amount_out p amount_in BONK_PROTOCOL_FEE_RATE BONK_PLATFORM_FEE_RATE BONK_SHARE_FEE_RATE
                    DEFAULT_VIRTUAL_BASE DEFAULT_VIRTUAL_QUOTE 0 0 0
             else Some amount_out);
     Some \<lparr>bk_virtual_base = DEFAULT_VIRTUAL_BASE, bk_virtual_quote = DEFAULT_VIRTUAL_QUOTE,
           bk_real_base = as_u128 out, bk_real_quote = as_u128 real_quote, bk_pool_state = pool_state,
           bk_base_vault = base_vault, bk_quote_vault = quote_vault, bk_mint_token_program = base_token_program,
           bk_platform_config = platform_config, bk_platform_associated_account = platform_account,
           bk_creator_associated_account = creator_account, bk_global_config = global_config\<rparr>
   }"

subsection \<open>Raydium and Meteora\<close>

definition raydium_cpmm_from_trade ::
  "pubkey \<Rightarrow> pubkey \<Rightarrow> pubkey \<Rightarrow> pubkey \<Rightarrow> pubkey \<Rightarrow> pubkey \<Rightarrow> pubkey \<Rightarrow> pubkey \<Rightarrow> pubkey \<Rightarrow> u64 \<Rightarrow> u64 \<Rightarrow> raydium_cpmm_params" where
  "raydium_cpmm_from_trade pool_state amm_config input_token_mint output_token_mint input_vault output_vault
       input_token_program output_token_program observation_state base_reserve quote_reserve =
     \<lparr>rc_pool_state = pool_state, rc_amm_config = amm_config, rc_base_mint = input_token_mint,
      rc_quote_mint = output_token_mint, rc_base_reserve = base_reserve, rc_quote_reserve = quote_reserve,
      rc_base_vault = input_vault, rc_quote_vault = output_vault, rc_base_token_program = input_token_program,
      rc_quote_token_program = output_token_program, rc_observation_state = observation_state\<rparr>"

definition raydium_amm_v4_new :: "pubkey \<Rightarrow> pubkey \<Rightarrow> pubkey \<Rightarrow> pubkey \<Rightarrow> pubkey \<Rightarrow> u64 \<Rightarrow> u64 \<Rightarrow> raydium_amm_v4_params" where
  "raydium_amm_v4_new amm coin_mint pc_mint token_coin token_pc coin_reserve pc_reserve =
     \<lparr>ra_amm = amm, ra_coin_mint = coin_mint, ra_pc_mint = pc_mint, ra_token_coin = token_coin, ra_token_pc = token_pc,
      ra_coin_reserve = coin_reserve, ra_pc_reserve = pc_reserve\<rparr>"

definition meteora_damm_v2_new :: "pubkey \<Rightarrow> pubkey \<Rightarrow> pubkey \<Rightarrow> pubkey \<Rightarrow> pubkey \<Rightarrow> pubkey \<Rightarrow> pubkey \<Rightarrow> meteora_damm_v2_params" where
  "meteora_damm_v2_new pool token_a_vault token_b_vault token_a_mint token_b_mint token_a_program token_b_program =
     \<lparr>md_pool = pool, md_token_a_vault = token_a_vault, md_token_b_vault = token_b_vault, md_token_a_mint = token_a_mint,
      md_token_b_mint = token_b_mint, md_token_a_program = token_a_program, md_token_b_program = token_b_program\<rparr>"

end
