(* ===== verification/TxBuilder.thy ===== *)
theory TxBuilder
  imports Params
begin

text \<open>
  From instructions to a transaction: the middleware chain (\<open>trading/middleware\<close>), the durable nonce
  (\<open>trading/common/nonce_manager.rs\<close>), the preallocated message builder (\<open>trading/core/transaction_pool.rs\<close>) and
  \<open>build_transaction\<close> (\<open>trading/common/transaction_builder.rs\<close>). Message compilation and signing belong to \<open>solana_sdk\<close>:
  they are the fields of \<open>tx_ext\<close>.
\<close>

section \<open>Middleware\<close>

fun apply_middlewares ::
  "(middleware \<Rightarrow> middleware_method) \<Rightarrow> middleware list \<Rightarrow> instruction list \<Rightarrow> string \<Rightarrow> bool \<Rightarrow> string + instruction list" where
  "apply_middlewares method [] ixs protocol_name is_buy = Inr ixs"
| "apply_middlewares method (m # ms) ixs protocol_name is_buy =
     (case method m ixs protocol_name is_buy of
        Inl e \<Rightarrow> Inl e
      | Inr ixs' \<Rightarrow> if ixs' = [] then Inr ixs' else apply_middlewares method ms ixs' protocol_name is_buy)"

definition apply_middlewares_process_full_instructions ::
  "middleware list \<Rightarrow> instruction list \<Rightarrow> string \<Rightarrow> bool \<Rightarrow> string + instruction list" where
  "apply_middlewares_process_full_instructions = apply_middlewares process_full_instructions"

definition apply_middlewares_process_protocol_instructions ::
  "middleware list \<Rightarrow> instruction list \<Rightarrow> string \<Rightarrow> bool \<Rightarrow> string + instruction list" where
  "apply_middlewares_process_protocol_instructions = apply_middlewares process_protocol_instructions"

definition add_middleware :: "middleware list \<Rightarrow> middleware \<Rightarrow> middleware list" where
  "add_middleware self m = self @ [m]"

definition LoggingMiddleware :: middleware where
  "LoggingMiddleware = \<lparr>process_protocol_instructions = (\<lambda>ixs protocol_name is_buy. Inr ixs),
     process_full_instructions = (\<lambda>ixs protocol_name is_buy. Inr ixs)\<rparr>"

definition with_common_middlewares :: "middleware list" where
  "with_common_middlewares = add_middleware [] LoggingMiddleware"

section \<open>Nonce and blockhash\<close>

text \<open>\<open>unwrap\<close> of the nonce account panics when the caller gave a nonce without an account.\<close>

definition add_nonce_instruction ::
  "chain_ext \<Rightarrow> instruction list \<Rightarrow> pubkey \<Rightarrow> durable_nonce_info option \<Rightarrow> (caches, instruction list) prog" where
  "add_nonce_instruction ext instructions payer durable_nonce =
     (case durable_nonce of
        None \<Rightarrow> ret instructions
      | Some n \<Rightarrow> (case nonce_account n of
          None \<Rightarrow> panic
        | Some account \<Rightarrow> ret (instructions @ [ix_advance_nonce_account ext account payer])))"

definition get_transaction_blockhash :: "hash option \<Rightarrow> durable_nonce_info option \<Rightarrow> string + hash" where
  "get_transaction_blockhash recent_blockhash durable_nonce =
     (case durable_nonce of
        Some n \<Rightarrow> (case current_nonce n of None \<Rightarrow> Inl ''durable_nonce.current_nonce is None'' | Some h \<Rightarrow> Inr h)
      | None \<Rightarrow> (case recent_blockhash of
          Some h \<Rightarrow> Inr h
        | None \<Rightarrow> Inl ''Must provide either recent_blockhash or durable_nonce for transaction''))"

section \<open>Messages\<close>

datatype message_version = Legacy | V0 lookup_table

record message =
  msg_version :: message_version
  msg_payer :: pubkey
  msg_instructions :: "instruction list"
  msg_blockhash :: hash

record transaction =
  tx_signatures :: "nat list"
  tx_message :: message

text \<open>Whether a versioned message compiles, and the signature of the payer's key over a message.\<close>

record tx_ext =
  compiles :: "message \<Rightarrow> bool"
  sign :: "message \<Rightarrow> nat"

definition build_zero_alloc ::
  "tx_ext \<Rightarrow> pubkey \<Rightarrow> instruction list \<Rightarrow> lookup_table option \<Rightarrow> hash \<Rightarrow> (caches, message) prog" where
  "build_zero_alloc tex payer instructions alt recent_blockhash =
     (case alt of
        Some table \<Rightarrow>
          (let m = \<lparr>msg_version = V0 table, msg_payer = payer, msg_instructions = instructions, msg_blockhash = recent_blockhash\<rparr>
           in if compiles tex m then ret m else panic)
      | None \<Rightarrow> ret \<lparr>msg_version = Legacy, msg_payer = payer, msg_instructions = instructions, msg_blockhash = recent_blockhash\<rparr>)"

definition build_versioned_transaction ::
  "tx_ext \<Rightarrow> pubkey \<Rightarrow> instruction list \<Rightarrow> lookup_table option \<Rightarrow> hash \<Rightarrow> middleware list option \<Rightarrow> string \<Rightarrow> bool
     \<Rightarrow> (caches, transaction) prog" where
  "build_versioned_transaction tex payer instructions alt blockhash middlewares protocol_name is_buy =
     then_do (case middlewares of
                Some ms \<Rightarrow> of_result (apply_middlewares_process_full_instructions ms instructions protocol_name is_buy)
              | None \<Rightarrow> ret instructions) (\<lambda>full_instructions.
     then_do (build_zero_alloc tex payer full_instructions alt blockhash) (\<lambda>m.
     ret \<lparr>tx_signatures = [sign tex m], tx_message = m\<rparr>))"

section \<open>The transaction\<close>

definition sol_f64_to_lamports :: "f64 \<Rightarrow> u64" where
  "sol_f64_to_lamports sol =
     (if f64_le sol (f64_lit 0) then 0
      else let lamports = f64_mul sol (f64_lit 1000000000)
           in u64_of_f64 (f64_round (f64_min lamports (f64_of_u64 (- 1 :: u64)))))"

definition build_transaction ::
  "chain_ext \<Rightarrow> tx_ext \<Rightarrow> pubkey \<Rightarrow> u32 \<Rightarrow> u64 \<Rightarrow> instruction list \<Rightarrow> lookup_table option \<Rightarrow> hash option \<Rightarrow> middleware list option
     \<Rightarrow> string \<Rightarrow> bool \<Rightarrow> bool \<Rightarrow> pubkey \<Rightarrow> f64 \<Rightarrow> durable_nonce_info option \<Rightarrow> (caches, transaction) prog" where
  "build_transaction ext tex payer unit_limit unit_price business_instructions alt recent_blockhash middlewares
       protocol_name is_buy with_tip tip_account tip_amount durable_nonce =
     then_do (add_nonce_instruction ext [] payer durable_nonce) (\<lambda>nonce_ixs.
     let tip_ixs = (if with_tip \<and> f64_lt (f64_lit 0) tip_amount
                    then nonce_ixs @ [ix_transfer ext payer tip_account (sol_f64_to_lamports tip_amount)]
                    else nonce_ixs)
     in
     then_do (extend_compute_budget_instructions ext tip_ixs unit_price unit_limit) (\<lambda>budget_ixs.
     then_do (of_result (get_transaction_blockhash recent_blockhash durable_nonce)) (\<lambda>blockhash.
     build_versioned_transaction tex payer (budget_ixs @ business_instructions) alt blockhash middlewares protocol_name is_buy)))"

section \<open>Lemmas\<close>

lemma apply_logging [simp]:
  "apply_middlewares_process_full_instructions with_common_middlewares ixs n b = Inr ixs"
  "apply_middlewares_process_protocol_instructions with_common_middlewares ixs n b = Inr ixs"
  by (simp_all add: apply_middlewares_process_full_instructions_def apply_middlewares_process_protocol_instructions_def
      with_common_middlewares_def add_middleware_def LoggingMiddleware_def)

text \<open>A chain of middlewares that never fail and never empty the list is the composition of their functions.\<close>

lemma apply_middlewares_total:
  assumes "\<And>m ixs. m \<in> set ms \<Longrightarrow> ixs \<noteq> [] \<Longrightarrow> method m ixs n b = Inr (g m ixs) \<and> g m ixs \<noteq> []" and "ixs \<noteq> []"
  shows "apply_middlewares method ms ixs n b = Inr (fold g ms ixs) \<and> fold g ms ixs \<noteq> []"
  using assms by (induction ms arbitrary: ixs) auto

definition tx_parts :: "chain_ext \<Rightarrow> pubkey \<Rightarrow> u32 \<Rightarrow> u64 \<Rightarrow> instruction list \<Rightarrow> bool \<Rightarrow> pubkey \<Rightarrow> f64 \<Rightarrow> durable_nonce_info option \<Rightarrow> instruction list" where
  "tx_parts ext payer limit price business with_tip tip_account tip_amount nonce =
     (case nonce of None \<Rightarrow> [] | Some n \<Rightarrow> [ix_advance_nonce_account ext (the (nonce_account n)) payer])
     @ (if with_tip \<and> f64_lt (f64_lit 0) tip_amount then [ix_transfer ext payer tip_account (sol_f64_to_lamports tip_amount)] else [])
     @ budget_compute ext (price, limit) @ business"

lemma transparent_case_list_option [transparent_intro]:
  "transparent I m \<Longrightarrow> (\<And>a. transparent I (f a)) \<Longrightarrow> transparent I (case x of Some a \<Rightarrow> f a | None \<Rightarrow> m)"
  by (cases x) simp_all

lemma build_transaction_transparent [transparent_intro]:
  "transparent (coherent ext r1 r2) (build_transaction ext tex payer limit price business alt hash ms name is_buy with_tip acc tip_sol nonce)"
  unfolding build_transaction_def add_nonce_instruction_def build_versioned_transaction_def build_zero_alloc_def Let_def
  by (intro transparent_intro)

lemma build_transaction_returns:
  assumes "returns (coherent ext r1 r2)
      (build_transaction ext tex payer limit price business alt hash None name is_buy with_tip acc tip_sol nonce) tx"
  shows "\<exists>m. tx = \<lparr>tx_signatures = [sign tex m], tx_message = m\<rparr> \<and> msg_payer m = payer
    \<and> msg_instructions m = tx_parts ext payer limit price business with_tip acc tip_sol nonce
    \<and> get_transaction_blockhash hash nonce = Inr (msg_blockhash m)
    \<and> msg_version m = (case alt of None \<Rightarrow> Legacy | Some t \<Rightarrow> V0 t)
    \<and> (\<forall>n. nonce = Some n \<longrightarrow> nonce_account n \<noteq> None)"
proof -
  have res: "\<exists>h. x = Inr h \<and> returns I (f h) b" if "returns I (then_do (of_result x) f) b" for I x f and b :: transaction
    using that by (cases x) auto
  show ?thesis
    using assms
    unfolding build_transaction_def add_nonce_instruction_def build_versioned_transaction_def build_zero_alloc_def Let_def option.case
    by (cases nonce; cases alt)
       (auto simp: tx_parts_def then_do_push simp del: prog_simps(1,2,3)
         dest!: returns_dest res split: option.splits if_splits)
qed

section \<open>Properties\<close>


definition sample_tx_ext :: tx_ext where
  "sample_tx_ext = \<lparr>compiles = (\<lambda>m. True), sign = (\<lambda>m. length (msg_instructions m))\<rparr>"


end
