(* ===== verification/Collector.thy ===== *)
theory Collector
  imports GasFee "HOL-Library.Multiset" "HOL-Library.Sublist"
begin

text \<open>
  The result collector of a parallel submission (\<open>ResultCollector\<close> in \<open>trading/core/async_executor.rs\<close>). The senders of
  one batch and the caller that waits for them run concurrently, so \<open>submit\<close> is three atomic steps (the queue push, the
  store of a flag, the increment of the counter) and each wait is a poller that reads one atomic or pops one result at a
  time. A state is the collector, the program counter of every sender and the poller; \<open>coll_step\<close> interleaves them.
\<close>

section \<open>Errors and results\<close>

text \<open>An \<open>anyhow::Error\<close>: a \<open>TradeError\<close> that can be downcast, or any other error by its message.\<close>

datatype any_error = TradeError u32 string "u8 option" | OtherError string

definition contains :: "string \<Rightarrow> string \<Rightarrow> bool" where
  "contains pat s = list_ex (prefix pat) (suffixes s)"

fun is_landed_error :: "any_error \<Rightarrow> bool" where
  "is_landed_error (TradeError code msg ix) = (if code = 500 \<and> contains ''timed out'' msg then False else code > 0)"
| "is_landed_error (OtherError msg) = False"

record task_result =
  success :: bool
  signature :: nat
  err_of :: "any_error option"
  result_swqos_type :: swqos_type
  landed_on_chain :: bool
  submit_done_us :: int

type_synonym batch_answer = "bool \<times> nat list \<times> any_error option \<times> (swqos_type \<times> int) list"

section \<open>The collector\<close>

record collector =
  results :: "task_result list"
  success_flag :: bool
  landed_failed_flag :: bool
  completed_count :: nat
  total_tasks :: nat

definition collector_new :: "nat \<Rightarrow> collector" where
  "collector_new capacity = \<lparr>results = [], success_flag = False, landed_failed_flag = False, completed_count = 0,
     total_tasks = capacity\<rparr>"

text \<open>The queue has room for \<open>total_tasks\<close> results; a push on a full queue is discarded.\<close>

definition submit_push :: "task_result \<Rightarrow> collector \<Rightarrow> collector" where
  "submit_push r c = (if length (results c) < total_tasks c then c\<lparr>results := results c @ [r]\<rparr> else c)"

definition submit_flag :: "task_result \<Rightarrow> collector \<Rightarrow> collector" where
  "submit_flag r c = (if success r then c\<lparr>success_flag := True\<rparr>
                      else if landed_on_chain r \<and> \<not> success r then c\<lparr>landed_failed_flag := True\<rparr> else c)"

definition submit_count :: "collector \<Rightarrow> collector" where
  "submit_count c = c\<lparr>completed_count := completed_count c + 1\<rparr>"

definition submit :: "task_result \<Rightarrow> collector \<Rightarrow> collector" where
  "submit r c = submit_count (submit_flag r (submit_push r c))"

text \<open>The three loops that drain the queue differ in what they keep of the results popped, in the order they were popped.\<close>

definition popped_success :: "task_result list \<Rightarrow> bool" where
  "popped_success rs = fold (\<lambda>r b. if success r then True else b) rs False"

definition last_error :: "task_result list \<Rightarrow> any_error option" where
  "last_error rs = fold (\<lambda>r e. if err_of r \<noteq> None then err_of r else e) rs None"

definition landed_error :: "task_result list \<Rightarrow> any_error option" where
  "landed_error rs = fold (\<lambda>r e. if landed_on_chain r \<and> err_of r \<noteq> None then err_of r else e) rs None"

definition timings :: "task_result list \<Rightarrow> (swqos_type \<times> int) list" where
  "timings rs = map (\<lambda>r. (result_swqos_type r, submit_done_us r)) rs"

definition all_answer :: "task_result list \<Rightarrow> batch_answer option" where
  "all_answer rs = (if rs \<noteq> [] then Some (popped_success rs, map signature rs, last_error rs, timings rs) else None)"

definition success_answer :: "task_result list \<Rightarrow> batch_answer option" where
  "success_answer rs = (if popped_success rs \<and> rs \<noteq> [] then Some (True, map signature rs, None, timings rs) else None)"

definition landed_answer :: "task_result list \<Rightarrow> batch_answer option" where
  "landed_answer rs = (if rs \<noteq> [] then Some (False, map signature rs, landed_error rs, timings rs) else None)"

text \<open>\<open>get_first\<close> with nobody else running: everything in the queue is popped.\<close>

definition get_first :: "collector \<Rightarrow> batch_answer option \<times> collector" where
  "get_first c = (all_answer (results c), c\<lparr>results := []\<rparr>)"

section \<open>Senders and pollers\<close>

datatype sender_pc = Pending | Pushed | Flagged | Done

text \<open>
  The caller inside \<open>wait_for_all_submitted\<close> (\<open>AllWait\<close>, then \<open>AllDrain\<close>, which remembers whether the count was reached)
  or inside \<open>wait_for_success\<close>: before the test of the success flag, draining after it, before the test of the landed flag,
  draining after it, before the test of the count, draining after it.
\<close>

datatype poller =
    AllWait
  | AllDrain bool "task_result list"
  | SuccessTest
  | SuccessDrain "task_result list"
  | LandedTest
  | LandedDrain "task_result list"
  | CountTest
  | CountDrain "task_result list"
  | Returned bool "batch_answer option"

fun popped :: "poller \<Rightarrow> task_result list" where
  "popped (AllDrain b rs) = rs"
| "popped (SuccessDrain rs) = rs"
| "popped (LandedDrain rs) = rs"
| "popped (CountDrain rs) = rs"
| "popped p = []"

fun pop_into :: "task_result \<Rightarrow> poller \<Rightarrow> poller" where
  "pop_into r (AllDrain b rs) = AllDrain b (rs @ [r])"
| "pop_into r (SuccessDrain rs) = SuccessDrain (rs @ [r])"
| "pop_into r (LandedDrain rs) = LandedDrain (rs @ [r])"
| "pop_into r (CountDrain rs) = CountDrain (rs @ [r])"
| "pop_into r p = p"

fun draining :: "poller \<Rightarrow> bool" where
  "draining (AllDrain b rs) = True"
| "draining (SuccessDrain rs) = True"
| "draining (LandedDrain rs) = True"
| "draining (CountDrain rs) = True"
| "draining p = False"

text \<open>What a drain does once the queue is empty.\<close>

fun drained :: "poller \<Rightarrow> poller" where
  "drained (AllDrain b rs) = Returned b (all_answer rs)"
| "drained (SuccessDrain rs) = (case success_answer rs of Some a \<Rightarrow> Returned False (Some a) | None \<Rightarrow> LandedTest)"
| "drained (LandedDrain rs) = (case landed_answer rs of Some a \<Rightarrow> Returned False (Some a) | None \<Rightarrow> CountTest)"
| "drained (CountDrain rs) = Returned False (all_answer rs)"
| "drained p = p"

record coll_state =
  coll :: collector
  pcs :: "nat \<Rightarrow> sender_pc"
  poll :: poller

definition coll_start :: "nat \<Rightarrow> poller \<Rightarrow> coll_state" where
  "coll_start n p = \<lparr>coll = collector_new n, pcs = (\<lambda>i. Pending), poll = p\<rparr>"

inductive coll_step :: "(nat \<Rightarrow> task_result) \<Rightarrow> coll_state \<Rightarrow> coll_state \<Rightarrow> bool" for res where
  Push: "i < total_tasks (coll s) \<Longrightarrow> pcs s i = Pending \<Longrightarrow>
     coll_step res s (s\<lparr>coll := submit_push (res i) (coll s), pcs := (pcs s)(i := Pushed)\<rparr>)"
| Flag: "i < total_tasks (coll s) \<Longrightarrow> pcs s i = Pushed \<Longrightarrow>
     coll_step res s (s\<lparr>coll := submit_flag (res i) (coll s), pcs := (pcs s)(i := Flagged)\<rparr>)"
| Count: "i < total_tasks (coll s) \<Longrightarrow> pcs s i = Flagged \<Longrightarrow>
     coll_step res s (s\<lparr>coll := submit_count (coll s), pcs := (pcs s)(i := Done)\<rparr>)"
| AllDone: "poll s = AllWait \<Longrightarrow> completed_count (coll s) \<ge> total_tasks (coll s) \<Longrightarrow> coll_step res s (s\<lparr>poll := AllDrain True []\<rparr>)"
| AllTimeout: "poll s = AllWait \<Longrightarrow> completed_count (coll s) < total_tasks (coll s) \<Longrightarrow> coll_step res s (s\<lparr>poll := AllDrain False []\<rparr>)"
| SuccessTest: "poll s = SuccessTest \<Longrightarrow>
     coll_step res s (s\<lparr>poll := (if success_flag (coll s) then SuccessDrain [] else LandedTest)\<rparr>)"
| LandedTest: "poll s = LandedTest \<Longrightarrow>
     coll_step res s (s\<lparr>poll := (if landed_failed_flag (coll s) then LandedDrain [] else CountTest)\<rparr>)"
| CountTest: "poll s = CountTest \<Longrightarrow>
     coll_step res s (s\<lparr>poll := (if completed_count (coll s) \<ge> total_tasks (coll s) then CountDrain [] else SuccessTest)\<rparr>)"
| Timeout: "poll s = CountTest \<Longrightarrow> completed_count (coll s) < total_tasks (coll s) \<Longrightarrow> coll_step res s (s\<lparr>poll := Returned False None\<rparr>)"
| Pop: "draining (poll s) \<Longrightarrow> results (coll s) = r # rs \<Longrightarrow>
     coll_step res s (s\<lparr>coll := (coll s)\<lparr>results := rs\<rparr>, poll := pop_into r (poll s)\<rparr>)"
| PopNone: "draining (poll s) \<Longrightarrow> results (coll s) = [] \<Longrightarrow> coll_step res s (s\<lparr>poll := drained (poll s)\<rparr>)"

inductive_cases coll_stepE: "coll_step res s s'"

inductive coll_reach :: "(nat \<Rightarrow> task_result) \<Rightarrow> nat \<Rightarrow> poller \<Rightarrow> coll_state \<Rightarrow> bool" for res n p where
  Start: "coll_reach res n p (coll_start n p)"
| Step: "coll_reach res n p s \<Longrightarrow> coll_step res s s' \<Longrightarrow> coll_reach res n p s'"

section \<open>What the drains report\<close>

lemma popped_success_iff: "popped_success rs \<longleftrightarrow> (\<exists>r \<in> set rs. success r)"
proof -
  have "fold (\<lambda>r b. if success r then True else b) rs b \<longleftrightarrow> b \<or> (\<exists>r \<in> set rs. success r)" for b
    by (induction rs arbitrary: b) auto
  then show ?thesis by (simp add: popped_success_def)
qed

text \<open>The last error is the error of some result popped, and there is one unless every result came without.\<close>

lemma last_error_Some: "last_error rs = Some e \<Longrightarrow> \<exists>r \<in> set rs. err_of r = Some e"
proof -
  have "fold (\<lambda>r e. if err_of r \<noteq> None then err_of r else e) rs a = Some e \<Longrightarrow> a = Some e \<or> (\<exists>r \<in> set rs. err_of r = Some e)" for a
    by (induction rs arbitrary: a) (auto split: if_splits)
  then show "last_error rs = Some e \<Longrightarrow> \<exists>r \<in> set rs. err_of r = Some e" by (auto simp: last_error_def)
qed

section \<open>The invariant\<close>

definition pushed :: "nat \<Rightarrow> coll_state \<Rightarrow> nat set" where
  "pushed n s = {i. i < n \<and> pcs s i \<noteq> Pending}"

definition batch_mset :: "(nat \<Rightarrow> task_result) \<Rightarrow> nat set \<Rightarrow> task_result multiset" where
  "batch_mset res A = image_mset res (mset_set A)"

text \<open>
  What an answer may say of the batch: it is made of distinct senders' results, claims success only when one of them
  succeeded, and, when the count had been reached, covers every sender.
\<close>

definition answer_ok :: "(nat \<Rightarrow> task_result) \<Rightarrow> nat \<Rightarrow> bool \<Rightarrow> batch_answer option \<Rightarrow> bool" where
  "answer_ok res n full ans \<longleftrightarrow>
     (case ans of
        None \<Rightarrow> full \<longrightarrow> n = 0
      | Some (ok, sigs, e, ts) \<Rightarrow> (\<exists>rs. mset rs \<subseteq># batch_mset res {..<n} \<and> sigs = map signature rs \<and> ts = timings rs
            \<and> (ok \<longrightarrow> (\<exists>r \<in> set rs. success r))
            \<and> (full \<longrightarrow> mset rs = batch_mset res {..<n} \<and> ok = (\<exists>i < n. success (res i)) \<and> e = last_error rs)))"

definition coll_inv :: "(nat \<Rightarrow> task_result) \<Rightarrow> nat \<Rightarrow> coll_state \<Rightarrow> bool" where
  "coll_inv res n s \<longleftrightarrow>
     total_tasks (coll s) = n
   \<and> completed_count (coll s) = card {i. i < n \<and> pcs s i = Done}
   \<and> (success_flag (coll s) \<longrightarrow> (\<exists>i < n. pcs s i \<in> {Flagged, Done} \<and> success (res i)))
   \<and> (\<forall>rs. poll s = SuccessDrain rs \<longrightarrow> success_flag (coll s))
   \<and> (\<forall>rs. poll s = AllDrain True rs \<or> poll s = CountDrain rs \<longrightarrow> completed_count (coll s) \<ge> n)
   \<and> (case poll s of
        Returned full ans \<Rightarrow> answer_ok res n full ans
      | p \<Rightarrow> mset (results (coll s)) + mset (popped p) = batch_mset res (pushed n s))"

lemma pushed_finite [simp]: "finite (pushed n s)"
  by (simp add: pushed_def)

lemma pushed_subset: "pushed n s \<subseteq> {..<n}"
  by (auto simp: pushed_def)

lemma batch_mset_mono: "A \<subseteq> B \<Longrightarrow> finite B \<Longrightarrow> batch_mset res A \<subseteq># batch_mset res B"
  by (simp add: batch_mset_def image_mset_subseteq_mono subset_imp_msubset_mset_set)

lemma size_batch [simp]: "finite A \<Longrightarrow> size (batch_mset res A) = card A"
  by (simp add: batch_mset_def)

lemma set_batch [simp]: "finite A \<Longrightarrow> set_mset (batch_mset res A) = res ` A"
  by (simp add: batch_mset_def)

lemma batch_insert: "finite A \<Longrightarrow> i \<notin> A \<Longrightarrow> batch_mset res (insert i A) = add_mset (res i) (batch_mset res A)"
  by (simp add: batch_mset_def)

text \<open>Once the counter has reached the total, every sender has pushed.\<close>

lemma completed_all_pushed:
  assumes "card {i. i < n \<and> pcs s i = Done} \<ge> n"
  shows "pushed n s = {..<n}"
proof -
  let ?D = "{i. i < n \<and> pcs s i = Done}"
  have sub: "?D \<subseteq> {..<n}" by blast
  have "?D = {..<n}"
    by (rule card_seteq [OF finite_lessThan sub]) (simp add: assms)
  then have "pcs s i = Done" if "i < n" for i using that by blast
  then show ?thesis unfolding pushed_def by force
qed

lemma success_is_pushed:
  assumes "i < n" "pcs s i \<in> {Flagged, Done}" "success (res i)"
    and "mset rs = batch_mset res (pushed n s)"
  shows "popped_success rs"
proof -
  have "i \<in> pushed n s" using assms(1,2) by (auto simp: pushed_def)
  then have "res i \<in># mset rs" using assms(4) by simp
  then show ?thesis using assms(3) by (auto simp: popped_success_iff)
qed

lemma answer_ok_part:
  assumes "mset rs = batch_mset res (pushed n s)" and "ok \<Longrightarrow> popped_success rs"
  shows "answer_ok res n False (Some (ok, map signature rs, e, timings rs))"
  using assms batch_mset_mono [OF pushed_subset, of n res s] by (auto simp: answer_ok_def popped_success_iff intro!: exI [of _ rs])

lemma answer_ok_all:
  assumes "mset rs = batch_mset res {..<n}"
  shows "answer_ok res n True (all_answer rs)"
proof -
  have "set rs = res ` {..<n}" using assms by (metis finite_lessThan set_batch set_mset_mset)
  moreover have "length rs = n" using assms by (metis card_lessThan finite_lessThan size_batch size_mset)
  ultimately show ?thesis using assms
    by (auto simp: answer_ok_def all_answer_def popped_success_iff lessThan_def intro!: exI [of _ rs])
qed

lemma answer_ok_weaken: "answer_ok res n True ans \<Longrightarrow> answer_ok res n False ans"
  by (auto simp: answer_ok_def split: option.splits)

lemma answer_ok_all_part: "mset rs = batch_mset res (pushed n s) \<Longrightarrow> answer_ok res n False (all_answer rs)"
  by (cases "rs = []") (simp_all add: all_answer_def answer_ok_part, simp add: answer_ok_def)

text \<open>A drain that finds the queue empty keeps the invariant: what it returns is sound, and it loses nothing when it goes on.\<close>

lemma drained_inv:
  assumes inv: "coll_inv res n s" and "draining (poll s)" and empty: "results (coll s) = []"
  shows "coll_inv res n (s\<lparr>poll := drained (poll s)\<rparr>)"
proof (cases "poll s")
  case (AllDrain b rs)
  have all: "mset rs = batch_mset res (pushed n s)" using inv empty AllDrain by (simp add: coll_inv_def)
  show ?thesis
  proof (cases b)
    case True
    then have "pushed n s = {..<n}" using inv AllDrain by (intro completed_all_pushed) (simp add: coll_inv_def)
    then show ?thesis using inv AllDrain True all by (simp add: coll_inv_def answer_ok_all)
  next
    case False
    then show ?thesis using inv AllDrain all by (simp add: coll_inv_def answer_ok_all_part)
  qed
next
  case (SuccessDrain rs)
  have all: "mset rs = batch_mset res (pushed n s)" using inv empty SuccessDrain by (simp add: coll_inv_def)
  obtain i where "i < n" "pcs s i \<in> {Flagged, Done}" "success (res i)"
    using inv SuccessDrain by (auto simp: coll_inv_def)
  then have ok: "popped_success rs" using all by (rule success_is_pushed)
  then have "rs \<noteq> []" by (auto simp: popped_success_def)
  then show ?thesis using inv SuccessDrain all ok by (simp add: coll_inv_def success_answer_def answer_ok_part)
next
  case (LandedDrain rs)
  have all: "mset rs = batch_mset res (pushed n s)" using inv empty LandedDrain by (simp add: coll_inv_def)
  show ?thesis
    using inv LandedDrain all empty by (cases "rs = []") (simp_all add: coll_inv_def landed_answer_def answer_ok_part pushed_def)
next
  case (CountDrain rs)
  have all: "mset rs = batch_mset res (pushed n s)" using inv empty CountDrain by (simp add: coll_inv_def)
  then show ?thesis using inv CountDrain by (simp add: coll_inv_def answer_ok_all_part)
qed (use assms in simp_all)

text \<open>The two kinds of sender step that concern the queue: a push adds exactly its result, the others add none.\<close>

lemma pushed_after_push: "i < n \<Longrightarrow> pushed n (s\<lparr>coll := c, pcs := (pcs s)(i := Pushed)\<rparr>) = insert i (pushed n s)"
  by (auto simp: pushed_def)

lemma pushed_after_other:
  "pcs s i \<noteq> Pending \<Longrightarrow> v \<noteq> Pending \<Longrightarrow> pushed n (s\<lparr>coll := c, pcs := (pcs s)(i := v)\<rparr>) = pushed n s"
  by (auto simp: pushed_def)

lemma pushed_poll [simp]: "pushed n (s\<lparr>poll := p\<rparr>) = pushed n s" "pushed n (s\<lparr>coll := c\<rparr>) = pushed n s"
  by (simp_all add: pushed_def)

lemma queue_has_room:
  assumes "mset (results (coll s)) + mset rs = batch_mset res (pushed n s)" and "i < n" and "pcs s i = Pending"
  shows "length (results (coll s)) < n"
proof -
  have "length (results (coll s)) \<le> card (pushed n s)"
    using arg_cong [OF assms(1), of size] by simp
  also have "\<dots> < card {..<n}"
    using assms(2,3) by (intro psubset_card_mono) (auto simp: pushed_def)
  finally show ?thesis by simp
qed

lemma push_inv:
  assumes inv: "coll_inv res n s" and "i < n" and "pcs s i = Pending"
  shows "coll_inv res n (s\<lparr>coll := submit_push (res i) (coll s), pcs := (pcs s)(i := Pushed)\<rparr>)"
proof -
  let ?s = "s\<lparr>coll := submit_push (res i) (coll s), pcs := (pcs s)(i := Pushed)\<rparr>"
  have keep: "total_tasks (submit_push r c) = total_tasks c" "completed_count (submit_push r c) = completed_count c"
    "success_flag (submit_push r c) = success_flag c" for r c by (simp_all add: submit_push_def)
  have dn: "{j. j < n \<and> pcs ?s j = Done} = {j. j < n \<and> pcs s j = Done}" using assms(3) by auto
  have flags: "\<exists>j < n. pcs ?s j \<in> {Flagged, Done} \<and> success (res j)" if "success_flag (coll s)"
    using inv that assms(3) by (auto simp: coll_inv_def) (metis sender_pc.distinct(3,5))+
  have queue: "mset (results (coll ?s)) + mset rs = batch_mset res (pushed n ?s)"
    if q: "mset (results (coll s)) + mset rs = batch_mset res (pushed n s)" for rs
  proof -
    have "i \<notin> pushed n s" using assms(3) by (simp add: pushed_def)
    then show ?thesis
      using queue_has_room [OF q assms(2,3)] q assms(2) inv
      by (simp add: pushed_after_push batch_insert submit_push_def coll_inv_def)
  qed
  show ?thesis
    using inv flags queue unfolding coll_inv_def dn by (auto simp: keep split: poller.splits)
qed

lemma flag_inv:
  assumes inv: "coll_inv res n s" and "i < n" and "pcs s i = Pushed"
  shows "coll_inv res n (s\<lparr>coll := submit_flag (res i) (coll s), pcs := (pcs s)(i := Flagged)\<rparr>)"
proof -
  let ?s = "s\<lparr>coll := submit_flag (res i) (coll s), pcs := (pcs s)(i := Flagged)\<rparr>"
  have keep: "total_tasks (submit_flag r c) = total_tasks c" "completed_count (submit_flag r c) = completed_count c"
    "results (submit_flag r c) = results c" "success_flag (submit_flag r c) = (success_flag c \<or> success r)" for r c
    by (simp_all add: submit_flag_def)
  have dn: "{j. j < n \<and> pcs ?s j = Done} = {j. j < n \<and> pcs s j = Done}" using assms(3) by auto
  have flags: "\<exists>j < n. pcs ?s j \<in> {Flagged, Done} \<and> success (res j)" if "success_flag (coll s) \<or> success (res i)"
    using inv that assms(2,3) by (auto simp: coll_inv_def)
  have pushed: "pushed n ?s = pushed n s" using assms(3) by (simp add: pushed_after_other)
  show ?thesis
    using inv flags unfolding coll_inv_def dn pushed by (auto simp: keep split: poller.splits)
qed

lemma count_inv:
  assumes inv: "coll_inv res n s" and "i < n" and "pcs s i = Flagged"
  shows "coll_inv res n (s\<lparr>coll := submit_count (coll s), pcs := (pcs s)(i := Done)\<rparr>)"
proof -
  let ?s = "s\<lparr>coll := submit_count (coll s), pcs := (pcs s)(i := Done)\<rparr>"
  have "{j. j < n \<and> pcs ?s j = Done} = insert i {j. j < n \<and> pcs s j = Done}" using assms(2) by auto
  moreover have "i \<notin> {j. j < n \<and> pcs s j = Done}" using assms(3) by simp
  ultimately have dn: "card {j. j < n \<and> pcs ?s j = Done} = Suc (card {j. j < n \<and> pcs s j = Done})" by simp
  have flags: "\<exists>j < n. pcs ?s j \<in> {Flagged, Done} \<and> success (res j)" if "success_flag (coll s)"
    using inv that assms(3) by (auto simp: coll_inv_def)
  have pushed: "pushed n ?s = pushed n s" using assms(3) by (simp add: pushed_after_other)
  show ?thesis
    using inv flags unfolding coll_inv_def dn pushed by (auto simp: submit_count_def split: poller.splits)
qed

lemma pop_inv:
  assumes inv: "coll_inv res n s" and "draining (poll s)" and "results (coll s) = r # rs"
  shows "coll_inv res n (s\<lparr>coll := (coll s)\<lparr>results := rs\<rparr>, poll := pop_into r (poll s)\<rparr>)"
  using assms by (cases "poll s") (auto simp: coll_inv_def)

lemma coll_inv_total: "coll_inv res n s \<Longrightarrow> total_tasks (coll s) = n"
  by (simp add: coll_inv_def)

lemma coll_inv_step:
  assumes "coll_step res s s'" and "coll_inv res n s"
  shows "coll_inv res n s'"
  using assms(1)
proof cases
  case (Push i)
  then show ?thesis using push_inv [OF assms(2)] coll_inv_total [OF assms(2)] by simp
next
  case (Flag i)
  then show ?thesis using flag_inv [OF assms(2)] coll_inv_total [OF assms(2)] by simp
next
  case (Count i)
  then show ?thesis using count_inv [OF assms(2)] coll_inv_total [OF assms(2)] by simp
next
  case (Pop r rs)
  then show ?thesis using pop_inv [OF assms(2)] by simp
next
  case PopNone
  then show ?thesis using drained_inv [OF assms(2)] by simp
qed (use assms(2) in \<open>auto simp: coll_inv_def answer_ok_def\<close>)

lemma coll_inv_start: "poll s = AllWait \<or> poll s = SuccessTest \<Longrightarrow> s = coll_start n p \<Longrightarrow> coll_inv res n s"
  by (auto simp: coll_inv_def coll_start_def collector_new_def pushed_def batch_mset_def)

lemma coll_reach_inv:
  assumes "coll_reach res n p s" and "p \<in> {AllWait, SuccessTest}"
  shows "coll_inv res n s"
  using assms(1)
proof induction
  case Start
  show ?case using assms(2) by (intro coll_inv_start) (auto simp: coll_start_def)
qed (rule coll_inv_step)

section \<open>Properties\<close>

text \<open>
  C10: however the senders and the caller interleave, the answer of a batch is sound: \<open>wait_for_all_submitted\<close> returns
  signatures of distinct senders and reports success only when a sender whose signature is returned succeeded; when it
  returns because the counter reached the total, no result is missing: the signatures are those of all senders, success
  is reported exactly when some sender succeeded, and the error is that of a sender.
\<close>

theorem all_submitted_answer:
  assumes "coll_reach res n AllWait s" and "poll s = Returned full ans" and "n > 0"
  shows "(full \<longrightarrow> (\<exists>sigs e ts. ans = Some (\<exists>i < n. success (res i), sigs, e, ts)
              \<and> mset sigs = image_mset (\<lambda>i. signature (res i)) (mset_set {..<n})
              \<and> (\<forall>x. e = Some x \<longrightarrow> (\<exists>i < n. err_of (res i) = Some x))))
    \<and> (\<forall>ok sigs e ts. ans = Some (ok, sigs, e, ts) \<longrightarrow>
              mset sigs \<subseteq># image_mset (\<lambda>i. signature (res i)) (mset_set {..<n})
              \<and> (ok \<longrightarrow> (\<exists>i < n. success (res i) \<and> signature (res i) \<in> set sigs)))"
proof -
  have ok: "answer_ok res n full ans"
    using coll_reach_inv [OF assms(1)] assms(2) by (simp add: coll_inv_def)
  have sigs: "image_mset (\<lambda>i. signature (res i)) (mset_set {..<n}) = image_mset signature (batch_mset res {..<n})"
    by (simp add: batch_mset_def image_mset.compositionality comp_def)
  show ?thesis
  proof (intro conjI impI allI)
    assume full
    then obtain ok' sg e ts where a: "ans = Some (ok', sg, e, ts)"
      using ok assms(3) by (cases ans) (auto simp: answer_ok_def)
    with ok \<open>full\<close> obtain rs where rs: "mset rs = batch_mset res {..<n}" "sg = map signature rs" "ok' = (\<exists>i < n. success (res i))" "e = last_error rs"
      by (auto simp: answer_ok_def)
    have "set rs = res ` {..<n}" using rs(1) by (metis finite_lessThan set_batch set_mset_mset)
    then have "\<exists>i < n. err_of (res i) = Some x" if "e = Some x" for x
      using last_error_Some [of rs x] rs(4) that by auto
    then show "\<exists>sg e ts. ans = Some (\<exists>i < n. success (res i), sg, e, ts)
        \<and> mset sg = image_mset (\<lambda>i. signature (res i)) (mset_set {..<n}) \<and> (\<forall>x. e = Some x \<longrightarrow> (\<exists>i < n. err_of (res i) = Some x))"
      using a rs(1,2,3) by (auto simp: sigs mset_map)
  next
    fix ok' sg e ts
    assume "ans = Some (ok', sg, e, ts)"
    with ok obtain rs where rs: "mset rs \<subseteq># batch_mset res {..<n}" "sg = map signature rs" "ok' \<longrightarrow> (\<exists>r \<in> set rs. success r)"
      by (auto simp: answer_ok_def)
    show "mset sg \<subseteq># image_mset (\<lambda>i. signature (res i)) (mset_set {..<n})"
      using rs(1,2) by (simp add: sigs mset_map image_mset_subseteq_mono)
    assume ok'
    then obtain r where r: "r \<in> set rs" "success r" using rs(3) by blast
    then have "r \<in># batch_mset res {..<n}" using rs(1) by (meson mset_subset_eqD set_mset_mset in_multiset_in_set)
    then show "\<exists>i < n. success (res i) \<and> signature (res i) \<in> set sg" using r rs(2) by auto
  qed
qed

text \<open>Two senders: the first succeeds, the second lands and fails on chain.\<close>

definition two_senders :: "nat \<Rightarrow> task_result" where
  "two_senders i = \<lparr>success = (i = 0), signature = 100 + i,
     err_of = (if i = 0 then None else Some (TradeError 6004 ''slippage: Too little output'' None)),
     result_swqos_type = SwqosDefault, landed_on_chain = True, submit_done_us = 0\<rparr>"

definition sender_steps :: "nat \<Rightarrow> coll_state \<Rightarrow> coll_state" where
  "sender_steps i s = s\<lparr>coll := submit (two_senders i) (coll s), pcs := (pcs s)(i := Done)\<rparr>"

lemma coll_reach_submit:
  assumes "coll_reach two_senders n p s" and "i < total_tasks (coll s)" and "pcs s i = Pending"
  shows "coll_reach two_senders n p (sender_steps i s)"
proof -
  have keep: "total_tasks (submit_push r c) = total_tasks c" "total_tasks (submit_flag r c) = total_tasks c" for r c
    by (simp_all add: submit_push_def submit_flag_def)
  let ?s1 = "s\<lparr>coll := submit_push (two_senders i) (coll s), pcs := (pcs s)(i := Pushed)\<rparr>"
  let ?s2 = "?s1\<lparr>coll := submit_flag (two_senders i) (coll ?s1), pcs := (pcs ?s1)(i := Flagged)\<rparr>"
  have "coll_reach two_senders n p ?s1" using assms by (blast intro: coll_reach.Step coll_step.Push)
  then have "coll_reach two_senders n p ?s2" by (rule coll_reach.Step) (rule coll_step.Flag, simp_all add: keep assms)
  then have "coll_reach two_senders n p (?s2\<lparr>coll := submit_count (coll ?s2), pcs := (pcs ?s2)(i := Done)\<rparr>)"
    by (rule coll_reach.Step) (rule coll_step.Count, simp_all add: keep assms)
  then show ?thesis by (simp add: sender_steps_def submit_def)
qed

text \<open>The state after both senders of the example have submitted, with the caller at a given point.\<close>

definition both_submitted :: "poller \<Rightarrow> coll_state" where
  "both_submitted p = \<lparr>coll = \<lparr>results = [two_senders 0, two_senders 1], success_flag = True, landed_failed_flag = True,
       completed_count = 2, total_tasks = 2\<rparr>, pcs = (\<lambda>i. Pending)(0 := Done, 1 := Done), poll = p\<rparr>"

lemma both_submitted_eq: "(sender_steps 1 (sender_steps 0 (coll_start 2 q)))\<lparr>poll := p\<rparr> = both_submitted p"
  by (simp add: sender_steps_def coll_start_def collector_new_def submit_def submit_push_def submit_flag_def submit_count_def
      both_submitted_def two_senders_def)

lemma sender_steps_poll: "sender_steps i (s\<lparr>poll := p\<rparr>) = (sender_steps i s)\<lparr>poll := p\<rparr>"
  by (simp add: sender_steps_def)

lemma reach_both:
  assumes "coll_reach two_senders 2 q ((coll_start 2 q)\<lparr>poll := p\<rparr>)"
  shows "coll_reach two_senders 2 q (both_submitted p)"
proof -
  have "coll_reach two_senders 2 q (sender_steps 0 ((coll_start 2 q)\<lparr>poll := p\<rparr>))"
    using assms by (rule coll_reach_submit) (simp_all add: coll_start_def collector_new_def)
  then have "coll_reach two_senders 2 q (sender_steps 1 (sender_steps 0 ((coll_start 2 q)\<lparr>poll := p\<rparr>)))"
    by (rule coll_reach_submit)
       (simp_all add: coll_start_def collector_new_def sender_steps_def submit_def submit_push_def submit_flag_def submit_count_def)
  then show ?thesis by (simp only: sender_steps_poll both_submitted_eq)
qed

lemma coll_start_poll: "(coll_start n p)\<lparr>poll := p\<rparr> = coll_start n p"
  by (simp add: coll_start_def)

text \<open>A drain of the two results takes two pops and the test of the empty queue.\<close>

lemma drain_both:
  assumes "coll_reach two_senders 2 q (both_submitted p)" and "draining p"
  shows "\<exists>s. coll_reach two_senders 2 q s \<and> poll s = drained (pop_into (two_senders 1) (pop_into (two_senders 0) p))"
proof -
  have d: "draining (pop_into r x) = draining x" for r x by (cases x) simp_all
  let ?s1 = "(both_submitted p)\<lparr>coll := (coll (both_submitted p))\<lparr>results := [two_senders 1]\<rparr>, poll := pop_into (two_senders 0) p\<rparr>"
  let ?s2 = "?s1\<lparr>coll := (coll ?s1)\<lparr>results := []\<rparr>, poll := pop_into (two_senders 1) (poll ?s1)\<rparr>"
  have "coll_step two_senders (both_submitted p) ?s1"
    using coll_step.Pop [of "both_submitted p" "two_senders 0" "[two_senders 1]" two_senders] assms(2) by (simp add: both_submitted_def)
  then have "coll_reach two_senders 2 q ?s1" using assms(1) by (blast intro: coll_reach.Step)
  moreover have "coll_step two_senders ?s1 ?s2"
    using coll_step.Pop [of ?s1 "two_senders 1" "[]" two_senders] assms(2) by (simp add: d)
  ultimately have "coll_reach two_senders 2 q ?s2" by (blast intro: coll_reach.Step)
  moreover have "coll_step two_senders ?s2 (?s2\<lparr>poll := drained (poll ?s2)\<rparr>)"
    using assms(2) by (intro coll_step.PopNone) (simp_all add: d)
  ultimately have "coll_reach two_senders 2 q (?s2\<lparr>poll := drained (poll ?s2)\<rparr>)" by (rule coll_reach.Step)
  then show ?thesis by (rule exI [where x = "?s2\<lparr>poll := drained (poll ?s2)\<rparr>", OF conjI]) simp
qed

theorem all_submitted_answer_witness:
  "\<exists>s ans. coll_reach two_senders 2 AllWait s \<and> poll s = Returned True ans
     \<and> (\<exists>sigs e ts. ans = Some (\<exists>i < 2. success (two_senders i), sigs, e, ts)
          \<and> mset sigs = image_mset (\<lambda>i. signature (two_senders i)) (mset_set {..<2}))"
proof -
  have "coll_reach two_senders 2 AllWait (both_submitted AllWait)"
    using reach_both [of AllWait AllWait] coll_reach.Start by (simp add: coll_start_poll)
  moreover have "coll_step two_senders (both_submitted AllWait) (both_submitted (AllDrain True []))"
    using coll_step.AllDone [of "both_submitted AllWait" two_senders] by (simp add: both_submitted_def)
  ultimately have "coll_reach two_senders 2 AllWait (both_submitted (AllDrain True []))" by (rule coll_reach.Step)
  then obtain s where s: "coll_reach two_senders 2 AllWait s" "poll s = Returned True (all_answer [two_senders 0, two_senders 1])"
    using drain_both by fastforce
  have two: "(0 :: nat) < 2" by simp
  show ?thesis using s all_submitted_answer [OF s two] by blast
qed

text \<open>
  \<open>wait_for_success\<close> tests the success flag before it tests the landed-and-failed flag. When one sender succeeds and
  another lands and fails between the two tests, it drains the success with the failure and reports that the batch
  failed, although the signature of the sender that succeeded is among those it returns.
\<close>

theorem wait_for_success_race:
  "\<exists>s e ts. coll_reach two_senders 2 SuccessTest s \<and> poll s = Returned False (Some (False, [100, 101], e, ts))
     \<and> success (two_senders 0) \<and> signature (two_senders 0) = 100"
proof -
  have "coll_reach two_senders 2 SuccessTest ((coll_start 2 SuccessTest)\<lparr>poll := LandedTest\<rparr>)"
    using coll_reach.Step [OF coll_reach.Start coll_step.SuccessTest [of "coll_start 2 SuccessTest"]]
    by (simp add: coll_start_def collector_new_def)
  then have "coll_reach two_senders 2 SuccessTest (both_submitted LandedTest)" by (rule reach_both)
  moreover have "coll_step two_senders (both_submitted LandedTest) (both_submitted (LandedDrain []))"
    using coll_step.LandedTest [of "both_submitted LandedTest" two_senders] by (simp add: both_submitted_def)
  ultimately have "coll_reach two_senders 2 SuccessTest (both_submitted (LandedDrain []))" by (rule coll_reach.Step)
  then obtain s where "coll_reach two_senders 2 SuccessTest s"
    "poll s = drained (LandedDrain [two_senders 0, two_senders 1])"
    using drain_both by fastforce
  then show ?thesis by (auto simp: landed_answer_def two_senders_def)
qed

end
