(* ===== verification/WorkerPool.thy ===== *)
theory WorkerPool
  imports Prelude "HOL-Library.Multiset"
begin

text \<open>
  The sender pool of \<open>trading/core/async_executor.rs\<close>: a bounded queue of jobs, a fixed set of workers started once per
  process, and a \<open>Notify\<close> that wakes the workers that are waiting on it. A worker (\<open>swqos_worker_loop\<close>) pops a job and
  runs it, or, when the queue is empty, waits to be notified. The pop and the registration of the wait are two separate
  steps, and \<open>notify_waiters\<close> stores no permit: a worker between the two does not hear it. A job that panics ends the
  task of its worker, which nobody restarts.
\<close>

section \<open>The pool\<close>

definition SWQOS_POOL_WORKERS :: nat where "SWQOS_POOL_WORKERS = 18"
definition SWQOS_QUEUE_CAP :: nat where "SWQOS_QUEUE_CAP = 128"
definition SWQOS_DEDICATED_DEFAULT_THREADS :: nat where "SWQOS_DEDICATED_DEFAULT_THREADS = 18"

datatype 'j worker = Popping | SawEmpty | Parked | Running 'j | Dead

record 'j pool =
  jobs :: "'j list"
  workers :: "'j worker list"
  finished :: "'j list"
  crashed :: "'j list"

text \<open>How many workers the first call starts; the dedicated pool counts the cores it was given, and is capped at 32.\<close>

definition shared_pool_size :: "nat \<Rightarrow> nat" where
  "shared_pool_size max_sender_concurrency = max (min SWQOS_POOL_WORKERS max_sender_concurrency) 1"

definition dedicated_pool_size :: "nat option \<Rightarrow> nat \<Rightarrow> nat" where
  "dedicated_pool_size cores max_sender_concurrency =
     max (min (case cores of Some n \<Rightarrow> min n max_sender_concurrency
                           | None \<Rightarrow> min SWQOS_DEDICATED_DEFAULT_THREADS max_sender_concurrency) 32) 1"

definition pool_start :: "nat \<Rightarrow> 'j pool" where
  "pool_start n = \<lparr>jobs = [], workers = replicate n Popping, finished = [], crashed = []\<rparr>"

text \<open>\<open>let _ = queue.push(job)\<close>: a job that finds the queue full is dropped.\<close>

definition push_job :: "'j \<Rightarrow> 'j pool \<Rightarrow> 'j pool" where
  "push_job j s = (if length (jobs s) < SWQOS_QUEUE_CAP then s\<lparr>jobs := jobs s @ [j]\<rparr> else s)"

definition push_jobs :: "'j list \<Rightarrow> 'j pool \<Rightarrow> 'j pool" where
  "push_jobs js s = fold push_job js s"

fun wake :: "'j worker \<Rightarrow> 'j worker" where
  "wake Parked = Popping"
| "wake w = w"

definition notify_waiters :: "'j pool \<Rightarrow> 'j pool" where
  "notify_waiters s = s\<lparr>workers := map wake (workers s)\<rparr>"

text \<open>One atomic step of worker \<open>i\<close>; \<open>panics j\<close> says that running job \<open>j\<close> panics.\<close>

inductive worker_step :: "('j \<Rightarrow> bool) \<Rightarrow> 'j pool \<Rightarrow> 'j pool \<Rightarrow> bool" for panics where
  PopJob: "i < length (workers s) \<Longrightarrow> workers s ! i = Popping \<Longrightarrow> jobs s = j # js \<Longrightarrow>
     worker_step panics s (s\<lparr>jobs := js, workers := (workers s)[i := Running j]\<rparr>)"
| PopNone: "i < length (workers s) \<Longrightarrow> workers s ! i = Popping \<Longrightarrow> jobs s = [] \<Longrightarrow>
     worker_step panics s (s\<lparr>workers := (workers s)[i := SawEmpty]\<rparr>)"
| Park: "i < length (workers s) \<Longrightarrow> workers s ! i = SawEmpty \<Longrightarrow>
     worker_step panics s (s\<lparr>workers := (workers s)[i := Parked]\<rparr>)"
| Finish: "i < length (workers s) \<Longrightarrow> workers s ! i = Running j \<Longrightarrow> \<not> panics j \<Longrightarrow>
     worker_step panics s (s\<lparr>workers := (workers s)[i := Popping], finished := finished s @ [j]\<rparr>)"
| Crash: "i < length (workers s) \<Longrightarrow> workers s ! i = Running j \<Longrightarrow> panics j \<Longrightarrow>
     worker_step panics s (s\<lparr>workers := (workers s)[i := Dead], crashed := crashed s @ [j]\<rparr>)"

inductive_cases worker_stepE: "worker_step panics s s'"

section \<open>Accounting for jobs\<close>

fun running_job :: "'j worker \<Rightarrow> 'j multiset" where
  "running_job (Running j) = {#j#}"
| "running_job w = {#}"

definition running :: "'j pool \<Rightarrow> 'j multiset" where
  "running s = (\<Sum>w\<leftarrow>workers s. running_job w)"

definition held :: "'j pool \<Rightarrow> 'j multiset" where
  "held s = mset (jobs s) + running s + mset (finished s) + mset (crashed s)"

lemma sum_list_update_mset:
  fixes f :: "'a \<Rightarrow> 'b multiset"
  shows "i < length xs \<Longrightarrow> (\<Sum>x\<leftarrow>xs[i := v]. f x) + f (xs ! i) = (\<Sum>x\<leftarrow>xs. f x) + f v"
  by (induction xs arbitrary: i) (auto split: nat.splits simp: ac_simps)

lemma sum_list_member_mset:
  fixes f :: "'a \<Rightarrow> 'b multiset"
  shows "i < length xs \<Longrightarrow> f (xs ! i) \<subseteq># (\<Sum>x\<leftarrow>xs. f x)"
  by (induction xs arbitrary: i) (auto split: nat.splits simp: less_Suc_eq_0_disj subset_mset.add_increasing)

lemma sum_list_update_nat:
  fixes f :: "'a \<Rightarrow> nat"
  shows "i < length xs \<Longrightarrow> (\<Sum>x\<leftarrow>xs[i := v]. f x) + f (xs ! i) = (\<Sum>x\<leftarrow>xs. f x) + f v"
  by (induction xs arbitrary: i) (auto split: nat.splits)

text \<open>No worker step loses a job or runs one twice.\<close>

lemma worker_step_held:
  assumes "worker_step panics s s'"
  shows "held s' = held s"
  using assms
proof cases
  case (PopJob i j js)
  then show ?thesis using sum_list_update_mset [of i "workers s" running_job "Running j"] by (simp add: held_def running_def)
next
  case (PopNone i)
  then show ?thesis using sum_list_update_mset [of i "workers s" running_job SawEmpty] by (simp add: held_def running_def)
next
  case (Park i)
  then show ?thesis using sum_list_update_mset [of i "workers s" running_job Parked] by (simp add: held_def running_def)
next
  case (Finish i j)
  then show ?thesis using sum_list_update_mset [of i "workers s" running_job Popping] by (simp add: held_def running_def)
next
  case (Crash i j)
  then show ?thesis using sum_list_update_mset [of i "workers s" running_job Dead] by (simp add: held_def running_def)
qed

lemma push_jobs_room:
  "length (jobs s) + length js \<le> SWQOS_QUEUE_CAP \<Longrightarrow> push_jobs js s = s\<lparr>jobs := jobs s @ js\<rparr>"
  by (induction js arbitrary: s) (simp_all add: push_jobs_def push_job_def)

lemma push_jobs_bound: "length (jobs s) \<le> SWQOS_QUEUE_CAP \<Longrightarrow> length (jobs (push_jobs js s)) \<le> SWQOS_QUEUE_CAP"
  by (induction js arbitrary: s) (simp_all add: push_jobs_def push_job_def)

lemma running_wake [simp]: "running (notify_waiters s) = running s"
proof -
  have "running_job (wake w) = running_job w" for w :: "'a worker" by (cases w) simp_all
  then show ?thesis by (simp add: running_def notify_waiters_def comp_def)
qed

section \<open>Draining\<close>

text \<open>A bound on the steps the workers can still take without new jobs.\<close>

fun worker_weight :: "'j worker \<Rightarrow> nat" where
  "worker_weight (Running j) = 3"
| "worker_weight Popping = 2"
| "worker_weight SawEmpty = 1"
| "worker_weight w = 0"

definition pool_work :: "'j pool \<Rightarrow> nat" where
  "pool_work s = 4 * length (jobs s) + (\<Sum>w\<leftarrow>workers s. worker_weight w)"

lemma worker_step_work:
  assumes "worker_step panics s s'"
  shows "pool_work s' < pool_work s"
  using assms
proof cases
  case (PopJob i j js)
  then show ?thesis using sum_list_update_nat [of i "workers s" worker_weight "Running j"] by (simp add: pool_work_def)
next
  case (PopNone i)
  then show ?thesis using sum_list_update_nat [of i "workers s" worker_weight SawEmpty] by (simp add: pool_work_def)
next
  case (Park i)
  then show ?thesis using sum_list_update_nat [of i "workers s" worker_weight Parked] by (simp add: pool_work_def)
next
  case (Finish i j)
  then show ?thesis using sum_list_update_nat [of i "workers s" worker_weight Popping] by (simp add: pool_work_def)
next
  case (Crash i j)
  then show ?thesis using sum_list_update_nat [of i "workers s" worker_weight Dead] by (simp add: pool_work_def)
qed

text \<open>A job in the queue will be looked at as long as some worker is popping or running.\<close>

fun awake :: "'j worker \<Rightarrow> bool" where
  "awake Popping = True"
| "awake (Running j) = True"
| "awake w = False"

definition attended :: "'j pool \<Rightarrow> bool" where
  "attended s \<longleftrightarrow> jobs s = [] \<or> (\<exists>w \<in> set (workers s). awake w)"

lemma worker_step_attended:
  assumes "worker_step panics s s'" and "attended s" and "\<And>j. j \<in># held s \<Longrightarrow> \<not> panics j"
  shows "attended s'"
  using assms(1)
proof cases
  case (PopJob i j js)
  then have "Running j \<in> set (workers s')" by (simp add: set_update_memI)
  then show ?thesis by (force simp: attended_def)
next
  case (Park i)
  show ?thesis
  proof (cases "jobs s = []")
    case False
    then obtain k where k: "k < length (workers s)" "awake (workers s ! k)"
      using assms(2) by (auto simp: attended_def in_set_conv_nth)
    then have "workers s' ! k = workers s ! k" "k < length (workers s')" using Park by (auto simp: nth_list_update)
    then show ?thesis using k by (auto simp: attended_def) (metis nth_mem)
  qed (use Park in \<open>simp add: attended_def\<close>)
next
  case (Finish i j)
  then have "Popping \<in> set (workers s')" by (simp add: set_update_memI)
  then show ?thesis by (force simp: attended_def)
next
  case (Crash i j)
  have "running_job (workers s ! i) \<subseteq># running s"
    using Crash(2) unfolding running_def by (rule sum_list_member_mset)
  then have "j \<in># held s" using Crash(3) by (auto simp: held_def)
  then show ?thesis using Crash(4) assms(3) by blast
qed (simp add: attended_def)

text \<open>When no worker can step, every worker is parked or dead.\<close>

lemma stuck_workers:
  assumes "\<nexists>s'. worker_step panics s s'" and "w \<in> set (workers s)"
  shows "w = Parked \<or> w = Dead"
proof -
  obtain i where i: "i < length (workers s)" "workers s ! i = w" using assms(2) by (auto simp: in_set_conv_nth)
  show ?thesis
  proof (cases w)
    case Popping
    then show ?thesis using assms(1) i by (cases "jobs s") (blast intro: worker_step.PopJob worker_step.PopNone)+
  next
    case SawEmpty
    then show ?thesis using assms(1) i by (blast intro: worker_step.Park)
  next
    case (Running j)
    then show ?thesis using assms(1) i by (cases "panics j") (blast intro: worker_step.Finish worker_step.Crash)+
  qed simp_all
qed

lemma stuck_running: "\<nexists>s'. worker_step panics s s' \<Longrightarrow> running s = {#}"
proof -
  assume "\<nexists>s'. worker_step panics s s'"
  then have "running_job w = {#}" if "w \<in> set (workers s)" for w using stuck_workers that by fastforce
  then have "map running_job (workers s) = map (\<lambda>w. {#}) (workers s)" by (intro map_cong) simp_all
  then show ?thesis unfolding running_def by (simp only: sum_list_0)
qed

lemma worker_run:
  assumes "(worker_step panics ^^ k) s t" and "attended s" and "\<And>j. j \<in># held s \<Longrightarrow> \<not> panics j"
  shows "attended t \<and> held t = held s \<and> crashed t = crashed s \<and> k + pool_work t \<le> pool_work s"
  using assms(1)
proof (induction k arbitrary: t)
  case (Suc k)
  then obtain u where u: "(worker_step panics ^^ k) s u" "worker_step panics u t" by auto
  note IH = Suc.IH [OF u(1)]
  have quiet: "\<And>j. j \<in># held u \<Longrightarrow> \<not> panics j" using IH assms(3) by simp
  have "crashed t = crashed u"
    using u(2)
  proof cases
    case (Crash i j)
    then have "running_job (workers u ! i) \<subseteq># running u" unfolding running_def by (intro sum_list_member_mset)
    then have "j \<in># held u" using Crash(3) by (auto simp: held_def)
    then show ?thesis using quiet Crash(4) by blast
  qed simp_all
  then show ?case
    using IH worker_step_attended [OF u(2) _ quiet] worker_step_held [OF u(2)] worker_step_work [OF u(2)] by simp
qed (use assms in simp)

section \<open>Properties\<close>


text \<open>One worker, parked; two jobs come in.\<close>

definition parked_pool :: "nat pool" where
  "parked_pool = \<lparr>jobs = [], workers = [Parked], finished = [], crashed = []\<rparr>"


text \<open>
  The wake-up can be lost. A worker that has found the queue empty and has not yet registered with \<open>Notify\<close> misses
  the notification of a batch pushed in between: it parks with the job in the queue, no worker can take a step, and the
  job waits until some later batch notifies again.
\<close>

theorem lost_wakeup:
  "\<exists>s t. worker_step panics (pool_start 1) s \<and> worker_step panics (notify_waiters (push_jobs [j] s)) t
     \<and> jobs t = [j] \<and> finished t = [] \<and> (\<nexists>u. worker_step panics t u)"
proof -
  let ?s = "\<lparr>jobs = [], workers = [SawEmpty], finished = [], crashed = []\<rparr>"
  let ?t = "\<lparr>jobs = [j], workers = [Parked], finished = [], crashed = []\<rparr>"
  have "worker_step panics (pool_start 1) ?s"
    using worker_step.PopNone [of 0 "pool_start 1"] by (simp add: pool_start_def)
  moreover have "worker_step panics (notify_waiters (push_jobs [j] ?s)) ?t"
    using worker_step.Park [of 0 "notify_waiters (push_jobs [j] ?s)"]
    by (simp add: notify_waiters_def push_jobs_def push_job_def SWQOS_QUEUE_CAP_def)
  moreover have "\<not> worker_step panics ?t u" for u by (auto elim!: worker_stepE simp: less_Suc_eq)
  ultimately show ?thesis by fastforce
qed

end
