(* ===== verification/BuilderPumpFun.thy ===== *)
theory BuilderPumpFun
  imports Params
begin

text \<open>
  The PumpFun instruction builder, \<open>sol-trade-sdk/src/instruction/pumpfun.rs\<close>. The caches are threaded; what a failed
  derivation interpolates into its message is left out of the message.
\<close>

section \<open>Accounts\<close>

definition PF_GLOBAL_ACCOUNT_META :: account_meta where
  "PF_GLOBAL_ACCOUNT_META =
     meta_new_readonly 26471554344531384240072589900060185979223650080103482673221288800615659238054 False"

definition PF_EVENT_AUTHORITY_META :: account_meta where
  "PF_EVENT_AUTHORITY_META =
     meta_new_readonly 78223999129032627460485737577763836544654344427451066158734794804030640184420 False"

definition PUMPFUN_META :: account_meta where
  "PUMPFUN_META = meta_new_readonly PUMPFUN False"

definition PF_GLOBAL_VOLUME_ACCUMULATOR_META :: account_meta where
  "PF_GLOBAL_VOLUME_ACCUMULATOR_META =
     meta_new 113094235555102014045539985795630582988656257427595419013987432347505172311597 False"

definition PF_FEE_CONFIG_META :: account_meta where
  "PF_FEE_CONFIG_META =
     meta_new_readonly 50480067401933901134894893254640618949427695387536333789827892425554021422095 False"

definition FEE_PROGRAM_META :: account_meta where
  "FEE_PROGRAM_META = meta_new_readonly FEE_PROGRAM False"

definition token_program_meta :: "pubkey \<Rightarrow> account_meta" where
  "token_program_meta token_program =
     (if token_program = TOKEN_PROGRAM_2022 then meta_new_readonly TOKEN_PROGRAM_2022 False
      else meta_new_readonly TOKEN_PROGRAM False)"

definition BUY_DISCRIMINATOR :: "u8 list" where
  "BUY_DISCRIMINATOR = [102, 6, 61, 18, 1, 218, 235, 234]"

definition BUY_EXACT_SOL_IN_DISCRIMINATOR :: "u8 list" where
  "BUY_EXACT_SOL_IN_DISCRIMINATOR = [56, 252, 116, 8, 158, 223, 205, 95]"

definition SELL_DISCRIMINATOR :: "u8 list" where
  "SELL_DISCRIMINATOR = [51, 230, 133, 164, 1, 127, 131, 173]"

definition CLAIM_CASHBACK_DISCRIMINATOR :: "u8 list" where
  "CLAIM_CASHBACK_DISCRIMINATOR = [37, 58, 35, 126, 190, 53, 228, 197]"

definition EXTEND_ACCOUNT_DISCRIMINATOR :: "u8 list" where
  "EXTEND_ACCOUNT_DISCRIMINATOR = [234, 102, 194, 203, 150, 72, 62, 229]"

section \<open>The builder\<close>

definition track_volume :: "bool \<Rightarrow> u8 list" where
  "track_volume is_cashback_coin = (if is_cashback_coin then [1, 1] else [1, 0])"

definition pumpfun_build_buy_instructions :: "chain_ext \<Rightarrow> profile \<Rightarrow> swap_params \<Rightarrow> (caches, instruction list) prog" where
  "pumpfun_build_buy_instructions ext p params =
     (case sp_protocol_params params of
        DexPumpFun protocol_params \<Rightarrow>
          if unwrap_or (sp_input_amount params) 0 = 0 then fail ''Amount cannot be zero''
          else
            let bonding_curve = pf_bonding_curve protocol_params;
                creator = bc_creator bonding_curve;
                input_amount = unwrap_or (sp_input_amount params) 0;
                mint = sp_output_mint params;
                payer = sp_payer params;
                token_program = pf_token_program protocol_params
            in
            then_do (require ''creator_vault PDA derivation failed''
                       (resolve_creator_vault_for_ix ext creator (pf_creator_vault protocol_params) mint)) (\<lambda>creator_vault_pda.
            then_do (case sp_fixed_output_amount params of
                       Some amount \<Rightarrow> ret amount
                     | None \<Rightarrow> of_rust (get_buy_token_amount_from_sol_amount p
                         (as_u128 (bc_virtual_token_reserves bonding_curve)) (as_u128 (bc_virtual_sol_reserves bonding_curve))
                         (as_u128 (bc_real_token_reserves bonding_curve)) creator input_amount)) (\<lambda>buy_token_amount.
            then_do (of_rust (calculate_with_slippage_buy p input_amount (sp_slippage params))) (\<lambda>max_sol_cost.
            then_do (require ''bonding_curve PDA derivation failed'' (get_bonding_curve_pda ext mint)) (\<lambda>bonding_curve_addr.
            then_do (get_associated_token_address_with_program_id_fast ext bonding_curve_addr mint token_program)
              (\<lambda>associated_bonding_curve.
            then_do (get_associated_token_address_with_program_id_fast_use_seed ext payer mint token_program
                       (sp_open_seed_optimize params)) (\<lambda>user_token_account.
            then_do (require ''user_volume_accumulator PDA derivation failed''
                       (pumpfun_get_user_volume_accumulator_pda ext payer)) (\<lambda>user_volume_accumulator.
            then_do (if sp_create_output_mint_ata params
                     then create_associated_token_account_idempotent_fast_use_seed ext payer payer mint token_program
                            (sp_open_seed_optimize params)
                     else ret []) (\<lambda>create_ixs.
            then_do (if unwrap_or (sp_use_exact_sol_amount params) True
                     then then_do (of_rust (calculate_with_slippage_sell p buy_token_amount (sp_slippage params)))
                            (\<lambda>min_tokens_out. ret (BUY_EXACT_SOL_IN_DISCRIMINATOR @ to_le_bytes input_amount
                               @ to_le_bytes min_tokens_out @ track_volume (bc_is_cashback_coin bonding_curve)))
                     else ret (BUY_DISCRIMINATOR @ to_le_bytes buy_token_amount @ to_le_bytes max_sol_cost
                               @ track_volume (bc_is_cashback_coin bonding_curve))) (\<lambda>buy_data.
            then_do (require ''bonding_curve_v2 PDA derivation failed'' (get_bonding_curve_v2_pda ext mint)) (\<lambda>bonding_curve_v2.
            ret (create_ixs @
              [\<lparr>program_id = PUMPFUN,
                accounts = [
                  PF_GLOBAL_ACCOUNT_META,
                  pump_fun_fee_recipient_meta ext (pf_fee_recipient protocol_params) (bc_is_mayhem_mode bonding_curve),
                  meta_new_readonly mint False,
                  meta_new bonding_curve_addr False,
                  meta_new associated_bonding_curve False,
                  meta_new user_token_account False,
                  meta_new payer True,
                  SYSTEM_PROGRAM_META,
                  token_program_meta token_program,
                  meta_new creator_vault_pda False,
                  PF_EVENT_AUTHORITY_META,
                  PUMPFUN_META,
                  PF_GLOBAL_VOLUME_ACCUMULATOR_META,
                  meta_new user_volume_accumulator False,
                  PF_FEE_CONFIG_META,
                  FEE_PROGRAM_META,
                  meta_new_readonly bonding_curve_v2 False],
                data = buy_data\<rparr>])))))))))))
      | _ \<Rightarrow> fail ''Invalid protocol params for PumpFun'')"

definition pumpfun_build_sell_instructions :: "chain_ext \<Rightarrow> profile \<Rightarrow> swap_params \<Rightarrow> (caches, instruction list) prog" where
  "pumpfun_build_sell_instructions ext p params =
     (case sp_protocol_params params of
        DexPumpFun protocol_params \<Rightarrow>
          (case sp_input_amount params of
             None \<Rightarrow> fail ''Amount token is required''
           | Some token_amount \<Rightarrow>
            if token_amount = 0 then fail ''Amount cannot be zero''
            else
            let bonding_curve = pf_bonding_curve protocol_params;
                creator = bc_creator bonding_curve;
                mint = sp_input_mint params;
                payer = sp_payer params;
                token_program = pf_token_program protocol_params
            in
            then_do (require ''creator_vault PDA derivation failed''
                       (resolve_creator_vault_for_ix ext creator (pf_creator_vault protocol_params) mint)) (\<lambda>creator_vault_pda.
            then_do (of_rust (get_sell_sol_amount_from_token_amount p
                       (as_u128 (bc_virtual_token_reserves bonding_curve)) (as_u128 (bc_virtual_sol_reserves bonding_curve))
                       creator token_amount)) (\<lambda>sol_amount.
            then_do (case sp_fixed_output_amount params of
                       Some fixed \<Rightarrow> ret fixed
                     | None \<Rightarrow> of_rust (calculate_with_slippage_sell p sol_amount (sp_slippage params))) (\<lambda>min_sol_output.
            then_do (require ''bonding_curve PDA derivation failed'' (get_bonding_curve_pda ext mint)) (\<lambda>bonding_curve_addr.
            then_do (get_associated_token_address_with_program_id_fast ext bonding_curve_addr mint token_program)
              (\<lambda>associated_bonding_curve.
            then_do (get_associated_token_address_with_program_id_fast_use_seed ext payer mint token_program
                       (sp_open_seed_optimize params)) (\<lambda>user_token_account.
            then_do (if bc_is_cashback_coin bonding_curve
                     then then_do (require ''user_volume_accumulator PDA derivation failed''
                                     (pumpfun_get_user_volume_accumulator_pda ext payer)) (\<lambda>acc. ret [meta_new acc False])
                     else ret []) (\<lambda>cashback_accounts.
            then_do (require ''bonding_curve_v2 PDA derivation failed'' (get_bonding_curve_v2_pda ext mint)) (\<lambda>bonding_curve_v2.
            ret ([\<lparr>program_id = PUMPFUN,
                accounts = [
                  PF_GLOBAL_ACCOUNT_META,
                  pump_fun_fee_recipient_meta ext (pf_fee_recipient protocol_params) (bc_is_mayhem_mode bonding_curve),
                  meta_new_readonly mint False,
                  meta_new bonding_curve_addr False,
                  meta_new associated_bonding_curve False,
                  meta_new user_token_account False,
                  meta_new payer True,
                  SYSTEM_PROGRAM_META,
                  meta_new creator_vault_pda False,
                  token_program_meta token_program,
                  PF_EVENT_AUTHORITY_META,
                  PUMPFUN_META,
                  PF_FEE_CONFIG_META,
                  FEE_PROGRAM_META]
                  @ cashback_accounts @ [meta_new_readonly bonding_curve_v2 False],
                data = SELL_DISCRIMINATOR @ to_le_bytes token_amount @ to_le_bytes min_sol_output\<rparr>]
              @ (if unwrap_or (pf_close_token_account_when_sell protocol_params) False \<or> sp_close_input_mint_ata params
                 then [close_account token_program user_token_account payer payer [payer]] else [])))))))))))
      | _ \<Rightarrow> fail ''Invalid protocol params for PumpFun'')"

definition claim_cashback_pumpfun_instruction :: "chain_ext \<Rightarrow> pubkey \<Rightarrow> (caches, instruction option) prog" where
  "claim_cashback_pumpfun_instruction ext payer =
     then_do (pumpfun_get_user_volume_accumulator_pda ext payer) (\<lambda>acc. ret (map_option (\<lambda>user_volume_accumulator.
       \<lparr>program_id = PUMPFUN,
        accounts = [meta_new payer True, meta_new user_volume_accumulator False, SYSTEM_PROGRAM_META,
                    PF_EVENT_AUTHORITY_META, PUMPFUN_META],
        data = CLAIM_CASHBACK_DISCRIMINATOR\<rparr>) acc))"

definition extend_bonding_curve_account_instruction :: "pubkey \<Rightarrow> pubkey \<Rightarrow> instruction" where
  "extend_bonding_curve_account_instruction bonding_curve user =
     \<lparr>program_id = PUMPFUN,
      accounts = [meta_new bonding_curve False, meta_new user True, SYSTEM_PROGRAM_META, PF_EVENT_AUTHORITY_META, PUMPFUN_META],
      data = EXTEND_ACCOUNT_DISCRIMINATOR\<rparr>"

section \<open>Creator vaults\<close>

lemma returns_fun_cases:
  "returns I (if c then m else m') b \<Longrightarrow> (c \<Longrightarrow> returns I m b \<Longrightarrow> P) \<Longrightarrow> (\<not> c \<Longrightarrow> returns I m' b \<Longrightarrow> P) \<Longrightarrow> P"
  by (auto split: if_splits)

text \<open>What \<open>resolve_creator_vault_for_ix\<close> decides, without the caches.\<close>

definition resolved_vault :: "chain_ext \<Rightarrow> pubkey \<Rightarrow> pubkey \<Rightarrow> pubkey \<Rightarrow> pubkey option" where
  "resolved_vault ext creator event mint =
     (let derived = pda_spec ext (PumpFunCreatorVault creator) in
      if creator = pubkey_default
      then (if event = pubkey_default \<or> event = phantom_default_creator_vault then None else Some event)
      else if event = phantom_default_creator_vault \<or> event = pubkey_default \<or> derived = None then derived
      else if derived = Some event then derived
      else (case get_fee_sharing_config_pda ext mint of
          None \<Rightarrow> derived
        | Some sharing \<Rightarrow> (case pda_spec ext (PumpFunCreatorVault sharing) of
            None \<Rightarrow> None
          | Some v \<Rightarrow> if event = v then Some event else derived)))"

lemma cached_pda_yields': "pda_spec ext k = r \<Longrightarrow> yields (coherent ext r1 r2) (cached_pda ext k) (Ok r)"
  using cached_pda_yields by blast

lemma yields_cached_pda:
  "yields (coherent ext r1 r2) (f (pda_spec ext k)) r \<Longrightarrow> yields (coherent ext r1 r2) (then_do (cached_pda ext k) f) r"
  by (rule yields_then [OF cached_pda_yields])

lemma resolve_yields:
  "yields (coherent ext r1 r2) (resolve_creator_vault_for_ix ext creator event mint) (Ok (resolved_vault ext creator event mint))"
  unfolding resolve_creator_vault_for_ix_def resolved_vault_def pda_getters Let_def
  by (auto intro!: yields_basic yields_cached_pda cached_pda_yields' simp del: pda_spec.simps split: option.split)

lemma resolve_yields':
  "resolved_vault ext creator event mint = r \<Longrightarrow>
     yields (coherent ext r1 r2) (resolve_creator_vault_for_ix ext creator event mint) (Ok r)"
  using resolve_yields by blast

lemma returns_resolve [returns_dest]:
  "returns (coherent ext r1 r2) (then_do (resolve_creator_vault_for_ix ext creator event mint) f) b
     \<Longrightarrow> returns (coherent ext r1 r2) (f (resolved_vault ext creator event mint)) b"
  by (erule returns_then_ok) (rule resolve_yields)


section \<open>What the builder puts on the wire\<close>

lemmas pumpfun_discriminators = BUY_DISCRIMINATOR_def BUY_EXACT_SOL_IN_DISCRIMINATOR_def SELL_DISCRIMINATOR_def

lemma discriminator_lengths [simp]:
  "length BUY_DISCRIMINATOR = 8" "length BUY_EXACT_SOL_IN_DISCRIMINATOR = 8" "length SELL_DISCRIMINATOR = 8"
  "length (track_volume c) = 2"
  by (simp_all add: pumpfun_discriminators track_volume_def)

lemma fixed_metas [simp]:
  "is_signer (pump_fun_fee_recipient_meta ext k m) = False" "is_writable (pump_fun_fee_recipient_meta ext k m)"
  "\<not> is_signer (token_program_meta k)" "\<not> is_signer PF_GLOBAL_ACCOUNT_META" "\<not> is_signer SYSTEM_PROGRAM_META"
  "\<not> is_signer PF_EVENT_AUTHORITY_META" "\<not> is_signer PUMPFUN_META" "\<not> is_signer PF_GLOBAL_VOLUME_ACCUMULATOR_META"
  "\<not> is_signer PF_FEE_CONFIG_META" "\<not> is_signer FEE_PROGRAM_META"
  by (simp_all add: pump_fun_fee_recipient_meta_def get_mayhem_fee_recipient_meta_random_def
      get_standard_fee_recipient_meta_random_def PF_GLOBAL_ACCOUNT_META_def SYSTEM_PROGRAM_META_def PF_EVENT_AUTHORITY_META_def
      PUMPFUN_META_def PF_GLOBAL_VOLUME_ACCUMULATOR_META_def PF_FEE_CONFIG_META_def FEE_PROGRAM_META_def token_program_meta_def)

text \<open>The tokens a buy asks for: the caller's own number, or the quote.\<close>

definition pumpfun_buy_tokens :: "profile \<Rightarrow> swap_params \<Rightarrow> pumpfun_params \<Rightarrow> u64 rust" where
  "pumpfun_buy_tokens p params pp = (case sp_fixed_output_amount params of
     Some amount \<Rightarrow> Some amount
   | None \<Rightarrow> get_buy_token_amount_from_sol_amount p (as_u128 (bc_virtual_token_reserves (pf_bonding_curve pp)))
       (as_u128 (bc_virtual_sol_reserves (pf_bonding_curve pp))) (as_u128 (bc_real_token_reserves (pf_bonding_curve pp)))
       (bc_creator (pf_bonding_curve pp)) (unwrap_or (sp_input_amount params) 0))"

definition pumpfun_sell_lamports :: "profile \<Rightarrow> swap_params \<Rightarrow> pumpfun_params \<Rightarrow> u64 \<Rightarrow> u64 rust" where
  "pumpfun_sell_lamports p params pp amount = do {
     sol \<leftarrow> get_sell_sol_amount_from_token_amount p (as_u128 (bc_virtual_token_reserves (pf_bonding_curve pp)))
       (as_u128 (bc_virtual_sol_reserves (pf_bonding_curve pp))) (bc_creator (pf_bonding_curve pp)) amount;
     case sp_fixed_output_amount params of
       Some fixed \<Rightarrow> Some fixed
     | None \<Rightarrow> calculate_with_slippage_sell p sol (sp_slippage params)
   }"

definition pumpfun_buy_wire :: "chain_ext \<Rightarrow> profile \<Rightarrow> swap_params \<Rightarrow> pumpfun_params \<Rightarrow> instruction \<Rightarrow> bool" where
  "pumpfun_buy_wire ext p params pp ix \<longleftrightarrow>
     program_id ix = PUMPFUN \<and> length (accounts ix) = 17
     \<and> sole_signer (sp_payer params) ix
     \<and> pda_spec ext (PumpFunBondingCurve (sp_output_mint params)) = Some (meta_pubkey (accounts ix ! 3))
     \<and> ata_spec ext (sp_payer params, sp_output_mint params, pf_token_program pp, sp_open_seed_optimize params)
         = Ok (meta_pubkey (accounts ix ! 5))
     \<and> resolved_vault ext (bc_creator (pf_bonding_curve pp)) (pf_creator_vault pp) (sp_output_mint params)
         = Some (meta_pubkey (accounts ix ! 9))
     \<and> pda_spec ext (PumpFunBondingCurveV2 (sp_output_mint params)) = Some (meta_pubkey (last (accounts ix)))
     \<and> length (data ix) = 26
     \<and> sp_input_amount params \<noteq> None
     \<and> (\<exists>tokens. pumpfun_buy_tokens p params pp = Some tokens
         \<and> (if unwrap_or (sp_use_exact_sol_amount params) True
            then take 8 (data ix) = BUY_EXACT_SOL_IN_DISCRIMINATOR
              \<and> u64_field (data ix) 8 = unat (unwrap_or (sp_input_amount params) 0)
              \<and> map_option unat (calculate_with_slippage_sell p tokens (sp_slippage params)) = Some (u64_field (data ix) 16)
            else take 8 (data ix) = BUY_DISCRIMINATOR
              \<and> u64_field (data ix) 8 = unat tokens
              \<and> map_option unat (calculate_with_slippage_buy p (unwrap_or (sp_input_amount params) 0) (sp_slippage params))
                  = Some (u64_field (data ix) 16)))"

lemma pumpfun_buy_returns:
  assumes "returns (coherent ext r1 r2) (pumpfun_build_buy_instructions ext p params) ixs"
  shows "\<exists>pp. sp_protocol_params params = DexPumpFun pp \<and> pumpfun_buy_wire ext p params pp (last ixs)"
proof -
  obtain pp where pp: "sp_protocol_params params = DexPumpFun pp"
    using assms by (cases "sp_protocol_params params") (auto simp: pumpfun_build_buy_instructions_def)
  have input: "sp_input_amount params \<noteq> None"
    using assms by (cases "sp_input_amount params") (auto simp: pumpfun_build_buy_instructions_def pp)
  have "pumpfun_buy_wire ext p params pp (last ixs)"
    using assms input
    unfolding pumpfun_build_buy_instructions_def pp dex_param_enum.case Let_def then_do_push pda_getters
    by (auto simp: pumpfun_buy_wire_def pumpfun_buy_tokens_def sole_signer_def u64_field_first u64_field_second then_do_push
        simp del: pda_spec.simps ata_spec.simps ix_spec.simps
        dest!: returns_dest split: if_splits option.splits)
  then show ?thesis using pp by blast
qed

definition pumpfun_sell_wire :: "chain_ext \<Rightarrow> profile \<Rightarrow> swap_params \<Rightarrow> pumpfun_params \<Rightarrow> u64 \<Rightarrow> instruction \<Rightarrow> bool" where
  "pumpfun_sell_wire ext p params pp amount ix \<longleftrightarrow>
     program_id ix = PUMPFUN
     \<and> length (accounts ix) = (if bc_is_cashback_coin (pf_bonding_curve pp) then 16 else 15)
     \<and> sole_signer (sp_payer params) ix
     \<and> pda_spec ext (PumpFunBondingCurve (sp_input_mint params)) = Some (meta_pubkey (accounts ix ! 3))
     \<and> ata_spec ext (sp_payer params, sp_input_mint params, pf_token_program pp, sp_open_seed_optimize params)
         = Ok (meta_pubkey (accounts ix ! 5))
     \<and> resolved_vault ext (bc_creator (pf_bonding_curve pp)) (pf_creator_vault pp) (sp_input_mint params)
         = Some (meta_pubkey (accounts ix ! 8))
     \<and> pda_spec ext (PumpFunBondingCurveV2 (sp_input_mint params)) = Some (meta_pubkey (last (accounts ix)))
     \<and> length (data ix) = 24 \<and> take 8 (data ix) = SELL_DISCRIMINATOR
     \<and> u64_field (data ix) 8 = unat amount
     \<and> map_option unat (pumpfun_sell_lamports p params pp amount) = Some (u64_field (data ix) 16)"

lemma pumpfun_sell_returns:
  assumes "returns (coherent ext r1 r2) (pumpfun_build_sell_instructions ext p params) ixs"
  shows "\<exists>pp amount. sp_protocol_params params = DexPumpFun pp \<and> sp_input_amount params = Some amount \<and> amount \<noteq> 0
    \<and> pumpfun_sell_wire ext p params pp amount (hd ixs)
    \<and> tl ixs = (if unwrap_or (pf_close_token_account_when_sell pp) False \<or> sp_close_input_mint_ata params
        then [close_account (pf_token_program pp) (meta_pubkey (accounts (hd ixs) ! 5)) (sp_payer params) (sp_payer params)
                [sp_payer params]] else [])"
proof -
  obtain pp where pp: "sp_protocol_params params = DexPumpFun pp"
    using assms by (cases "sp_protocol_params params") (auto simp: pumpfun_build_sell_instructions_def)
  obtain amount where amount: "sp_input_amount params = Some amount" "amount \<noteq> 0"
    using assms by (cases "sp_input_amount params") (auto simp: pumpfun_build_sell_instructions_def pp split: if_splits)
  have "pumpfun_sell_wire ext p params pp amount (hd ixs)
    \<and> tl ixs = (if unwrap_or (pf_close_token_account_when_sell pp) False \<or> sp_close_input_mint_ata params
        then [close_account (pf_token_program pp) (meta_pubkey (accounts (hd ixs) ! 5)) (sp_payer params) (sp_payer params)
                [sp_payer params]] else [])"
    using assms
    unfolding pumpfun_build_sell_instructions_def pp amount(1) dex_param_enum.case option.case Let_def then_do_push pda_getters
      if_not_P [OF amount(2)]
    by (auto simp: pumpfun_sell_wire_def pumpfun_sell_lamports_def sole_signer_def u64_field_first
        u64_field_second [where rest = "[]", simplified]
        simp del: pda_spec.simps ata_spec.simps ix_spec.simps
        dest!: returns_dest split: if_split_asm option.split_asm)
  then show ?thesis using pp amount by blast
qed

section \<open>A sample request\<close>

definition sample_pumpfun :: pumpfun_params where
  "sample_pumpfun = (pumpfun_immediate_sell 77 TOKEN_PROGRAM True)\<lparr>pf_bonding_curve := sample_curve\<rparr>"

definition sample_request :: "dex_param_enum \<Rightarrow> swap_params" where
  "sample_request pp = \<lparr>sp_payer = 7, sp_trade_type = Buy, sp_input_mint = 9, sp_input_token_program = None,
     sp_output_mint = 9, sp_output_token_program = None, sp_input_amount = Some 1000, sp_slippage_basis_points = Some 500,
     sp_address_lookup_table_account = None, sp_recent_blockhash = Some 3, sp_wait_tx_confirmed = False,
     sp_protocol_params = pp, sp_open_seed_optimize = False, sp_swqos_clients = [], sp_middleware_manager = None,
     sp_durable_nonce = None, sp_with_tip = False, sp_create_input_mint_ata = False, sp_close_input_mint_ata = False,
     sp_create_output_mint_ata = False, sp_close_output_mint_ata = False, sp_fixed_output_amount = Some 2000,
     sp_gas_fee_strategy = gas_new, sp_simulate = False, sp_check_min_tip = False, sp_use_exact_sol_amount = None\<rparr>"

lemma sample_pdas:
  "\<exists>v. pda_spec sample_ext (PumpFunBondingCurve m) = Some v" "\<exists>v. pda_spec sample_ext (PumpFunBondingCurveV2 m) = Some v"
  "\<exists>v. pda_spec sample_ext (PumpFunUserVolume m) = Some v" "\<exists>v. pda_spec sample_ext (PumpFunCreatorVault m) = Some v"
  "\<exists>v. pda_spec sample_ext (PumpSwapUserVolume m) = Some v"
  by (simp_all add: try_pda_def sample_ext_def)

lemma sample_vault: "\<exists>v. resolved_vault sample_ext c e m = Some v" if "c \<noteq> pubkey_default"
proof -
  have some: "pda_spec sample_ext (PumpFunCreatorVault k) \<noteq> None" for k
    using sample_pdas(4) [of k] by (auto simp del: pda_spec.simps)
  show ?thesis
    using that some [of c] some [of "the (get_fee_sharing_config_pda sample_ext m)"]
    by (auto simp: resolved_vault_def Let_def simp del: pda_spec.simps split: option.split)
qed

lemma sample_slippage:
  "\<exists>v. calculate_with_slippage_buy Checked 1000 500 = Some v" "\<exists>v. calculate_with_slippage_sell Checked 2000 500 = Some v"
  by (auto simp: slippage_buy_eval slippage_sell_eval slip_def)

lemma sample_sell_quote:
  "\<exists>q. get_sell_sol_amount_from_token_amount Checked (as_u128 INITIAL_VIRTUAL_TOKEN_RESERVES)
      (as_u128 INITIAL_VIRTUAL_SOL_RESERVES) 9 1000 = Some q"
  by (simp add: get_sell_sol_amount_from_token_amount_def pumpfun_const_defs total_fee_basis_points_def pubkey_default_def Let_def
      checked_mul_def checked_add_def checked_div_def add_w_def sub_w_def mul_w_def div_w_def compute_fee_def ceil_div_def)

lemmas yields_run = yields_basic yields_require [OF cached_pda_yields'] yields_require [OF resolve_yields']
  yields_cached_pda yields_then [OF ata_plain_yields] yields_then_rust yields_then

lemma sample_seed:
  "yields (coherent sample_ext 5 6) (get_associated_token_address_with_program_id_fast_use_seed sample_ext w m p False)
     (Ok (get_associated_token_address_with_program_id sample_ext w m p))"
  using ata_fast_yields(2) [of sample_ext 5 6 w m p False] by (simp add: seed_account_def)

lemma sample_buy_runs:
  "\<exists>ixs. yields (coherent sample_ext 5 6) (pumpfun_build_buy_instructions sample_ext Checked (sample_request (DexPumpFun sample_pumpfun))) (Ok ixs)"
proof -
  obtain v1 where v1: "pda_spec sample_ext (PumpFunBondingCurve 9) = Some v1" using sample_pdas(1) by blast
  obtain v2 where v2: "pda_spec sample_ext (PumpFunBondingCurveV2 9) = Some v2" using sample_pdas(2) by blast
  obtain v3 where v3: "pda_spec sample_ext (PumpFunUserVolume 7) = Some v3" using sample_pdas(3) by blast
  obtain v4 where v4: "resolved_vault sample_ext 9 77 9 = Some v4" using sample_vault [of 9 77 9] by (auto simp: pubkey_default_def)
  obtain b where b: "calculate_with_slippage_buy Checked 1000 500 = Some b" using sample_slippage(1) by blast
  obtain s where s: "calculate_with_slippage_sell Checked 2000 500 = Some s" using sample_slippage(2) by blast
  note facts = v1 v2 v3 v4 b s
  show ?thesis
    unfolding pumpfun_build_buy_instructions_def Let_def pda_getters
    by (simp add: sample_request_def sample_pumpfun_def sample_curve_def pumpfun_immediate_sell_def facts del: pda_spec.simps prog_simps)
       (rule exI, (rule yields_run yields_then [OF sample_seed] refl facts)+)
qed

lemma sample_sell_runs:
  "\<exists>ixs. yields (coherent sample_ext 5 6) (pumpfun_build_sell_instructions sample_ext Checked (sample_request (DexPumpFun sample_pumpfun))) (Ok ixs)"
proof -
  obtain v1 where v1: "pda_spec sample_ext (PumpFunBondingCurve 9) = Some v1" using sample_pdas(1) by blast
  obtain v2 where v2: "pda_spec sample_ext (PumpFunBondingCurveV2 9) = Some v2" using sample_pdas(2) by blast
  obtain v4 where v4: "resolved_vault sample_ext 9 77 9 = Some v4" using sample_vault [of 9 77 9] by (auto simp: pubkey_default_def)
  obtain q where q: "get_sell_sol_amount_from_token_amount Checked (as_u128 INITIAL_VIRTUAL_TOKEN_RESERVES)
      (as_u128 INITIAL_VIRTUAL_SOL_RESERVES) 9 1000 = Some q"
    using sample_sell_quote by blast
  note facts = v1 v2 v4 q
  show ?thesis
    unfolding pumpfun_build_sell_instructions_def Let_def pda_getters
    by (simp add: sample_request_def sample_pumpfun_def sample_curve_def pumpfun_immediate_sell_def facts del: pda_spec.simps prog_simps)
       (rule exI, (rule yields_run yields_then [OF sample_seed] refl facts)+)
qed

section \<open>Properties\<close>

lemma resolve_transparent [transparent_intro]: "transparent (coherent ext r1 r2) (resolve_creator_vault_for_ix ext c e m)"
  by (rule transparentI [OF resolve_yields])

lemma pumpfun_buy_transparent: "transparent (coherent ext r1 r2) (pumpfun_build_buy_instructions ext p params)"
  unfolding pumpfun_build_buy_instructions_def Let_def pda_getters
  by (cases "sp_protocol_params params") (simp, intro transparent_intro | simp add: transparent_intro)+

lemma pumpfun_sell_transparent: "transparent (coherent ext r1 r2) (pumpfun_build_sell_instructions ext p params)"
  unfolding pumpfun_build_sell_instructions_def Let_def pda_getters
  by (cases "sp_protocol_params params") (simp, intro transparent_intro | simp add: transparent_intro)+

text \<open>
  Whatever the process-wide caches hold, as long as they hold what was put there for these rents, the PumpFun builder
  returns the same instructions (or the same error) from them as from any other such caches, and leaves such caches behind.
\<close>

theorem pumpfun_builder_ignores_caches:
  assumes "coherent ext r1 r2 s" and "coherent ext r1 r2 s'"
  shows "fst (pumpfun_build_buy_instructions ext p params s) = fst (pumpfun_build_buy_instructions ext p params s')
    \<and> fst (pumpfun_build_sell_instructions ext p params s) = fst (pumpfun_build_sell_instructions ext p params s')
    \<and> coherent ext r1 r2 (snd (pumpfun_build_buy_instructions ext p params s))
    \<and> coherent ext r1 r2 (snd (pumpfun_build_sell_instructions ext p params s))"
  using transparent_same [OF pumpfun_buy_transparent assms] transparent_same [OF pumpfun_sell_transparent assms] by blast

theorem pumpfun_builder_ignores_caches_witness:
  "fst (pumpfun_build_buy_instructions sample_ext Checked (sample_request (DexPumpFun sample_pumpfun)) caches_init)
     = fst (pumpfun_build_buy_instructions sample_ext Checked (sample_request (DexPumpFun sample_pumpfun))
         (snd (get_bonding_curve_pda sample_ext 9 caches_init)))"
proof -
  have "coherent sample_ext RENT_UNINITIALIZED RENT_UNINITIALIZED (snd (get_bonding_curve_pda sample_ext 9 caches_init))"
    using cached_pda_yields [of sample_ext RENT_UNINITIALIZED RENT_UNINITIALIZED "PumpFunBondingCurve 9"] coherent_init
    by (auto simp: yields_def pda_getters)
  from pumpfun_builder_ignores_caches [OF coherent_init this] show ?thesis by blast
qed



text \<open>
  C14: a PumpFun buy that is built ends in one instruction of the PumpFun program that only the payer signs, on the curve
  of the traded mint and the payer's own token account for it, with the resolved creator vault; its 26 bytes read back as
  the exact SOL amount and the slippage-reduced token quote, or as the token quote and the slippage-raised SOL amount.
\<close>

theorem pumpfun_buy_on_the_wire:
  assumes "coherent ext r1 r2 s" and "fst (pumpfun_build_buy_instructions ext p params s) = Ok ixs"
  shows "\<exists>pp. sp_protocol_params params = DexPumpFun pp \<and> pumpfun_buy_wire ext p params pp (last ixs)"
  using assms by (intro pumpfun_buy_returns [of ext r1 r2]) (rule returnsI)

theorem pumpfun_buy_on_the_wire_witness:
  "\<exists>ixs. fst (pumpfun_build_buy_instructions sample_ext Checked (sample_request (DexPumpFun sample_pumpfun))
       (caches_init\<lparr>spl_token_rent := 5, spl_token_2022_rent := 6\<rparr>)) = Ok ixs
     \<and> pumpfun_buy_wire sample_ext Checked (sample_request (DexPumpFun sample_pumpfun)) sample_pumpfun (last ixs)"
proof -
  obtain ixs where run: "fst (pumpfun_build_buy_instructions sample_ext Checked (sample_request (DexPumpFun sample_pumpfun))
      (caches_init\<lparr>spl_token_rent := 5, spl_token_2022_rent := 6\<rparr>)) = Ok ixs"
    using sample_buy_runs coherent_rents by (auto simp: yields_def)
  from pumpfun_buy_on_the_wire [OF coherent_rents run] run show ?thesis by (auto simp: sample_request_def)
qed

text \<open>
  C15: a PumpFun sell that is built starts with one instruction of the PumpFun program that only the payer signs, whose 24
  bytes read back as the amount sold and the least lamports accepted; nothing follows it but, when asked for, the closing
  of the very token account it sells from.
\<close>

theorem pumpfun_sell_on_the_wire:
  assumes "coherent ext r1 r2 s" and "fst (pumpfun_build_sell_instructions ext p params s) = Ok ixs"
  shows "\<exists>pp amount. sp_protocol_params params = DexPumpFun pp \<and> sp_input_amount params = Some amount \<and> amount \<noteq> 0
    \<and> pumpfun_sell_wire ext p params pp amount (hd ixs)
    \<and> tl ixs = (if unwrap_or (pf_close_token_account_when_sell pp) False \<or> sp_close_input_mint_ata params
        then [close_account (pf_token_program pp) (meta_pubkey (accounts (hd ixs) ! 5)) (sp_payer params) (sp_payer params)
                [sp_payer params]] else [])"
  using assms by (intro pumpfun_sell_returns [of ext r1 r2]) (rule returnsI)

theorem pumpfun_sell_on_the_wire_witness:
  "\<exists>ixs. fst (pumpfun_build_sell_instructions sample_ext Checked (sample_request (DexPumpFun sample_pumpfun))
       (caches_init\<lparr>spl_token_rent := 5, spl_token_2022_rent := 6\<rparr>)) = Ok ixs
     \<and> pumpfun_sell_wire sample_ext Checked (sample_request (DexPumpFun sample_pumpfun)) sample_pumpfun 1000 (hd ixs)"
proof -
  obtain ixs where run: "fst (pumpfun_build_sell_instructions sample_ext Checked (sample_request (DexPumpFun sample_pumpfun))
      (caches_init\<lparr>spl_token_rent := 5, spl_token_2022_rent := 6\<rparr>)) = Ok ixs"
    using sample_sell_runs coherent_rents by (auto simp: yields_def)
  from pumpfun_sell_on_the_wire [OF coherent_rents run] run show ?thesis by (auto simp: sample_request_def)
qed

end
