(* ===== verification/WsolManager.thy ===== *)
theory WsolManager
  imports Pdas
begin

text \<open>
  Wrapping and unwrapping SOL, \<open>sol-trade-sdk/src/trading/common/wsol_manager.rs\<close>: the instruction lists that fund, create,
  close and drain the wrapped-SOL account of a wallet.
\<close>

section \<open>Operations\<close>

definition sync_native :: "pubkey \<Rightarrow> instruction" where
  "sync_native account = \<lparr>program_id = TOKEN_PROGRAM, accounts = [meta_new account False], data = [17]\<rparr>"

definition handle_wsol :: "chain_ext \<Rightarrow> pubkey \<Rightarrow> u64 \<Rightarrow> (caches, instruction list) prog" where
  "handle_wsol ext payer amount_in =
     then_do (get_associated_token_address_with_program_id_fast ext payer WSOL_TOKEN_ACCOUNT TOKEN_PROGRAM) (\<lambda>wsol_token_account.
     then_do (create_associated_token_account_idempotent_fast ext payer payer WSOL_TOKEN_ACCOUNT TOKEN_PROGRAM) (\<lambda>create_ixs.
     ret (create_ixs @ [ix_transfer ext payer wsol_token_account amount_in, sync_native wsol_token_account])))"

definition close_wsol :: "chain_ext \<Rightarrow> pubkey \<Rightarrow> (caches, instruction list) prog" where
  "close_wsol ext payer =
     then_do (get_associated_token_address_with_program_id_fast ext payer WSOL_TOKEN_ACCOUNT TOKEN_PROGRAM) (\<lambda>wsol_token_account.
     get_cached_instructions (CloseWsolAccount payer wsol_token_account) (close_wsol_compute payer wsol_token_account))"

definition create_wsol_ata :: "chain_ext \<Rightarrow> pubkey \<Rightarrow> (caches, instruction list) prog" where
  "create_wsol_ata ext payer =
     create_associated_token_account_idempotent_fast ext payer payer WSOL_TOKEN_ACCOUNT TOKEN_PROGRAM"

definition wrap_sol_only :: "chain_ext \<Rightarrow> pubkey \<Rightarrow> u64 \<Rightarrow> (caches, instruction list) prog" where
  "wrap_sol_only ext payer amount_in =
     then_do (get_associated_token_address_with_program_id_fast ext payer WSOL_TOKEN_ACCOUNT TOKEN_PROGRAM) (\<lambda>wsol_token_account.
     ret [ix_transfer ext payer wsol_token_account amount_in, sync_native wsol_token_account])"

definition wrap_wsol_to_sol :: "chain_ext \<Rightarrow> pubkey \<Rightarrow> u64 \<Rightarrow> (caches, instruction list) prog" where
  "wrap_wsol_to_sol ext payer amount =
     then_do (create_associated_token_account_use_seed ext payer payer WSOL_TOKEN_ACCOUNT TOKEN_PROGRAM) (\<lambda>seed_account_instructions.
     then_do (of_result (get_associated_token_address_with_program_id_use_seed ext payer WSOL_TOKEN_ACCOUNT TOKEN_PROGRAM))
       (\<lambda>seed_ata_address.
     then_do (get_associated_token_address_with_program_id_fast ext payer WSOL_TOKEN_ACCOUNT TOKEN_PROGRAM) (\<lambda>user_wsol_ata.
     ret (seed_account_instructions
          @ [token_transfer TOKEN_PROGRAM user_wsol_ata seed_ata_address payer amount [],
             close_account TOKEN_PROGRAM seed_ata_address payer payer []]))))"

definition wrap_wsol_to_sol_without_create :: "chain_ext \<Rightarrow> pubkey \<Rightarrow> u64 \<Rightarrow> (caches, instruction list) prog" where
  "wrap_wsol_to_sol_without_create ext payer amount =
     then_do (of_result (get_associated_token_address_with_program_id_use_seed ext payer WSOL_TOKEN_ACCOUNT TOKEN_PROGRAM))
       (\<lambda>seed_ata_address.
     then_do (get_associated_token_address_with_program_id_fast ext payer WSOL_TOKEN_ACCOUNT TOKEN_PROGRAM) (\<lambda>user_wsol_ata.
     ret [token_transfer TOKEN_PROGRAM user_wsol_ata seed_ata_address payer amount [],
          close_account TOKEN_PROGRAM seed_ata_address payer payer []]))"

section \<open>What they yield\<close>

definition create_ata_ix :: "chain_ext \<Rightarrow> pubkey \<Rightarrow> instruction" where
  "create_ata_ix ext payer = \<lparr>program_id = ASSOCIATED_TOKEN_PROGRAM_ID,
     accounts = [meta_new payer True,
       meta_new (get_associated_token_address_with_program_id ext payer WSOL_TOKEN_ACCOUNT TOKEN_PROGRAM) False,
       meta_new_readonly payer False, meta_new_readonly WSOL_TOKEN_ACCOUNT False, SYSTEM_PROGRAM_META,
       meta_new_readonly TOKEN_PROGRAM False],
     data = [1]\<rparr>"

lemma create_wsol_ata_yields: "yields (coherent ext r1 r2) (create_wsol_ata ext payer) (Ok [create_ata_ix ext payer])"
  using create_ata_yields [of ext r1 r2 payer payer WSOL_TOKEN_ACCOUNT TOKEN_PROGRAM False]
  by (simp add: create_wsol_ata_def create_associated_token_account_idempotent_fast_def seed_account_def create_ata_ix_def)

abbreviation wsol_of :: "chain_ext \<Rightarrow> pubkey \<Rightarrow> pubkey" where
  "wsol_of ext payer \<equiv> get_associated_token_address_with_program_id ext payer WSOL_TOKEN_ACCOUNT TOKEN_PROGRAM"

lemma handle_wsol_yields:
  "yields (coherent ext r1 r2) (handle_wsol ext payer amount)
     (Ok [create_ata_ix ext payer, ix_transfer ext payer (wsol_of ext payer) amount, sync_native (wsol_of ext payer)])"
proof -
  have "yields (coherent ext r1 r2)
      (then_do (create_wsol_ata ext payer) (\<lambda>ixs. ret (ixs @ [ix_transfer ext payer (wsol_of ext payer) amount, sync_native (wsol_of ext payer)])))
      (Ok ([create_ata_ix ext payer] @ [ix_transfer ext payer (wsol_of ext payer) amount, sync_native (wsol_of ext payer)]))"
    by (rule yields_then [OF create_wsol_ata_yields]) (rule yields_basic)
  then show ?thesis
    unfolding handle_wsol_def create_wsol_ata_def by (intro yields_then [OF ata_plain_yields]) simp
qed

lemma close_wsol_yields':
  "yields (coherent ext r1 r2) (close_wsol ext payer) (Ok [close_account TOKEN_PROGRAM (wsol_of ext payer) payer payer []])"
  unfolding close_wsol_def by (rule yields_then [OF ata_plain_yields]) (rule close_wsol_yields)

lemmas wsol_transparent [transparent_intro] =
  transparentI [OF create_wsol_ata_yields] transparentI [OF handle_wsol_yields] transparentI [OF close_wsol_yields']

lemma returns_wsol [returns_dest]:
  "returns (coherent ext r1 r2) (then_do (create_wsol_ata ext payer) f) b \<Longrightarrow> returns (coherent ext r1 r2) (f [create_ata_ix ext payer]) b"
  "returns (coherent ext r1 r2) (then_do (handle_wsol ext payer amount) f) b \<Longrightarrow> returns (coherent ext r1 r2)
     (f [create_ata_ix ext payer, ix_transfer ext payer (wsol_of ext payer) amount, sync_native (wsol_of ext payer)]) b"
  "returns (coherent ext r1 r2) (then_do (close_wsol ext payer) f) b \<Longrightarrow> returns (coherent ext r1 r2)
     (f [close_account TOKEN_PROGRAM (wsol_of ext payer) payer payer []]) b"
  by (erule returns_then_ok, rule create_wsol_ata_yields handle_wsol_yields close_wsol_yields')+

section \<open>Properties\<close>

text \<open>
  Unwrapping through a temporary account creates, fills and closes one and the same account, derived under the seed
  scheme from the wallet: the account is funded with the token rent, receives exactly the amount from the wallet's
  wrapped-SOL account, and is closed back to the wallet. When the account already exists the caller's shorter list is the
  same list without its creation.
\<close>

theorem unwrap_closes_what_it_creates:
  assumes "coherent ext r1 r2 s" and "coherent ext r1 r2 s'" and "fst (wrap_wsol_to_sol ext payer amount s) = Ok ixs"
  shows "\<exists>tmp. create_with_seed ext payer (mint_seed ext WSOL_TOKEN_ACCOUNT) TOKEN_PROGRAM = Inr tmp
    \<and> ixs = [ix_create_account_with_seed ext payer tmp payer (mint_seed ext WSOL_TOKEN_ACCOUNT) r1 165 TOKEN_PROGRAM,
             initialize_account3 TOKEN_PROGRAM tmp WSOL_TOKEN_ACCOUNT payer,
             token_transfer TOKEN_PROGRAM (wsol_of ext payer) tmp payer amount [],
             close_account TOKEN_PROGRAM tmp payer payer []]
    \<and> r1 \<noteq> RENT_UNINITIALIZED
    \<and> fst (wrap_wsol_to_sol_without_create ext payer amount s') = Ok (drop 2 ixs)"
proof -
  have ne: "TOKEN_PROGRAM \<noteq> TOKEN_PROGRAM_2022" by (simp add: TOKEN_PROGRAM_def TOKEN_PROGRAM_2022_def)
  have rent: "spl_token_rent s = r1" using assms(1) by (simp add: coherent_def)
  have wsol: "fst (get_associated_token_address_with_program_id_fast ext payer WSOL_TOKEN_ACCOUNT TOKEN_PROGRAM t) = Ok (wsol_of ext payer)"
    if "coherent ext r1 r2 t" for t
    using ata_plain_yields that by (auto simp: yields_def)
  obtain t u where t: "get_associated_token_address_with_program_id_fast ext payer WSOL_TOKEN_ACCOUNT TOKEN_PROGRAM s
        = (Ok (wsol_of ext payer), t)"
    and u: "get_associated_token_address_with_program_id_fast ext payer WSOL_TOKEN_ACCOUNT TOKEN_PROGRAM s'
        = (Ok (wsol_of ext payer), u)"
    using wsol [OF assms(1)] wsol [OF assms(2)] by (metis prod.collapse)
  show ?thesis
    using assms(3)
    by (cases "create_with_seed ext payer (mint_seed ext WSOL_TOKEN_ACCOUNT) TOKEN_PROGRAM")
       (auto simp: wrap_wsol_to_sol_def wrap_wsol_to_sol_without_create_def create_associated_token_account_use_seed_def Let_def
          get_associated_token_address_with_program_id_use_seed_def then_do_run ne rent t u split: if_splits)
qed

theorem unwrap_closes_what_it_creates_witness:
  "\<exists>ixs. fst (wrap_wsol_to_sol_without_create sample_ext 7 100 (caches_init\<lparr>spl_token_rent := 5, spl_token_2022_rent := 6\<rparr>))
     = Ok (drop 2 ixs) \<and> length ixs = 4"
proof -
  let ?s = "caches_init\<lparr>spl_token_rent := 5, spl_token_2022_rent := 6\<rparr>"
  have "\<exists>ixs. fst (wrap_wsol_to_sol sample_ext 7 100 ?s) = Ok ixs"
    by (simp add: wrap_wsol_to_sol_def create_associated_token_account_use_seed_def Let_def caches_init_def RENT_UNINITIALIZED_def
        get_associated_token_address_with_program_id_use_seed_def then_do_run sample_ext_def
        get_associated_token_address_with_program_id_fast_def ata_fast_def ata_compute_def seed_account_def
        TOKEN_PROGRAM_def TOKEN_PROGRAM_2022_def)
  then obtain ixs where "fst (wrap_wsol_to_sol sample_ext 7 100 ?s) = Ok ixs" by blast
  from unwrap_closes_what_it_creates [OF coherent_rents coherent_rents this] show ?thesis by auto
qed

end
