(* ===== verification/CalcPumpSwap.thy ===== *)
theory CalcPumpSwap
  imports CalcCommon Solana
begin

text \<open>
  \<open>sol-trade-sdk/src/utils/calc/pumpswap.rs\<close>: the four PumpSwap quotes. Each definition follows its
  function statement by statement; the error texts are the constructors of \<open>calc_error\<close>.
  The last section interprets \<open>constant_product_trade\<close> on the buy and on the sell quote.
\<close>

section \<open>Data\<close>

definition LP_FEE_BASIS_POINTS :: u64 where "LP_FEE_BASIS_POINTS = 25"
definition PROTOCOL_FEE_BASIS_POINTS :: u64 where "PROTOCOL_FEE_BASIS_POINTS = 5"
definition COIN_CREATOR_FEE_BASIS_POINTS :: u64 where "COIN_CREATOR_FEE_BASIS_POINTS = 5"
definition MAX_FEE_BASIS_POINTS :: u64 where "MAX_FEE_BASIS_POINTS = 10000"

lemmas fee_bps_defs = LP_FEE_BASIS_POINTS_def PROTOCOL_FEE_BASIS_POINTS_def
  COIN_CREATOR_FEE_BASIS_POINTS_def MAX_FEE_BASIS_POINTS_def

datatype calc_error =
    ReserveZero            \<comment> \<open>'baseReserve' or 'quoteReserve' cannot be zero\<close>
  | BuyExceedsReserve      \<comment> \<open>Cannot buy more base tokens than the pool reserves\<close>
  | PoolDepleted           \<comment> \<open>Pool would be depleted; denominator is zero\<close>
  | FeesExceedOutput       \<comment> \<open>Fees exceed total output; final quote is negative\<close>
  | QuoteExceedsReserve    \<comment> \<open>Cannot receive more quote tokens than the pool quote reserves\<close>
  | DesiredExceedsReserve  \<comment> \<open>Desired quote amount exceeds available reserve\<close>

record buy_base_input_result =
  bb_internal_quote_amount :: u64
  bb_ui_quote :: u64
  bb_max_quote :: u64

record buy_quote_input_result =
  bq_base :: u64
  bq_internal_quote_without_fees :: u64
  bq_max_quote :: u64

record sell_base_input_result =
  sb_ui_quote :: u64
  sb_min_quote :: u64
  sb_internal_quote_amount_out :: u64

record sell_quote_input_result =
  sq_internal_raw_quote :: u64
  sq_base :: u64
  sq_min_quote :: u64

section \<open>Operations\<close>

text \<open>The fee statement that both quotes repeat: \<open>compute_fee(amount as u128, bps as u128) as u64\<close>.\<close>

definition fee_u64 :: "profile \<Rightarrow> u64 \<Rightarrow> u64 \<Rightarrow> u64 rust" where
  "fee_u64 p amount bps = do { f \<leftarrow> compute_fee p (as_u128 amount) (as_u128 bps); Some (as_u64 f) }"

text \<open>The creator fee statement of both quotes: nothing when the coin has no creator.\<close>

definition creator_fee_u64 :: "profile \<Rightarrow> pubkey \<Rightarrow> u64 \<Rightarrow> u64 rust" where
  "creator_fee_u64 p coin_creator amount =
     (if coin_creator = pubkey_default then Some 0
      else fee_u64 p amount COIN_CREATOR_FEE_BASIS_POINTS)"

definition buy_base_input_internal ::
  "profile \<Rightarrow> u64 \<Rightarrow> u64 \<Rightarrow> u64 \<Rightarrow> u64 \<Rightarrow> pubkey \<Rightarrow> (calc_error + buy_base_input_result) rust" where
  "buy_base_input_internal p base slippage_basis_points base_reserve quote_reserve coin_creator =
     (if base_reserve = 0 \<or> quote_reserve = 0 then Some (Inl ReserveZero)
      else if base_reserve < base then Some (Inl BuyExceedsReserve)
      else do {
        numerator \<leftarrow> mul_w p (as_u128 quote_reserve) (as_u128 base);
        denominator \<leftarrow> sub_w p base_reserve base;
        if denominator = 0 then Some (Inl PoolDepleted)
        else do {
          q \<leftarrow> ceil_div p numerator (as_u128 denominator);
          let quote_amount_in = as_u64 q;
          lp_fee \<leftarrow> fee_u64 p quote_amount_in LP_FEE_BASIS_POINTS;
          protocol_fee \<leftarrow> fee_u64 p quote_amount_in PROTOCOL_FEE_BASIS_POINTS;
          coin_creator_fee \<leftarrow> creator_fee_u64 p coin_creator quote_amount_in;
          t1 \<leftarrow> add_w p quote_amount_in lp_fee;
          t2 \<leftarrow> add_w p t1 protocol_fee;
          total_quote \<leftarrow> add_w p t2 coin_creator_fee;
          max_quote \<leftarrow> calculate_with_slippage_buy p total_quote slippage_basis_points;
          Some (Inr \<lparr>bb_internal_quote_amount = quote_amount_in, bb_ui_quote = total_quote,
                     bb_max_quote = max_quote\<rparr>)
        }
      })"

definition buy_quote_input_internal ::
  "profile \<Rightarrow> u64 \<Rightarrow> u64 \<Rightarrow> u64 \<Rightarrow> u64 \<Rightarrow> pubkey \<Rightarrow> (calc_error + buy_quote_input_result) rust" where
  "buy_quote_input_internal p quote slippage_basis_points base_reserve quote_reserve coin_creator =
     (if base_reserve = 0 \<or> quote_reserve = 0 then Some (Inl ReserveZero)
      else do {
        f1 \<leftarrow> add_w p LP_FEE_BASIS_POINTS PROTOCOL_FEE_BASIS_POINTS;
        total_fee_bps \<leftarrow> add_w p f1
          (if coin_creator = pubkey_default then 0 else COIN_CREATOR_FEE_BASIS_POINTS);
        denominator \<leftarrow> add_w p 10000 total_fee_bps;
        scaled \<leftarrow> mul_w p (as_u128 quote) 10000;
        effective_quote \<leftarrow> div_w scaled (as_u128 denominator);
        numerator \<leftarrow> mul_w p (as_u128 base_reserve) effective_quote;
        denominator_effective \<leftarrow> add_w p (as_u128 quote_reserve) effective_quote;
        if denominator_effective = 0 then Some (Inl PoolDepleted)
        else do {
          q \<leftarrow> div_w numerator denominator_effective;
          let base_amount_out = as_u64 q;
          max_quote \<leftarrow> calculate_with_slippage_buy p quote slippage_basis_points;
          Some (Inr \<lparr>bq_base = base_amount_out,
                     bq_internal_quote_without_fees = as_u64 effective_quote,
                     bq_max_quote = max_quote\<rparr>)
        }
      })"

definition sell_base_input_internal ::
  "profile \<Rightarrow> u64 \<Rightarrow> u64 \<Rightarrow> u64 \<Rightarrow> u64 \<Rightarrow> pubkey \<Rightarrow> (calc_error + sell_base_input_result) rust" where
  "sell_base_input_internal p base slippage_basis_points base_reserve quote_reserve coin_creator =
     (if base_reserve = 0 \<or> quote_reserve = 0 then Some (Inl ReserveZero)
      else do {
        numerator \<leftarrow> mul_w p (as_u128 quote_reserve) (as_u128 base);
        denominator \<leftarrow> add_w p (as_u128 base_reserve) (as_u128 base);
        q \<leftarrow> div_w numerator denominator;
        let quote_amount_out = as_u64 q;
        lp_fee \<leftarrow> fee_u64 p quote_amount_out LP_FEE_BASIS_POINTS;
        protocol_fee \<leftarrow> fee_u64 p quote_amount_out PROTOCOL_FEE_BASIS_POINTS;
        coin_creator_fee \<leftarrow> creator_fee_u64 p coin_creator quote_amount_out;
        t1 \<leftarrow> add_w p lp_fee protocol_fee;
        total_fees \<leftarrow> add_w p t1 coin_creator_fee;
        if quote_amount_out < total_fees then Some (Inl FeesExceedOutput)
        else do {
          final_quote \<leftarrow> sub_w p quote_amount_out total_fees;
          min_quote \<leftarrow> calculate_with_slippage_sell p final_quote slippage_basis_points;
          Some (Inr \<lparr>sb_ui_quote = final_quote, sb_min_quote = min_quote,
                     sb_internal_quote_amount_out = quote_amount_out\<rparr>)
        }
      })"

definition calculate_quote_amount_out :: "profile \<Rightarrow> u64 \<Rightarrow> u64 \<Rightarrow> u64 \<Rightarrow> u64 \<Rightarrow> u64 rust" where
  "calculate_quote_amount_out p user_quote_amount_out lp_bps protocol_bps creator_bps =
     do {
       t1 \<leftarrow> add_w p lp_bps protocol_bps;
       total_fee_basis_points \<leftarrow> add_w p t1 creator_bps;
       denominator \<leftarrow> sub_w p MAX_FEE_BASIS_POINTS total_fee_basis_points;
       m \<leftarrow> mul_w p (as_u128 user_quote_amount_out) (as_u128 MAX_FEE_BASIS_POINTS);
       q \<leftarrow> ceil_div p m (as_u128 denominator);
       Some (as_u64 q)
     }"

definition sell_quote_input_internal ::
  "profile \<Rightarrow> u64 \<Rightarrow> u64 \<Rightarrow> u64 \<Rightarrow> u64 \<Rightarrow> pubkey \<Rightarrow> (calc_error + sell_quote_input_result) rust" where
  "sell_quote_input_internal p quote slippage_basis_points base_reserve quote_reserve coin_creator =
     (if base_reserve = 0 \<or> quote_reserve = 0 then Some (Inl ReserveZero)
      else if quote_reserve < quote then Some (Inl QuoteExceedsReserve)
      else do {
        raw_quote \<leftarrow> calculate_quote_amount_out p quote LP_FEE_BASIS_POINTS PROTOCOL_FEE_BASIS_POINTS
          (if coin_creator = pubkey_default then 0 else COIN_CREATOR_FEE_BASIS_POINTS);
        if quote_reserve \<le> raw_quote then Some (Inl DesiredExceedsReserve)
        else do {
          m \<leftarrow> mul_w p (as_u128 base_reserve) (as_u128 raw_quote);
          d \<leftarrow> sub_w p quote_reserve raw_quote;
          q \<leftarrow> ceil_div p m (as_u128 d);
          min_quote \<leftarrow> calculate_with_slippage_sell p quote slippage_basis_points;
          Some (Inr \<lparr>sq_internal_raw_quote = raw_quote, sq_base = as_u64 q, sq_min_quote = min_quote\<rparr>)
        }
      })"

section \<open>Evaluation over the natural numbers\<close>

definition creator_bps :: "pubkey \<Rightarrow> nat" where
  "creator_bps c = (if c = pubkey_default then 0 else 5)"

text \<open>The fees charged on \<open>n\<close> quote units: liquidity providers, protocol and, when the coin has one, creator.\<close>

definition sell_fees :: "pubkey \<Rightarrow> nat \<Rightarrow> nat" where
  "sell_fees c n = ceil_nat (n * 25) 10000 + ceil_nat (n * 5) 10000 + ceil_nat (n * creator_bps c) 10000"

definition effective_quote_nat :: "pubkey \<Rightarrow> nat \<Rightarrow> nat" where
  "effective_quote_nat c q = q * 10000 div (10030 + creator_bps c)"

lemma u64_mult_u64: "unat (a :: u64) * unat (b :: u64) < 340282366920938463463374607431768211456"
  using mult_bound [OF unat_u64_less [of a] unat_u64_less [of b]] by simp

lemma fee_u64_eval [rust_ok]:
  assumes "unat bps \<le> 10000"
  shows "fee_u64 p amount bps = Some (word_of_nat (ceil_nat (unat amount * unat bps) 10000))"
proof -
  have m: "unat amount * unat bps \<le> unat amount * 10000"
    using assms by simp
  also have "\<dots> < 2 ^ 128 - 10000"
    using unat_u64_less [of amount] by simp
  finally have "unat amount * unat bps + 10000 < 2 ^ 128"
    by simp
  then have f: "compute_fee p (as_u128 amount) (as_u128 bps)
      = Some (word_of_nat (ceil_nat (unat amount * unat bps) 10000))"
    by (simp add: compute_fee_eval)
  have "ceil_nat (unat amount * unat bps) 10000 \<le> unat amount"
    using m by (simp add: ceil_nat_le_iff)
  then have le: "ceil_nat (unat amount * unat bps) 10000 < 18446744073709551616"
    using unat_u64_less [of amount] by simp
  then have "unat (as_u64 (word_of_nat (ceil_nat (unat amount * unat bps) 10000) :: u128))
      = ceil_nat (unat amount * unat bps) 10000"
    by (simp add: unat_eval unat_of_nat)
  then show ?thesis
    by (simp add: fee_u64_def f word_of_nat_eqI)
qed

lemma creator_fee_eval:
  "creator_fee_u64 p c amount = Some (word_of_nat (ceil_nat (unat amount * creator_bps c) 10000))"
  by (simp add: creator_fee_u64_def creator_bps_def rust_ok fee_bps_defs)

lemma fee_nat_le: "b \<le> 10000 \<Longrightarrow> ceil_nat (n * b) 10000 \<le> n"
  by (simp add: ceil_nat_le_iff)

lemma fee_nat_small:
  assumes "n < 18446744073709551616" and "b \<le> 25"
  shows "ceil_nat (n * b) 10000 < 50000000000000000"
proof -
  have "ceil_nat (n * b) 10000 \<le> 49999999999999999"
    unfolding ceil_nat_le_iff [of 10000, simplified]
    using mult_le_mono [of n 18446744073709551615 b 25] assms by simp
  then show ?thesis by simp
qed

lemma sell_fees_small: "n < 18446744073709551616 \<Longrightarrow> sell_fees c n < 150000000000000000"
  using fee_nat_small [of n 25] fee_nat_small [of n 5] fee_nat_small [of n "creator_bps c"]
  by (simp add: sell_fees_def creator_bps_def)

lemma total_fee_bps_eval:
  "add_w p LP_FEE_BASIS_POINTS PROTOCOL_FEE_BASIS_POINTS = Some 30"
  "add_w p 30 (if c = pubkey_default then 0 else COIN_CREATOR_FEE_BASIS_POINTS)
     = Some (word_of_nat (30 + creator_bps c))"
  "add_w p 10000 (word_of_nat (30 + creator_bps c) :: u64) = Some (word_of_nat (10030 + creator_bps c))"
  by (simp_all add: fee_bps_defs add_w_def creator_bps_def)

text \<open>
  The buy quote, in closed form: it panics only where the slippage adjustment does, and its
  two numbers are the floor quotients of the constant-product rule.
\<close>

lemma buy_quote_eval:
  assumes "base_reserve \<noteq> 0" and "quote_reserve \<noteq> 0"
  shows "buy_quote_input_internal p quote s base_reserve quote_reserve c =
     map_option (\<lambda>mx. Inr \<lparr>bq_base = word_of_nat (unat base_reserve * effective_quote_nat c (unat quote)
                                     div (unat quote_reserve + effective_quote_nat c (unat quote))),
                            bq_internal_quote_without_fees = word_of_nat (effective_quote_nat c (unat quote)),
                            bq_max_quote = mx\<rparr>)
       (calculate_with_slippage_buy p quote s)"
proof -
  define e where "e = effective_quote_nat c (unat quote)"
  define dw :: u64 where "dw = word_of_nat (10030 + creator_bps c)"
  define ew :: u128 where "ew = as_u128 quote * 10000 div as_u128 dw"
  have q: "unat quote * 10000 < 2 ^ 128"
    using unat_u64_less [of quote] by simp
  have den: "unat (as_u128 dw) = 10030 + creator_bps c"
    by (simp add: dw_def creator_bps_def)
  have e: "unat ew = e"
    using q den by (simp add: ew_def e_def effective_quote_nat_def unat_eval)
  have e_le: "e \<le> unat quote"
    unfolding e_def effective_quote_nat_def by (rule div_le_of_mult) (simp_all add: creator_bps_def)
  then have e64: "e < 18446744073709551616"
    using unat_u64_less [of quote] by simp
  have num: "unat (as_u128 base_reserve) * unat ew < 2 ^ 128"
    using mult_bound [OF unat_u64_less [of base_reserve] e64] e by simp
  have dsum: "unat (as_u128 quote_reserve) + unat ew < 2 ^ 128"
    using e e64 unat_u64_less [of quote_reserve] by simp
  have dnz: "as_u128 quote_reserve + ew \<noteq> 0"
    using assms(2) dsum by (simp add: word_neq_0_unat unat_add_ok e)
  have out: "unat (as_u128 base_reserve * ew div (as_u128 quote_reserve + ew))
      = unat base_reserve * e div (unat quote_reserve + e)"
    using num dsum e by (simp add: unat_eval)
  have "unat base_reserve * e div (unat quote_reserve + e) < 18446744073709551616"
    using cp_floor_le [of "unat base_reserve" e "unat quote_reserve"] unat_u64_less [of base_reserve]
    by simp
  then have out64: "as_u64 (as_u128 base_reserve * ew div (as_u128 quote_reserve + ew))
      = word_of_nat (unat base_reserve * e div (unat quote_reserve + e))"
    using out by (simp add: word_of_nat_eqI)
  have ew64: "as_u64 ew = word_of_nat e"
    using e e64 by (simp add: word_of_nat_eqI)
  have dd: "as_u128 dw \<noteq> 0"
    using den by (simp add: word_neq_0_unat)
  show ?thesis
    unfolding buy_quote_input_internal_def Let_def bind.bind_lunit total_fee_bps_eval dw_def [symmetric]
    using assms q dd num dsum dnz out64 ew64
    by (cases "calculate_with_slippage_buy p quote s")
       (simp_all add: rust_ok ew_def [symmetric] e_def)
qed

text \<open>The sell quote in closed form: output, then fees, then slippage.\<close>

definition sell_out_nat :: "nat \<Rightarrow> nat \<Rightarrow> nat \<Rightarrow> nat" where
  "sell_out_nat base base_reserve quote_reserve = quote_reserve * base div (base_reserve + base)"

lemma sell_out_less: "sell_out_nat b br (unat (qr :: u64)) < 18446744073709551616"
  using cp_floor_le [of "unat qr" b br] unat_u64_less [of qr] by (simp add: sell_out_nat_def)

lemma sell_base_out_word:
  fixes base base_reserve quote_reserve :: u64
  assumes "base_reserve \<noteq> 0"
  shows "mul_w p (as_u128 quote_reserve) (as_u128 base) = Some (as_u128 quote_reserve * as_u128 base)"
    and "add_w p (as_u128 base_reserve) (as_u128 base) = Some (as_u128 base_reserve + as_u128 base)"
    and "as_u128 base_reserve + as_u128 base \<noteq> 0"
    and "as_u64 (as_u128 quote_reserve * as_u128 base div (as_u128 base_reserve + as_u128 base))
       = word_of_nat (sell_out_nat (unat base) (unat base_reserve) (unat quote_reserve))"
proof -
  have num: "unat (as_u128 quote_reserve) * unat (as_u128 base) < 2 ^ 128"
    using u64_mult_u64 [of quote_reserve base] by simp
  have den: "unat (as_u128 base_reserve) + unat (as_u128 base) < 2 ^ 128"
    using unat_u64_less [of base_reserve] unat_u64_less [of base] by simp
  show "as_u128 base_reserve + as_u128 base \<noteq> 0"
    using assms den by (simp add: word_neq_0_unat unat_add_ok)
  have "unat (as_u128 quote_reserve * as_u128 base div (as_u128 base_reserve + as_u128 base))
      = sell_out_nat (unat base) (unat base_reserve) (unat quote_reserve)"
    using num den by (simp add: unat_eval sell_out_nat_def)
  then show "as_u64 (as_u128 quote_reserve * as_u128 base div (as_u128 base_reserve + as_u128 base))
      = word_of_nat (sell_out_nat (unat base) (unat base_reserve) (unat quote_reserve))"
    using sell_out_less by (simp add: word_of_nat_eqI)
qed (use u64_mult_u64 [of quote_reserve base] unat_u64_less [of base_reserve] unat_u64_less [of base]
     in \<open>simp_all add: rust_ok\<close>)

lemma sum_fees_word:
  assumes n: "n < 18446744073709551616"
  shows "fee_u64 p (word_of_nat n) LP_FEE_BASIS_POINTS = Some (word_of_nat (ceil_nat (n * 25) 10000))"
    and "fee_u64 p (word_of_nat n) PROTOCOL_FEE_BASIS_POINTS = Some (word_of_nat (ceil_nat (n * 5) 10000))"
    and "creator_fee_u64 p c (word_of_nat n)
       = Some (word_of_nat (ceil_nat (n * creator_bps c) 10000))"
    and "add_w p (word_of_nat (ceil_nat (n * 25) 10000)) (word_of_nat (ceil_nat (n * 5) 10000))
       = Some (word_of_nat (ceil_nat (n * 25) 10000 + ceil_nat (n * 5) 10000) :: u64)"
    and "add_w p (word_of_nat (ceil_nat (n * 25) 10000 + ceil_nat (n * 5) 10000))
           (word_of_nat (ceil_nat (n * creator_bps c) 10000))
       = Some (word_of_nat (sell_fees c n) :: u64)"
proof -
  let ?a = "ceil_nat (n * 25) 10000" and ?b = "ceil_nat (n * 5) 10000"
    and ?k = "ceil_nat (n * creator_bps c) 10000"
  have small: "?a < 50000000000000000" "?b < 50000000000000000" "?k < 50000000000000000"
    using fee_nat_small [OF n] by (simp_all add: creator_bps_def)
  show "add_w p (word_of_nat ?a) (word_of_nat ?b) = Some (word_of_nat (?a + ?b) :: u64)"
    using small by (simp add: rust_ok)
  show "add_w p (word_of_nat (?a + ?b)) (word_of_nat ?k) = Some (word_of_nat (sell_fees c n) :: u64)"
    using small by (subst add_w_ok) (simp_all del: of_nat_add add: of_nat_add [symmetric] sell_fees_def)
qed (use n in \<open>simp_all add: creator_fee_eval rust_ok fee_bps_defs\<close>)

lemma sell_base_eval:
  fixes base_reserve quote_reserve base :: u64
  defines "n \<equiv> sell_out_nat (unat base) (unat base_reserve) (unat quote_reserve)"
  assumes "base_reserve \<noteq> 0" and "quote_reserve \<noteq> 0"
  shows "sell_base_input_internal p base s base_reserve quote_reserve c =
     (if n < sell_fees c n then Some (Inl FeesExceedOutput)
      else map_option (\<lambda>mn. Inr \<lparr>sb_ui_quote = word_of_nat (n - sell_fees c n), sb_min_quote = mn,
                                  sb_internal_quote_amount_out = word_of_nat n\<rparr>)
             (calculate_with_slippage_sell p (word_of_nat (n - sell_fees c n)) s))"
proof -
  have n: "n < 18446744073709551616"
    unfolding n_def by (rule sell_out_less)
  have lt: "(word_of_nat n < (word_of_nat (sell_fees c n) :: u64)) = (n < sell_fees c n)"
    using n sell_fees_small [OF n, of c] by (simp add: word_less_nat_alt)
  have sub: "sub_w p (word_of_nat n) (word_of_nat (sell_fees c n) :: u64)
      = Some (word_of_nat (n - sell_fees c n))" if "\<not> n < sell_fees c n"
    using that lt n sell_fees_small [OF n, of c]
    by (simp add: sub_w_def word_of_nat_eqI unat_sub word_le_nat_alt del: of_nat_diff)
  show ?thesis
    using assms(2,3) lt sub
    by (cases "n < sell_fees c n"; cases "calculate_with_slippage_sell p (word_of_nat (n - sell_fees c n)) s")
       (simp_all add: sell_base_input_internal_def rust_ok sum_fees_word [OF n]
          sell_base_out_word [OF assms(2)] n_def [symmetric] Let_def del: of_nat_add of_nat_diff)
qed

lemma fees_exceed_iff:
  "n < sell_fees c n \<longleftrightarrow> 0 < n \<and> n < (if c = pubkey_default then 2 else 3)"
proof -
  let ?k = "\<lambda>b. ceil_nat (n * b) 10000"
  have fee1: "?k b \<le> 1" if "n \<le> 400" "b \<le> 25" for b
    using mult_le_mono [OF that] by (simp add: ceil_nat_le_iff)
  have fee4: "?k b \<le> n div 4" if "400 < n" "b \<le> 25" for b
  proof -
    have "n * b \<le> n * 25" using that by simp
    also have "\<dots> \<le> n div 4 * 10000" using that by linarith
    finally show ?thesis by (simp add: ceil_nat_le_iff)
  qed
  have pos: "0 < ?k b" if "0 < n" "0 < b" for b
    using that by (simp add: ceil_nat_pos)
  consider "n = 0" | "0 < n" "n \<le> 400" | "400 < n" by linarith
  then show ?thesis
  proof cases
    case 1
    then show ?thesis by (simp add: sell_fees_def)
  next
    case 2
    then have "?k 25 = 1" "?k 5 = 1" "?k (creator_bps c) = (if c = pubkey_default then 0 else 1)"
      using fee1 [of 25] fee1 [of 5] pos [of 25] pos [of 5]
      by (auto simp: creator_bps_def intro: le_antisym)
    then show ?thesis using 2 by (auto simp: sell_fees_def)
  next
    case 3
    then have "sell_fees c n \<le> 3 * (n div 4)"
      using fee4 [of 25] fee4 [of 5] fee4 [of "creator_bps c"] by (simp add: sell_fees_def creator_bps_def)
    also have "\<dots> \<le> n" by linarith
    finally show ?thesis using 3 by simp
  qed
qed

section \<open>The constant-product contract, discharged\<close>

type_synonym calc_args = "profile \<times> u64 \<times> u64 \<times> u64 \<times> u64 \<times> pubkey"

definition buy_quote_run :: "calc_args \<times> buy_quote_input_result \<Rightarrow> bool" where
  "buy_quote_run = (\<lambda>((p, q, s, br, qr, c), r). buy_quote_input_internal p q s br qr c = Some (Inr r))"

definition sell_base_run :: "calc_args \<times> sell_base_input_result \<Rightarrow> bool" where
  "sell_base_run = (\<lambda>((p, b, s, br, qr, c), r). sell_base_input_internal p b s br qr c = Some (Inr r))"

lemma effective_quote_le: "effective_quote_nat c q \<le> q"
  unfolding effective_quote_nat_def by (rule div_le_of_mult) (simp_all add: creator_bps_def)

lemma buy_quote_run_values:
  assumes "buy_quote_input_internal p q s br qr c = Some (Inr r)"
  shows "br \<noteq> 0" and "qr \<noteq> 0"
    and "unat (bq_internal_quote_without_fees r) = effective_quote_nat c (unat q)"
    and "unat (bq_base r) = unat br * effective_quote_nat c (unat q)
           div (unat qr + effective_quote_nat c (unat q))"
proof -
  show nz: "br \<noteq> 0" "qr \<noteq> 0"
    using assms by (auto simp: buy_quote_input_internal_def)
  have e: "effective_quote_nat c (unat q) < 18446744073709551616"
    using effective_quote_le [of c "unat q"] unat_u64_less [of q] by simp
  have "unat br * effective_quote_nat c (unat q) div (unat qr + effective_quote_nat c (unat q)) < 18446744073709551616"
    using cp_floor_le [of "unat br" "effective_quote_nat c (unat q)" "unat qr"] unat_u64_less [of br] by simp
  with e show "unat (bq_internal_quote_without_fees r) = effective_quote_nat c (unat q)"
    and "unat (bq_base r) = unat br * effective_quote_nat c (unat q)
           div (unat qr + effective_quote_nat c (unat q))"
    using assms by (auto simp: buy_quote_eval [OF nz])
qed

lemma sell_base_run_values:
  assumes "sell_base_input_internal p b s br qr c = Some (Inr r)"
  defines "n \<equiv> sell_out_nat (unat b) (unat br) (unat qr)"
  shows "br \<noteq> 0" and "qr \<noteq> 0" and "sell_fees c n \<le> n"
    and "unat (sb_internal_quote_amount_out r) = n"
    and "unat (sb_ui_quote r) = n - sell_fees c n"
    and "calculate_with_slippage_sell p (sb_ui_quote r) s = Some (sb_min_quote r)"
proof -
  show nz: "br \<noteq> 0" "qr \<noteq> 0"
    using assms by (auto simp: sell_base_input_internal_def)
  have n: "n < 18446744073709551616"
    unfolding n_def by (rule sell_out_less)
  show "sell_fees c n \<le> n" "unat (sb_internal_quote_amount_out r) = n"
    "unat (sb_ui_quote r) = n - sell_fees c n"
    "calculate_with_slippage_sell p (sb_ui_quote r) s = Some (sb_min_quote r)"
    using assms(1) n by (auto simp: sell_base_eval [OF nz] n_def [symmetric] split: if_splits simp del: of_nat_diff)
qed

interpretation ps_buy: constant_product_trade buy_quote_run
  "\<lambda>((p, q, s, br, qr, c), r). unat qr" "\<lambda>((p, q, s, br, qr, c), r). unat br"
  "\<lambda>((p, q, s, br, qr, c), r). unat (bq_internal_quote_without_fees r)"
  "\<lambda>((p, q, s, br, qr, c), r). unat (bq_base r)"
  by unfold_locales
     (auto simp: buy_quote_run_def buy_quote_run_values cp_floor_law word_neq_0_unat
       dest: buy_quote_run_values(2))

interpretation ps_sell: constant_product_trade sell_base_run
  "\<lambda>((p, b, s, br, qr, c), r). unat br" "\<lambda>((p, b, s, br, qr, c), r). unat qr"
  "\<lambda>((p, b, s, br, qr, c), r). unat b"
  "\<lambda>((p, b, s, br, qr, c), r). unat (sb_internal_quote_amount_out r)"
  by unfold_locales
     (auto simp: sell_base_run_def sell_base_run_values sell_out_nat_def cp_floor_law word_neq_0_unat
       dest: sell_base_run_values(1))

section \<open>Properties\<close>

lemmas quote_compute = buy_quote_eval sell_base_eval effective_quote_nat_def creator_bps_def
  pubkey_default_def sell_out_nat_def sell_fees_def ceil_nat_def calculate_with_slippage_buy_def
  calculate_with_slippage_sell_def mul_w_def add_w_def sub_w_def div_w_def MAX_SLIPPAGE_BASIS_POINTS_def

lemma buy_quote_base_less:
  assumes "buy_quote_input_internal p quote s base_reserve quote_reserve c = Some (Inr r)"
  shows "unat (bq_base r) < unat base_reserve"
  using ps_buy.out_less_reserve [of "((p, quote, s, base_reserve, quote_reserve, c), r)"]
    buy_quote_run_values(1) [OF assms] assms
  by (simp add: word_neq_0_unat buy_quote_run_def)

text \<open>
  C1: a PumpSwap buy quote never takes the pool below its constant product: whatever the build
  profile, when \<open>buy_quote_input_internal\<close> returns a quote, the tokens it pays out are fewer than the
  base reserve, the quote it counts as net of fees is at most the quote offered, and the
  product of the reserves after the trade is at least the product before it.
\<close>

theorem buy_quote_keeps_product:
  assumes "buy_quote_input_internal p quote s base_reserve quote_reserve c = Some (Inr r)"
  shows "unat (bq_base r) < unat base_reserve
    \<and> bq_internal_quote_without_fees r \<le> quote
    \<and> unat quote_reserve * unat base_reserve
       \<le> (unat quote_reserve + unat (bq_internal_quote_without_fees r))
         * (unat base_reserve - unat (bq_base r))"
proof (intro conjI)
  let ?t = "((p, quote, s, base_reserve, quote_reserve, c), r)"
  have run: "buy_quote_run ?t" using assms by (simp add: buy_quote_run_def)
  show "unat (bq_base r) < unat base_reserve"
    by (rule buy_quote_base_less [OF assms])
  show "bq_internal_quote_without_fees r \<le> quote"
    by (simp add: word_le_nat_alt buy_quote_run_values(3) [OF assms] effective_quote_le)
  show "unat quote_reserve * unat base_reserve
       \<le> (unat quote_reserve + unat (bq_internal_quote_without_fees r))
         * (unat base_reserve - unat (bq_base r))"
    using ps_buy.product_kept [OF run] by simp
qed

theorem buy_quote_keeps_product_witness:
  "\<exists>r. buy_quote_input_internal Checked 1000 100 1000000 50000 7 = Some (Inr r)
     \<and> unat (bq_base r) < 1000000
     \<and> 50000 * 1000000 \<le> (50000 + unat (bq_internal_quote_without_fees r)) * (1000000 - unat (bq_base r))"
proof -
  have run: "buy_quote_input_internal Checked 1000 100 1000000 50000 7
      = Some (Inr \<lparr>bq_base = 19530, bq_internal_quote_without_fees = 996, bq_max_quote = 1010\<rparr>)"
    by (simp add: quote_compute)
  show ?thesis using run buy_quote_keeps_product [OF run] by simp
qed

text \<open>
  C9: the sell quote pays less than the quote reserve, keeps the constant product, and reports as
  \<open>ui_quote\<close> exactly the pool's output minus the liquidity-provider, protocol and creator fees, each rounded up.
\<close>

theorem sell_base_keeps_product:
  assumes "sell_base_input_internal p base s base_reserve quote_reserve c = Some (Inr r)"
  shows "unat (sb_internal_quote_amount_out r) < unat quote_reserve
    \<and> unat (sb_ui_quote r) + sell_fees c (unat (sb_internal_quote_amount_out r))
       = unat (sb_internal_quote_amount_out r)
    \<and> unat base_reserve * unat quote_reserve
       \<le> (unat base_reserve + unat base) * (unat quote_reserve - unat (sb_internal_quote_amount_out r))"
proof (intro conjI)
  let ?t = "((p, base, s, base_reserve, quote_reserve, c), r)"
  have run: "sell_base_run ?t" using assms by (simp add: sell_base_run_def)
  show "unat (sb_internal_quote_amount_out r) < unat quote_reserve"
    using ps_sell.out_less_reserve [OF run] sell_base_run_values(2) [OF assms]
    by (simp add: word_neq_0_unat)
  show "unat (sb_ui_quote r) + sell_fees c (unat (sb_internal_quote_amount_out r))
       = unat (sb_internal_quote_amount_out r)"
    using sell_base_run_values(3,4,5) [OF assms] by simp
  show "unat base_reserve * unat quote_reserve
       \<le> (unat base_reserve + unat base) * (unat quote_reserve - unat (sb_internal_quote_amount_out r))"
    using ps_sell.product_kept [OF run] by simp
qed

theorem sell_base_keeps_product_witness:
  "\<exists>r. sell_base_input_internal Checked 20000 500 1000000 50000 7 = Some (Inr r)
     \<and> unat (sb_internal_quote_amount_out r) < 50000
     \<and> unat (sb_ui_quote r) + sell_fees 7 (unat (sb_internal_quote_amount_out r))
         = unat (sb_internal_quote_amount_out r)"
proof -
  have run: "sell_base_input_internal Checked 20000 500 1000000 50000 7
      = Some (Inr \<lparr>sb_ui_quote = 975, sb_min_quote = 927, sb_internal_quote_amount_out = 980\<rparr>)"
    by (simp add: quote_compute)
  show ?thesis using run sell_base_keeps_product [OF run] by simp
qed

text \<open>
  The outcome of a sell quote is decided completely by its inputs: an empty reserve is
  refused first; otherwise the only refusal is that the fees exceed the output, and that happens exactly
  when the pool would pay one unit, or two units of a coin that has a creator.
\<close>

theorem sell_base_error_cases:
  shows "sell_base_input_internal p base s base_reserve quote_reserve c = Some (Inl e) \<longleftrightarrow>
     (base_reserve = 0 \<or> quote_reserve = 0) \<and> e = ReserveZero \<or>
     (base_reserve \<noteq> 0 \<and> quote_reserve \<noteq> 0) \<and> e = FeesExceedOutput \<and>
       unat quote_reserve * unat base div (unat base_reserve + unat base)
         \<in> (if c = pubkey_default then {1} else {1, 2})"
proof (cases "base_reserve = 0 \<or> quote_reserve = 0")
  case True
  then show ?thesis by (auto simp: sell_base_input_internal_def)
next
  case False
  then have nz: "base_reserve \<noteq> 0" "quote_reserve \<noteq> 0" by auto
  define n where "n = unat quote_reserve * unat base div (unat base_reserve + unat base)"
  have n: "sell_out_nat (unat base) (unat base_reserve) (unat quote_reserve) = n"
    by (simp add: sell_out_nat_def n_def)
  have small: "(0 < n \<and> n < (if c = pubkey_default then 2 else 3)) = (n \<in> (if c = pubkey_default then {1} else {1, 2}))"
    by auto
  show ?thesis
    using nz by (auto simp: sell_base_eval [OF nz] n fees_exceed_iff small n_def [symmetric])
qed

text \<open>
  C33: buying and then selling the tokens back into the pool the purchase left behind never returns more
  than was offered, at any profile and for any fee setting: the quotes leave no arbitrage against the pool.
\<close>

theorem buy_then_sell_no_profit:
  assumes buy: "buy_quote_input_internal p quote s base_reserve quote_reserve c = Some (Inr b)"
    and base': "unat base_reserve' = unat base_reserve - unat (bq_base b)"
    and quote': "unat quote_reserve' = unat quote_reserve + unat (bq_internal_quote_without_fees b)"
    and sell: "sell_base_input_internal p' (bq_base b) s' base_reserve' quote_reserve' c' = Some (Inr r)"
  shows "sb_ui_quote r \<le> quote"
proof -
  define e where "e = effective_quote_nat c (unat quote)"
  define d where "d = unat quote_reserve + e"
  have b: "unat (bq_base b) = unat base_reserve * e div d"
    and e: "unat (bq_internal_quote_without_fees b) = e"
    using buy_quote_run_values [OF buy] by (simp_all add: e_def d_def)
  have lt: "unat (bq_base b) < unat base_reserve"
    by (rule buy_quote_base_less [OF buy])
  have "sell_out_nat (unat (bq_base b)) (unat base_reserve') (unat quote_reserve')
      = d * unat (bq_base b) div unat base_reserve"
    using lt by (simp add: sell_out_nat_def base' quote' e d_def)
  also have "\<dots> \<le> e"
  proof (rule div_le_of_mult)
    show "0 < unat base_reserve" using lt by simp
    have "unat (bq_base b) * d \<le> unat base_reserve * e"
      unfolding b by (rule div_mult_le_nat)
    then show "d * unat (bq_base b) \<le> e * unat base_reserve"
      by (simp add: mult.commute)
  qed
  also have "e \<le> unat quote"
    unfolding e_def by (rule effective_quote_le)
  finally have "unat (sb_internal_quote_amount_out r) \<le> unat quote"
    by (simp add: sell_base_run_values(4) [OF sell])
  then show ?thesis
    using sell_base_run_values(4,5) [OF sell] by (simp add: word_le_nat_alt)
qed

theorem buy_then_sell_no_profit_witness:
  "\<exists>b r. buy_quote_input_internal Checked 1000 100 1000000 50000 7 = Some (Inr b)
     \<and> sell_base_input_internal Checked (bq_base b) 100 980470 50996 7 = Some (Inr r)
     \<and> sb_ui_quote r \<le> 1000"
proof -
  have buy: "buy_quote_input_internal Checked 1000 100 1000000 50000 7
      = Some (Inr \<lparr>bq_base = 19530, bq_internal_quote_without_fees = 996, bq_max_quote = 1010\<rparr>)"
    by (simp add: quote_compute)
  have sell: "sell_base_input_internal Checked 19530 100 980470 50996 7
      = Some (Inr \<lparr>sb_ui_quote = 990, sb_min_quote = 981, sb_internal_quote_amount_out = 995\<rparr>)"
    by (simp add: quote_compute)
  show ?thesis
    using buy sell buy_then_sell_no_profit [OF buy, of 980470 50996 Checked 100 7
      "\<lparr>sb_ui_quote = 990, sb_min_quote = 981, sb_internal_quote_amount_out = 995\<rparr>"] by simp
qed

end
