(* ===== verification/BuilderPumpSwap.thy ===== *)
theory BuilderPumpSwap
  imports BuilderPumpFun WsolManager CalcPumpSwap
begin

text \<open>
  The PumpSwap instruction builder, \<open>sol-trade-sdk/src/instruction/pumpswap.rs\<close>, with the account constants of
  \<open>instruction/utils/pumpswap.rs\<close>. A quote that is refused reaches an \<open>unwrap\<close>, so the builder panics.
\<close>

section \<open>Accounts\<close>

definition PS_GLOBAL_ACCOUNT_META :: account_meta where
  "PS_GLOBAL_ACCOUNT_META =
     meta_new_readonly 61987443123552210436212960437994886229520851524704557867491446875184385061078 False"

definition PS_FEE_RECIPIENT_META :: account_meta where
  "PS_FEE_RECIPIENT_META = meta_new_readonly FEE_RECIPIENT False"

definition ASSOCIATED_TOKEN_PROGRAM_META :: account_meta where
  "ASSOCIATED_TOKEN_PROGRAM_META = meta_new_readonly ASSOCIATED_TOKEN_PROGRAM_ID False"

definition PS_EVENT_AUTHORITY_META :: account_meta where
  "PS_EVENT_AUTHORITY_META =
     meta_new_readonly 103711166025251135384217996039211195609521911652160435636861738571840204862558 False"

definition AMM_PROGRAM_META :: account_meta where
  "AMM_PROGRAM_META = meta_new_readonly PUMPSWAP_AMM_PROGRAM False"

definition PS_GLOBAL_VOLUME_ACCUMULATOR_META :: account_meta where
  "PS_GLOBAL_VOLUME_ACCUMULATOR_META =
     meta_new 74108157563151492843208407665324938174752953899948001173627118846267422865332 False"

definition PS_FEE_CONFIG_META :: account_meta where
  "PS_FEE_CONFIG_META =
     meta_new_readonly 29464706357385414713769645186835977059079703131521542022689428520061930311883 False"

definition DEFAULT_COIN_CREATOR_VAULT_AUTHORITY :: pubkey where
  "DEFAULT_COIN_CREATOR_VAULT_AUTHORITY = 49481547726565048646318432650770227098260736760985282972522608138456165918381"

definition BUY_EXACT_QUOTE_IN_DISCRIMINATOR :: "u8 list" where
  "BUY_EXACT_QUOTE_IN_DISCRIMINATOR = [198, 46, 21, 82, 180, 217, 232, 112]"

definition get_mayhem_fee_recipient_random :: "chain_ext \<Rightarrow> pubkey \<times> account_meta" where
  "get_mayhem_fee_recipient_random ext =
     (let recipient = unwrap_or (choose_key ext MAYHEM_FEE_RECIPIENTS) (MAYHEM_FEE_RECIPIENTS ! 0)
      in (recipient, meta_new_readonly recipient False))"

section \<open>Pieces the two directions share\<close>

definition pool_has_wsol_or_usdc :: "pubkey \<Rightarrow> pubkey \<Rightarrow> bool" where
  "pool_has_wsol_or_usdc base_mint quote_mint =
     (let is_wsol = (base_mint = WSOL_TOKEN_ACCOUNT \<and> quote_mint \<noteq> USDC_TOKEN_ACCOUNT)
            \<or> (quote_mint = WSOL_TOKEN_ACCOUNT \<and> base_mint \<noteq> USDC_TOKEN_ACCOUNT);
          is_usdc = (base_mint = USDC_TOKEN_ACCOUNT \<and> quote_mint \<noteq> WSOL_TOKEN_ACCOUNT)
            \<or> (quote_mint = USDC_TOKEN_ACCOUNT \<and> base_mint \<noteq> WSOL_TOKEN_ACCOUNT)
      in is_wsol \<or> is_usdc)"

definition quote_is_wsol_or_usdc :: "pumpswap_params \<Rightarrow> bool" where
  "quote_is_wsol_or_usdc pp \<longleftrightarrow> ps_quote_mint pp = WSOL_TOKEN_ACCOUNT \<or> ps_quote_mint pp = USDC_TOKEN_ACCOUNT"

definition pumpswap_creator :: "pumpswap_params \<Rightarrow> pubkey" where
  "pumpswap_creator pp =
     (if ps_coin_creator_vault_authority pp \<noteq> DEFAULT_COIN_CREATOR_VAULT_AUTHORITY
      then ps_coin_creator_vault_authority pp else pubkey_default)"

text \<open>Token amount and SOL amount of a buy and of a sell, before the caller's fixed output replaces one of them.\<close>

definition pumpswap_buy_amounts :: "profile \<Rightarrow> swap_params \<Rightarrow> pumpswap_params \<Rightarrow> u64 \<Rightarrow> (u64 \<times> u64) rust" where
  "pumpswap_buy_amounts p params pp input_amount =
     (if quote_is_wsol_or_usdc pp then do {
        result \<leftarrow> buy_quote_input_internal p input_amount (sp_slippage params)
          (ps_pool_base_token_reserves pp) (ps_pool_quote_token_reserves pp) (pumpswap_creator pp);
        r \<leftarrow> unwrap_ok result;
        Some (bq_base r, bq_max_quote r)
      } else do {
        result \<leftarrow> sell_base_input_internal p input_amount (sp_slippage params)
          (ps_pool_base_token_reserves pp) (ps_pool_quote_token_reserves pp) (pumpswap_creator pp);
        r \<leftarrow> unwrap_ok result;
        Some (sb_min_quote r, input_amount)
      })"

definition pumpswap_sell_amounts :: "profile \<Rightarrow> swap_params \<Rightarrow> pumpswap_params \<Rightarrow> u64 \<Rightarrow> (u64 \<times> u64) rust" where
  "pumpswap_sell_amounts p params pp input_amount =
     (if quote_is_wsol_or_usdc pp then do {
        result \<leftarrow> sell_base_input_internal p input_amount (sp_slippage params)
          (ps_pool_base_token_reserves pp) (ps_pool_quote_token_reserves pp) (pumpswap_creator pp);
        r \<leftarrow> unwrap_ok result;
        Some (input_amount, sb_min_quote r)
      } else do {
        result \<leftarrow> buy_quote_input_internal p input_amount (sp_slippage params)
          (ps_pool_base_token_reserves pp) (ps_pool_quote_token_reserves pp) (pumpswap_creator pp);
        r \<leftarrow> unwrap_ok result;
        Some (bq_max_quote r, bq_base r)
      })"

definition pumpswap_buy_payload :: "profile \<Rightarrow> swap_params \<Rightarrow> pumpswap_params \<Rightarrow> u64 \<Rightarrow> u64 \<Rightarrow> u64 \<Rightarrow> u8 list rust" where
  "pumpswap_buy_payload p params pp input_amount token_amount sol_amount =
     (if quote_is_wsol_or_usdc pp
      then (if unwrap_or (sp_use_exact_sol_amount params) True
            then do {
              min_base_amount_out \<leftarrow> calculate_with_slippage_sell p token_amount (sp_slippage params);
              Some (BUY_EXACT_QUOTE_IN_DISCRIMINATOR @ to_le_bytes input_amount
                 @ to_le_bytes min_base_amount_out @ track_volume (ps_is_cashback_coin pp))
            }
            else Some (BUY_DISCRIMINATOR @ to_le_bytes token_amount @ to_le_bytes sol_amount
                 @ track_volume (ps_is_cashback_coin pp)))
      else Some (SELL_DISCRIMINATOR @ to_le_bytes sol_amount @ to_le_bytes token_amount))"

definition pumpswap_sell_payload :: "pumpswap_params \<Rightarrow> u64 \<Rightarrow> u64 \<Rightarrow> u8 list" where
  "pumpswap_sell_payload pp token_amount sol_amount =
     (if quote_is_wsol_or_usdc pp then SELL_DISCRIMINATOR @ to_le_bytes token_amount @ to_le_bytes sol_amount
      else BUY_DISCRIMINATOR @ to_le_bytes sol_amount @ to_le_bytes token_amount)"

definition pumpswap_fee_accounts :: "chain_ext \<Rightarrow> pumpswap_params \<Rightarrow> (caches, account_meta \<times> pubkey) prog" where
  "pumpswap_fee_accounts ext pp =
     (let (fee_recipient, fee_recipient_meta) =
            (if ps_is_mayhem_mode pp then get_mayhem_fee_recipient_random ext else (FEE_RECIPIENT, PS_FEE_RECIPIENT_META))
      in then_do (if ps_is_mayhem_mode pp then fee_recipient_ata ext fee_recipient WSOL_TOKEN_ACCOUNT
                  else fee_recipient_ata ext fee_recipient (ps_quote_mint pp))
           (\<lambda>ata. ret (fee_recipient_meta, ata)))"

text \<open>The nineteen accounts both instructions start with.\<close>

definition pumpswap_base_accounts ::
  "swap_params \<Rightarrow> pumpswap_params \<Rightarrow> pubkey \<Rightarrow> pubkey \<Rightarrow> account_meta \<Rightarrow> pubkey \<Rightarrow> account_meta list" where
  "pumpswap_base_accounts params pp user_base user_quote fee_meta fee_ata = [
     meta_new (ps_pool pp) False,
     meta_new (sp_payer params) True,
     PS_GLOBAL_ACCOUNT_META,
     meta_new_readonly (ps_base_mint pp) False,
     meta_new_readonly (ps_quote_mint pp) False,
     meta_new user_base False,
     meta_new user_quote False,
     meta_new (ps_pool_base_token_account pp) False,
     meta_new (ps_pool_quote_token_account pp) False,
     fee_meta,
     meta_new fee_ata False,
     meta_new_readonly (ps_base_token_program pp) False,
     meta_new_readonly (ps_quote_token_program pp) False,
     SYSTEM_PROGRAM_META,
     ASSOCIATED_TOKEN_PROGRAM_META,
     PS_EVENT_AUTHORITY_META,
     AMM_PROGRAM_META,
     meta_new (ps_coin_creator_vault_ata pp) False,
     meta_new_readonly (ps_coin_creator_vault_authority pp) False]"

definition volume_accounts :: "chain_ext \<Rightarrow> pubkey \<Rightarrow> bool \<Rightarrow> (caches, account_meta list) prog" where
  "volume_accounts ext payer wanted =
     on_flag wanted
       (then_do (require ''user_volume_accumulator PDA derivation failed'' (pumpswap_get_user_volume_accumulator_pda ext payer))
          (\<lambda>uva. ret [PS_GLOBAL_VOLUME_ACCUMULATOR_META, meta_new uva False]))"

definition buy_cashback_accounts :: "chain_ext \<Rightarrow> pubkey \<Rightarrow> (caches, account_meta list) prog" where
  "buy_cashback_accounts ext payer =
     then_do (get_user_volume_accumulator_wsol_ata ext payer) (\<lambda>ata. case ata of
       Some wsol_ata \<Rightarrow> ret [meta_new wsol_ata False] | None \<Rightarrow> ret [])"

definition sell_cashback_accounts :: "chain_ext \<Rightarrow> pubkey \<Rightarrow> pumpswap_params \<Rightarrow> (caches, account_meta list) prog" where
  "sell_cashback_accounts ext payer pp =
     then_do (get_user_volume_accumulator_quote_ata ext payer (ps_quote_mint pp) (ps_quote_token_program pp)) (\<lambda>ata.
     then_do (pumpswap_get_user_volume_accumulator_pda ext payer) (\<lambda>acc. case ata of
       None \<Rightarrow> ret []
     | Some quote_ata \<Rightarrow> (case acc of
         None \<Rightarrow> ret []
       | Some accumulator \<Rightarrow> ret [meta_new quote_ata False, meta_new accumulator False])))"

section \<open>The builder\<close>

definition pumpswap_build_buy_instructions :: "chain_ext \<Rightarrow> profile \<Rightarrow> swap_params \<Rightarrow> (caches, instruction list) prog" where
  "pumpswap_build_buy_instructions ext p params =
     (case sp_protocol_params params of
        DexPumpSwap pp \<Rightarrow>
          if unwrap_or (sp_input_amount params) 0 = 0 then fail ''Amount cannot be zero''
          else if \<not> pool_has_wsol_or_usdc (ps_base_mint pp) (ps_quote_mint pp) then fail ''Pool must contain WSOL or USDC''
          else
            let input_amount = unwrap_or (sp_input_amount params) 0;
                payer = sp_payer params;
                quote_side = quote_is_wsol_or_usdc pp
            in
            then_do (of_rust (pumpswap_buy_amounts p params pp input_amount)) (\<lambda>(quoted_amount, sol_amount).
            let token_amount = unwrap_or (sp_fixed_output_amount params) quoted_amount in
            then_do (get_associated_token_address_with_program_id_fast_use_seed ext payer (ps_base_mint pp)
                       (ps_base_token_program pp) (sp_open_seed_optimize params)) (\<lambda>user_base_token_account.
            then_do (get_associated_token_address_with_program_id_fast_use_seed ext payer (ps_quote_mint pp)
                       (ps_quote_token_program pp) (sp_open_seed_optimize params)) (\<lambda>user_quote_token_account.
            then_do (pumpswap_fee_accounts ext pp) (\<lambda>(fee_recipient_meta, fee_ata).
            then_do (on_flag (sp_create_input_mint_ata params) (handle_wsol ext payer
                       (if quote_side \<and> unwrap_or (sp_use_exact_sol_amount params) True then input_amount else sol_amount)))
              (\<lambda>wrap_ixs.
            then_do (on_flag (sp_create_output_mint_ata params)
                       (create_associated_token_account_idempotent_fast_use_seed ext payer payer
                          (if quote_side then ps_base_mint pp else ps_quote_mint pp)
                          (if quote_side then ps_base_token_program pp else ps_quote_token_program pp)
                          (sp_open_seed_optimize params))) (\<lambda>create_ixs.
            then_do (volume_accounts ext payer quote_side) (\<lambda>volume.
            then_do (on_flag (ps_is_cashback_coin pp) (buy_cashback_accounts ext payer)) (\<lambda>cashback.
            then_do (ok_or ''pool_v2 PDA derivation failed'' (get_pool_v2_pda ext (ps_base_mint pp))) (\<lambda>pool_v2.
            then_do (of_rust (pumpswap_buy_payload p params pp input_amount token_amount sol_amount)) (\<lambda>ix_data.
            then_do (on_flag (sp_close_input_mint_ata params) (close_wsol ext payer)) (\<lambda>close_ixs.
            ret (wrap_ixs @ create_ixs @
              [\<lparr>program_id = PUMPSWAP_AMM_PROGRAM,
                accounts = pumpswap_base_accounts params pp user_base_token_account user_quote_token_account
                             fee_recipient_meta fee_ata
                           @ volume @ [PS_FEE_CONFIG_META, FEE_PROGRAM_META] @ cashback @ [meta_new_readonly pool_v2 False],
                data = ix_data\<rparr>] @ close_ixs))))))))))))
      | _ \<Rightarrow> fail ''Invalid protocol params for PumpSwap'')"

definition pumpswap_build_sell_instructions :: "chain_ext \<Rightarrow> profile \<Rightarrow> swap_params \<Rightarrow> (caches, instruction list) prog" where
  "pumpswap_build_sell_instructions ext p params =
     (case sp_protocol_params params of
        DexPumpSwap pp \<Rightarrow>
          if \<not> pool_has_wsol_or_usdc (ps_base_mint pp) (ps_quote_mint pp) then fail ''Pool must contain WSOL or USDC''
          else (case sp_input_amount params of
            None \<Rightarrow> fail ''Token amount is not set''
          | Some input_amount \<Rightarrow>
            let payer = sp_payer params;
                quote_side = quote_is_wsol_or_usdc pp
            in
            then_do (of_rust (pumpswap_sell_amounts p params pp input_amount)) (\<lambda>(token_amount, quoted_amount).
            let sol_amount = unwrap_or (sp_fixed_output_amount params) quoted_amount in
            then_do (pumpswap_fee_accounts ext pp) (\<lambda>(fee_recipient_meta, fee_ata).
            then_do (get_associated_token_address_with_program_id_fast_use_seed ext payer (ps_base_mint pp)
                       (ps_base_token_program pp) (sp_open_seed_optimize params)) (\<lambda>user_base_token_account.
            then_do (get_associated_token_address_with_program_id_fast_use_seed ext payer (ps_quote_mint pp)
                       (ps_quote_token_program pp) (sp_open_seed_optimize params)) (\<lambda>user_quote_token_account.
            then_do (on_flag (sp_create_output_mint_ata params) (create_wsol_ata ext payer)) (\<lambda>create_ixs.
            then_do (volume_accounts ext payer (\<not> quote_side)) (\<lambda>volume.
            then_do (on_flag (ps_is_cashback_coin pp) (sell_cashback_accounts ext payer pp)) (\<lambda>cashback.
            then_do (ok_or ''pool_v2 PDA derivation failed'' (get_pool_v2_pda ext (ps_base_mint pp))) (\<lambda>pool_v2.
            then_do (on_flag (sp_close_output_mint_ata params) (close_wsol ext payer)) (\<lambda>close_ixs.
            ret (create_ixs @
              [\<lparr>program_id = PUMPSWAP_AMM_PROGRAM,
                accounts = pumpswap_base_accounts params pp user_base_token_account user_quote_token_account
                             fee_recipient_meta fee_ata
                           @ volume @ [PS_FEE_CONFIG_META, FEE_PROGRAM_META] @ cashback @ [meta_new_readonly pool_v2 False],
                data = pumpswap_sell_payload pp token_amount sol_amount\<rparr>]
              @ close_ixs
              @ (if sp_close_input_mint_ata params
                 then [close_account (if quote_side then ps_base_token_program pp else ps_quote_token_program pp)
                         (if quote_side then user_base_token_account else user_quote_token_account) payer payer [payer]]
                 else []))))))))))))
      | _ \<Rightarrow> fail ''Invalid protocol params for PumpSwap'')"

definition claim_cashback_pumpswap_instruction ::
  "chain_ext \<Rightarrow> pubkey \<Rightarrow> pubkey \<Rightarrow> pubkey \<Rightarrow> (caches, instruction option) prog" where
  "claim_cashback_pumpswap_instruction ext payer quote_mint quote_token_program =
     then_do (pumpswap_get_user_volume_accumulator_pda ext payer) (\<lambda>acc. case acc of
       None \<Rightarrow> ret None
     | Some user_volume_accumulator \<Rightarrow>
         then_do (get_user_volume_accumulator_wsol_ata ext payer) (\<lambda>ata. case ata of
           None \<Rightarrow> ret None
         | Some accumulator_wsol_ata \<Rightarrow>
             then_do (get_associated_token_address_with_program_id_fast ext payer quote_mint quote_token_program) (\<lambda>user_wsol_ata.
             ret (Some \<lparr>program_id = PUMPSWAP_AMM_PROGRAM,
               accounts = [meta_new payer True, meta_new user_volume_accumulator False, meta_new_readonly quote_mint False,
                 meta_new_readonly quote_token_program False, meta_new accumulator_wsol_ata False,
                 meta_new user_wsol_ata False, SYSTEM_PROGRAM_META, PS_EVENT_AUTHORITY_META, AMM_PROGRAM_META],
               data = CLAIM_CASHBACK_DISCRIMINATOR\<rparr>))))"

section \<open>What the pieces yield\<close>

definition pumpswap_fee_spec :: "chain_ext \<Rightarrow> pumpswap_params \<Rightarrow> account_meta \<times> pubkey" where
  "pumpswap_fee_spec ext pp =
     (let k = (if ps_is_mayhem_mode pp then fst (get_mayhem_fee_recipient_random ext) else FEE_RECIPIENT)
      in (meta_new_readonly k False, get_associated_token_address_with_program_id ext k
            (if ps_is_mayhem_mode pp then WSOL_TOKEN_ACCOUNT else ps_quote_mint pp) TOKEN_PROGRAM))"

lemma pumpswap_fee_yields: "yields (coherent ext r1 r2) (pumpswap_fee_accounts ext pp) (Ok (pumpswap_fee_spec ext pp))"
  unfolding pumpswap_fee_accounts_def pumpswap_fee_spec_def get_mayhem_fee_recipient_random_def fee_recipient_ata_def
  by (auto simp: Let_def PS_FEE_RECIPIENT_META_def intro!: yields_then [OF ata_plain_yields] yields_basic)

lemma returns_fee_accounts [returns_dest]:
  "returns (coherent ext r1 r2) (then_do (pumpswap_fee_accounts ext pp) f) b
     \<Longrightarrow> returns (coherent ext r1 r2) (f (pumpswap_fee_spec ext pp)) b"
  by (erule returns_then_ok) (rule pumpswap_fee_yields)

lemma returns_volume_accounts [returns_dest]:
  "returns (coherent ext r1 r2) (then_do (volume_accounts ext payer wanted) f) b
     \<Longrightarrow> \<exists>uva. (wanted \<longrightarrow> pda_spec ext (PumpSwapUserVolume payer) = Some uva)
          \<and> returns (coherent ext r1 r2) (f (if wanted then [PS_GLOBAL_VOLUME_ACCUMULATOR_META, meta_new uva False] else [])) b"
  unfolding volume_accounts_def pda_getters on_flag_def
  by (cases wanted) (auto simp: then_do_push simp del: pda_spec.simps prog_simps(1,2,3) dest!: returns_dest)

lemma transparent_volume_accounts [transparent_intro]: "transparent (coherent ext r1 r2) (volume_accounts ext payer wanted)"
  unfolding volume_accounts_def pda_getters by (intro transparent_intro)

lemma accumulator_ata_yields:
  "yields (coherent ext r1 r2) (get_user_volume_accumulator_wsol_ata ext user)
     (Ok (map_option (\<lambda>a. wsol_of ext a) (pda_spec ext (PumpSwapUserVolume user))))"
  "yields (coherent ext r1 r2) (get_user_volume_accumulator_quote_ata ext user m p)
     (Ok (map_option (\<lambda>a. get_associated_token_address_with_program_id ext a m p) (pda_spec ext (PumpSwapUserVolume user))))"
  unfolding get_user_volume_accumulator_wsol_ata_def get_user_volume_accumulator_quote_ata_def pda_getters
  by (auto intro!: yields_cached_pda yields_then [OF ata_plain_yields] yields_basic simp del: pda_spec.simps split: option.split)

lemma returns_accumulator_ata [returns_dest]:
  "returns (coherent ext r1 r2) (then_do (get_user_volume_accumulator_wsol_ata ext user) f) b \<Longrightarrow> returns (coherent ext r1 r2)
     (f (map_option (\<lambda>a. wsol_of ext a) (pda_spec ext (PumpSwapUserVolume user)))) b"
  "returns (coherent ext r1 r2) (then_do (get_user_volume_accumulator_quote_ata ext user m p) f) b \<Longrightarrow> returns (coherent ext r1 r2)
     (f (map_option (\<lambda>a. get_associated_token_address_with_program_id ext a m p) (pda_spec ext (PumpSwapUserVolume user)))) b"
  by (erule returns_then_ok, rule accumulator_ata_yields)+

definition buy_cashback_spec :: "chain_ext \<Rightarrow> pubkey \<Rightarrow> account_meta list" where
  "buy_cashback_spec ext payer = (case pda_spec ext (PumpSwapUserVolume payer) of
     None \<Rightarrow> [] | Some acc \<Rightarrow> [meta_new (wsol_of ext acc) False])"

definition sell_cashback_spec :: "chain_ext \<Rightarrow> pubkey \<Rightarrow> pumpswap_params \<Rightarrow> account_meta list" where
  "sell_cashback_spec ext payer pp = (case pda_spec ext (PumpSwapUserVolume payer) of
     None \<Rightarrow> []
   | Some acc \<Rightarrow> [meta_new (get_associated_token_address_with_program_id ext acc (ps_quote_mint pp) (ps_quote_token_program pp)) False,
                 meta_new acc False])"

lemma cashback_yields:
  "yields (coherent ext r1 r2) (buy_cashback_accounts ext payer) (Ok (buy_cashback_spec ext payer))"
  "yields (coherent ext r1 r2) (sell_cashback_accounts ext payer pp) (Ok (sell_cashback_spec ext payer pp))"
  unfolding buy_cashback_accounts_def buy_cashback_spec_def sell_cashback_accounts_def sell_cashback_spec_def pda_getters
  by (auto intro!: yields_then [OF accumulator_ata_yields(1)] yields_then [OF accumulator_ata_yields(2)] yields_cached_pda yields_basic
      simp del: pda_spec.simps prog_simps split: option.split)

lemma returns_blocks [returns_dest]:
  "returns (coherent ext r1 r2) (then_do (on_flag c (handle_wsol ext payer amount)) f) b \<Longrightarrow> returns (coherent ext r1 r2)
     (f (if c then [create_ata_ix ext payer, ix_transfer ext payer (wsol_of ext payer) amount, sync_native (wsol_of ext payer)] else [])) b"
  "returns (coherent ext r1 r2) (then_do (on_flag c (create_wsol_ata ext payer)) f) b \<Longrightarrow> returns (coherent ext r1 r2)
     (f (if c then [create_ata_ix ext payer] else [])) b"
  "returns (coherent ext r1 r2) (then_do (on_flag c (close_wsol ext payer)) f) b \<Longrightarrow> returns (coherent ext r1 r2)
     (f (if c then [close_account TOKEN_PROGRAM (wsol_of ext payer) payer payer []] else [])) b"
  by (erule returns_then_ok, rule yields_on_flag, rule handle_wsol_yields create_wsol_ata_yields close_wsol_yields')+

lemma returns_cashback [returns_dest]:
  "returns (coherent ext r1 r2) (then_do (on_flag c (buy_cashback_accounts ext payer)) f) b \<Longrightarrow> returns (coherent ext r1 r2)
     (f (if c then buy_cashback_spec ext payer else [])) b"
  "returns (coherent ext r1 r2) (then_do (on_flag c (sell_cashback_accounts ext payer pp)) f) b \<Longrightarrow> returns (coherent ext r1 r2)
     (f (if c then sell_cashback_spec ext payer pp else [])) b"
  by (erule returns_then_ok, rule yields_on_flag, rule cashback_yields)+

lemma returns_create_block [returns_dest]:
  "returns (coherent ext r1 r2) (then_do (on_flag c (create_associated_token_account_idempotent_fast_use_seed ext payer owner m p u)) f) b
     \<Longrightarrow> \<exists>ixs. (c \<longrightarrow> ix_spec ext r1 r2 (CreateAssociatedTokenAccount payer owner m p u) = Ok ixs)
           \<and> returns (coherent ext r1 r2) (f (if c then ixs else [])) b"
  by (erule returns_on_flag) (rule create_ata_yields)

lemmas pumpswap_transparent [transparent_intro] = transparentI [OF cashback_yields(1)] transparentI [OF cashback_yields(2)]
  transparentI [OF pumpswap_fee_yields] transparentI [OF accumulator_ata_yields(1)]
  transparentI [OF accumulator_ata_yields(2)]

lemma transparent_case_prod [transparent_intro]:
  "(\<And>a b. transparent I (f a b)) \<Longrightarrow> transparent I (case x of (a, b) \<Rightarrow> f a b)"
  by (cases x) simp

lemma pumpswap_buy_transparent: "transparent (coherent ext r1 r2) (pumpswap_build_buy_instructions ext p params)"
  unfolding pumpswap_build_buy_instructions_def Let_def pda_getters
  by (cases "sp_protocol_params params") (simp, intro transparent_intro | simp add: transparent_intro)+

lemma pumpswap_sell_transparent: "transparent (coherent ext r1 r2) (pumpswap_build_sell_instructions ext p params)"
  unfolding pumpswap_build_sell_instructions_def Let_def pda_getters
  by (cases "sp_protocol_params params") (simp, intro transparent_intro | simp add: transparent_intro)+

section \<open>What the builder puts on the wire\<close>

lemma ps_discriminator_length [simp]: "length BUY_EXACT_QUOTE_IN_DISCRIMINATOR = 8"
  by (simp add: BUY_EXACT_QUOTE_IN_DISCRIMINATOR_def)

lemma ps_metas [simp]:
  "\<not> is_signer PS_GLOBAL_ACCOUNT_META" "\<not> is_signer ASSOCIATED_TOKEN_PROGRAM_META" "\<not> is_signer PS_EVENT_AUTHORITY_META"
  "\<not> is_signer AMM_PROGRAM_META" "\<not> is_signer PS_GLOBAL_VOLUME_ACCUMULATOR_META" "\<not> is_signer PS_FEE_CONFIG_META"
  "\<not> is_signer (fst (pumpswap_fee_spec ext pp))"
  by (simp_all add: PS_GLOBAL_ACCOUNT_META_def ASSOCIATED_TOKEN_PROGRAM_META_def PS_EVENT_AUTHORITY_META_def AMM_PROGRAM_META_def
      PS_GLOBAL_VOLUME_ACCUMULATOR_META_def PS_FEE_CONFIG_META_def pumpswap_fee_spec_def Let_def)

text \<open>The accounts a swap of either direction is about.\<close>

definition pumpswap_accounts_wire :: "chain_ext \<Rightarrow> swap_params \<Rightarrow> pumpswap_params \<Rightarrow> instruction \<Rightarrow> bool" where
  "pumpswap_accounts_wire ext params pp ix \<longleftrightarrow>
     program_id ix = PUMPSWAP_AMM_PROGRAM \<and> sole_signer (sp_payer params) ix
     \<and> accounts ix ! 0 = meta_new (ps_pool pp) False
     \<and> ata_spec ext (sp_payer params, ps_base_mint pp, ps_base_token_program pp, sp_open_seed_optimize params)
         = Ok (meta_pubkey (accounts ix ! 5))
     \<and> ata_spec ext (sp_payer params, ps_quote_mint pp, ps_quote_token_program pp, sp_open_seed_optimize params)
         = Ok (meta_pubkey (accounts ix ! 6))
     \<and> accounts ix ! 7 = meta_new (ps_pool_base_token_account pp) False
     \<and> accounts ix ! 8 = meta_new (ps_pool_quote_token_account pp) False
     \<and> (accounts ix ! 9, meta_pubkey (accounts ix ! 10)) = pumpswap_fee_spec ext pp
     \<and> get_pool_v2_pda ext (ps_base_mint pp) = Some (meta_pubkey (last (accounts ix)))"

definition pumpswap_buy_data :: "profile \<Rightarrow> swap_params \<Rightarrow> pumpswap_params \<Rightarrow> u64 \<Rightarrow> u8 list \<Rightarrow> bool" where
  "pumpswap_buy_data p params pp amount bytes \<longleftrightarrow>
     (if quote_is_wsol_or_usdc pp then
        (\<exists>q. buy_quote_input_internal p amount (sp_slippage params) (ps_pool_base_token_reserves pp)
               (ps_pool_quote_token_reserves pp) (pumpswap_creator pp) = Some (Inr q)
          \<and> length bytes = 26
          \<and> (let tokens = unwrap_or (sp_fixed_output_amount params) (bq_base q) in
             if unwrap_or (sp_use_exact_sol_amount params) True
             then take 8 bytes = BUY_EXACT_QUOTE_IN_DISCRIMINATOR \<and> u64_field bytes 8 = unat amount
               \<and> map_option unat (calculate_with_slippage_sell p tokens (sp_slippage params)) = Some (u64_field bytes 16)
             else take 8 bytes = BUY_DISCRIMINATOR \<and> u64_field bytes 8 = unat tokens
               \<and> u64_field bytes 16 = unat (bq_max_quote q)))
      else (\<exists>q. sell_base_input_internal p amount (sp_slippage params) (ps_pool_base_token_reserves pp)
               (ps_pool_quote_token_reserves pp) (pumpswap_creator pp) = Some (Inr q)
          \<and> length bytes = 24 \<and> take 8 bytes = SELL_DISCRIMINATOR \<and> u64_field bytes 8 = unat amount
          \<and> u64_field bytes 16 = unat (unwrap_or (sp_fixed_output_amount params) (sb_min_quote q))))"

text \<open>What the instruction allows the program to spend: the exact amount, or the bound.\<close>

definition spend_limit :: "swap_params \<Rightarrow> pumpswap_params \<Rightarrow> u8 list \<Rightarrow> nat" where
  "spend_limit params pp bytes =
     (if quote_is_wsol_or_usdc pp \<and> \<not> unwrap_or (sp_use_exact_sol_amount params) True then u64_field bytes 16 else u64_field bytes 8)"

definition pumpswap_buy_wire :: "chain_ext \<Rightarrow> profile \<Rightarrow> swap_params \<Rightarrow> pumpswap_params \<Rightarrow> instruction list \<Rightarrow> bool" where
  "pumpswap_buy_wire ext p params pp ixs \<longleftrightarrow>
     (\<exists>amount wrapped create ix. sp_input_amount params = Some amount \<and> amount \<noteq> 0
        \<and> ixs = (if sp_create_input_mint_ata params
                 then [create_ata_ix ext (sp_payer params), ix_transfer ext (sp_payer params) (wsol_of ext (sp_payer params)) wrapped,
                       sync_native (wsol_of ext (sp_payer params))] else [])
            @ create @ [ix]
            @ (if sp_close_input_mint_ata params
               then [close_account TOKEN_PROGRAM (wsol_of ext (sp_payer params)) (sp_payer params) (sp_payer params) []] else [])
        \<and> (\<not> sp_create_output_mint_ata params \<longrightarrow> create = [])
        \<and> pumpswap_accounts_wire ext params pp ix
        \<and> pumpswap_buy_data p params pp amount (data ix)
        \<and> unat wrapped = spend_limit params pp (data ix))"

lemma u64_field_second_end: "length disc = 8 \<Longrightarrow> u64_field (disc @ to_le_bytes (a :: u64) @ to_le_bytes (b :: u64)) 16 = unat b"
  using u64_field_second [of disc a b "[]"] by simp

lemmas field_simps = u64_field_first u64_field_second u64_field_second_end

lemma unwrap_ok_Some: "unwrap_ok y = Some r \<longleftrightarrow> y = Inr r"
  by (cases y) simp_all

lemma buy_payload_data:
  assumes "pumpswap_buy_amounts p params pp amount = Some (q, sol)"
    and "pumpswap_buy_payload p params pp amount (unwrap_or (sp_fixed_output_amount params) q) sol = Some bytes"
  shows "pumpswap_buy_data p params pp amount bytes"
    and "spend_limit params pp bytes
      = unat (if quote_is_wsol_or_usdc pp \<and> unwrap_or (sp_use_exact_sol_amount params) True then amount else sol)"
  using assms
  by (auto simp: pumpswap_buy_amounts_def pumpswap_buy_payload_def pumpswap_buy_data_def spend_limit_def field_simps Let_def
      unwrap_ok_Some bind_eq_Some_conv split: if_splits)

lemma cashback_no_signer [simp]:
  "filter is_signer (buy_cashback_spec ext payer) = []" "filter is_signer (sell_cashback_spec ext payer pp) = []"
  by (simp_all add: buy_cashback_spec_def sell_cashback_spec_def split: option.split)

lemma accounts_wireI:
  assumes "ata_spec ext (sp_payer params, ps_base_mint pp, ps_base_token_program pp, sp_open_seed_optimize params) = Ok a"
    and "ata_spec ext (sp_payer params, ps_quote_mint pp, ps_quote_token_program pp, sp_open_seed_optimize params) = Ok b"
    and "pumpswap_fee_spec ext pp = (fm, fa)" and "get_pool_v2_pda ext (ps_base_mint pp) = Some v"
    and "filter is_signer vol = []" and "filter is_signer cb = []"
  shows "pumpswap_accounts_wire ext params pp \<lparr>program_id = PUMPSWAP_AMM_PROGRAM,
     accounts = pumpswap_base_accounts params pp a b fm fa @ vol @ [PS_FEE_CONFIG_META, FEE_PROGRAM_META] @ cb @ [meta_new_readonly v False],
     data = bytes\<rparr>"
proof -
  have "\<not> is_signer fm" using ps_metas(7) [of ext pp] assms(3) by simp
  then show ?thesis
    using assms by (simp add: pumpswap_accounts_wire_def pumpswap_base_accounts_def sole_signer_def del: ata_spec.simps)
qed

lemma pumpswap_buy_returns:
  assumes "returns (coherent ext r1 r2) (pumpswap_build_buy_instructions ext p params) ixs"
  shows "\<exists>pp. sp_protocol_params params = DexPumpSwap pp \<and> pumpswap_buy_wire ext p params pp ixs"
proof -
  obtain pp where pp: "sp_protocol_params params = DexPumpSwap pp"
    using assms by (cases "sp_protocol_params params") (auto simp: pumpswap_build_buy_instructions_def)
  obtain amount where amount: "sp_input_amount params = Some amount" "amount \<noteq> 0"
    using assms by (cases "sp_input_amount params") (auto simp: pumpswap_build_buy_instructions_def pp split: if_splits)
  obtain fm fa where fee: "pumpswap_fee_spec ext pp = (fm, fa)" by (cases "pumpswap_fee_spec ext pp")
  have pool: "pool_has_wsol_or_usdc (ps_base_mint pp) (ps_quote_mint pp)"
    using assms by (auto simp: pumpswap_build_buy_instructions_def pp split: if_splits)
  obtain q sol where amounts: "pumpswap_buy_amounts p params pp amount = Some (q, sol)"
    using assms pool amount
    by (cases "pumpswap_buy_amounts p params pp amount") (auto simp: pumpswap_build_buy_instructions_def pp)
  obtain a b create uva v bytes where shape:
    "ata_spec ext (sp_payer params, ps_base_mint pp, ps_base_token_program pp, sp_open_seed_optimize params) = Ok a"
    "ata_spec ext (sp_payer params, ps_quote_mint pp, ps_quote_token_program pp, sp_open_seed_optimize params) = Ok b"
    "get_pool_v2_pda ext (ps_base_mint pp) = Some v"
    "pumpswap_buy_payload p params pp amount (unwrap_or (sp_fixed_output_amount params) q) sol = Some bytes"
    "ixs = (if sp_create_input_mint_ata params
         then [create_ata_ix ext (sp_payer params),
               ix_transfer ext (sp_payer params) (wsol_of ext (sp_payer params))
                 (if quote_is_wsol_or_usdc pp \<and> unwrap_or (sp_use_exact_sol_amount params) True then amount else sol),
               sync_native (wsol_of ext (sp_payer params))] else [])
       @ (if sp_create_output_mint_ata params then create else [])
       @ [\<lparr>program_id = PUMPSWAP_AMM_PROGRAM,
           accounts = pumpswap_base_accounts params pp a b fm fa
             @ (if quote_is_wsol_or_usdc pp then [PS_GLOBAL_VOLUME_ACCUMULATOR_META, meta_new uva False] else [])
             @ [PS_FEE_CONFIG_META, FEE_PROGRAM_META]
             @ (if ps_is_cashback_coin pp then buy_cashback_spec ext (sp_payer params) else []) @ [meta_new_readonly v False],
           data = bytes\<rparr>]
       @ (if sp_close_input_mint_ata params
          then [close_account TOKEN_PROGRAM (wsol_of ext (sp_payer params)) (sp_payer params) (sp_payer params) []] else [])"
    using assms pool amount(2)
    unfolding pumpswap_build_buy_instructions_def pp dex_param_enum.case Let_def amount(1) unwrap_or_simps
    by (simp add: amounts del: pda_spec.simps ata_spec.simps ix_spec.simps prog_simps(1,2,3) split del: if_split)
       ((drule returns_dest)+, (elim exE conjE)?,
        (simp add: fee del: pda_spec.simps ata_spec.simps ix_spec.simps prog_simps(1,2,3) split del: if_split)?)+
  note payload = buy_payload_data [OF amounts shape(4)]
  have "pumpswap_buy_wire ext p params pp ixs"
    unfolding pumpswap_buy_wire_def
    by (intro exI conjI, rule amount(1), rule amount(2), rule shape(5), simp, rule accounts_wireI [OF shape(1,2) fee shape(3)])
       (simp_all add: payload)
  then show ?thesis using pp by blast
qed

definition pumpswap_sell_data :: "profile \<Rightarrow> swap_params \<Rightarrow> pumpswap_params \<Rightarrow> u64 \<Rightarrow> u8 list \<Rightarrow> bool" where
  "pumpswap_sell_data p params pp amount bytes \<longleftrightarrow> length bytes = 24 \<and>
     (if quote_is_wsol_or_usdc pp then
        (\<exists>q. sell_base_input_internal p amount (sp_slippage params) (ps_pool_base_token_reserves pp)
               (ps_pool_quote_token_reserves pp) (pumpswap_creator pp) = Some (Inr q)
          \<and> take 8 bytes = SELL_DISCRIMINATOR \<and> u64_field bytes 8 = unat amount
          \<and> u64_field bytes 16 = unat (unwrap_or (sp_fixed_output_amount params) (sb_min_quote q)))
      else (\<exists>q. buy_quote_input_internal p amount (sp_slippage params) (ps_pool_base_token_reserves pp)
               (ps_pool_quote_token_reserves pp) (pumpswap_creator pp) = Some (Inr q)
          \<and> take 8 bytes = BUY_DISCRIMINATOR
          \<and> u64_field bytes 8 = unat (unwrap_or (sp_fixed_output_amount params) (bq_base q))
          \<and> u64_field bytes 16 = unat (bq_max_quote q)))"

definition pumpswap_sell_wire :: "chain_ext \<Rightarrow> profile \<Rightarrow> swap_params \<Rightarrow> pumpswap_params \<Rightarrow> instruction list \<Rightarrow> bool" where
  "pumpswap_sell_wire ext p params pp ixs \<longleftrightarrow>
     (\<exists>amount ix. sp_input_amount params = Some amount
        \<and> ixs = (if sp_create_output_mint_ata params then [create_ata_ix ext (sp_payer params)] else [])
            @ [ix]
            @ (if sp_close_output_mint_ata params
               then [close_account TOKEN_PROGRAM (wsol_of ext (sp_payer params)) (sp_payer params) (sp_payer params) []] else [])
            @ (if sp_close_input_mint_ata params
               then [close_account (if quote_is_wsol_or_usdc pp then ps_base_token_program pp else ps_quote_token_program pp)
                       (meta_pubkey (accounts ix ! (if quote_is_wsol_or_usdc pp then 5 else 6)))
                       (sp_payer params) (sp_payer params) [sp_payer params]] else [])
        \<and> pumpswap_accounts_wire ext params pp ix
        \<and> pumpswap_sell_data p params pp amount (data ix))"

lemma sell_payload_data:
  assumes "pumpswap_sell_amounts p params pp amount = Some (tokens, q)"
  shows "pumpswap_sell_data p params pp amount (pumpswap_sell_payload pp tokens (unwrap_or (sp_fixed_output_amount params) q))"
  using assms
  by (auto simp: pumpswap_sell_amounts_def pumpswap_sell_payload_def pumpswap_sell_data_def field_simps
      unwrap_ok_Some bind_eq_Some_conv split: if_splits)

lemma pumpswap_sell_returns:
  assumes "returns (coherent ext r1 r2) (pumpswap_build_sell_instructions ext p params) ixs"
  shows "\<exists>pp. sp_protocol_params params = DexPumpSwap pp \<and> pumpswap_sell_wire ext p params pp ixs"
proof -
  obtain pp where pp: "sp_protocol_params params = DexPumpSwap pp"
    using assms by (cases "sp_protocol_params params") (auto simp: pumpswap_build_sell_instructions_def)
  obtain amount where amount: "sp_input_amount params = Some amount"
    using assms by (cases "sp_input_amount params") (auto simp: pumpswap_build_sell_instructions_def pp split: if_splits)
  obtain fm fa where fee: "pumpswap_fee_spec ext pp = (fm, fa)" by (cases "pumpswap_fee_spec ext pp")
  have pool: "pool_has_wsol_or_usdc (ps_base_mint pp) (ps_quote_mint pp)"
    using assms by (auto simp: pumpswap_build_sell_instructions_def pp split: if_splits)
  obtain tokens q where amounts: "pumpswap_sell_amounts p params pp amount = Some (tokens, q)"
    using assms pool amount
    by (cases "pumpswap_sell_amounts p params pp amount") (auto simp: pumpswap_build_sell_instructions_def pp)
  obtain a b uva v where shape:
    "ata_spec ext (sp_payer params, ps_base_mint pp, ps_base_token_program pp, sp_open_seed_optimize params) = Ok a"
    "ata_spec ext (sp_payer params, ps_quote_mint pp, ps_quote_token_program pp, sp_open_seed_optimize params) = Ok b"
    "get_pool_v2_pda ext (ps_base_mint pp) = Some v"
    "ixs = (if sp_create_output_mint_ata params then [create_ata_ix ext (sp_payer params)] else [])
       @ [\<lparr>program_id = PUMPSWAP_AMM_PROGRAM,
           accounts = pumpswap_base_accounts params pp a b fm fa
             @ (if \<not> quote_is_wsol_or_usdc pp then [PS_GLOBAL_VOLUME_ACCUMULATOR_META, meta_new uva False] else [])
             @ [PS_FEE_CONFIG_META, FEE_PROGRAM_META]
             @ (if ps_is_cashback_coin pp then sell_cashback_spec ext (sp_payer params) pp else []) @ [meta_new_readonly v False],
           data = pumpswap_sell_payload pp tokens (unwrap_or (sp_fixed_output_amount params) q)\<rparr>]
       @ (if sp_close_output_mint_ata params
          then [close_account TOKEN_PROGRAM (wsol_of ext (sp_payer params)) (sp_payer params) (sp_payer params) []] else [])
       @ (if sp_close_input_mint_ata params
          then [close_account (if quote_is_wsol_or_usdc pp then ps_base_token_program pp else ps_quote_token_program pp)
                  (if quote_is_wsol_or_usdc pp then a else b) (sp_payer params) (sp_payer params) [sp_payer params]] else [])"
    using assms pool
    unfolding pumpswap_build_sell_instructions_def pp dex_param_enum.case Let_def amount option.case
    by (simp add: amounts del: pda_spec.simps ata_spec.simps ix_spec.simps prog_simps(1,2,3) split del: if_split)
       ((drule returns_dest)+, (elim exE conjE)?,
        (simp add: fee del: pda_spec.simps ata_spec.simps ix_spec.simps prog_simps(1,2,3) split del: if_split)?)+
  define ix where "ix = \<lparr>program_id = PUMPSWAP_AMM_PROGRAM,
      accounts = pumpswap_base_accounts params pp a b fm fa
        @ (if \<not> quote_is_wsol_or_usdc pp then [PS_GLOBAL_VOLUME_ACCUMULATOR_META, meta_new uva False] else [])
        @ [PS_FEE_CONFIG_META, FEE_PROGRAM_META]
        @ (if ps_is_cashback_coin pp then sell_cashback_spec ext (sp_payer params) pp else []) @ [meta_new_readonly v False],
      data = pumpswap_sell_payload pp tokens (unwrap_or (sp_fixed_output_amount params) q)\<rparr>"
  have wire: "pumpswap_accounts_wire ext params pp ix"
    unfolding ix_def by (rule accounts_wireI [OF shape(1,2) fee shape(3)]) simp_all
  have user: "meta_pubkey (accounts ix ! 5) = a" "meta_pubkey (accounts ix ! 6) = b"
    by (simp_all add: ix_def pumpswap_base_accounts_def)
  have bytes: "pumpswap_sell_data p params pp amount (data ix)"
    using sell_payload_data [OF amounts] by (simp add: ix_def)
  have "pumpswap_sell_wire ext p params pp ixs"
    unfolding pumpswap_sell_wire_def
    by (rule exI [of _ amount], rule exI [of _ ix]) (simp add: amount wire bytes shape(4) [folded ix_def] user)
  then show ?thesis using pp by blast
qed

section \<open>A sample request\<close>

definition sample_pumpswap :: pumpswap_params where
  "sample_pumpswap = pumpswap_params_new 100 9 WSOL_TOKEN_ACCOUNT 101 102 1000000 50000 103 7 TOKEN_PROGRAM TOKEN_PROGRAM
     FEE_RECIPIENT False"

lemma sample_pool: "pool_has_wsol_or_usdc 9 WSOL_TOKEN_ACCOUNT"
  by (simp add: pool_has_wsol_or_usdc_def Let_def token_account_defs)

lemma sample_quotes:
  "\<exists>r. buy_quote_input_internal Checked 1000 500 1000000 50000 7 = Some (Inr r)"
  "\<exists>r. sell_base_input_internal Checked 1000 500 1000000 50000 7 = Some (Inr r)"
  by (simp_all add: quote_compute)

lemma sample_swap_amounts:
  "\<exists>a. pumpswap_buy_amounts Checked (sample_request (DexPumpSwap sample_pumpswap)) sample_pumpswap 1000 = Some a"
  "\<exists>a. pumpswap_sell_amounts Checked (sample_request (DexPumpSwap sample_pumpswap)) sample_pumpswap 1000 = Some a"
  using sample_quotes
  by (auto simp: pumpswap_buy_amounts_def pumpswap_sell_amounts_def quote_is_wsol_or_usdc_def sample_request_def sample_pumpswap_def
      pumpswap_params_new_def pumpswap_creator_def DEFAULT_COIN_CREATOR_VAULT_AUTHORITY_def)

lemma sample_payload:
  "\<exists>b. pumpswap_buy_payload Checked (sample_request (DexPumpSwap sample_pumpswap)) sample_pumpswap 1000 2000 s = Some b"
  using sample_slippage(2)
  by (auto simp: pumpswap_buy_payload_def quote_is_wsol_or_usdc_def sample_request_def sample_pumpswap_def pumpswap_params_new_def)

lemma create_ata_plain_yields:
  "yields (coherent ext r1 r2) (create_associated_token_account_idempotent_fast_use_seed ext payer owner m p False)
     (Ok [\<lparr>program_id = ASSOCIATED_TOKEN_PROGRAM_ID,
        accounts = [meta_new payer True, meta_new (get_associated_token_address_with_program_id ext owner m p) False,
          meta_new_readonly owner False, meta_new_readonly m False, SYSTEM_PROGRAM_META, meta_new_readonly p False],
        data = [1]\<rparr>])"
  using create_ata_yields [of ext r1 r2 payer owner m p False] by (simp add: seed_account_def)

lemma volume_yields:
  "pda_spec ext (PumpSwapUserVolume payer) = Some u \<Longrightarrow> yields (coherent ext r1 r2) (volume_accounts ext payer c)
     (Ok (if c then [PS_GLOBAL_VOLUME_ACCUMULATOR_META, meta_new u False] else []))"
  unfolding volume_accounts_def pda_getters
  by (intro yields_on_flag yields_require [OF cached_pda_yields']) (assumption, rule yields_basic)

lemma yields_then_ok_or: "x = Some a \<Longrightarrow> yields I (f a) r \<Longrightarrow> yields I (then_do (ok_or e x) f) r"
  by simp

lemma yields_case_prod: "yields I (f (fst x) (snd x)) r \<Longrightarrow> yields I (case x of (a, b) \<Rightarrow> f a b) r"
  by (simp add: case_prod_beta)

lemmas pumpswap_run = yields_basic yields_case_prod yields_then_rust yields_then_ok_or yields_then [OF sample_seed] yields_then [OF pumpswap_fee_yields]
  yields_then [OF yields_on_flag [OF handle_wsol_yields]] yields_then [OF yields_on_flag [OF close_wsol_yields']]
  yields_then [OF yields_on_flag [OF create_wsol_ata_yields]]
  yields_then [OF yields_on_flag [OF cashback_yields(1)]] yields_then [OF yields_on_flag [OF cashback_yields(2)]]
  yields_then [OF yields_on_flag [OF create_ata_plain_yields]] yields_then [OF volume_yields]

lemma sample_swap_runs:
  "\<exists>ixs. yields (coherent sample_ext 5 6) (pumpswap_build_buy_instructions sample_ext Checked (sample_request (DexPumpSwap sample_pumpswap))) (Ok ixs)"
  "\<exists>ixs. yields (coherent sample_ext 5 6) (pumpswap_build_sell_instructions sample_ext Checked (sample_request (DexPumpSwap sample_pumpswap))) (Ok ixs)"
proof -
  let ?r = "sample_request (DexPumpSwap sample_pumpswap)"
  obtain b where buy: "pumpswap_buy_amounts Checked ?r sample_pumpswap 1000 = Some b" using sample_swap_amounts(1) by blast
  obtain c where sell: "pumpswap_sell_amounts Checked ?r sample_pumpswap 1000 = Some c" using sample_swap_amounts(2) by blast
  obtain d where payload: "pumpswap_buy_payload Checked ?r sample_pumpswap 1000 2000 (snd b) = Some d" using sample_payload by blast
  obtain u where u: "pda_spec sample_ext (PumpSwapUserVolume 7) = Some u" using sample_pdas(5) by blast
  have fields: "sp_protocol_params ?r = DexPumpSwap sample_pumpswap" "sp_input_amount ?r = Some 1000" "sp_fixed_output_amount ?r = Some 2000"
    "sp_open_seed_optimize ?r = False" "sp_payer ?r = 7"
    "ps_base_mint sample_pumpswap = 9" "ps_quote_mint sample_pumpswap = WSOL_TOKEN_ACCOUNT"
    "get_pool_v2_pda sample_ext 9 = Some (the (get_pool_v2_pda sample_ext 9))"
    by (simp_all add: sample_request_def sample_pumpswap_def pumpswap_params_new_def get_pool_v2_pda_def)
  show "\<exists>ixs. yields (coherent sample_ext 5 6) (pumpswap_build_buy_instructions sample_ext Checked ?r) (Ok ixs)"
    unfolding pumpswap_build_buy_instructions_def Let_def fields(1) dex_param_enum.case
    by (simp add: fields(2-7) sample_pool buy case_prod_beta payload del: pda_spec.simps prog_simps(1,2,3) split del: if_split)
       (rule exI, (rule pumpswap_run refl u fields(8))+)
  show "\<exists>ixs. yields (coherent sample_ext 5 6) (pumpswap_build_sell_instructions sample_ext Checked ?r) (Ok ixs)"
    unfolding pumpswap_build_sell_instructions_def Let_def fields(1) dex_param_enum.case
    by (simp add: fields(2-7) sample_pool sell case_prod_beta del: pda_spec.simps prog_simps(1,2,3) split del: if_split)
       (rule exI, (rule pumpswap_run refl u fields(8))+)
qed

section \<open>Properties\<close>

text \<open>
  C34: whatever the process-wide caches hold, as long as they hold what was put there for these rents, the PumpSwap builder
  returns the same instructions, error or panic from them as from any other such caches, and leaves such caches behind.
\<close>

theorem pumpswap_builder_ignores_caches:
  assumes "coherent ext r1 r2 s" and "coherent ext r1 r2 s'"
  shows "fst (pumpswap_build_buy_instructions ext p params s) = fst (pumpswap_build_buy_instructions ext p params s')
    \<and> fst (pumpswap_build_sell_instructions ext p params s) = fst (pumpswap_build_sell_instructions ext p params s')
    \<and> coherent ext r1 r2 (snd (pumpswap_build_buy_instructions ext p params s))
    \<and> coherent ext r1 r2 (snd (pumpswap_build_sell_instructions ext p params s))"
  using transparent_same [OF pumpswap_buy_transparent assms] transparent_same [OF pumpswap_sell_transparent assms] by blast

theorem pumpswap_builder_ignores_caches_witness:
  "fst (pumpswap_build_buy_instructions sample_ext Checked (sample_request (DexPumpSwap sample_pumpswap)) caches_init)
     = fst (pumpswap_build_buy_instructions sample_ext Checked (sample_request (DexPumpSwap sample_pumpswap))
         (snd (pumpswap_get_user_volume_accumulator_pda sample_ext 7 caches_init)))"
proof -
  have "coherent sample_ext RENT_UNINITIALIZED RENT_UNINITIALIZED (snd (pumpswap_get_user_volume_accumulator_pda sample_ext 7 caches_init))"
    using cached_pda_yields [of sample_ext RENT_UNINITIALIZED RENT_UNINITIALIZED "PumpSwapUserVolume 7"] coherent_init
    by (auto simp: yields_def pda_getters)
  from pumpswap_builder_ignores_caches [OF coherent_init this] show ?thesis by blast
qed

text \<open>
  C5: a PumpSwap buy that is built contains one instruction of the AMM program, signed by the payer alone, on the pool's
  accounts and the payer's own token accounts; its bytes read back as the quote's amounts (exact input and slippage-reduced
  output, or output and slippage-raised input, or the mirrored sell when the traded token is the quote side); when wrapping
  was asked for, the lamports wrapped beforehand are exactly what the instruction may spend.
\<close>

theorem pumpswap_buy_on_the_wire:
  assumes "coherent ext r1 r2 s" and "fst (pumpswap_build_buy_instructions ext p params s) = Ok ixs"
  shows "\<exists>pp. sp_protocol_params params = DexPumpSwap pp \<and> pumpswap_buy_wire ext p params pp ixs"
  using assms by (intro pumpswap_buy_returns [of ext r1 r2]) (rule returnsI)

theorem pumpswap_buy_on_the_wire_witness:
  "\<exists>ixs. fst (pumpswap_build_buy_instructions sample_ext Checked (sample_request (DexPumpSwap sample_pumpswap))
       (caches_init\<lparr>spl_token_rent := 5, spl_token_2022_rent := 6\<rparr>)) = Ok ixs
     \<and> pumpswap_buy_wire sample_ext Checked (sample_request (DexPumpSwap sample_pumpswap)) sample_pumpswap ixs"
proof -
  obtain ixs where run: "fst (pumpswap_build_buy_instructions sample_ext Checked (sample_request (DexPumpSwap sample_pumpswap))
      (caches_init\<lparr>spl_token_rent := 5, spl_token_2022_rent := 6\<rparr>)) = Ok ixs"
    using sample_swap_runs(1) coherent_rents by (auto simp: yields_def)
  from pumpswap_buy_on_the_wire [OF coherent_rents run] run show ?thesis by (auto simp: sample_request_def)
qed

text \<open>
  C13: a PumpSwap sell that is built contains one instruction of the AMM program, signed by the payer alone, on the pool's
  accounts and the payer's own token accounts, whose 24 bytes read back as the amount sold and the least output accepted;
  an account closed afterwards is the wrapped-SOL account or the very account the tokens were sold from.
\<close>

theorem pumpswap_sell_on_the_wire:
  assumes "coherent ext r1 r2 s" and "fst (pumpswap_build_sell_instructions ext p params s) = Ok ixs"
  shows "\<exists>pp. sp_protocol_params params = DexPumpSwap pp \<and> pumpswap_sell_wire ext p params pp ixs"
  using assms by (intro pumpswap_sell_returns [of ext r1 r2]) (rule returnsI)

theorem pumpswap_sell_on_the_wire_witness:
  "\<exists>ixs. fst (pumpswap_build_sell_instructions sample_ext Checked (sample_request (DexPumpSwap sample_pumpswap))
       (caches_init\<lparr>spl_token_rent := 5, spl_token_2022_rent := 6\<rparr>)) = Ok ixs
     \<and> pumpswap_sell_wire sample_ext Checked (sample_request (DexPumpSwap sample_pumpswap)) sample_pumpswap ixs"
proof -
  obtain ixs where run: "fst (pumpswap_build_sell_instructions sample_ext Checked (sample_request (DexPumpSwap sample_pumpswap))
      (caches_init\<lparr>spl_token_rent := 5, spl_token_2022_rent := 6\<rparr>)) = Ok ixs"
    using sample_swap_runs(2) coherent_rents by (auto simp: yields_def)
  from pumpswap_sell_on_the_wire [OF coherent_rents run] run show ?thesis by (auto simp: sample_request_def)
qed

text \<open>
  A pool with an empty reserve makes both directions of the PumpSwap builder panic: the refusal of the quote is
  unwrapped instead of being returned as an error.
\<close>

theorem pumpswap_empty_reserve_panics:
  assumes "sp_protocol_params params = DexPumpSwap pp" and "sp_input_amount params = Some amount" and "amount \<noteq> 0"
    and "pool_has_wsol_or_usdc (ps_base_mint pp) (ps_quote_mint pp)"
    and "ps_pool_base_token_reserves pp = 0 \<or> ps_pool_quote_token_reserves pp = 0"
  shows "fst (pumpswap_build_buy_instructions ext p params s) = Panic \<and> fst (pumpswap_build_sell_instructions ext p params s) = Panic"
proof -
  have "buy_quote_input_internal p amount sl (ps_pool_base_token_reserves pp) (ps_pool_quote_token_reserves pp) c = Some (Inl ReserveZero)"
    "sell_base_input_internal p amount sl (ps_pool_base_token_reserves pp) (ps_pool_quote_token_reserves pp) c = Some (Inl ReserveZero)" for sl c
    using assms(5) by (auto simp: buy_quote_input_internal_def sell_base_input_internal_def)
  then have "pumpswap_buy_amounts p params pp amount = None" "pumpswap_sell_amounts p params pp amount = None"
    by (simp_all add: pumpswap_buy_amounts_def pumpswap_sell_amounts_def)
  then show ?thesis
    using assms by (simp add: pumpswap_build_buy_instructions_def pumpswap_build_sell_instructions_def)
qed

theorem pumpswap_empty_reserve_panics_witness:
  "fst (pumpswap_build_sell_instructions sample_ext Checked
     (sample_request (DexPumpSwap (sample_pumpswap\<lparr>ps_pool_base_token_reserves := 0\<rparr>))) caches_init) = Panic"
proof -
  let ?pp = "sample_pumpswap\<lparr>ps_pool_base_token_reserves := 0\<rparr>"
  have "sp_protocol_params (sample_request (DexPumpSwap ?pp)) = DexPumpSwap ?pp"
    "sp_input_amount (sample_request (DexPumpSwap ?pp)) = Some 1000" "ps_pool_base_token_reserves ?pp = 0"
    "pool_has_wsol_or_usdc (ps_base_mint ?pp) (ps_quote_mint ?pp)"
    using sample_pool by (simp_all add: sample_request_def sample_pumpswap_def pumpswap_params_new_def)
  then show ?thesis using pumpswap_empty_reserve_panics [of _ ?pp 1000 sample_ext Checked caches_init] by simp
qed

text \<open>
  Under the documented contract of the random draw, the fee account of a swap is one of the recipients the protocol
  names: the standard one, or one of the eight mayhem recipients in mayhem mode, and the token account next to it is that
  recipient's own.
\<close>

theorem pumpswap_fee_recipient_known:
  assumes "chooses ext" and "coherent ext r1 r2 s"
  shows "\<exists>k m. fst (pumpswap_fee_accounts ext pp s) = Ok (meta_new_readonly k False,
        get_associated_token_address_with_program_id ext k m TOKEN_PROGRAM)
    \<and> (if ps_is_mayhem_mode pp then is_mayhem_fee_recipient k \<and> m = WSOL_TOKEN_ACCOUNT else k = FEE_RECIPIENT \<and> m = ps_quote_mint pp)"
proof -
  have mem: "fst (get_mayhem_fee_recipient_random ext) \<in> set MAYHEM_FEE_RECIPIENTS"
    using assms(1) by (auto simp: get_mayhem_fee_recipient_random_def Let_def chooses_def MAYHEM_FEE_RECIPIENTS_def unwrap_or_def
        split: option.splits dest: spec [of _ MAYHEM_FEE_RECIPIENTS])
  have "fst (pumpswap_fee_accounts ext pp s) = Ok (pumpswap_fee_spec ext pp)"
    using pumpswap_fee_yields assms(2) by (auto simp: yields_def)
  then show ?thesis
    using mem by (auto simp: pumpswap_fee_spec_def Let_def is_mayhem_fee_recipient_def)
qed

theorem pumpswap_fee_recipient_known_witness:
  "\<exists>k. is_mayhem_fee_recipient k \<and> fst (pumpswap_fee_accounts sample_ext (sample_pumpswap\<lparr>ps_is_mayhem_mode := True\<rparr>) caches_init)
     = Ok (meta_new_readonly k False, get_associated_token_address_with_program_id sample_ext k WSOL_TOKEN_ACCOUNT TOKEN_PROGRAM)"
  using pumpswap_fee_recipient_known [OF sample_ext_chooses coherent_init, of "sample_pumpswap\<lparr>ps_is_mayhem_mode := True\<rparr>"] by auto

end
