(* ===== verification/CalcRaydium.thy ===== *)
theory CalcRaydium
  imports CalcCommon F64
begin

text \<open>
  The two Raydium calculators, \<open>sol-trade-sdk/src/utils/calc/raydium_amm_v4.rs\<close> and \<open>raydium_cpmm.rs\<close>, with the
  fee constants of \<open>instruction/utils/raydium_amm_v4.rs\<close> and \<open>raydium_cpmm.rs\<close>. Both compute the swapped amount with
  saturating 128-bit arithmetic and the minimum output in binary64.
\<close>

section \<open>Shared statements\<close>

text \<open>\<open>(amount * rate + denominator - 1) / denominator\<close>, narrowed to 64 bits.\<close>

definition ceil_fee :: "profile \<Rightarrow> u64 \<Rightarrow> u64 \<Rightarrow> u128 \<Rightarrow> u64 rust" where
  "ceil_fee p amount fee_rate fee_denominator = do {
     numerator \<leftarrow> mul_w p (as_u128 amount) (as_u128 fee_rate);
     s \<leftarrow> add_w p numerator fee_denominator;
     t \<leftarrow> sub_w p s 1;
     q \<leftarrow> div_w t fee_denominator;
     Some (as_u64 q)
   }"

text \<open>\<open>amount * rate / denominator\<close>, narrowed to 64 bits.\<close>

definition floor_fee :: "profile \<Rightarrow> u64 \<Rightarrow> u64 \<Rightarrow> u128 \<Rightarrow> u64 rust" where
  "floor_fee p amount fee_rate fee_denominator = do {
     numerator \<leftarrow> mul_w p (as_u128 amount) (as_u128 fee_rate);
     q \<leftarrow> div_w numerator fee_denominator;
     Some (as_u64 q)
   }"

definition swapped_amount :: "u64 \<Rightarrow> u64 \<Rightarrow> u64 \<Rightarrow> u64 rust" where
  "swapped_amount output_vault input_vault input_less_fees = do {
     q \<leftarrow> div_w (saturating_mul (as_u128 output_vault) (as_u128 input_less_fees))
                (saturating_add (as_u128 input_vault) (as_u128 input_less_fees));
     Some (as_u64 q)
   }"

text \<open>\<open>(output as f64 * (1.0 - slippage as f64 / 10000.0)) as u64\<close>.\<close>

definition min_out_f64 :: "u64 \<Rightarrow> u64 \<Rightarrow> u64" where
  "min_out_f64 output_amount slippage_basis_points =
     u64_of_f64 (f64_mul (f64_of_u64 output_amount)
       (f64_sub (f64_lit 1) (f64_div (f64_of_u64 slippage_basis_points) (f64_lit 10000))))"

record compute_swap_params =
  all_trade :: bool
  swap_amount_in :: u64
  swap_amount_out :: u64
  min_amount_out :: u64
  swap_fee_paid :: u64

section \<open>AMM v4\<close>

definition TRADE_FEE_NUMERATOR :: u64 where "TRADE_FEE_NUMERATOR = 25"
definition TRADE_FEE_DENOMINATOR :: u64 where "TRADE_FEE_DENOMINATOR = 10000"
definition SWAP_FEE_NUMERATOR :: u64 where "SWAP_FEE_NUMERATOR = 25"
definition SWAP_FEE_DENOMINATOR :: u64 where "SWAP_FEE_DENOMINATOR = 10000"

definition amm_compute_trading_fee :: "profile \<Rightarrow> u64 \<Rightarrow> u64 \<Rightarrow> u64 \<Rightarrow> u64 rust" where
  "amm_compute_trading_fee p amount fee_rate fee_denominator = ceil_fee p amount fee_rate (as_u128 fee_denominator)"

definition amm_compute_protocol_fund_fee :: "profile \<Rightarrow> u64 \<Rightarrow> u64 \<Rightarrow> u64 \<Rightarrow> u64 rust" where
  "amm_compute_protocol_fund_fee p amount fee_rate fee_denominator = floor_fee p amount fee_rate (as_u128 fee_denominator)"

record amm_swap_result =
  amm_new_input_vault_amount :: u64
  amm_new_output_vault_amount :: u64
  amm_input_amount :: u64
  amm_output_amount :: u64
  amm_trade_fee :: u64
  amm_swap_fee :: u64

definition amm_swap_base_input :: "profile \<Rightarrow> u64 \<Rightarrow> u64 \<Rightarrow> u64 \<Rightarrow> u64 \<Rightarrow> u64 \<Rightarrow> amm_swap_result rust" where
  "amm_swap_base_input p input_amount input_vault output_vault trade_fee_rate swap_fee_rate = do {
     trade_fee \<leftarrow> amm_compute_trading_fee p input_amount trade_fee_rate TRADE_FEE_DENOMINATOR;
     let input_less_fees = saturating_sub input_amount trade_fee;
     swap_fee \<leftarrow> amm_compute_protocol_fund_fee p trade_fee swap_fee_rate SWAP_FEE_DENOMINATOR;
     output_swapped \<leftarrow> swapped_amount output_vault input_vault input_less_fees;
     let output_amount = saturating_sub output_swapped swap_fee;
     Some \<lparr>amm_new_input_vault_amount = saturating_add input_vault input_less_fees,
           amm_new_output_vault_amount = saturating_sub output_vault output_swapped,
           amm_input_amount = input_amount, amm_output_amount = output_amount,
           amm_trade_fee = trade_fee, amm_swap_fee = swap_fee\<rparr>
   }"

definition amm_compute_swap_amount :: "profile \<Rightarrow> u64 \<Rightarrow> u64 \<Rightarrow> bool \<Rightarrow> u64 \<Rightarrow> u64 \<Rightarrow> compute_swap_params rust" where
  "amm_compute_swap_amount p base_reserve quote_reserve is_base_in amount_in slippage_basis_points = do {
     let (input_reserve, output_reserve) =
       (if is_base_in then (base_reserve, quote_reserve) else (quote_reserve, base_reserve));
     r \<leftarrow> amm_swap_base_input p amount_in input_reserve output_reserve TRADE_FEE_NUMERATOR SWAP_FEE_NUMERATOR;
     Some \<lparr>all_trade = (amm_input_amount r = amount_in), swap_amount_in = amount_in,
           swap_amount_out = amm_output_amount r,
           min_amount_out = min_out_f64 (amm_output_amount r) slippage_basis_points,
           swap_fee_paid = amm_trade_fee r\<rparr>
   }"

section \<open>CPMM\<close>

definition FEE_RATE_DENOMINATOR_VALUE :: u128 where "FEE_RATE_DENOMINATOR_VALUE = 1000000"
definition TRADE_FEE_RATE :: u64 where "TRADE_FEE_RATE = 2500"
definition CREATOR_FEE_RATE :: u64 where "CREATOR_FEE_RATE = 0"
definition PROTOCOL_FEE_RATE :: u64 where "PROTOCOL_FEE_RATE = 120000"
definition FUND_FEE_RATE :: u64 where "FUND_FEE_RATE = 40000"

definition cpmm_compute_trading_fee :: "profile \<Rightarrow> u64 \<Rightarrow> u64 \<Rightarrow> u64 rust" where
  "cpmm_compute_trading_fee p amount fee_rate = ceil_fee p amount fee_rate FEE_RATE_DENOMINATOR_VALUE"

definition cpmm_compute_protocol_fund_fee :: "profile \<Rightarrow> u64 \<Rightarrow> u64 \<Rightarrow> u64 rust" where
  "cpmm_compute_protocol_fund_fee p amount fee_rate = floor_fee p amount fee_rate FEE_RATE_DENOMINATOR_VALUE"

definition cpmm_compute_creator_fee_new :: "profile \<Rightarrow> u64 \<Rightarrow> u64 \<Rightarrow> u64 rust" where
  "cpmm_compute_creator_fee_new p amount fee_rate = ceil_fee p amount fee_rate FEE_RATE_DENOMINATOR_VALUE"

record cpmm_swap_result =
  cpmm_new_input_vault_amount :: u64
  cpmm_new_output_vault_amount :: u64
  cpmm_input_amount :: u64
  cpmm_output_amount :: u64
  cpmm_trade_fee :: u64
  cpmm_protocol_fee :: u64
  cpmm_fund_fee :: u64
  cpmm_creator_fee :: u64

definition cpmm_swap_base_input ::
  "profile \<Rightarrow> u64 \<Rightarrow> u64 \<Rightarrow> u64 \<Rightarrow> u64 \<Rightarrow> u64 \<Rightarrow> u64 \<Rightarrow> u64 \<Rightarrow> bool \<Rightarrow> cpmm_swap_result rust" where
  "cpmm_swap_base_input p input_amount input_vault output_vault trade_fee_rate creator_fee_rate
       protocol_fee_rate fund_fee_rate is_creator_fee_on_input = do {
     trade_fee \<leftarrow> cpmm_compute_trading_fee p input_amount trade_fee_rate;
     (input_less_fees, creator_fee_in) \<leftarrow>
       (if is_creator_fee_on_input
        then do { f \<leftarrow> cpmm_compute_creator_fee_new p input_amount creator_fee_rate;
                  Some (saturating_sub (saturating_sub input_amount trade_fee) f, f) }
        else Some (saturating_sub input_amount trade_fee, 0));
     protocol_fee \<leftarrow> cpmm_compute_protocol_fund_fee p trade_fee protocol_fee_rate;
     fund_fee \<leftarrow> cpmm_compute_protocol_fund_fee p trade_fee fund_fee_rate;
     output_swapped \<leftarrow> swapped_amount output_vault input_vault input_less_fees;
     (output_amount, creator_fee) \<leftarrow>
       (if is_creator_fee_on_input then Some (output_swapped, creator_fee_in)
        else do { f \<leftarrow> cpmm_compute_creator_fee_new p output_swapped creator_fee_rate;
                  Some (saturating_sub output_swapped f, f) });
     Some \<lparr>cpmm_new_input_vault_amount = saturating_add input_vault input_less_fees,
           cpmm_new_output_vault_amount = saturating_sub output_vault output_swapped,
           cpmm_input_amount = input_amount, cpmm_output_amount = output_amount, cpmm_trade_fee = trade_fee,
           cpmm_protocol_fee = protocol_fee, cpmm_fund_fee = fund_fee, cpmm_creator_fee = creator_fee\<rparr>
   }"

definition cpmm_compute_swap_amount :: "profile \<Rightarrow> u64 \<Rightarrow> u64 \<Rightarrow> bool \<Rightarrow> u64 \<Rightarrow> u64 \<Rightarrow> compute_swap_params rust" where
  "cpmm_compute_swap_amount p base_reserve quote_reserve is_base_in amount_in slippage_basis_points = do {
     let (input_reserve, output_reserve) =
       (if is_base_in then (base_reserve, quote_reserve) else (quote_reserve, base_reserve));
     r \<leftarrow> cpmm_swap_base_input p amount_in input_reserve output_reserve TRADE_FEE_RATE CREATOR_FEE_RATE
            PROTOCOL_FEE_RATE FUND_FEE_RATE True;
     Some \<lparr>all_trade = (cpmm_input_amount r = amount_in), swap_amount_in = amount_in,
           swap_amount_out = cpmm_output_amount r,
           min_amount_out = min_out_f64 (cpmm_output_amount r) slippage_basis_points,
           swap_fee_paid = cpmm_trade_fee r\<rparr>
   }"

section \<open>Evaluation\<close>

lemma ceil_fee_eval:
  assumes "unat rate \<le> unat den" and "0 < unat den" and "unat den \<le> 18446744073709551616"
  shows "\<exists>f. ceil_fee p amount rate den = Some f \<and> unat f = ceil_nat (unat amount * unat rate) (unat den)"
proof -
  have m: "unat amount * unat rate \<le> 18446744073709551615 * 18446744073709551615"
    using unat_u64_less [of amount] unat_u64_less [of rate] by (intro mult_mono) simp_all
  have num: "unat (as_u128 amount) * unat (as_u128 rate) < 2 ^ 128" using m by simp
  have numv: "unat (as_u128 amount * as_u128 rate) = unat amount * unat rate" using num by (simp add: unat_mul_ok)
  have sum: "unat (as_u128 amount * as_u128 rate) + unat den < 2 ^ 128" using m assms(3) by (simp add: numv)
  define s where "s = as_u128 amount * as_u128 rate + den"
  have sv: "unat s = unat amount * unat rate + unat den" using sum by (simp add: s_def unat_add_ok numv)
  have one: "1 \<le> s" using sv assms(2) by (simp add: word_le_nat_alt)
  have dnz: "den \<noteq> 0" using assms(2) by (simp add: word_neq_0_unat)
  have qv: "unat ((s - 1) div den) = ceil_nat (unat amount * unat rate) (unat den)"
    using one by (simp add: unat_eval sv ceil_nat_def)
  have "ceil_nat (unat amount * unat rate) (unat den) \<le> unat amount"
    using assms(1,2) by (simp add: ceil_nat_le_iff)
  then have "unat (as_u64 ((s - 1) div den)) = ceil_nat (unat amount * unat rate) (unat den)"
    using qv unat_u64_less [of amount] by (subst unat_as_u64_small) simp_all
  moreover have "ceil_fee p amount rate den = Some (as_u64 ((s - 1) div den))"
    unfolding ceil_fee_def u128_ok(2) [OF num] bind.bind_lunit u128_ok(1) [OF sum] s_def [symmetric]
      sub_w_ok [OF one] div_w_ok [OF dnz] ..
  ultimately show ?thesis by blast
qed

lemma floor_fee_eval:
  assumes "0 < unat den"
  shows "\<exists>f. floor_fee p amount rate den = Some f"
  using assms u128_ok(2) [of "as_u128 amount" "as_u128 rate" p] mult_bound [OF unat_u64_less [of amount] unat_u64_less [of rate]]
  by (simp add: floor_fee_def div_w_def word_neq_0_unat)

lemma swapped_amount_eval:
  fixes ov iv x :: u64
  assumes "iv \<noteq> 0"
  shows "\<exists>o'. swapped_amount ov iv x = Some o' \<and> unat o' = unat ov * unat x div (unat iv + unat x)"
proof -
  have num: "unat (as_u128 ov) * unat (as_u128 x) < 2 ^ 128"
    using mult_bound [OF unat_u64_less [of ov] unat_u64_less [of x]] by simp
  have den: "unat (as_u128 iv) + unat (as_u128 x) < 2 ^ 128"
    using unat_u64_less [of iv] unat_u64_less [of x] by simp
  have sat: "saturating_mul (as_u128 ov) (as_u128 x) = as_u128 ov * as_u128 x"
    "saturating_add (as_u128 iv) (as_u128 x) = as_u128 iv + as_u128 x"
    using num den by (simp_all add: saturating_mul_def saturating_add_def)
  have dnz: "as_u128 iv + as_u128 x \<noteq> 0"
    using assms den by (simp add: word_neq_0_unat unat_add_ok)
  define q where "q = as_u128 ov * as_u128 x div (as_u128 iv + as_u128 x)"
  have q: "unat q = unat ov * unat x div (unat iv + unat x)"
    using num den by (simp add: q_def unat_eval)
  then have "unat (as_u64 q) = unat ov * unat x div (unat iv + unat x)"
    using cp_floor_le [of "unat ov" "unat x" "unat iv"] unat_u64_less [of ov] by (subst unat_as_u64_small) simp_all
  then show ?thesis
    by (simp add: swapped_amount_def sat div_w_ok [OF dnz] q_def)
qed


lemma swap_vaults:
  fixes iv ov x o' :: u64
  assumes "swapped_amount ov iv x = Some o'" and "iv \<noteq> 0" and "unat iv + unat x < 18446744073709551616"
  shows "unat (saturating_add iv x) = unat iv + unat x"
    and "unat (saturating_sub ov o') = unat ov - unat o'"
    and "unat o' \<le> unat ov"
    and "unat o' * (unat iv + unat x) \<le> unat ov * unat x"
proof -
  have o': "unat o' = unat ov * unat x div (unat iv + unat x)"
    using swapped_amount_eval [OF assms(2), of ov x] assms(1) by auto
  show "unat (saturating_add iv x) = unat iv + unat x"
    using assms(3) by (simp add: saturating_add_def unat_add_ok)
  show "unat (saturating_sub ov o') = unat ov - unat o'" by (rule unat_saturating_sub)
  show "unat o' \<le> unat ov" unfolding o' by (rule cp_floor_le)
  show "unat o' * (unat iv + unat x) \<le> unat ov * unat x" unfolding o' by (rule cp_floor_law)
qed

section \<open>The constant-product contract of both venues\<close>

definition amm_run :: "(profile \<times> u64 \<times> u64 \<times> u64 \<times> u64 \<times> u64) \<times> amm_swap_result \<Rightarrow> bool" where
  "amm_run = (\<lambda>((p, a, iv, ov, tr, sr), r). iv \<noteq> 0 \<and> unat iv + unat a < 18446744073709551616 \<and>
     amm_swap_base_input p a iv ov tr sr = Some r)"

definition cpmm_run ::
  "(profile \<times> u64 \<times> u64 \<times> u64 \<times> u64 \<times> u64 \<times> u64 \<times> u64 \<times> bool) \<times> cpmm_swap_result \<Rightarrow> bool" where
  "cpmm_run = (\<lambda>((p, a, iv, ov, tr, cr, pr, fr, on_in), r). iv \<noteq> 0 \<and> unat iv + unat a < 18446744073709551616 \<and>
     cpmm_swap_base_input p a iv ov tr cr pr fr on_in = Some r)"

text \<open>What a venue's result says of its vaults.\<close>

definition vault_law :: "nat \<Rightarrow> nat \<Rightarrow> nat \<Rightarrow> nat \<Rightarrow> nat \<Rightarrow> nat \<Rightarrow> bool" where
  "vault_law a iv ov new_in new_out output \<longleftrightarrow> iv \<le> new_in \<and> new_in \<le> iv + a \<and> new_out \<le> ov \<and>
     output \<le> ov - new_out \<and> (ov - new_out) * new_in \<le> ov * (new_in - iv)"

lemma vault_lawI:
  fixes iv ov a x o' :: u64
  assumes "swapped_amount ov iv x = Some o'" and "iv \<noteq> 0" and "unat iv + unat a < 18446744073709551616"
    and "unat x \<le> unat a" and "output \<le> unat o'"
  shows "vault_law (unat a) (unat iv) (unat ov) (unat (saturating_add iv x)) (unat (saturating_sub ov o')) output"
proof -
  have "unat iv + unat x < 18446744073709551616" using assms(3,4) by linarith
  note v = swap_vaults [OF assms(1,2) this]
  show ?thesis using v assms(4,5) by (simp add: vault_law_def)
qed

lemma saturating_sub_le: "unat (saturating_sub a b :: 'a::len word) \<le> unat a"
  by (simp add: unat_saturating_sub)

lemma amm_run_law:
  assumes "amm_run ((p, a, iv, ov, tr, sr), r)"
  shows "vault_law (unat a) (unat iv) (unat ov) (unat (amm_new_input_vault_amount r))
     (unat (amm_new_output_vault_amount r)) (unat (amm_output_amount r))"
  using assms by (auto simp: amm_run_def amm_swap_base_input_def bind_Some_iff Let_def
      intro!: vault_lawI saturating_sub_le)

lemma cpmm_run_law:
  assumes "cpmm_run ((p, a, iv, ov, tr, cr, pr, fr, on_in), r)"
  shows "vault_law (unat a) (unat iv) (unat ov) (unat (cpmm_new_input_vault_amount r))
     (unat (cpmm_new_output_vault_amount r)) (unat (cpmm_output_amount r))"
  using assms by (auto simp: cpmm_run_def cpmm_swap_base_input_def bind_Some_iff Let_def split: if_splits
      intro!: vault_lawI saturating_sub_le order_trans [OF saturating_sub_le saturating_sub_le])

lemma run_reserve_pos:
  "amm_run ((p, a, iv, ov, tr, sr), r) \<Longrightarrow> 0 < unat iv"
  "cpmm_run ((p, a, iv, ov, tr, cr, pr, fr, on_in), r') \<Longrightarrow> 0 < unat iv"
  by (simp_all add: amm_run_def cpmm_run_def word_neq_0_unat)

lemma vault_law_rounds_down:
  "vault_law a iv ov ni no out \<Longrightarrow> (ov - no) * (iv + (ni - iv)) \<le> ov * (ni - iv)"
  by (simp add: vault_law_def)

interpretation ray_amm: constant_product_trade amm_run
  "\<lambda>((p, a, iv, ov, tr, sr), r). unat iv" "\<lambda>((p, a, iv, ov, tr, sr), r). unat ov"
  "\<lambda>((p, a, iv, ov, tr, sr), r). unat (amm_new_input_vault_amount r) - unat iv"
  "\<lambda>((p, a, iv, ov, tr, sr), r). unat ov - unat (amm_new_output_vault_amount r)"
  by unfold_locales (auto intro: vault_law_rounds_down [OF amm_run_law] dest: run_reserve_pos)

interpretation ray_cpmm: constant_product_trade cpmm_run
  "\<lambda>((p, a, iv, ov, tr, cr, pr, fr, on_in), r). unat iv" "\<lambda>((p, a, iv, ov, tr, cr, pr, fr, on_in), r). unat ov"
  "\<lambda>((p, a, iv, ov, tr, cr, pr, fr, on_in), r). unat (cpmm_new_input_vault_amount r) - unat iv"
  "\<lambda>((p, a, iv, ov, tr, cr, pr, fr, on_in), r). unat ov - unat (cpmm_new_output_vault_amount r)"
  by unfold_locales (auto intro: vault_law_rounds_down [OF cpmm_run_law] dest: run_reserve_pos)


section \<open>The minimum output in binary64\<close>

lemma keep_factor:
  fixes s :: u64
  shows "\<exists>b R. f64_sub (f64_lit 1) (f64_div (f64_of_u64 s) (f64_lit 10000)) = Fin b R
     \<and> 0 \<le> R \<and> (b \<or> R \<le> 1)"
proof -
  define S where "S = round_mag (of_nat (unat s))"
  have S: "0 \<le> S" unfolding S_def by (rule round_mag_nonneg) (rule of_nat_0_le_iff)
  have "unat s \<le> 2 ^ 64" using unat_u64_less [of s] by simp
  then have S2: "S \<le> 2 ^ 64" unfolding S_def by (rule round_mag_of_nat_bounds(1))
  have ten: "f64_lit 10000 = Fin False 10000" and one: "f64_lit 1 = Fin False 1"
    using mk_finite [of 10000 14 False] mk_finite [of 1 0 False] round_mag_rep [OF rep_numeral]
    by (simp_all add: f64_lit_def of_exact_def round_mag_rep)
  define D where "D = round_mag (S / 10000)"
  have "S / 10000 \<le> 2 ^ 64" using S2 by (simp add: field_simps)
  then have div: "f64_div (f64_of_u64 s) (f64_lit 10000) = Fin False D" and D: "0 \<le> D" "D \<le> 2 ^ 64"
    using S mk_finite [of "S / 10000" 64 False] round_mag_le [OF rep_pow2, of "S / 10000" 64]
    by (simp_all add: f64_of_u64_eq S_def [symmetric] ten D_def round_mag_nonneg)
  have e: "f64_sub (f64_lit 1) (f64_div (f64_of_u64 s) (f64_lit 10000)) = of_exact False (1 - D)"
    by (simp add: f64_sub_def div one)
  have "\<bar>1 - D\<bar> \<le> 2 ^ 64" using D by (simp add: abs_le_iff)
  then show ?thesis
    unfolding e using of_exact_finite [of "1 - D" 64 False] D round_mag_le [OF rep_1, of "1 - D"]
    by (cases "D = 1"; cases "1 < D") (auto simp: of_exact_def round_mag_nonneg)
qed

lemma min_out_le:
  fixes out s :: u64
  assumes "unat out \<le> 2 ^ 53"
  shows "min_out_f64 out s \<le> out"
proof -
  obtain b R where f: "f64_sub (f64_lit 1) (f64_div (f64_of_u64 s) (f64_lit 10000)) = Fin b R"
    and R: "0 \<le> R" "b \<or> R \<le> 1"
    using keep_factor [of s] by blast
  show ?thesis
  proof (cases b)
    case True
    have "u64_of_f64 (mk True x) = 0" for x by (simp add: mk_def Let_def)
    then show ?thesis
      using True by (simp add: min_out_f64_def f f64_of_u64_exact [OF assms])
  next
    case False
    with R have R1: "R \<le> 1" by simp
    define O' :: rat where "O' = of_nat (unat out)"
    have O': "rep O'" "0 \<le> O'" using rep_nat [OF assms] by (simp_all add: O'_def)
    have "O' * R \<le> O' * 1" using R1 O'(2) by (rule mult_left_mono)
    then have le: "O' * R \<le> O'" by simp
    have "O' \<le> 2 ^ 53"
      unfolding O'_def using assms by (metis of_nat_le_iff of_nat_numeral of_nat_power)
    then have m: "mk False (O' * R) = Fin False (round_mag (O' * R))"
      using le O' R by (simp add: mk_finite [of _ 53])
    have up: "round_mag (O' * R) \<le> O'" using round_mag_le [OF O'(1)] le O' R by simp
    have dn: "0 \<le> round_mag (O' * R)" using O' R by (simp add: round_mag_nonneg)
    let ?m = "\<lfloor>round_mag (O' * R)\<rfloor>"
    have fl: "0 \<le> ?m" "?m \<le> int (unat out)"
      using dn up by (simp, simp add: O'_def floor_le_iff)
    have "\<not> (2 :: rat) ^ 64 \<le> round_mag (O' * R)"
    proof
      assume "2 ^ 64 \<le> round_mag (O' * R)"
      then have "(2 :: rat) ^ 64 \<le> 2 ^ 53" using up \<open>O' \<le> 2 ^ 53\<close> by linarith
      then show False by simp
    qed
    moreover have "b = False" using False by simp
    ultimately have "min_out_f64 out s = word_of_int ?m"
      unfolding min_out_f64_def f f64_of_u64_exact [OF assms] O'_def [symmetric] by (simp add: m)
    moreover have "(word_of_int ?m :: u64) = word_of_nat (nat ?m)" using fl by simp
    moreover have "nat ?m \<le> unat out" using fl by linarith
    moreover have "unat (word_of_nat (nat ?m) :: u64) = nat ?m"
      using \<open>nat ?m \<le> unat out\<close> unat_u64_less [of out] by (intro unat_of_nat_small) (simp del: nat_le_iff)
    ultimately show ?thesis by (simp add: word_le_nat_alt)
  qed
qed


section \<open>Properties\<close>

text \<open>
  A CPMM swap keeps its pool: for every amount that still fits the vault, the vault balances the quote reports hold at
  least the constant product, the input vault grows by at most the amount sent, and the amount reported out is at
  most what leaves the output vault.
\<close>

theorem cpmm_swap_keeps_product:
  assumes "cpmm_swap_base_input p a iv ov tr cr pr fr on_in = Some r"
    and "iv \<noteq> 0" and "unat iv + unat a < 2 ^ 64"
  shows "unat iv * unat ov \<le> unat (cpmm_new_input_vault_amount r) * unat (cpmm_new_output_vault_amount r)
    \<and> unat (cpmm_new_input_vault_amount r) \<le> unat iv + unat a
    \<and> unat (cpmm_output_amount r) \<le> unat ov - unat (cpmm_new_output_vault_amount r)"
proof -
  have run: "cpmm_run ((p, a, iv, ov, tr, cr, pr, fr, on_in), r)"
    using assms by (simp add: cpmm_run_def)
  have "vault_law (unat a) (unat iv) (unat ov) (unat (cpmm_new_input_vault_amount r))
      (unat (cpmm_new_output_vault_amount r)) (unat (cpmm_output_amount r))"
    by (rule cpmm_run_law [OF run])
  then show ?thesis using ray_cpmm.product_kept [OF run] by (simp add: vault_law_def)
qed

theorem cpmm_swap_keeps_product_witness:
  "\<exists>r. cpmm_swap_base_input Checked 10000 1000000 500000 2500 0 120000 40000 True = Some r
     \<and> 1000000 * 500000 \<le> unat (cpmm_new_input_vault_amount r) * unat (cpmm_new_output_vault_amount r)
     \<and> unat (cpmm_output_amount r) = 4938"
proof -
  have run: "cpmm_swap_base_input Checked 10000 1000000 500000 2500 0 120000 40000 True =
    Some \<lparr>cpmm_new_input_vault_amount = 1009975, cpmm_new_output_vault_amount = 495062, cpmm_input_amount = 10000,
      cpmm_output_amount = 4938, cpmm_trade_fee = 25, cpmm_protocol_fee = 3, cpmm_fund_fee = 1, cpmm_creator_fee = 0\<rparr>"
    by (simp add: cpmm_swap_base_input_def cpmm_compute_trading_fee_def cpmm_compute_creator_fee_new_def
        cpmm_compute_protocol_fund_fee_def ceil_fee_def floor_fee_def swapped_amount_def mul_w_def add_w_def sub_w_def
        div_w_def saturating_mul_def saturating_add_def saturating_sub_def FEE_RATE_DENOMINATOR_VALUE_def)
  show ?thesis using run cpmm_swap_keeps_product [OF run] by simp
qed

text \<open>
  The minimum output both Raydium calculators send is at most the expected output, for every slippage setting, as
  long as the output is at most \<open>2^53\<close>: the binary64 detour never asks the pool for more than it quotes.
\<close>

theorem amm_min_out_le:
  assumes "amm_compute_swap_amount p base_reserve quote_reserve is_base_in amount_in slippage = Some r"
    and "unat (swap_amount_out r) \<le> 2 ^ 53"
  shows "min_amount_out r \<le> swap_amount_out r"
  using assms min_out_le
  by (auto simp: amm_compute_swap_amount_def bind_Some_iff Let_def split: prod.splits)

theorem amm_min_out_le_witness:
  "\<exists>r. amm_compute_swap_amount Checked 1000000 500000 True 10000 100 = Some r \<and> min_amount_out r \<le> swap_amount_out r
     \<and> swap_amount_out r = 4938"
proof -
  have swap: "amm_swap_base_input Checked 10000 1000000 500000 25 25 =
    Some \<lparr>amm_new_input_vault_amount = 1009975, amm_new_output_vault_amount = 495062, amm_input_amount = 10000,
      amm_output_amount = 4938, amm_trade_fee = 25, amm_swap_fee = 0\<rparr>"
    by (simp add: amm_swap_base_input_def amm_compute_trading_fee_def amm_compute_protocol_fund_fee_def ceil_fee_def
        floor_fee_def swapped_amount_def mul_w_def add_w_def sub_w_def div_w_def saturating_mul_def saturating_add_def
        saturating_sub_def TRADE_FEE_DENOMINATOR_def SWAP_FEE_DENOMINATOR_def)
  obtain r where r: "amm_compute_swap_amount Checked 1000000 500000 True 10000 100 = Some r"
    and o: "swap_amount_out r = 4938"
    by (simp add: amm_compute_swap_amount_def TRADE_FEE_NUMERATOR_def SWAP_FEE_NUMERATOR_def swap)
  show ?thesis using r o amm_min_out_le [OF r] by auto
qed

text \<open>
  Above \<open>2^53\<close> the bound is lost: an output of \<open>2^53 + 3\<close> with no slippage allowed becomes a minimum of \<open>2^53 + 4\<close>, one more than
  the pool is expected to pay, which no swap can satisfy.
\<close>

theorem min_out_exceeds_output:
  "min_out_f64 9007199254740995 0 = 9007199254740996"
  by (simp add: min_out_f64_def f64_compute)

end
