(* ===== verification/BuilderPools.thy ===== *)
theory BuilderPools
  imports BuilderPumpSwap CalcRaydium
begin

text \<open>
  The instruction builders of the Raydium pools and of Meteora DAMM v2: \<open>instruction/raydium_cpmm.rs\<close>,
  \<open>instruction/raydium_amm_v4.rs\<close>, \<open>instruction/meteora_damm_v2.rs\<close> and the address functions of their \<open>utils\<close> modules.
  An \<open>unwrap\<close> of an address that cannot be derived is a panic. The quotes are computed before the accounts, so a quote that
  overflows panics first.
\<close>

section \<open>Constants\<close>

definition CPMM_AUTHORITY_META :: account_meta where
  "CPMM_AUTHORITY_META =
     meta_new_readonly 106295023720017726563151140856041834598523782454110109779674876033902142462567 False"

definition RAYDIUM_CPMM :: pubkey where
  "RAYDIUM_CPMM = 76515703900233190660591128275926181994727486580522254552177469512830257523827"

definition CPMM_SWAP_BASE_IN_DISCRIMINATOR :: "u8 list" where
  "CPMM_SWAP_BASE_IN_DISCRIMINATOR = [143, 190, 90, 218, 196, 30, 51, 222]"

definition AMM_AUTHORITY_META :: account_meta where
  "AMM_AUTHORITY_META =
     meta_new_readonly 29555267933980536489500274975650497092513243748647118716558015509797207118600 False"

definition RAYDIUM_AMM_V4 :: pubkey where
  "RAYDIUM_AMM_V4 = 34307378574122751251753648456821433629702160761243254248185250197633836157645"

definition AMM_SWAP_BASE_IN_DISCRIMINATOR :: "u8 list" where
  "AMM_SWAP_BASE_IN_DISCRIMINATOR = [9]"

definition DAMM_AUTHORITY_META :: account_meta where
  "DAMM_AUTHORITY_META =
     meta_new_readonly 109821617677396275365185055699446826332000032530701517628184082619042083613157 False"

definition METEORA_DAMM_V2 :: pubkey where
  "METEORA_DAMM_V2 = 4150552952357806311296800041893419763326785395543983333600872279026800614125"

definition METEORA_DAMM_V2_META :: account_meta where
  "METEORA_DAMM_V2_META = meta_new_readonly METEORA_DAMM_V2 False"

definition DAMM_SWAP_DISCRIMINATOR :: "u8 list" where
  "DAMM_SWAP_DISCRIMINATOR = [248, 198, 158, 145, 225, 117, 135, 200]"

definition TOKEN_PROGRAM_META :: account_meta where
  "TOKEN_PROGRAM_META = meta_new_readonly TOKEN_PROGRAM False"

section \<open>The two sides of a pool\<close>

definition side_is_money :: "pubkey \<Rightarrow> bool" where
  "side_is_money mint \<longleftrightarrow> mint = WSOL_TOKEN_ACCOUNT \<or> mint = USDC_TOKEN_ACCOUNT"

definition money_mint :: "pubkey \<Rightarrow> pubkey \<Rightarrow> pubkey" where
  "money_mint mint1 mint2 = (if mint1 = WSOL_TOKEN_ACCOUNT \<or> mint2 = WSOL_TOKEN_ACCOUNT then WSOL_TOKEN_ACCOUNT else USDC_TOKEN_ACCOUNT)"

section \<open>Raydium CPMM\<close>

definition cpmm_get_pool_pda :: "chain_ext \<Rightarrow> pubkey \<Rightarrow> pubkey \<Rightarrow> pubkey \<Rightarrow> pubkey option" where
  "cpmm_get_pool_pda ext amm_config mint1 mint2 =
     try_pda ext [str_bytes ''pool'', pubkey_bytes amm_config, pubkey_bytes mint1, pubkey_bytes mint2] RAYDIUM_CPMM"

definition cpmm_get_vault_pda :: "chain_ext \<Rightarrow> pubkey \<Rightarrow> pubkey \<Rightarrow> pubkey option" where
  "cpmm_get_vault_pda ext pool_state mint =
     try_pda ext [str_bytes ''pool_vault'', pubkey_bytes pool_state, pubkey_bytes mint] RAYDIUM_CPMM"

definition get_observation_state_pda :: "chain_ext \<Rightarrow> pubkey \<Rightarrow> pubkey option" where
  "get_observation_state_pda ext pool_state = try_pda ext [str_bytes ''observation'', pubkey_bytes pool_state] RAYDIUM_CPMM"

definition get_vault_account :: "chain_ext \<Rightarrow> pubkey \<Rightarrow> pubkey \<Rightarrow> raydium_cpmm_params \<Rightarrow> pubkey rust" where
  "get_vault_account ext pool_state token_mint pp =
     (if rc_base_mint pp = token_mint \<and> rc_base_vault pp \<noteq> pubkey_default then Some (rc_base_vault pp)
      else if rc_quote_mint pp = token_mint \<and> rc_quote_vault pp \<noteq> pubkey_default then Some (rc_quote_vault pp)
      else cpmm_get_vault_pda ext pool_state token_mint)"

definition cpmm_pool_state :: "chain_ext \<Rightarrow> raydium_cpmm_params \<Rightarrow> pubkey rust" where
  "cpmm_pool_state ext pp =
     (if rc_pool_state pp = pubkey_default then cpmm_get_pool_pda ext (rc_amm_config pp) (rc_base_mint pp) (rc_quote_mint pp)
      else Some (rc_pool_state pp))"

definition cpmm_observation :: "chain_ext \<Rightarrow> raydium_cpmm_params \<Rightarrow> pubkey \<Rightarrow> pubkey rust" where
  "cpmm_observation ext pp pool_state =
     (if rc_observation_state pp = pubkey_default then get_observation_state_pda ext pool_state else Some (rc_observation_state pp))"

definition cpmm_accounts ::
  "pubkey \<Rightarrow> pubkey \<Rightarrow> pubkey \<Rightarrow> pubkey \<Rightarrow> pubkey \<Rightarrow> pubkey \<Rightarrow> pubkey \<Rightarrow> pubkey \<Rightarrow> pubkey \<Rightarrow> pubkey \<Rightarrow> pubkey \<Rightarrow> pubkey \<Rightarrow> account_meta list" where
  "cpmm_accounts payer amm_config pool_state input_account output_account input_vault output_vault input_program output_program
       input_mint output_mint observation = [
     meta_new payer True,
     CPMM_AUTHORITY_META,
     meta_new amm_config False,
     meta_new pool_state False,
     meta_new input_account False,
     meta_new output_account False,
     meta_new input_vault False,
     meta_new output_vault False,
     meta_new_readonly input_program False,
     meta_new_readonly output_program False,
     meta_new_readonly input_mint False,
     meta_new_readonly output_mint False,
     meta_new observation False]"

definition cpmm_data :: "u64 \<Rightarrow> u64 \<Rightarrow> u8 list" where
  "cpmm_data amount_in minimum_amount_out = CPMM_SWAP_BASE_IN_DISCRIMINATOR @ to_le_bytes amount_in @ to_le_bytes minimum_amount_out"

definition cpmm_build_buy_instructions :: "chain_ext \<Rightarrow> profile \<Rightarrow> swap_params \<Rightarrow> (caches, instruction list) prog" where
  "cpmm_build_buy_instructions ext p params =
     (let amount_in = unwrap_or (sp_input_amount params) 0; payer = sp_payer params in
      if amount_in = 0 then fail ''Amount cannot be zero''
      else case sp_protocol_params params of
        DexRaydiumCpmm pp \<Rightarrow>
          then_do (of_rust (cpmm_pool_state ext pp)) (\<lambda>pool_state.
          if \<not> side_is_money (rc_base_mint pp) \<and> \<not> side_is_money (rc_quote_mint pp) then fail ''Pool must contain WSOL or USDC''
          else
            let is_base_in = side_is_money (rc_base_mint pp);
                mint_token_program = (if is_base_in then rc_quote_token_program pp else rc_base_token_program pp);
                money = money_mint (rc_base_mint pp) (rc_quote_mint pp)
            in
            then_do (of_rust (cpmm_compute_swap_amount p (rc_base_reserve pp) (rc_quote_reserve pp) is_base_in amount_in
                       (sp_slippage params))) (\<lambda>result.
            let minimum_amount_out = unwrap_or (sp_fixed_output_amount params) (min_amount_out result) in
            then_do (get_associated_token_address_with_program_id_fast_use_seed ext payer money TOKEN_PROGRAM
                       (sp_open_seed_optimize params)) (\<lambda>input_token_account.
            then_do (get_associated_token_address_with_program_id_fast_use_seed ext payer (sp_output_mint params) mint_token_program
                       (sp_open_seed_optimize params)) (\<lambda>output_token_account.
            then_do (of_rust (get_vault_account ext pool_state money pp)) (\<lambda>input_vault_account.
            then_do (of_rust (get_vault_account ext pool_state (sp_output_mint params) pp)) (\<lambda>output_vault_account.
            then_do (of_rust (cpmm_observation ext pp pool_state)) (\<lambda>observation_state_account.
            then_do (on_flag (sp_create_input_mint_ata params) (handle_wsol ext payer amount_in)) (\<lambda>wrap_ixs.
            then_do (on_flag (sp_create_output_mint_ata params)
                       (create_associated_token_account_idempotent_fast_use_seed ext payer payer (sp_output_mint params)
                          mint_token_program (sp_open_seed_optimize params))) (\<lambda>create_ixs.
            then_do (on_flag (sp_close_input_mint_ata params) (close_wsol ext payer)) (\<lambda>close_ixs.
            ret (wrap_ixs @ create_ixs @
              [\<lparr>program_id = RAYDIUM_CPMM,
                accounts = cpmm_accounts payer (rc_amm_config pp) pool_state input_token_account output_token_account
                  input_vault_account output_vault_account TOKEN_PROGRAM mint_token_program money (sp_output_mint params)
                  observation_state_account,
                data = cpmm_data amount_in minimum_amount_out\<rparr>] @ close_ixs)))))))))))
      | _ \<Rightarrow> fail ''Invalid protocol params for RaydiumCpmm'')"

definition cpmm_build_sell_instructions :: "chain_ext \<Rightarrow> profile \<Rightarrow> swap_params \<Rightarrow> (caches, instruction list) prog" where
  "cpmm_build_sell_instructions ext p params =
     (case sp_protocol_params params of
        DexRaydiumCpmm pp \<Rightarrow>
          let amount = unwrap_or (sp_input_amount params) 0; payer = sp_payer params in
          if amount = 0 then fail ''Token amount is not set''
          else then_do (of_rust (cpmm_pool_state ext pp)) (\<lambda>pool_state.
          if \<not> side_is_money (rc_base_mint pp) \<and> \<not> side_is_money (rc_quote_mint pp) then fail ''Pool must contain WSOL or USDC''
          else
            let is_quote_out = side_is_money (rc_quote_mint pp);
                mint_token_program = (if is_quote_out then rc_base_token_program pp else rc_quote_token_program pp);
                money = money_mint (rc_base_mint pp) (rc_quote_mint pp)
            in
            then_do (of_rust (case sp_fixed_output_amount params of
                       Some fixed \<Rightarrow> Some fixed
                     | None \<Rightarrow> map_option min_amount_out (cpmm_compute_swap_amount p (rc_base_reserve pp) (rc_quote_reserve pp)
                                 is_quote_out amount (sp_slippage params)))) (\<lambda>minimum_amount_out.
            then_do (get_associated_token_address_with_program_id_fast_use_seed ext payer money TOKEN_PROGRAM
                       (sp_open_seed_optimize params)) (\<lambda>output_token_account.
            then_do (get_associated_token_address_with_program_id_fast_use_seed ext payer (sp_input_mint params) mint_token_program
                       (sp_open_seed_optimize params)) (\<lambda>input_token_account.
            then_do (of_rust (get_vault_account ext pool_state money pp)) (\<lambda>output_vault_account.
            then_do (of_rust (get_vault_account ext pool_state (sp_input_mint params) pp)) (\<lambda>input_vault_account.
            then_do (of_rust (cpmm_observation ext pp pool_state)) (\<lambda>observation_state_account.
            then_do (on_flag (sp_create_output_mint_ata params) (create_wsol_ata ext payer)) (\<lambda>create_ixs.
            then_do (on_flag (sp_close_output_mint_ata params) (close_wsol ext payer)) (\<lambda>close_ixs.
            ret (create_ixs @
              [\<lparr>program_id = RAYDIUM_CPMM,
                accounts = cpmm_accounts payer (rc_amm_config pp) pool_state input_token_account output_token_account
                  input_vault_account output_vault_account mint_token_program TOKEN_PROGRAM (sp_input_mint params) money
                  observation_state_account,
                data = cpmm_data amount minimum_amount_out\<rparr>] @ close_ixs
              @ (if sp_close_input_mint_ata params
                 then [close_account mint_token_program input_token_account payer payer [payer]] else [])))))))))))
      | _ \<Rightarrow> fail ''Invalid protocol params for RaydiumCpmm'')"

section \<open>Raydium AMM v4\<close>

definition amm_accounts :: "raydium_amm_v4_params \<Rightarrow> pubkey \<Rightarrow> pubkey \<Rightarrow> pubkey \<Rightarrow> account_meta list" where
  "amm_accounts pp source destination payer = [
     TOKEN_PROGRAM_META,
     meta_new (ra_amm pp) False,
     AMM_AUTHORITY_META,
     meta_new (ra_amm pp) False,
     meta_new (ra_token_coin pp) False,
     meta_new (ra_token_pc pp) False,
     meta_new (ra_amm pp) False,
     meta_new (ra_amm pp) False,
     meta_new (ra_amm pp) False,
     meta_new (ra_amm pp) False,
     meta_new (ra_amm pp) False,
     meta_new (ra_amm pp) False,
     meta_new (ra_amm pp) False,
     meta_new (ra_amm pp) False,
     meta_new source False,
     meta_new destination False,
     meta_new payer True]"

definition amm_data :: "u64 \<Rightarrow> u64 \<Rightarrow> u8 list" where
  "amm_data amount_in minimum_amount_out = AMM_SWAP_BASE_IN_DISCRIMINATOR @ to_le_bytes amount_in @ to_le_bytes minimum_amount_out"

definition amm_v4_build_buy_instructions :: "chain_ext \<Rightarrow> profile \<Rightarrow> swap_params \<Rightarrow> (caches, instruction list) prog" where
  "amm_v4_build_buy_instructions ext p params =
     (let amount_in = unwrap_or (sp_input_amount params) 0; payer = sp_payer params in
      if amount_in = 0 then fail ''Amount cannot be zero''
      else case sp_protocol_params params of
        DexRaydiumAmmV4 pp \<Rightarrow>
          if \<not> side_is_money (ra_coin_mint pp) \<and> \<not> side_is_money (ra_pc_mint pp) then fail ''Pool must contain WSOL or USDC''
          else
            then_do (of_rust (amm_compute_swap_amount p (ra_coin_reserve pp) (ra_pc_reserve pp) (side_is_money (ra_coin_mint pp))
                       amount_in (sp_slippage params))) (\<lambda>swap_result.
            let minimum_amount_out = unwrap_or (sp_fixed_output_amount params) (min_amount_out swap_result) in
            then_do (get_associated_token_address_with_program_id_fast_use_seed ext payer
                       (money_mint (ra_coin_mint pp) (ra_pc_mint pp)) TOKEN_PROGRAM (sp_open_seed_optimize params)) (\<lambda>source.
            then_do (get_associated_token_address_with_program_id_fast_use_seed ext payer (sp_output_mint params) TOKEN_PROGRAM
                       (sp_open_seed_optimize params)) (\<lambda>destination.
            then_do (on_flag (sp_create_input_mint_ata params) (handle_wsol ext payer amount_in)) (\<lambda>wrap_ixs.
            then_do (on_flag (sp_create_output_mint_ata params)
                       (create_associated_token_account_idempotent_fast_use_seed ext payer payer (sp_output_mint params)
                          TOKEN_PROGRAM (sp_open_seed_optimize params))) (\<lambda>create_ixs.
            then_do (on_flag (sp_close_input_mint_ata params) (close_wsol ext payer)) (\<lambda>close_ixs.
            ret (wrap_ixs @ create_ixs @
              [\<lparr>program_id = RAYDIUM_AMM_V4, accounts = amm_accounts pp source destination payer,
                data = amm_data amount_in minimum_amount_out\<rparr>] @ close_ixs)))))))
      | _ \<Rightarrow> fail ''Invalid protocol params for RaydiumAmmV4'')"

definition amm_v4_build_sell_instructions :: "chain_ext \<Rightarrow> profile \<Rightarrow> swap_params \<Rightarrow> (caches, instruction list) prog" where
  "amm_v4_build_sell_instructions ext p params =
     (case sp_protocol_params params of
        DexRaydiumAmmV4 pp \<Rightarrow>
          let amount = unwrap_or (sp_input_amount params) 0; payer = sp_payer params in
          if amount = 0 then fail ''Token amount is not set''
          else if \<not> side_is_money (ra_coin_mint pp) \<and> \<not> side_is_money (ra_pc_mint pp) then fail ''Pool must contain WSOL or USDC''
          else
            then_do (of_rust (amm_compute_swap_amount p (ra_coin_reserve pp) (ra_pc_reserve pp) (side_is_money (ra_pc_mint pp))
                       amount (sp_slippage params))) (\<lambda>swap_result.
            let minimum_amount_out = unwrap_or (sp_fixed_output_amount params) (min_amount_out swap_result) in
            then_do (get_associated_token_address_with_program_id_fast_use_seed ext payer (sp_input_mint params) TOKEN_PROGRAM
                       (sp_open_seed_optimize params)) (\<lambda>source.
            then_do (get_associated_token_address_with_program_id_fast_use_seed ext payer
                       (money_mint (ra_coin_mint pp) (ra_pc_mint pp)) TOKEN_PROGRAM (sp_open_seed_optimize params)) (\<lambda>destination.
            then_do (on_flag (sp_create_output_mint_ata params) (create_wsol_ata ext payer)) (\<lambda>create_ixs.
            then_do (on_flag (sp_close_output_mint_ata params) (close_wsol ext payer)) (\<lambda>close_ixs.
            ret (create_ixs @
              [\<lparr>program_id = RAYDIUM_AMM_V4, accounts = amm_accounts pp source destination payer,
                data = amm_data amount minimum_amount_out\<rparr>] @ close_ixs
              @ (if sp_close_input_mint_ata params then [close_account TOKEN_PROGRAM source payer payer [payer]] else [])))))))
      | _ \<Rightarrow> fail ''Invalid protocol params for RaydiumAmmV4'')"

section \<open>Meteora DAMM v2\<close>

definition get_event_authority_pda :: "chain_ext \<Rightarrow> pubkey" where
  "get_event_authority_pda ext = fst (find_program_address ext [str_bytes ''__event_authority''] METEORA_DAMM_V2)"

definition damm_accounts :: "chain_ext \<Rightarrow> meteora_damm_v2_params \<Rightarrow> pubkey \<Rightarrow> pubkey \<Rightarrow> pubkey \<Rightarrow> account_meta list" where
  "damm_accounts ext pp input_account output_account payer = [
     DAMM_AUTHORITY_META,
     meta_new (md_pool pp) False,
     meta_new input_account False,
     meta_new output_account False,
     meta_new (md_token_a_vault pp) False,
     meta_new (md_token_b_vault pp) False,
     meta_new_readonly (md_token_a_mint pp) False,
     meta_new_readonly (md_token_b_mint pp) False,
     meta_new payer True,
     meta_new_readonly (md_token_a_program pp) False,
     meta_new_readonly (md_token_b_program pp) False,
     METEORA_DAMM_V2_META,
     meta_new_readonly (get_event_authority_pda ext) False,
     METEORA_DAMM_V2_META]"

definition damm_data :: "u64 \<Rightarrow> u64 \<Rightarrow> u8 list" where
  "damm_data amount_in minimum_amount_out = DAMM_SWAP_DISCRIMINATOR @ to_le_bytes amount_in @ to_le_bytes minimum_amount_out"

definition damm_build_buy_instructions :: "chain_ext \<Rightarrow> swap_params \<Rightarrow> (caches, instruction list) prog" where
  "damm_build_buy_instructions ext params =
     (let amount_in = unwrap_or (sp_input_amount params) 0; payer = sp_payer params in
      if amount_in = 0 then fail ''Amount cannot be zero''
      else case sp_protocol_params params of
        DexMeteoraDammV2 pp \<Rightarrow>
          if \<not> side_is_money (md_token_a_mint pp) \<and> \<not> side_is_money (md_token_b_mint pp) then fail ''Pool must contain WSOL or USDC''
          else
            let is_a_in = side_is_money (md_token_a_mint pp);
                in_program = (if is_a_in then md_token_a_program pp else md_token_b_program pp);
                out_program = (if is_a_in then md_token_b_program pp else md_token_a_program pp)
            in
            then_do (ok_or ''fixed_output_amount must be set for MeteoraDammV2 swap'' (sp_fixed_output_amount params))
              (\<lambda>minimum_amount_out.
            then_do (get_associated_token_address_with_program_id_fast_use_seed ext payer (sp_input_mint params) in_program
                       (sp_open_seed_optimize params)) (\<lambda>input_token_account.
            then_do (get_associated_token_address_with_program_id_fast_use_seed ext payer (sp_output_mint params) out_program
                       (sp_open_seed_optimize params)) (\<lambda>output_token_account.
            then_do (on_flag (sp_create_input_mint_ata params) (handle_wsol ext payer amount_in)) (\<lambda>wrap_ixs.
            then_do (on_flag (sp_create_output_mint_ata params)
                       (create_associated_token_account_idempotent_fast_use_seed ext payer payer (sp_output_mint params)
                          out_program (sp_open_seed_optimize params))) (\<lambda>create_ixs.
            then_do (on_flag (sp_close_input_mint_ata params) (close_wsol ext payer)) (\<lambda>close_ixs.
            ret (wrap_ixs @ create_ixs @
              [\<lparr>program_id = METEORA_DAMM_V2, accounts = damm_accounts ext pp input_token_account output_token_account payer,
                data = damm_data amount_in minimum_amount_out\<rparr>] @ close_ixs)))))))
      | _ \<Rightarrow> fail ''Invalid protocol params for MeteoraDammV2'')"

definition damm_build_sell_instructions :: "chain_ext \<Rightarrow> swap_params \<Rightarrow> (caches, instruction list) prog" where
  "damm_build_sell_instructions ext params =
     (case sp_protocol_params params of
        DexMeteoraDammV2 pp \<Rightarrow>
          let amount = unwrap_or (sp_input_amount params) 0; payer = sp_payer params in
          if amount = 0 then fail ''Token amount is not set''
          else if \<not> side_is_money (md_token_a_mint pp) \<and> \<not> side_is_money (md_token_b_mint pp) then fail ''Pool must contain WSOL or USDC''
          else
            let is_a_in = side_is_money (md_token_b_mint pp);
                in_program = (if is_a_in then md_token_a_program pp else md_token_b_program pp);
                out_program = (if is_a_in then md_token_b_program pp else md_token_a_program pp)
            in
            then_do (ok_or ''fixed_output_amount must be set for MeteoraDammV2 swap'' (sp_fixed_output_amount params))
              (\<lambda>minimum_amount_out.
            then_do (get_associated_token_address_with_program_id_fast_use_seed ext payer (sp_input_mint params) in_program
                       (sp_open_seed_optimize params)) (\<lambda>input_token_account.
            then_do (get_associated_token_address_with_program_id_fast_use_seed ext payer (sp_output_mint params) out_program
                       (sp_open_seed_optimize params)) (\<lambda>output_token_account.
            then_do (on_flag (sp_create_output_mint_ata params) (create_wsol_ata ext payer)) (\<lambda>create_ixs.
            then_do (on_flag (sp_close_output_mint_ata params) (close_wsol ext payer)) (\<lambda>close_ixs.
            ret (create_ixs @
              [\<lparr>program_id = METEORA_DAMM_V2, accounts = damm_accounts ext pp input_token_account output_token_account payer,
                data = damm_data amount minimum_amount_out\<rparr>] @ close_ixs
              @ (if sp_close_input_mint_ata params then [close_account in_program input_token_account payer payer [payer]] else [])))))))
      | _ \<Rightarrow> fail ''Invalid protocol params for MeteoraDammV2'')"

section \<open>The outcome does not depend on the caches\<close>

lemma cpmm_transparent:
  "transparent (coherent ext r1 r2) (cpmm_build_buy_instructions ext p params)"
  "transparent (coherent ext r1 r2) (cpmm_build_sell_instructions ext p params)"
  unfolding cpmm_build_buy_instructions_def cpmm_build_sell_instructions_def Let_def
  by (cases "sp_protocol_params params"; (simp only: dex_param_enum.case, intro transparent_intro))+

lemma amm_v4_transparent:
  "transparent (coherent ext r1 r2) (amm_v4_build_buy_instructions ext p params)"
  "transparent (coherent ext r1 r2) (amm_v4_build_sell_instructions ext p params)"
  unfolding amm_v4_build_buy_instructions_def amm_v4_build_sell_instructions_def Let_def
  by (cases "sp_protocol_params params"; (simp only: dex_param_enum.case, intro transparent_intro))+

lemma damm_transparent:
  "transparent (coherent ext r1 r2) (damm_build_buy_instructions ext params)"
  "transparent (coherent ext r1 r2) (damm_build_sell_instructions ext params)"
  unfolding damm_build_buy_instructions_def damm_build_sell_instructions_def Let_def
  by (cases "sp_protocol_params params"; (simp only: dex_param_enum.case, intro transparent_intro))+

section \<open>What the builders put on the wire\<close>

text \<open>
  The instructions around the swap: a buy may wrap the amount first, create the output account, and close the wrapped-SOL
  account; a sell may create the wrapped-SOL account first, close it, and close the account that was sold from.
\<close>

definition buy_frame :: "chain_ext \<Rightarrow> swap_params \<Rightarrow> bool \<Rightarrow> u64 \<Rightarrow> instruction list \<Rightarrow> instruction \<Rightarrow> instruction list" where
  "buy_frame ext params wrap amount create ix =
     (let payer = sp_payer params in
      (if wrap
       then [create_ata_ix ext payer, ix_transfer ext payer (wsol_of ext payer) amount, sync_native (wsol_of ext payer)] else [])
      @ (if sp_create_output_mint_ata params then create else []) @ [ix]
      @ (if sp_close_input_mint_ata params then [close_account TOKEN_PROGRAM (wsol_of ext payer) payer payer []] else []))"

definition sell_frame :: "chain_ext \<Rightarrow> swap_params \<Rightarrow> bool \<Rightarrow> pubkey \<Rightarrow> pubkey \<Rightarrow> instruction \<Rightarrow> instruction list" where
  "sell_frame ext params create_wsol program source ix =
     (let payer = sp_payer params in
      (if create_wsol then [create_ata_ix ext payer] else []) @ [ix]
      @ (if sp_close_output_mint_ata params then [close_account TOKEN_PROGRAM (wsol_of ext payer) payer payer []] else [])
      @ (if sp_close_input_mint_ata params then [close_account program source payer payer [payer]] else []))"

text \<open>
  The swap itself: an instruction of the program that only the payer signs, from the payer's account for the first mint
  (at position \<open>i\<close>) to its account for the second (at \<open>i + 1\<close>), whose bytes are the discriminator and two numbers.
\<close>

definition swap_wire ::
  "chain_ext \<Rightarrow> swap_params \<Rightarrow> pubkey \<Rightarrow> u8 list \<Rightarrow> nat \<Rightarrow> pubkey \<times> pubkey \<Rightarrow> pubkey \<times> pubkey \<Rightarrow> u64 \<Rightarrow> u64 \<Rightarrow> instruction \<Rightarrow> bool" where
  "swap_wire ext params program disc i src dst amount out ix \<longleftrightarrow>
     program_id ix = program \<and> sole_signer (sp_payer params) ix
     \<and> ata_spec ext (sp_payer params, fst src, snd src, sp_open_seed_optimize params) = Ok (meta_pubkey (accounts ix ! i))
     \<and> ata_spec ext (sp_payer params, fst dst, snd dst, sp_open_seed_optimize params) = Ok (meta_pubkey (accounts ix ! (i + 1)))
     \<and> length (data ix) = length disc + 16 \<and> take (length disc) (data ix) = disc
     \<and> u64_field (data ix) (length disc) = unat amount \<and> u64_field (data ix) (length disc + 8) = unat out"

lemma u64_fields:
  "u64_field (disc @ to_le_bytes (a :: u64) @ to_le_bytes (b :: u64)) (length disc) = unat a"
  "u64_field (disc @ to_le_bytes (a :: u64) @ to_le_bytes (b :: u64)) (length disc + 8) = unat b"
  by (simp_all add: u64_field_def le_value_to_le_bytes)

lemma pool_metas [simp]:
  "\<not> is_signer CPMM_AUTHORITY_META" "\<not> is_signer AMM_AUTHORITY_META" "\<not> is_signer DAMM_AUTHORITY_META"
  "\<not> is_signer METEORA_DAMM_V2_META" "\<not> is_signer TOKEN_PROGRAM_META"
  by (simp_all add: CPMM_AUTHORITY_META_def AMM_AUTHORITY_META_def DAMM_AUTHORITY_META_def METEORA_DAMM_V2_META_def TOKEN_PROGRAM_META_def)

lemma swap_wireI:
  assumes "ata_spec ext (sp_payer params, m1, p1, sp_open_seed_optimize params) = Ok a"
    and "ata_spec ext (sp_payer params, m2, p2, sp_open_seed_optimize params) = Ok b"
  shows "swap_wire ext params RAYDIUM_CPMM CPMM_SWAP_BASE_IN_DISCRIMINATOR 4 (m1, p1) (m2, p2) amount out
      \<lparr>program_id = RAYDIUM_CPMM, accounts = cpmm_accounts (sp_payer params) cfg pool a b v1 v2 q1 q2 n1 n2 obs, data = cpmm_data amount out\<rparr>"
    and "swap_wire ext params RAYDIUM_AMM_V4 AMM_SWAP_BASE_IN_DISCRIMINATOR 14 (m1, p1) (m2, p2) amount out
      \<lparr>program_id = RAYDIUM_AMM_V4, accounts = amm_accounts ra a b (sp_payer params), data = amm_data amount out\<rparr>"
    and "swap_wire ext params METEORA_DAMM_V2 DAMM_SWAP_DISCRIMINATOR 2 (m1, p1) (m2, p2) amount out
      \<lparr>program_id = METEORA_DAMM_V2, accounts = damm_accounts ext md a b (sp_payer params), data = damm_data amount out\<rparr>"
  using assms
  by (simp_all add: swap_wire_def cpmm_accounts_def cpmm_data_def amm_accounts_def amm_data_def damm_accounts_def damm_data_def
      u64_fields sole_signer_def del: ata_spec.simps)

text \<open>The prices behind the bytes, and the direction they were asked for.\<close>

definition cpmm_buy_wire :: "chain_ext \<Rightarrow> profile \<Rightarrow> swap_params \<Rightarrow> raydium_cpmm_params \<Rightarrow> instruction list \<Rightarrow> bool" where
  "cpmm_buy_wire ext p params pp ixs \<longleftrightarrow>
     (\<exists>amount q create ix. sp_input_amount params = Some amount \<and> amount \<noteq> 0
        \<and> ixs = buy_frame ext params (sp_create_input_mint_ata params) amount create ix
        \<and> cpmm_compute_swap_amount p (rc_base_reserve pp) (rc_quote_reserve pp) (side_is_money (rc_base_mint pp)) amount (sp_slippage params) = Some q
        \<and> swap_wire ext params RAYDIUM_CPMM CPMM_SWAP_BASE_IN_DISCRIMINATOR 4
            (money_mint (rc_base_mint pp) (rc_quote_mint pp), TOKEN_PROGRAM)
            (sp_output_mint params, if side_is_money (rc_base_mint pp) then rc_quote_token_program pp else rc_base_token_program pp)
            amount (unwrap_or (sp_fixed_output_amount params) (min_amount_out q)) ix)"

definition cpmm_sell_wire :: "chain_ext \<Rightarrow> profile \<Rightarrow> swap_params \<Rightarrow> raydium_cpmm_params \<Rightarrow> instruction list \<Rightarrow> bool" where
  "cpmm_sell_wire ext p params pp ixs \<longleftrightarrow>
     (\<exists>amount out ix. sp_input_amount params = Some amount \<and> amount \<noteq> 0
        \<and> ixs = sell_frame ext params (sp_create_output_mint_ata params) (if side_is_money (rc_quote_mint pp) then rc_base_token_program pp else rc_quote_token_program pp)
                  (meta_pubkey (accounts ix ! 4)) ix
        \<and> (case sp_fixed_output_amount params of Some fixed \<Rightarrow> out = fixed
           | None \<Rightarrow> \<exists>q. cpmm_compute_swap_amount p (rc_base_reserve pp) (rc_quote_reserve pp) (side_is_money (rc_quote_mint pp)) amount
                         (sp_slippage params) = Some q \<and> out = min_amount_out q)
        \<and> swap_wire ext params RAYDIUM_CPMM CPMM_SWAP_BASE_IN_DISCRIMINATOR 4
            (sp_input_mint params, if side_is_money (rc_quote_mint pp) then rc_base_token_program pp else rc_quote_token_program pp)
            (money_mint (rc_base_mint pp) (rc_quote_mint pp), TOKEN_PROGRAM) amount out ix)"

lemma of_rust_Some: "of_rust (Some a) = ret a"
  by simp

lemma input_amount_some: "unwrap_or x 0 \<noteq> 0 \<Longrightarrow> \<exists>a. x = Some a \<and> a \<noteq> 0"
  by (cases x) auto

lemma cpmm_buy_returns:
  assumes "returns (coherent ext r1 r2) (cpmm_build_buy_instructions ext p params) ixs"
  shows "\<exists>pp. sp_protocol_params params = DexRaydiumCpmm pp \<and> cpmm_buy_wire ext p params pp ixs"
proof -
  obtain pp where pp: "sp_protocol_params params = DexRaydiumCpmm pp"
    using assms by (cases "sp_protocol_params params") (auto simp: cpmm_build_buy_instructions_def Let_def split: if_splits)
  obtain amount where amount: "sp_input_amount params = Some amount" "amount \<noteq> 0"
    using assms by (cases "sp_input_amount params") (auto simp: cpmm_build_buy_instructions_def Let_def split: if_splits)
  obtain pool where pool: "cpmm_pool_state ext pp = Some pool"
    using assms by (cases "cpmm_pool_state ext pp") (auto simp: cpmm_build_buy_instructions_def Let_def pp amount)
  have money: "(\<not> side_is_money (rc_base_mint pp) \<and> \<not> side_is_money (rc_quote_mint pp)) = False"
    using assms by (auto simp: cpmm_build_buy_instructions_def Let_def pp amount pool split: if_splits)
  obtain a b v1 v2 obs create q where shape:
    "cpmm_compute_swap_amount p (rc_base_reserve pp) (rc_quote_reserve pp) (side_is_money (rc_base_mint pp)) amount (sp_slippage params) = Some q"
    "ata_spec ext (sp_payer params, money_mint (rc_base_mint pp) (rc_quote_mint pp), TOKEN_PROGRAM, sp_open_seed_optimize params) = Ok a"
    "ata_spec ext (sp_payer params, sp_output_mint params,
       if side_is_money (rc_base_mint pp) then rc_quote_token_program pp else rc_base_token_program pp, sp_open_seed_optimize params) = Ok b"
    "ixs = buy_frame ext params (sp_create_input_mint_ata params) amount create \<lparr>program_id = RAYDIUM_CPMM,
       accounts = cpmm_accounts (sp_payer params) (rc_amm_config pp) pool a b v1 v2 TOKEN_PROGRAM
         (if side_is_money (rc_base_mint pp) then rc_quote_token_program pp else rc_base_token_program pp)
         (money_mint (rc_base_mint pp) (rc_quote_mint pp)) (sp_output_mint params) obs,
       data = cpmm_data amount (unwrap_or (sp_fixed_output_amount params) (min_amount_out q))\<rparr>"
    using assms amount(2)
    unfolding cpmm_build_buy_instructions_def pp dex_param_enum.case Let_def amount(1) unwrap_or_simps buy_frame_def pool money if_False
      of_rust_Some then_do_simps(1)
    by (simp only: if_False)
       ((drule returns_dest)+, (elim exE conjE)?,
        (simp del: ata_spec.simps ix_spec.simps prog_simps(1,2,3) split del: if_split)?)+
  show ?thesis
    unfolding cpmm_buy_wire_def using pp amount shape(1,4) swap_wireI(1) [OF shape(2,3)] by blast
qed

lemma cpmm_sell_returns:
  assumes "returns (coherent ext r1 r2) (cpmm_build_sell_instructions ext p params) ixs"
  shows "\<exists>pp. sp_protocol_params params = DexRaydiumCpmm pp \<and> cpmm_sell_wire ext p params pp ixs"
proof -
  obtain pp where pp: "sp_protocol_params params = DexRaydiumCpmm pp"
    using assms by (cases "sp_protocol_params params") (auto simp: cpmm_build_sell_instructions_def Let_def)
  obtain amount where amount: "sp_input_amount params = Some amount" "amount \<noteq> 0"
    using assms by (cases "sp_input_amount params") (auto simp: cpmm_build_sell_instructions_def Let_def pp split: if_splits)
  obtain pool where pool: "cpmm_pool_state ext pp = Some pool"
    using assms by (cases "cpmm_pool_state ext pp") (auto simp: cpmm_build_sell_instructions_def Let_def pp amount)
  have money: "(\<not> side_is_money (rc_base_mint pp) \<and> \<not> side_is_money (rc_quote_mint pp)) = False"
    using assms by (auto simp: cpmm_build_sell_instructions_def Let_def pp amount pool split: if_splits)
  obtain a b v1 v2 obs out ix where shape:
    "(case sp_fixed_output_amount params of Some fixed \<Rightarrow> Some fixed
      | None \<Rightarrow> map_option min_amount_out (cpmm_compute_swap_amount p (rc_base_reserve pp) (rc_quote_reserve pp)
                 (side_is_money (rc_quote_mint pp)) amount (sp_slippage params))) = Some out"
    "ata_spec ext (sp_payer params, sp_input_mint params,
       if side_is_money (rc_quote_mint pp) then rc_base_token_program pp else rc_quote_token_program pp, sp_open_seed_optimize params) = Ok a"
    "ata_spec ext (sp_payer params, money_mint (rc_base_mint pp) (rc_quote_mint pp), TOKEN_PROGRAM, sp_open_seed_optimize params) = Ok b"
    "ixs = sell_frame ext params (sp_create_output_mint_ata params) (if side_is_money (rc_quote_mint pp) then rc_base_token_program pp else rc_quote_token_program pp) a ix"
    "ix = \<lparr>program_id = RAYDIUM_CPMM,
       accounts = cpmm_accounts (sp_payer params) (rc_amm_config pp) pool a b v1 v2
         (if side_is_money (rc_quote_mint pp) then rc_base_token_program pp else rc_quote_token_program pp) TOKEN_PROGRAM
         (sp_input_mint params) (money_mint (rc_base_mint pp) (rc_quote_mint pp)) obs,
       data = cpmm_data amount out\<rparr>"
    using assms amount(2)
    unfolding cpmm_build_sell_instructions_def pp dex_param_enum.case Let_def amount(1) unwrap_or_simps sell_frame_def pool money if_False
      of_rust_Some then_do_simps(1)
    by (simp only: if_False)
       ((drule returns_dest)+, (elim exE conjE)?,
        (simp del: ata_spec.simps ix_spec.simps prog_simps(1,2,3) split del: if_split option.split)?)+
  have fixed: "case sp_fixed_output_amount params of Some fixed \<Rightarrow> out = fixed
     | None \<Rightarrow> \<exists>q. cpmm_compute_swap_amount p (rc_base_reserve pp) (rc_quote_reserve pp) (side_is_money (rc_quote_mint pp)) amount
                   (sp_slippage params) = Some q \<and> out = min_amount_out q"
    using shape(1) by (auto split: option.splits)
  have "ixs = sell_frame ext params (sp_create_output_mint_ata params) (if side_is_money (rc_quote_mint pp) then rc_base_token_program pp else rc_quote_token_program pp)
      (meta_pubkey (accounts ix ! 4)) ix"
    using shape(4,5) by (simp add: cpmm_accounts_def)
  then show ?thesis
    unfolding cpmm_sell_wire_def using pp amount fixed swap_wireI(1) [OF shape(2,3)] unfolding shape(5) by blast
qed

definition amm_buy_wire :: "chain_ext \<Rightarrow> profile \<Rightarrow> swap_params \<Rightarrow> raydium_amm_v4_params \<Rightarrow> instruction list \<Rightarrow> bool" where
  "amm_buy_wire ext p params pp ixs \<longleftrightarrow>
     (\<exists>amount q create ix. sp_input_amount params = Some amount \<and> amount \<noteq> 0
        \<and> ixs = buy_frame ext params (sp_create_input_mint_ata params) amount create ix
        \<and> amm_compute_swap_amount p (ra_coin_reserve pp) (ra_pc_reserve pp) (side_is_money (ra_coin_mint pp)) amount (sp_slippage params) = Some q
        \<and> swap_wire ext params RAYDIUM_AMM_V4 AMM_SWAP_BASE_IN_DISCRIMINATOR 14
            (money_mint (ra_coin_mint pp) (ra_pc_mint pp), TOKEN_PROGRAM) (sp_output_mint params, TOKEN_PROGRAM)
            amount (unwrap_or (sp_fixed_output_amount params) (min_amount_out q)) ix)"

definition amm_sell_wire :: "chain_ext \<Rightarrow> profile \<Rightarrow> swap_params \<Rightarrow> raydium_amm_v4_params \<Rightarrow> instruction list \<Rightarrow> bool" where
  "amm_sell_wire ext p params pp ixs \<longleftrightarrow>
     (\<exists>amount q ix. sp_input_amount params = Some amount \<and> amount \<noteq> 0
        \<and> ixs = sell_frame ext params (sp_create_output_mint_ata params) TOKEN_PROGRAM (meta_pubkey (accounts ix ! 14)) ix
        \<and> amm_compute_swap_amount p (ra_coin_reserve pp) (ra_pc_reserve pp) (side_is_money (ra_pc_mint pp)) amount (sp_slippage params) = Some q
        \<and> swap_wire ext params RAYDIUM_AMM_V4 AMM_SWAP_BASE_IN_DISCRIMINATOR 14
            (sp_input_mint params, TOKEN_PROGRAM) (money_mint (ra_coin_mint pp) (ra_pc_mint pp), TOKEN_PROGRAM)
            amount (unwrap_or (sp_fixed_output_amount params) (min_amount_out q)) ix)"

lemma amm_buy_returns:
  assumes "returns (coherent ext r1 r2) (amm_v4_build_buy_instructions ext p params) ixs"
  shows "\<exists>pp. sp_protocol_params params = DexRaydiumAmmV4 pp \<and> amm_buy_wire ext p params pp ixs"
proof -
  obtain pp where pp: "sp_protocol_params params = DexRaydiumAmmV4 pp"
    using assms by (cases "sp_protocol_params params") (auto simp: amm_v4_build_buy_instructions_def Let_def split: if_splits)
  obtain amount where amount: "sp_input_amount params = Some amount" "amount \<noteq> 0"
    using assms by (cases "sp_input_amount params") (auto simp: amm_v4_build_buy_instructions_def Let_def split: if_splits)
  have money: "(\<not> side_is_money (ra_coin_mint pp) \<and> \<not> side_is_money (ra_pc_mint pp)) = False"
    using assms by (auto simp: amm_v4_build_buy_instructions_def Let_def pp amount split: if_splits)
  obtain a b create q where shape:
    "amm_compute_swap_amount p (ra_coin_reserve pp) (ra_pc_reserve pp) (side_is_money (ra_coin_mint pp)) amount (sp_slippage params) = Some q"
    "ata_spec ext (sp_payer params, money_mint (ra_coin_mint pp) (ra_pc_mint pp), TOKEN_PROGRAM, sp_open_seed_optimize params) = Ok a"
    "ata_spec ext (sp_payer params, sp_output_mint params, TOKEN_PROGRAM, sp_open_seed_optimize params) = Ok b"
    "ixs = buy_frame ext params (sp_create_input_mint_ata params) amount create \<lparr>program_id = RAYDIUM_AMM_V4, accounts = amm_accounts pp a b (sp_payer params),
       data = amm_data amount (unwrap_or (sp_fixed_output_amount params) (min_amount_out q))\<rparr>"
    using assms amount(2)
    unfolding amm_v4_build_buy_instructions_def pp dex_param_enum.case Let_def amount(1) unwrap_or_simps buy_frame_def money if_False
    by (simp only: if_False)
       ((drule returns_dest)+, (elim exE conjE)?,
        (simp del: ata_spec.simps ix_spec.simps prog_simps(1,2,3) split del: if_split)?)+
  show ?thesis
    unfolding amm_buy_wire_def using pp amount shape(1,4) swap_wireI(2) [OF shape(2,3)] by blast
qed

lemma amm_sell_returns:
  assumes "returns (coherent ext r1 r2) (amm_v4_build_sell_instructions ext p params) ixs"
  shows "\<exists>pp. sp_protocol_params params = DexRaydiumAmmV4 pp \<and> amm_sell_wire ext p params pp ixs"
proof -
  obtain pp where pp: "sp_protocol_params params = DexRaydiumAmmV4 pp"
    using assms by (cases "sp_protocol_params params") (auto simp: amm_v4_build_sell_instructions_def Let_def)
  obtain amount where amount: "sp_input_amount params = Some amount" "amount \<noteq> 0"
    using assms by (cases "sp_input_amount params") (auto simp: amm_v4_build_sell_instructions_def Let_def pp split: if_splits)
  have money: "(\<not> side_is_money (ra_coin_mint pp) \<and> \<not> side_is_money (ra_pc_mint pp)) = False"
    using assms by (auto simp: amm_v4_build_sell_instructions_def Let_def pp amount split: if_splits)
  obtain a b q ix where shape:
    "amm_compute_swap_amount p (ra_coin_reserve pp) (ra_pc_reserve pp) (side_is_money (ra_pc_mint pp)) amount (sp_slippage params) = Some q"
    "ata_spec ext (sp_payer params, sp_input_mint params, TOKEN_PROGRAM, sp_open_seed_optimize params) = Ok a"
    "ata_spec ext (sp_payer params, money_mint (ra_coin_mint pp) (ra_pc_mint pp), TOKEN_PROGRAM, sp_open_seed_optimize params) = Ok b"
    "ixs = sell_frame ext params (sp_create_output_mint_ata params) TOKEN_PROGRAM a ix"
    "ix = \<lparr>program_id = RAYDIUM_AMM_V4, accounts = amm_accounts pp a b (sp_payer params),
       data = amm_data amount (unwrap_or (sp_fixed_output_amount params) (min_amount_out q))\<rparr>"
    using assms amount(2)
    unfolding amm_v4_build_sell_instructions_def pp dex_param_enum.case Let_def amount(1) unwrap_or_simps sell_frame_def money if_False
    by (simp only: if_False)
       ((drule returns_dest)+, (elim exE conjE)?,
        (simp del: ata_spec.simps ix_spec.simps prog_simps(1,2,3) split del: if_split)?)+
  have "ixs = sell_frame ext params (sp_create_output_mint_ata params) TOKEN_PROGRAM (meta_pubkey (accounts ix ! 14)) ix"
    using shape(4,5) by (simp add: amm_accounts_def)
  then show ?thesis
    unfolding amm_sell_wire_def using pp amount shape(1) swap_wireI(2) [OF shape(2,3)] unfolding shape(5) by blast
qed

definition damm_wire :: "chain_ext \<Rightarrow> swap_params \<Rightarrow> meteora_damm_v2_params \<Rightarrow> bool \<Rightarrow> instruction list \<Rightarrow> bool" where
  "damm_wire ext params pp is_buy ixs \<longleftrightarrow>
     (\<exists>amount out create ix. sp_input_amount params = Some amount \<and> amount \<noteq> 0 \<and> sp_fixed_output_amount params = Some out
        \<and> (let a_in = side_is_money (if is_buy then md_token_a_mint pp else md_token_b_mint pp);
               in_program = (if a_in then md_token_a_program pp else md_token_b_program pp);
               out_program = (if a_in then md_token_b_program pp else md_token_a_program pp)
           in ixs = (if is_buy then buy_frame ext params (sp_create_input_mint_ata params) amount create ix
                     else sell_frame ext params (sp_create_output_mint_ata params) in_program (meta_pubkey (accounts ix ! 2)) ix)
            \<and> swap_wire ext params METEORA_DAMM_V2 DAMM_SWAP_DISCRIMINATOR 2
                (sp_input_mint params, in_program) (sp_output_mint params, out_program) amount out ix))"

lemma damm_buy_returns:
  assumes "returns (coherent ext r1 r2) (damm_build_buy_instructions ext params) ixs"
  shows "\<exists>pp. sp_protocol_params params = DexMeteoraDammV2 pp \<and> damm_wire ext params pp True ixs"
proof -
  obtain pp where pp: "sp_protocol_params params = DexMeteoraDammV2 pp"
    using assms by (cases "sp_protocol_params params") (auto simp: damm_build_buy_instructions_def Let_def split: if_splits)
  obtain amount where amount: "sp_input_amount params = Some amount" "amount \<noteq> 0"
    using assms by (cases "sp_input_amount params") (auto simp: damm_build_buy_instructions_def Let_def split: if_splits)
  have money: "(\<not> side_is_money (md_token_a_mint pp) \<and> \<not> side_is_money (md_token_b_mint pp)) = False"
    using assms by (auto simp: damm_build_buy_instructions_def Let_def pp amount split: if_splits)
  obtain a b create out where shape:
    "sp_fixed_output_amount params = Some out"
    "ata_spec ext (sp_payer params, sp_input_mint params,
       if side_is_money (md_token_a_mint pp) then md_token_a_program pp else md_token_b_program pp, sp_open_seed_optimize params) = Ok a"
    "ata_spec ext (sp_payer params, sp_output_mint params,
       if side_is_money (md_token_a_mint pp) then md_token_b_program pp else md_token_a_program pp, sp_open_seed_optimize params) = Ok b"
    "ixs = buy_frame ext params (sp_create_input_mint_ata params) amount create
       \<lparr>program_id = METEORA_DAMM_V2, accounts = damm_accounts ext pp a b (sp_payer params), data = damm_data amount out\<rparr>"
    using assms amount(2)
    unfolding damm_build_buy_instructions_def pp dex_param_enum.case Let_def amount(1) unwrap_or_simps buy_frame_def money if_False
    by (simp only: if_False)
       ((drule returns_dest)+, (elim exE conjE)?,
        (simp del: ata_spec.simps ix_spec.simps prog_simps(1,2,3) split del: if_split)?)+
  show ?thesis
    unfolding damm_wire_def Let_def if_True using pp amount shape(1,4) swap_wireI(3) [OF shape(2,3)] by blast
qed

lemma damm_sell_returns:
  assumes "returns (coherent ext r1 r2) (damm_build_sell_instructions ext params) ixs"
  shows "\<exists>pp. sp_protocol_params params = DexMeteoraDammV2 pp \<and> damm_wire ext params pp False ixs"
proof -
  obtain pp where pp: "sp_protocol_params params = DexMeteoraDammV2 pp"
    using assms by (cases "sp_protocol_params params") (auto simp: damm_build_sell_instructions_def Let_def)
  obtain amount where amount: "sp_input_amount params = Some amount" "amount \<noteq> 0"
    using assms by (cases "sp_input_amount params") (auto simp: damm_build_sell_instructions_def Let_def pp split: if_splits)
  have money: "(\<not> side_is_money (md_token_a_mint pp) \<and> \<not> side_is_money (md_token_b_mint pp)) = False"
    using assms by (auto simp: damm_build_sell_instructions_def Let_def pp amount split: if_splits)
  obtain a b out ix where shape:
    "sp_fixed_output_amount params = Some out"
    "ata_spec ext (sp_payer params, sp_input_mint params,
       if side_is_money (md_token_b_mint pp) then md_token_a_program pp else md_token_b_program pp, sp_open_seed_optimize params) = Ok a"
    "ata_spec ext (sp_payer params, sp_output_mint params,
       if side_is_money (md_token_b_mint pp) then md_token_b_program pp else md_token_a_program pp, sp_open_seed_optimize params) = Ok b"
    "ixs = sell_frame ext params (sp_create_output_mint_ata params) (if side_is_money (md_token_b_mint pp) then md_token_a_program pp else md_token_b_program pp) a ix"
    "ix = \<lparr>program_id = METEORA_DAMM_V2, accounts = damm_accounts ext pp a b (sp_payer params), data = damm_data amount out\<rparr>"
    using assms amount(2)
    unfolding damm_build_sell_instructions_def pp dex_param_enum.case Let_def amount(1) unwrap_or_simps sell_frame_def money if_False
    by (simp only: if_False)
       ((drule returns_dest)+, (elim exE conjE)?,
        (simp del: ata_spec.simps ix_spec.simps prog_simps(1,2,3) split del: if_split)?)+
  have "ixs = sell_frame ext params (sp_create_output_mint_ata params) (if side_is_money (md_token_b_mint pp) then md_token_a_program pp else md_token_b_program pp)
      (meta_pubkey (accounts ix ! 2)) ix"
    using shape(4,5) by (simp add: damm_accounts_def)
  then show ?thesis
    unfolding damm_wire_def Let_def if_False using pp amount shape(1) swap_wireI(3) [OF shape(2,3)] unfolding shape(5) by blast
qed

section \<open>Properties\<close>


definition sample_cpmm :: raydium_cpmm_params where
  "sample_cpmm = \<lparr>rc_pool_state = 100, rc_amm_config = 101, rc_base_mint = 9, rc_quote_mint = WSOL_TOKEN_ACCOUNT,
     rc_base_reserve = 1000000, rc_quote_reserve = 50000, rc_base_vault = 102, rc_quote_vault = 103,
     rc_base_token_program = TOKEN_PROGRAM, rc_quote_token_program = TOKEN_PROGRAM, rc_observation_state = 104\<rparr>"

definition sample_damm :: meteora_damm_v2_params where
  "sample_damm = \<lparr>md_pool = 100, md_token_a_vault = 101, md_token_b_vault = 102, md_token_a_mint = 9,
     md_token_b_mint = WSOL_TOKEN_ACCOUNT, md_token_a_program = TOKEN_PROGRAM, md_token_b_program = TOKEN_PROGRAM\<rparr>"

lemma sample_pool_runs:
  "\<exists>ixs. yields (coherent sample_ext 5 6) (cpmm_build_sell_instructions sample_ext Checked (sample_request (DexRaydiumCpmm sample_cpmm))) (Ok ixs)"
  "\<exists>ixs. yields (coherent sample_ext 5 6) (damm_build_buy_instructions sample_ext (sample_request (DexMeteoraDammV2 sample_damm))) (Ok ixs)"
proof -
  have m: "side_is_money WSOL_TOKEN_ACCOUNT" "\<not> side_is_money 9" "money_mint 9 WSOL_TOKEN_ACCOUNT = WSOL_TOKEN_ACCOUNT"
    by (simp_all add: side_is_money_def money_mint_def token_account_defs)
  have ne: "9 \<noteq> WSOL_TOKEN_ACCOUNT" "WSOL_TOKEN_ACCOUNT \<noteq> 9" by (simp_all add: token_account_defs)
  show "\<exists>ixs. yields (coherent sample_ext 5 6) (cpmm_build_sell_instructions sample_ext Checked (sample_request (DexRaydiumCpmm sample_cpmm))) (Ok ixs)"
    unfolding cpmm_build_sell_instructions_def
    by (simp add: sample_request_def sample_cpmm_def Let_def m cpmm_pool_state_def cpmm_observation_def get_vault_account_def pubkey_default_def
        ne del: prog_simps(1,2,3))
       (rule exI, (rule pumpswap_run refl)+)
  show "\<exists>ixs. yields (coherent sample_ext 5 6) (damm_build_buy_instructions sample_ext (sample_request (DexMeteoraDammV2 sample_damm))) (Ok ixs)"
    unfolding damm_build_buy_instructions_def
    by (simp add: sample_request_def sample_damm_def Let_def m del: prog_simps(1,2,3)) (rule exI, (rule pumpswap_run refl)+)
qed


text \<open>
  A pool of the two currencies themselves is quoted the wrong way round: with USDC as the base and WSOL as the quote a
  buy pays from the wallet's WSOL account, yet the price it is given is the one for USDC going in.
\<close>

lemma wsol_usdc_pool_direction:
  assumes "returns (coherent ext r1 r2) (cpmm_build_buy_instructions ext p params) ixs"
    and "sp_protocol_params params = DexRaydiumCpmm pp" and "rc_base_mint pp = USDC_TOKEN_ACCOUNT" and "rc_quote_mint pp = WSOL_TOKEN_ACCOUNT"
  shows "\<exists>amount q create ix. ixs = buy_frame ext params (sp_create_input_mint_ata params) amount create ix
    \<and> ata_spec ext (sp_payer params, WSOL_TOKEN_ACCOUNT, TOKEN_PROGRAM, sp_open_seed_optimize params) = Ok (meta_pubkey (accounts ix ! 4))
    \<and> cpmm_compute_swap_amount p (rc_base_reserve pp) (rc_quote_reserve pp) True amount (sp_slippage params) = Some q"
proof -
  have "cpmm_buy_wire ext p params pp ixs" using cpmm_buy_returns [OF assms(1)] assms(2) by auto
  moreover have "side_is_money USDC_TOKEN_ACCOUNT" "money_mint USDC_TOKEN_ACCOUNT WSOL_TOKEN_ACCOUNT = WSOL_TOKEN_ACCOUNT"
    by (simp_all add: side_is_money_def money_mint_def)
  ultimately show ?thesis
    unfolding cpmm_buy_wire_def swap_wire_def assms(3,4) fst_conv snd_conv by (simp del: ata_spec.simps) blast
qed

end
