(* ===== verification/BuilderBonk.thy ===== *)
theory BuilderBonk
  imports BuilderPools
begin

text \<open>
  The instruction builder of Bonk (\<open>instruction/bonk.rs\<close>): the pool of a mint is quoted in WSOL, or in USD1 when the
  parameters name the USD1 configuration; addresses that the parameters leave out are derived.
\<close>

section \<open>Constants\<close>

definition BONK_AUTHORITY_META :: account_meta where
  "BONK_AUTHORITY_META =
     meta_new_readonly 3398806969129441423698696271558161021219772891049670601130704565879806338600 False"

definition BONK_GLOBAL_CONFIG :: pubkey where
  "BONK_GLOBAL_CONFIG = 39398135946523992960597483873676182934533619188640221056684398021146829162110"

definition USD1_GLOBAL_CONFIG :: pubkey where
  "USD1_GLOBAL_CONFIG = 89999129654422354254867544100284474575863187225819901955615822937941615849305"

definition BONK_EVENT_AUTHORITY_META :: account_meta where
  "BONK_EVENT_AUTHORITY_META =
     meta_new_readonly 8155280211490962990102949498497118276016804923602741826881819295468703636847 False"

definition BONK_META :: account_meta where
  "BONK_META = meta_new_readonly BONK False"

definition BUY_EXECT_IN_DISCRIMINATOR :: "u8 list" where
  "BUY_EXECT_IN_DISCRIMINATOR = [250, 234, 13, 123, 213, 156, 19, 236]"

definition SELL_EXECT_IN_DISCRIMINATOR :: "u8 list" where
  "SELL_EXECT_IN_DISCRIMINATOR = [149, 39, 222, 155, 211, 124, 152, 26]"

section \<open>Addresses\<close>

definition get_platform_associated_account :: "chain_ext \<Rightarrow> pubkey \<Rightarrow> pubkey option" where
  "get_platform_associated_account ext platform_config =
     try_pda ext [pubkey_bytes platform_config, pubkey_bytes WSOL_TOKEN_ACCOUNT] BONK"

definition get_creator_associated_account :: "chain_ext \<Rightarrow> pubkey \<Rightarrow> pubkey option" where
  "get_creator_associated_account ext creator = try_pda ext [pubkey_bytes creator, pubkey_bytes WSOL_TOKEN_ACCOUNT] BONK"

definition usd1_pool :: "bonk_params \<Rightarrow> bool" where
  "usd1_pool pp \<longleftrightarrow> bk_global_config pp = USD1_GLOBAL_CONFIG"

definition bonk_quote_mint :: "bonk_params \<Rightarrow> pubkey" where
  "bonk_quote_mint pp = (if usd1_pool pp then USD1_TOKEN_ACCOUNT else WSOL_TOKEN_ACCOUNT)"

text \<open>A given address, or the one that is derived; a derivation that fails is unwrapped.\<close>

definition given_or :: "pubkey \<Rightarrow> (caches, pubkey option) prog \<Rightarrow> (caches, pubkey) prog" where
  "given_or given derive = (if given = pubkey_default then then_do derive of_rust else ret given)"

definition bonk_accounts ::
  "bonk_params \<Rightarrow> pubkey \<Rightarrow> pubkey \<Rightarrow> pubkey \<Rightarrow> pubkey \<Rightarrow> pubkey \<Rightarrow> pubkey \<Rightarrow> pubkey \<Rightarrow> account_meta list" where
  "bonk_accounts pp payer mint pool_state user_base user_quote base_vault quote_vault = [
     meta_new payer True,
     BONK_AUTHORITY_META,
     meta_new_readonly (if usd1_pool pp then USD1_GLOBAL_CONFIG else BONK_GLOBAL_CONFIG) False,
     meta_new_readonly (bk_platform_config pp) False,
     meta_new pool_state False,
     meta_new user_base False,
     meta_new user_quote False,
     meta_new base_vault False,
     meta_new quote_vault False,
     meta_new_readonly mint False,
     meta_new_readonly (bonk_quote_mint pp) False,
     meta_new_readonly (bk_mint_token_program pp) False,
     TOKEN_PROGRAM_META,
     BONK_EVENT_AUTHORITY_META,
     BONK_META,
     SYSTEM_PROGRAM_META,
     meta_new (bk_platform_associated_account pp) False,
     meta_new (bk_creator_associated_account pp) False]"

definition bonk_data :: "u8 list \<Rightarrow> u64 \<Rightarrow> u64 \<Rightarrow> u8 list" where
  "bonk_data disc amount_in minimum_amount_out =
     disc @ to_le_bytes amount_in @ to_le_bytes minimum_amount_out @ to_le_bytes (0 :: u64)"

section \<open>The builder\<close>

definition bonk_build_buy_instructions :: "chain_ext \<Rightarrow> profile \<Rightarrow> swap_params \<Rightarrow> (caches, instruction list) prog" where
  "bonk_build_buy_instructions ext p params =
     (let amount_in = unwrap_or (sp_input_amount params) 0; payer = sp_payer params; mint = sp_output_mint params in
      if amount_in = 0 then fail ''Amount cannot be zero''
      else case sp_protocol_params params of
        DexBonk pp \<Rightarrow>
          then_do (given_or (bk_pool_state pp) (bonk_get_pool_pda ext mint (bonk_quote_mint pp))) (\<lambda>pool_state.
          then_do (of_rust (case sp_fixed_output_amount params of
                     Some fixed_amount \<Rightarrow> Some fixed_amount
                   | None \<Rightarrow> bonk_get_buy_token_amount_from_sol_amount p amount_in (bk_virtual_base pp) (bk_virtual_quote pp)
                               (bk_real_base pp) (bk_real_quote pp) (as_u128 (sp_slippage params)))) (\<lambda>minimum_amount_out.
          then_do (get_associated_token_address_with_program_id_fast_use_seed ext payer mint (bk_mint_token_program pp)
                     (sp_open_seed_optimize params)) (\<lambda>user_base_token_account.
          then_do (get_associated_token_address_with_program_id_fast_use_seed ext payer (bonk_quote_mint pp) TOKEN_PROGRAM
                     (sp_open_seed_optimize params)) (\<lambda>user_quote_token_account.
          then_do (given_or (bk_base_vault pp) (bonk_get_vault_pda ext pool_state mint)) (\<lambda>base_vault_account.
          then_do (given_or (bk_quote_vault pp) (bonk_get_vault_pda ext pool_state (bonk_quote_mint pp))) (\<lambda>quote_vault_account.
          then_do (on_flag (sp_create_input_mint_ata params \<and> \<not> usd1_pool pp) (handle_wsol ext payer amount_in)) (\<lambda>wrap_ixs.
          then_do (on_flag (sp_create_output_mint_ata params)
                     (create_associated_token_account_idempotent_fast_use_seed ext payer payer mint (bk_mint_token_program pp)
                        (sp_open_seed_optimize params))) (\<lambda>create_ixs.
          then_do (on_flag (sp_close_input_mint_ata params) (close_wsol ext payer)) (\<lambda>close_ixs.
          ret (wrap_ixs @ create_ixs @
            [\<lparr>program_id = BONK,
              accounts = bonk_accounts pp payer mint pool_state user_base_token_account user_quote_token_account
                base_vault_account quote_vault_account,
              data = bonk_data BUY_EXECT_IN_DISCRIMINATOR amount_in minimum_amount_out\<rparr>] @ close_ixs))))))))))
      | _ \<Rightarrow> fail ''Invalid protocol params for Bonk'')"

definition bonk_build_sell_instructions :: "chain_ext \<Rightarrow> profile \<Rightarrow> swap_params \<Rightarrow> (caches, instruction list) prog" where
  "bonk_build_sell_instructions ext p params =
     (case sp_input_amount params of
        None \<Rightarrow> fail ''Bonk sell requires input_amount (token amount to sell); fetch balance via RPC before calling build_sell''
      | Some amount \<Rightarrow>
        if \<not> amount > 0
        then fail ''Bonk sell requires input_amount (token amount to sell); fetch balance via RPC before calling build_sell''
        else case sp_protocol_params params of
        DexBonk pp \<Rightarrow>
          let payer = sp_payer params; mint = sp_input_mint params in
          then_do (given_or (bk_pool_state pp) (bonk_get_pool_pda ext mint (bonk_quote_mint pp))) (\<lambda>pool_state.
          then_do (of_rust (case sp_fixed_output_amount params of
                     Some fixed_amount \<Rightarrow> Some fixed_amount
                   | None \<Rightarrow> bonk_get_sell_sol_amount_from_token_amount p amount (bk_virtual_base pp) (bk_virtual_quote pp)
                               (bk_real_base pp) (bk_real_quote pp) (as_u128 (sp_slippage params)))) (\<lambda>minimum_amount_out.
          then_do (get_associated_token_address_with_program_id_fast_use_seed ext payer mint (bk_mint_token_program pp)
                     (sp_open_seed_optimize params)) (\<lambda>user_base_token_account.
          then_do (get_associated_token_address_with_program_id_fast_use_seed ext payer (bonk_quote_mint pp) TOKEN_PROGRAM
                     (sp_open_seed_optimize params)) (\<lambda>user_quote_token_account.
          then_do (given_or (bk_base_vault pp) (bonk_get_vault_pda ext pool_state mint)) (\<lambda>base_vault_account.
          then_do (given_or (bk_quote_vault pp) (bonk_get_vault_pda ext pool_state (bonk_quote_mint pp))) (\<lambda>quote_vault_account.
          then_do (on_flag (sp_close_output_mint_ata params \<and> \<not> usd1_pool pp) (create_wsol_ata ext payer)) (\<lambda>create_ixs.
          then_do (on_flag (sp_close_output_mint_ata params) (close_wsol ext payer)) (\<lambda>close_ixs.
          ret (create_ixs @
            [\<lparr>program_id = BONK,
              accounts = bonk_accounts pp payer mint pool_state user_base_token_account user_quote_token_account
                base_vault_account quote_vault_account,
              data = bonk_data SELL_EXECT_IN_DISCRIMINATOR amount minimum_amount_out\<rparr>] @ close_ixs
            @ (if sp_close_input_mint_ata params
               then [close_account (bk_mint_token_program pp) user_base_token_account payer payer [payer]] else []))))))))))
      | _ \<Rightarrow> fail ''Invalid protocol params for Bonk'')"

section \<open>The outcome does not depend on the caches\<close>

lemma transparent_given_or [transparent_intro]: "transparent I m \<Longrightarrow> transparent I (given_or k m)"
  unfolding given_or_def by (intro transparent_intro)

lemma bonk_transparent:
  "transparent (coherent ext r1 r2) (bonk_build_buy_instructions ext p params)"
  "transparent (coherent ext r1 r2) (bonk_build_sell_instructions ext p params)"
  unfolding bonk_build_buy_instructions_def bonk_build_sell_instructions_def Let_def pda_getters
  by (cases "sp_protocol_params params"; (simp only: dex_param_enum.case, intro transparent_intro))+

section \<open>What the builder puts on the wire\<close>

definition bonk_wire :: "chain_ext \<Rightarrow> swap_params \<Rightarrow> bonk_params \<Rightarrow> pubkey \<Rightarrow> u8 list \<Rightarrow> u64 \<Rightarrow> u64 \<Rightarrow> instruction \<Rightarrow> bool" where
  "bonk_wire ext params pp mint disc amount out ix \<longleftrightarrow>
     program_id ix = BONK \<and> sole_signer (sp_payer params) ix
     \<and> (if bk_pool_state pp = pubkey_default then pda_spec ext (BonkPool mint (bonk_quote_mint pp)) else Some (bk_pool_state pp))
         = Some (meta_pubkey (accounts ix ! 4))
     \<and> ata_spec ext (sp_payer params, mint, bk_mint_token_program pp, sp_open_seed_optimize params) = Ok (meta_pubkey (accounts ix ! 5))
     \<and> ata_spec ext (sp_payer params, bonk_quote_mint pp, TOKEN_PROGRAM, sp_open_seed_optimize params) = Ok (meta_pubkey (accounts ix ! 6))
     \<and> length (data ix) = 32 \<and> take 8 (data ix) = disc
     \<and> u64_field (data ix) 8 = unat amount \<and> u64_field (data ix) 16 = unat out \<and> u64_field (data ix) 24 = 0"

lemma returns_given_or [returns_dest]:
  "returns (coherent ext r1 r2) (then_do (given_or k (cached_pda ext key)) f) b
     \<Longrightarrow> \<exists>a. (if k = pubkey_default then pda_spec ext key else Some k) = Some a \<and> returns (coherent ext r1 r2) (f a) b"
  unfolding given_or_def
  by (cases "k = pubkey_default") (auto simp: then_do_push simp del: pda_spec.simps prog_simps(1,2,3) dest!: returns_dest)

lemma bonk_metas [simp]:
  "\<not> is_signer BONK_AUTHORITY_META" "\<not> is_signer BONK_EVENT_AUTHORITY_META" "\<not> is_signer BONK_META" "\<not> is_signer SYSTEM_PROGRAM_META"
  by (simp_all add: BONK_AUTHORITY_META_def BONK_EVENT_AUTHORITY_META_def BONK_META_def SYSTEM_PROGRAM_META_def)

lemma bonk_wireI:
  assumes "(if bk_pool_state pp = pubkey_default then pda_spec ext (BonkPool mint (bonk_quote_mint pp)) else Some (bk_pool_state pp)) = Some pool"
    and "ata_spec ext (sp_payer params, mint, bk_mint_token_program pp, sp_open_seed_optimize params) = Ok a"
    and "ata_spec ext (sp_payer params, bonk_quote_mint pp, TOKEN_PROGRAM, sp_open_seed_optimize params) = Ok b"
    and "length disc = 8"
  shows "bonk_wire ext params pp mint disc amount out \<lparr>program_id = BONK,
     accounts = bonk_accounts pp (sp_payer params) mint pool a b v1 v2, data = bonk_data disc amount out\<rparr>"
  using assms
  by (simp add: bonk_wire_def bonk_accounts_def bonk_data_def sole_signer_def u64_field_def le_value_to_le_bytes
      del: ata_spec.simps pda_spec.simps)

definition bonk_quote_or_fixed :: "profile \<Rightarrow> swap_params \<Rightarrow> bonk_params \<Rightarrow> bool \<Rightarrow> u64 \<Rightarrow> u64 rust" where
  "bonk_quote_or_fixed p params pp is_buy amount =
     (case sp_fixed_output_amount params of
        Some fixed_amount \<Rightarrow> Some fixed_amount
      | None \<Rightarrow> (if is_buy then bonk_get_buy_token_amount_from_sol_amount else bonk_get_sell_sol_amount_from_token_amount) p amount
          (bk_virtual_base pp) (bk_virtual_quote pp) (bk_real_base pp) (bk_real_quote pp) (as_u128 (sp_slippage params)))"

definition bonk_buy_wire :: "chain_ext \<Rightarrow> profile \<Rightarrow> swap_params \<Rightarrow> bonk_params \<Rightarrow> instruction list \<Rightarrow> bool" where
  "bonk_buy_wire ext p params pp ixs \<longleftrightarrow>
     (\<exists>amount out create ix. sp_input_amount params = Some amount \<and> amount \<noteq> 0
        \<and> ixs = buy_frame ext params (sp_create_input_mint_ata params \<and> \<not> usd1_pool pp) amount create ix
        \<and> bonk_quote_or_fixed p params pp True amount = Some out
        \<and> bonk_wire ext params pp (sp_output_mint params) BUY_EXECT_IN_DISCRIMINATOR amount out ix)"

definition bonk_sell_wire :: "chain_ext \<Rightarrow> profile \<Rightarrow> swap_params \<Rightarrow> bonk_params \<Rightarrow> instruction list \<Rightarrow> bool" where
  "bonk_sell_wire ext p params pp ixs \<longleftrightarrow>
     (\<exists>amount out ix. sp_input_amount params = Some amount \<and> amount > 0
        \<and> ixs = sell_frame ext params (sp_close_output_mint_ata params \<and> \<not> usd1_pool pp)
                  (bk_mint_token_program pp) (meta_pubkey (accounts ix ! 5)) ix
        \<and> bonk_quote_or_fixed p params pp False amount = Some out
        \<and> bonk_wire ext params pp (sp_input_mint params) SELL_EXECT_IN_DISCRIMINATOR amount out ix)"

lemma bonk_buy_returns:
  assumes "returns (coherent ext r1 r2) (bonk_build_buy_instructions ext p params) ixs"
  shows "\<exists>pp. sp_protocol_params params = DexBonk pp \<and> bonk_buy_wire ext p params pp ixs"
proof -
  obtain pp where pp: "sp_protocol_params params = DexBonk pp"
    using assms by (cases "sp_protocol_params params") (auto simp: bonk_build_buy_instructions_def Let_def split: if_splits)
  obtain amount where amount: "sp_input_amount params = Some amount" "amount \<noteq> 0"
    using assms by (cases "sp_input_amount params") (auto simp: bonk_build_buy_instructions_def Let_def split: if_splits)
  have zero: "(amount = 0) = False" using amount(2) by simp
  obtain pool a b v1 v2 create out where shape:
    "(if bk_pool_state pp = pubkey_default then pda_spec ext (BonkPool (sp_output_mint params) (bonk_quote_mint pp)) else Some (bk_pool_state pp)) = Some pool"
    "ata_spec ext (sp_payer params, sp_output_mint params, bk_mint_token_program pp, sp_open_seed_optimize params) = Ok a"
    "ata_spec ext (sp_payer params, bonk_quote_mint pp, TOKEN_PROGRAM, sp_open_seed_optimize params) = Ok b"
    "bonk_quote_or_fixed p params pp True amount = Some out"
    "ixs = buy_frame ext params (sp_create_input_mint_ata params \<and> \<not> usd1_pool pp) amount create
       \<lparr>program_id = BONK, accounts = bonk_accounts pp (sp_payer params) (sp_output_mint params) pool a b v1 v2,
        data = bonk_data BUY_EXECT_IN_DISCRIMINATOR amount out\<rparr>"
    using assms
    unfolding bonk_build_buy_instructions_def pp dex_param_enum.case Let_def amount(1) unwrap_or_simps zero if_False buy_frame_def
      bonk_quote_or_fixed_def pda_getters if_True
    by - ((drule returns_dest)+, (elim exE conjE)?,
        (simp del: ata_spec.simps ix_spec.simps pda_spec.simps prog_simps(1,2,3) split del: if_split)?)+
  have "length BUY_EXECT_IN_DISCRIMINATOR = 8" by (simp add: BUY_EXECT_IN_DISCRIMINATOR_def)
  note wire = bonk_wireI [OF shape(1-3) this]
  show ?thesis
    unfolding bonk_buy_wire_def using pp amount shape(4,5) wire by blast
qed

lemma bonk_sell_returns:
  assumes "returns (coherent ext r1 r2) (bonk_build_sell_instructions ext p params) ixs"
  shows "\<exists>pp. sp_protocol_params params = DexBonk pp \<and> bonk_sell_wire ext p params pp ixs"
proof -
  obtain amount where amount: "sp_input_amount params = Some amount" "amount > 0"
    using assms by (cases "sp_input_amount params") (auto simp: bonk_build_sell_instructions_def split: if_splits)
  obtain pp where pp: "sp_protocol_params params = DexBonk pp"
    using assms by (cases "sp_protocol_params params") (auto simp: bonk_build_sell_instructions_def amount)
  have zero: "(\<not> amount > 0) = False" using amount(2) by simp
  obtain pool a b v1 v2 out ix where shape:
    "(if bk_pool_state pp = pubkey_default then pda_spec ext (BonkPool (sp_input_mint params) (bonk_quote_mint pp)) else Some (bk_pool_state pp)) = Some pool"
    "ata_spec ext (sp_payer params, sp_input_mint params, bk_mint_token_program pp, sp_open_seed_optimize params) = Ok a"
    "ata_spec ext (sp_payer params, bonk_quote_mint pp, TOKEN_PROGRAM, sp_open_seed_optimize params) = Ok b"
    "bonk_quote_or_fixed p params pp False amount = Some out"
    "ixs = sell_frame ext params (sp_close_output_mint_ata params \<and> \<not> usd1_pool pp) (bk_mint_token_program pp) a ix"
    "ix = \<lparr>program_id = BONK, accounts = bonk_accounts pp (sp_payer params) (sp_input_mint params) pool a b v1 v2,
        data = bonk_data SELL_EXECT_IN_DISCRIMINATOR amount out\<rparr>"
    using assms
    unfolding bonk_build_sell_instructions_def pp dex_param_enum.case Let_def amount(1) option.case zero if_False sell_frame_def
      bonk_quote_or_fixed_def pda_getters
    by - ((drule returns_dest)+, (elim exE conjE)?,
        (simp del: ata_spec.simps ix_spec.simps pda_spec.simps prog_simps(1,2,3) split del: if_split)?)+
  have "length SELL_EXECT_IN_DISCRIMINATOR = 8" by (simp add: SELL_EXECT_IN_DISCRIMINATOR_def)
  note wire = bonk_wireI [OF shape(1-3) this]
  have "ixs = sell_frame ext params (sp_close_output_mint_ata params \<and> \<not> usd1_pool pp)
      (bk_mint_token_program pp) (meta_pubkey (accounts ix ! 5)) ix"
    using shape(5,6) by (simp add: bonk_accounts_def)
  then show ?thesis
    unfolding bonk_sell_wire_def using pp amount shape(4) wire unfolding shape(6) by blast
qed

section \<open>Properties\<close>

text \<open>
  C17: whatever the Bonk builder returns holds one instruction of the Bonk program that only the payer signs, on the given
  or derived pool and the payer's own accounts for the token and for the quote currency of the pool (WSOL or USD1); its 32
  bytes read back as the amount, the least output (the caller's, or the quote's) and no share fee; SOL is wrapped for WSOL
  pools only, and the token account a sell closes is the one it sold from.
\<close>

theorem bonk_on_the_wire:
  assumes "coherent ext r1 r2 s"
  shows "(fst (bonk_build_buy_instructions ext p params s) = Ok ixs \<longrightarrow>
            (\<exists>pp. sp_protocol_params params = DexBonk pp \<and> bonk_buy_wire ext p params pp ixs))
    \<and> (fst (bonk_build_sell_instructions ext p params s) = Ok ixs \<longrightarrow>
            (\<exists>pp. sp_protocol_params params = DexBonk pp \<and> bonk_sell_wire ext p params pp ixs))"
proof -
  have r: "fst (m s) = Ok ixs \<Longrightarrow> returns (coherent ext r1 r2) m ixs" for m :: "(caches, instruction list) prog"
    using assms by (rule returnsI)
  show ?thesis
    by (intro conjI impI) (erule r [THEN bonk_buy_returns] r [THEN bonk_sell_returns])+
qed

definition sample_bonk :: bonk_params where
  "sample_bonk = \<lparr>bk_virtual_base = 1000000, bk_virtual_quote = 30000, bk_real_base = 0, bk_real_quote = 0, bk_pool_state = 100,
     bk_base_vault = 101, bk_quote_vault = 102, bk_mint_token_program = TOKEN_PROGRAM, bk_platform_config = 103,
     bk_platform_associated_account = 104, bk_creator_associated_account = 105, bk_global_config = BONK_GLOBAL_CONFIG\<rparr>"

lemma sample_bonk_runs:
  "\<exists>ixs. yields (coherent sample_ext 5 6) (bonk_build_buy_instructions sample_ext Checked (sample_request (DexBonk sample_bonk))) (Ok ixs)"
  "\<exists>ixs. yields (coherent sample_ext 5 6) (bonk_build_sell_instructions sample_ext Checked (sample_request (DexBonk sample_bonk))) (Ok ixs)"
  unfolding bonk_build_buy_instructions_def bonk_build_sell_instructions_def
  by (simp add: sample_request_def sample_bonk_def Let_def given_or_def pubkey_default_def usd1_pool_def del: prog_simps(1,2,3),
      rule exI, (rule pumpswap_run refl)+)+

theorem bonk_on_the_wire_witness:
  "(\<exists>ixs. fst (bonk_build_buy_instructions sample_ext Checked (sample_request (DexBonk sample_bonk))
         (caches_init\<lparr>spl_token_rent := 5, spl_token_2022_rent := 6\<rparr>)) = Ok ixs
       \<and> bonk_buy_wire sample_ext Checked (sample_request (DexBonk sample_bonk)) sample_bonk ixs)
   \<and> (\<exists>ixs. fst (bonk_build_sell_instructions sample_ext Checked (sample_request (DexBonk sample_bonk))
         (caches_init\<lparr>spl_token_rent := 5, spl_token_2022_rent := 6\<rparr>)) = Ok ixs
       \<and> bonk_sell_wire sample_ext Checked (sample_request (DexBonk sample_bonk)) sample_bonk ixs)"
proof -
  obtain a where a: "fst (bonk_build_buy_instructions sample_ext Checked (sample_request (DexBonk sample_bonk))
      (caches_init\<lparr>spl_token_rent := 5, spl_token_2022_rent := 6\<rparr>)) = Ok a"
    using sample_bonk_runs(1) coherent_rents by (auto simp: yields_def)
  obtain b where b: "fst (bonk_build_sell_instructions sample_ext Checked (sample_request (DexBonk sample_bonk))
      (caches_init\<lparr>spl_token_rent := 5, spl_token_2022_rent := 6\<rparr>)) = Ok b"
    using sample_bonk_runs(2) coherent_rents by (auto simp: yields_def)
  have "\<exists>pp. sp_protocol_params (sample_request (DexBonk sample_bonk)) = DexBonk pp
      \<and> bonk_buy_wire sample_ext Checked (sample_request (DexBonk sample_bonk)) pp a"
    using a bonk_on_the_wire [OF coherent_rents, of sample_ext Checked "sample_request (DexBonk sample_bonk)" 6 5 a] by blast
  moreover have "\<exists>pp. sp_protocol_params (sample_request (DexBonk sample_bonk)) = DexBonk pp
      \<and> bonk_sell_wire sample_ext Checked (sample_request (DexBonk sample_bonk)) pp b"
    using b bonk_on_the_wire [OF coherent_rents, of sample_ext Checked "sample_request (DexBonk sample_bonk)" 6 5 b] by blast
  moreover have "sp_protocol_params (sample_request x) = x" for x by (simp add: sample_request_def)
  ultimately show ?thesis using a b by auto
qed

end
