(* ===== verification/Executor.thy ===== *)
theory Executor
  imports TxBuilder Collector WorkerPool BuilderBonk
begin

text \<open>
  The trade executor (\<open>trading/core/executor.rs\<close>, \<open>trading/core/async_executor.rs\<close>, \<open>trading/core/execution.rs\<close>), the
  confirmation poller (\<open>swqos/common.rs\<close>) and the factory (\<open>trading/factory.rs\<close>). A swap builds its instructions, selects
  one job per channel and fee strategy, sends every job and collects the answers; on request it then polls the chain.
  What the network answers is the record \<open>net\<close>: the outcome of a channel's \<open>send_transaction\<close>, the results that had been
  queued when the caller stopped waiting (\<open>arrived\<close>; which lists are possible is what \<^const>\<open>coll_reach\<close> says, see
  \<open>arrived_results\<close>), and the RPC node's answers to the polls and to a simulation.
\<close>

section \<open>The network\<close>

record signature_status =
  status_err :: bool
  confirmed_or_finalized :: bool

section \<open>Errors on the chain\<close>

text \<open>
  The errors the poller tells apart. Log lines are printable text, for which the debug format only escapes quotes and
  backslashes; an error that cannot be read back from its JSON form is an \<open>Inl\<close>.
\<close>

datatype instruction_error =
    CustomError u32
  | GenericError
  | InvalidArgument
  | InvalidInstructionData
  | InvalidAccountData
  | AccountDataTooSmall
  | InsufficientFunds
  | IncorrectProgramId
  | MissingRequiredSignature
  | AccountAlreadyInitialized
  | UninitializedAccount
  | OtherInstructionError

datatype transaction_error = InstructionErrorAt u8 instruction_error | OtherTransactionError

record tx_failure =
  failure_kind :: "string + transaction_error"
  failure_shown :: string
  failure_logs :: "string list"

fun error_code :: "instruction_error \<Rightarrow> u32" where
  "error_code (CustomError c) = c"
| "error_code GenericError = 1"
| "error_code InvalidArgument = 2"
| "error_code InvalidInstructionData = 3"
| "error_code InvalidAccountData = 4"
| "error_code AccountDataTooSmall = 5"
| "error_code InsufficientFunds = 6"
| "error_code IncorrectProgramId = 7"
| "error_code MissingRequiredSignature = 8"
| "error_code AccountAlreadyInitialized = 9"
| "error_code UninitializedAccount = 10"
| "error_code OtherInstructionError = 999"

text \<open>\<open>str::find\<close> with what follows the first occurrence.\<close>

fun after_first :: "string \<Rightarrow> string \<Rightarrow> string option" where
  "after_first pat [] = (if pat = [] then Some [] else None)"
| "after_first pat (c # cs) = (if prefix pat (c # cs) then Some (drop (length pat) (c # cs)) else after_first pat cs)"

definition trim_end_dots :: "string \<Rightarrow> string" where
  "trim_end_dots s = rev (dropWhile (\<lambda>c. c = CHR ''.'') (rev s))"

definition log_message :: "string \<Rightarrow> string option" where
  "log_message line =
     (case after_first ''Error Message: '' line of
        Some msg \<Rightarrow> Some (trim_end_dots msg)
      | None \<Rightarrow> map_option trim_end_dots (after_first ''Program log: Error: '' line))"

definition error_messages :: "string list \<Rightarrow> string" where
  "error_messages logs =
     fold (\<lambda>line acc. case log_message line of
        None \<Rightarrow> acc
      | Some msg \<Rightarrow> (if acc = [] then acc else acc @ ''; '') @ msg) logs []"

definition debug_str :: "string \<Rightarrow> string" where
  "debug_str s = [CHR 34] @ concat (map (\<lambda>c. if c = CHR 34 \<or> c = CHR 92 then [CHR 92, c] else [c]) s) @ [CHR 34]"

definition failure_error :: "tx_failure \<Rightarrow> any_error" where
  "failure_error f =
     (case failure_kind f of
        Inl e \<Rightarrow> OtherError e
      | Inr k \<Rightarrow>
          let (code, index) = (case k of InstructionErrorAt i e \<Rightarrow> (error_code e, Some i) | OtherTransactionError \<Rightarrow> (0, None))
          in TradeError code (failure_shown f @ '' '' @ debug_str (error_messages (failure_logs f))) index)"

text \<open>The part of \<open>get_transaction\<close>'s answer the poller reads: no transaction yet, no metadata yet, or its failure, if any.\<close>

datatype tx_details = NotFound | NoMeta | Landed "tx_failure option"

record net =
  send_transaction :: "swqos_client \<Rightarrow> trade_type \<Rightarrow> transaction \<Rightarrow> bool \<Rightarrow> any_error option"
  now_micros :: "swqos_client \<Rightarrow> int"
  arrived :: "task_result list \<Rightarrow> task_result list"
  signature_statuses :: "nat \<Rightarrow> string + signature_status option list"
  transaction_details :: "nat \<Rightarrow> tx_details"
  elapsed_ms :: "nat \<Rightarrow> nat"
  simulation_error :: "transaction \<Rightarrow> string + string option"

section \<open>Waiting for confirmation\<close>

text \<open>
  One round of \<open>poll_any_transaction_confirmation\<close> over the statuses: the first confirmed signature ends the poll; the first
  signature that has landed in any state is remembered.
\<close>

fun scan_statuses :: "nat list \<Rightarrow> signature_status option list \<Rightarrow> nat option \<Rightarrow> nat + nat option" where
  "scan_statuses (sig # sigs) (Some st # sts) landed =
     (if \<not> status_err st \<and> confirmed_or_finalized st then Inl sig
      else scan_statuses sigs sts (if landed = None then Some sig else landed))"
| "scan_statuses (sig # sigs) (None # sts) landed = scan_statuses sigs sts landed"
| "scan_statuses sigs sts landed = Inr landed"

text \<open>
  The loop: \<open>n\<close> counts its rounds and indexes the node's answers; every round that does not return sleeps a second.
  The clock is read at the top of each round.
\<close>

partial_function (option) poll_loop :: "net \<Rightarrow> nat list \<Rightarrow> nat \<Rightarrow> nat option \<Rightarrow> (any_error + nat) option" where
  "poll_loop w sigs n landed_sig =
     (if elapsed_ms w n \<ge> 15000 then Some (Inl (OtherError ''Transaction confirmation timed out''))
      else case signature_statuses w n of
        Inl e \<Rightarrow> Some (Inl (OtherError e))
      | Inr sts \<Rightarrow> (case scan_statuses sigs sts landed_sig of
          Inl sig \<Rightarrow> Some (Inr sig)
        | Inr None \<Rightarrow> poll_loop w sigs (n + 1) None
        | Inr (Some landed) \<Rightarrow>
            if \<not> n + 1 \<ge> 10 then poll_loop w sigs (n + 1) (Some landed)
            else (case transaction_details w n of
              NotFound \<Rightarrow> poll_loop w sigs (n + 1) (Some landed)
            | NoMeta \<Rightarrow> poll_loop w sigs (n + 1) (Some landed)
            | Landed None \<Rightarrow> Some (Inr landed)
            | Landed (Some f) \<Rightarrow> Some (Inl (failure_error f)))))"

definition poll_any_transaction_confirmation :: "net \<Rightarrow> nat list \<Rightarrow> bool \<Rightarrow> (any_error + nat) option" where
  "poll_any_transaction_confirmation w sigs wait_confirmation =
     (case sigs of
        [] \<Rightarrow> Some (Inl (OtherError ''No signatures to confirm''))
      | sig # _ \<Rightarrow> if \<not> wait_confirmation then Some (Inr sig) else poll_loop w sigs 0 None)"

definition poll_transaction_confirmation :: "net \<Rightarrow> nat \<Rightarrow> bool \<Rightarrow> (any_error + nat) option" where
  "poll_transaction_confirmation w sig wait_confirmation = poll_any_transaction_confirmation w [sig] wait_confirmation"

section \<open>Jobs\<close>

record shared_context =
  sh_payer :: pubkey
  sh_instructions :: "instruction list"
  sh_lookup_table :: "lookup_table option"
  sh_recent_blockhash :: "hash option"
  sh_durable_nonce :: "durable_nonce_info option"
  sh_middlewares :: "middleware list option"
  sh_protocol_name :: string
  sh_is_buy :: bool
  sh_wait_transaction_confirmed :: bool
  sh_with_tip :: bool

record swqos_job =
  job_tip :: f64
  job_unit_limit :: u32
  job_unit_price :: u64
  job_tip_account :: pubkey
  job_client :: swqos_client
  job_swqos_type :: swqos_type

type_synonym task_config = "nat \<times> swqos_client \<times> swqos_type \<times> gas_fee_strategy_type \<times> gas_fee_strategy_value"

definition side_of :: "bool \<Rightarrow> trade_type" where
  "side_of is_buy = (if is_buy then Buy else Sell)"

text \<open>\<open>run_one_swqos_job\<close>: a build error becomes a failed result; a build that panics leaves none.\<close>

definition run_one_swqos_job :: "chain_ext \<Rightarrow> tx_ext \<Rightarrow> net \<Rightarrow> shared_context \<Rightarrow> swqos_job \<Rightarrow> (caches, task_result) prog" where
  "run_one_swqos_job ext tex w sh job s =
     (let tip_amount = (if sh_with_tip sh then job_tip job else f64_lit 0) in
      case build_transaction ext tex (sh_payer sh) (job_unit_limit job) (job_unit_price job) (sh_instructions sh)
             (sh_lookup_table sh) (sh_recent_blockhash sh) (sh_middlewares sh) (sh_protocol_name sh) (sh_is_buy sh)
             (job_swqos_type job \<noteq> SwqosDefault) (job_tip_account job) tip_amount (sh_durable_nonce sh) s of
        (Ok tx, s') \<Rightarrow>
          (let sent = send_transaction w (job_client job) (side_of (sh_is_buy sh)) tx (sh_wait_transaction_confirmed sh) in
           (Ok \<lparr>success = (sent = None),
                signature = (case tx_signatures tx of [] \<Rightarrow> 0 | sig # _ \<Rightarrow> sig),
                err_of = sent,
                result_swqos_type = job_swqos_type job,
                landed_on_chain = (case sent of None \<Rightarrow> True | Some e \<Rightarrow> is_landed_error e),
                submit_done_us = now_micros w (job_client job)\<rparr>, s'))
      | (Err e, s') \<Rightarrow>
          (Ok \<lparr>success = False, signature = 0, err_of = Some (OtherError e), result_swqos_type = job_swqos_type job,
                landed_on_chain = False, submit_done_us = now_micros w (job_client job)\<rparr>, s')
      | (Panic, s') \<Rightarrow> (Panic, s'))"

text \<open>The results of a batch; a job that panics contributes none.\<close>

fun run_jobs :: "chain_ext \<Rightarrow> tx_ext \<Rightarrow> net \<Rightarrow> shared_context \<Rightarrow> swqos_job list \<Rightarrow> caches \<Rightarrow> task_result list \<times> caches" where
  "run_jobs ext tex w sh [] s = ([], s)"
| "run_jobs ext tex w sh (job # js) s =
     (case run_one_swqos_job ext tex w sh job s of
        (r, s') \<Rightarrow> (case run_jobs ext tex w sh js s' of
          (rs, s'') \<Rightarrow> (case r of Ok x \<Rightarrow> (x # rs, s'') | _ \<Rightarrow> (rs, s''))))"

section \<open>Selecting the jobs of a batch\<close>

definition client_min_tip_sol :: "swqos_client \<Rightarrow> f64" where
  "client_min_tip_sol c = (if client_type c = Helius \<and> client_swqos_only c then f64_lit (5 / 1000000) else min_tip_sol (client_type c))"

definition client_configs ::
  "bool \<Rightarrow> bool \<Rightarrow> (swqos_type \<times> gas_fee_strategy_type \<times> gas_fee_strategy_value) list \<Rightarrow> nat \<times> swqos_client \<Rightarrow> task_config list" where
  "client_configs with_tip check_min_tip configs = (\<lambda>(i, c).
     if \<not> with_tip \<and> client_type c \<noteq> SwqosDefault then []
     else
       let check_tip = (with_tip \<and> client_type c \<noteq> SwqosDefault \<and> check_min_tip);
           min_tip = (if check_tip then client_min_tip_sol c else f64_lit 0)
       in map (\<lambda>cfg. (i, c, cfg))
            (filter (\<lambda>(t, _, v). t = client_type c \<and> \<not> (check_tip \<and> f64_lt (tip v) min_tip)) configs))"

definition select_task_configs ::
  "swqos_client list \<Rightarrow> bool \<Rightarrow> bool \<Rightarrow> (swqos_type \<times> gas_fee_strategy_type \<times> gas_fee_strategy_value) list \<Rightarrow> task_config list" where
  "select_task_configs clients with_tip check_min_tip configs =
     concat (map (client_configs with_tip check_min_tip configs) (enumerate 0 clients))"

text \<open>
  The jobs are pushed one after the other; a client whose tip account cannot be had ends the loop with an error, with the
  jobs before it already in the queue. The result is the jobs pushed and the error, if any.
\<close>

fun push_task_configs :: "task_config list \<Rightarrow> swqos_job list \<times> string option" where
  "push_task_configs [] = ([], None)"
| "push_task_configs ((i, c, t, st, v) # rest) =
     (case client_tip_account c of
        Inl e \<Rightarrow> ([], Some e)
      | Inr key \<Rightarrow>
          (case push_task_configs rest of (js, err) \<Rightarrow>
            (\<lparr>job_tip = tip v, job_unit_limit = cu_limit v, job_unit_price = cu_price v,
              job_tip_account = (case key of Some k \<Rightarrow> k | None \<Rightarrow> pubkey_default), job_client = c,
              job_swqos_type = client_type c\<rparr> # js, err)))"

text \<open>Every check before the first push, in the order of the code.\<close>

definition prepare_batch ::
  "swqos_type list \<Rightarrow> swqos_client list \<Rightarrow> durable_nonce_info option \<Rightarrow> bool \<Rightarrow> bool \<Rightarrow> gas_table \<Rightarrow> bool \<Rightarrow> string + task_config list" where
  "prepare_batch order clients durable_nonce is_buy with_tip gas check_min_tip =
     (if clients = [] then Inl ''swqos_clients is empty''
      else if \<not> with_tip \<and> \<not> (\<exists>c \<in> set clients. client_type c = SwqosDefault) then Inl ''No Rpc Default Swqos configured.''
      else
        let configs = select_task_configs clients with_tip check_min_tip (get_strategies order gas (side_of is_buy)) in
        if configs = [] then Inl ''No available gas fee strategy configs''
        else if is_buy \<and> length configs > 1 \<and> durable_nonce = None
        then Inl ''Multiple swqos transactions require durable_nonce to be set.''
        else Inr configs)"

section \<open>Sending a batch\<close>

definition no_result_answer :: batch_answer where
  "no_result_answer = (False, [], Some (OtherError ''No SWQOS result within 2s''), [])"

text \<open>
  \<open>execute_parallel\<close> as the executor calls it, without waiting for confirmations: the answer is that of
  \<open>wait_for_all_submitted\<close>. An error of a tip account is returned with the jobs before it still in the queue.
\<close>

definition execute_parallel ::
  "chain_ext \<Rightarrow> tx_ext \<Rightarrow> net \<Rightarrow> swqos_type list \<Rightarrow> swqos_client list \<Rightarrow> shared_context \<Rightarrow> gas_table \<Rightarrow> bool
     \<Rightarrow> (caches, batch_answer) prog" where
  "execute_parallel ext tex w order clients sh gas check_min_tip s =
     (case prepare_batch order clients (sh_durable_nonce sh) (sh_is_buy sh) (sh_with_tip sh) gas check_min_tip of
        Inl e \<Rightarrow> (Err e, s)
      | Inr configs \<Rightarrow> (case push_task_configs configs of
          (js, Some e) \<Rightarrow> (Err e, s)
        | (js, None) \<Rightarrow> (case run_jobs ext tex w sh js s of
            (rs, s') \<Rightarrow> (case all_answer (arrived w rs) of
              None \<Rightarrow> (Ok no_result_answer, s')
            | Some a \<Rightarrow> (Ok a, s')))))"

section \<open>Simulation\<close>

definition simulate_transaction ::
  "chain_ext \<Rightarrow> tx_ext \<Rightarrow> net \<Rightarrow> swqos_type list \<Rightarrow> shared_context \<Rightarrow> gas_table \<Rightarrow> (caches, batch_answer) prog" where
  "simulate_transaction ext tex w order sh gas =
     then_do (ok_or ''No default gas fee strategy found''
                (List.find (\<lambda>(t, _, _). t = SwqosDefault) (get_strategies order gas (side_of (sh_is_buy sh))))) (\<lambda>(t, st, v).
     then_do (build_transaction ext tex (sh_payer sh) (cu_limit v) (cu_price v) (sh_instructions sh) (sh_lookup_table sh)
                (sh_recent_blockhash sh) (sh_middlewares sh) (sh_protocol_name sh) (sh_is_buy sh) False pubkey_default
                (if sh_with_tip sh then tip v else f64_lit 0) (sh_durable_nonce sh)) (\<lambda>tx.
     then_do (of_result (simulation_error w tx)) (\<lambda>failure.
     then_do (ok_or ''Transaction has no signatures'' (case tx_signatures tx of [] \<Rightarrow> None | sig # _ \<Rightarrow> Some sig)) (\<lambda>sig.
     ret (case failure of
            Some e \<Rightarrow> (False, [sig], Some (OtherError e), [])
          | None \<Rightarrow> (True, [sig], None, []))))))"

section \<open>The swap\<close>

text \<open>A builder by its two methods; the factory gives one to each protocol.\<close>

record builder =
  build_buy_instructions :: "swap_params \<Rightarrow> (caches, instruction list) prog"
  build_sell_instructions :: "swap_params \<Rightarrow> (caches, instruction list) prog"

datatype dex_type = PumpFun | PumpSwap | Bonk | RaydiumCpmm | RaydiumAmmV4 | MeteoraDammV2

fun create_executor :: "chain_ext \<Rightarrow> profile \<Rightarrow> dex_type \<Rightarrow> builder \<times> string" where
  "create_executor ext p PumpFun =
     (\<lparr>build_buy_instructions = pumpfun_build_buy_instructions ext p, build_sell_instructions = pumpfun_build_sell_instructions ext p\<rparr>, ''PumpFun'')"
| "create_executor ext p PumpSwap =
     (\<lparr>build_buy_instructions = pumpswap_build_buy_instructions ext p, build_sell_instructions = pumpswap_build_sell_instructions ext p\<rparr>, ''PumpSwap'')"
| "create_executor ext p Bonk =
     (\<lparr>build_buy_instructions = bonk_build_buy_instructions ext p, build_sell_instructions = bonk_build_sell_instructions ext p\<rparr>, ''Bonk'')"
| "create_executor ext p RaydiumCpmm =
     (\<lparr>build_buy_instructions = cpmm_build_buy_instructions ext p, build_sell_instructions = cpmm_build_sell_instructions ext p\<rparr>, ''RaydiumCpmm'')"
| "create_executor ext p RaydiumAmmV4 =
     (\<lparr>build_buy_instructions = amm_v4_build_buy_instructions ext p, build_sell_instructions = amm_v4_build_sell_instructions ext p\<rparr>, ''RaydiumAmmV4'')"
| "create_executor ext p MeteoraDammV2 =
     (\<lparr>build_buy_instructions = damm_build_buy_instructions ext, build_sell_instructions = damm_build_sell_instructions ext\<rparr>, ''MeteoraDammV2'')"

definition preprocess :: "instruction list \<Rightarrow> (caches, unit) prog" where
  "preprocess ixs = (if ixs = [] then fail ''Instructions empty'' else ret ())"

definition swap_is_buy :: "swap_params \<Rightarrow> bool" where
  "swap_is_buy params \<longleftrightarrow> sp_trade_type params = Buy \<or> sp_trade_type params = CreateAndBuy"

text \<open>\<open>anyhow!("\{\}", e)\<close> keeps the message and drops what the error was.\<close>

fun display_error :: "any_error \<Rightarrow> any_error" where
  "display_error (TradeError code msg ix) = OtherError msg"
| "display_error (OtherError msg) = OtherError msg"

definition swap_context :: "swap_params \<Rightarrow> string \<Rightarrow> instruction list \<Rightarrow> shared_context" where
  "swap_context params protocol_name ixs =
     \<lparr>sh_payer = sp_payer params, sh_instructions = ixs, sh_lookup_table = sp_address_lookup_table_account params,
      sh_recent_blockhash = sp_recent_blockhash params, sh_durable_nonce = sp_durable_nonce params,
      sh_middlewares = sp_middleware_manager params, sh_protocol_name = protocol_name, sh_is_buy = swap_is_buy params,
      sh_wait_transaction_confirmed = False, sh_with_tip = (if swap_is_buy params then True else sp_with_tip params)\<rparr>"

text \<open>The instructions of a swap: built, checked to be some, and passed through the protocol middlewares.\<close>

definition swap_instructions :: "builder \<Rightarrow> string \<Rightarrow> swap_params \<Rightarrow> (caches, instruction list) prog" where
  "swap_instructions b protocol_name params =
     then_do (if swap_is_buy params then build_buy_instructions b params else build_sell_instructions b params) (\<lambda>ixs.
     then_do (preprocess ixs) (\<lambda>_.
     case sp_middleware_manager params of
       Some ms \<Rightarrow> of_result (apply_middlewares_process_protocol_instructions ms ixs protocol_name (swap_is_buy params))
     | None \<Rightarrow> ret ixs))"

text \<open>What is sent: an error of the batch becomes an answer without success.\<close>

definition submit_batch ::
  "chain_ext \<Rightarrow> tx_ext \<Rightarrow> net \<Rightarrow> swqos_type list \<Rightarrow> string \<Rightarrow> swap_params \<Rightarrow> instruction list \<Rightarrow> (caches, batch_answer) prog" where
  "submit_batch ext tex w order protocol_name params ixs s =
     (case execute_parallel ext tex w order (sp_swqos_clients params) (swap_context params protocol_name ixs)
             (sp_gas_fee_strategy params) (sp_check_min_tip params) s of
        (Ok (ok, sigs, err, ts), s') \<Rightarrow> (Ok (ok, sigs, map_option display_error err, ts), s')
      | (Err e, s') \<Rightarrow> (Ok (False, [], Some (OtherError e), []), s')
      | (Panic, s') \<Rightarrow> (Panic, s'))"

text \<open>
  \<open>swap\<close>, with an RPC node at hand as every caller of the repository provides one. \<open>None\<close> is a poll that never ends.
\<close>

definition swap ::
  "chain_ext \<Rightarrow> tx_ext \<Rightarrow> net \<Rightarrow> swqos_type list \<Rightarrow> builder \<times> string \<Rightarrow> swap_params \<Rightarrow> caches \<Rightarrow> (batch_answer outcome \<times> caches) option" where
  "swap ext tex w order executor params s =
     (case swap_instructions (fst executor) (snd executor) params s of
        (Err e, s1) \<Rightarrow> Some (Err e, s1)
      | (Panic, s1) \<Rightarrow> Some (Panic, s1)
      | (Ok ixs, s1) \<Rightarrow>
          if sp_simulate params
          then Some (simulate_transaction ext tex w order (swap_context params (snd executor) ixs) (sp_gas_fee_strategy params) s1)
          else (case submit_batch ext tex w order (snd executor) params ixs s1 of
            (Ok (ok, sigs, err, ts), s2) \<Rightarrow>
              if sp_wait_tx_confirmed params \<and> sigs \<noteq> []
              then (case poll_any_transaction_confirmation w sigs True of
                None \<Rightarrow> None
              | Some (Inr _) \<Rightarrow> Some (Ok (True, sigs, None, ts), s2)
              | Some (Inl e) \<Rightarrow> Some (Ok (False, sigs, Some e, ts), s2))
              else Some (Ok (ok, sigs, err, ts), s2)
          | (Err e, s2) \<Rightarrow> Some (Err e, s2)
          | (Panic, s2) \<Rightarrow> Some (Panic, s2)))"

section \<open>Small helpers of execution.rs\<close>

definition calculate_size :: "instruction list \<Rightarrow> nat" where
  "calculate_size ixs = fold (\<lambda>ix total. total + length (data ix) + length (accounts ix) * 32) ixs 0"

definition execution_path_is_buy :: "pubkey \<Rightarrow> bool" where
  "execution_path_is_buy input_mint \<longleftrightarrow>
     input_mint = SOL_TOKEN_ACCOUNT \<or> input_mint = WSOL_TOKEN_ACCOUNT \<or> input_mint = USD1_TOKEN_ACCOUNT \<or> input_mint = USDC_TOKEN_ACCOUNT"

section \<open>The builder interface\<close>

text \<open>
  What the executor relies on in a builder: from any caches that satisfy the invariant it gives the same outcome and
  re-establishes the invariant.
\<close>

locale instruction_builder =
  fixes inv :: "caches \<Rightarrow> bool" and b :: builder
  assumes buy_transparent: "transparent inv (build_buy_instructions b params)"
    and sell_transparent: "transparent inv (build_sell_instructions b params)"
begin

lemma instructions_transparent: "transparent inv (swap_instructions b name params)"
  unfolding swap_instructions_def preprocess_def
  by (intro transparent_intro buy_transparent sell_transparent)

end

interpretation factory: instruction_builder "coherent ext r1 r2" "fst (create_executor ext p dex)" for ext r1 r2 p dex
  by unfold_locales
     (cases dex; simp add: pumpfun_buy_transparent pumpfun_sell_transparent pumpswap_buy_transparent pumpswap_sell_transparent
        bonk_transparent cpmm_transparent amm_v4_transparent damm_transparent)+

section \<open>The poll ends\<close>

text \<open>The clock law: a round that does not return sleeps for a second.\<close>

definition sleeps :: "net \<Rightarrow> bool" where
  "sleeps w \<longleftrightarrow> (\<forall>n. elapsed_ms w (Suc n) \<ge> elapsed_ms w n + 1000)"

lemma sleeps_elapsed: "sleeps w \<Longrightarrow> elapsed_ms w n \<ge> 1000 * n"
proof (induction n)
  case (Suc n)
  then show ?case using Suc.prems [unfolded sleeps_def, rule_format, of n] by simp
qed simp

lemma poll_loop_returns:
  assumes "sleeps w"
  shows "\<exists>r. poll_loop w sigs n l = Some r"
proof (induction "15 - n" arbitrary: n l)
  case 0
  then have "15000 \<le> elapsed_ms w n" using sleeps_elapsed [OF assms, of n] by simp
  then show ?case by (subst poll_loop.simps) simp
next
  case (Suc k)
  have IH: "\<exists>r. poll_loop w sigs (Suc n) l' = Some r" for l' using Suc.hyps(2) by (intro Suc.hyps(1)) simp
  show ?case
    by (subst poll_loop.simps) (auto split: sum.split option.split tx_details.split simp: IH)
qed

definition confirmed_at :: "net \<Rightarrow> nat list \<Rightarrow> nat \<Rightarrow> nat \<Rightarrow> bool" where
  "confirmed_at w sigs n sig \<longleftrightarrow> sig \<in> set sigs \<and>
     ((\<exists>sts i st. signature_statuses w n = Inr sts \<and> i < length sts \<and> i < length sigs \<and> sts ! i = Some st \<and> sigs ! i = sig
         \<and> \<not> status_err st \<and> confirmed_or_finalized st)
      \<or> transaction_details w n = Landed None)"

lemma scan_statuses_Inl:
  "scan_statuses sigs sts l = Inl sig \<Longrightarrow>
     \<exists>i st. i < length sts \<and> i < length sigs \<and> sts ! i = Some st \<and> sigs ! i = sig \<and> \<not> status_err st \<and> confirmed_or_finalized st"
proof (induction sigs sts l rule: scan_statuses.induct)
  case (1 s ss st sts l)
  show ?case
  proof (cases "\<not> status_err st \<and> confirmed_or_finalized st")
    case True
    then show ?thesis using 1(2) by (intro exI [of _ 0] exI [of _ st]) simp
  next
    case False
    then show ?thesis using 1(1) 1(2) by (fastforce intro: exI [of _ "Suc i" for i])
  qed
next
  case (2 s ss sts l)
  then show ?case by (fastforce intro: exI [of _ "Suc i" for i])
qed simp_all

lemma scan_statuses_Inr: "scan_statuses sigs sts l = Inr (Some x) \<Longrightarrow> l = Some x \<or> x \<in> set sigs"
  by (induction sigs sts l rule: scan_statuses.induct) (auto split: if_splits)

lemma poll_loop_sound:
  assumes "poll_loop w0 sigs0 n0 l0 = Some r0"
  shows "r0 = Inr sig \<longrightarrow> (\<forall>x. l0 = Some x \<longrightarrow> x \<in> set sigs0) \<longrightarrow> (\<exists>k \<ge> n0. confirmed_at w0 sigs0 k sig)"
proof (rule poll_loop.raw_induct [OF _ assms, where P = "\<lambda>w sigs n l r. r = Inr sig \<longrightarrow> (\<forall>x. l = Some x \<longrightarrow> x \<in> set sigs)
    \<longrightarrow> (\<exists>k \<ge> n. confirmed_at w sigs k sig)"], goal_cases)
  case (1 poll w sigs n l r)
  show ?case
  proof (intro impI)
  assume ok: "r = Inr sig" and landed: "\<forall>x. l = Some x \<longrightarrow> x \<in> set sigs"
  note run = 1(2)
  have rec: "\<exists>k \<ge> n. confirmed_at w sigs k sig" if "poll w sigs (n + 1) l' = Some r" "\<forall>x. l' = Some x \<longrightarrow> x \<in> set sigs" for l'
    using 1(1) [OF that(1)] ok that(2) by (metis Suc_eq_plus1 Suc_leD)
  show "\<exists>k \<ge> n. confirmed_at w sigs k sig"
  proof (cases "elapsed_ms w n \<ge> 15000")
    case False
    obtain sts where sts: "signature_statuses w n = Inr sts" using run ok False by (cases "signature_statuses w n") auto
    show ?thesis
    proof (cases "scan_statuses sigs sts l")
      case (Inl s)
      then have "s = sig" using run ok False sts by simp
      then show ?thesis using scan_statuses_Inl [OF Inl] sts unfolding confirmed_at_def by (metis nth_mem order_refl)
    next
      case (Inr l')
      have mem: "\<forall>x. l' = Some x \<longrightarrow> x \<in> set sigs" using scan_statuses_Inr landed Inr by fastforce
      show ?thesis
      proof (cases l')
        case None
        then show ?thesis using rec [of None] run False sts Inr by simp
      next
        case (Some x)
        have "poll w sigs (n + 1) l' = Some r \<or> (transaction_details w n = Landed None \<and> x = sig)"
          using run ok False sts Inr Some by (auto split: if_splits tx_details.splits option.splits)
        then show ?thesis using rec mem Some by (auto simp: confirmed_at_def)
      qed
    qed
  qed (use run ok in simp)
  qed
qed

section \<open>Selection\<close>

lemma get_strategies_mem:
  "(t, st, v) \<in> set (get_strategies order m side) \<longleftrightarrow> t \<in> set order \<and> m (t, side, st) = Some v"
proof -
  have all: "st \<in> set gas_fee_strategy_values" for st by (cases st) (simp_all add: gas_fee_strategy_values_def)
  show ?thesis using all by (auto simp: get_strategies_def map_filter_def image_iff) force
qed

lemma client_configs_mem:
  "(j, c, t, st, v) \<in> set (client_configs with_tip check configs (i, c')) \<longleftrightarrow>
     j = i \<and> c = c' \<and> t = client_type c \<and> (t, st, v) \<in> set configs \<and> (with_tip \<or> t = SwqosDefault)
     \<and> \<not> (check \<and> with_tip \<and> t \<noteq> SwqosDefault \<and> f64_lt (tip v) (client_min_tip_sol c))"
  by (auto simp: client_configs_def Let_def)

lemma select_mem:
  "(i, c, t, st, v) \<in> set (select_task_configs clients with_tip check configs) \<longleftrightarrow>
     i < length clients \<and> c = clients ! i \<and> t = client_type c \<and> (t, st, v) \<in> set configs \<and> (with_tip \<or> t = SwqosDefault)
     \<and> \<not> (check \<and> with_tip \<and> t \<noteq> SwqosDefault \<and> f64_lt (tip v) (client_min_tip_sol c))"
proof -
  have "(i, c, t, st, v) \<in> set (select_task_configs clients with_tip check configs) \<longleftrightarrow>
      (\<exists>k < length clients. (i, c, t, st, v) \<in> set (client_configs with_tip check configs (k, clients ! k)))"
    by (auto simp: select_task_configs_def in_set_enumerate_eq)
  then show ?thesis by (auto simp: client_configs_mem)
qed

lemma push_task_configs_all:
  assumes "push_task_configs configs = (js, None)" and "job \<in> set js"
  shows "\<exists>i c t st v key. (i, c, t, st, v) \<in> set configs \<and> client_tip_account c = Inr key
    \<and> job = \<lparr>job_tip = tip v, job_unit_limit = cu_limit v, job_unit_price = cu_price v,
         job_tip_account = (case key of Some k \<Rightarrow> k | None \<Rightarrow> pubkey_default), job_client = c, job_swqos_type = client_type c\<rparr>"
  using assms
proof (induction configs arbitrary: js)
  case (Cons cfg rest)
  obtain i c t st v where cfg: "cfg = (i, c, t, st, v)" by (cases cfg)
  from Cons.prems(1) obtain key js' where key: "client_tip_account c = Inr key" "push_task_configs rest = (js', None)"
    "js = \<lparr>job_tip = tip v, job_unit_limit = cu_limit v, job_unit_price = cu_price v,
         job_tip_account = (case key of Some k \<Rightarrow> k | None \<Rightarrow> pubkey_default), job_client = c, job_swqos_type = client_type c\<rparr> # js'"
    unfolding cfg by (auto split: sum.splits prod.splits)
  show ?case
  proof (cases "job \<in> set js'")
    case True
    then show ?thesis using Cons.IH [OF key(2)] by (metis list.set_intros(2))
  next
    case False
    then show ?thesis
      using Cons.prems(2) key cfg by (intro exI [of _ i] exI [of _ c] exI [of _ t] exI [of _ st] exI [of _ v] exI [of _ key]) simp
  qed
qed simp

lemma push_task_configs_length: "push_task_configs configs = (js, None) \<Longrightarrow> length js = length configs"
  by (induction configs arbitrary: js rule: push_task_configs.induct) (auto split: sum.splits prod.splits)

section \<open>Jobs\<close>

text \<open>A result that counts as a success comes from a transaction the channel accepted.\<close>

lemma run_one_success:
  assumes "run_one_swqos_job ext tex w sh job s = (Ok r, s')" and "success r" and "coherent ext r1 r2 s" and "sh_middlewares sh = None"
  shows "\<exists>tx m. tx = \<lparr>tx_signatures = [sign tex m], tx_message = m\<rparr>
    \<and> send_transaction w (job_client job) (side_of (sh_is_buy sh)) tx (sh_wait_transaction_confirmed sh) = None
    \<and> signature r = sign tex m \<and> msg_payer m = sh_payer sh
    \<and> msg_instructions m = tx_parts ext (sh_payer sh) (job_unit_limit job) (job_unit_price job) (sh_instructions sh)
        (job_swqos_type job \<noteq> SwqosDefault) (job_tip_account job) (if sh_with_tip sh then job_tip job else f64_lit 0) (sh_durable_nonce sh)"
proof -
  let ?m = "build_transaction ext tex (sh_payer sh) (job_unit_limit job) (job_unit_price job) (sh_instructions sh)
             (sh_lookup_table sh) (sh_recent_blockhash sh) None (sh_protocol_name sh) (sh_is_buy sh)
             (job_swqos_type job \<noteq> SwqosDefault) (job_tip_account job) (if sh_with_tip sh then job_tip job else f64_lit 0) (sh_durable_nonce sh)"
  obtain o' s1 where run: "?m s = (o', s1)" by (cases "?m s")
  obtain tx where tx: "o' = Ok tx"
    using assms(1,2) run by (cases o') (auto simp: run_one_swqos_job_def Let_def assms(4))
  have sent: "send_transaction w (job_client job) (side_of (sh_is_buy sh)) tx (sh_wait_transaction_confirmed sh) = None"
    "signature r = (case tx_signatures tx of [] \<Rightarrow> 0 | sig # _ \<Rightarrow> sig)"
    using assms(1,2) run tx by (auto simp: run_one_swqos_job_def Let_def assms(4))
  have "returns (coherent ext r1 r2) ?m tx" using assms(3) run tx by (intro returnsI [of _ s]) auto
  from build_transaction_returns [OF this] sent show ?thesis by fastforce
qed

lemma run_one_coherent: "coherent ext r1 r2 s \<Longrightarrow> coherent ext r1 r2 (snd (run_one_swqos_job ext tex w sh job s))"
proof -
  assume c: "coherent ext r1 r2 s"
  have "coherent ext r1 r2 (snd (build_transaction ext tex (sh_payer sh) (job_unit_limit job) (job_unit_price job) (sh_instructions sh)
       (sh_lookup_table sh) (sh_recent_blockhash sh) (sh_middlewares sh) (sh_protocol_name sh) (sh_is_buy sh)
       (job_swqos_type job \<noteq> SwqosDefault) (job_tip_account job) (if sh_with_tip sh then job_tip job else f64_lit 0) (sh_durable_nonce sh) s))"
    using transparent_same [OF build_transaction_transparent c c] by blast
  then show ?thesis
    by (auto simp: run_one_swqos_job_def Let_def split: prod.splits outcome.splits)
qed

lemma run_jobs_mem:
  assumes "r \<in> set (fst (run_jobs ext tex w sh js s))" and "coherent ext r1 r2 s"
  shows "\<exists>job \<in> set js. \<exists>s1 s2. coherent ext r1 r2 s1 \<and> run_one_swqos_job ext tex w sh job s1 = (Ok r, s2)"
  using assms
proof (induction js arbitrary: s)
  case (Cons job js)
  obtain o' s1 where one: "run_one_swqos_job ext tex w sh job s = (o', s1)" by (cases "run_one_swqos_job ext tex w sh job s")
  have c: "coherent ext r1 r2 s1" using run_one_coherent [OF Cons.prems(2), of tex w sh job] one by simp
  have "(\<exists>x. o' = Ok x \<and> r = x) \<or> r \<in> set (fst (run_jobs ext tex w sh js s1))"
    using Cons.prems(1) one by (cases o') (auto split: prod.splits)
  then show ?case
    using Cons.IH [OF _ c] Cons.prems(2) one by auto
qed simp

section \<open>What the collector can hand over\<close>

text \<open>The lists \<open>arrived\<close> stands for: whatever the interleaving, the answer is made of a sub-multiset of the results.\<close>

lemma arrived_results:
  assumes "coll_reach (\<lambda>i. rs ! i) (length rs) AllWait s" and "poll s = Returned full ans"
  shows "\<exists>rs'. mset rs' \<subseteq># mset rs \<and> (\<forall>ok sigs e ts. ans = Some (ok, sigs, e, ts) \<longrightarrow> sigs = map signature rs' \<and> ts = timings rs')"
proof -
  have "batch_mset (\<lambda>i. rs ! i) {..<length rs} = mset rs"
    unfolding batch_mset_def by (metis map_nth mset_map mset_upt atLeast0LessThan)
  moreover have "answer_ok (\<lambda>i. rs ! i) (length rs) full ans"
    using coll_reach_inv [OF assms(1)] assms(2) by (simp add: coll_inv_def)
  ultimately show ?thesis
    by (cases ans) (auto simp: answer_ok_def intro: exI [of _ "[]"])
qed

section \<open>Properties\<close>


definition sample_client :: "swqos_type \<Rightarrow> swqos_client" where
  "sample_client t = \<lparr>client_type = t, client_tip_account = Inr (if t = SwqosDefault then None else Some 8), client_swqos_only = False\<rparr>"

definition sample_gas :: gas_table where
  "sample_gas = (\<lambda>k. None)((SwqosDefault, Buy, Normal) \<mapsto> \<lparr>cu_limit = 150000, cu_price = 500000, tip = f64_lit 0\<rparr>)"



definition sample_net :: net where
  "sample_net = \<lparr>send_transaction = (\<lambda>c side tx wait. None), now_micros = (\<lambda>c. 0), arrived = (\<lambda>rs. rs),
     signature_statuses = (\<lambda>n. Inr [if n < 3 then None else Some \<lparr>status_err = False, confirmed_or_finalized = True\<rparr>]),
     transaction_details = (\<lambda>n. NotFound), elapsed_ms = (\<lambda>n. 1000 * n), simulation_error = (\<lambda>tx. Inr None)\<rparr>"


text \<open>The transaction a job of the batch sends, as the composition of its parts.\<close>

definition sent_for ::
  "chain_ext \<Rightarrow> tx_ext \<Rightarrow> swap_params \<Rightarrow> instruction list \<Rightarrow> swqos_client \<Rightarrow> transaction \<Rightarrow> bool" where
  "sent_for ext tex params ixs c tx \<longleftrightarrow>
     (\<exists>st v m account. sp_gas_fee_strategy params (client_type c, side_of (swap_is_buy params), st) = Some v
        \<and> (swap_is_buy params \<or> sp_with_tip params \<or> client_type c = SwqosDefault)
        \<and> tx = \<lparr>tx_signatures = [sign tex m], tx_message = m\<rparr> \<and> msg_payer m = sp_payer params
        \<and> msg_instructions m = tx_parts ext (sp_payer params) (cu_limit v) (cu_price v) ixs (client_type c \<noteq> SwqosDefault) account
            (if swap_is_buy params \<or> sp_with_tip params then tip v else f64_lit 0) (sp_durable_nonce params))"

lemma execute_parallel_success:
  assumes "\<And>rs. mset (arrived w rs) \<subseteq># mset rs"
    and "fst (execute_parallel ext tex w order clients sh gas check s) = Ok (True, sigs, e, ts)"
    and "coherent ext r1 r2 s"
  shows "\<exists>configs js job r s1 s2. prepare_batch order clients (sh_durable_nonce sh) (sh_is_buy sh) (sh_with_tip sh) gas check = Inr configs
    \<and> push_task_configs configs = (js, None) \<and> job \<in> set js \<and> coherent ext r1 r2 s1
    \<and> run_one_swqos_job ext tex w sh job s1 = (Ok r, s2) \<and> success r \<and> signature r \<in> set sigs"
proof -
  obtain configs where configs: "prepare_batch order clients (sh_durable_nonce sh) (sh_is_buy sh) (sh_with_tip sh) gas check = Inr configs"
    using assms(2) by (auto simp: execute_parallel_def split: sum.splits)
  obtain js where js: "push_task_configs configs = (js, None)"
    using assms(2) configs by (auto simp: execute_parallel_def split: prod.splits option.splits)
  obtain rs s' where rs: "run_jobs ext tex w sh js s = (rs, s')" by (cases "run_jobs ext tex w sh js s")
  have ans: "all_answer (arrived w rs) = Some (True, sigs, e, ts)"
    using assms(2) configs js rs by (auto simp: execute_parallel_def no_result_answer_def split: option.splits)
  then have "popped_success (arrived w rs)" "sigs = map signature (arrived w rs)" by (auto simp: all_answer_def split: if_splits)
  then obtain r where r: "r \<in> set (arrived w rs)" "success r" "signature r \<in> set sigs" by (auto simp: popped_success_iff)
  then have "r \<in> set rs" using assms(1) [of rs] by (metis mset_subset_eqD set_mset_mset)
  then obtain job s1 s2 where "job \<in> set js" "coherent ext r1 r2 s1" "run_one_swqos_job ext tex w sh job s1 = (Ok r, s2)"
    using run_jobs_mem [of r ext tex w sh js s r1 r2] assms(3) rs by auto
  then show ?thesis using configs js r by blast
qed

lemma submit_batch_success:
  assumes arr: "\<And>rs. mset (arrived w rs) \<subseteq># mset rs"
    and run: "fst (submit_batch ext tex w order name params ixs s) = Ok (True, sigs, e, ts)"
    and coh: "coherent ext r1 r2 s" and mw: "sp_middleware_manager params = None"
  shows "\<exists>c \<in> set (sp_swqos_clients params). \<exists>tx. send_transaction w c (side_of (swap_is_buy params)) tx False = None
    \<and> hd (tx_signatures tx) \<in> set sigs \<and> sent_for ext tex params ixs c tx"
proof -
  let ?sh = "swap_context params name ixs"
  obtain e' where ex: "fst (execute_parallel ext tex w order (sp_swqos_clients params) ?sh (sp_gas_fee_strategy params) (sp_check_min_tip params) s)
      = Ok (True, sigs, e', ts)"
    using run by (auto simp: submit_batch_def split: prod.splits outcome.splits)
  obtain configs js job r s1 s2 where *:
    "prepare_batch order (sp_swqos_clients params) (sh_durable_nonce ?sh) (sh_is_buy ?sh) (sh_with_tip ?sh) (sp_gas_fee_strategy params)
       (sp_check_min_tip params) = Inr configs"
    "push_task_configs configs = (js, None)" "job \<in> set js" "coherent ext r1 r2 s1"
    "run_one_swqos_job ext tex w ?sh job s1 = (Ok r, s2)" "success r" "signature r \<in> set sigs"
    using execute_parallel_success [OF arr ex coh] by blast
  obtain i c t st v key where job: "(i, c, t, st, v) \<in> set configs"
    "job = \<lparr>job_tip = tip v, job_unit_limit = cu_limit v, job_unit_price = cu_price v,
       job_tip_account = (case key of Some k \<Rightarrow> k | None \<Rightarrow> pubkey_default), job_client = c, job_swqos_type = client_type c\<rparr>"
    using push_task_configs_all [OF *(2,3)] by blast
  have configs: "configs = select_task_configs (sp_swqos_clients params) (sh_with_tip ?sh) (sp_check_min_tip params)
      (get_strategies order (sp_gas_fee_strategy params) (side_of (sh_is_buy ?sh)))"
    using *(1) by (auto simp: prepare_batch_def Let_def split: if_splits)
  have sel: "c \<in> set (sp_swqos_clients params)" "sp_gas_fee_strategy params (client_type c, side_of (swap_is_buy params), st) = Some v"
    "sh_with_tip ?sh \<or> client_type c = SwqosDefault"
    using job(1) unfolding configs select_mem get_strategies_mem by (auto simp: swap_context_def)
  have "sh_middlewares ?sh = None" using mw by (simp add: swap_context_def)
  from run_one_success [OF *(5,6,4) this] obtain tx m where tx: "tx = \<lparr>tx_signatures = [sign tex m], tx_message = m\<rparr>"
    "send_transaction w c (side_of (swap_is_buy params)) tx False = None" "signature r = sign tex m" "msg_payer m = sp_payer params"
    "msg_instructions m = tx_parts ext (sp_payer params) (cu_limit v) (cu_price v) ixs (client_type c \<noteq> SwqosDefault)
       (case key of Some k \<Rightarrow> k | None \<Rightarrow> pubkey_default)
       (if sh_with_tip ?sh then tip v else f64_lit 0) (sp_durable_nonce params)"
    unfolding job(2) by (elim exE conjE) (simp add: swap_context_def)
  have tipped: "sh_with_tip ?sh \<longleftrightarrow> swap_is_buy params \<or> sp_with_tip params" by (simp add: swap_context_def)
  have "sent_for ext tex params ixs c tx"
    unfolding sent_for_def
    by (rule exI [of _ st], rule exI [of _ v], rule exI [of _ m], rule exI [of _ "case key of Some k \<Rightarrow> k | None \<Rightarrow> pubkey_default"])
       (use sel tx in \<open>simp add: tipped\<close>)
  moreover have "hd (tx_signatures tx) \<in> set sigs" using tx(1,3) *(7) by simp
  ultimately show ?thesis using sel(1) tx(2) by blast
qed

text \<open>What a successful swap leaves behind: some channel accepted a transaction with what the builder returned.\<close>

definition swap_sent ::
  "chain_ext \<Rightarrow> tx_ext \<Rightarrow> net \<Rightarrow> builder \<Rightarrow> swap_params \<Rightarrow> caches \<Rightarrow> nat list \<Rightarrow> bool" where
  "swap_sent ext tex w b params s sigs \<longleftrightarrow>
     (\<exists>ixs. fst ((if swap_is_buy params then build_buy_instructions b params else build_sell_instructions b params) s) = Ok ixs \<and> ixs \<noteq> []
       \<and> (\<exists>c \<in> set (sp_swqos_clients params). \<exists>tx. send_transaction w c (side_of (swap_is_buy params)) tx False = None
            \<and> hd (tx_signatures tx) \<in> set sigs \<and> sent_for ext tex params ixs c tx))"

lemma swap_success_sent:
  assumes "\<And>rs. mset (arrived w rs) \<subseteq># mset rs" and "coherent ext r1 r2 s"
    and "swap ext tex w order (create_executor ext p dex) params s = Some (Ok (True, sigs, e, ts), s')"
    and "\<not> sp_simulate params" and "\<not> sp_wait_tx_confirmed params" and "sp_middleware_manager params = None"
  shows "swap_sent ext tex w (fst (create_executor ext p dex)) params s sigs"
proof -
  let ?b = "fst (create_executor ext p dex)" and ?n = "snd (create_executor ext p dex)"
  obtain o1 s1 where inst: "swap_instructions ?b ?n params s = (o1, s1)" by (cases "swap_instructions ?b ?n params s")
  obtain ixs where ixs: "o1 = Ok ixs" using assms(3) inst by (cases o1) (auto simp: swap_def)
  have "coherent ext r1 r2 (snd (swap_instructions ?b ?n params s))"
    using transparent_same [OF factory.instructions_transparent assms(2,2)] by blast
  then have coh: "coherent ext r1 r2 s1" using inst by simp
  have built: "fst ((if swap_is_buy params then build_buy_instructions ?b params else build_sell_instructions ?b params) s) = Ok ixs \<and> ixs \<noteq> []"
    using inst ixs assms(6)
    by (cases "(if swap_is_buy params then build_buy_instructions ?b params else build_sell_instructions ?b params) s";
        cases "fst ((if swap_is_buy params then build_buy_instructions ?b params else build_sell_instructions ?b params) s)")
       (auto simp: swap_instructions_def then_do_run preprocess_def split: if_splits)
  have "fst (submit_batch ext tex w order ?n params ixs s1) = Ok (True, sigs, e, ts)"
    using assms(3-5) inst ixs by (auto simp: swap_def split: prod.splits outcome.splits)
  from submit_batch_success [OF assms(1) this coh assms(6)] show ?thesis using built unfolding swap_sent_def by blast
qed

text \<open>
  A swap that reports success has sent what it built. When a swap that neither simulates nor waits for confirmation
  returns success, some configured channel accepted a transaction that is paid by the wallet, made of the nonce advance,
  the tip, the compute budget of a fee strategy of that channel and exactly the instructions the protocol's builder
  returned, and whose signature is among those returned; a sell without a tip went over the plain RPC channel alone.
\<close>

theorem swap_success_was_sent:
  assumes "\<And>rs. mset (arrived w rs) \<subseteq># mset rs" and "coherent ext r1 r2 s"
    and "swap ext tex w order (create_executor ext p dex) params s = Some (Ok (True, sigs, e, ts), s')"
    and "\<not> sp_simulate params" and "\<not> sp_wait_tx_confirmed params" and "sp_middleware_manager params = None"
  shows "swap_sent ext tex w (fst (create_executor ext p dex)) params s sigs"
  using assms by (rule swap_success_sent)

text \<open>A purchase on a DAMM pool over the plain RPC channel.\<close>

definition sample_swap :: swap_params where
  "sample_swap = (sample_request (DexMeteoraDammV2 sample_damm))
     \<lparr>sp_input_mint := WSOL_TOKEN_ACCOUNT, sp_with_tip := True, sp_swqos_clients := [sample_client SwqosDefault],
       sp_gas_fee_strategy := sample_gas\<rparr>"

definition sample_caches :: caches where
  "sample_caches = caches_init\<lparr>spl_token_rent := 5, spl_token_2022_rent := 6\<rparr>"

lemma sample_caches_coherent: "coherent sample_ext 5 6 sample_caches"
  unfolding sample_caches_def by (rule coherent_rents)

lemma sample_swap_instructions:
  "\<exists>ixs s1. swap_instructions (fst (create_executor sample_ext Checked MeteoraDammV2)) n sample_swap sample_caches = (Ok ixs, s1)
     \<and> coherent sample_ext 5 6 s1"
proof -
  have m: "side_is_money WSOL_TOKEN_ACCOUNT" "\<not> side_is_money 9" by (simp_all add: side_is_money_def token_account_defs)
  have "\<exists>ixs. yields (coherent sample_ext 5 6) (damm_build_buy_instructions sample_ext sample_swap) (Ok ixs)"
    unfolding damm_build_buy_instructions_def
    by (simp add: sample_swap_def sample_request_def sample_damm_def Let_def m del: prog_simps(1,2,3)) (rule exI, (rule pumpswap_run refl)+)
  then obtain ixs where ixs: "fst (damm_build_buy_instructions sample_ext sample_swap sample_caches) = Ok ixs"
    using sample_caches_coherent by (auto simp: yields_def)
  have "returns (coherent sample_ext 5 6) (damm_build_buy_instructions sample_ext sample_swap) ixs"
    using sample_caches_coherent ixs by (rule returnsI)
  from damm_buy_returns [OF this] have "ixs \<noteq> []" by (auto simp: damm_wire_def swap_wire_def buy_frame_def Let_def simp del: ata_spec.simps)
  then have "fst (swap_instructions (fst (create_executor sample_ext Checked MeteoraDammV2)) n sample_swap sample_caches) = Ok ixs"
    using ixs
    by (cases "damm_build_buy_instructions sample_ext sample_swap sample_caches")
       (simp add: swap_instructions_def then_do_run preprocess_def swap_is_buy_def, simp add: sample_swap_def sample_request_def then_do_run)
  moreover have "coherent sample_ext 5 6 (snd (swap_instructions (fst (create_executor sample_ext Checked MeteoraDammV2)) n sample_swap sample_caches))"
    using transparent_same [OF factory.instructions_transparent sample_caches_coherent sample_caches_coherent] by blast
  ultimately show ?thesis by (metis prod.collapse)
qed

lemma sample_submit:
  assumes "coherent sample_ext 5 6 s"
  shows "\<exists>sigs ts s'. submit_batch sample_ext sample_tx_ext sample_net [SwqosDefault] n sample_swap ixs s = (Ok (True, sigs, None, ts), s')"
proof -
  let ?build = "build_transaction sample_ext sample_tx_ext 7 150000 500000 ixs None (Some 3) None n True False pubkey_default (f64_lit 0) None"
  have "\<exists>tx. fst (?build sample_caches) = Ok tx"
    by (simp add: build_transaction_def add_nonce_instruction_def then_do_run extend_compute_budget_instructions_def sample_caches_def caches_init_def Let_def
        get_transaction_blockhash_def build_versioned_transaction_def build_zero_alloc_def)
  then have "\<exists>tx. fst (?build s) = Ok tx"
    using transparent_same [OF build_transaction_transparent assms sample_caches_coherent] by metis
  then obtain tx s1 where tx: "?build s = (Ok tx, s1)" by (metis prod.collapse)
  have configs: "prepare_batch [SwqosDefault] [sample_client SwqosDefault] None True True sample_gas False
      = Inr [(0, sample_client SwqosDefault, SwqosDefault, Normal, \<lparr>cu_limit = 150000, cu_price = 500000, tip = f64_lit 0\<rparr>)]"
    by (simp add: prepare_batch_def select_task_configs_def client_configs_def sample_client_def get_strategies_def
        sample_gas_def gas_fee_strategy_values_def side_of_def map_filter_def Let_def)
  have sh: "sp_swqos_clients sample_swap = [sample_client SwqosDefault]" "sp_gas_fee_strategy sample_swap = sample_gas"
    "sp_check_min_tip sample_swap = False" "swap_context sample_swap n ixs = \<lparr>sh_payer = 7, sh_instructions = ixs, sh_lookup_table = None,
       sh_recent_blockhash = Some 3, sh_durable_nonce = None, sh_middlewares = None, sh_protocol_name = n, sh_is_buy = True,
       sh_wait_transaction_confirmed = False, sh_with_tip = True\<rparr>"
    by (simp_all add: sample_swap_def sample_request_def swap_context_def swap_is_buy_def)
  show ?thesis
    by (simp add: submit_batch_def execute_parallel_def sh configs)
       (simp add: sample_client_def run_one_swqos_job_def tx Let_def sample_net_def all_answer_def popped_success_def last_error_def)
qed

theorem swap_success_was_sent_witness:
  "\<exists>sigs. swap_sent sample_ext sample_tx_ext sample_net (fst (create_executor sample_ext Checked MeteoraDammV2)) sample_swap sample_caches sigs"
proof -
  let ?ex = "create_executor sample_ext Checked MeteoraDammV2"
  obtain ixs s1 where ixs: "swap_instructions (fst ?ex) (snd ?ex) sample_swap sample_caches = (Ok ixs, s1)" "coherent sample_ext 5 6 s1"
    using sample_swap_instructions by blast
  obtain sigs ts s2 where "submit_batch sample_ext sample_tx_ext sample_net [SwqosDefault] (snd ?ex) sample_swap ixs s1 = (Ok (True, sigs, None, ts), s2)"
    using sample_submit [OF ixs(2)] by blast
  moreover have flags: "\<not> sp_simulate sample_swap" "\<not> sp_wait_tx_confirmed sample_swap" "sp_middleware_manager sample_swap = None"
    by (simp_all add: sample_swap_def sample_request_def swap_is_buy_def)
  ultimately have "swap sample_ext sample_tx_ext sample_net [SwqosDefault] ?ex sample_swap sample_caches = Some (Ok (True, sigs, None, ts), s2)"
    using ixs by (simp add: swap_def)
  from swap_success_was_sent [OF _ sample_caches_coherent this flags(1-3)] show ?thesis
    by (auto simp: sample_net_def)
qed

end
