(* ===== verification/Channels.thy ===== *)
theory Channels
  imports Params "HOL-Library.Sublist"
begin

text \<open>
  The submission channels (\<open>swqos/mod.rs\<close>, \<open>constants/swqos.rs\<close>): the endpoint and tip-account tables, the choice of an
  endpoint and of a tip account, the construction of a client from its configuration, and the set-up of the trading
  infrastructure (\<open>TradingInfrastructure::new\<close> of \<open>lib.rs\<close>). A client is modelled by what was given to its constructor;
  the requests it sends are not modelled.
\<close>

section \<open>Tables\<close>

definition JITO_TIP_ACCOUNTS :: "pubkey list" where
  "JITO_TIP_ACCOUNTS = [
     54422621322939896453516889382126997927626817275531403986567508440531383440346,
     109247553336154915140397281562955782028708068309300985434079061270656221666609,
     80197284176786223730625625006492900318529577321662411648072606249609064444225,
     61942121906878255655675308484757842648727850095538958474657197081804530804194,
     85111390581130255164369848681890421606666702225702730884525473361740594156148,
     61980093212703245725120089948482880562372305321044816150142144835195464143985,
     86658736734514357954912401601374860396250068437862445990265369301758407203011,
     14541262600297935629034775016433078996303233616042558276168352604139953862866]"

definition HELIUS_TIP_ACCOUNTS :: "pubkey list" where
  "HELIUS_TIP_ACCOUNTS = [
     21227753249016461115455015303707829978831732169698205501808836605927299503167,
     80800431770623126833827255045535815999179247751953783492594138079488518413602,
     57795752973251331662311670332997204549619953725750577050081949958475421928059,
     30188734913573760265491041736115144110275905892905852015898309033871852306445,
     12048022144923607185829072749309988065960433158679815358217989856746551085478,
     12291987149377529966032500279403365928287511578330456454794649144647573112987,
     6370762808995901978625713965957061965672782018567643777846542946619045089776,
     15549372334982914079169620674848214237235146239231500876123597864436690950130,
     26385981594469368379943414159643309012172865437501901804200232247644976385306,
     23220863931613758298958509646839386588763179873947961431265244379171188009997]"

definition NEXTBLOCK_TIP_ACCOUNTS :: "pubkey list" where
  "NEXTBLOCK_TIP_ACCOUNTS = [
     2509139419092079790202008480410658794074765001280271218338606512376413741151,
     2509124572329704860076190320980985323401169111033377842394300613479150067363,
     2508263214372420446762148097727976850770764640651722769603158912102366206298,
     2509124326591448973808354812028023273662787330883052102310874078024731406846,
     5289188301616742902675294742356192560531740029989439049666243662876873880909,
     5241226726570219027506366381592803947381610704181858429582509889646112414551,
     2460316731827808196113141969375937000091681153052171493282689655657356906446,
     5290049413833230703275527197102391587148971963240405857180920407306375621351]"

definition ZEROSLOT_TIP_ACCOUNTS :: "pubkey list" where
  "ZEROSLOT_TIP_ACCOUNTS = [
     91309198846781711390792413150621326692828597564000524404410429199577215069738,
     95446894195774940529363199625590240064251510811399516886905991425775295852779,
     89911008146056524516752552177835914019118789163731628057187108305450505443542,
     39342951732565864424593361480095108496345191390665252478657228354828928518596,
     78786518279350932237939215869445805021835116472929289695323123290781186651113]"

definition NOZOMI_TIP_ACCOUNTS :: "pubkey list" where
  "NOZOMI_TIP_ACCOUNTS = [
     3039326201468847960440611742400639695071731986903072844841763205176200743638,
     5308069552138668808749140742691821271614583566719496184152348361545370114109,
     5308069641486945768507509397299066398688467953196956149827267628337729414075,
     5308071442639403484446622171726611283766730178773916962849924388261268985352,
     5308072820658122313381306809598028715761597746085787863980282014338371392751,
     5308088769024789605397601323985297098048253699513188069330928066534069460545,
     5308076755720295212463476619123768305848000342343252808771926645051171334144,
     5308092669600065299226597617580772124891922634248625684940033594289991701792,
     5308095011989892954472871902872981217928607253421391063794593856689911984736,
     5308080695884150496708791614617140997424243675012735324038180728789003067870,
     5308095980412260089599585677499069142881376064241914429577588990080788294988,
     5308097449394349962253405818866335661090996592995537077782820211016818407691,
     5308097589420969473623852051747560520199905205568919237756648059400202729866,
     5308084311290292479935427068224455221112745984294578261750779200718925908413,
     5308085277477038737837822227187220529085570860284005111081523650578193255457,
     5308085377475220222020314645812234379257382957472723454125526761999423169603,
     5308100812420605949022539479511978172845659963454702803487536603220894020758]"

definition BLOX_TIP_ACCOUNTS :: "pubkey list" where
  "BLOX_TIP_ACCOUNTS = [
     110916357937617666948709677152108330954437033127226322346808350425554202470555,
     54299008784007950068211258008998483103726738520047138856049403164601791089623,
     16616480258834504192206780397325622979781911828384435357759343697875886087358,
     99497365829763696460740908457388732584967971619571291428129328752258950572498]"

definition NODE1_TIP_ACCOUNTS :: "pubkey list" where
  "NODE1_TIP_ACCOUNTS = [
     5307366575611488625573276960854602869531586089752421385313184868810009204120,
     5307366576524080790706602851745917016450400028043278169566961901629425134143,
     5307366575775379671368318893927724476689718376365361732148192459797640583713,
     5307366575548886362279971642904060249095635489753760646912412999757400789100,
     5307366573341436175778622046295260514763945146202160338248284769438884963396,
     5307366577210483273653895237904848601787982091964278292091021806805783796503]"

definition FLASHBLOCK_TIP_ACCOUNTS :: "pubkey list" where
  "FLASHBLOCK_TIP_ACCOUNTS = [
     96355828797942252985984864140790295165976428961694989139898926587379920315845,
     96356690225824368249722607105404190257716069260833169941221158676262230557041,
     96355814620086373712577090173331970920652987387447015202442100178077519636467,
     96355814688536577588003064654554784801255106095792756175131685514500714480599,
     96307867969725944917967904720517668011114889566225991919657862614460956781609,
     96356676075506882581725139735960836022402276407330896901468680045667179773638,
     96307882268442102623420849578328772780800615275417047486516024686042841524604,
     96356675866310244301461735062045850090954130845520743693883197875009162753293,
     96308743654156957930852554151391833019585587917837645015998286316279447485784,
     96308729158430606634568301668502241315191802829696236654577016715726709247900]"

definition BLOCKRAZOR_TIP_ACCOUNTS :: "pubkey list" where
  "BLOCKRAZOR_TIP_ACCOUNTS = [
     99043080124139022241563605406893891177053063370494693040927193793701936025594,
     36127918581692933837256375507234066810074573066650828245192490555378565867539,
     61482716888797624900863768296192324917432364008104540263300465171696076781147,
     107406118416614715523487400827193917137437709213683717116152514392473400052710,
     34459595625737647120973993747855684860026323862073316857179655247993379508494,
     21225806672886468524191186551273505706793166030100803455820747887176035234144,
     67361273637695041622715185164944058122454527029186704361974193380187213600168,
     31766848161241038693245267147572014494188724293413786618294630339648891103686,
     30561830234019305791480016363322396943311837164029151106481215696149788549698,
     7655836112327974191482250689488679618220805078066385227284392440931433166184,
     88839426868482540049990405400729856316620787618956652694609592088620075907970,
     72450133814520325087413745918542571744768797609920661649231624443562754957061,
     84830369763062700349119230785753628293663038303513382108345924987498336442232,
     63045615981232477736423312399091948325917275055144926883764312462325892936059]"

definition ASTRALANE_TIP_ACCOUNTS :: "pubkey list" where
  "ASTRALANE_TIP_ACCOUNTS = [
     3925426714628367428301861709582046861481114350884191828919136589103294509954,
     3925426705079718497633312707729434382878710251440524416316973767145871575308,
     3925426705971104525310962872738490921989441358352024009507641693492102716241,
     3925426708713429961554927919761233164004932457958752389776870659611211073851,
     3925426706736664417580271675786467937137331708609975255907037158424759237232,
     3925426713675532530459424249727102078888726612620509835056271070842946507563,
     3925426710127529179031060644430362979879253137245344261789450227898579920481,
     3925426714009197840107544322564419586763009888055405763931252288280482310906,
     66381940660501640605492676438349877336026342419550507628163424204377999094312,
     66332010460993984608036718946818736253645567689523617843916832769089809311490,
     66381940757979883681490642902701510294956269838939162178274249469189025629184,
     66331135165030117570198192904093379463111680816310537021947056455390498654490,
     66331135174395012417074701320883395906281706904100109978273448940876931047422,
     63485159336766513573652265626811734477493119040276398615768179034761246096917,
     66381955367861423056255319074208664181096024199610545408961736886715263037281,
     63484298510306418306348661206034647802521560764592868846669770360701695241832,
     63434368258881795078793290135009200166602402955145696991263245211201449802199]"

definition STELLIUM_TIP_ACCOUNTS :: "pubkey list" where
  "STELLIUM_TIP_ACCOUNTS = [
     5896724247773948118798053321058158082129785700614230299996014662850958973952,
     5896724248307672525195806374900808212434705416078882335733216349277916201165,
     5896724252999778649086730962835277060876177180552819013254569141958543914118,
     5896724253004915579763373827016155498437510940206017957663375353908847715915,
     5896724249339781935298580331483507239697705132413289381499701416023100479060]"

definition LIGHTSPEED_TIP_ACCOUNTS :: "pubkey list" where
  "LIGHTSPEED_TIP_ACCOUNTS = [
     27159215694564431114969584110292809580599556078237108616624859602570397393293,
     59736115276651691927253889916920095520990351039952857093305762159342320375898]"

definition SOYAS_TIP_ACCOUNTS :: "pubkey list" where
  "SOYAS_TIP_ACCOUNTS = [
     5887409898612830076323720491675686391897202475645892261890392620986071034228,
     5887409904201620818295603089860725242150660531834232241379447405207261973259,
     5887409900081539953912067609268566633553314238133680118664043828832549973091,
     5887409900230540330400595585452044798788606317226783546398289336360053432812,
     5887409905181405781203072205399572866562450054295632790710308597257723800071,
     5887409902087574837084778493394853858664707246422000924674735713682955619883,
     5887409907001369790904652786175983954656029530077778376019947370873111790043,
     5887409907398859755976078975140464130813468458950143501985638974270740769705,
     5887409907455139555822723926158037476473204476450761283813844791127542873295,
     5887409898748914568404831233299931093791703392428812853829689479963468930352]"

definition SPEEDLANDING_TIP_ACCOUNTS :: "pubkey list" where
  "SPEEDLANDING_TIP_ACCOUNTS = [
     2991133054087983921656374556601848308524450430717174472122291991247277907228,
     2991973728777120660916501494692480292407367210501812759689452811867611819273,
     2942015212559486887620443643359944446636328666418930648782885372958534764364,
     5888741220959619432819097944403656035686458249086671874659069099929331567982,
     2942014965262343726337902454288967283401662281021484105996219095486603751818,
     2991973968088831174139562343435326783949590194773852449930388112166026131409,
     2991147304179271764018676010219729142006507961518519447904267282805031987216,
     5888755471680439275504323006676884140121556559554729928058751120631155577113]"

definition SWQOS_ENDPOINTS_JITO :: "string list" where
  "SWQOS_ENDPOINTS_JITO = [
     ''https://ny.mainnet.block-engine.jito.wtf'', ''https://frankfurt.mainnet.block-engine.jito.wtf'',
     ''https://amsterdam.mainnet.block-engine.jito.wtf'', ''https://dublin.mainnet.block-engine.jito.wtf'',
     ''https://slc.mainnet.block-engine.jito.wtf'', ''https://tokyo.mainnet.block-engine.jito.wtf'',
     ''https://singapore.mainnet.block-engine.jito.wtf'', ''https://london.mainnet.block-engine.jito.wtf'',
     ''https://slc.mainnet.block-engine.jito.wtf'', ''https://mainnet.block-engine.jito.wtf'']"

definition SWQOS_ENDPOINTS_NEXTBLOCK :: "string list" where
  "SWQOS_ENDPOINTS_NEXTBLOCK = [
     ''http://ny.nextblock.io'', ''http://fra.nextblock.io'',
     ''http://ams.nextblock.io'', ''http://dublin.nextblock.io'',
     ''http://slc.nextblock.io'', ''http://tokyo.nextblock.io'',
     ''http://sgp.nextblock.io'', ''http://london.nextblock.io'',
     ''http://slc.nextblock.io'', ''http://fra.nextblock.io'']"

definition SWQOS_ENDPOINTS_ZERO_SLOT :: "string list" where
  "SWQOS_ENDPOINTS_ZERO_SLOT = [
     ''http://ny.0slot.trade'', ''http://de2.0slot.trade'',
     ''http://ams.0slot.trade'', ''http://ams.0slot.trade'',
     ''http://la.0slot.trade'', ''http://jp.0slot.trade'',
     ''http://jp.0slot.trade'', ''http://ams.0slot.trade'',
     ''http://la.0slot.trade'', ''http://de2.0slot.trade'']"

definition SWQOS_ENDPOINTS_TEMPORAL :: "string list" where
  "SWQOS_ENDPOINTS_TEMPORAL = [
     ''http://ewr1.nozomi.temporal.xyz'', ''http://fra2.nozomi.temporal.xyz'',
     ''http://ams1.nozomi.temporal.xyz'', ''http://lon1.nozomi.temporal.xyz'',
     ''http://lax1.nozomi.temporal.xyz'', ''http://tyo1.nozomi.temporal.xyz'',
     ''http://sgp1.nozomi.temporal.xyz'', ''http://lon1.nozomi.temporal.xyz'',
     ''http://lax1.nozomi.temporal.xyz'', ''http://fra2.nozomi.temporal.xyz'']"

definition SWQOS_ENDPOINTS_BLOX :: "string list" where
  "SWQOS_ENDPOINTS_BLOX = [
     ''https://ny.solana.dex.blxrbdn.com'', ''https://germany.solana.dex.blxrbdn.com'',
     ''https://amsterdam.solana.dex.blxrbdn.com'', ''https://uk.solana.dex.blxrbdn.com'',
     ''https://la.solana.dex.blxrbdn.com'', ''https://tokyo.solana.dex.blxrbdn.com'',
     ''https://tokyo.solana.dex.blxrbdn.com'', ''https://uk.solana.dex.blxrbdn.com'',
     ''https://la.solana.dex.blxrbdn.com'', ''https://global.solana.dex.blxrbdn.com'']"

definition SWQOS_ENDPOINTS_NODE1 :: "string list" where
  "SWQOS_ENDPOINTS_NODE1 = [
     ''http://ny.node1.me'', ''http://fra.node1.me'',
     ''http://ams.node1.me'', ''http://lon.node1.me'',
     ''http://ny.node1.me'', ''http://tk.node1.me'',
     ''http://tk.node1.me'', ''http://lon.node1.me'',
     ''http://ny.node1.me'', ''http://fra.node1.me'']"

definition SWQOS_ENDPOINTS_NODE1_QUIC :: "string list" where
  "SWQOS_ENDPOINTS_NODE1_QUIC = [
     ''ny.node1.me:16666'', ''fra.node1.me:16666'',
     ''ams.node1.me:16666'', ''lon.node1.me:16666'',
     ''ny.node1.me:16666'', ''tk.node1.me:16666'',
     ''tk.node1.me:16666'', ''lon.node1.me:16666'',
     ''ny.node1.me:16666'', ''fra.node1.me:16666'']"

definition SWQOS_ENDPOINTS_FLASHBLOCK :: "string list" where
  "SWQOS_ENDPOINTS_FLASHBLOCK = [
     ''http://ny.flashblock.trade'', ''http://fra.flashblock.trade'',
     ''http://ams.flashblock.trade'', ''http://london.flashblock.trade'',
     ''http://slc.flashblock.trade'', ''http://tokyo.flashblock.trade'',
     ''http://singapore.flashblock.trade'', ''http://london.flashblock.trade'',
     ''http://slc.flashblock.trade'', ''http://fra.flashblock.trade'']"

definition SWQOS_ENDPOINTS_BLOCKRAZOR :: "string list" where
  "SWQOS_ENDPOINTS_BLOCKRAZOR = [
     ''http://newyork.solana.blockrazor.xyz:443/v2/sendTransaction'', ''http://frankfurt.solana.blockrazor.xyz:443/v2/sendTransaction'',
     ''http://amsterdam.solana.blockrazor.xyz:443/v2/sendTransaction'', ''http://london.solana.blockrazor.xyz:443/v2/sendTransaction'',
     ''http://newyork.solana.blockrazor.xyz:443/v2/sendTransaction'', ''http://tokyo.solana.blockrazor.xyz:443/v2/sendTransaction'',
     ''http://tokyo.solana.blockrazor.xyz:443/v2/sendTransaction'', ''http://london.solana.blockrazor.xyz:443/v2/sendTransaction'',
     ''http://newyork.solana.blockrazor.xyz:443/v2/sendTransaction'', ''http://frankfurt.solana.blockrazor.xyz:443/v2/sendTransaction'']"

definition SWQOS_ENDPOINTS_BLOCKRAZOR_GRPC :: "string list" where
  "SWQOS_ENDPOINTS_BLOCKRAZOR_GRPC = [
     ''http://newyork.solana-grpc.blockrazor.xyz:80'', ''http://frankfurt.solana-grpc.blockrazor.xyz:80'',
     ''http://amsterdam.solana-grpc.blockrazor.xyz:80'', ''http://london.solana-grpc.blockrazor.xyz:80'',
     ''http://newyork.solana-grpc.blockrazor.xyz:80'', ''http://tokyo.solana-grpc.blockrazor.xyz:80'',
     ''http://tokyo.solana-grpc.blockrazor.xyz:80'', ''http://london.solana-grpc.blockrazor.xyz:80'',
     ''http://newyork.solana-grpc.blockrazor.xyz:80'', ''http://frankfurt.solana-grpc.blockrazor.xyz:80'']"

definition SWQOS_ENDPOINTS_ASTRALANE_PLAIN :: "string list" where
  "SWQOS_ENDPOINTS_ASTRALANE_PLAIN = [
     ''http://ny.gateway.astralane.io/iris'', ''http://fr.gateway.astralane.io/iris'',
     ''http://ams.gateway.astralane.io/iris'', ''http://ams.gateway.astralane.io/iris'',
     ''http://la.gateway.astralane.io/iris'', ''http://jp.gateway.astralane.io/iris'',
     ''http://sg.gateway.astralane.io/iris'', ''http://ams.gateway.astralane.io/iris'',
     ''http://la.gateway.astralane.io/iris'', ''https://edge.astralane.io/iris'']"

definition SWQOS_ENDPOINTS_ASTRALANE_BINARY :: "string list" where
  "SWQOS_ENDPOINTS_ASTRALANE_BINARY = [
     ''http://ny.gateway.astralane.io/irisb'', ''http://fr.gateway.astralane.io/irisb'',
     ''http://ams.gateway.astralane.io/irisb'', ''http://ams.gateway.astralane.io/irisb'',
     ''http://la.gateway.astralane.io/irisb'', ''http://jp.gateway.astralane.io/irisb'',
     ''http://sg.gateway.astralane.io/irisb'', ''http://ams.gateway.astralane.io/irisb'',
     ''http://la.gateway.astralane.io/irisb'', ''https://edge.astralane.io/irisb'']"

definition SWQOS_ENDPOINTS_ASTRALANE_QUIC :: "string list" where
  "SWQOS_ENDPOINTS_ASTRALANE_QUIC = [
     ''ny.gateway.astralane.io:7000'', ''fr.gateway.astralane.io:7000'',
     ''ams.gateway.astralane.io:7000'', ''ams.gateway.astralane.io:7000'',
     ''la.gateway.astralane.io:7000'', ''jp.gateway.astralane.io:7000'',
     ''sg.gateway.astralane.io:7000'', ''ams.gateway.astralane.io:7000'',
     ''la.gateway.astralane.io:7000'', ''lim.gateway.astralane.io:7000'']"

definition SWQOS_ENDPOINTS_ASTRALANE_QUIC_MEV :: "string list" where
  "SWQOS_ENDPOINTS_ASTRALANE_QUIC_MEV = [
     ''ny.gateway.astralane.io:9000'', ''fr.gateway.astralane.io:9000'',
     ''ams.gateway.astralane.io:9000'', ''ams.gateway.astralane.io:9000'',
     ''la.gateway.astralane.io:9000'', ''jp.gateway.astralane.io:9000'',
     ''sg.gateway.astralane.io:9000'', ''ams.gateway.astralane.io:9000'',
     ''la.gateway.astralane.io:9000'', ''lim.gateway.astralane.io:9000'']"

definition SWQOS_ENDPOINTS_STELLIUM :: "string list" where
  "SWQOS_ENDPOINTS_STELLIUM = [
     ''http://ewr1.flashrpc.com'', ''http://fra1.flashrpc.com'',
     ''http://ams1.flashrpc.com'', ''http://lhr1.flashrpc.com'',
     ''http://ewr1.flashrpc.com'', ''http://tyo1.flashrpc.com'',
     ''http://tyo1.flashrpc.com'', ''http://lhr1.flashrpc.com'',
     ''http://ewr1.flashrpc.com'', ''http://fra1.flashrpc.com'']"

definition SWQOS_ENDPOINTS_SOYAS :: "string list" where
  "SWQOS_ENDPOINTS_SOYAS = [
     ''nyc.landing.soyas.xyz:9000'', ''fra.landing.soyas.xyz:9000'',
     ''ams.landing.soyas.xyz:9000'', ''lon.landing.soyas.xyz:9000'',
     ''nyc.landing.soyas.xyz:9000'', ''tyo.landing.soyas.xyz:9000'',
     ''tyo.landing.soyas.xyz:9000'', ''lon.landing.soyas.xyz:9000'',
     ''nyc.landing.soyas.xyz:9000'', ''fra.landing.soyas.xyz:9000'']"

definition SWQOS_ENDPOINTS_SPEEDLANDING :: "string list" where
  "SWQOS_ENDPOINTS_SPEEDLANDING = [
     ''nyc.speedlanding.trade:17778'', ''fra.speedlanding.trade:17778'',
     ''ams.speedlanding.trade:17778'', ''ams.speedlanding.trade:17778'',
     ''nyc.speedlanding.trade:17778'', ''tyo.speedlanding.trade:17778'',
     ''sgp.speedlanding.trade:17778'', ''ams.speedlanding.trade:17778'',
     ''nyc.speedlanding.trade:17778'', ''fra.speedlanding.trade:17778'']"

definition SWQOS_ENDPOINTS_HELIUS :: "string list" where
  "SWQOS_ENDPOINTS_HELIUS = [
     ''http://ewr-sender.helius-rpc.com/fast'', ''http://fra-sender.helius-rpc.com/fast'',
     ''http://ams-sender.helius-rpc.com/fast'', ''http://lon-sender.helius-rpc.com/fast'',
     ''http://slc-sender.helius-rpc.com/fast'', ''http://tyo-sender.helius-rpc.com/fast'',
     ''http://sg-sender.helius-rpc.com/fast'', ''http://lon-sender.helius-rpc.com/fast'',
     ''http://slc-sender.helius-rpc.com/fast'', ''https://sender.helius-rpc.com/fast'']"

section \<open>Endpoints\<close>

text \<open>\<open>region as usize\<close>, and indexing an array by it.\<close>

fun region_index :: "swqos_region \<Rightarrow> nat" where
  "region_index NewYork = 0"
| "region_index Frankfurt = 1"
| "region_index Amsterdam = 2"
| "region_index Dublin = 3"
| "region_index SLC = 4"
| "region_index Tokyo = 5"
| "region_index Singapore = 6"
| "region_index London = 7"
| "region_index LosAngeles = 8"
| "region_index RegionDefault = 9"

definition at_region :: "string list \<Rightarrow> swqos_region \<Rightarrow> string rust" where
  "at_region endpoints region =
     (if region_index region < length endpoints then Some (endpoints ! region_index region) else None)"

fun endpoint_of :: "swqos_type \<Rightarrow> swqos_region \<Rightarrow> string rust" where
  "endpoint_of Jito region = at_region SWQOS_ENDPOINTS_JITO region"
| "endpoint_of NextBlock region = at_region SWQOS_ENDPOINTS_NEXTBLOCK region"
| "endpoint_of ZeroSlot region = at_region SWQOS_ENDPOINTS_ZERO_SLOT region"
| "endpoint_of Temporal region = at_region SWQOS_ENDPOINTS_TEMPORAL region"
| "endpoint_of Bloxroute region = at_region SWQOS_ENDPOINTS_BLOX region"
| "endpoint_of Node1 region = at_region SWQOS_ENDPOINTS_NODE1 region"
| "endpoint_of FlashBlock region = at_region SWQOS_ENDPOINTS_FLASHBLOCK region"
| "endpoint_of BlockRazor region = at_region SWQOS_ENDPOINTS_BLOCKRAZOR region"
| "endpoint_of Astralane region = at_region SWQOS_ENDPOINTS_ASTRALANE_BINARY region"
| "endpoint_of Stellium region = at_region SWQOS_ENDPOINTS_STELLIUM region"
| "endpoint_of Lightspeed region = Some []"
| "endpoint_of Soyas region = at_region SWQOS_ENDPOINTS_SOYAS region"
| "endpoint_of Speedlanding region = at_region SWQOS_ENDPOINTS_SPEEDLANDING region"
| "endpoint_of Helius region = at_region SWQOS_ENDPOINTS_HELIUS region"
| "endpoint_of SwqosDefault region = Some []"

definition get_endpoint :: "swqos_type \<Rightarrow> swqos_region \<Rightarrow> string option \<Rightarrow> string rust" where
  "get_endpoint t region url = (case url of Some custom_url \<Rightarrow> Some custom_url | None \<Rightarrow> endpoint_of t region)"

definition get_endpoint_with_transport ::
  "swqos_type \<Rightarrow> swqos_region \<Rightarrow> string option \<Rightarrow> swqos_transport option \<Rightarrow> bool \<Rightarrow> string rust" where
  "get_endpoint_with_transport t region url transport mev_protection =
     (case url of
        Some custom_url \<Rightarrow> Some custom_url
      | None \<Rightarrow>
          if t = BlockRazor then
            (if transport = Some Http then at_region SWQOS_ENDPOINTS_BLOCKRAZOR region
             else at_region SWQOS_ENDPOINTS_BLOCKRAZOR_GRPC region)
          else if t = Node1 then
            (if transport = Some Quic then at_region SWQOS_ENDPOINTS_NODE1_QUIC region
             else at_region SWQOS_ENDPOINTS_NODE1 region)
          else get_endpoint t region None)"

text \<open>\<open>HeliusClient::build_submit_url\<close>.\<close>

definition build_submit_url :: "string \<Rightarrow> string option \<Rightarrow> bool \<Rightarrow> string" where
  "build_submit_url endpoint api_key swqos_only =
     (let has_query = CHR ''?'' \<in> set endpoint;
          (url, has_query) =
            (case api_key of
               Some key \<Rightarrow> if key \<noteq> [] then (endpoint @ (if has_query then ''&'' else ''?'') @ ''api-key='' @ key, True)
                          else (endpoint, has_query)
             | None \<Rightarrow> (endpoint, has_query))
      in if swqos_only then url @ (if has_query then ''&'' else ''?'') @ ''swqos_only=true'' else url)"

section \<open>Tip accounts\<close>

text \<open>
  What the clients need of the outside: the SHA-256 crate, and whether a QUIC or gRPC connection to an endpoint is made,
  refused, or not made within the fifteen seconds the set-up waits.
\<close>

datatype connection = Connected | Refused string | TimedOut

record channel_env =
  sha256_hex :: "string \<Rightarrow> string"
  connect :: "swqos_type \<Rightarrow> string \<Rightarrow> string \<Rightarrow> connection"

record channel =
  ch_type :: swqos_type
  ch_endpoint :: string
  ch_auth_token :: string
  ch_mev_protection :: bool
  ch_swqos_only :: bool

definition SPECIAL_API_KEY_PREFIX :: string where
  "SPECIAL_API_KEY_PREFIX = ''298b5025''"

definition SPECIAL_API_KEY_SUFFIX :: string where
  "SPECIAL_API_KEY_SUFFIX = ''a055323''"

definition SPECIAL_API_KEY_HASH :: string where
  "SPECIAL_API_KEY_HASH = ''e7be933c8058aebcb4d08a6120fb4dfd2ead568d42527a3fc2b60a703f25e48d''"

definition TEMPORAL_COMMUNITY_TIP_ADDRESS :: pubkey where
  "TEMPORAL_COMMUNITY_TIP_ADDRESS = 5206740164422413932369630396451864686856746761627113173831860712450673861614"

fun tip_accounts :: "swqos_type \<Rightarrow> pubkey list" where
  "tip_accounts Jito = JITO_TIP_ACCOUNTS"
| "tip_accounts NextBlock = NEXTBLOCK_TIP_ACCOUNTS"
| "tip_accounts ZeroSlot = ZEROSLOT_TIP_ACCOUNTS"
| "tip_accounts Temporal = NOZOMI_TIP_ACCOUNTS"
| "tip_accounts Bloxroute = BLOX_TIP_ACCOUNTS"
| "tip_accounts Node1 = NODE1_TIP_ACCOUNTS"
| "tip_accounts FlashBlock = FLASHBLOCK_TIP_ACCOUNTS"
| "tip_accounts BlockRazor = BLOCKRAZOR_TIP_ACCOUNTS"
| "tip_accounts Astralane = ASTRALANE_TIP_ACCOUNTS"
| "tip_accounts Stellium = STELLIUM_TIP_ACCOUNTS"
| "tip_accounts Lightspeed = LIGHTSPEED_TIP_ACCOUNTS"
| "tip_accounts Soyas = SOYAS_TIP_ACCOUNTS"
| "tip_accounts Speedlanding = SPEEDLANDING_TIP_ACCOUNTS"
| "tip_accounts Helius = HELIUS_TIP_ACCOUNTS"
| "tip_accounts SwqosDefault = []"

definition temporal_special_key :: "channel_env \<Rightarrow> string \<Rightarrow> bool" where
  "temporal_special_key cx api_key \<longleftrightarrow>
     length api_key \<ge> length SPECIAL_API_KEY_PREFIX + length SPECIAL_API_KEY_SUFFIX
     \<and> take (length SPECIAL_API_KEY_PREFIX) api_key = SPECIAL_API_KEY_PREFIX
     \<and> drop (length api_key - length SPECIAL_API_KEY_SUFFIX) api_key = SPECIAL_API_KEY_SUFFIX
     \<and> sha256_hex cx api_key = SPECIAL_API_KEY_HASH"

text \<open>
  \<open>get_tip_account\<close> of each client, with the executor's parsing: the plain RPC client answers the empty string, which the
  executor reads as no account. Jito reports an empty table as an error, the others would panic on it.
\<close>

definition get_tip_account :: "chain_ext \<Rightarrow> channel_env \<Rightarrow> channel \<Rightarrow> (string + pubkey option) rust" where
  "get_tip_account ext cx c =
     (case ch_type c of
        SwqosDefault \<Rightarrow> Some (Inr None)
      | Jito \<Rightarrow> Some (case choose_key ext JITO_TIP_ACCOUNTS of
                     Some acc \<Rightarrow> Inr (Some acc) | None \<Rightarrow> Inl ''no valid tip accounts found'')
      | t \<Rightarrow>
          if t = Temporal \<and> temporal_special_key cx (ch_auth_token c) then Some (Inr (Some TEMPORAL_COMMUNITY_TIP_ADDRESS))
          else (case choose_key ext (tip_accounts t) of
            Some acc \<Rightarrow> Some (Inr (Some acc))
          | None \<Rightarrow> (case tip_accounts t of [] \<Rightarrow> None | acc # _ \<Rightarrow> Some (Inr (Some acc)))))"

section \<open>Building a client\<close>

datatype client_setup = Ready channel | Failed string | Pending

definition new_client :: "swqos_type \<Rightarrow> bool \<Rightarrow> string \<Rightarrow> string rust \<Rightarrow> client_setup rust" where
  "new_client t mev auth_token endpoint =
     map_option (\<lambda>e. Ready \<lparr>ch_type = t, ch_endpoint = e, ch_auth_token = auth_token, ch_mev_protection = mev, ch_swqos_only = False\<rparr>) endpoint"

text \<open>A client whose constructor connects: it may fail, or take longer than the set-up waits.\<close>

definition connect_client :: "channel_env \<Rightarrow> swqos_type \<Rightarrow> bool \<Rightarrow> string \<Rightarrow> string rust \<Rightarrow> client_setup rust" where
  "connect_client cx t mev auth_token endpoint =
     map_option (\<lambda>e. case connect cx t e auth_token of
         Connected \<Rightarrow> Ready \<lparr>ch_type = t, ch_endpoint = e, ch_auth_token = auth_token, ch_mev_protection = mev, ch_swqos_only = False\<rparr>
       | Refused err \<Rightarrow> Failed err
       | TimedOut \<Rightarrow> Pending) endpoint"

definition given_url :: "string option \<Rightarrow> string rust \<Rightarrow> string rust" where
  "given_url url otherwise = (case url of Some u \<Rightarrow> Some u | None \<Rightarrow> otherwise)"

fun get_swqos_client :: "channel_env \<Rightarrow> bool \<Rightarrow> swqos_config \<Rightarrow> client_setup rust" where
  "get_swqos_client cx mev (CfgJito auth region url) = new_client Jito False auth (get_endpoint Jito region url)"
| "get_swqos_client cx mev (CfgNextBlock auth region url) = new_client NextBlock False auth (get_endpoint NextBlock region url)"
| "get_swqos_client cx mev (CfgZeroSlot auth region url) = new_client ZeroSlot False auth (get_endpoint ZeroSlot region url)"
| "get_swqos_client cx mev (CfgTemporal auth region url) = new_client Temporal False auth (get_endpoint Temporal region url)"
| "get_swqos_client cx mev (CfgBloxroute auth region url) = new_client Bloxroute False auth (get_endpoint Bloxroute region url)"
| "get_swqos_client cx mev (CfgNode1 auth region url transport) =
     (if transport = Some Quic then connect_client cx Node1 False auth (given_url url (at_region SWQOS_ENDPOINTS_NODE1_QUIC region))
      else new_client Node1 False auth (get_endpoint Node1 region url))"
| "get_swqos_client cx mev (CfgFlashBlock auth region url) = new_client FlashBlock False auth (get_endpoint FlashBlock region url)"
| "get_swqos_client cx mev (CfgBlockRazor auth region url transport) =
     (let endpoint = get_endpoint_with_transport BlockRazor region url transport mev
      in if transport = Some Http then new_client BlockRazor mev auth endpoint else connect_client cx BlockRazor mev auth endpoint)"
| "get_swqos_client cx mev (CfgAstralane auth region url mode) =
     (case unwrap_or mode Binary of
        AstralaneQuic \<Rightarrow> connect_client cx Astralane False auth
          (given_url url (if mev then at_region SWQOS_ENDPOINTS_ASTRALANE_QUIC_MEV region else at_region SWQOS_ENDPOINTS_ASTRALANE_QUIC region))
      | Plain \<Rightarrow> new_client Astralane mev auth (given_url url (at_region SWQOS_ENDPOINTS_ASTRALANE_PLAIN region))
      | Binary \<Rightarrow> new_client Astralane mev auth (given_url url (at_region SWQOS_ENDPOINTS_ASTRALANE_BINARY region)))"
| "get_swqos_client cx mev (CfgStellium auth region url) = new_client Stellium False auth (get_endpoint Stellium region url)"
| "get_swqos_client cx mev (CfgLightspeed auth region url) = new_client Lightspeed False auth (get_endpoint Lightspeed region url)"
| "get_swqos_client cx mev (CfgSoyas auth region url) = connect_client cx Soyas False auth (get_endpoint Soyas region url)"
| "get_swqos_client cx mev (CfgSpeedlanding auth region url) = connect_client cx Speedlanding False auth (get_endpoint Speedlanding region url)"
| "get_swqos_client cx mev (CfgHelius api_key region url swqos_only) =
     map_option (\<lambda>endpoint. Ready \<lparr>ch_type = Helius,
         ch_endpoint = build_submit_url endpoint (if api_key = [] then None else Some api_key) (unwrap_or swqos_only False),
         ch_auth_token = api_key, ch_mev_protection = False, ch_swqos_only = unwrap_or swqos_only False\<rparr>)
       (get_endpoint Helius region url)"
| "get_swqos_client cx mev (CfgDefault endpoint) = new_client SwqosDefault False [] (Some endpoint)"

section \<open>The infrastructure\<close>

record infrastructure_config =
  rpc_url :: string
  swqos_configs :: "swqos_config list"
  swqos_cores_from_end :: bool
  mev_protection :: bool

record infrastructure =
  infra_clients :: "channel list"
  infra_config :: infrastructure_config
  max_sender_concurrency :: nat
  effective_core_ids :: "nat list"

text \<open>The loop over the configurations: blacklisted ones are skipped, clients that fail or time out are left out.\<close>

fun create_clients :: "channel_env \<Rightarrow> bool \<Rightarrow> swqos_config list \<Rightarrow> channel list rust" where
  "create_clients cx mev [] = Some []"
| "create_clients cx mev (c # rest) =
     (if is_blacklisted c then create_clients cx mev rest
      else case get_swqos_client cx mev c of
        None \<Rightarrow> None
      | Some (Ready client) \<Rightarrow> map_option (\<lambda>cs. client # cs) (create_clients cx mev rest)
      | Some (Failed err) \<Rightarrow> create_clients cx mev rest
      | Some Pending \<Rightarrow> create_clients cx mev rest)"

definition fallback_clients :: "channel_env \<Rightarrow> infrastructure_config \<Rightarrow> channel list rust" where
  "fallback_clients cx config =
     (case get_swqos_client cx (mev_protection config) (CfgDefault (rpc_url config)) of
        None \<Rightarrow> None
      | Some (Ready c) \<Rightarrow> Some [c]
      | Some _ \<Rightarrow> Some [])"

definition sender_cap :: "nat \<Rightarrow> nat \<Rightarrow> nat" where
  "sender_cap swqos_count num_cores = max (min swqos_count (max (num_cores * 2 div 3) 1)) 1"

definition sender_cores :: "bool \<Rightarrow> nat \<Rightarrow> nat list option \<Rightarrow> nat list" where
  "sender_cores from_end cap cores =
     (case cores of
        None \<Rightarrow> []
      | Some v \<Rightarrow> if from_end \<and> length v \<ge> cap then drop (length v - cap) v else take cap v)"

text \<open>The clients and the cores of \<open>TradingInfrastructure::new\<close>; \<open>cores\<close> is what \<open>core_affinity::get_core_ids\<close> answers.\<close>

definition infrastructure_new :: "channel_env \<Rightarrow> nat list option \<Rightarrow> infrastructure_config \<Rightarrow> infrastructure rust" where
  "infrastructure_new cx cores config =
     (case create_clients cx (mev_protection config) (swqos_configs config) of
        None \<Rightarrow> None
      | Some made \<Rightarrow> (case (if made = [] then fallback_clients cx config else Some made) of
          None \<Rightarrow> None
        | Some clients \<Rightarrow>
            (let cap = sender_cap (length clients) (case cores of Some v \<Rightarrow> length v | None \<Rightarrow> 0)
             in Some \<lparr>infra_clients = clients, infra_config = config, max_sender_concurrency = cap,
                      effective_core_ids = sender_cores (swqos_cores_from_end config) cap cores\<rparr>)))"

definition recommended_sender_thread_core_indices :: "nat list option \<Rightarrow> nat \<Rightarrow> nat list option" where
  "recommended_sender_thread_core_indices cores swqos_count =
     (case cores of
        None \<Rightarrow> None
      | Some all \<Rightarrow>
          if all = [] then None
          else let cap = min (sender_cap swqos_count (length all)) (length all)
               in Some [length all - cap ..< length all])"

text \<open>A client as the executor sees it.\<close>

definition swqos_client_of :: "chain_ext \<Rightarrow> channel_env \<Rightarrow> channel \<Rightarrow> swqos_client rust" where
  "swqos_client_of ext cx c =
     map_option (\<lambda>acc. \<lparr>client_type = ch_type c, client_tip_account = acc, client_swqos_only = ch_swqos_only c\<rparr>) (get_tip_account ext cx c)"

section \<open>Lemmas\<close>

lemmas endpoint_tables = SWQOS_ENDPOINTS_JITO_def
  SWQOS_ENDPOINTS_NEXTBLOCK_def
  SWQOS_ENDPOINTS_ZERO_SLOT_def
  SWQOS_ENDPOINTS_TEMPORAL_def
  SWQOS_ENDPOINTS_BLOX_def
  SWQOS_ENDPOINTS_NODE1_def
  SWQOS_ENDPOINTS_NODE1_QUIC_def
  SWQOS_ENDPOINTS_FLASHBLOCK_def
  SWQOS_ENDPOINTS_BLOCKRAZOR_def
  SWQOS_ENDPOINTS_BLOCKRAZOR_GRPC_def
  SWQOS_ENDPOINTS_ASTRALANE_PLAIN_def
  SWQOS_ENDPOINTS_ASTRALANE_BINARY_def
  SWQOS_ENDPOINTS_ASTRALANE_QUIC_def
  SWQOS_ENDPOINTS_ASTRALANE_QUIC_MEV_def
  SWQOS_ENDPOINTS_STELLIUM_def
  SWQOS_ENDPOINTS_SOYAS_def
  SWQOS_ENDPOINTS_SPEEDLANDING_def
  SWQOS_ENDPOINTS_HELIUS_def

lemmas tip_tables = JITO_TIP_ACCOUNTS_def
  HELIUS_TIP_ACCOUNTS_def
  NEXTBLOCK_TIP_ACCOUNTS_def
  ZEROSLOT_TIP_ACCOUNTS_def
  NOZOMI_TIP_ACCOUNTS_def
  BLOX_TIP_ACCOUNTS_def
  NODE1_TIP_ACCOUNTS_def
  FLASHBLOCK_TIP_ACCOUNTS_def
  BLOCKRAZOR_TIP_ACCOUNTS_def
  ASTRALANE_TIP_ACCOUNTS_def
  STELLIUM_TIP_ACCOUNTS_def
  LIGHTSPEED_TIP_ACCOUNTS_def
  SOYAS_TIP_ACCOUNTS_def
  SPEEDLANDING_TIP_ACCOUNTS_def

lemma region_index_less: "region_index r < 10"
  by (cases r) simp_all

lemma at_region_total: "length table = 10 \<Longrightarrow> \<exists>e. at_region table r = Some e"
  using region_index_less [of r] by (simp add: at_region_def)

lemma tables_length [simp]:
  "length SWQOS_ENDPOINTS_JITO = 10"
  "length SWQOS_ENDPOINTS_NEXTBLOCK = 10"
  "length SWQOS_ENDPOINTS_ZERO_SLOT = 10"
  "length SWQOS_ENDPOINTS_TEMPORAL = 10"
  "length SWQOS_ENDPOINTS_BLOX = 10"
  "length SWQOS_ENDPOINTS_NODE1 = 10"
  "length SWQOS_ENDPOINTS_NODE1_QUIC = 10"
  "length SWQOS_ENDPOINTS_FLASHBLOCK = 10"
  "length SWQOS_ENDPOINTS_BLOCKRAZOR = 10"
  "length SWQOS_ENDPOINTS_BLOCKRAZOR_GRPC = 10"
  "length SWQOS_ENDPOINTS_ASTRALANE_PLAIN = 10"
  "length SWQOS_ENDPOINTS_ASTRALANE_BINARY = 10"
  "length SWQOS_ENDPOINTS_ASTRALANE_QUIC = 10"
  "length SWQOS_ENDPOINTS_ASTRALANE_QUIC_MEV = 10"
  "length SWQOS_ENDPOINTS_STELLIUM = 10"
  "length SWQOS_ENDPOINTS_SOYAS = 10"
  "length SWQOS_ENDPOINTS_SPEEDLANDING = 10"
  "length SWQOS_ENDPOINTS_HELIUS = 10"
  by (simp_all add: endpoint_tables)

lemma endpoint_of_total: "\<exists>e. endpoint_of t r = Some e"
  by (cases t) (simp_all add: at_region_total)

lemma get_endpoint_total: "\<exists>e. get_endpoint t r url = Some e"
  using endpoint_of_total by (cases url) (simp_all add: get_endpoint_def)

lemma get_endpoint_with_transport_total: "\<exists>e. get_endpoint_with_transport t r url tr mev = Some e"
  using get_endpoint_total by (cases url) (simp_all add: get_endpoint_with_transport_def at_region_total)

lemma given_url_total: "length table = 10 \<Longrightarrow> \<exists>e. given_url url (at_region table r) = Some e"
  by (cases url) (simp_all add: given_url_def at_region_total)

text \<open>A construction that does not panic and, when it gives a client, gives one of the kind asked for.\<close>

definition makes :: "swqos_type \<Rightarrow> client_setup rust \<Rightarrow> bool" where
  "makes t x \<longleftrightarrow> (\<exists>y. x = Some y \<and> (\<forall>c. y = Ready c \<longrightarrow> ch_type c = t))"

lemma makes_new: "\<exists>e. endpoint = Some e \<Longrightarrow> makes t (new_client t mev auth endpoint)"
  by (auto simp: new_client_def makes_def)

lemma makes_connect: "\<exists>e. endpoint = Some e \<Longrightarrow> makes t (connect_client cx t mev auth endpoint)"
proof -
  assume "\<exists>e. endpoint = Some e"
  then obtain e where e: "endpoint = Some e" by blast
  show ?thesis by (cases "connect cx t e auth") (simp_all add: connect_client_def makes_def e)
qed

lemmas makes_intro = makes_new makes_connect get_endpoint_total get_endpoint_with_transport_total given_url_total tables_length

lemma get_swqos_client_makes: "makes (swqos_type_of cfg) (get_swqos_client cx mev cfg)"
proof (cases cfg)
  case (CfgAstralane auth r url mode)
  show ?thesis unfolding CfgAstralane by (cases "unwrap_or mode Binary") (auto intro!: makes_intro)
next
  case (CfgHelius key r url only)
  show ?thesis unfolding CfgHelius using get_endpoint_total [of Helius r url] by (auto simp: makes_def)
qed (auto simp: Let_def intro!: makes_intro)

lemma get_swqos_client_default: "\<exists>c. get_swqos_client cx mev (CfgDefault url) = Some (Ready c) \<and> ch_type c = SwqosDefault"
  by (simp add: new_client_def)

lemma create_clients_total:
  "\<exists>cs. create_clients cx mev cfgs = Some cs \<and> subseq (map ch_type cs) (map swqos_type_of cfgs)
     \<and> set (map ch_type cs) \<inter> set SWQOS_BLACKLIST = {}"
proof (induction cfgs)
  case (Cons cfg cfgs)
  obtain cs where cs: "create_clients cx mev cfgs = Some cs" "subseq (map ch_type cs) (map swqos_type_of cfgs)"
    "set (map ch_type cs) \<inter> set SWQOS_BLACKLIST = {}"
    using Cons.IH by blast
  obtain y where y: "get_swqos_client cx mev cfg = Some y" "\<forall>c. y = Ready c \<longrightarrow> ch_type c = swqos_type_of cfg"
    using get_swqos_client_makes [of cfg cx mev] by (auto simp: makes_def)
  show ?case
  proof (cases "is_blacklisted cfg")
    case True
    then show ?thesis using cs by auto
  next
    case False
    then have "swqos_type_of cfg \<notin> set SWQOS_BLACKLIST" by (simp add: is_blacklisted_def)
    then show ?thesis using cs y False by (cases y) auto
  qed
qed simp

lemma sender_cap_bounds: "1 \<le> sender_cap n cores" "0 < n \<Longrightarrow> sender_cap n cores \<le> n" "sender_cap n cores \<le> max 1 (cores * 2 div 3)"
  by (auto simp: sender_cap_def)

lemma sender_cores_length: "length (sender_cores from_end cap cores) \<le> cap"
  by (cases cores) (simp_all add: sender_cores_def)

section \<open>Properties\<close>

text \<open>
  Setting up the infrastructure never panics and always leaves a channel to send on: whatever is configured and
  whichever connections fail, there is at least one client, none of a blacklisted provider, and the clients are the
  configured ones in their order, less those left out, or the plain RPC client alone. The number of concurrent senders is
  at least one, at most the number of clients and at most two thirds of the cores (or one), and no more cores are used.
\<close>

theorem infrastructure_ready:
  "\<exists>infra. infrastructure_new cx cores config = Some infra
    \<and> infra_clients infra \<noteq> [] \<and> ch_type ` set (infra_clients infra) \<inter> set SWQOS_BLACKLIST = {}
    \<and> (subseq (map ch_type (infra_clients infra)) (map swqos_type_of (swqos_configs config))
        \<or> map ch_type (infra_clients infra) = [SwqosDefault])
    \<and> 1 \<le> max_sender_concurrency infra \<and> max_sender_concurrency infra \<le> length (infra_clients infra)
    \<and> max_sender_concurrency infra \<le> max 1 ((case cores of Some v \<Rightarrow> length v | None \<Rightarrow> 0) * 2 div 3)
    \<and> length (effective_core_ids infra) \<le> max_sender_concurrency infra"
proof -
  obtain made where made: "create_clients cx (mev_protection config) (swqos_configs config) = Some made"
    "subseq (map ch_type made) (map swqos_type_of (swqos_configs config))" "ch_type ` set made \<inter> set SWQOS_BLACKLIST = {}"
    using create_clients_total [of cx "mev_protection config" "swqos_configs config"] by auto
  obtain d where d: "get_swqos_client cx (mev_protection config) (CfgDefault (rpc_url config)) = Some (Ready d)" "ch_type d = SwqosDefault"
    using get_swqos_client_default by blast
  define clients where "clients = (if made = [] then [d] else made)"
  have clients: "(if made = [] then fallback_clients cx config else Some made) = Some clients" "clients \<noteq> []"
    using d by (auto simp: clients_def fallback_clients_def)
  have black: "ch_type ` set clients \<inter> set SWQOS_BLACKLIST = {}" using made(3) d(2) by (simp add: clients_def SWQOS_BLACKLIST_def)
  have order: "subseq (map ch_type clients) (map swqos_type_of (swqos_configs config)) \<or> map ch_type clients = [SwqosDefault]"
    using made(2) d(2) by (simp add: clients_def)
  show ?thesis
    using clients black order sender_cap_bounds [of "length clients"] sender_cores_length
    by (simp add: infrastructure_new_def made(1) Let_def)
qed



end
