(* ===== verification/Client.thy ===== *)
theory Client
  imports Executor Channels
begin

text \<open>
  The trading client (\<open>lib.rs\<close>, with the configuration types of \<open>common/types.rs\<close>): its construction and start-up, the
  buy and sell entry points, and the wallet operations that send a plain transaction. The RPC node is the record
  \<open>wallet_rpc\<close>; the swap itself is the executor's. The state is the process-wide caches together with the global
  \<open>INSTANCE\<close> of the client. The fields that steer logging and thread pinning are kept where an operation sets them.
\<close>

section \<open>Requests\<close>

datatype trade_token_type = SOL | WSOL | USD1 | USDC

definition token_type_mint :: "trade_token_type \<Rightarrow> pubkey" where
  "token_type_mint t =
     (if t = SOL then SOL_TOKEN_ACCOUNT else if t = WSOL then WSOL_TOKEN_ACCOUNT
      else if t = USDC then USDC_TOKEN_ACCOUNT else USD1_TOKEN_ACCOUNT)"

fun validate_protocol_params :: "dex_type \<Rightarrow> dex_param_enum \<Rightarrow> bool" where
  "validate_protocol_params PumpFun (DexPumpFun _) = True"
| "validate_protocol_params PumpSwap (DexPumpSwap _) = True"
| "validate_protocol_params Bonk (DexBonk _) = True"
| "validate_protocol_params RaydiumCpmm (DexRaydiumCpmm _) = True"
| "validate_protocol_params RaydiumAmmV4 (DexRaydiumAmmV4 _) = True"
| "validate_protocol_params MeteoraDammV2 (DexMeteoraDammV2 _) = True"
| "validate_protocol_params _ _ = False"

record trade_buy_params =
  b_dex_type :: dex_type
  b_input_token_type :: trade_token_type
  b_mint :: pubkey
  b_input_token_amount :: u64
  b_slippage_basis_points :: "u64 option"
  b_recent_blockhash :: "hash option"
  b_extension_params :: dex_param_enum
  b_address_lookup_table_account :: "lookup_table option"
  b_wait_tx_confirmed :: bool
  b_create_input_token_ata :: bool
  b_close_input_token_ata :: bool
  b_create_mint_ata :: bool
  b_durable_nonce :: "durable_nonce_info option"
  b_fixed_output_token_amount :: "u64 option"
  b_gas_fee_strategy :: gas_table
  b_simulate :: bool
  b_use_exact_sol_amount :: "bool option"

record trade_sell_params =
  s_dex_type :: dex_type
  s_output_token_type :: trade_token_type
  s_mint :: pubkey
  s_input_token_amount :: u64
  s_slippage_basis_points :: "u64 option"
  s_recent_blockhash :: "hash option"
  s_with_tip :: bool
  s_extension_params :: dex_param_enum
  s_address_lookup_table_account :: "lookup_table option"
  s_wait_tx_confirmed :: bool
  s_create_output_token_ata :: bool
  s_close_output_token_ata :: bool
  s_close_mint_token_ata :: bool
  s_durable_nonce :: "durable_nonce_info option"
  s_fixed_output_token_amount :: "u64 option"
  s_gas_fee_strategy :: gas_table
  s_simulate :: bool

section \<open>Configuration\<close>

record trade_config =
  tc_rpc_url :: string
  tc_swqos_configs :: "swqos_config list"
  tc_create_wsol_ata_on_startup :: bool
  tc_use_seed_optimize :: bool
  tc_log_enabled :: bool
  tc_check_min_tip :: bool
  tc_swqos_cores_from_end :: bool
  tc_mev_protection :: bool

text \<open>The builder with its defaults; its setters are the record updates.\<close>

definition trade_config_new :: "string \<Rightarrow> swqos_config list \<Rightarrow> trade_config" where
  "trade_config_new url configs = \<lparr>tc_rpc_url = url, tc_swqos_configs = configs, tc_create_wsol_ata_on_startup = True,
     tc_use_seed_optimize = True, tc_log_enabled = True, tc_check_min_tip = False, tc_swqos_cores_from_end = False,
     tc_mev_protection = False\<rparr>"

definition infrastructure_config_new :: "string \<Rightarrow> swqos_config list \<Rightarrow> infrastructure_config" where
  "infrastructure_config_new url configs = \<lparr>rpc_url = url, swqos_configs = configs, swqos_cores_from_end = False, mev_protection = False\<rparr>"

definition from_trade_config :: "trade_config \<Rightarrow> infrastructure_config" where
  "from_trade_config config = \<lparr>rpc_url = tc_rpc_url config, swqos_configs = tc_swqos_configs config,
     swqos_cores_from_end = tc_swqos_cores_from_end config, mev_protection = tc_mev_protection config\<rparr>"

section \<open>The client\<close>

record trading_client =
  cl_payer :: pubkey
  cl_infrastructure :: infrastructure
  cl_middleware_manager :: "middleware list option"
  cl_use_seed_optimize :: bool
  cl_use_dedicated_sender_threads :: bool
  cl_sender_thread_cores :: "nat list option"
  cl_max_sender_concurrency :: nat
  cl_effective_core_ids :: "nat list"
  cl_log_enabled :: bool
  cl_check_min_tip :: bool

text \<open>
  The wallet's RPC node. The index is the number of the attempt, so that the answers of the retry loop may differ; the
  other operations ask once, with index 0. \<open>rent_answers\<close> and \<open>balance_answer\<close> are \<open>None\<close> on a timeout.
\<close>

datatype send_outcome = Confirmed nat | SendError string | SendTimeout

record wallet_rpc =
  latest_blockhash :: "nat \<Rightarrow> string + hash"
  send_and_confirm :: "nat \<Rightarrow> transaction \<Rightarrow> send_outcome"
  account_exists :: "nat \<Rightarrow> pubkey \<Rightarrow> bool"
  rent_answers :: "((string + u64) \<times> (string + u64)) option"
  balance_answer :: "(string + u64) option"

definition legacy_transaction :: "tx_ext \<Rightarrow> pubkey \<Rightarrow> instruction list \<Rightarrow> hash \<Rightarrow> transaction" where
  "legacy_transaction tex payer ixs blockhash =
     (let m = \<lparr>msg_version = Legacy, msg_payer = payer, msg_instructions = ixs, msg_blockhash = blockhash\<rparr>
      in \<lparr>tx_signatures = [sign tex m], tx_message = m\<rparr>)"

section \<open>Start-up\<close>

definition try_create_wsol_ata_once ::
  "tx_ext \<Rightarrow> wallet_rpc \<Rightarrow> pubkey \<Rightarrow> pubkey \<Rightarrow> instruction list \<Rightarrow> nat \<Rightarrow> string option" where
  "try_create_wsol_ata_once tex rpc payer wsol_ata create_ata_ixs attempt =
     (case latest_blockhash rpc attempt of
        Inl e \<Rightarrow> Some (''Failed to get blockhash: '' @ e)
      | Inr blockhash \<Rightarrow>
          (case send_and_confirm rpc attempt (legacy_transaction tex payer create_ata_ixs blockhash) of
             Confirmed _ \<Rightarrow> None
           | SendError e \<Rightarrow> if account_exists rpc attempt wsol_ata then None else Some e
           | SendTimeout \<Rightarrow> Some ''Transaction confirmation timeout (10s)''))"

fun create_attempts ::
  "tx_ext \<Rightarrow> wallet_rpc \<Rightarrow> pubkey \<Rightarrow> pubkey \<Rightarrow> instruction list \<Rightarrow> nat list \<Rightarrow> string option \<Rightarrow> string option" where
  "create_attempts tex rpc payer wsol_ata ixs [] last_err = last_err"
| "create_attempts tex rpc payer wsol_ata ixs (attempt # rest) last_err =
     (case try_create_wsol_ata_once tex rpc payer wsol_ata ixs attempt of
        None \<Rightarrow> None
      | Some e \<Rightarrow> create_attempts tex rpc payer wsol_ata ixs rest (Some e))"

definition ensure_wsol_ata :: "chain_ext \<Rightarrow> tx_ext \<Rightarrow> wallet_rpc \<Rightarrow> pubkey \<Rightarrow> (caches, unit) prog" where
  "ensure_wsol_ata ext tex rpc payer =
     then_do (get_associated_token_address_with_program_id_fast ext payer WSOL_TOKEN_ACCOUNT TOKEN_PROGRAM) (\<lambda>wsol_ata.
     if account_exists rpc 0 wsol_ata then ret ()
     else
       then_do (create_wsol_ata ext payer) (\<lambda>create_ata_ixs.
       if create_ata_ixs = [] then ret ()
       else case create_attempts tex rpc payer wsol_ata create_ata_ixs [1, 2, 3] None of
         None \<Rightarrow> ret ()
       | Some err \<Rightarrow> panic))"

text \<open>The rents of \<open>TradingInfrastructure::new\<close>: a failed or late update falls back to the defaults.\<close>

definition init_rents :: "wallet_rpc \<Rightarrow> (caches, unit) prog" where
  "init_rents rpc s =
     (case rent_answers rpc of
        None \<Rightarrow> set_default_rents s
      | Some (rent1, rent2) \<Rightarrow> (case update_rents rent1 rent2 s of
          (Ok _, s') \<Rightarrow> (Ok (), s')
        | (_, s') \<Rightarrow> set_default_rents s'))"

definition MIN_SOL_FOR_WSOL_ATA_LAMPORTS :: u64 where
  "MIN_SOL_FOR_WSOL_ATA_LAMPORTS = 500000"

definition startup_balance :: "wallet_rpc \<Rightarrow> u64" where
  "startup_balance rpc = (case balance_answer rpc of Some (Inr b) \<Rightarrow> b | _ \<Rightarrow> 0)"

definition client_of_infrastructure :: "pubkey \<Rightarrow> infrastructure \<Rightarrow> bool \<Rightarrow> bool \<Rightarrow> bool \<Rightarrow> trading_client" where
  "client_of_infrastructure payer infra use_seed_optimize log_enabled check_min_tip =
     \<lparr>cl_payer = payer, cl_infrastructure = infra, cl_middleware_manager = None, cl_use_seed_optimize = use_seed_optimize,
      cl_use_dedicated_sender_threads = False, cl_sender_thread_cores = None,
      cl_max_sender_concurrency = max_sender_concurrency infra, cl_effective_core_ids = effective_core_ids infra,
      cl_log_enabled = log_enabled, cl_check_min_tip = check_min_tip\<rparr>"

definition from_infrastructure :: "chain_ext \<Rightarrow> pubkey \<Rightarrow> infrastructure \<Rightarrow> bool \<Rightarrow> (caches, trading_client) prog" where
  "from_infrastructure ext payer infra use_seed_optimize =
     then_do (fast_init ext payer) (\<lambda>_. ret (client_of_infrastructure payer infra use_seed_optimize True False))"

text \<open>The same with the wrapped-SOL account made by a background task: the second component says whether the task was started.\<close>

definition from_infrastructure_with_wsol_setup ::
  "chain_ext \<Rightarrow> pubkey \<Rightarrow> infrastructure \<Rightarrow> bool \<Rightarrow> bool \<Rightarrow> (caches, trading_client \<times> bool) prog" where
  "from_infrastructure_with_wsol_setup ext payer infra use_seed_optimize wanted =
     then_do (fast_init ext payer) (\<lambda>_. ret (client_of_infrastructure payer infra use_seed_optimize True False, wanted))"

type_synonym sdk_state = "caches \<times> trading_client option"

definition on_caches :: "(caches, 'a) prog \<Rightarrow> (sdk_state, 'a) prog" where
  "on_caches m = (\<lambda>(s, inst). case m s of (r, s') \<Rightarrow> (r, (s', inst)))"

definition set_instance :: "trading_client \<Rightarrow> (sdk_state, unit) prog" where
  "set_instance c = (\<lambda>(s, inst). (Ok (), (s, Some c)))"

definition get_instance :: "(sdk_state, trading_client) prog" where
  "get_instance = (\<lambda>(s, inst). case inst of None \<Rightarrow> (Panic, (s, inst)) | Some c \<Rightarrow> (Ok c, (s, inst)))"

definition startup :: "chain_ext \<Rightarrow> channel_env \<Rightarrow> tx_ext \<Rightarrow> wallet_rpc \<Rightarrow> nat list option \<Rightarrow> pubkey \<Rightarrow> trade_config
     \<Rightarrow> (caches, trading_client) prog" where
  "startup ext cx tex rpc cores payer config =
     then_do (init_rents rpc) (\<lambda>_.
     then_do (of_rust (infrastructure_new cx cores (from_trade_config config))) (\<lambda>infra.
     then_do (fast_init ext payer) (\<lambda>_.
     then_do (if tc_create_wsol_ata_on_startup config \<and> startup_balance rpc \<ge> MIN_SOL_FOR_WSOL_ATA_LAMPORTS
              then ensure_wsol_ata ext tex rpc payer else ret ()) (\<lambda>_.
     ret (client_of_infrastructure payer infra (tc_use_seed_optimize config) (tc_log_enabled config) (tc_check_min_tip config))))))"

definition client_new :: "chain_ext \<Rightarrow> channel_env \<Rightarrow> tx_ext \<Rightarrow> wallet_rpc \<Rightarrow> nat list option \<Rightarrow> pubkey \<Rightarrow> trade_config
     \<Rightarrow> (sdk_state, trading_client) prog" where
  "client_new ext cx tex rpc cores payer config =
     then_do (on_caches (startup ext cx tex rpc cores payer config)) (\<lambda>instance.
     then_do (set_instance instance) (\<lambda>_. ret instance))"

definition with_middleware_manager :: "trading_client \<Rightarrow> middleware list \<Rightarrow> trading_client" where
  "with_middleware_manager self ms = self\<lparr>cl_middleware_manager := Some ms\<rparr>"

definition with_dedicated_sender_threads :: "trading_client \<Rightarrow> nat list option \<Rightarrow> trading_client" where
  "with_dedicated_sender_threads self core_indices =
     (case core_indices of
        None \<Rightarrow> self\<lparr>cl_use_dedicated_sender_threads := False, cl_sender_thread_cores := None\<rparr>
      | Some v \<Rightarrow>
          if v = [] then self\<lparr>cl_use_dedicated_sender_threads := True, cl_sender_thread_cores := None\<rparr>
          else let cap = min (length v) (cl_max_sender_concurrency self)
               in self\<lparr>cl_use_dedicated_sender_threads := True,
                       cl_sender_thread_cores := Some (if cap < length v then take cap v else v)\<rparr>)"

section \<open>Trading\<close>

text \<open>\<open>TradeError::from\<close>.\<close>

fun trade_error_from :: "any_error \<Rightarrow> any_error" where
  "trade_error_from (TradeError code msg ix) = TradeError code msg ix"
| "trade_error_from (OtherError msg) = TradeError 500 msg None"

definition buy_swap_params :: "trading_client \<Rightarrow> swqos_client list \<Rightarrow> trade_buy_params \<Rightarrow> swap_params" where
  "buy_swap_params self clients params =
     \<lparr>sp_payer = cl_payer self, sp_trade_type = Buy, sp_input_mint = token_type_mint (b_input_token_type params),
      sp_input_token_program = None, sp_output_mint = b_mint params, sp_output_token_program = None,
      sp_input_amount = Some (b_input_token_amount params), sp_slippage_basis_points = b_slippage_basis_points params,
      sp_address_lookup_table_account = b_address_lookup_table_account params, sp_recent_blockhash = b_recent_blockhash params,
      sp_wait_tx_confirmed = b_wait_tx_confirmed params, sp_protocol_params = b_extension_params params,
      sp_open_seed_optimize = cl_use_seed_optimize self, sp_swqos_clients = clients,
      sp_middleware_manager = cl_middleware_manager self, sp_durable_nonce = b_durable_nonce params, sp_with_tip = True,
      sp_create_input_mint_ata = b_create_input_token_ata params, sp_close_input_mint_ata = b_close_input_token_ata params,
      sp_create_output_mint_ata = b_create_mint_ata params, sp_close_output_mint_ata = False,
      sp_fixed_output_amount = b_fixed_output_token_amount params, sp_gas_fee_strategy = b_gas_fee_strategy params,
      sp_simulate = b_simulate params, sp_check_min_tip = cl_check_min_tip self,
      sp_use_exact_sol_amount = b_use_exact_sol_amount params\<rparr>"

definition sell_swap_params :: "trading_client \<Rightarrow> swqos_client list \<Rightarrow> trade_sell_params \<Rightarrow> swap_params" where
  "sell_swap_params self clients params =
     \<lparr>sp_payer = cl_payer self, sp_trade_type = Sell, sp_input_mint = s_mint params, sp_input_token_program = None,
      sp_output_mint = token_type_mint (s_output_token_type params), sp_output_token_program = None,
      sp_input_amount = Some (s_input_token_amount params), sp_slippage_basis_points = s_slippage_basis_points params,
      sp_address_lookup_table_account = s_address_lookup_table_account params, sp_recent_blockhash = s_recent_blockhash params,
      sp_wait_tx_confirmed = s_wait_tx_confirmed params, sp_protocol_params = s_extension_params params,
      sp_open_seed_optimize = cl_use_seed_optimize self, sp_swqos_clients = clients,
      sp_middleware_manager = cl_middleware_manager self, sp_durable_nonce = s_durable_nonce params, sp_with_tip = s_with_tip params,
      sp_create_input_mint_ata = False, sp_close_input_mint_ata = s_close_mint_token_ata params,
      sp_create_output_mint_ata = s_create_output_token_ata params, sp_close_output_mint_ata = s_close_output_token_ata params,
      sp_fixed_output_amount = s_fixed_output_token_amount params, sp_gas_fee_strategy = s_gas_fee_strategy params,
      sp_simulate = s_simulate params, sp_check_min_tip = cl_check_min_tip self, sp_use_exact_sol_amount = None\<rparr>"

text \<open>
  The channels as the executor sees them, with this call's draw of their tip accounts; no draw panics
  (\<open>tip_goes_to_provider\<close>), so drawing before the swap instead of at each push is the same.
\<close>

definition client_channels :: "chain_ext \<Rightarrow> channel_env \<Rightarrow> trading_client \<Rightarrow> swqos_client list rust" where
  "client_channels ext cx self = those (map (swqos_client_of ext cx) (infra_clients (cl_infrastructure self)))"

definition convert_error :: "(batch_answer outcome \<times> caches) option \<Rightarrow> (batch_answer outcome \<times> caches) option" where
  "convert_error r =
     (case r of
        Some (Ok (ok, sigs, err, ts), s) \<Rightarrow> Some (Ok (ok, sigs, map_option trade_error_from err, ts), s)
      | other \<Rightarrow> other)"

definition buy :: "chain_ext \<Rightarrow> channel_env \<Rightarrow> tx_ext \<Rightarrow> profile \<Rightarrow> net \<Rightarrow> swqos_type list \<Rightarrow> trading_client \<Rightarrow> trade_buy_params
     \<Rightarrow> caches \<Rightarrow> (batch_answer outcome \<times> caches) option" where
  "buy ext cx tex p w order self params s =
     (if b_recent_blockhash params = None \<and> b_durable_nonce params = None
      then Some (Err ''Must provide either recent_blockhash or durable_nonce for buy (required for transaction validity)'', s)
      else if b_input_token_type params = USD1 \<and> b_dex_type params \<noteq> Bonk
      then Some (Err '' Current version only supports USD1 trading on Bonk protocols'', s)
      else if \<not> validate_protocol_params (b_dex_type params) (b_extension_params params)
      then Some (Err ''Invalid protocol params for Trade'', s)
      else case client_channels ext cx self of
        None \<Rightarrow> Some (Panic, s)
      | Some clients \<Rightarrow>
          convert_error (swap ext tex w order (create_executor ext p (b_dex_type params)) (buy_swap_params self clients params) s))"

definition sell :: "chain_ext \<Rightarrow> channel_env \<Rightarrow> tx_ext \<Rightarrow> profile \<Rightarrow> net \<Rightarrow> swqos_type list \<Rightarrow> trading_client \<Rightarrow> trade_sell_params
     \<Rightarrow> caches \<Rightarrow> (batch_answer outcome \<times> caches) option" where
  "sell ext cx tex p w order self params s =
     (if s_recent_blockhash params = None \<and> s_durable_nonce params = None
      then Some (Err ''Must provide either recent_blockhash or durable_nonce for sell (required for transaction validity)'', s)
      else if s_output_token_type params = USD1 \<and> s_dex_type params \<noteq> Bonk
      then Some (Err '' Current version only supports USD1 trading on Bonk protocols'', s)
      else if \<not> validate_protocol_params (s_dex_type params) (s_extension_params params)
      then Some (Err ''Invalid protocol params for Trade'', s)
      else case client_channels ext cx self of
        None \<Rightarrow> Some (Panic, s)
      | Some clients \<Rightarrow>
          convert_error (swap ext tex w order (create_executor ext p (s_dex_type params)) (sell_swap_params self clients params) s))"

definition percent_amount :: "profile \<Rightarrow> u64 \<Rightarrow> u64 \<Rightarrow> u64 rust" where
  "percent_amount p amount_token percent = (case mul_w p amount_token percent of None \<Rightarrow> None | Some x \<Rightarrow> div_w x 100)"

definition sell_by_percent :: "chain_ext \<Rightarrow> channel_env \<Rightarrow> tx_ext \<Rightarrow> profile \<Rightarrow> net \<Rightarrow> swqos_type list \<Rightarrow> trading_client \<Rightarrow> trade_sell_params
     \<Rightarrow> u64 \<Rightarrow> u64 \<Rightarrow> caches \<Rightarrow> (batch_answer outcome \<times> caches) option" where
  "sell_by_percent ext cx tex p w order self params amount_token percent s =
     (if percent = 0 \<or> percent > 100 then Some (Err ''Percentage must be between 1 and 100'', s)
      else case percent_amount p amount_token percent of
        None \<Rightarrow> Some (Panic, s)
      | Some amount \<Rightarrow> sell ext cx tex p w order self (params\<lparr>s_input_token_amount := amount\<rparr>) s)"

section \<open>Wallet operations\<close>

definition sign_and_send :: "tx_ext \<Rightarrow> wallet_rpc \<Rightarrow> pubkey \<Rightarrow> instruction list \<Rightarrow> hash \<Rightarrow> (caches, nat) prog" where
  "sign_and_send tex rpc payer ixs blockhash =
     (case send_and_confirm rpc 0 (legacy_transaction tex payer ixs blockhash) of
        Confirmed sig \<Rightarrow> ret sig
      | SendError e \<Rightarrow> fail e
      | SendTimeout \<Rightarrow> fail ''unable to confirm transaction'')"

definition wrap_sol_to_wsol :: "chain_ext \<Rightarrow> tx_ext \<Rightarrow> wallet_rpc \<Rightarrow> trading_client \<Rightarrow> u64 \<Rightarrow> (caches, nat) prog" where
  "wrap_sol_to_wsol ext tex rpc self amount =
     then_do (of_result (latest_blockhash rpc 0)) (\<lambda>recent_blockhash.
     then_do (handle_wsol ext (cl_payer self) amount) (\<lambda>instructions.
     sign_and_send tex rpc (cl_payer self) instructions recent_blockhash))"

definition client_close_wsol :: "chain_ext \<Rightarrow> tx_ext \<Rightarrow> wallet_rpc \<Rightarrow> trading_client \<Rightarrow> (caches, nat) prog" where
  "client_close_wsol ext tex rpc self =
     then_do (of_result (latest_blockhash rpc 0)) (\<lambda>recent_blockhash.
     then_do (close_wsol ext (cl_payer self)) (\<lambda>instructions.
     sign_and_send tex rpc (cl_payer self) instructions recent_blockhash))"

definition client_create_wsol_ata :: "chain_ext \<Rightarrow> tx_ext \<Rightarrow> wallet_rpc \<Rightarrow> trading_client \<Rightarrow> (caches, nat) prog" where
  "client_create_wsol_ata ext tex rpc self =
     then_do (of_result (latest_blockhash rpc 0)) (\<lambda>recent_blockhash.
     then_do (create_wsol_ata ext (cl_payer self)) (\<lambda>instructions.
     if instructions = [] then fail ''wSOL ATA already exists or no instructions needed''
     else sign_and_send tex rpc (cl_payer self) instructions recent_blockhash))"

definition client_wrap_wsol_to_sol :: "chain_ext \<Rightarrow> tx_ext \<Rightarrow> wallet_rpc \<Rightarrow> trading_client \<Rightarrow> u64 \<Rightarrow> (caches, nat) prog" where
  "client_wrap_wsol_to_sol ext tex rpc self amount =
     then_do (of_result (get_associated_token_address_with_program_id_use_seed ext (cl_payer self) WSOL_TOKEN_ACCOUNT TOKEN_PROGRAM))
       (\<lambda>seed_ata_address.
     then_do (if account_exists rpc 0 seed_ata_address then wrap_wsol_to_sol_without_create ext (cl_payer self) amount
              else wrap_wsol_to_sol ext (cl_payer self) amount) (\<lambda>instructions.
     then_do (of_result (latest_blockhash rpc 0)) (\<lambda>recent_blockhash.
     sign_and_send tex rpc (cl_payer self) instructions recent_blockhash)))"

definition claim_cashback_pumpfun :: "chain_ext \<Rightarrow> tx_ext \<Rightarrow> wallet_rpc \<Rightarrow> trading_client \<Rightarrow> (caches, nat) prog" where
  "claim_cashback_pumpfun ext tex rpc self =
     then_do (claim_cashback_pumpfun_instruction ext (cl_payer self)) (\<lambda>made.
     then_do (ok_or ''Failed to build PumpFun claim_cashback instruction'' made) (\<lambda>ix.
     then_do (of_result (latest_blockhash rpc 0)) (\<lambda>recent_blockhash.
     sign_and_send tex rpc (cl_payer self) [ix] recent_blockhash)))"

definition claim_cashback_pumpswap :: "chain_ext \<Rightarrow> tx_ext \<Rightarrow> wallet_rpc \<Rightarrow> trading_client \<Rightarrow> (caches, nat) prog" where
  "claim_cashback_pumpswap ext tex rpc self =
     then_do (create_associated_token_account_idempotent_fast_use_seed ext (cl_payer self) (cl_payer self) WSOL_TOKEN_ACCOUNT
                TOKEN_PROGRAM (cl_use_seed_optimize self)) (\<lambda>instructions.
     then_do (claim_cashback_pumpswap_instruction ext (cl_payer self) WSOL_TOKEN_ACCOUNT TOKEN_PROGRAM) (\<lambda>made.
     then_do (ok_or ''Failed to build PumpSwap claim_cashback instruction'' made) (\<lambda>ix.
     then_do (of_result (latest_blockhash rpc 0)) (\<lambda>recent_blockhash.
     sign_and_send tex rpc (cl_payer self) (instructions @ [ix]) recent_blockhash))))"

section \<open>Lemmas\<close>

lemma create_attempts_None:
  "create_attempts tex rpc payer ata ixs as l = None \<longleftrightarrow>
     (\<exists>a \<in> set as. try_create_wsol_ata_once tex rpc payer ata ixs a = None) \<or> (as = [] \<and> l = None)"
  by (induction as arbitrary: l) (auto split: option.splits)

text \<open>The outcome of the start-up's only transaction: three attempts, then a panic.\<close>

definition wsol_attempt_fails :: "chain_ext \<Rightarrow> tx_ext \<Rightarrow> wallet_rpc \<Rightarrow> pubkey \<Rightarrow> nat \<Rightarrow> bool" where
  "wsol_attempt_fails ext tex rpc payer attempt \<longleftrightarrow>
     try_create_wsol_ata_once tex rpc payer (wsol_of ext payer) [create_ata_ix ext payer] attempt \<noteq> None"

definition wsol_setup_fails :: "chain_ext \<Rightarrow> tx_ext \<Rightarrow> wallet_rpc \<Rightarrow> pubkey \<Rightarrow> bool" where
  "wsol_setup_fails ext tex rpc payer \<longleftrightarrow> \<not> account_exists rpc 0 (wsol_of ext payer)
     \<and> wsol_attempt_fails ext tex rpc payer 1 \<and> wsol_attempt_fails ext tex rpc payer 2 \<and> wsol_attempt_fails ext tex rpc payer 3"

lemma ensure_wsol_ata_yields:
  "yields (coherent ext r1 r2) (ensure_wsol_ata ext tex rpc payer) (if wsol_setup_fails ext tex rpc payer then Panic else Ok ())"
proof -
  let ?run = "create_attempts tex rpc payer (wsol_of ext payer) [create_ata_ix ext payer] [1, 2, 3] None"
  have run: "?run = None \<longleftrightarrow> \<not> (wsol_attempt_fails ext tex rpc payer 1 \<and> wsol_attempt_fails ext tex rpc payer 2 \<and> wsol_attempt_fails ext tex rpc payer 3)"
    unfolding create_attempts_None by (simp add: wsol_attempt_fails_def)
  have "yields (coherent ext r1 r2)
      (if account_exists rpc 0 (wsol_of ext payer) then ret ()
       else then_do (create_wsol_ata ext payer) (\<lambda>ixs. if ixs = [] then ret ()
         else case create_attempts tex rpc payer (wsol_of ext payer) ixs [1, 2, 3] None of None \<Rightarrow> ret () | Some err \<Rightarrow> panic))
      (if wsol_setup_fails ext tex rpc payer then Panic else Ok ())"
  proof (cases "account_exists rpc 0 (wsol_of ext payer)")
    case False
    then have iff: "wsol_setup_fails ext tex rpc payer \<longleftrightarrow> ?run \<noteq> None" using run by (auto simp: wsol_setup_fails_def simp del: create_attempts.simps)
    have "yields (coherent ext r1 r2) (case ?run of None \<Rightarrow> ret () | Some err \<Rightarrow> panic) (if ?run \<noteq> None then Panic else Ok ())"
      by (cases ?run) (simp_all add: yields_def)
    then show ?thesis unfolding iff using False
      by (auto intro!: yields_then [OF create_wsol_ata_yields] simp del: create_attempts.simps)
  qed (simp add: yields_def wsol_setup_fails_def)
  then show ?thesis unfolding ensure_wsol_ata_def by (rule yields_then [OF ata_plain_yields])
qed

lemma fast_init_yields: "yields (coherent ext r1 r2) (fast_init ext payer) (Ok ())"
  unfolding fast_init_def pda_getters
  by (rule yields_then [OF cached_pda_yields], rule yields_then [OF cached_pda_yields], rule yields_then [OF ata_plain_yields],
      rule yields_then [OF close_wsol_yields]) (simp add: yields_def)

lemma init_rents_fresh: "\<exists>r1 r2 s. init_rents rpc caches_init = (Ok (), s) \<and> coherent ext r1 r2 s"
proof -
  have d: "\<exists>r1 r2. coherent ext r1 r2 (caches_init\<lparr>spl_token_rent := a, spl_token_2022_rent := b\<rparr>)" for a b
    using coherent_rents by blast
  show ?thesis
    using d [of DEFAULT_TOKEN_ACCOUNT_RENT DEFAULT_TOKEN_ACCOUNT_RENT] d
    by (auto simp: init_rents_def set_default_rents_def update_rents_def then_do_run of_result_def split: option.split sum.split)
qed

definition startup_panics :: "chain_ext \<Rightarrow> tx_ext \<Rightarrow> wallet_rpc \<Rightarrow> pubkey \<Rightarrow> trade_config \<Rightarrow> bool" where
  "startup_panics ext tex rpc payer config \<longleftrightarrow>
     tc_create_wsol_ata_on_startup config \<and> startup_balance rpc \<ge> MIN_SOL_FOR_WSOL_ATA_LAMPORTS \<and> wsol_setup_fails ext tex rpc payer"

lemma startup_result:
  assumes "infrastructure_new cx cores (from_trade_config config) = Some infra"
  shows "fst (startup ext cx tex rpc cores payer config caches_init) =
    (if startup_panics ext tex rpc payer config then Panic
     else Ok (client_of_infrastructure payer infra (tc_use_seed_optimize config) (tc_log_enabled config) (tc_check_min_tip config)))"
proof -
  obtain r1 r2 s where s: "init_rents rpc caches_init = (Ok (), s)" "coherent ext r1 r2 s" using init_rents_fresh by blast
  let ?c = "client_of_infrastructure payer infra (tc_use_seed_optimize config) (tc_log_enabled config) (tc_check_min_tip config)"
  let ?m = "if tc_create_wsol_ata_on_startup config \<and> startup_balance rpc \<ge> MIN_SOL_FOR_WSOL_ATA_LAMPORTS then ensure_wsol_ata ext tex rpc payer else ret ()"
  have m: "yields (coherent ext r1 r2) ?m (if startup_panics ext tex rpc payer config then Panic else Ok ())"
    using ensure_wsol_ata_yields [of ext r1 r2 tex rpc payer] by (auto simp: startup_panics_def yields_def)
  have "yields (coherent ext r1 r2) (then_do ?m (\<lambda>_. ret ?c)) (if startup_panics ext tex rpc payer config then Panic else Ok ?c)"
  proof (cases "startup_panics ext tex rpc payer config")
    case True
    with m have "yields (coherent ext r1 r2) ?m Panic" by (simp only: if_True)
    from yields_then_panic [OF this] True show ?thesis by (simp only: if_True)
  next
    case False
    with m have "yields (coherent ext r1 r2) ?m (Ok ())" by (simp only: if_False)
    from yields_then [OF this yields_basic(1)] False show ?thesis by (simp only: if_False)
  qed
  then have "yields (coherent ext r1 r2) (then_do (fast_init ext payer) (\<lambda>_. then_do ?m (\<lambda>_. ret ?c)))
      (if startup_panics ext tex rpc payer config then Panic else Ok ?c)"
    by (rule yields_then [OF fast_init_yields])
  then show ?thesis using s assms by (simp add: startup_def then_do_run yields_def)
qed

lemma on_caches_run: "on_caches m (s, inst) = (fst (m s), (snd (m s), inst))"
  by (simp add: on_caches_def case_prod_beta)

lemma infrastructure_new_some: "\<exists>infra. infrastructure_new cx cores config = Some infra \<and> infra_clients infra \<noteq> []"
proof -
  obtain made where made: "create_clients cx (mev_protection config) (swqos_configs config) = Some made"
    using create_clients_total by blast
  obtain d where d: "get_swqos_client cx (mev_protection config) (CfgDefault (rpc_url config)) = Some (Ready d)"
    using get_swqos_client_default by blast
  show ?thesis by (simp add: infrastructure_new_def made fallback_clients_def d Let_def del: get_swqos_client.simps)
qed

text \<open>The percentage of a sale, with the product that may overflow.\<close>

lemma percent_amount_exact:
  assumes "unat a * unat q < 2 ^ 64"
  shows "percent_amount p a q = Some (a * q div 100) \<and> unat (a * q div 100) = unat a * unat q div 100"
proof -
  have "mul_w p a q = Some (a * q)" using assms by (simp add: mul_w_ok)
  moreover have "unat (a * q) = unat a * unat q" using assms by (simp add: unat_word_ariths)
  ultimately show ?thesis by (simp add: percent_amount_def div_w_def unat_div)
qed

lemma percent_amount_overflow: "2 ^ 64 \<le> unat a * unat q \<Longrightarrow> percent_amount Checked a q = None"
  by (simp add: percent_amount_def mul_w_def)

section \<open>Properties\<close>


text \<open>
  The minimum balance is below the rent of the account it guards: a wallet of a million lamports passes the check, the
  node refuses the creation each time, and the start-up panics instead of skipping the account.
\<close>

definition poor_wallet :: wallet_rpc where
  "poor_wallet = \<lparr>latest_blockhash = (\<lambda>n. Inr 3), send_and_confirm = (\<lambda>n tx. SendError ''insufficient funds for rent''),
     account_exists = (\<lambda>n k. False), rent_answers = Some (Inr DEFAULT_TOKEN_ACCOUNT_RENT, Inr DEFAULT_TOKEN_ACCOUNT_RENT),
     balance_answer = Some (Inr 1000000)\<rparr>"

lemma startup_below_rent_panics:
  "startup_balance poor_wallet < DEFAULT_TOKEN_ACCOUNT_RENT
   \<and> fst (startup ext cx tex poor_wallet cores payer (trade_config_new url configs) caches_init) = Panic"
proof -
  obtain infra where infra: "infrastructure_new cx cores (from_trade_config (trade_config_new url configs)) = Some infra"
    using infrastructure_new_some by blast
  have "startup_panics ext tex poor_wallet payer (trade_config_new url configs)"
    by (simp add: startup_panics_def trade_config_new_def startup_balance_def poor_wallet_def MIN_SOL_FOR_WSOL_ATA_LAMPORTS_def
        wsol_setup_fails_def wsol_attempt_fails_def try_create_wsol_ata_once_def)
  then show ?thesis
    using startup_result [OF infra] by (simp add: startup_balance_def poor_wallet_def DEFAULT_TOKEN_ACCOUNT_RENT_def)
qed

text \<open>
  Selling a percentage. Between one and a hundred per cent of a balance whose hundredfold fits in 64 bits, the
  amount sold is the exact share rounded down, so never more than the balance; when the product does not fit, a build
  with overflow checks panics before anything is sent.
\<close>

theorem sell_by_percent_amount:
  assumes "1 \<le> percent" and "percent \<le> 100"
  shows "if unat amount * unat percent < 2 ^ 64
    then \<exists>a. sell_by_percent ext cx tex p w order self params amount percent s
             = sell ext cx tex p w order self (params\<lparr>s_input_token_amount := a\<rparr>) s
           \<and> unat a = unat amount * unat percent div 100 \<and> a \<le> amount
    else sell_by_percent ext cx tex Checked w order self params amount percent s = Some (Panic, s)"
proof (cases "unat amount * unat percent < 2 ^ 64")
  case True
  note ex = percent_amount_exact [OF True, of p]
  have "unat percent \<le> 100" using assms(2) by (simp add: word_le_nat_alt)
  then have "unat amount * unat percent div 100 \<le> unat amount"
    by (metis div_le_mono mult_le_mono2 nonzero_mult_div_cancel_right zero_neq_numeral)
  then have "amount * percent div 100 \<le> amount" using ex by (simp add: word_le_nat_alt)
  then show ?thesis using True assms ex by (auto simp: sell_by_percent_def)
next
  case False
  then show ?thesis using assms percent_amount_overflow [of amount percent] by (auto simp: sell_by_percent_def)
qed

definition sample_env :: channel_env where
  "sample_env = \<lparr>sha256_hex = (\<lambda>s. s), connect = (\<lambda>t e a. Connected)\<rparr>"

definition sample_trader :: trading_client where
  "sample_trader = client_of_infrastructure 7
     \<lparr>infra_clients = [\<lparr>ch_type = SwqosDefault, ch_endpoint = ''http://rpc'', ch_auth_token = [], ch_mev_protection = False, ch_swqos_only = False\<rparr>],
      infra_config = infrastructure_config_new ''http://rpc'' [], max_sender_concurrency = 1, effective_core_ids = []\<rparr> False True False"

definition sample_buy :: trade_buy_params where
  "sample_buy = \<lparr>b_dex_type = MeteoraDammV2, b_input_token_type = WSOL, b_mint = 9, b_input_token_amount = 1000,
     b_slippage_basis_points = Some 500, b_recent_blockhash = Some 3, b_extension_params = DexMeteoraDammV2 sample_damm,
     b_address_lookup_table_account = None, b_wait_tx_confirmed = False, b_create_input_token_ata = False,
     b_close_input_token_ata = False, b_create_mint_ata = False, b_durable_nonce = None,
     b_fixed_output_token_amount = Some 2000, b_gas_fee_strategy = sample_gas, b_simulate = False, b_use_exact_sol_amount = None\<rparr>"

definition sample_sell :: trade_sell_params where
  "sample_sell = \<lparr>s_dex_type = MeteoraDammV2, s_output_token_type = WSOL, s_mint = 9, s_input_token_amount = 0,
     s_slippage_basis_points = Some 500, s_recent_blockhash = Some 3, s_with_tip = False,
     s_extension_params = DexMeteoraDammV2 sample_damm, s_address_lookup_table_account = None, s_wait_tx_confirmed = False,
     s_create_output_token_ata = False, s_close_output_token_ata = False, s_close_mint_token_ata = False,
     s_durable_nonce = None, s_fixed_output_token_amount = Some 2000, s_gas_fee_strategy = sample_gas, s_simulate = False\<rparr>"

theorem sell_by_percent_amount_witness:
  "\<exists>a. sell_by_percent sample_ext sample_env sample_tx_ext Checked sample_net [SwqosDefault] sample_trader sample_sell 1000 33 sample_caches
      = sell sample_ext sample_env sample_tx_ext Checked sample_net [SwqosDefault] sample_trader (sample_sell\<lparr>s_input_token_amount := a\<rparr>) sample_caches
     \<and> unat a = 330 \<and> a \<le> 1000"
  using sell_by_percent_amount [of 33 1000 sample_ext sample_env sample_tx_ext Checked sample_net "[SwqosDefault]" sample_trader sample_sell sample_caches]
  by simp



end
