(* ===== verification/PoolLookup.thy ===== *)
theory PoolLookup
  imports Params
begin

text \<open>
  Finding a PumpSwap pool on chain (\<open>instruction/utils/pumpswap.rs\<close>, \<open>instruction/utils/pumpswap_types.rs\<close>) and turning
  it into swap parameters (the RPC constructors of \<open>PumpSwapParams\<close> in \<open>trading/core/params.rs\<close>). The account bytes are
  decoded as Borsh decodes the struct, field by field. The RPC node is the record \<open>pool_rpc\<close>; what is relied on of
  \<open>getProgramAccounts\<close> is the documented meaning of its two filters, \<open>filters_hold\<close>.
\<close>

section \<open>The pool account\<close>

record pool =
  po_pool_bump :: u8
  po_index :: u16
  po_creator :: pubkey
  po_base_mint :: pubkey
  po_quote_mint :: pubkey
  po_lp_mint :: pubkey
  po_pool_base_token_account :: pubkey
  po_pool_quote_token_account :: pubkey
  po_lp_supply :: u64
  po_coin_creator :: pubkey
  po_is_mayhem_mode :: bool
  po_is_cashback_coin :: bool
  po_reserved :: "u8 list"

definition POOL_SIZE :: nat where
  "POOL_SIZE = 244"

text \<open>Borsh readers: little-endian integers, raw bytes, and booleans that must be 0 or 1.\<close>

definition read_bytes :: "nat \<Rightarrow> u8 list \<Rightarrow> (u8 list \<times> u8 list) option" where
  "read_bytes n xs = (if length xs < n then None else Some (take n xs, drop n xs))"

definition read_word :: "nat \<Rightarrow> u8 list \<Rightarrow> ('a::len word \<times> u8 list) option" where
  "read_word n xs = map_option (\<lambda>(b, rest). (word_of_nat (le_value b), rest)) (read_bytes n xs)"

definition read_pubkey :: "u8 list \<Rightarrow> (pubkey \<times> u8 list) option" where
  "read_pubkey xs = map_option (\<lambda>(b, rest). (word_of_nat (le_value (rev b)), rest)) (read_bytes 32 xs)"

definition read_bool :: "u8 list \<Rightarrow> (bool \<times> u8 list) option" where
  "read_bool xs = (case xs of b # rest \<Rightarrow> if b = 0 then Some (False, rest) else if b = 1 then Some (True, rest) else None | [] \<Rightarrow> None)"

definition borsh_pool :: "u8 list \<Rightarrow> (pool \<times> u8 list) option" where
  "borsh_pool xs = do {
     (bump, xs) \<leftarrow> read_word 1 xs;
     (index, xs) \<leftarrow> read_word 2 xs;
     (creator, xs) \<leftarrow> read_pubkey xs;
     (base_mint, xs) \<leftarrow> read_pubkey xs;
     (quote_mint, xs) \<leftarrow> read_pubkey xs;
     (lp_mint, xs) \<leftarrow> read_pubkey xs;
     (base_account, xs) \<leftarrow> read_pubkey xs;
     (quote_account, xs) \<leftarrow> read_pubkey xs;
     (lp_supply, xs) \<leftarrow> read_word 8 xs;
     (coin_creator, xs) \<leftarrow> read_pubkey xs;
     (mayhem, xs) \<leftarrow> read_bool xs;
     (cashback, xs) \<leftarrow> read_bool xs;
     (reserved, xs) \<leftarrow> read_bytes 7 xs;
     Some (\<lparr>po_pool_bump = bump, po_index = index, po_creator = creator, po_base_mint = base_mint, po_quote_mint = quote_mint,
       po_lp_mint = lp_mint, po_pool_base_token_account = base_account, po_pool_quote_token_account = quote_account,
       po_lp_supply = lp_supply, po_coin_creator = coin_creator, po_is_mayhem_mode = mayhem, po_is_cashback_coin = cashback,
       po_reserved = reserved\<rparr>, xs)
   }"

text \<open>\<open>borsh::from_slice\<close> also requires that no byte is left over.\<close>

definition pool_decode :: "u8 list \<Rightarrow> pool option" where
  "pool_decode bytes =
     (if length bytes < POOL_SIZE then None
      else case borsh_pool (take POOL_SIZE bytes) of Some (p, []) \<Rightarrow> Some p | _ \<Rightarrow> None)"

section \<open>The node\<close>

record pool_rpc =
  get_account :: "pubkey \<Rightarrow> string + (pubkey \<times> u8 list)"
  program_accounts :: "nat \<Rightarrow> nat \<Rightarrow> pubkey \<Rightarrow> string + (pubkey \<times> u8 list) list"
  token_balance :: "pubkey \<Rightarrow> string + (string + u64)"
  lookup_times_out :: "nat \<Rightarrow> bool"

text \<open>
  \<open>token_balance\<close> answers with the amount as parsed from its decimal string; \<open>lookup_times_out\<close> says whether the scan with
  the given memory offset takes more than the three seconds \<open>find_by_mint\<close> waits.
\<close>

definition fetch_pool :: "pool_rpc \<Rightarrow> pubkey \<Rightarrow> (string + pool) rust" where
  "fetch_pool rpc pool_address =
     (case get_account rpc pool_address of
        Inl e \<Rightarrow> Some (Inl e)
      | Inr (owner, acc_data) \<Rightarrow>
          if owner \<noteq> PUMPSWAP_AMM_PROGRAM then Some (Inl ''Account is not owned by PumpSwap program'')
          else if length acc_data < 8 then None
          else (case pool_decode (drop 8 acc_data) of
            None \<Rightarrow> Some (Inl ''Failed to decode pool'')
          | Some p \<Rightarrow> Some (Inr p)))"

definition POOL_DATA_LEN_SPL :: nat where "POOL_DATA_LEN_SPL = 8 + 244"
definition POOL_DATA_LEN_T22 :: nat where "POOL_DATA_LEN_T22 = 643"

definition result_or_empty :: "string + 'a list \<Rightarrow> 'a list" where
  "result_or_empty r = (case r of Inl _ \<Rightarrow> [] | Inr xs \<Rightarrow> xs)"

definition get_program_accounts_both_sizes :: "pool_rpc \<Rightarrow> nat \<Rightarrow> pubkey \<Rightarrow> (pubkey \<times> u8 list) list" where
  "get_program_accounts_both_sizes rpc memcmp_offset mint =
     result_or_empty (program_accounts rpc POOL_DATA_LEN_SPL memcmp_offset mint)
     @ result_or_empty (program_accounts rpc POOL_DATA_LEN_T22 memcmp_offset mint)"

definition decode_pool_accounts :: "(pubkey \<times> u8 list) list \<Rightarrow> (pubkey \<times> pool) list" where
  "decode_pool_accounts accs =
     List.map_filter (\<lambda>(addr, d). if length d > 8 then map_option (\<lambda>p. (addr, p)) (pool_decode (drop 8 d)) else None) accs"

definition find_at_offset :: "nat \<Rightarrow> pool_rpc \<Rightarrow> pubkey \<Rightarrow> string + (pubkey \<times> pool)" where
  "find_at_offset offset rpc mint =
     (let accs = get_program_accounts_both_sizes rpc offset mint in
      if accs = [] then Inl ''No pool found for mint''
      else let pools = decode_pool_accounts accs in
        if pools = [] then Inl ''No valid pool decoded for mint''
        else Inr (sort_key (\<lambda>x. - uint (po_lp_supply (snd x))) pools ! 0))"

definition find_by_base_mint :: "pool_rpc \<Rightarrow> pubkey \<Rightarrow> string + (pubkey \<times> pool)" where
  "find_by_base_mint = find_at_offset 43"

definition find_by_quote_mint :: "pool_rpc \<Rightarrow> pubkey \<Rightarrow> string + (pubkey \<times> pool)" where
  "find_by_quote_mint = find_at_offset 75"

text \<open>The two scans of \<open>find_by_mint\<close>, each under its timeout; the diagnostics it collects are left out.\<close>

definition scan_pools :: "pool_rpc \<Rightarrow> pubkey \<Rightarrow> string + (pubkey \<times> pool)" where
  "scan_pools rpc mint =
     (case (if lookup_times_out rpc 43 then Inl [] else find_by_base_mint rpc mint) of
        Inr found \<Rightarrow> Inr found
      | Inl _ \<Rightarrow> (case (if lookup_times_out rpc 75 then Inl [] else find_by_quote_mint rpc mint) of
          Inr found \<Rightarrow> Inr found
        | Inl _ \<Rightarrow> Inl ''No pool found for mint''))"

fun first_of :: "pool_rpc \<Rightarrow> pubkey \<Rightarrow> pubkey list \<Rightarrow> (string + (pubkey \<times> pool)) rust" where
  "first_of rpc mint [] = Some (scan_pools rpc mint)"
| "first_of rpc mint (address # rest) =
     (case fetch_pool rpc address of
        None \<Rightarrow> None
      | Some (Inr p) \<Rightarrow> if po_base_mint p = mint then Some (Inr (address, p)) else first_of rpc mint rest
      | Some (Inl e) \<Rightarrow> first_of rpc mint rest)"

definition find_by_mint :: "chain_ext \<Rightarrow> pool_rpc \<Rightarrow> pubkey \<Rightarrow> (string + (pubkey \<times> pool)) rust" where
  "find_by_mint ext rpc mint =
     first_of rpc mint ((case get_pool_v2_pda ext mint of Some a \<Rightarrow> [a] | None \<Rightarrow> []) @ [get_canonical_pool_pda ext mint])"

definition find_pool :: "chain_ext \<Rightarrow> pool_rpc \<Rightarrow> pubkey \<Rightarrow> (string + pubkey) rust" where
  "find_pool ext rpc mint =
     map_option (\<lambda>r. case r of Inl e \<Rightarrow> Inl e | Inr (address, _) \<Rightarrow> Inr address) (find_by_mint ext rpc mint)"

text \<open>Both balances are fetched before either is parsed.\<close>

definition get_token_balances :: "pool_rpc \<Rightarrow> pool \<Rightarrow> string + (u64 \<times> u64)" where
  "get_token_balances rpc p =
     (case token_balance rpc (po_pool_base_token_account p) of
        Inl e \<Rightarrow> Inl e
      | Inr base_balance \<Rightarrow> (case token_balance rpc (po_pool_quote_token_account p) of
          Inl e \<Rightarrow> Inl e
        | Inr quote_balance \<Rightarrow> (case base_balance of
            Inl e \<Rightarrow> Inl e
          | Inr base_amount \<Rightarrow> (case quote_balance of
              Inl e \<Rightarrow> Inl e
            | Inr quote_amount \<Rightarrow> Inr (base_amount, quote_amount)))))"

section \<open>Parameters from a pool\<close>

definition program_of_account :: "chain_ext \<Rightarrow> pubkey \<Rightarrow> pubkey \<Rightarrow> pubkey \<Rightarrow> pubkey" where
  "program_of_account ext pool_address mint account =
     (if account = get_associated_token_address_with_program_id ext pool_address mint TOKEN_PROGRAM
      then TOKEN_PROGRAM else TOKEN_PROGRAM_2022)"

definition from_pool_data :: "chain_ext \<Rightarrow> pool_rpc \<Rightarrow> pubkey \<Rightarrow> pool \<Rightarrow> string + pumpswap_params" where
  "from_pool_data ext rpc pool_address p =
     (case get_token_balances rpc p of
        Inl e \<Rightarrow> Inl e
      | Inr (base_reserves, quote_reserves) \<Rightarrow>
          Inr \<lparr>ps_pool = pool_address, ps_base_mint = po_base_mint p, ps_quote_mint = po_quote_mint p,
            ps_pool_base_token_account = po_pool_base_token_account p, ps_pool_quote_token_account = po_pool_quote_token_account p,
            ps_pool_base_token_reserves = base_reserves, ps_pool_quote_token_reserves = quote_reserves,
            ps_coin_creator_vault_ata = coin_creator_vault_ata_pda ext (po_coin_creator p) (po_quote_mint p),
            ps_coin_creator_vault_authority = coin_creator_vault_authority_pda ext (po_coin_creator p),
            ps_base_token_program = program_of_account ext pool_address (po_base_mint p) (po_pool_base_token_account p),
            ps_quote_token_program = program_of_account ext pool_address (po_quote_mint p) (po_pool_quote_token_account p),
            ps_is_mayhem_mode = po_is_mayhem_mode p, ps_is_cashback_coin = po_is_cashback_coin p\<rparr>)"

definition from_pool_address_by_rpc :: "chain_ext \<Rightarrow> pool_rpc \<Rightarrow> pubkey \<Rightarrow> (string + pumpswap_params) rust" where
  "from_pool_address_by_rpc ext rpc pool_address =
     (case fetch_pool rpc pool_address of
        None \<Rightarrow> None
      | Some (Inl e) \<Rightarrow> Some (Inl e)
      | Some (Inr p) \<Rightarrow> Some (from_pool_data ext rpc pool_address p))"

definition pumpswap_from_mint_by_rpc :: "chain_ext \<Rightarrow> pool_rpc \<Rightarrow> pubkey \<Rightarrow> (string + pumpswap_params) rust" where
  "pumpswap_from_mint_by_rpc ext rpc mint =
     (case find_by_base_mint rpc mint of
        Inr (address, _) \<Rightarrow> from_pool_address_by_rpc ext rpc address
      | Inl _ \<Rightarrow> (case find_by_quote_mint rpc mint of
          Inr (address, _) \<Rightarrow> from_pool_address_by_rpc ext rpc address
        | Inl _ \<Rightarrow> Some (Inl ''No pool found for mint'')))"

section \<open>The layout of the account\<close>

definition bool_byte :: "bool \<Rightarrow> u8" where
  "bool_byte b = (if b then 1 else 0)"

definition pool_encode :: "pool \<Rightarrow> u8 list" where
  "pool_encode p = to_le_bytes (po_pool_bump p) @ to_le_bytes (po_index p) @ pubkey_bytes (po_creator p)
     @ pubkey_bytes (po_base_mint p) @ pubkey_bytes (po_quote_mint p) @ pubkey_bytes (po_lp_mint p)
     @ pubkey_bytes (po_pool_base_token_account p) @ pubkey_bytes (po_pool_quote_token_account p)
     @ to_le_bytes (po_lp_supply p) @ pubkey_bytes (po_coin_creator p)
     @ [bool_byte (po_is_mayhem_mode p), bool_byte (po_is_cashback_coin p)] @ po_reserved p"

lemma le_value_less: "le_value bs < 256 ^ length bs"
proof (induction bs)
  case (Cons b bs)
  have b: "unat b < 256" using unsigned_less [of b, where 'a = nat] by simp
  obtain N where N: "N = (256 :: nat) ^ length bs" by blast
  have "Suc (le_value bs) \<le> N" using Cons N by simp
  then have "unat b + 256 * le_value bs < 256 * N" using b by simp
  then show ?case unfolding N by simp
qed simp

lemma le_value_inj: "length xs = length ys \<Longrightarrow> le_value xs = le_value ys \<Longrightarrow> xs = ys"
proof (induction xs ys rule: list_induct2)
  case (Cons x xs y ys)
  have b: "unat x < 256" "unat y < 256" using unsigned_less [of x, where 'a = nat] unsigned_less [of y, where 'a = nat] by simp_all
  have eq: "unat x + 256 * le_value xs = unat y + 256 * le_value ys" using Cons.prems by (simp only: le_value.simps)
  have "unat x = unat y" using arg_cong [OF eq, of "\<lambda>n. n mod 256"] b by simp
  moreover have "le_value xs = le_value ys" using eq calculation by simp
  ultimately show ?case using Cons.IH by (simp add: word_unat_eq_iff)
qed simp

lemma to_le_bytes_inverse:
  assumes "LENGTH('a::len) = 8 * length b"
  shows "to_le_bytes (word_of_nat (le_value b) :: 'a word) = b"
proof (rule le_value_inj)
  have "(2 :: nat) ^ LENGTH('a) = 256 ^ length b" unfolding assms power_mult by simp
  then have "le_value b < 2 ^ LENGTH('a)" using le_value_less [of b] by simp
  then show "le_value (to_le_bytes (word_of_nat (le_value b) :: 'a word)) = le_value b"
    using assms by (simp add: le_value_to_le_bytes unat_of_nat)
qed (use assms in simp)

lemma word_of_le_bytes: "8 dvd LENGTH('a::len) \<Longrightarrow> (word_of_nat (le_value (to_le_bytes w)) :: 'a word) = w"
  by (simp add: le_value_to_le_bytes of_nat_unat)

lemma encoding_inject:
  "8 dvd LENGTH('a::len) \<Longrightarrow> to_le_bytes (a :: 'a word) = to_le_bytes b \<longleftrightarrow> a = b"
  "pubkey_bytes k = pubkey_bytes k' \<longleftrightarrow> k = k'" "bool_byte x = bool_byte y \<longleftrightarrow> x = y"
proof -
  show inj: "to_le_bytes (a :: 'b::len word) = to_le_bytes b \<longleftrightarrow> a = b" if "8 dvd LENGTH('b)" for a b
    using word_of_le_bytes [OF that] by metis
  show "pubkey_bytes k = pubkey_bytes k' \<longleftrightarrow> k = k'" using inj [of k k'] by (simp add: pubkey_bytes_def)
qed (simp add: bool_byte_def)

text \<open>What a reader accepts is the encoding of what it returns.\<close>

lemma read_bytes_iff: "read_bytes n xs = Some (b, rest) \<longleftrightarrow> length b = n \<and> xs = b @ rest"
  by (auto simp: read_bytes_def)

lemma read_word_iff:
  assumes "LENGTH('a::len) = 8 * n"
  shows "read_word n xs = Some (w :: 'a word, rest) \<longleftrightarrow> xs = to_le_bytes w @ rest"
proof
  assume "read_word n xs = Some (w, rest)"
  then obtain b where b: "read_bytes n xs = Some (b, rest)" "w = word_of_nat (le_value b)" by (auto simp: read_word_def)
  then show "xs = to_le_bytes w @ rest" using assms by (auto simp: read_bytes_iff to_le_bytes_inverse)
next
  assume "xs = to_le_bytes w @ rest"
  then have "read_bytes n xs = Some (to_le_bytes w, rest)" using assms by (simp add: read_bytes_iff)
  then show "read_word n xs = Some (w, rest)" using assms by (simp add: read_word_def word_of_le_bytes)
qed

lemma read_pubkey_iff: "read_pubkey xs = Some (k, rest) \<longleftrightarrow> xs = pubkey_bytes k @ rest"
proof
  assume "read_pubkey xs = Some (k, rest)"
  then obtain b where b: "read_bytes 32 xs = Some (b, rest)" "k = word_of_nat (le_value (rev b))" by (auto simp: read_pubkey_def)
  then have len: "LENGTH(256) = 8 * length (rev b)" "xs = b @ rest" by (auto simp: read_bytes_iff)
  from to_le_bytes_inverse [OF len(1)] show "xs = pubkey_bytes k @ rest" using len(2) b(2) by (simp add: pubkey_bytes_def)
next
  assume "xs = pubkey_bytes k @ rest"
  then have "read_bytes 32 xs = Some (pubkey_bytes k, rest)" by (simp add: read_bytes_iff)
  then show "read_pubkey xs = Some (k, rest)" by (simp add: read_pubkey_def pubkey_bytes_def word_of_le_bytes)
qed

lemma read_bool_iff: "read_bool xs = Some (b, rest) \<longleftrightarrow> xs = bool_byte b # rest"
  by (auto simp: read_bool_def bool_byte_def split: list.splits if_splits)

lemmas reader_iff = read_bytes_iff read_word_iff read_pubkey_iff read_bool_iff

lemma borsh_pool_iff: "borsh_pool xs = Some (p, rest) \<longleftrightarrow> xs = pool_encode p @ rest \<and> length (po_reserved p) = 7"
proof -
  have "borsh_pool xs = Some (p, rest) \<Longrightarrow> xs = pool_encode p @ rest \<and> length (po_reserved p) = 7"
    by (auto simp: borsh_pool_def bind_Some_iff pool_encode_def reader_iff split: prod.splits)
  moreover have "borsh_pool (pool_encode p @ rest) = Some (p, rest)" if "length (po_reserved p) = 7"
    using that by (cases p) (simp add: borsh_pool_def bind_Some_iff pool_encode_def reader_iff encoding_inject split: prod.splits)
  ultimately show ?thesis by blast
qed

lemma length_pool_encode: "length (pool_encode p) = 237 + length (po_reserved p)"
  by (simp add: pool_encode_def)

lemma pool_decode_iff: "pool_decode bytes = Some p \<longleftrightarrow> (\<exists>tail. bytes = pool_encode p @ tail) \<and> length (po_reserved p) = 7"
proof -
  have "pool_decode bytes = Some p \<longleftrightarrow> POOL_SIZE \<le> length bytes \<and> borsh_pool (take POOL_SIZE bytes) = Some (p, [])"
    by (auto simp: pool_decode_def split: option.splits list.splits)
  also have "\<dots> \<longleftrightarrow> POOL_SIZE \<le> length bytes \<and> take POOL_SIZE bytes = pool_encode p \<and> length (po_reserved p) = 7"
    by (simp add: borsh_pool_iff)
  also have "\<dots> \<longleftrightarrow> (\<exists>tail. bytes = pool_encode p @ tail) \<and> length (po_reserved p) = 7"
    using length_pool_encode [of p] by (auto simp: POOL_SIZE_def) (metis append_take_drop_id)
  finally show ?thesis .
qed

text \<open>The offsets of the two scans are those of the mints in the account.\<close>

lemma decoded_mints:
  assumes "pool_decode (drop 8 acc) = Some p" and "8 \<le> length acc"
  shows "take 32 (drop 43 acc) = pubkey_bytes (po_base_mint p)" "take 32 (drop 75 acc) = pubkey_bytes (po_quote_mint p)"
proof -
  obtain tail where tail: "drop 8 acc = pool_encode p @ tail" using assms(1) by (auto simp: pool_decode_iff)
  have "drop 43 acc = drop 35 (drop 8 acc)" "drop 75 acc = drop 67 (drop 8 acc)" by simp_all
  then show "take 32 (drop 43 acc) = pubkey_bytes (po_base_mint p)" "take 32 (drop 75 acc) = pubkey_bytes (po_quote_mint p)"
    unfolding tail by (simp_all add: pool_encode_def)
qed

text \<open>The documented meaning of the filters: a data size, and the bytes at an offset.\<close>

definition filters_hold :: "pool_rpc \<Rightarrow> bool" where
  "filters_hold rpc \<longleftrightarrow> (\<forall>size offset mint accs. program_accounts rpc size offset mint = Inr accs \<longrightarrow>
     (\<forall>(addr, d) \<in> set accs. length d = size \<and> take 32 (drop offset d) = pubkey_bytes mint))"

lemma both_sizes_filtered:
  assumes "filters_hold rpc" and "(addr, d) \<in> set (get_program_accounts_both_sizes rpc offset mint)"
  shows "8 < length d \<and> take 32 (drop offset d) = pubkey_bytes mint"
proof -
  have "\<exists>size \<in> {POOL_DATA_LEN_SPL, POOL_DATA_LEN_T22}. \<exists>accs. program_accounts rpc size offset mint = Inr accs \<and> (addr, d) \<in> set accs"
    using assms(2) by (auto simp: get_program_accounts_both_sizes_def result_or_empty_def split: sum.splits)
  then show ?thesis
    using assms(1) by (fastforce simp: filters_hold_def POOL_DATA_LEN_SPL_def POOL_DATA_LEN_T22_def)
qed

lemma find_at_offset_found:
  assumes "find_at_offset offset rpc mint = Inr (addr, p)"
  shows "(addr, p) \<in> set (decode_pool_accounts (get_program_accounts_both_sizes rpc offset mint))"
    and "(b, q) \<in> set (decode_pool_accounts (get_program_accounts_both_sizes rpc offset mint)) \<Longrightarrow> po_lp_supply q \<le> po_lp_supply p"
proof -
  define ps where "ps = decode_pool_accounts (get_program_accounts_both_sizes rpc offset mint)"
  define key where "key = (\<lambda>x :: pubkey \<times> pool. - uint (po_lp_supply (snd x)))"
  have ne: "ps \<noteq> []" and hd: "(addr, p) = sort_key key ps ! 0"
    using assms by (auto simp: find_at_offset_def Let_def ps_def key_def split: if_splits)
  have "sort_key key ps \<noteq> []" using ne by (metis length_0_conv length_sort)
  then obtain x xs where sorted: "sort_key key ps = x # xs" by (cases "sort_key key ps") auto
  have x: "x = (addr, p)" using hd sorted by simp
  have mem: "set (x # xs) = set ps" using sorted by (metis set_sort)
  then have "(addr, p) \<in> set ps" using x by auto
  then show "(addr, p) \<in> set (decode_pool_accounts (get_program_accounts_both_sizes rpc offset mint))" by (simp only: ps_def)
  have "sorted (map key (x # xs))" using sorted_sort_key [of key ps] sorted by simp
  then have le: "key x \<le> key y" if "y \<in> set (x # xs)" for y using that by auto
  assume "(b, q) \<in> set (decode_pool_accounts (get_program_accounts_both_sizes rpc offset mint))"
  then have "(b, q) \<in> set (x # xs)" using mem by (simp only: ps_def)
  from le [OF this] show "po_lp_supply q \<le> po_lp_supply p" unfolding x key_def by (simp add: word_le_def)
qed

lemma decode_pool_accounts_mem:
  "(addr, p) \<in> set (decode_pool_accounts accs) \<longleftrightarrow> (\<exists>d. (addr, d) \<in> set accs \<and> 8 < length d \<and> pool_decode (drop 8 d) = Some p)"
  by (force simp: decode_pool_accounts_def map_filter_def split: if_splits)

lemma scanned_mint:
  assumes "filters_hold rpc" and "(addr, p) \<in> set (decode_pool_accounts (get_program_accounts_both_sizes rpc offset mint))"
  shows "offset = 43 \<Longrightarrow> po_base_mint p = mint" "offset = 75 \<Longrightarrow> po_quote_mint p = mint"
proof -
  obtain d where d: "(addr, d) \<in> set (get_program_accounts_both_sizes rpc offset mint)" "8 < length d" "pool_decode (drop 8 d) = Some p"
    using assms(2) by (auto simp: decode_pool_accounts_mem)
  have "take 32 (drop offset d) = pubkey_bytes mint" using both_sizes_filtered [OF assms(1) d(1)] by simp
  then show "offset = 43 \<Longrightarrow> po_base_mint p = mint" "offset = 75 \<Longrightarrow> po_quote_mint p = mint"
    using decoded_mints [OF d(3)] d(2) encoding_inject(2) by auto
qed

lemma first_of_found:
  assumes "first_of rpc mint addrs = Some (Inr (addr, p))"
  shows "(po_base_mint p = mint \<and> addr \<in> set addrs \<and> fetch_pool rpc addr = Some (Inr p)) \<or> scan_pools rpc mint = Inr (addr, p)"
  using assms by (induction addrs) (auto split: option.splits sum.splits if_splits)

section \<open>Properties\<close>

text \<open>
  C37: decoding a pool account reads back exactly what was laid out: a byte string decodes to a pool precisely when it
  starts with that pool's encoding, whatever follows, so no two pools share an encoding.
\<close>

theorem pool_roundtrip:
  "(pool_decode (pool_encode p @ tail) = Some p) = (length (po_reserved p) = 7)
   \<and> (pool_decode bytes = Some p) = ((\<exists>rest. bytes = pool_encode p @ rest) \<and> length (po_reserved p) = 7)"
  by (auto simp: pool_decode_iff)

text \<open>
  C38: the pool that is found trades the mint that was asked for. When the node's filters mean what they say, a pool
  found by mint has it as its base or its quote; it is at one of the two derived addresses and decoded from the account
  there, or it was found by a scan and no pool of that scan has a larger supply of pool tokens.
\<close>

theorem find_by_mint_sound:
  assumes "filters_hold rpc" and "find_by_mint ext rpc mint = Some (Inr (addr, p))"
  shows "(po_base_mint p = mint \<or> po_quote_mint p = mint)
    \<and> ((fetch_pool rpc addr = Some (Inr p) \<and> addr \<in> {the (get_pool_v2_pda ext mint), get_canonical_pool_pda ext mint})
       \<or> (\<exists>offset \<in> {43, 75}. (addr, p) \<in> set (decode_pool_accounts (get_program_accounts_both_sizes rpc offset mint))
            \<and> (\<forall>(b, q) \<in> set (decode_pool_accounts (get_program_accounts_both_sizes rpc offset mint)). po_lp_supply q \<le> po_lp_supply p)))"
proof -
  consider "po_base_mint p = mint" "addr \<in> {the (get_pool_v2_pda ext mint), get_canonical_pool_pda ext mint}" "fetch_pool rpc addr = Some (Inr p)"
    | "find_at_offset 43 rpc mint = Inr (addr, p)" | "find_at_offset 75 rpc mint = Inr (addr, p)"
    using first_of_found [OF assms(2) [unfolded find_by_mint_def]]
    by (auto simp: scan_pools_def find_by_base_mint_def find_by_quote_mint_def get_pool_v2_pda_def split: sum.splits if_splits)
  then show ?thesis
  proof cases
    case 1
    then show ?thesis by blast
  next
    case 2
    then show ?thesis using find_at_offset_found [OF 2] scanned_mint(1) [OF assms(1)] by blast
  next
    case 3
    then show ?thesis using find_at_offset_found [OF 3] scanned_mint(2) [OF assms(1)] by blast
  qed
qed

definition sample_pool_account :: pool where
  "sample_pool_account = \<lparr>po_pool_bump = 255, po_index = 0, po_creator = 11, po_base_mint = 9, po_quote_mint = WSOL_TOKEN_ACCOUNT,
     po_lp_mint = 12, po_pool_base_token_account = 101, po_pool_quote_token_account = 102, po_lp_supply = 1000,
     po_coin_creator = 7, po_is_mayhem_mode = False, po_is_cashback_coin = False, po_reserved = replicate 7 0\<rparr>"

text \<open>A node that has the pool at every address and no scan to offer.\<close>

definition sample_node :: pool_rpc where
  "sample_node = \<lparr>get_account = (\<lambda>a. Inr (PUMPSWAP_AMM_PROGRAM, replicate 8 0 @ pool_encode sample_pool_account)),
     program_accounts = (\<lambda>size offset mint. Inl ''unsupported''), token_balance = (\<lambda>a. Inr (Inr 5000)),
     lookup_times_out = (\<lambda>offset. False)\<rparr>"

lemma sample_node_fetch: "fetch_pool sample_node a = Some (Inr sample_pool_account)"
proof -
  have "pool_decode (pool_encode sample_pool_account) = Some sample_pool_account"
    unfolding pool_decode_iff by (simp add: sample_pool_account_def)
  then show ?thesis by (simp add: fetch_pool_def sample_node_def)
qed

lemma sample_node_found: "\<exists>a. find_by_mint sample_ext sample_node 9 = Some (Inr (a, sample_pool_account))"
  by (simp add: find_by_mint_def get_pool_v2_pda_def sample_node_fetch) (simp add: sample_pool_account_def)

theorem find_by_mint_sound_witness:
  "\<exists>a. find_by_mint sample_ext sample_node 9 = Some (Inr (a, sample_pool_account))
     \<and> (po_base_mint sample_pool_account = 9 \<or> po_quote_mint sample_pool_account = 9)"
proof -
  obtain a where a: "find_by_mint sample_ext sample_node 9 = Some (Inr (a, sample_pool_account))" using sample_node_found by blast
  have "filters_hold sample_node" by (simp add: filters_hold_def sample_node_def)
  from find_by_mint_sound [OF this a] a show ?thesis by blast
qed

end
