(* ===== verification/TradeStore.thy ===== *)
theory TradeStore
  imports F64 Prog Solana "HOL-Library.Multiset" "HOL-Library.Sublist"
begin

text \<open>
  The bot's record of the market (\<open>TokenTradeRecord\<close> and \<open>RedisStore\<close> in \<open>src/trading.rs\<close>, the event handler of
  \<open>src/grpc_subscriber.rs\<close>). The Redis server is its data: lists and sets under their keys, with the commands the bot
  sends. Serialisation is the record \<open>codec\<close>; what is relied on is \<open>codec_ok\<close>, that reading what was printed gives the
  fields back, with the block time as a JSON number. A printed record is a value of the type \<open>'j\<close>, a JSON string in the bot. \<open>i64\<close> values are integers with the overflow written out. A Redis
  request that fails, on the connection or on the command, is an argument of the operation that makes it.
\<close>

section \<open>Trade records\<close>

record token_trade_record =
  tr_mint :: string
  tr_token_amount :: u64
  tr_sol_amount :: u64
  tr_price :: f64
  tr_blocktime_us :: int
  tr_is_buy :: bool
  tr_signature :: string

definition calculate_price_from_amounts :: "u64 \<Rightarrow> u64 \<Rightarrow> f64" where
  "calculate_price_from_amounts sol_amount token_amount =
     (if token_amount > 0 then f64_div (f64_div (f64_of_u64 sol_amount) (f64_of_u64 token_amount)) (f64_lit 1000) else f64_lit 0)"

definition from_transaction :: "string \<Rightarrow> u64 \<Rightarrow> u64 \<Rightarrow> bool \<Rightarrow> string \<Rightarrow> int \<Rightarrow> token_trade_record" where
  "from_transaction mint token_amount sol_amount is_buy sig blocktime_us =
     \<lparr>tr_mint = mint, tr_token_amount = token_amount, tr_sol_amount = sol_amount,
      tr_price = (if token_amount > 0
                  then f64_div (f64_div (f64_of_u64 sol_amount) (f64_of_u64 token_amount)) (f64_lit 1000) else f64_lit 0),
      tr_blocktime_us = blocktime_us, tr_is_buy = is_buy, tr_signature = sig\<rparr>"

definition effective_price :: "token_trade_record \<Rightarrow> f64" where
  "effective_price r = tr_price r"

text \<open>A JSON value as the deserialiser looks at it: an integer in the range of \<open>i64\<close>, a string, or anything else.\<close>

datatype json_value = JInt int | JStr string | JOther

fun digits_value :: "string \<Rightarrow> nat \<Rightarrow> nat option" where
  "digits_value [] acc = Some acc"
| "digits_value (c # cs) acc =
     (let v = of_char c :: nat in if 48 \<le> v \<and> v \<le> 57 then digits_value cs (10 * acc + (v - 48)) else None)"

text \<open>\<open>str::parse::<i64>\<close>: an optional sign, at least one digit, nothing else, and in range.\<close>

definition parse_i64 :: "string \<Rightarrow> int option" where
  "parse_i64 s =
     (let (neg, ds) = (case s of c # cs \<Rightarrow> if c = CHR ''-'' then (True, cs) else if c = CHR ''+'' then (False, cs) else (False, s)
                       | [] \<Rightarrow> (False, s))
      in if ds = [] then None
         else case digits_value ds 0 of
           None \<Rightarrow> None
         | Some n \<Rightarrow> (let v = (if neg then - int n else int n) in if i64_range v then Some v else None))"

definition to_micros :: "profile \<Rightarrow> int \<Rightarrow> int rust" where
  "to_micros p num = (if num < 1000000000000 then i64_result p (num * 1000000) else Some num)"

definition deserialize_blocktime :: "profile \<Rightarrow> int \<Rightarrow> json_value \<Rightarrow> int rust" where
  "deserialize_blocktime p now v =
     (case v of
        JInt num \<Rightarrow> to_micros p num
      | JStr s \<Rightarrow> (case parse_i64 s of Some num \<Rightarrow> to_micros p num | None \<Rightarrow> Some now)
      | JOther \<Rightarrow> Some now)"

text \<open>\<open>from_json\<close> gives the fields of a record with the JSON value of its block time.\<close>

record 'j codec =
  to_json :: "token_trade_record \<Rightarrow> 'j"
  from_json :: "'j \<Rightarrow> string + (token_trade_record \<times> json_value)"

definition record_from_str :: "profile \<Rightarrow> int \<Rightarrow> 'j codec \<Rightarrow> 'j \<Rightarrow> (string + token_trade_record) rust" where
  "record_from_str p now cd s =
     (case from_json cd s of
        Inl e \<Rightarrow> Some (Inl e)
      | Inr (r, v) \<Rightarrow> map_option (\<lambda>us. Inr (r\<lparr>tr_blocktime_us := us\<rparr>)) (deserialize_blocktime p now v))"

section \<open>Redis\<close>

record 'j redis_db =
  db_lists :: "string \<Rightarrow> 'j list"
  db_sets :: "string \<Rightarrow> string set"

definition empty_db :: "'j redis_db" where
  "empty_db = \<lparr>db_lists = (\<lambda>k. []), db_sets = (\<lambda>k. {})\<rparr>"

definition lpush :: "string \<Rightarrow> 'j \<Rightarrow> 'j redis_db \<Rightarrow> 'j redis_db" where
  "lpush key v db = db\<lparr>db_lists := (db_lists db)(key := v # db_lists db key)\<rparr>"

text \<open>The elements from the head to index \<open>stop\<close>; a negative index counts from the tail.\<close>

definition head_range :: "'a list \<Rightarrow> int \<Rightarrow> 'a list" where
  "head_range xs stop = take (nat ((if stop < 0 then int (length xs) + stop else stop) + 1)) xs"

definition ltrim :: "string \<Rightarrow> int \<Rightarrow> 'j redis_db \<Rightarrow> 'j redis_db" where
  "ltrim key stop db = db\<lparr>db_lists := (db_lists db)(key := head_range (db_lists db key) stop)\<rparr>"

definition sadd :: "string \<Rightarrow> string \<Rightarrow> 'j redis_db \<Rightarrow> 'j redis_db" where
  "sadd key v db = db\<lparr>db_sets := (db_sets db)(key := insert v (db_sets db key))\<rparr>"

section \<open>The store\<close>

definition signatures_key :: "string \<Rightarrow> string" where
  "signatures_key mint = ''sigs:'' @ mint"

definition trades_key :: "string \<Rightarrow> string" where
  "trades_key mint = ''trades:'' @ mint"

definition is_signature_exists :: "bool \<Rightarrow> string \<Rightarrow> string \<Rightarrow> ('j redis_db, bool) prog" where
  "is_signature_exists fault mint sig =
     (if fault then fail ''Failed to check signature existence'' else read_state (\<lambda>db. sig \<in> db_sets db (signatures_key mint)))"

text \<open>
  \<open>store_trade\<close>: the membership test, then one atomic pipeline. \<open>faults\<close> says which of the two requests fail; a pipeline
  that fails leaves the data as it was.
\<close>

definition store_trade :: "'j codec \<Rightarrow> nat \<Rightarrow> bool \<times> bool \<Rightarrow> string \<Rightarrow> token_trade_record \<Rightarrow> ('j redis_db, unit) prog" where
  "store_trade cd max_trades_per_token faults mint r =
     then_do (is_signature_exists (fst faults) mint (tr_signature r)) (\<lambda>exists.
     if exists then ret ()
     else if snd faults then fail ''Failed to store trade record to Redis''
     else (\<lambda>db. (Ok (), sadd (signatures_key mint) (tr_signature r)
                       (ltrim (trades_key mint) (int max_trades_per_token - 1)
                         (lpush (trades_key mint) (to_json cd r) db)))))"

fun parse_all :: "profile \<Rightarrow> int \<Rightarrow> 'j codec \<Rightarrow> 'j list \<Rightarrow> (string + token_trade_record list) rust" where
  "parse_all p now cd [] = Some (Inr [])"
| "parse_all p now cd (s # ss) =
     (case record_from_str p now cd s of
        None \<Rightarrow> None
      | Some (Inl e) \<Rightarrow> Some (Inl ''Failed to deserialize trade record'')
      | Some (Inr r) \<Rightarrow> (case parse_all p now cd ss of
          Some (Inr rs) \<Rightarrow> Some (Inr (r # rs))
        | other \<Rightarrow> other))"

definition newest_first :: "token_trade_record list \<Rightarrow> token_trade_record list" where
  "newest_first rs = sort_key (\<lambda>r. - tr_blocktime_us r) rs"

definition get_recent_trades :: "profile \<Rightarrow> int \<Rightarrow> 'j codec \<Rightarrow> bool \<Rightarrow> string \<Rightarrow> nat \<Rightarrow> ('j redis_db, token_trade_record list) prog" where
  "get_recent_trades p now cd fault mint limit =
     (if fault then fail ''Failed to get trade records from Redis''
      else then_do (read_state (\<lambda>db. head_range (db_lists db (trades_key mint)) (int limit - 1))) (\<lambda>raw.
      then_do (of_rust (parse_all p now cd raw)) (\<lambda>parsed.
      then_do (of_result parsed) (\<lambda>rs. ret (newest_first rs)))))"

definition get_trades_in_window ::
  "profile \<Rightarrow> int \<Rightarrow> 'j codec \<Rightarrow> bool \<Rightarrow> nat \<Rightarrow> string \<Rightarrow> u64 \<Rightarrow> ('j redis_db, token_trade_record list) prog" where
  "get_trades_in_window p now cd fault max_trades_per_token mint seconds =
     then_do (of_rust (i64_result p (sint seconds * 1000000))) (\<lambda>span.
     then_do (of_rust (i64_result p (now - span))) (\<lambda>cutoff_us.
     then_do (get_recent_trades p now cd fault mint max_trades_per_token) (\<lambda>trades.
     ret (filter (\<lambda>t. tr_blocktime_us t \<ge> cutoff_us) trades))))"

definition get_latest_price_from_trades :: "profile \<Rightarrow> int \<Rightarrow> 'j codec \<Rightarrow> bool \<Rightarrow> string \<Rightarrow> ('j redis_db, f64 option) prog" where
  "get_latest_price_from_trades p now cd fault mint =
     then_do (get_recent_trades p now cd fault mint 1) (\<lambda>trades.
     ret (case trades of [] \<Rightarrow> None | latest # _ \<Rightarrow> Some (effective_price latest)))"

definition change_pct :: "token_trade_record list \<Rightarrow> f64 option" where
  "change_pct trades =
     (if length trades < 2 then None
      else let oldest_price = effective_price (last trades); newest_price = effective_price (hd trades) in
        if f64_eq oldest_price (f64_lit 0) then None
        else Some (f64_mul (f64_div (f64_sub newest_price oldest_price) oldest_price) (f64_lit 100)))"

definition calculate_price_change :: "profile \<Rightarrow> int \<Rightarrow> 'j codec \<Rightarrow> bool \<Rightarrow> nat \<Rightarrow> string \<Rightarrow> u64 \<Rightarrow> ('j redis_db, f64 option) prog" where
  "calculate_price_change p now cd fault max_trades_per_token mint seconds =
     then_do (get_trades_in_window p now cd fault max_trades_per_token mint seconds) (\<lambda>trades. ret (change_pct trades))"

definition calculate_price_change_from_records :: "profile \<Rightarrow> int \<Rightarrow> 'j codec \<Rightarrow> bool \<Rightarrow> string \<Rightarrow> nat \<Rightarrow> ('j redis_db, f64 option) prog" where
  "calculate_price_change_from_records p now cd fault mint record_count =
     then_do (get_recent_trades p now cd fault mint record_count) (\<lambda>trades. ret (change_pct trades))"

text \<open>The answer of \<open>KEYS trades:*\<close> is an argument: without a connection the call fails, a failed request counts as no keys.\<close>

definition get_active_mints :: "bool \<Rightarrow> string list option \<Rightarrow> string + string list" where
  "get_active_mints up keys =
     (if \<not> up then Inl ''Failed to get Redis connection''
      else Inr (List.map_filter (\<lambda>k. if prefix ''trades:'' k then Some (drop (length ''trades:'') k) else None)
                 (case keys of Some ks \<Rightarrow> ks | None \<Rightarrow> [])))"

section \<open>Events\<close>

record pumpswap_event =
  ev_base_mint :: pubkey
  ev_quote_mint :: pubkey
  ev_pool_base_token_reserves :: u64
  ev_pool_quote_token_reserves :: u64
  ev_timestamp :: int
  ev_signature :: string

record transaction_update =
  up_mint :: pubkey
  up_token_amount :: u64
  up_sol_amount :: u64
  up_is_buy :: bool
  up_signature :: string
  up_blocktime_us :: int

text \<open>
  \<open>handle_event\<close> for one of the two event kinds: an event without wrapped SOL is dropped; an update is sent on the
  channel. The mint stays a key here; the subscriber prints it in base 58.
\<close>

definition handle_event :: "profile \<Rightarrow> bool \<Rightarrow> pumpswap_event \<Rightarrow> transaction_update option rust" where
  "handle_event p is_buy e =
     (let is_wsol_base = ev_base_mint e = WSOL_TOKEN_ACCOUNT; is_wsol_quote = ev_quote_mint e = WSOL_TOKEN_ACCOUNT in
      if \<not> is_wsol_base \<and> \<not> is_wsol_quote then Some None
      else
        let mint = (if is_wsol_base then ev_quote_mint e else ev_base_mint e);
            (token_amount, sol_amount) =
              (if is_wsol_base then (ev_pool_quote_token_reserves e, ev_pool_base_token_reserves e)
               else (ev_pool_base_token_reserves e, ev_pool_quote_token_reserves e))
        in map_option (\<lambda>us. Some \<lparr>up_mint = mint, up_token_amount = token_amount, up_sol_amount = sol_amount, up_is_buy = is_buy,
                                  up_signature = ev_signature e, up_blocktime_us = us\<rparr>)
             (i64_result p (ev_timestamp e * 1000000)))"

text \<open>The consumer of the channel: a store that is down, or a failed request, loses the update and goes on.\<close>

definition consume_update ::
  "'j codec \<Rightarrow> nat option \<Rightarrow> (pubkey \<Rightarrow> string) \<Rightarrow> bool \<times> bool \<Rightarrow> transaction_update \<Rightarrow> 'j redis_db \<Rightarrow> 'j redis_db" where
  "consume_update cd store base58 faults u db =
     (case store of
        None \<Rightarrow> db
      | Some max_trades_per_token \<Rightarrow>
          snd (store_trade cd max_trades_per_token faults (base58 (up_mint u))
                 (from_transaction (base58 (up_mint u)) (up_token_amount u) (up_sol_amount u) (up_is_buy u) (up_signature u) (up_blocktime_us u)) db))"

section \<open>Lemmas\<close>

lemma head_range_take: "1 \<le> n \<Longrightarrow> head_range xs (int n - 1) = take n xs"
  by (simp add: head_range_def)

lemma keys_inject [simp]: "trades_key m = trades_key m' \<longleftrightarrow> m = m'" "signatures_key m = signatures_key m' \<longleftrightarrow> m = m'"
  by (simp_all add: trades_key_def signatures_key_def)

lemma newest_first_sorted: "sorted_wrt (\<lambda>a b. tr_blocktime_us a \<ge> tr_blocktime_us b) (newest_first rs)"
  using sorted_sort_key [of "\<lambda>r. - tr_blocktime_us r" rs] by (simp add: newest_first_def sorted_map)

lemma newest_first_mset: "mset (newest_first rs) = mset rs"
  by (simp add: newest_first_def)

text \<open>What is relied on of the serialiser: a record with a finite price reads back, its block time as a number.\<close>

definition codec_ok :: "'j codec \<Rightarrow> bool" where
  "codec_ok cd \<longleftrightarrow> (\<forall>r. f64_is_finite (tr_price r) \<longrightarrow> from_json cd (to_json cd r) = Inr (r, JInt (tr_blocktime_us r)))"

text \<open>A record that survives the conversion of its block time: a time after the first twelve days of 1970.\<close>

definition storable :: "token_trade_record \<Rightarrow> bool" where
  "storable r \<longleftrightarrow> f64_is_finite (tr_price r) \<and> 1000000000000 \<le> tr_blocktime_us r"

lemma record_roundtrip: "codec_ok cd \<Longrightarrow> storable r \<Longrightarrow> record_from_str p now cd (to_json cd r) = Some (Inr r)"
  by (simp add: record_from_str_def codec_ok_def storable_def deserialize_blocktime_def to_micros_def)

lemma parse_all_roundtrip:
  "codec_ok cd \<Longrightarrow> \<forall>r \<in> set rs. storable r \<Longrightarrow> parse_all p now cd (map (to_json cd) rs) = Some (Inr rs)"
  by (induction rs) (simp_all add: record_roundtrip)

section \<open>The abstract book\<close>

text \<open>Per mint: the trades kept, the last one stored first, and every signature ever stored.\<close>

type_synonym book = "string \<Rightarrow> token_trade_record list \<times> string set"

definition book_store :: "nat \<Rightarrow> string \<Rightarrow> token_trade_record \<Rightarrow> book \<Rightarrow> book" where
  "book_store n mint r b =
     (if tr_signature r \<in> snd (b mint) then b
      else b(mint := (take n (r # fst (b mint)), insert (tr_signature r) (snd (b mint)))))"

definition represents :: "'j codec \<Rightarrow> 'j redis_db \<Rightarrow> book \<Rightarrow> bool" where
  "represents cd db b \<longleftrightarrow> (\<forall>mint. db_lists db (trades_key mint) = map (to_json cd) (fst (b mint))
     \<and> db_sets db (signatures_key mint) = snd (b mint))"

lemma store_trade_cases:
  assumes "1 \<le> n"
  shows "store_trade cd n faults mint r db =
    (if fst faults then (Err ''Failed to check signature existence'', db)
     else if tr_signature r \<in> db_sets db (signatures_key mint) then (Ok (), db)
     else if snd faults then (Err ''Failed to store trade record to Redis'', db)
     else (Ok (), db\<lparr>db_lists := (db_lists db)(trades_key mint := take n (to_json cd r # db_lists db (trades_key mint))),
                     db_sets := (db_sets db)(signatures_key mint := insert (tr_signature r) (db_sets db (signatures_key mint)))\<rparr>))"
  by (simp add: store_trade_def then_do_run is_signature_exists_def lpush_def ltrim_def sadd_def head_range_take [OF assms] del: take_Cons_numeral)

lemma store_trade_refines:
  assumes "1 \<le> n" and "represents cd db b"
  shows "represents cd (snd (store_trade cd n faults mint r db))
      (if fst (store_trade cd n faults mint r db) = Ok () then book_store n mint r b else b)"
  using assms(2) by (auto simp: store_trade_cases [OF assms(1)] represents_def book_store_def take_map take_Cons' )

section \<open>Every price is finite\<close>

lemma f64_lit_nat: "f64_lit (numeral n) = Fin False (numeral n)" if "numeral n \<le> (2 :: nat) ^ 53"
proof -
  have "(numeral n :: rat) \<le> 2 ^ 53"
    using that by (metis of_nat_le_iff of_nat_numeral of_nat_power)
  then show ?thesis using round_mag_rep [OF rep_numeral [OF that]] by (simp add: f64_lit_def of_exact_def mk_finite [of _ 53])
qed

lemma quotient_finite:
  assumes "0 < unat t"
  shows "f64_div (f64_of_u64 (q :: u64)) (f64_of_u64 (t :: u64)) = Fin False (round_mag (round_mag (of_nat (unat q)) / round_mag (of_nat (unat t))))"
    "0 \<le> round_mag (of_nat (unat q)) / round_mag (of_nat (unat t))" "round_mag (of_nat (unat q)) / round_mag (of_nat (unat t)) \<le> 2 ^ 64"
proof -
  let ?a = "round_mag (of_nat (unat q))" and ?b = "round_mag (of_nat (unat t))"
  have a: "0 \<le> ?a" "?a \<le> 2 ^ 64" using round_mag_nonneg [of "of_nat (unat q)"] round_mag_of_nat_bounds(1) [of "unat q" 64] unat_u64_less [of q] by simp_all
  have b: "1 \<le> ?b" using round_mag_of_nat_bounds(2) assms by blast
  show nn: "0 \<le> ?a / ?b" using a b by simp
  have "?a / ?b \<le> ?a" using a b by (simp add: divide_le_eq mult_le_cancel_left1)
  then show le: "?a / ?b \<le> 2 ^ 64" using a(2) by linarith
  show "f64_div (f64_of_u64 q) (f64_of_u64 t) = Fin False (round_mag (?a / ?b))"
    using b mk_finite [OF nn le] by (simp add: f64_of_u64_eq)
qed

lemma price_finite: "f64_is_finite (calculate_price_from_amounts q t)"
proof (cases "t > 0")
  case True
  then have t: "0 < unat t" by (simp add: word_less_nat_alt)
  let ?x = "round_mag (of_nat (unat q)) / round_mag (of_nat (unat t))"
  have x: "0 \<le> round_mag ?x" "round_mag ?x \<le> 2 ^ 64"
    using round_mag_nonneg round_mag_le [OF rep_pow2] quotient_finite(2,3) [OF t] by blast+
  then have "0 \<le> round_mag ?x / 1000" "round_mag ?x / 1000 \<le> 2 ^ 64" by simp_all
  then show ?thesis using True mk_finite [of "round_mag ?x / 1000" 64]
    by (simp add: calculate_price_from_amounts_def quotient_finite(1) [OF t] f64_lit_nat)
qed (simp add: calculate_price_from_amounts_def f64_lit_def of_exact_def)

lemma from_transaction_price [simp]: "tr_price (from_transaction m t q b sig us) = calculate_price_from_amounts q t"
  by (simp add: from_transaction_def calculate_price_from_amounts_def)

section \<open>Reachable stores\<close>

text \<open>The data a running bot leaves in Redis: updates of any order, with any requests failing.\<close>

inductive store_reach :: "'j codec \<Rightarrow> nat \<Rightarrow> (pubkey \<Rightarrow> string) \<Rightarrow> 'j redis_db \<Rightarrow> bool" for cd n base58 where
  start: "store_reach cd n base58 empty_db"
| update: "store_reach cd n base58 db \<Longrightarrow> 1000000000000 \<le> up_blocktime_us u
     \<Longrightarrow> store_reach cd n base58 (consume_update cd (Some n) base58 faults u db)"

definition book_inv :: "nat \<Rightarrow> book \<Rightarrow> bool" where
  "book_inv n b \<longleftrightarrow> (\<forall>mint. length (fst (b mint)) \<le> n \<and> distinct (map tr_signature (fst (b mint)))
     \<and> tr_signature ` set (fst (b mint)) \<subseteq> snd (b mint)
     \<and> (\<forall>r \<in> set (fst (b mint)). storable r \<and> tr_mint r = mint \<and> tr_price r = calculate_price_from_amounts (tr_sol_amount r) (tr_token_amount r)))"

lemma book_store_inv:
  assumes "book_inv n b" and "storable r" and "tr_mint r = mint" and "tr_price r = calculate_price_from_amounts (tr_sol_amount r) (tr_token_amount r)"
  shows "book_inv n (book_store n mint r b)"
proof (cases "tr_signature r \<in> snd (b mint)")
  case False
  let ?rs = "fst (b mint)"
  have "distinct (map tr_signature (r # ?rs))" using assms(1) False by (auto simp: book_inv_def)
  then have "distinct (map tr_signature (take n (r # ?rs)))" by (metis distinct_take take_map)
  moreover have "set (take n (r # ?rs)) \<subseteq> insert r (set ?rs)" using set_take_subset by fastforce
  ultimately show ?thesis using assms False by (auto simp: book_inv_def book_store_def)
qed (use assms in \<open>simp add: book_store_def\<close>)

lemma store_reach_book:
  assumes "store_reach cd n base58 db" and "1 \<le> n"
  shows "\<exists>b. represents cd db b \<and> book_inv n b"
  using assms(1)
proof induction
  case start
  show ?case by (rule exI [of _ "\<lambda>m. ([], {})"]) (simp add: represents_def empty_db_def book_inv_def)
next
  case (update db u faults)
  then obtain b where b: "represents cd db b" "book_inv n b" by blast
  let ?m = "base58 (up_mint u)"
  let ?r = "from_transaction ?m (up_token_amount u) (up_sol_amount u) (up_is_buy u) (up_signature u) (up_blocktime_us u)"
  have r: "storable ?r" "tr_mint ?r = ?m" "tr_price ?r = calculate_price_from_amounts (tr_sol_amount ?r) (tr_token_amount ?r)"
    using update.hyps(2) price_finite by (simp_all add: storable_def) (simp_all add: from_transaction_def)
  show ?case
    using store_trade_refines [OF assms(2) b(1), of faults ?m ?r] book_store_inv [OF b(2) r] b(2)
    by (auto simp: consume_update_def split: if_splits)
qed

section \<open>Properties\<close>



text \<open>A serialiser that keeps the record as it is, and two updates of one mint.\<close>

definition sample_codec :: "(token_trade_record \<times> json_value) codec" where
  "sample_codec = \<lparr>to_json = (\<lambda>r. (r, JInt (tr_blocktime_us r))), from_json = Inr\<rparr>"

definition sample_update :: "string \<Rightarrow> u64 \<Rightarrow> int \<Rightarrow> transaction_update" where
  "sample_update sig sol us = \<lparr>up_mint = 9, up_token_amount = 1000, up_sol_amount = sol, up_is_buy = True, up_signature = sig, up_blocktime_us = us\<rparr>"

definition sample_db :: "(token_trade_record \<times> json_value) redis_db" where
  "sample_db = consume_update sample_codec (Some 5) (\<lambda>k. ''m'') (False, False) (sample_update ''b'' 3000 1700000001000000)
     (consume_update sample_codec (Some 5) (\<lambda>k. ''m'') (False, False) (sample_update ''a'' 2000 1700000002000000) empty_db)"

lemma sample_codec_ok: "codec_ok sample_codec"
  by (simp add: codec_ok_def sample_codec_def)

lemma sample_db_reach: "store_reach sample_codec 5 (\<lambda>k. ''m'') sample_db"
  unfolding sample_db_def by (intro store_reach.intros) (simp_all add: sample_update_def)



text \<open>
  An update does not depend on which side of the pool the wrapped SOL is on: an event and the same event with base and
  quote exchanged give the same update, for the mint that is not wrapped SOL, with the wrapped-SOL reserve as its SOL
  amount. An event without wrapped SOL gives none.
\<close>

theorem update_ignores_pool_side:
  assumes "ev_base_mint e = WSOL_TOKEN_ACCOUNT" and "ev_quote_mint e \<noteq> WSOL_TOKEN_ACCOUNT"
    and "mirror = e\<lparr>ev_base_mint := ev_quote_mint e, ev_quote_mint := ev_base_mint e,
      ev_pool_base_token_reserves := ev_pool_quote_token_reserves e, ev_pool_quote_token_reserves := ev_pool_base_token_reserves e\<rparr>"
  shows "handle_event p is_buy mirror = handle_event p is_buy e
    \<and> (case handle_event p is_buy e of
         Some (Some u) \<Rightarrow> up_mint u = ev_quote_mint e \<and> up_sol_amount u = ev_pool_base_token_reserves e
           \<and> up_token_amount u = ev_pool_quote_token_reserves e
           \<and> (up_blocktime_us u = ev_timestamp e * 1000000 \<or> \<not> i64_range (ev_timestamp e * 1000000))
       | Some None \<Rightarrow> False
       | None \<Rightarrow> \<not> i64_range (ev_timestamp e * 1000000))
    \<and> handle_event p is_buy (e\<lparr>ev_base_mint := ev_quote_mint e\<rparr>) = Some None"
  using assms by (auto simp: handle_event_def Let_def i64_result_def)

definition sample_event :: pumpswap_event where
  "sample_event = \<lparr>ev_base_mint = WSOL_TOKEN_ACCOUNT, ev_quote_mint = 9, ev_pool_base_token_reserves = 500,
     ev_pool_quote_token_reserves = 1000, ev_timestamp = 1700000000, ev_signature = ''a''\<rparr>"

theorem update_ignores_pool_side_witness:
  "handle_event Checked True (sample_event\<lparr>ev_base_mint := 9, ev_quote_mint := WSOL_TOKEN_ACCOUNT,
      ev_pool_base_token_reserves := 1000, ev_pool_quote_token_reserves := 500\<rparr>) = handle_event Checked True sample_event"
proof -
  have "ev_base_mint sample_event = WSOL_TOKEN_ACCOUNT" "ev_quote_mint sample_event \<noteq> WSOL_TOKEN_ACCOUNT"
    by (simp_all add: sample_event_def token_account_defs)
  from update_ignores_pool_side [OF this refl, of Checked True] show ?thesis by (simp add: sample_event_def)
qed

end
