(* ===== verification/Trader.thy ===== *)
theory Trader
  imports Client PoolLookup TradeStore
begin

text \<open>
  The bot's trader (\<open>TradeInfo\<close> and \<open>Trader\<close> in \<open>src/trading.rs\<close>): what it keeps of a pool, how it looks one up with
  retries, its prices, and its buy and sell, which run the SDK's client. The RPC answers of one operation are the record
  \<open>bot_rpc\<close>; a lookup may get different answers at each attempt. An \<open>Address\<close> and a \<open>Pubkey\<close> with the same bytes are the
  same value here, so the conversions between them are the identity.
\<close>

section \<open>Pools as the bot keeps them\<close>

definition PUMP_PROGRAM_ID :: pubkey where
  "PUMP_PROGRAM_ID = 605814335005781813025241542787157911726959411820757128006101511735853521072"

definition PUMPSWAP_PROGRAM_ID :: pubkey where
  "PUMPSWAP_PROGRAM_ID = 5464630119619898166266341678619113288817485149253204375108042491183227316323"

definition WSOL_MINT :: pubkey where
  "WSOL_MINT = 2988679396378646993494765771507681406623014513651778753134412041978399162369"

definition MAYHEM_FEE_RECIPIENT_SWAP :: pubkey where
  "MAYHEM_FEE_RECIPIENT_SWAP = 49481547726565048646318432650770227098260736760985282972522608138456165918381"

record trade_info =
  ti_pool :: pubkey
  ti_base_mint :: pubkey
  ti_quote_mint :: pubkey
  ti_pool_base_token_account :: pubkey
  ti_pool_quote_token_account :: pubkey
  ti_pool_base_token_reserves :: u64
  ti_pool_quote_token_reserves :: u64
  ti_coin_creator_vault_ata :: pubkey
  ti_coin_creator_vault_authority :: pubkey
  ti_base_token_program :: pubkey
  ti_quote_token_program :: pubkey
  ti_fee_recipient :: pubkey
  ti_is_cashback_coin :: bool
  ti_is_mayhem_mode :: bool

definition from_pumpswap_params :: "pumpswap_params \<Rightarrow> trade_info" where
  "from_pumpswap_params params =
     \<lparr>ti_pool = ps_pool params, ti_base_mint = ps_base_mint params, ti_quote_mint = ps_quote_mint params,
      ti_pool_base_token_account = ps_pool_base_token_account params,
      ti_pool_quote_token_account = ps_pool_quote_token_account params,
      ti_pool_base_token_reserves = ps_pool_base_token_reserves params,
      ti_pool_quote_token_reserves = ps_pool_quote_token_reserves params,
      ti_coin_creator_vault_ata = ps_coin_creator_vault_ata params,
      ti_coin_creator_vault_authority = ps_coin_creator_vault_authority params,
      ti_base_token_program = ps_base_token_program params, ti_quote_token_program = ps_quote_token_program params,
      ti_fee_recipient = (if ps_is_mayhem_mode params then MAYHEM_FEE_RECIPIENT_SWAP else pubkey_default),
      ti_is_cashback_coin = ps_is_cashback_coin params, ti_is_mayhem_mode = ps_is_mayhem_mode params\<rparr>"

definition build_pumpswap_params_from_trade_info :: "trade_info \<Rightarrow> pumpswap_params" where
  "build_pumpswap_params_from_trade_info t =
     pumpswap_params_from_trade (ti_pool t) (ti_base_mint t) (ti_quote_mint t) (ti_pool_base_token_account t)
       (ti_pool_quote_token_account t) (ti_pool_base_token_reserves t) (ti_pool_quote_token_reserves t)
       (ti_coin_creator_vault_ata t) (ti_coin_creator_vault_authority t) (ti_base_token_program t)
       (ti_quote_token_program t) (ti_fee_recipient t) (ti_is_cashback_coin t)"

definition derive_pool_authority_address :: "chain_ext \<Rightarrow> pubkey \<Rightarrow> pubkey" where
  "derive_pool_authority_address ext mint =
     fst (find_program_address ext [str_bytes ''pool-authority'', pubkey_bytes mint] PUMP_PROGRAM_ID)"

definition derive_pumpswap_pool_address :: "chain_ext \<Rightarrow> pubkey \<Rightarrow> pubkey \<Rightarrow> pubkey \<Rightarrow> pubkey" where
  "derive_pumpswap_pool_address ext creator base_mint quote_mint =
     fst (find_program_address ext [str_bytes ''pool'', to_le_bytes (0 :: u16), pubkey_bytes creator, pubkey_bytes base_mint,
            pubkey_bytes quote_mint] PUMPSWAP_PROGRAM_ID)"

definition derive_canonical_pool_address :: "chain_ext \<Rightarrow> pubkey \<Rightarrow> pubkey" where
  "derive_canonical_pool_address ext mint =
     derive_pumpswap_pool_address ext (derive_pool_authority_address ext mint) mint WSOL_MINT"

definition derive_bonding_curve_address :: "chain_ext \<Rightarrow> pubkey \<Rightarrow> pubkey" where
  "derive_bonding_curve_address ext mint =
     fst (find_program_address ext [str_bytes ''bonding-curve'', pubkey_bytes mint] PUMP_PROGRAM_ID)"

section \<open>The trader\<close>

record trader =
  tdr_client :: trading_client
  tdr_slippage_bps :: u64
  tdr_max_retries :: nat
  tdr_retry_delay_ms :: u64
  tdr_buy_price :: "f64 option"
  tdr_buy_sol_amount :: u64

definition ascii_lower :: "char \<Rightarrow> char" where
  "ascii_lower c = (let v = of_char c :: nat in if 65 \<le> v \<and> v \<le> 90 then char_of (v + 32) else c)"

definition parse_jito_region :: "string \<Rightarrow> swqos_region" where
  "parse_jito_region region =
     (let r = map ascii_lower region in
      if r = ''frankfurt'' then Frankfurt else if r = ''newyork'' then NewYork else if r = ''tokyo'' then Tokyo
      else if r = ''amsterdam'' then Amsterdam else Frankfurt)"

definition bot_swqos_configs :: "string \<Rightarrow> bool \<Rightarrow> string option \<Rightarrow> string \<Rightarrow> swqos_config list" where
  "bot_swqos_configs url jito_enabled jito_uuid jito_region =
     (if jito_enabled then [CfgJito (unwrap_or jito_uuid []) (parse_jito_region jito_region) None] else [CfgDefault url])"

definition bot_trade_config :: "string \<Rightarrow> bool \<Rightarrow> string option \<Rightarrow> string \<Rightarrow> trade_config" where
  "bot_trade_config url jito_enabled jito_uuid jito_region =
     (trade_config_new url (bot_swqos_configs url jito_enabled jito_uuid jito_region))
       \<lparr>tc_create_wsol_ata_on_startup := True, tc_use_seed_optimize := False\<rparr>"

definition new_with_options ::
  "chain_ext \<Rightarrow> channel_env \<Rightarrow> tx_ext \<Rightarrow> wallet_rpc \<Rightarrow> nat list option \<Rightarrow> string \<Rightarrow> pubkey \<Rightarrow> u64 \<Rightarrow> nat \<Rightarrow> u64 \<Rightarrow> bool \<Rightarrow> string option \<Rightarrow> string
     \<Rightarrow> (sdk_state, trader) prog" where
  "new_with_options ext cx tex rpc cores url keypair slippage_bps max_retries retry_delay_ms jito_enabled jito_uuid jito_region =
     then_do (client_new ext cx tex rpc cores keypair (bot_trade_config url jito_enabled jito_uuid jito_region)) (\<lambda>client.
     ret \<lparr>tdr_client = client, tdr_slippage_bps = slippage_bps, tdr_max_retries = max_retries, tdr_retry_delay_ms = retry_delay_ms,
          tdr_buy_price = None, tdr_buy_sol_amount = 0\<rparr>)"

section \<open>Looking up a pool\<close>

definition try_fetch :: "chain_ext \<Rightarrow> pool_rpc \<Rightarrow> pubkey \<Rightarrow> (string + trade_info) rust" where
  "try_fetch ext rpc mint =
     (case find_by_mint ext rpc mint of
        None \<Rightarrow> None
      | Some (Inl e) \<Rightarrow> Some (Inl e)
      | Some (Inr (address, p)) \<Rightarrow> (case from_pool_data ext rpc address p of
          Inl e \<Rightarrow> Some (Inl e)
        | Inr params \<Rightarrow> Some (Inr (from_pumpswap_params params))))"

text \<open>The attempts of \<open>fetch_trade_info_with_retry\<close>, with the pauses in milliseconds that were slept.\<close>

fun fetch_attempts ::
  "chain_ext \<Rightarrow> profile \<Rightarrow> (nat \<Rightarrow> pool_rpc) \<Rightarrow> trader \<Rightarrow> pubkey \<Rightarrow> nat list \<Rightarrow> string option \<Rightarrow> (string + trade_info) rust \<times> u64 list" where
  "fetch_attempts ext p rpc self mint [] last_err =
     (Some (Inl (''Failed to fetch pool data. Last error: '' @ unwrap_or last_err ''Unknown error'')), [])"
| "fetch_attempts ext p rpc self mint (attempt # rest) last_err =
     (case try_fetch ext (rpc attempt) mint of
        None \<Rightarrow> (None, [])
      | Some (Inr info) \<Rightarrow> (Some (Inr info), [])
      | Some (Inl e) \<Rightarrow>
          if attempt < tdr_max_retries self - 1
          then (case mul_w p (tdr_retry_delay_ms self) (word_of_nat (attempt + 1)) of
            None \<Rightarrow> (None, [])
          | Some d \<Rightarrow> (case fetch_attempts ext p rpc self mint rest (Some e) of (r, ds) \<Rightarrow> (r, d # ds)))
          else fetch_attempts ext p rpc self mint rest (Some e))"

definition fetch_trade_info_with_retry ::
  "chain_ext \<Rightarrow> profile \<Rightarrow> (nat \<Rightarrow> pool_rpc) \<Rightarrow> trader \<Rightarrow> pubkey \<Rightarrow> (string + trade_info) rust \<times> u64 list" where
  "fetch_trade_info_with_retry ext p rpc self mint = fetch_attempts ext p rpc self mint [0..<tdr_max_retries self] None"

section \<open>Prices\<close>

definition set_buy_price :: "trader \<Rightarrow> f64 \<Rightarrow> u64 \<Rightarrow> trader" where
  "set_buy_price self price sol_amount = self\<lparr>tdr_buy_price := Some price, tdr_buy_sol_amount := sol_amount\<rparr>"

definition calculate_price_from_pool :: "trade_info \<Rightarrow> f64" where
  "calculate_price_from_pool t =
     (let base_reserves = f64_of_u64 (ti_pool_base_token_reserves t); quote_reserves = f64_of_u64 (ti_pool_quote_token_reserves t) in
      if f64_eq base_reserves (f64_lit 0) then f64_lit 0 else f64_div quote_reserves base_reserves)"

definition calculate_profit_loss_pct :: "trader \<Rightarrow> f64 \<Rightarrow> f64 option" where
  "calculate_profit_loss_pct self current_price =
     (case tdr_buy_price self of
        Some buy_price \<Rightarrow>
          if f64_lt (f64_lit 0) buy_price
          then Some (f64_mul (f64_div (f64_sub current_price buy_price) buy_price) (f64_lit 100)) else None
      | None \<Rightarrow> None)"

definition should_sell :: "trader \<Rightarrow> f64 \<Rightarrow> f64 \<Rightarrow> f64 \<Rightarrow> bool" where
  "should_sell self current_price profit_threshold stop_loss_threshold =
     (case calculate_profit_loss_pct self current_price of
        Some pct \<Rightarrow> if f64_le profit_threshold pct then True else f64_le pct (f64_neg stop_loss_threshold)
      | None \<Rightarrow> False)"

section \<open>Buying and selling\<close>

record bot_rpc =
  bot_balance :: "string + u64"
  bot_blockhash :: "string + hash"
  bot_token_balance :: "pubkey \<Rightarrow> string + (string + u64)"

definition bot_gas :: gas_table where
  "bot_gas = gas_run (set_global_fee_strategy_steps 150000 150000 500000 500000 (f64_lit (1 / 10000)) (f64_lit (1 / 10000))) gas_new"

definition GAS_RESERVE_LAMPORTS :: u64 where
  "GAS_RESERVE_LAMPORTS = 10000000"

definition required_balance :: "u64 \<Rightarrow> u64" where
  "required_balance sol_amount = unwrap_or (checked_add sol_amount GAS_RESERVE_LAMPORTS) (- 1)"

definition bot_buy_params :: "trader \<Rightarrow> trade_info \<Rightarrow> u64 \<Rightarrow> hash \<Rightarrow> trade_buy_params" where
  "bot_buy_params self t sol_amount blockhash =
     \<lparr>b_dex_type = PumpSwap, b_input_token_type = WSOL, b_mint = ti_base_mint t, b_input_token_amount = sol_amount,
      b_slippage_basis_points = Some (tdr_slippage_bps self), b_recent_blockhash = Some blockhash,
      b_extension_params = DexPumpSwap (build_pumpswap_params_from_trade_info t), b_address_lookup_table_account = None,
      b_wait_tx_confirmed = True, b_create_input_token_ata = True, b_close_input_token_ata = True, b_create_mint_ata = True,
      b_durable_nonce = None, b_fixed_output_token_amount = None, b_gas_fee_strategy = bot_gas, b_simulate = False,
      b_use_exact_sol_amount = Some True\<rparr>"

definition bot_sell_params :: "trader \<Rightarrow> trade_info \<Rightarrow> u64 \<Rightarrow> hash \<Rightarrow> trade_sell_params" where
  "bot_sell_params self t amount blockhash =
     \<lparr>s_dex_type = PumpSwap, s_output_token_type = WSOL, s_mint = ti_base_mint t, s_input_token_amount = amount,
      s_slippage_basis_points = Some (tdr_slippage_bps self), s_recent_blockhash = Some blockhash, s_with_tip = False,
      s_extension_params = DexPumpSwap (build_pumpswap_params_from_trade_info t), s_address_lookup_table_account = None,
      s_wait_tx_confirmed = True, s_create_output_token_ata = True, s_close_output_token_ata = True, s_close_mint_token_ata = True,
      s_durable_nonce = None, s_fixed_output_token_amount = None, s_gas_fee_strategy = bot_gas, s_simulate = False\<rparr>"

text \<open>\<open>None\<close> is a wait for confirmation that never ends.\<close>

type_synonym trader_result = "(unit outcome \<times> trader \<times> caches) option"

definition trader_buy :: "chain_ext \<Rightarrow> channel_env \<Rightarrow> tx_ext \<Rightarrow> profile \<Rightarrow> net \<Rightarrow> swqos_type list \<Rightarrow> bot_rpc \<Rightarrow> trader \<Rightarrow> trade_info \<Rightarrow> u64 \<Rightarrow> caches
     \<Rightarrow> trader_result" where
  "trader_buy ext cx tex p w order rpc self t sol_amount s =
     (case bot_balance rpc of
        Inl e \<Rightarrow> Some (Err ''Failed to get wallet balance'', self, s)
      | Inr wallet_balance \<Rightarrow>
          if wallet_balance < required_balance sol_amount then Some (Ok (), self, s)
          else
            let current_price = calculate_price_from_pool t in
            (case bot_blockhash rpc of
               Inl e \<Rightarrow> Some (Err ''Failed to get recent blockhash'', self, s)
             | Inr blockhash \<Rightarrow>
                 (case buy ext cx tex p w order (tdr_client self) (bot_buy_params self t sol_amount blockhash) s of
                    None \<Rightarrow> None
                  | Some (Ok (ok, sigs, err, ts), s') \<Rightarrow>
                      if ok then Some (Ok (), set_buy_price self current_price sol_amount, s') else Some (Err ''Buy failed'', self, s')
                  | Some (Err e, s') \<Rightarrow> Some (Err (''Buy error: '' @ e), self, s')
                  | Some (Panic, s') \<Rightarrow> Some (Panic, self, s'))))"

text \<open>
  \<open>spl_associated_token_account::get_associated_token_address\<close> is the derivation under the classic token program. An
  account that cannot be read, or an amount that cannot be parsed, counts as zero.
\<close>

definition get_token_balance :: "chain_ext \<Rightarrow> bot_rpc \<Rightarrow> trader \<Rightarrow> pubkey \<Rightarrow> u64" where
  "get_token_balance ext rpc self mint =
     (case bot_token_balance rpc (get_associated_token_address_with_program_id ext (cl_payer (tdr_client self)) mint TOKEN_PROGRAM) of
        Inr (Inr amount) \<Rightarrow> amount
      | _ \<Rightarrow> 0)"

definition trader_sell :: "chain_ext \<Rightarrow> channel_env \<Rightarrow> tx_ext \<Rightarrow> profile \<Rightarrow> net \<Rightarrow> swqos_type list \<Rightarrow> bot_rpc \<Rightarrow> trader \<Rightarrow> trade_info \<Rightarrow> caches
     \<Rightarrow> trader_result" where
  "trader_sell ext cx tex p w order rpc self t s =
     (let balance = get_token_balance ext rpc self (ti_base_mint t) in
      if balance = 0 then Some (Err ''No token balance to sell for mint'', self, s)
      else case bot_blockhash rpc of
        Inl e \<Rightarrow> Some (Err ''Failed to get recent blockhash'', self, s)
      | Inr blockhash \<Rightarrow>
          (case sell ext cx tex p w order (tdr_client self) (bot_sell_params self t balance blockhash) s of
             None \<Rightarrow> None
           | Some (Ok (ok, sigs, err, ts), s') \<Rightarrow> if ok then Some (Ok (), self, s') else Some (Err ''Sell failed'', self, s')
           | Some (Err e, s') \<Rightarrow> Some (Err (''Sell error: '' @ e), self, s')
           | Some (Panic, s') \<Rightarrow> Some (Panic, self, s')))"

section \<open>Other entry points of the SDK\<close>

definition find_pool_by_mint :: "chain_ext \<Rightarrow> pool_rpc \<Rightarrow> pubkey \<Rightarrow> dex_type \<Rightarrow> (string + pubkey) rust" where
  "find_pool_by_mint ext rpc mint dex =
     (if dex = PumpSwap then find_pool ext rpc mint else Some (Inl ''find_pool_by_mint not implemented''))"

section \<open>Lemmas\<close>

text \<open>A swap that waits reports success only after a poll that found a confirmed signature.\<close>

lemma swap_waited_confirmed:
  assumes "swap ext tex w order ex params s = Some (Ok (True, sigs, e, ts), s')" and "sp_wait_tx_confirmed params" and "\<not> sp_simulate params"
  shows "\<exists>sig n. confirmed_at w sigs n sig"
proof -
  obtain ixs s1 where ixs: "swap_instructions (fst ex) (snd ex) params s = (Ok ixs, s1)"
    using assms(1) by (cases "swap_instructions (fst ex) (snd ex) params s"; cases "fst (swap_instructions (fst ex) (snd ex) params s)")
      (auto simp: swap_def)
  obtain ok sigs' err ts' s2 where sub: "submit_batch ext tex w order (snd ex) params ixs s1 = (Ok (ok, sigs', err, ts'), s2)"
    using assms(1,3) ixs by (cases "submit_batch ext tex w order (snd ex) params ixs s1"; cases "fst (submit_batch ext tex w order (snd ex) params ixs s1)")
      (auto simp: swap_def)
  have some: "sigs' \<noteq> []" if "ok"
  proof -
    have "\<exists>a. fst (execute_parallel ext tex w order (sp_swqos_clients params) (swap_context params (snd ex) ixs) (sp_gas_fee_strategy params) (sp_check_min_tip params) s1)
        = Ok (True, sigs', a, ts')"
      using sub that by (auto simp: submit_batch_def split: prod.splits outcome.splits)
    then show ?thesis
      by (auto simp: execute_parallel_def no_result_answer_def all_answer_def split: sum.splits prod.splits option.splits if_splits)
  qed
  show ?thesis
  proof (cases "sigs' = []")
    case True
    then show ?thesis using assms ixs sub some by (auto simp: swap_def)
  next
    case False
    obtain sig where sig: "poll_any_transaction_confirmation w sigs' True = Some (Inr sig)" "sigs = sigs'"
      using assms ixs sub False by (auto simp: swap_def split: option.splits sum.splits)
    then have "poll_loop w sigs 0 None = Some (Inr sig)"
      using False by (cases sigs') (simp_all add: poll_any_transaction_confirmation_def)
    from poll_loop_sound [OF this, of sig] show ?thesis by auto
  qed
qed

lemma buy_waited_confirmed:
  assumes "buy ext cx tex p w order self params s = Some (Ok (True, sigs, e, ts), s')" and "b_wait_tx_confirmed params" and "\<not> b_simulate params"
  shows "\<exists>sig n. confirmed_at w sigs n sig"
proof -
  obtain clients where c: "convert_error (swap ext tex w order (create_executor ext p (b_dex_type params)) (buy_swap_params self clients params) s)
      = Some (Ok (True, sigs, e, ts), s')"
    using assms(1) by (auto simp: buy_def split: if_splits option.splits)
  then obtain e' where "swap ext tex w order (create_executor ext p (b_dex_type params)) (buy_swap_params self clients params) s = Some (Ok (True, sigs, e', ts), s')"
    by (auto simp: convert_error_def split: option.splits prod.splits outcome.splits)
  from swap_waited_confirmed [OF this] assms(2,3) show ?thesis by (simp add: buy_swap_params_def)
qed

text \<open>Without the plain RPC channel nothing is sent without a tip.\<close>

lemma untipped_needs_default:
  assumes "\<forall>c \<in> set (sp_swqos_clients params). client_type c \<noteq> SwqosDefault" and "\<not> swap_is_buy params" and "\<not> sp_with_tip params"
  shows "\<exists>e. submit_batch ext tex w order name params ixs s = (Ok (False, [], Some (OtherError e), []), s)"
proof -
  have "\<not> sh_with_tip (swap_context params name ixs)" using assms(2,3) by (simp add: swap_context_def)
  then have "\<exists>e. prepare_batch order (sp_swqos_clients params) n b (sh_with_tip (swap_context params name ixs)) g chk = Inl e" for n b g chk
    using assms(1) by (auto simp: prepare_batch_def)
  then obtain e where "prepare_batch order (sp_swqos_clients params) (sh_durable_nonce (swap_context params name ixs)) (sh_is_buy (swap_context params name ixs))
      (sh_with_tip (swap_context params name ixs)) (sp_gas_fee_strategy params) (sp_check_min_tip params) = Inl e" by blast
  then show ?thesis by (simp add: submit_batch_def execute_parallel_def)
qed

lemma those_mem: "those xs = Some ys \<Longrightarrow> y \<in> set ys \<Longrightarrow> Some y \<in> set xs"
  by (induction xs arbitrary: ys) (auto split: option.splits)

lemma untipped_sell_fails:
  assumes "\<forall>c \<in> set (infra_clients (cl_infrastructure self)). ch_type c \<noteq> SwqosDefault"
    and "\<not> s_with_tip params" and "\<not> s_simulate params"
    and "sell ext cx tex p w order self params s = Some (Ok (ok, sigs, e, ts), s')"
  shows "\<not> ok"
proof -
  obtain clients where c: "client_channels ext cx self = Some clients"
    "convert_error (swap ext tex w order (create_executor ext p (s_dex_type params)) (sell_swap_params self clients params) s) = Some (Ok (ok, sigs, e, ts), s')"
    using assms(4) by (auto simp: sell_def split: if_splits option.splits)
  let ?sp = "sell_swap_params self clients params"
  have "client_type k \<noteq> SwqosDefault" if "k \<in> set clients" for k
  proof -
    have "Some k \<in> set (map (swqos_client_of ext cx) (infra_clients (cl_infrastructure self)))"
      using those_mem c(1) that unfolding client_channels_def by metis
    then obtain x where "x \<in> set (infra_clients (cl_infrastructure self))" "swqos_client_of ext cx x = Some k" by auto
    then show ?thesis using assms(1) by (auto simp: swqos_client_of_def)
  qed
  then have sub: "\<exists>e. submit_batch ext tex w order n ?sp ixs s1 = (Ok (False, [], Some (OtherError e), []), s1)" for n ixs s1
    using assms(2) by (intro untipped_needs_default) (auto simp: sell_swap_params_def swap_is_buy_def)
  obtain e' where sw: "swap ext tex w order (create_executor ext p (s_dex_type params)) ?sp s = Some (Ok (ok, sigs, e', ts), s')"
    using c(2) by (auto simp: convert_error_def split: option.splits prod.splits outcome.splits)
  have sim: "\<not> sp_simulate ?sp" using assms(3) by (simp add: sell_swap_params_def)
  let ?ex = "create_executor ext p (s_dex_type params)"
  obtain ixs s1 where ixs: "swap_instructions (fst ?ex) (snd ?ex) ?sp s = (Ok ixs, s1)"
    using sw by (cases "swap_instructions (fst ?ex) (snd ?ex) ?sp s"; cases "fst (swap_instructions (fst ?ex) (snd ?ex) ?sp s)") (auto simp: swap_def)
  obtain x where "submit_batch ext tex w order (snd ?ex) ?sp ixs s1 = (Ok (False, [], Some (OtherError x), []), s1)" using sub by blast
  then show ?thesis using sw sim ixs by (simp add: swap_def)
qed

lemma then_do_OkE:
  assumes "then_do m f s = (Ok b, s')"
  obtains a s1 where "m s = (Ok a, s1)" "f a s1 = (Ok b, s')"
  using assms by (cases "m s"; cases "fst (m s)") (auto simp: then_do_run)

lemma of_rust_Ok: "of_rust x s = (Ok a, s') \<longleftrightarrow> x = Some a \<and> s' = s"
  by (cases x) auto

text \<open>The infrastructure of a trader that was created.\<close>

lemma new_with_options_infra:
  assumes "new_with_options ext cx tex rpc cores url keypair slippage retries delay jito uuid region st = (Ok self, st')"
  shows "infrastructure_new cx cores (from_trade_config (bot_trade_config url jito uuid region)) = Some (cl_infrastructure (tdr_client self))"
proof -
  let ?cfg = "bot_trade_config url jito uuid region"
  obtain c st1 where c: "client_new ext cx tex rpc cores keypair ?cfg st = (Ok c, st1)" "tdr_client self = c"
    using assms unfolding new_with_options_def by (rule then_do_OkE) auto
  obtain s inst where st: "st = (s, inst)" by (cases st)
  obtain s1 where "startup ext cx tex rpc cores keypair ?cfg s = (Ok c, s1)"
    using c(1) unfolding client_new_def
    by (rule then_do_OkE) (auto simp: st on_caches_def set_instance_def then_do_run split: prod.splits)
  then obtain infra where "infrastructure_new cx cores (from_trade_config ?cfg) = Some infra" "cl_infrastructure c = infra"
    unfolding startup_def by (elim then_do_OkE) (auto simp: of_rust_Ok client_of_infrastructure_def)
  then show ?thesis using c(2) by simp
qed

lemma jito_infrastructure:
  assumes "infrastructure_new cx cores (from_trade_config (bot_trade_config url True uuid region)) = Some infra"
  shows "\<exists>ch. infra_clients infra = [ch] \<and> ch_type ch = Jito"
proof -
  obtain e where "get_endpoint Jito (parse_jito_region region) None = Some e" using get_endpoint_total by blast
  then show ?thesis
    using assms by (auto simp: infrastructure_new_def from_trade_config_def bot_trade_config_def trade_config_new_def bot_swqos_configs_def
        is_blacklisted_def SWQOS_BLACKLIST_def new_client_def Let_def)
qed

lemma jito_client:
  assumes "new_with_options ext cx tex rpc cores url keypair slippage retries delay True uuid region st = (Ok self, st')"
  shows "\<forall>c \<in> set (infra_clients (cl_infrastructure (tdr_client self))). ch_type c \<noteq> SwqosDefault"
  using jito_infrastructure [OF new_with_options_infra [OF assms]] by auto

lemma jito_client_cannot_sell:
  assumes "\<forall>c \<in> set (infra_clients (cl_infrastructure (tdr_client self))). ch_type c \<noteq> SwqosDefault"
  shows "trader_sell ext cx tex p w order rpc self t s \<noteq> Some (Ok (), self', s')"
proof
  assume "trader_sell ext cx tex p w order rpc self t s = Some (Ok (), self', s')"
  then obtain amount h sigs e ts where
    "sell ext cx tex p w order (tdr_client self) (bot_sell_params self t amount h) s = Some (Ok (True, sigs, e, ts), s')"
    by (auto simp: trader_sell_def Let_def split: sum.splits option.splits prod.splits outcome.splits if_splits)
  from untipped_sell_fails [OF assms _ _ this] show False by (simp add: bot_sell_params_def)
qed

text \<open>The pauses between failed attempts.\<close>

definition pauses :: "trader \<Rightarrow> nat \<Rightarrow> nat \<Rightarrow> u64 list" where
  "pauses self j k = map (\<lambda>i. tdr_retry_delay_ms self * word_of_nat (i + 1)) [j..<k]"

lemma pause_ok:
  assumes "unat d * k < 2 ^ 64" and "j < k"
  shows "mul_w p d (word_of_nat (j + 1) :: u64) = Some (d * word_of_nat (j + 1))"
proof -
  have "unat (word_of_nat (j + 1) :: u64) \<le> j + 1" by (simp only: unat_of_nat mod_less_eq_dividend)
  then have "unat d * unat (word_of_nat (j + 1) :: u64) \<le> unat d * k" using assms(2) by (intro mult_le_mono2) simp
  then have "unat d * unat (word_of_nat (j + 1) :: u64) < 2 ^ 64" using assms(1) by linarith
  then show ?thesis by (simp add: mul_w_def del: of_nat_add)
qed

lemma fetch_attempts_fail_step:
  assumes "j < n" and "try_fetch ext (rpc j) mint = Some (Inl e)" and "tdr_max_retries self = n" and "unat (tdr_retry_delay_ms self) * (n - 1) < 2 ^ 64"
  shows "fetch_attempts ext p rpc self mint [j..<n] l =
    (let (r, ds) = fetch_attempts ext p rpc self mint [Suc j..<n] (Some e)
     in (r, (if Suc j < n then [tdr_retry_delay_ms self * word_of_nat (j + 1)] else []) @ ds))"
proof -
  have "[j..<n] = j # [Suc j..<n]" using assms(1) by (rule upt_conv_Cons)
  moreover have "j < n - 1 \<longleftrightarrow> Suc j < n" by linarith
  ultimately show ?thesis using assms(2,3) pause_ok [OF assms(4), of j p] by (simp add: Let_def case_prod_beta del: of_nat_add)
qed

lemma fetch_attempts_success:
  assumes "j \<le> k" and "k < n" and "tdr_max_retries self = n" and "unat (tdr_retry_delay_ms self) * (n - 1) < 2 ^ 64"
    and "\<forall>i. j \<le> i \<and> i < k \<longrightarrow> (\<exists>e. try_fetch ext (rpc i) mint = Some (Inl e))" and "try_fetch ext (rpc k) mint = Some (Inr info)"
  shows "fetch_attempts ext p rpc self mint [j..<n] l = (Some (Inr info), pauses self j k)"
  using assms(1,5)
proof (induction "k - j" arbitrary: j l)
  case 0
  then have "j = k" by simp
  then show ?case using assms(2,6) by (simp add: upt_conv_Cons pauses_def)
next
  case (Suc m)
  then have jk: "j < k" by simp
  obtain e where e: "try_fetch ext (rpc j) mint = Some (Inl e)" using Suc.prems(2) jk by auto
  have IH: "fetch_attempts ext p rpc self mint [Suc j..<n] (Some e) = (Some (Inr info), pauses self (Suc j) k)"
    using Suc.hyps(2) Suc.prems(2) jk by (intro Suc.hyps(1)) auto
  have "j < n" "Suc j < n" using jk assms(2) by auto
  then show ?case
    unfolding fetch_attempts_fail_step [of j n ext rpc mint e self p l, OF \<open>j < n\<close> e assms(3,4)] IH using jk by (simp add: pauses_def upt_conv_Cons)
qed

lemma fetch_attempts_exhausted:
  assumes "j \<le> n" and "tdr_max_retries self = n" and "unat (tdr_retry_delay_ms self) * (n - 1) < 2 ^ 64"
    and "\<forall>i. j \<le> i \<and> i < n \<longrightarrow> (\<exists>e. try_fetch ext (rpc i) mint = Some (Inl e))"
  shows "\<exists>e. fetch_attempts ext p rpc self mint [j..<n] l = (Some (Inl e), pauses self j (n - 1))"
  using assms(1,4)
proof (induction "n - j" arbitrary: j l)
  case 0
  then show ?case by (simp add: pauses_def)
next
  case (Suc m)
  then have jn: "j < n" by simp
  obtain e where e: "try_fetch ext (rpc j) mint = Some (Inl e)" using Suc.prems(2) jn by auto
  have diff_Suc_eq: "m = n - Suc j" using Suc.hyps(2) by linarith
  obtain e' where IH: "fetch_attempts ext p rpc self mint [Suc j..<n] (Some e) = (Some (Inl e'), pauses self (Suc j) (n - 1))"
    using Suc.hyps(1) [of "Suc j" "Some e", OF diff_Suc_eq Suc_leI [OF jn]] Suc.prems(2) by auto
  have "[j..<n - 1] = (if Suc j < n then j # [Suc j..<n - 1] else [])" using jn by (auto simp: upt_conv_Cons)
  then show ?case
    unfolding fetch_attempts_fail_step [of j n ext rpc mint e self p l, OF jn e assms(2,3)] IH by (simp add: pauses_def)
qed

section \<open>Properties\<close>

text \<open>
  The parameters a trade is built from are those of the pool, save one: keeping a pool and building parameters from
  it again changes nothing but the mayhem flag, which is always lost, because the bot marks a mayhem pool with a fee
  recipient that the SDK does not recognise as one.
\<close>

theorem trade_info_roundtrip:
  "build_pumpswap_params_from_trade_info (from_pumpswap_params params) = params\<lparr>ps_is_mayhem_mode := False\<rparr>"
proof -
  have "MAYHEM_FEE_RECIPIENT_SWAP \<noteq> MAYHEM_FEE_RECIPIENT" "pubkey_default \<noteq> MAYHEM_FEE_RECIPIENT"
    by (simp_all add: MAYHEM_FEE_RECIPIENT_SWAP_def MAYHEM_FEE_RECIPIENT_def MAYHEM_FEE_RECIPIENTS_def pubkey_default_def)
  then show ?thesis
    by (simp add: build_pumpswap_params_from_trade_info_def from_pumpswap_params_def pumpswap_params_from_trade_def pumpswap_params_new_def)
qed

text \<open>The bot's own derivation of a token's standard pool is the SDK's.\<close>

theorem canonical_pool_agrees: "derive_canonical_pool_address ext mint = get_canonical_pool_pda ext mint"
  by (simp add: derive_canonical_pool_address_def derive_pumpswap_pool_address_def derive_pool_authority_address_def
      get_canonical_pool_pda_def get_pump_pool_authority_pda_def PUMP_PROGRAM_ID_def PUMPFUN_def PUMPSWAP_PROGRAM_ID_def
      PUMPSWAP_AMM_PROGRAM_def WSOL_MINT_def WSOL_TOKEN_ACCOUNT_def)

text \<open>
  A purchase the trader reports as done was either skipped or confirmed. With less than the amount and the gas
  reserve in the wallet nothing is sent and nothing changes, though the answer is success; otherwise the chain had
  confirmed one of the signatures sent, and the trader remembers the pool's price and the amount.
\<close>

theorem trader_buy_outcome:
  assumes "trader_buy ext cx tex p w order rpc self t sol_amount s = Some (Ok (), self', s')"
  shows "\<exists>balance. bot_balance rpc = Inr balance
    \<and> (if balance < required_balance sol_amount then self' = self \<and> s' = s
       else self' = set_buy_price self (calculate_price_from_pool t) sol_amount
         \<and> (\<exists>sigs sig n. confirmed_at w sigs n sig))"
proof -
  obtain balance where b: "bot_balance rpc = Inr balance" using assms by (auto simp: trader_buy_def split: sum.splits)
  show ?thesis
  proof (cases "balance < required_balance sol_amount")
    case True
    then show ?thesis using assms b by (simp add: trader_buy_def)
  next
    case False
    obtain h where h: "bot_blockhash rpc = Inr h" using assms b False by (auto simp: trader_buy_def Let_def split: sum.splits)
    obtain sigs e ts where run: "buy ext cx tex p w order (tdr_client self) (bot_buy_params self t sol_amount h) s = Some (Ok (True, sigs, e, ts), s')"
      "self' = set_buy_price self (calculate_price_from_pool t) sol_amount"
      using assms b False h by (auto simp: trader_buy_def Let_def split: option.splits prod.splits outcome.splits if_splits)
    have "\<exists>sig n. confirmed_at w sigs n sig" by (rule buy_waited_confirmed [OF run(1)]) (simp_all add: bot_buy_params_def)
    then show ?thesis using b False run(2) by auto
  qed
qed

text \<open>
  With Jito enabled the bot cannot sell. Jito is then its only channel, a sale carries no tip, and without a tip only
  the plain RPC channel may be used: whatever the chain answers, no sale ever succeeds.
\<close>

theorem jito_bot_cannot_sell:
  assumes "new_with_options ext cx tex rpc cores url keypair slippage retries delay True uuid region st = (Ok self, st')"
  shows "trader_sell ext cx' tex p w order brpc (self\<lparr>tdr_buy_price := bp, tdr_buy_sol_amount := ba\<rparr>) t s \<noteq> Some (Ok (), self', s')"
  using jito_client [OF assms] by (intro jito_client_cannot_sell) simp

text \<open>
  Looking up a pool ends after at most the configured number of attempts. If attempt \<open>k\<close> is the first to find the
  pool, its data is returned after \<open>k\<close> pauses, of one, two, up to \<open>k\<close> times the configured delay; if every attempt fails,
  the lookup fails after all of them, without a pause after the last.
\<close>

theorem fetch_retries:
  assumes "unat (tdr_retry_delay_ms self) * (tdr_max_retries self - 1) < 2 ^ 64"
  shows "(k < tdr_max_retries self \<and> (\<forall>i < k. \<exists>e. try_fetch ext (rpc i) mint = Some (Inl e)) \<and> try_fetch ext (rpc k) mint = Some (Inr info)
      \<longrightarrow> fetch_trade_info_with_retry ext p rpc self mint = (Some (Inr info), pauses self 0 k))
    \<and> ((\<forall>i < tdr_max_retries self. \<exists>e. try_fetch ext (rpc i) mint = Some (Inl e))
      \<longrightarrow> (\<exists>e. fetch_trade_info_with_retry ext p rpc self mint = (Some (Inl e), pauses self 0 (tdr_max_retries self - 1))))"
  using assms fetch_attempts_success [of 0 k "tdr_max_retries self" self ext rpc mint info p None]
    fetch_attempts_exhausted [of 0 "tdr_max_retries self" self ext rpc mint p None]
  unfolding fetch_trade_info_with_retry_def by auto

definition sample_bot :: trader where
  "sample_bot = \<lparr>tdr_client = sample_trader, tdr_slippage_bps = 500, tdr_max_retries = 3, tdr_retry_delay_ms = 1000, tdr_buy_price = None,
     tdr_buy_sol_amount = 0\<rparr>"

lemma sample_try_fetch:
  "\<exists>info. try_fetch sample_ext sample_node 9 = Some (Inr info) \<and> ti_pool_base_token_reserves info = 5000 \<and> ti_pool_quote_token_reserves info = 5000"
proof -
  obtain a where "find_by_mint sample_ext sample_node 9 = Some (Inr (a, sample_pool_account))" using sample_node_found by blast
  then show ?thesis by (simp add: try_fetch_def from_pool_data_def get_token_balances_def sample_node_def from_pumpswap_params_def)
qed

text \<open>A node that has the pool at the second attempt only.\<close>

definition late_node :: "nat \<Rightarrow> pool_rpc" where
  "late_node i = (if i = 0 then sample_node\<lparr>get_account := (\<lambda>a. Inl ''not found'')\<rparr> else sample_node)"

theorem fetch_retries_witness:
  "\<exists>info. fetch_trade_info_with_retry sample_ext Checked late_node sample_bot 9 = (Some (Inr info), [1000])"
proof -
  obtain info where info: "try_fetch sample_ext (late_node 1) 9 = Some (Inr info)" using sample_try_fetch by (auto simp: late_node_def)
  have "\<exists>e. try_fetch sample_ext (late_node 0) 9 = Some (Inl e)"
    by (simp add: try_fetch_def find_by_mint_def get_pool_v2_pda_def fetch_pool_def late_node_def sample_node_def scan_pools_def
        find_by_base_mint_def find_by_quote_mint_def find_at_offset_def get_program_accounts_both_sizes_def result_or_empty_def Let_def)
  then have "\<forall>i < 1. \<exists>e. try_fetch sample_ext (late_node i) 9 = Some (Inl e)" by (simp add: less_Suc_eq)
  then show ?thesis
    using fetch_retries [of sample_bot 1 sample_ext late_node 9 info Checked] info
    by (auto simp: sample_bot_def pauses_def)
qed

definition poor_rpc :: bot_rpc where
  "poor_rpc = \<lparr>bot_balance = Inr 10000000, bot_blockhash = Inr 3, bot_token_balance = (\<lambda>a. Inl ''none'')\<rparr>"

theorem trader_buy_outcome_witness:
  "trader_buy sample_ext sample_env sample_tx_ext Checked sample_net [SwqosDefault] poor_rpc sample_bot (from_pumpswap_params sample_pumpswap) 1000 sample_caches
     = Some (Ok (), sample_bot, sample_caches)
   \<and> (\<exists>balance. bot_balance poor_rpc = Inr balance \<and> balance < required_balance 1000)"
proof -
  have run: "trader_buy sample_ext sample_env sample_tx_ext Checked sample_net [SwqosDefault] poor_rpc sample_bot (from_pumpswap_params sample_pumpswap) 1000 sample_caches
     = Some (Ok (), sample_bot, sample_caches)"
    by (simp add: trader_buy_def poor_rpc_def required_balance_def GAS_RESERVE_LAMPORTS_def checked_add_def)
  have "sample_bot \<noteq> set_buy_price sample_bot x y" for x y by (simp add: sample_bot_def set_buy_price_def)
  then show ?thesis using run trader_buy_outcome [OF run] by metis
qed

definition rich_wallet :: wallet_rpc where
  "rich_wallet = poor_wallet\<lparr>account_exists := (\<lambda>n k. True)\<rparr>"

lemma rich_wallet_trader:
  "\<exists>self st'. new_with_options sample_ext sample_env sample_tx_ext rich_wallet None url 7 slippage retries delay jito uuid region (caches_init, None) = (Ok self, st')"
proof -
  let ?cfg = "bot_trade_config url jito uuid region"
  obtain infra where infra: "infrastructure_new sample_env None (from_trade_config ?cfg) = Some infra" using infrastructure_new_some by blast
  have "\<not> startup_panics sample_ext sample_tx_ext rich_wallet 7 ?cfg" by (simp add: startup_panics_def wsol_setup_fails_def rich_wallet_def)
  then obtain c where "fst (startup sample_ext sample_env sample_tx_ext rich_wallet None 7 ?cfg caches_init) = Ok c"
    using startup_result [OF infra] by simp
  then show ?thesis
    by (cases "startup sample_ext sample_env sample_tx_ext rich_wallet None 7 ?cfg caches_init")
       (auto simp: new_with_options_def client_new_def then_do_run on_caches_run set_instance_def)
qed

theorem jito_bot_cannot_sell_witness:
  "\<exists>self st'. new_with_options sample_ext sample_env sample_tx_ext rich_wallet None ''http://rpc'' 7 500 3 1000 True None ''Tokyo'' (caches_init, None) = (Ok self, st')
     \<and> trader_sell sample_ext sample_env sample_tx_ext Checked sample_net [Jito] poor_rpc self (from_pumpswap_params sample_pumpswap) sample_caches
         \<noteq> Some (Ok (), self, sample_caches)"
proof -
  obtain self st' where self: "new_with_options sample_ext sample_env sample_tx_ext rich_wallet None ''http://rpc'' 7 500 3 1000 True None ''Tokyo'' (caches_init, None) = (Ok self, st')"
    using rich_wallet_trader by blast
  show ?thesis
    using self jito_bot_cannot_sell [OF self, where bp = "tdr_buy_price self" and ba = "tdr_buy_sol_amount self"] by auto
qed

end
