(* ===== verification/Strategy.thy ===== *)
theory Strategy
  imports Trader
begin

text \<open>
  The bot's strategy (\<open>src/strategy.rs\<close>, \<open>src/config.rs\<close>, \<open>src/main.rs\<close>): the configuration with its defaults, the
  positions it holds, what makes it buy and sell, and the loop that checks every active mint. What does not change while the
  bot runs is the record \<open>bot_env\<close>. What a single check of a mint meets is the record \<open>moment\<close>: the data each of its requests
  to Redis finds, since the subscription task writes between them, the clock, failures, and the answers of the chain. A
  run that never comes back (a confirmation that is awaited for ever) is \<open>None\<close>.
\<close>

section \<open>Configuration\<close>

record bot_config =
  cfg_grpc_url :: string
  cfg_rpc_url :: string
  cfg_grpc_token :: "string option"
  cfg_private_key :: string
  cfg_target_mint :: string
  cfg_buy_amount_sol :: f64
  cfg_hold_seconds :: u64
  cfg_slippage_bps :: u64
  cfg_max_retries :: u32
  cfg_retry_delay_ms :: u64
  cfg_jito_enabled :: bool
  cfg_jito_uuid :: "string option"
  cfg_jito_region :: string
  cfg_redis_url :: string
  cfg_max_trades_per_token :: nat
  cfg_buy_threshold_pct :: f64
  cfg_buy_time_window_sec :: u64
  cfg_buy_record_count :: nat
  cfg_sell_profit_pct :: f64
  cfg_sell_stop_loss_pct :: f64

definition default_max_retries :: u32 where "default_max_retries = 5"
definition default_retry_delay_ms :: u64 where "default_retry_delay_ms = 1000"
definition default_jito_enabled :: bool where "default_jito_enabled = False"
definition default_jito_region :: string where "default_jito_region = ''Frankfurt''"
definition default_redis_url :: string where "default_redis_url = ''redis://127.0.0.1/''"
definition default_max_trades_per_token :: nat where "default_max_trades_per_token = 1000"
definition default_buy_threshold_pct :: f64 where "default_buy_threshold_pct = f64_lit 10"
definition default_buy_time_window_sec :: u64 where "default_buy_time_window_sec = 5"
definition default_buy_record_count :: nat where "default_buy_record_count = 5"
definition default_sell_profit_pct :: f64 where "default_sell_profit_pct = f64_lit 10"
definition default_sell_stop_loss_pct :: f64 where "default_sell_stop_loss_pct = f64_lit 5"

text \<open>The fields of the file as the JSON parser gives them: those with a default may be missing.\<close>

record config_file =
  cf_grpc_url :: string
  cf_rpc_url :: string
  cf_grpc_token :: "string option"
  cf_private_key :: string
  cf_target_mint :: string
  cf_buy_amount_sol :: f64
  cf_hold_seconds :: u64
  cf_slippage_bps :: u64
  cf_max_retries :: "u32 option"
  cf_retry_delay_ms :: "u64 option"
  cf_jito_enabled :: "bool option"
  cf_jito_uuid :: "string option"
  cf_jito_region :: "string option"
  cf_redis_url :: "string option"
  cf_max_trades_per_token :: "nat option"
  cf_buy_threshold_pct :: "f64 option"
  cf_buy_time_window_sec :: "u64 option"
  cf_buy_record_count :: "nat option"
  cf_sell_profit_pct :: "f64 option"
  cf_sell_stop_loss_pct :: "f64 option"

definition config_of_file :: "config_file \<Rightarrow> bot_config" where
  "config_of_file f =
     \<lparr>cfg_grpc_url = cf_grpc_url f, cfg_rpc_url = cf_rpc_url f, cfg_grpc_token = cf_grpc_token f, cfg_private_key = cf_private_key f,
      cfg_target_mint = cf_target_mint f, cfg_buy_amount_sol = cf_buy_amount_sol f, cfg_hold_seconds = cf_hold_seconds f,
      cfg_slippage_bps = cf_slippage_bps f, cfg_max_retries = unwrap_or (cf_max_retries f) default_max_retries,
      cfg_retry_delay_ms = unwrap_or (cf_retry_delay_ms f) default_retry_delay_ms,
      cfg_jito_enabled = unwrap_or (cf_jito_enabled f) default_jito_enabled, cfg_jito_uuid = cf_jito_uuid f,
      cfg_jito_region = unwrap_or (cf_jito_region f) default_jito_region, cfg_redis_url = unwrap_or (cf_redis_url f) default_redis_url,
      cfg_max_trades_per_token = unwrap_or (cf_max_trades_per_token f) default_max_trades_per_token,
      cfg_buy_threshold_pct = unwrap_or (cf_buy_threshold_pct f) default_buy_threshold_pct,
      cfg_buy_time_window_sec = unwrap_or (cf_buy_time_window_sec f) default_buy_time_window_sec,
      cfg_buy_record_count = unwrap_or (cf_buy_record_count f) default_buy_record_count,
      cfg_sell_profit_pct = unwrap_or (cf_sell_profit_pct f) default_sell_profit_pct,
      cfg_sell_stop_loss_pct = unwrap_or (cf_sell_stop_loss_pct f) default_sell_stop_loss_pct\<rparr>"

text \<open>\<open>from_file\<close>: the two arguments are the answers of the file system and of the JSON parser.\<close>

definition from_file :: "(string \<Rightarrow> string + string) \<Rightarrow> (string \<Rightarrow> string + config_file) \<Rightarrow> string \<Rightarrow> string + bot_config" where
  "from_file read_to_string parse path =
     (case read_to_string path of
        Inl e \<Rightarrow> Inl (''Failed to read config file: '' @ path)
      | Inr text \<Rightarrow> (case parse text of
          Inl e \<Rightarrow> Inl ''Failed to parse config JSON''
        | Inr f \<Rightarrow> Inr (config_of_file f)))"

text \<open>A key pair is represented by its public key; decoding it from base 58 is an argument.\<close>

definition get_keypair :: "(string \<Rightarrow> string + pubkey) \<Rightarrow> bot_config \<Rightarrow> string + pubkey" where
  "get_keypair keypair_of cfg =
     (case keypair_of (cfg_private_key cfg) of Inl e \<Rightarrow> Inl (''Invalid private key: '' @ e) | Inr k \<Rightarrow> Inr k)"

definition get_target_mint :: "(string \<Rightarrow> string + pubkey) \<Rightarrow> bot_config \<Rightarrow> string + pubkey" where
  "get_target_mint pubkey_of cfg =
     (case pubkey_of (cfg_target_mint cfg) of Inl e \<Rightarrow> Inl (''Invalid target mint address: '' @ e) | Inr k \<Rightarrow> Inr k)"

definition buy_amount_lamports :: "bot_config \<Rightarrow> u64" where
  "buy_amount_lamports cfg = u64_of_f64 (f64_mul (cfg_buy_amount_sol cfg) (f64_lit 1000000000))"

section \<open>State\<close>

record token_position =
  tp_mint :: string
  tp_buy_price :: f64
  tp_buy_sol_amount :: u64
  tp_trade_info :: trade_info

text \<open>The store is up or not; when it is, its limit. The SDK's process-wide caches are part of the state.\<close>

record strategy =
  st_config :: bot_config
  st_trader :: trader
  st_positions :: "string \<rightharpoonup> token_position"
  st_trade_info_cache :: "string \<rightharpoonup> trade_info"
  st_redis_store :: "nat option"
  st_sdk :: caches

record 'j bot_env =
  be_ext :: chain_ext
  be_channels :: channel_env
  be_tx :: tx_ext
  be_profile :: profile
  be_codec :: "'j codec"
  be_keypair_of :: "string \<Rightarrow> string + pubkey"
  be_pubkey_of :: "string \<Rightarrow> string + pubkey"

record 'j moment =
  at_db :: "nat \<Rightarrow> 'j redis_db"
  at_now :: "nat \<Rightarrow> int"
  at_fault :: "nat \<Rightarrow> bool"
  at_net :: net
  at_order :: "swqos_type list"
  at_rpc :: bot_rpc
  at_pools :: "nat \<Rightarrow> pool_rpc"

type_synonym 'a run = "strategy \<Rightarrow> ('a outcome \<times> strategy) option"

definition run_then :: "'a run \<Rightarrow> ('a \<Rightarrow> 'b run) \<Rightarrow> 'b run" where
  "run_then m f s =
     (case m s of
        None \<Rightarrow> None
      | Some (Ok a, s') \<Rightarrow> f a s'
      | Some (Err e, s') \<Rightarrow> Some (Err e, s')
      | Some (Panic, s') \<Rightarrow> Some (Panic, s'))"

definition run_ret :: "'a \<Rightarrow> 'a run" where
  "run_ret a s = Some (Ok a, s)"

section \<open>Starting\<close>

text \<open>
  \<open>TradingStrategy::new\<close>: a Redis URL that the client library rejects (\<open>redis_ok\<close> is false) leaves the bot without a store.
\<close>

definition strategy_new :: "'j bot_env \<Rightarrow> wallet_rpc \<Rightarrow> nat list option \<Rightarrow> bool \<Rightarrow> bot_config \<Rightarrow> (sdk_state, strategy) prog" where
  "strategy_new env rpc cores redis_ok cfg st =
     (case get_keypair (be_keypair_of env) cfg of
        Inl e \<Rightarrow> (Err e, st)
      | Inr keypair \<Rightarrow>
          (case new_with_options (be_ext env) (be_channels env) (be_tx env) rpc cores (cfg_rpc_url cfg) keypair (cfg_slippage_bps cfg)
                  (unat (cfg_max_retries cfg)) (cfg_retry_delay_ms cfg) (cfg_jito_enabled cfg) (cfg_jito_uuid cfg) (cfg_jito_region cfg) st of
             (Err e, st') \<Rightarrow> (Err ''Failed to create Trader instance'', st')
           | (Panic, st') \<Rightarrow> (Panic, st')
           | (Ok self, st') \<Rightarrow>
               (Ok \<lparr>st_config = cfg, st_trader = self, st_positions = Map.empty, st_trade_info_cache = Map.empty,
                    st_redis_store = (if redis_ok then Some (cfg_max_trades_per_token cfg) else None), st_sdk = fst st'\<rparr>, st')))"

section \<open>Market data\<close>

definition is_holding :: "string \<Rightarrow> strategy \<Rightarrow> bool" where
  "is_holding mint st \<longleftrightarrow> st_positions st mint \<noteq> None"

definition strategy_active_mints :: "bool \<Rightarrow> string list option \<Rightarrow> string list run" where
  "strategy_active_mints up keys st =
     (case st_redis_store st of
        None \<Rightarrow> Some (Ok [], st)
      | Some _ \<Rightarrow> Some (case get_active_mints up keys of Inl e \<Rightarrow> Err e | Inr ms \<Rightarrow> Ok ms, st))"

text \<open>Request 0 of a check reads the latest price, request 1 the recent records.\<close>

definition get_latest_trade_price :: "'j bot_env \<Rightarrow> 'j moment \<Rightarrow> string \<Rightarrow> f64 option run" where
  "get_latest_trade_price env m mint st =
     (case st_redis_store st of
        Some _ \<Rightarrow> Some (fst (get_latest_price_from_trades (be_profile env) (at_now m 0) (be_codec env) (at_fault m 0) mint (at_db m 0)), st)
      | None \<Rightarrow> Some (Ok None, st))"

definition check_price_increase :: "'j bot_env \<Rightarrow> 'j moment \<Rightarrow> string \<Rightarrow> bool run" where
  "check_price_increase env m mint st =
     (case st_redis_store st of
        None \<Rightarrow> Some (Ok False, st)
      | Some _ \<Rightarrow>
          run_then (\<lambda>s. Some (fst (calculate_price_change_from_records (be_profile env) (at_now m 1) (be_codec env) (at_fault m 1) mint
                                     (cfg_buy_record_count (st_config st)) (at_db m 1)), s))
            (\<lambda>price_change. case price_change of
               Some change \<Rightarrow> run_ret (f64_le (cfg_buy_threshold_pct (st_config st)) change)
             | None \<Rightarrow> run_ret False) st)"

section \<open>Trading\<close>

definition get_or_fetch_trade_info :: "'j bot_env \<Rightarrow> 'j moment \<Rightarrow> string \<Rightarrow> trade_info run" where
  "get_or_fetch_trade_info env m mint st =
     (case st_trade_info_cache st mint of
        Some info \<Rightarrow> Some (Ok info, st)
      | None \<Rightarrow>
          (case be_pubkey_of env mint of
             Inl e \<Rightarrow> Some (Err (''Invalid mint address: '' @ mint), st)
           | Inr mint_pubkey \<Rightarrow>
               (case fst (fetch_trade_info_with_retry (be_ext env) (be_profile env) (at_pools m) (st_trader st) mint_pubkey) of
                  None \<Rightarrow> Some (Panic, st)
                | Some (Inl e) \<Rightarrow> Some (Err (''Failed to fetch TradeInfo for '' @ mint), st)
                | Some (Inr info) \<Rightarrow> Some (Ok info, st\<lparr>st_trade_info_cache := (st_trade_info_cache st)(mint \<mapsto> info)\<rparr>))))"

definition strategy_trader_buy :: "'j bot_env \<Rightarrow> 'j moment \<Rightarrow> trade_info \<Rightarrow> unit run" where
  "strategy_trader_buy env m t st =
     (case trader_buy (be_ext env) (be_channels env) (be_tx env) (be_profile env) (at_net m) (at_order m) (at_rpc m) (st_trader st) t
             (buy_amount_lamports (st_config st)) (st_sdk st) of
        None \<Rightarrow> None
      | Some (r, self, sdk) \<Rightarrow> Some (r, st\<lparr>st_trader := self, st_sdk := sdk\<rparr>))"

definition strategy_trader_sell :: "'j bot_env \<Rightarrow> 'j moment \<Rightarrow> trade_info \<Rightarrow> unit run" where
  "strategy_trader_sell env m t st =
     (case trader_sell (be_ext env) (be_channels env) (be_tx env) (be_profile env) (at_net m) (at_order m) (at_rpc m) (st_trader st) t (st_sdk st) of
        None \<Rightarrow> None
      | Some (r, self, sdk) \<Rightarrow> Some (r, st\<lparr>st_trader := self, st_sdk := sdk\<rparr>))"

definition execute_buy :: "'j bot_env \<Rightarrow> 'j moment \<Rightarrow> string \<Rightarrow> unit run" where
  "execute_buy env m mint st =
     (if is_holding mint st then Some (Ok (), st)
      else run_then (get_or_fetch_trade_info env m mint) (\<lambda>trade_info.
           let current_price = calculate_price_from_pool trade_info in
           run_then (strategy_trader_buy env m trade_info) (\<lambda>u s.
           let position = \<lparr>tp_mint = mint, tp_buy_price = current_price, tp_buy_sol_amount = buy_amount_lamports (st_config s),
                           tp_trade_info = trade_info\<rparr>
           in Some (Ok (), s\<lparr>st_positions := (st_positions s)(mint \<mapsto> position)\<rparr>))) st)"

definition execute_sell :: "'j bot_env \<Rightarrow> 'j moment \<Rightarrow> string \<Rightarrow> trade_info \<Rightarrow> unit run" where
  "execute_sell env m mint t =
     run_then (strategy_trader_sell env m t) (\<lambda>u s.
     Some (Ok (), s\<lparr>st_positions := (st_positions s)(mint := None)\<rparr>))"

definition check_buy_condition :: "'j bot_env \<Rightarrow> 'j moment \<Rightarrow> string \<Rightarrow> unit run" where
  "check_buy_condition env m mint st =
     (if is_holding mint st then Some (Ok (), st)
      else run_then (get_latest_trade_price env m mint) (\<lambda>current_price.
           case current_price of
             Some price \<Rightarrow>
               run_then (check_price_increase env m mint) (\<lambda>should_buy.
               if should_buy then execute_buy env m mint else run_ret ())
           | None \<Rightarrow> run_ret ()) st)"

text \<open>The profit of a position at a price and the decision to sell, as \<open>check_sell_condition\<close> computes them.\<close>

definition position_profit_pct :: "token_position \<Rightarrow> f64 \<Rightarrow> f64" where
  "position_profit_pct pos price =
     (if f64_lt (f64_lit 0) (tp_buy_price pos)
      then f64_mul (f64_div (f64_sub price (tp_buy_price pos)) (tp_buy_price pos)) (f64_lit 100) else f64_lit 0)"

definition sell_signal :: "bot_config \<Rightarrow> token_position \<Rightarrow> f64 \<Rightarrow> bool" where
  "sell_signal cfg pos price =
     (let profit_pct = position_profit_pct pos price in
      if f64_le (cfg_sell_profit_pct cfg) profit_pct then True
      else f64_le profit_pct (f64_neg (cfg_sell_stop_loss_pct cfg)))"

definition check_sell_condition :: "'j bot_env \<Rightarrow> 'j moment \<Rightarrow> string \<Rightarrow> unit run" where
  "check_sell_condition env m mint st =
     (case st_positions st mint of
        None \<Rightarrow> Some (Ok (), st)
      | Some pos \<Rightarrow>
          run_then (get_latest_trade_price env m mint) (\<lambda>current_price.
          case current_price of
            Some price \<Rightarrow>
              if sell_signal (st_config st) pos price then execute_sell env m mint (tp_trade_info pos) else run_ret ()
          | None \<Rightarrow> run_ret ()) st)"

section \<open>The loop\<close>

definition check_mint :: "'j bot_env \<Rightarrow> 'j moment \<Rightarrow> string \<Rightarrow> unit run" where
  "check_mint env m mint st = (if is_holding mint st then check_sell_condition env m mint st else check_buy_condition env m mint st)"

text \<open>The checks of one round: \<open>ms i\<close> is what the check of the \<open>i\<close>-th mint meets.\<close>

fun check_mints :: "'j bot_env \<Rightarrow> (nat \<Rightarrow> 'j moment) \<Rightarrow> nat \<Rightarrow> string list \<Rightarrow> unit run" where
  "check_mints env ms i [] st = Some (Ok (), st)"
| "check_mints env ms i (mint # rest) st = run_then (check_mint env (ms i) mint) (\<lambda>u. check_mints env ms (Suc i) rest) st"

record 'j round_world =
  rd_up :: bool
  rd_keys :: "string list option"
  rd_moments :: "nat \<Rightarrow> 'j moment"

definition monitor_round :: "'j bot_env \<Rightarrow> 'j round_world \<Rightarrow> unit run" where
  "monitor_round env r = run_then (strategy_active_mints (rd_up r) (rd_keys r)) (check_mints env (rd_moments r) 0)"

text \<open>\<open>monitoring_loop\<close>: \<open>None\<close> when it never returns.\<close>

partial_function (option) monitoring_loop :: "'j bot_env \<Rightarrow> (nat \<Rightarrow> 'j round_world) \<Rightarrow> nat \<Rightarrow> unit run" where
  "monitoring_loop env rs n st =
     (case monitor_round env (rs n) st of
        None \<Rightarrow> None
      | Some (Ok u, st') \<Rightarrow> monitoring_loop env rs (Suc n) st'
      | Some (Err e, st') \<Rightarrow> Some (Err e, st')
      | Some (Panic, st') \<Rightarrow> Some (Panic, st'))"

text \<open>
  \<open>run\<close> and \<open>start_monitoring\<close>: the subscription is started first; \<open>subscribe\<close> itself never fails, since it only spawns
  the task. \<open>main\<close> reads the configuration, creates the strategy and runs it.
\<close>

definition strategy_run :: "'j bot_env \<Rightarrow> (nat \<Rightarrow> 'j round_world) \<Rightarrow> unit run" where
  "strategy_run env rs = monitoring_loop env rs 0"

definition main :: "'j bot_env \<Rightarrow> (string \<Rightarrow> string + string) \<Rightarrow> (string \<Rightarrow> string + config_file) \<Rightarrow> string \<Rightarrow> wallet_rpc \<Rightarrow> nat list option \<Rightarrow> bool
     \<Rightarrow> (nat \<Rightarrow> 'j round_world) \<Rightarrow> sdk_state \<Rightarrow> unit outcome option" where
  "main env read_to_string parse path rpc cores redis_ok rs sdk =
     (case from_file read_to_string parse path of
        Inl e \<Rightarrow> Some (Err e)
      | Inr cfg \<Rightarrow>
          (case strategy_new env rpc cores redis_ok cfg sdk of
             (Err e, _) \<Rightarrow> Some (Err e)
           | (Panic, _) \<Rightarrow> Some Panic
           | (Ok st, _) \<Rightarrow> map_option fst (strategy_run env rs st)))"

section \<open>The interface to the trader\<close>

text \<open>What the strategy relies on: a deal touches nothing but the trader and the SDK's caches, and never changes the trader's client.\<close>

locale trading_desk =
  fixes deal_buy :: "'e \<Rightarrow> 'm \<Rightarrow> trade_info \<Rightarrow> unit run" and deal_sell :: "'e \<Rightarrow> 'm \<Rightarrow> trade_info \<Rightarrow> unit run"
  assumes buy_law: "deal_buy e m t st = Some (r, st') \<Longrightarrow> \<exists>self sdk. st' = st\<lparr>st_trader := self, st_sdk := sdk\<rparr>
      \<and> tdr_client self = tdr_client (st_trader st) \<and> (r \<noteq> Ok () \<longrightarrow> self = st_trader st)"
    and sell_law: "deal_sell e m t st = Some (r, st') \<Longrightarrow> \<exists>sdk. st' = st\<lparr>st_sdk := sdk\<rparr>"
begin

lemma deal_frame:
  assumes "deal_buy e m t st = Some (r, st') \<or> deal_sell e m t st = Some (r, st')"
  shows "st_positions st' = st_positions st" "st_trade_info_cache st' = st_trade_info_cache st" "st_config st' = st_config st"
    "st_redis_store st' = st_redis_store st" "tdr_client (st_trader st') = tdr_client (st_trader st)"
  using assms buy_law sell_law by fastforce+

lemma failed_deal_keeps_trader:
  assumes "deal_buy e m t st = Some (r, st') \<or> deal_sell e m t st = Some (r, st')" and "r \<noteq> Ok ()"
  shows "st_trader st' = st_trader st"
  using assms buy_law sell_law by fastforce

end

lemma trader_buy_law:
  assumes "trader_buy ext cx tex p w order rpc self t a s = Some (r, self', s')"
  shows "tdr_client self' = tdr_client self" "r \<noteq> Ok () \<Longrightarrow> self' = self"
  using assms by (auto simp: trader_buy_def Let_def set_buy_price_def split: sum.splits option.splits prod.splits outcome.splits if_splits)

lemma trader_sell_law: "trader_sell ext cx tex p w order rpc self t s = Some (r, self', s') \<Longrightarrow> self' = self"
  by (auto simp: trader_sell_def Let_def split: sum.splits option.splits prod.splits outcome.splits if_splits)

interpretation desk: trading_desk strategy_trader_buy strategy_trader_sell
proof unfold_locales
  fix e :: "'j bot_env" and m t st r st'
  show "\<exists>self sdk. st' = st\<lparr>st_trader := self, st_sdk := sdk\<rparr> \<and> tdr_client self = tdr_client (st_trader st) \<and> (r \<noteq> Ok () \<longrightarrow> self = st_trader st)"
    if "strategy_trader_buy e m t st = Some (r, st')"
    using that by (auto simp: strategy_trader_buy_def split: option.splits dest: trader_buy_law)
  show "\<exists>sdk. st' = st\<lparr>st_sdk := sdk\<rparr>" if "strategy_trader_sell e m t st = Some (r, st')"
    using that by (auto simp: strategy_trader_sell_def split: option.splits dest!: trader_sell_law)
qed

section \<open>Lemmas\<close>

lemma run_then_Ok [simp]: "m s = Some (Ok a, s') \<Longrightarrow> run_then m f s = f a s'"
  by (simp add: run_then_def)

lemma run_then_cases:
  assumes "run_then m f s = Some (r, s')"
  obtains a s1 where "m s = Some (Ok a, s1)" "f a s1 = Some (r, s')"
  | "\<not> (\<exists>a. r = Ok a)" "\<exists>r'. m s = Some (r', s') \<and> \<not> (\<exists>a. r' = Ok a)"
  using assms by (auto simp: run_then_def split: option.splits prod.splits outcome.splits)

lemma get_latest_trade_price_pure: "\<exists>r. get_latest_trade_price env m mint st = Some (r, st)"
  by (simp add: get_latest_trade_price_def split: option.splits)

lemma check_price_increase_pure: "\<exists>r. check_price_increase env m mint st = Some (r, st)"
  by (simp add: check_price_increase_def run_then_def run_ret_def split: option.splits outcome.splits)

text \<open>What a look-up of the pool does to the state.\<close>

lemma get_or_fetch_cases:
  assumes "get_or_fetch_trade_info env m mint st = Some (r, st')"
  shows "(case r of Ok info \<Rightarrow> st' = st\<lparr>st_trade_info_cache := (st_trade_info_cache st)(mint \<mapsto> info)\<rparr>
        \<and> (\<forall>i. st_trade_info_cache st mint = Some i \<longrightarrow> i = info) | _ \<Rightarrow> st' = st)"
  using assms by (auto simp: get_or_fetch_trade_info_def fun_upd_idem split: option.splits sum.splits)

text \<open>The two ways a check can trade, and that otherwise it changes no more than the cache of pools and the SDK's own.\<close>

definition bought :: "'j bot_env \<Rightarrow> 'j moment \<Rightarrow> string \<Rightarrow> strategy \<Rightarrow> strategy \<Rightarrow> bool" where
  "bought env m mint st st' \<longleftrightarrow> st_positions st mint = None
     \<and> (\<exists>price info s1 s2. get_latest_trade_price env m mint st = Some (Ok (Some price), st)
          \<and> check_price_increase env m mint st = Some (Ok True, st)
          \<and> get_or_fetch_trade_info env m mint st = Some (Ok info, s1)
          \<and> strategy_trader_buy env m info s1 = Some (Ok (), s2)
          \<and> st' = s2\<lparr>st_positions := (st_positions st)(mint \<mapsto>
                \<lparr>tp_mint = mint, tp_buy_price = calculate_price_from_pool info, tp_buy_sol_amount = buy_amount_lamports (st_config st),
                 tp_trade_info = info\<rparr>)\<rparr>)"

definition sold :: "'j bot_env \<Rightarrow> 'j moment \<Rightarrow> string \<Rightarrow> strategy \<Rightarrow> strategy \<Rightarrow> bool" where
  "sold env m mint st st' \<longleftrightarrow>
     (\<exists>pos price s2. st_positions st mint = Some pos
          \<and> get_latest_trade_price env m mint st = Some (Ok (Some price), st)
          \<and> sell_signal (st_config st) pos price
          \<and> strategy_trader_sell env m (tp_trade_info pos) st = Some (Ok (), s2)
          \<and> st' = s2\<lparr>st_positions := (st_positions st)(mint := None)\<rparr>)"

definition idle :: "strategy \<Rightarrow> strategy \<Rightarrow> bool" where
  "idle st st' \<longleftrightarrow> st_positions st' = st_positions st \<and> st_config st' = st_config st \<and> st_redis_store st' = st_redis_store st
     \<and> st_trade_info_cache st \<subseteq>\<^sub>m st_trade_info_cache st' \<and> st_trader st' = st_trader st"

lemma idle_refl [simp]: "idle st st"
  by (simp add: idle_def)

lemma fetched_idle: "get_or_fetch_trade_info env m mint st = Some (r, st') \<Longrightarrow> idle st st'"
  using get_or_fetch_cases [of env m mint st r st'] by (cases r) (auto simp: idle_def map_le_def)

lemma check_buy_cases:
  assumes "check_buy_condition env m mint st = Some (r, st')"
  shows "(r = Ok () \<and> bought env m mint st st') \<or> idle st st'"
proof (cases "is_holding mint st")
  case True
  then show ?thesis using assms by (simp add: check_buy_condition_def)
next
  case False
  obtain r1 where r1: "get_latest_trade_price env m mint st = Some (r1, st)" using get_latest_trade_price_pure by metis
  obtain r2 where r2: "check_price_increase env m mint st = Some (r2, st)" using check_price_increase_pure by metis
  show ?thesis
  proof (cases "\<exists>price. r1 = Ok (Some price) \<and> r2 = Ok True")
    case nosig: False
    then show ?thesis using assms False r1 r2
      by (auto simp: check_buy_condition_def run_then_def run_ret_def split: option.splits outcome.splits)
  next
    case True
    then obtain price where p: "r1 = Ok (Some price)" "r2 = Ok True" by blast
    have "execute_buy env m mint st = Some (r, st')" using assms False r1 r2 p by (simp add: check_buy_condition_def)
    then have run: "run_then (get_or_fetch_trade_info env m mint) (\<lambda>info. run_then (strategy_trader_buy env m info) (\<lambda>u s.
        Some (Ok (), s\<lparr>st_positions := (st_positions s)(mint \<mapsto> \<lparr>tp_mint = mint, tp_buy_price = calculate_price_from_pool info,
          tp_buy_sol_amount = buy_amount_lamports (st_config s), tp_trade_info = info\<rparr>)\<rparr>))) st = Some (r, st')"
      using False by (simp add: execute_buy_def Let_def)
    then show ?thesis
    proof (rule run_then_cases)
      fix info s1
      assume f: "get_or_fetch_trade_info env m mint st = Some (Ok info, s1)"
        and "run_then (strategy_trader_buy env m info) (\<lambda>u s.
          Some (Ok (), s\<lparr>st_positions := (st_positions s)(mint \<mapsto> \<lparr>tp_mint = mint, tp_buy_price = calculate_price_from_pool info,
            tp_buy_sol_amount = buy_amount_lamports (st_config s), tp_trade_info = info\<rparr>)\<rparr>)) s1 = Some (r, st')"
      then show ?thesis
      proof (elim run_then_cases)
        fix u s2
        assume b: "strategy_trader_buy env m info s1 = Some (Ok u, s2)"
          and e: "Some (Ok (), s2\<lparr>st_positions := (st_positions s2)(mint \<mapsto> \<lparr>tp_mint = mint, tp_buy_price = calculate_price_from_pool info,
            tp_buy_sol_amount = buy_amount_lamports (st_config s2), tp_trade_info = info\<rparr>)\<rparr>) = Some (r, st')"
        have "st_positions s2 = st_positions st" "st_config s2 = st_config st"
          using desk.deal_frame(1,3) [OF disjI1 [OF b]] fetched_idle [OF f] by (simp_all add: idle_def)
        then have "bought env m mint st st'" using False r1 r2 p f b e unfolding bought_def is_holding_def by auto
        then show ?thesis using e by simp
      next
        assume "\<exists>r'. strategy_trader_buy env m info s1 = Some (r', st') \<and> \<not> (\<exists>a. r' = Ok a)"
        then obtain r' where b: "strategy_trader_buy env m info s1 = Some (r', st')" "r' \<noteq> Ok ()" by blast
        from desk.deal_frame [OF disjI1 [OF b(1)]] desk.failed_deal_keeps_trader [OF disjI1 [OF b(1)] b(2)] fetched_idle [OF f]
        show ?thesis by (simp add: idle_def)
      qed
    next
      assume "\<exists>r'. get_or_fetch_trade_info env m mint st = Some (r', st') \<and> \<not> (\<exists>a. r' = Ok a)"
      then show ?thesis using fetched_idle by blast
    qed
  qed
qed

lemma check_sell_cases:
  assumes "check_sell_condition env m mint st = Some (r, st')"
  shows "(r = Ok () \<and> sold env m mint st st') \<or> idle st st'"
proof (cases "st_positions st mint")
  case None
  then show ?thesis using assms by (simp add: check_sell_condition_def)
next
  case (Some pos)
  obtain r1 where r1: "get_latest_trade_price env m mint st = Some (r1, st)" using get_latest_trade_price_pure by metis
  show ?thesis
  proof (cases "\<exists>price. r1 = Ok (Some price) \<and> sell_signal (st_config st) pos price")
    case False
    then show ?thesis using assms Some r1
      by (auto simp: check_sell_condition_def run_then_def run_ret_def split: option.splits outcome.splits if_splits)
  next
    case True
    then obtain price where p: "r1 = Ok (Some price)" "sell_signal (st_config st) pos price" by blast
    have "execute_sell env m mint (tp_trade_info pos) st = Some (r, st')" using assms Some r1 p by (simp add: check_sell_condition_def)
    then show ?thesis unfolding execute_sell_def
    proof (rule run_then_cases)
      fix u s2
      assume b: "strategy_trader_sell env m (tp_trade_info pos) st = Some (Ok u, s2)"
        and e: "Some (Ok (), s2\<lparr>st_positions := (st_positions s2)(mint := None)\<rparr>) = Some (r, st')"
      then have "sold env m mint st st'" using Some r1 p desk.deal_frame(1) [OF disjI2 [OF b]] unfolding sold_def by auto
      then show ?thesis using e by simp
    next
      assume "\<exists>r'. strategy_trader_sell env m (tp_trade_info pos) st = Some (r', st') \<and> \<not> (\<exists>a. r' = Ok a)"
      then obtain r' where b: "strategy_trader_sell env m (tp_trade_info pos) st = Some (r', st')" "r' \<noteq> Ok ()" by blast
      from desk.deal_frame [OF disjI2 [OF b(1)]] desk.failed_deal_keeps_trader [OF disjI2 [OF b(1)] b(2)]
      show ?thesis by (simp add: idle_def)
    qed
  qed
qed

lemma check_mint_cases:
  assumes "check_mint env m mint st = Some (r, st')"
  obtains (bought) "r = Ok ()" "bought env m mint st st'" | (sold) "r = Ok ()" "sold env m mint st st'" | (idle) "idle st st'"
  using assms check_buy_cases check_sell_cases unfolding check_mint_def by (metis (full_types))

section \<open>Reachable states\<close>

text \<open>
  Every state a bot can get into: it is created, then mints are checked, in any order and at any moment. A failed check
  ends the loop; the state it leaves counts too.
\<close>

inductive bot_reach :: "'j bot_env \<Rightarrow> bot_config \<Rightarrow> strategy \<Rightarrow> bool" for env cfg where
  created: "strategy_new env rpc cores redis_ok cfg sdk = (Ok st, sdk') \<Longrightarrow> bot_reach env cfg st"
| checked: "bot_reach env cfg st \<Longrightarrow> check_mint env m mint st = Some (r, st') \<Longrightarrow> bot_reach env cfg st'"

definition position_ok :: "bot_config \<Rightarrow> strategy \<Rightarrow> string \<Rightarrow> token_position \<Rightarrow> bool" where
  "position_ok cfg st mint pos \<longleftrightarrow> tp_mint pos = mint \<and> st_trade_info_cache st mint = Some (tp_trade_info pos)
     \<and> tp_buy_price pos = calculate_price_from_pool (tp_trade_info pos) \<and> tp_buy_sol_amount pos = buy_amount_lamports cfg"

definition strategy_inv :: "bot_config \<Rightarrow> strategy \<Rightarrow> bool" where
  "strategy_inv cfg st \<longleftrightarrow> st_config st = cfg \<and> (\<forall>mint pos. st_positions st mint = Some pos \<longrightarrow> position_ok cfg st mint pos)"

lemma strategy_new_Ok:
  assumes "strategy_new env rpc cores redis_ok cfg sdk = (Ok st, sdk')"
  shows "st_config st = cfg" "st_positions st = Map.empty" "st_trade_info_cache st = Map.empty"
    "\<exists>keypair. new_with_options (be_ext env) (be_channels env) (be_tx env) rpc cores (cfg_rpc_url cfg) keypair (cfg_slippage_bps cfg)
        (unat (cfg_max_retries cfg)) (cfg_retry_delay_ms cfg) (cfg_jito_enabled cfg) (cfg_jito_uuid cfg) (cfg_jito_region cfg) sdk
      = (Ok (st_trader st), sdk')"
  using assms by (auto simp: strategy_new_def split: sum.splits prod.splits outcome.splits)

lemma bought_state:
  assumes "bought env m mint st st'"
  shows "\<exists>info. st_positions st' = (st_positions st)(mint \<mapsto> \<lparr>tp_mint = mint, tp_buy_price = calculate_price_from_pool info,
        tp_buy_sol_amount = buy_amount_lamports (st_config st), tp_trade_info = info\<rparr>)
      \<and> st_trade_info_cache st' = (st_trade_info_cache st)(mint \<mapsto> info)" (is "\<exists>info. ?P info")
    and "st_config st' = st_config st" "st_redis_store st' = st_redis_store st" "tdr_client (st_trader st') = tdr_client (st_trader st)"
proof -
  obtain info s1 s2 where f: "get_or_fetch_trade_info env m mint st = Some (Ok info, s1)" and b: "strategy_trader_buy env m info s1 = Some (Ok (), s2)"
    and e: "st' = s2\<lparr>st_positions := (st_positions st)(mint \<mapsto> \<lparr>tp_mint = mint, tp_buy_price = calculate_price_from_pool info,
        tp_buy_sol_amount = buy_amount_lamports (st_config st), tp_trade_info = info\<rparr>)\<rparr>"
    using assms unfolding bought_def by blast
  have c: "s1 = st\<lparr>st_trade_info_cache := (st_trade_info_cache st)(mint \<mapsto> info)\<rparr>" using get_or_fetch_cases [OF f] by simp
  note fr = desk.deal_frame [OF disjI1 [OF b]]
  have "?P info" using e c fr by simp
  then show "\<exists>info. ?P info" ..
  show "st_config st' = st_config st" "st_redis_store st' = st_redis_store st" "tdr_client (st_trader st') = tdr_client (st_trader st)"
    using e c fr by simp_all
qed

lemma sold_state:
  assumes "sold env m mint st st'"
  shows "st_positions st' = (st_positions st)(mint := None)" "st_trade_info_cache st' = st_trade_info_cache st" "st_config st' = st_config st"
    "st_redis_store st' = st_redis_store st" "tdr_client (st_trader st') = tdr_client (st_trader st)"
proof -
  obtain pos :: token_position and s2 where b: "strategy_trader_sell env m (tp_trade_info pos) st = Some (Ok (), s2)" and e: "st' = s2\<lparr>st_positions := (st_positions st)(mint := None)\<rparr>"
    using assms unfolding sold_def by auto
  note fr = desk.deal_frame [OF disjI2 [OF b]]
  show "st_positions st' = (st_positions st)(mint := None)" "st_trade_info_cache st' = st_trade_info_cache st" "st_config st' = st_config st"
    "st_redis_store st' = st_redis_store st" "tdr_client (st_trader st') = tdr_client (st_trader st)"
    using e fr by simp_all
qed

lemma idle_inv: "idle st st' \<Longrightarrow> strategy_inv cfg st \<Longrightarrow> strategy_inv cfg st'"
  by (auto simp: idle_def strategy_inv_def position_ok_def map_le_def dom_def)

lemma bought_inv:
  assumes "bought env m mint st st'" and "strategy_inv cfg st"
  shows "strategy_inv cfg st'"
  using bought_state(1,2) [OF assms(1)] assms(2) by (auto simp: strategy_inv_def position_ok_def split: if_splits)

lemma sold_inv: "sold env m mint st st' \<Longrightarrow> strategy_inv cfg st \<Longrightarrow> strategy_inv cfg st'"
  using sold_state by (fastforce simp: strategy_inv_def position_ok_def split: if_splits)

lemma bot_reach_inv: "bot_reach env cfg st \<Longrightarrow> strategy_inv cfg st"
proof (induction rule: bot_reach.induct)
  case (created rpc cores redis_ok sdk st sdk')
  show ?case using strategy_new_Ok(1,2) [OF created] by (simp add: strategy_inv_def)
next
  case (checked st m mint r st')
  from checked.hyps(2) show ?case by (rule check_mint_cases) (use checked.IH bought_inv sold_inv idle_inv in blast)+
qed

lemma check_mint_client:
  assumes "check_mint env m mint st = Some (r, st')"
  shows "tdr_client (st_trader st') = tdr_client (st_trader st)" "st_config st' = st_config st" "st_redis_store st' = st_redis_store st"
proof -
  have "tdr_client (st_trader st') = tdr_client (st_trader st) \<and> st_config st' = st_config st \<and> st_redis_store st' = st_redis_store st"
    using assms by (cases rule: check_mint_cases) (simp_all add: idle_def bought_state(2-4) sold_state(3-5))
  then show "tdr_client (st_trader st') = tdr_client (st_trader st)" "st_config st' = st_config st" "st_redis_store st' = st_redis_store st"
    by simp_all
qed

lemma bot_reach_client:
  assumes "bot_reach env cfg st" and "cfg_jito_enabled cfg"
  shows "\<forall>c \<in> set (infra_clients (cl_infrastructure (tdr_client (st_trader st)))). ch_type c \<noteq> SwqosDefault"
  using assms
proof (induction rule: bot_reach.induct)
  case (created rpc cores redis_ok sdk st sdk')
  then show ?case using strategy_new_Ok(4) jito_client by metis
next
  case (checked st m mint r st')
  then show ?case using check_mint_client(1) by metis
qed

section \<open>Rounds\<close>

lemma check_mints_reach:
  "check_mints env ms i mints st = Some (r, st') \<Longrightarrow> bot_reach env cfg st \<Longrightarrow> bot_reach env cfg st'"
proof (induction mints arbitrary: i st)
  case (Cons mint rest)
  from Cons.prems(1) have "run_then (check_mint env (ms i) mint) (\<lambda>u. check_mints env ms (Suc i) rest) st = Some (r, st')" by simp
  then show ?case by (rule run_then_cases) (use Cons.IH Cons.prems(2) bot_reach.checked in metis)+
qed simp

lemma strategy_active_mints_pure: "\<exists>r. strategy_active_mints up keys st = Some (r, st)"
  by (simp add: strategy_active_mints_def split: option.splits)

lemma monitor_round_reach:
  assumes "monitor_round env r st = Some (out, st')" and "bot_reach env cfg st"
  shows "bot_reach env cfg st'"
proof -
  obtain a where a: "strategy_active_mints (rd_up r) (rd_keys r) st = Some (a, st)" using strategy_active_mints_pure by metis
  show ?thesis using assms a check_mints_reach by (cases a) (auto simp: monitor_round_def run_then_def)
qed

text \<open>The state after a number of rounds that all went well.\<close>

fun rounds :: "'j bot_env \<Rightarrow> (nat \<Rightarrow> 'j round_world) \<Rightarrow> nat \<Rightarrow> nat \<Rightarrow> strategy \<Rightarrow> strategy option" where
  "rounds env rs n 0 st = Some st"
| "rounds env rs n (Suc k) st =
     (case monitor_round env (rs n) st of Some (Ok u, st') \<Rightarrow> rounds env rs (Suc n) k st' | _ \<Rightarrow> None)"

lemma loop_of_rounds:
  assumes "rounds env rs n k st = Some st1" and "monitor_round env (rs (n + k)) st1 = Some (r, st')" and "r \<noteq> Ok ()"
  shows "monitoring_loop env rs n st = Some (r, st')"
  using assms
proof (induction k arbitrary: n st)
  case 0
  then show ?case by (cases r) (simp_all add: monitoring_loop.simps [of env rs n st1])
next
  case (Suc k)
  then obtain st2 where st2: "monitor_round env (rs n) st = Some (Ok (), st2)" "rounds env rs (Suc n) k st2 = Some st1"
    by (auto split: option.splits prod.splits outcome.splits)
  then have "monitoring_loop env rs (Suc n) st2 = Some (r, st')" using Suc.IH [of "Suc n" st2] Suc.prems by simp
  then show ?case using st2 by (simp add: monitoring_loop.simps [of env rs n st])
qed

lemma rounds_of_loop:
  assumes "monitoring_loop env0 rs0 n0 st0 = Some out0"
  shows "\<exists>k st1. rounds env0 rs0 n0 k st0 = Some st1 \<and> monitor_round env0 (rs0 (n0 + k)) st1 = Some out0 \<and> fst out0 \<noteq> Ok ()"
proof (rule monitoring_loop.raw_induct [OF _ assms, where P = "\<lambda>env rs n st out. \<exists>k st1. rounds env rs n k st = Some st1
    \<and> monitor_round env (rs (n + k)) st1 = Some out \<and> fst out \<noteq> Ok ()"], goal_cases)
  case (1 loop env rs n st out)
  show ?case
  proof (cases "\<exists>st2. monitor_round env (rs n) st = Some (Ok (), st2)")
    case True
    then obtain st2 where st2: "monitor_round env (rs n) st = Some (Ok (), st2)" by blast
    then have "loop env rs (Suc n) st2 = Some out" using 1(2) by simp
    from 1(1) [OF this] obtain k st1 where "rounds env rs (Suc n) k st2 = Some st1" "monitor_round env (rs (Suc n + k)) st1 = Some out" "fst out \<noteq> Ok ()"
      by blast
    then show ?thesis using st2 by (intro exI [of _ "Suc k"] exI [of _ st1]) simp
  next
    case False
    then have "monitor_round env (rs n) st = Some out" "fst out \<noteq> Ok ()"
      using 1(2) by (auto split: option.splits prod.splits outcome.splits)
    then show ?thesis by (intro exI [of _ 0] exI [of _ st]) simp
  qed
qed

lemma rounds_reach: "rounds env rs n k st = Some st' \<Longrightarrow> bot_reach env cfg st \<Longrightarrow> bot_reach env cfg st'"
  by (induction k arbitrary: n st) (auto split: option.splits prod.splits outcome.splits dest: monitor_round_reach)

section \<open>Prices of the two sources\<close>

text \<open>The price of a pool is the quotient of its reserves; a recorded trade with the same two amounts has a thousandth of it.\<close>

lemma pool_price:
  assumes "0 < ti_pool_base_token_reserves t" and "0 < ti_pool_quote_token_reserves t"
  obtains x where "calculate_price_from_pool t = Fin False x" "rep x" "2 powi (- 64) \<le> x" "x \<le> 2 ^ 64"
    "calculate_price_from_amounts (ti_pool_quote_token_reserves t) (ti_pool_base_token_reserves t) = f64_div (Fin False x) (f64_lit 1000)"
proof -
  let ?b = "ti_pool_base_token_reserves t" and ?q = "ti_pool_quote_token_reserves t"
  let ?B = "round_mag (of_nat (unat ?b))" and ?Q = "round_mag (of_nat (unat ?q))"
  have pos: "0 < unat ?b" "0 < unat ?q" using assms by (simp_all add: word_less_nat_alt)
  have B: "1 \<le> ?B" "?B \<le> 2 ^ 64" and Q: "1 \<le> ?Q"
    using pos round_mag_of_nat_bounds(2) round_mag_of_nat_bounds(1) [of "unat ?b" 64] unat_u64_less [of ?b] by simp_all
  note fin = quotient_finite [OF pos(1), of ?q]
  have "(2 :: rat) powi (- 64) = 1 / 2 ^ 64" by (simp add: power_int_def power_divide)
  also have "\<dots> \<le> 1 / ?B" using B by (intro divide_left_mono) simp_all
  also have "\<dots> \<le> ?Q / ?B" using B Q by (intro divide_right_mono) simp_all
  finally have low: "2 powi (- 64) \<le> ?Q / ?B" .
  have "\<not> f64_eq (f64_of_u64 ?b) (f64_lit 0)" using B by (simp add: f64_of_u64_eq f64_eq_def f64_lit_def of_exact_def)
  then have price: "calculate_price_from_pool t = Fin False (round_mag (?Q / ?B))" using fin(1) by (simp add: calculate_price_from_pool_def)
  have "calculate_price_from_amounts ?q ?b = f64_div (Fin False (round_mag (?Q / ?B))) (f64_lit 1000)"
    using fin(1) assms(1) by (simp add: calculate_price_from_amounts_def)
  then show ?thesis
    using that price rep_round_mag [OF fin(2)] round_mag_ge [OF rep_powi _ low] round_mag_le [OF rep_pow2 fin(2,3)] by simp
qed

lemma thousandth_is_a_loss:
  assumes "rep x" and "2 powi (- 64) \<le> x" and "x \<le> 2 ^ 64"
  obtains g where "f64_mul (f64_div (f64_sub (f64_div (Fin False x) (f64_lit 1000)) (Fin False x)) (Fin False x)) (f64_lit 100) = Fin True g" "50 \<le> g"
proof -
  have "(0 :: rat) < 2 powi (- 64)" by simp
  then have x0: "0 < x" using assms(2) by linarith
  have half: "rep (x / 2)" using rep_half [OF assms(1) _ assms(2)] by simp
  let ?c = "round_mag (x / 1000)"
  have c: "?c \<le> x / 2" "0 \<le> ?c" using x0 round_mag_le [OF half] round_mag_nonneg by simp_all
  let ?d = "round_mag (x - ?c)"
  have d: "x / 2 \<le> ?d" "?d \<le> x" using x0 c round_mag_ge [OF half] round_mag_le [OF assms(1)] by simp_all
  let ?e = "round_mag (?d / x)"
  have rh: "rep (1 / 2)" using rep_powi [of "- 1"] by simp
  have q: "1 / 2 \<le> ?d / x" "0 \<le> ?d / x" "?d / x \<le> 1" using x0 d by (simp_all add: field_simps)
  have e: "1 / 2 \<le> ?e" "?e \<le> 1" using round_mag_ge [OF rh _ q(1)] round_mag_le [OF rep_1 q(2,3)] by simp_all
  have g: "50 \<le> round_mag (?e * 100)" using e by (intro round_mag_ge rep_numeral) simp_all
  have "f64_div (Fin False x) (f64_lit 1000) = Fin False ?c" using x0 assms(3) mk_finite [of "x / 1000" 64] by (simp add: f64_lit_nat)
  moreover have "f64_sub (Fin False ?c) (Fin False x) = Fin True ?d"
    using x0 c assms(3) of_exact_finite [of "?c - x" 64 False] by (simp add: f64_sub_def)
  moreover have "f64_div (Fin True ?d) (Fin False x) = Fin True ?e" using x0 q(2,3) mk_finite [of "?d / x" 0] by simp
  moreover have "f64_mul (Fin True ?e) (f64_lit 100) = Fin True (round_mag (?e * 100))"
    using e mk_finite [of "?e * 100" 7] by (simp add: f64_lit_nat)
  ultimately show ?thesis using that g by simp
qed

lemma signal_at_buy_price:
  assumes "0 < ti_pool_base_token_reserves t" and "0 < ti_pool_quote_token_reserves t" and "tp_buy_price pos = calculate_price_from_pool t"
    and "f64_le (cfg_sell_stop_loss_pct cfg) (f64_lit 50)"
  shows "sell_signal cfg pos (calculate_price_from_amounts (ti_pool_quote_token_reserves t) (ti_pool_base_token_reserves t))"
proof -
  obtain x where x: "calculate_price_from_pool t = Fin False x" "rep x" "2 powi (- 64) \<le> x" "x \<le> 2 ^ 64"
    "calculate_price_from_amounts (ti_pool_quote_token_reserves t) (ti_pool_base_token_reserves t) = f64_div (Fin False x) (f64_lit 1000)"
    using pool_price [OF assms(1,2)] by blast
  obtain g where g: "f64_mul (f64_div (f64_sub (f64_div (Fin False x) (f64_lit 1000)) (Fin False x)) (Fin False x)) (f64_lit 100) = Fin True g" "50 \<le> g"
    using thousandth_is_a_loss [OF x(2-4)] by blast
  have "(0 :: rat) < 2 powi (- 64)" by simp
  then have "0 < x" using x(3) by linarith
  then have "f64_lt (f64_lit 0) (tp_buy_price pos)" using x(1) assms(3) by (simp add: f64_lit_def of_exact_def)
  then have pct: "position_profit_pct pos (calculate_price_from_amounts (ti_pool_quote_token_reserves t) (ti_pool_base_token_reserves t)) = Fin True g"
    using g x(1,5) assms(3) by (simp add: position_profit_pct_def)
  have "f64_le (Fin True g) (f64_neg (cfg_sell_stop_loss_pct cfg))"
    using assms(4) g(2) by (cases "cfg_sell_stop_loss_pct cfg") (auto simp: f64_lit_nat split: if_splits)
  then show ?thesis using pct by (simp add: sell_signal_def Let_def)
qed

section \<open>A sample bot\<close>

definition sample_bot_env :: "(token_trade_record \<times> json_value) bot_env" where
  "sample_bot_env = \<lparr>be_ext = sample_ext, be_channels = sample_env, be_tx = sample_tx_ext, be_profile = Checked, be_codec = sample_codec,
     be_keypair_of = (\<lambda>s. Inr 7), be_pubkey_of = (\<lambda>s. Inr 9)\<rparr>"

definition sample_file :: config_file where
  "sample_file = \<lparr>cf_grpc_url = ''http://grpc'', cf_rpc_url = ''http://rpc'', cf_grpc_token = None, cf_private_key = ''key'', cf_target_mint = ''m'',
     cf_buy_amount_sol = f64_lit 2, cf_hold_seconds = 60, cf_slippage_bps = 500, cf_max_retries = None, cf_retry_delay_ms = None,
     cf_jito_enabled = None, cf_jito_uuid = None, cf_jito_region = None, cf_redis_url = None, cf_max_trades_per_token = None,
     cf_buy_threshold_pct = None, cf_buy_time_window_sec = None, cf_buy_record_count = None, cf_sell_profit_pct = None,
     cf_sell_stop_loss_pct = None\<rparr>"

text \<open>The sample configuration, with Jito left out, disabled or enabled.\<close>

definition sample_cfg :: "bool option \<Rightarrow> bot_config" where
  "sample_cfg j = config_of_file (sample_file\<lparr>cf_jito_enabled := j\<rparr>)"

text \<open>Two trades of one mint at a price that doubles; and the same pool as the one the bot looks up, as a trade.\<close>

definition trade_of :: "string \<Rightarrow> u64 \<Rightarrow> int \<Rightarrow> token_trade_record" where
  "trade_of sig sol us = from_transaction ''m'' 5000 sol True sig us"

definition rising_db :: "(token_trade_record \<times> json_value) redis_db" where
  "rising_db = empty_db\<lparr>db_lists := (\<lambda>k. map (to_json sample_codec) [trade_of ''b'' 10000000 1700000002000000, trade_of ''a'' 5000000 1700000001000000])\<rparr>"

definition steady_db :: "(token_trade_record \<times> json_value) redis_db" where
  "steady_db = empty_db\<lparr>db_lists := (\<lambda>k. map (to_json sample_codec) [trade_of ''c'' 5000 1700000003000000])\<rparr>"

definition moment_of :: "(token_trade_record \<times> json_value) redis_db \<Rightarrow> (token_trade_record \<times> json_value) moment" where
  "moment_of db = \<lparr>at_db = (\<lambda>i. db), at_now = (\<lambda>i. 0), at_fault = (\<lambda>i. False), at_net = sample_net, at_order = [SwqosDefault],
     at_rpc = poor_rpc, at_pools = (\<lambda>i. sample_node)\<rparr>"

lemma read_records:
  assumes "\<forall>r \<in> set rs. storable r" and "db_lists db (trades_key mint) = map (to_json sample_codec) rs" and "1 \<le> limit"
  shows "get_recent_trades p now sample_codec False mint limit db = (Ok (newest_first (take limit rs)), db)"
proof -
  have "\<forall>r \<in> set (take limit rs). storable r" using assms(1) set_take_subset by fastforce
  from parse_all_roundtrip [OF sample_codec_ok this, of p now] show ?thesis
    by (simp add: get_recent_trades_def then_do_run assms(2) head_range_take [OF assms(3)] take_map)
qed

lemma trade_of_storable: "1000000000000 \<le> us \<Longrightarrow> storable (trade_of sig sol us)"
  using price_finite by (simp add: storable_def trade_of_def) (simp add: from_transaction_def)

lemma trade_prices:
  "effective_price (trade_of sig 5000000 us) = Fin False 1" "effective_price (trade_of sig 10000000 us) = Fin False 2"
  by (simp_all add: effective_price_def trade_of_def calculate_price_from_amounts_def f64_of_u64_exact f64_lit_nat mk_finite [of _ 53]
      round_mag_rep rep_numeral)

text \<open>The signal of the rising prices, for a bot that has just been created.\<close>

lemma created_bot:
  "\<exists>st. bot_reach sample_bot_env (sample_cfg j) st \<and> st_positions st = Map.empty \<and> st_trade_info_cache st = Map.empty
     \<and> st_redis_store st = Some 1000 \<and> tdr_max_retries (st_trader st) = 5 \<and> st_config st = sample_cfg j"
proof -
  obtain self st' where self: "new_with_options sample_ext sample_env sample_tx_ext rich_wallet None ''http://rpc'' 7 500 5 1000 (unwrap_or j False) None ''Frankfurt'' (caches_init, None) = (Ok self, st')"
    using rich_wallet_trader by blast
  then have retries: "tdr_max_retries self = 5" unfolding new_with_options_def by (rule then_do_OkE) auto
  obtain st where new: "strategy_new sample_bot_env rich_wallet None True (sample_cfg j) (caches_init, None) = (Ok st, st')" "st_trader st = self"
    "st_redis_store st = Some 1000"
    using self by (auto simp: strategy_new_def get_keypair_def sample_bot_env_def sample_cfg_def config_of_file_def sample_file_def unwrap_or_def default_max_retries_def
        default_retry_delay_ms_def default_jito_enabled_def default_jito_region_def default_max_trades_per_token_def)
  show ?thesis using bot_reach.created [OF new(1)] strategy_new_Ok [OF new(1)] new retries by auto
qed

lemma rising_signal:
  assumes "st_redis_store st = Some n" and "st_config st = sample_cfg j"
  shows "get_latest_trade_price sample_bot_env (moment_of rising_db) ''m'' st = Some (Ok (Some (Fin False 2)), st)"
    "check_price_increase sample_bot_env (moment_of rising_db) ''m'' st = Some (Ok True, st)"
proof -
  let ?a = "trade_of ''a'' 5000000 1700000001000000" and ?b = "trade_of ''b'' 10000000 1700000002000000"
  have rs: "\<forall>r \<in> set [?b, ?a]. storable r" by (simp add: trade_of_storable)
  have raw: "db_lists rising_db (trades_key ''m'') = map (to_json sample_codec) [?b, ?a]" by (simp add: rising_db_def)
  have sorted: "newest_first [?b, ?a] = [?b, ?a]" "newest_first [?b] = [?b]"
    by (simp_all add: newest_first_def trade_of_def from_transaction_def)
  note read = read_records [OF rs raw, of _ Checked 0]
  show "get_latest_trade_price sample_bot_env (moment_of rising_db) ''m'' st = Some (Ok (Some (Fin False 2)), st)"
    using read [of 1] sorted
    by (simp add: assms get_latest_trade_price_def sample_bot_env_def moment_of_def get_latest_price_from_trades_def then_do_run trade_prices)
  have five: "cfg_buy_record_count (st_config st) = 5" "cfg_buy_threshold_pct (st_config st) = Fin False 10"
    by (simp_all add: assms sample_cfg_def config_of_file_def sample_file_def unwrap_or_def default_buy_record_count_def default_buy_threshold_pct_def f64_lit_nat)
  have "change_pct [?b, ?a] = Some (Fin False 100)"
    by (simp add: change_pct_def trade_prices f64_eq_def f64_sub_def f64_lit_nat f64_lit_def [of 0] of_exact_def mk_finite [of _ 53] round_mag_rep rep_numeral)
  then show "check_price_increase sample_bot_env (moment_of rising_db) ''m'' st = Some (Ok True, st)"
    using read [of 5] sorted
    by (simp add: assms(1) five check_price_increase_def sample_bot_env_def moment_of_def calculate_price_change_from_records_def then_do_run run_then_def run_ret_def)
qed

lemma rising_fetch:
  assumes "st_trade_info_cache st = Map.empty" and "tdr_max_retries (st_trader st) = 5"
  shows "\<exists>info s1. get_or_fetch_trade_info sample_bot_env (moment_of db) ''m'' st = Some (Ok info, s1)
    \<and> ti_pool_base_token_reserves info = 5000 \<and> ti_pool_quote_token_reserves info = 5000"
proof -
  obtain info where "try_fetch sample_ext sample_node 9 = Some (Inr info)" "ti_pool_base_token_reserves info = 5000" "ti_pool_quote_token_reserves info = 5000"
    using sample_try_fetch by blast
  moreover have "[0..<5] = 0 # [1..<5]" by (simp add: upt_conv_Cons)
  ultimately show ?thesis
    by (simp add: get_or_fetch_trade_info_def assms sample_bot_env_def moment_of_def fetch_trade_info_with_retry_def del: upt_rec_numeral)
qed

text \<open>A purchase that is skipped for lack of funds still opens a position.\<close>

lemma skipped_buy:
  assumes "\<not> is_holding mint st" and "get_latest_trade_price env m mint st = Some (Ok (Some price), st)"
    and "check_price_increase env m mint st = Some (Ok True, st)" and "get_or_fetch_trade_info env m mint st = Some (Ok info, s1)"
    and "bot_balance (at_rpc m) = Inr balance" and "balance < required_balance (buy_amount_lamports (st_config st))"
  shows "\<exists>st'. check_mint env m mint st = Some (Ok (), st') \<and> st_trader st' = st_trader st \<and> st_sdk st' = st_sdk st
    \<and> (\<exists>pos. st_positions st' mint = Some pos \<and> tp_trade_info pos = info)"
proof -
  have c: "s1 = st\<lparr>st_trade_info_cache := (st_trade_info_cache st)(mint \<mapsto> info)\<rparr>" using get_or_fetch_cases [OF assms(4)] by simp
  have "strategy_trader_buy env m info s1 = Some (Ok (), s1)" using assms(5,6) c by (simp add: strategy_trader_buy_def trader_buy_def)
  then show ?thesis using assms c by (simp add: check_mint_def check_buy_condition_def execute_buy_def Let_def)
qed

text \<open>A poor bot at the signal, what its check needs, and the state it gets into.\<close>

definition at_signal :: "bool option \<Rightarrow> strategy \<Rightarrow> bool" where
  "at_signal j st \<longleftrightarrow> bot_reach sample_bot_env (sample_cfg j) st \<and> \<not> is_holding ''m'' st
     \<and> get_latest_trade_price sample_bot_env (moment_of rising_db) ''m'' st = Some (Ok (Some (Fin False 2)), st)
     \<and> check_price_increase sample_bot_env (moment_of rising_db) ''m'' st = Some (Ok True, st)
     \<and> (\<exists>info s1. get_or_fetch_trade_info sample_bot_env (moment_of rising_db) ''m'' st = Some (Ok info, s1)
          \<and> ti_pool_base_token_reserves info = 5000 \<and> ti_pool_quote_token_reserves info = 5000)
     \<and> (10000000 :: u64) < required_balance (buy_amount_lamports (st_config st))"

lemma sample_at_signal: "\<exists>st. at_signal j st"
proof -
  obtain st where st: "bot_reach sample_bot_env (sample_cfg j) st" "st_positions st = Map.empty" "st_trade_info_cache st = Map.empty"
    "st_redis_store st = Some 1000" "tdr_max_retries (st_trader st) = 5" "st_config st = sample_cfg j"
    using created_bot by blast
  have "buy_amount_lamports (st_config st) = 2000000000"
    by (simp add: st(6) buy_amount_lamports_def sample_cfg_def config_of_file_def sample_file_def f64_lit_nat mk_finite [of _ 53] round_mag_rep rep_numeral)
  then have "(10000000 :: u64) < required_balance (buy_amount_lamports (st_config st))"
    by (simp add: required_balance_def GAS_RESERVE_LAMPORTS_def checked_add_def unwrap_or_def)
  then have "at_signal j st"
    using st rising_signal [OF st(4,6)] rising_fetch [OF st(3,5), of rising_db] by (auto simp: at_signal_def is_holding_def)
  then show ?thesis ..
qed

lemma at_signal_buys:
  assumes "at_signal j st"
  shows "\<exists>st' pos. check_mint sample_bot_env (moment_of rising_db) ''m'' st = Some (Ok (), st') \<and> st_positions st' ''m'' = Some pos
    \<and> ti_pool_base_token_reserves (tp_trade_info pos) = 5000 \<and> ti_pool_quote_token_reserves (tp_trade_info pos) = 5000
    \<and> bot_reach sample_bot_env (sample_cfg j) st'"
proof -
  have bal: "bot_balance (at_rpc (moment_of rising_db)) = Inr 10000000" by (simp add: moment_of_def poor_rpc_def)
  obtain info s1 where i: "get_or_fetch_trade_info sample_bot_env (moment_of rising_db) ''m'' st = Some (Ok info, s1)"
    "ti_pool_base_token_reserves info = 5000" "ti_pool_quote_token_reserves info = 5000"
    using assms by (auto simp: at_signal_def)
  then obtain st' pos where "check_mint sample_bot_env (moment_of rising_db) ''m'' st = Some (Ok (), st')" "st_positions st' ''m'' = Some pos" "tp_trade_info pos = info"
    using skipped_buy [OF _ _ _ i(1) bal] assms by (auto simp: at_signal_def)
  then show ?thesis using i bot_reach.checked assms unfolding at_signal_def by metis
qed

lemma steady_price:
  assumes "bot_reach sample_bot_env (sample_cfg j) st" and "st_redis_store st = Some n"
  shows "get_latest_trade_price sample_bot_env (moment_of steady_db) ''m'' st = Some (Ok (Some (calculate_price_from_amounts 5000 5000)), st)"
proof -
  let ?c = "trade_of ''c'' 5000 1700000003000000"
  have rs: "\<forall>r \<in> set [?c]. storable r" by (simp add: trade_of_storable)
  have raw: "db_lists steady_db (trades_key ''m'') = map (to_json sample_codec) [?c]" by (simp add: steady_db_def)
  have "effective_price ?c = calculate_price_from_amounts 5000 5000" by (simp add: effective_price_def trade_of_def)
  then show ?thesis
    using read_records [OF rs raw, of 1 Checked 0]
    by (simp add: assms get_latest_trade_price_def sample_bot_env_def moment_of_def get_latest_price_from_trades_def then_do_run newest_first_def)
qed

section \<open>Properties\<close>

text \<open>
  C6: what a held position is. In every state a bot can reach, whatever the market and the chain do, a position stands
  under its own mint, its pool is the cached one, its price is that pool's price at the time it was looked up, and its
  amount is the configured one.
\<close>

theorem positions_invariant:
  assumes "bot_reach env cfg st" and "st_positions st mint = Some pos"
  shows "tp_mint pos = mint \<and> st_trade_info_cache st mint = Some (tp_trade_info pos)
    \<and> tp_buy_price pos = calculate_price_from_pool (tp_trade_info pos) \<and> tp_buy_sol_amount pos = buy_amount_lamports cfg"
  using bot_reach_inv [OF assms(1)] assms(2) by (simp add: strategy_inv_def position_ok_def)


text \<open>
  The monitoring loop returns only by failing. It returns exactly when some round, after rounds that went well, fails or
  panics, with that round's answer and state; a single failed check anywhere ends the bot.
\<close>

theorem monitoring_ends_only_by_failure:
  "monitoring_loop env rs n st = Some (r, st') \<longleftrightarrow>
    (\<exists>k st1. rounds env rs n k st = Some st1 \<and> monitor_round env (rs (n + k)) st1 = Some (r, st') \<and> r \<noteq> Ok ())"
  using rounds_of_loop [of env rs n st "(r, st')"] loop_of_rounds [of env rs n _ st _ r st'] by auto

text \<open>
  C39: with Jito enabled a position is never given up: whatever happens, no check of a reachable bot removes one, and a check
  that finds a position due to be sold never succeeds.
\<close>

theorem jito_positions_stay:
  assumes "bot_reach env cfg st" and "cfg_jito_enabled cfg" and "check_mint env m mint st = Some (r, st')"
  shows "(\<forall>k pos. st_positions st k = Some pos \<longrightarrow> st_positions st' k = Some pos)
    \<and> (\<forall>pos price. st_positions st mint = Some pos \<and> get_latest_trade_price env m mint st = Some (Ok (Some price), st)
         \<and> sell_signal cfg pos price \<longrightarrow> r \<noteq> Ok ())"
proof
  note cannot = jito_client_cannot_sell [OF bot_reach_client [OF assms(1,2)]]
  have no: "strategy_trader_sell env m t st \<noteq> Some (Ok (), s2)" for t s2
    using cannot by (auto simp: strategy_trader_sell_def split: option.splits)
  from assms(3) show "\<forall>k pos. st_positions st k = Some pos \<longrightarrow> st_positions st' k = Some pos"
  proof (cases rule: check_mint_cases)
    case bought
    then show ?thesis using bought_state(1) [OF bought(2)] by (auto simp: bought_def)
  next
    case sold
    then show ?thesis using no by (auto simp: sold_def)
  next
    case idle
    then show ?thesis by (simp add: idle_def)
  qed
  have "st_config st = cfg" using bot_reach_inv [OF assms(1)] by (simp add: strategy_inv_def)
  then show "\<forall>pos price. st_positions st mint = Some pos \<and> get_latest_trade_price env m mint st = Some (Ok (Some price), st)
         \<and> sell_signal cfg pos price \<longrightarrow> r \<noteq> Ok ()"
    using assms(3) no by (auto simp: check_mint_def is_holding_def check_sell_condition_def execute_sell_def run_then_def split: option.splits outcome.splits)
qed

text \<open>
  A purchase skipped for lack of funds still opens a position. With a signal, a pool and less than the amount and the gas
  reserve in the wallet, the check succeeds, the trader and the SDK are as before, nothing was sent, and the bot holds a
  position of tokens it does not have.
\<close>

theorem skipped_buy_opens_position:
  assumes "\<not> is_holding mint st" and "get_latest_trade_price env m mint st = Some (Ok (Some price), st)"
    and "check_price_increase env m mint st = Some (Ok True, st)" and "get_or_fetch_trade_info env m mint st = Some (Ok info, s1)"
    and "bot_balance (at_rpc m) = Inr balance" and "balance < required_balance (buy_amount_lamports (st_config st))"
  shows "\<exists>st'. check_mint env m mint st = Some (Ok (), st') \<and> is_holding mint st' \<and> st_trader st' = st_trader st \<and> st_sdk st' = st_sdk st"
  using skipped_buy [OF assms] by (auto simp: is_holding_def)

text \<open>
  C40: a position is sold although its price has not moved. The bot buys at the pool's price and compares it with the prices
  of recorded trades, which are a thousandth of it: the first trade with the very reserves the position was bought at counts
  as a loss of more than half, and any stop loss up to fifty percent sells.
\<close>

theorem sells_at_its_own_price:
  assumes "bot_reach env cfg st" and "st_positions st mint = Some pos" and "t = tp_trade_info pos"
    and "0 < ti_pool_base_token_reserves t" and "0 < ti_pool_quote_token_reserves t" and "f64_le (cfg_sell_stop_loss_pct cfg) (f64_lit 50)"
    and "get_latest_trade_price env m mint st
      = Some (Ok (Some (calculate_price_from_amounts (ti_pool_quote_token_reserves t) (ti_pool_base_token_reserves t))), st)"
  shows "check_mint env m mint st = execute_sell env m mint t st"
proof -
  have inv: "st_config st = cfg" "tp_buy_price pos = calculate_price_from_pool t"
    using bot_reach_inv [OF assms(1)] assms(2,3) by (simp_all add: strategy_inv_def position_ok_def)
  from signal_at_buy_price [OF assms(4,5) inv(2) assms(6)] show ?thesis
    using assms(2,3,7) inv(1) by (simp add: check_mint_def is_holding_def check_sell_condition_def)
qed

text \<open>
  The strategy's decision to sell is the trader's \<open>should_sell\<close>, for a position with a positive price that the trader
  remembers; at a price of zero or below, or one that is not a number, the two differ: the strategy compares a profit of zero,
  the trader never sells.
\<close>

theorem sell_signal_is_should_sell:
  assumes "tdr_buy_price self = Some (tp_buy_price pos)"
  shows "should_sell self price (cfg_sell_profit_pct cfg) (cfg_sell_stop_loss_pct cfg) =
    (f64_lt (f64_lit 0) (tp_buy_price pos) \<and> sell_signal cfg pos price)"
  using assms by (simp add: should_sell_def calculate_profit_loss_pct_def sell_signal_def position_profit_pct_def Let_def)

section \<open>Witnesses\<close>

theorem positions_invariant_witness:
  "\<exists>st pos. bot_reach sample_bot_env (sample_cfg None) st \<and> st_positions st ''m'' = Some pos \<and> tp_mint pos = ''m''
     \<and> tp_buy_price pos = calculate_price_from_pool (tp_trade_info pos)"
proof -
  obtain st where "at_signal None st" using sample_at_signal ..
  from at_signal_buys [OF this] obtain st' pos where "bot_reach sample_bot_env (sample_cfg None) st'" "st_positions st' ''m'' = Some pos" by blast
  from positions_invariant [OF this] this show ?thesis by blast
qed


theorem skipped_buy_opens_position_witness:
  "\<exists>st st'. at_signal None st \<and> check_mint sample_bot_env (moment_of rising_db) ''m'' st = Some (Ok (), st') \<and> is_holding ''m'' st' \<and> st_trader st' = st_trader st"
proof -
  obtain st where st: "at_signal None st" using sample_at_signal ..
  have bal: "bot_balance (at_rpc (moment_of rising_db)) = Inr 10000000" by (simp add: moment_of_def poor_rpc_def)
  obtain info s1 where i: "get_or_fetch_trade_info sample_bot_env (moment_of rising_db) ''m'' st = Some (Ok info, s1)"
    using st by (auto simp: at_signal_def)
  from skipped_buy_opens_position [OF _ _ _ i bal] st show ?thesis unfolding at_signal_def by metis
qed

theorem sells_at_its_own_price_witness:
  "\<exists>st t. check_mint sample_bot_env (moment_of steady_db) ''m'' st = execute_sell sample_bot_env (moment_of steady_db) ''m'' t st"
proof -
  obtain st where st: "at_signal None st" using sample_at_signal ..
  from at_signal_buys [OF st] obtain st' pos where p: "check_mint sample_bot_env (moment_of rising_db) ''m'' st = Some (Ok (), st')" "st_positions st' ''m'' = Some pos"
    "ti_pool_base_token_reserves (tp_trade_info pos) = 5000" "ti_pool_quote_token_reserves (tp_trade_info pos) = 5000"
    "bot_reach sample_bot_env (sample_cfg None) st'" by blast
  have stop: "f64_le (cfg_sell_stop_loss_pct (sample_cfg None)) (f64_lit 50)"
    by (simp add: sample_cfg_def config_of_file_def sample_file_def unwrap_or_def default_sell_stop_loss_pct_def f64_lit_nat)
  have "st_redis_store st' \<noteq> None"
    using check_mint_client(3) [OF p(1)] st
    by (auto simp: at_signal_def check_price_increase_def split: option.splits)
  then obtain n where "st_redis_store st' = Some n" by blast
  note now = steady_price [OF p(5) this]
  have "check_mint sample_bot_env (moment_of steady_db) ''m'' st' = execute_sell sample_bot_env (moment_of steady_db) ''m'' (tp_trade_info pos) st'"
    by (rule sells_at_its_own_price [OF p(5,2) refl _ _ stop]) (simp_all add: p(3,4) now)
  then show ?thesis by blast
qed

theorem sell_signal_is_should_sell_witness:
  "should_sell (set_buy_price sample_bot (f64_lit 2) 5) (f64_lit 3) (f64_lit 10) (f64_lit 5) =
    (f64_lt (f64_lit 0) (f64_lit 2) \<and> sell_signal (sample_cfg None) \<lparr>tp_mint = ''m'', tp_buy_price = f64_lit 2, tp_buy_sol_amount = 5,
       tp_trade_info = from_pumpswap_params sample_pumpswap\<rparr> (f64_lit 3))"
proof -
  let ?pos = "\<lparr>tp_mint = ''m'', tp_buy_price = f64_lit 2, tp_buy_sol_amount = 5, tp_trade_info = from_pumpswap_params sample_pumpswap\<rparr>"
  have "tdr_buy_price (set_buy_price sample_bot (f64_lit 2) 5) = Some (tp_buy_price ?pos)" by (simp add: set_buy_price_def)
  from sell_signal_is_should_sell [OF this, of "f64_lit 3" "sample_cfg None"] show ?thesis
    by (simp add: sample_cfg_def config_of_file_def sample_file_def unwrap_or_def default_sell_profit_pct_def default_sell_stop_loss_pct_def)
qed

theorem jito_positions_stay_witness:
  "\<exists>st r st' pos. bot_reach sample_bot_env (sample_cfg (Some True)) st \<and> check_mint sample_bot_env (moment_of steady_db) ''m'' st = Some (r, st')
     \<and> st_positions st' ''m'' = Some pos"
proof -
  obtain st0 where st0: "at_signal (Some True) st0" using sample_at_signal ..
  from at_signal_buys [OF st0] obtain st pos where p: "check_mint sample_bot_env (moment_of rising_db) ''m'' st0 = Some (Ok (), st)" "st_positions st ''m'' = Some pos"
    "bot_reach sample_bot_env (sample_cfg (Some True)) st" by blast
  obtain price where "get_latest_trade_price sample_bot_env (moment_of steady_db) ''m'' st = Some (Ok price, st)"
    using steady_price [OF p(3)] by (cases "st_redis_store st") (auto simp: get_latest_trade_price_def)
  moreover have "\<exists>r s. execute_sell sample_bot_env (moment_of steady_db) ''m'' (tp_trade_info pos) st = Some (r, s)"
    by (simp add: execute_sell_def run_then_def strategy_trader_sell_def trader_sell_def get_token_balance_def moment_of_def poor_rpc_def)
  ultimately obtain r st' where c: "check_mint sample_bot_env (moment_of steady_db) ''m'' st = Some (r, st')"
    using p(2) by (cases price; cases "sell_signal (st_config st) pos (the price)") (auto simp: check_mint_def is_holding_def check_sell_condition_def run_ret_def)
  have "cfg_jito_enabled (sample_cfg (Some True))" by (simp add: sample_cfg_def config_of_file_def)
  from jito_positions_stay [OF p(3) this c] p c show ?thesis by blast
qed

end
