(* ===== verification/ObjectPool.thy ===== *)
theory ObjectPool
  imports Prelude
begin

text \<open>
  The bounded queue that the object pools of the SDK keep their idle objects in (\<open>crossbeam_queue::ArrayQueue\<close>), and what
  the pools have in common: an object is taken from the queue, or made when the queue is empty; it is used; it is put
  back, or dropped when the queue is full. The builders of transactions (\<open>transaction_pool.rs\<close>) and the buffers of the
  serializer (\<open>serialization.rs\<close>) are both pools of this kind. The interface \<open>object_pool\<close> says what makes such a pool
  invisible: what a use returns does not depend on what the object held before.
\<close>

section \<open>The queue\<close>

record 'o array_queue =
  aq_items :: "'o list"
  aq_cap :: nat

definition aq_new :: "nat \<Rightarrow> 'o array_queue" where
  "aq_new cap = \<lparr>aq_items = [], aq_cap = cap\<rparr>"

definition aq_push :: "'o \<Rightarrow> 'o array_queue \<Rightarrow> 'o array_queue" where
  "aq_push x q = (if length (aq_items q) < aq_cap q then q\<lparr>aq_items := aq_items q @ [x]\<rparr> else q)"

definition aq_pop :: "'o array_queue \<Rightarrow> 'o option \<times> 'o array_queue" where
  "aq_pop q = (case aq_items q of [] \<Rightarrow> (None, q) | x # xs \<Rightarrow> (Some x, q\<lparr>aq_items := xs\<rparr>))"

definition aq_prefill :: "nat \<Rightarrow> 'o \<Rightarrow> 'o array_queue \<Rightarrow> 'o array_queue" where
  "aq_prefill n x q = (aq_push x ^^ n) q"

text \<open>Taking an object from the queue, or a fresh one.\<close>

definition pool_take :: "'o \<Rightarrow> 'o array_queue \<Rightarrow> 'o \<times> 'o array_queue" where
  "pool_take fresh q = (case aq_pop q of (Some x, q') \<Rightarrow> (x, q') | (None, q') \<Rightarrow> (fresh, q'))"

definition aq_ok :: "'o array_queue \<Rightarrow> bool" where
  "aq_ok q \<longleftrightarrow> length (aq_items q) \<le> aq_cap q"

lemma aq_ok_new [simp, intro]: "aq_ok (aq_new cap)"
  by (simp add: aq_ok_def aq_new_def)

lemma aq_ok_push [intro]: "aq_ok q \<Longrightarrow> aq_ok (aq_push x q)"
  by (simp add: aq_ok_def aq_push_def)

lemma aq_cap_push [simp]: "aq_cap (aq_push x q) = aq_cap q"
  by (simp add: aq_push_def)

lemma pool_take_ok: "aq_ok q \<Longrightarrow> pool_take fresh q = (x, q') \<Longrightarrow> aq_ok q' \<and> aq_cap q' = aq_cap q"
  by (auto simp: pool_take_def aq_pop_def aq_ok_def split: list.splits)

lemma length_push: "length (aq_items (aq_push x q)) = (if length (aq_items q) < aq_cap q then Suc (length (aq_items q)) else length (aq_items q))"
  by (simp add: aq_push_def)

lemma length_take_items: "pool_take fresh q = (x, q') \<Longrightarrow> length (aq_items q') = length (aq_items q) - 1"
  by (auto simp: pool_take_def aq_pop_def split: list.splits)

lemma prefill_cap [simp]: "aq_cap (aq_prefill n x q) = aq_cap q"
  by (induction n) (simp_all add: aq_prefill_def)

lemma prefill_items: "aq_items (aq_prefill n x (aq_new cap)) = replicate (min n cap) x"
proof (induction n)
  case 0 then show ?case by (simp add: aq_prefill_def aq_new_def)
next
  case (Suc n)
  have "aq_prefill (Suc n) x (aq_new cap) = aq_push x (aq_prefill n x (aq_new cap))"
    by (simp add: aq_prefill_def)
  moreover have "aq_cap (aq_prefill n x (aq_new cap) :: 'a array_queue) = cap"
    by (simp add: aq_new_def)
  ultimately show ?case
    using Suc by (auto simp: aq_push_def min_def replicate_append_same not_less)
qed

text \<open>A pool that takes one object and puts one back ends with as many as before, or with one if it was empty.\<close>

lemma take_push_length:
  assumes "aq_ok q" "0 < aq_cap q" "pool_take fresh q = (x, q')"
  shows "length (aq_items (aq_push y q')) = max 1 (length (aq_items q))"
proof -
  have "aq_cap q' = aq_cap q" and l: "length (aq_items q') = length (aq_items q) - 1"
    using pool_take_ok [OF assms(1,3)] length_take_items [OF assms(3)] by auto
  then show ?thesis using assms(1,2) by (auto simp: length_push aq_ok_def max_def)
qed

section \<open>The interface of a pool\<close>

text \<open>
  One use of a pooled object returns an answer and gives the object back, or loses it: a path that returns early or panics
  drops the object instead of putting it back. The pool is invisible when the answer does not depend on the object that
  was taken.
\<close>

definition put_back :: "'o option \<Rightarrow> 'o array_queue \<Rightarrow> 'o array_queue" where
  "put_back x q = (case x of Some y \<Rightarrow> aq_push y q | None \<Rightarrow> q)"

lemma put_back_simps [simp]: "put_back None q = q" "put_back (Some y) q = aq_push y q"
  by (simp_all add: put_back_def)

locale object_pool =
  fixes fresh :: 'o
    and use_object :: "'a \<Rightarrow> 'o \<Rightarrow> 'r \<times> 'o option"
  assumes reuse: "fst (use_object a x) = fst (use_object a y)"
begin

definition pooled_use :: "'a \<Rightarrow> 'o array_queue \<Rightarrow> 'r \<times> 'o array_queue" where
  "pooled_use a q = (let (x, q') = pool_take fresh q; (r, x') = use_object a x in (r, put_back x' q'))"

fun pooled_uses :: "'a list \<Rightarrow> 'o array_queue \<Rightarrow> 'r list \<times> 'o array_queue" where
  "pooled_uses [] q = ([], q)"
| "pooled_uses (a # as) q = (let (r, q') = pooled_use a q; (rs, q'') = pooled_uses as q' in (r # rs, q''))"

lemma pooled_use_fresh: "fst (pooled_use a q) = fst (use_object a fresh)"
  by (simp add: pooled_use_def split_beta Let_def) (rule reuse)

lemma pooled_uses_fresh: "fst (pooled_uses as q) = map (\<lambda>a. fst (use_object a fresh)) as"
  by (induction "as" arbitrary: q) (simp_all add: Let_def split_beta pooled_use_fresh)

lemma pooled_use_ok: "aq_ok q \<Longrightarrow> aq_ok (snd (pooled_use a q)) \<and> aq_cap (snd (pooled_use a q)) = aq_cap q"
  by (cases "pool_take fresh q") (auto simp: pooled_use_def put_back_def Let_def split_beta dest: pool_take_ok split: option.splits)

lemma pooled_uses_ok: "aq_ok q \<Longrightarrow> aq_ok (snd (pooled_uses as q)) \<and> aq_cap (snd (pooled_uses as q)) = aq_cap q"
  by (induction "as" arbitrary: q) (simp_all add: Let_def split_beta pooled_use_ok)

lemma pooled_use_length:
  assumes "aq_ok q" "0 < aq_cap q"
  shows "length (aq_items (snd (pooled_use a q))) =
     (if snd (use_object a (fst (pool_take fresh q))) = None then length (aq_items q) - 1 else max 1 (length (aq_items q)))"
proof (cases "pool_take fresh q")
  case (Pair x q')
  then show ?thesis
    using length_take_items [OF Pair] take_push_length [OF assms Pair]
    by (cases "snd (use_object a x)") (auto simp: pooled_use_def Let_def split_beta)
qed

end

end
