(* ===== verification/TxPool.thy ===== *)
theory TxPool
  imports TxBuilder ObjectPool
begin

text \<open>
  The pool of preallocated transaction builders (\<open>trading/core/transaction_pool.rs\<close>) and the build of a transaction with a
  builder taken from it (\<open>build_versioned_transaction\<close> of \<open>transaction_builder.rs\<close>). A builder carries the instructions
  and lookup tables of its last use; \<open>build_zero_alloc\<close> clears them before it fills in its own. The theory \<open>TxBuilder\<close>
  builds with no builder at all; the theorem here is that the pool makes no difference to what is built.
\<close>

section \<open>Builders\<close>

definition TX_BUILDER_POOL_CAP :: nat where "TX_BUILDER_POOL_CAP = 1000"
definition PARALLEL_SENDER_COUNT :: nat where "PARALLEL_SENDER_COUNT = 18"
definition TX_BUILDER_POOL_PREFILL :: nat where "TX_BUILDER_POOL_PREFILL = 64"

record tx_builder =
  tb_instructions :: "instruction list"
  tb_lookup_tables :: "lookup_table list"

definition tx_builder_new :: tx_builder where
  "tx_builder_new = \<lparr>tb_instructions = [], tb_lookup_tables = []\<rparr>"

definition tx_builder_reset :: "tx_builder \<Rightarrow> tx_builder" where
  "tx_builder_reset b = b\<lparr>tb_instructions := [], tb_lookup_tables := []\<rparr>"

definition tx_builder_build ::
  "tx_ext \<Rightarrow> tx_builder \<Rightarrow> pubkey \<Rightarrow> instruction list \<Rightarrow> lookup_table option \<Rightarrow> hash \<Rightarrow> message rust \<times> tx_builder" where
  "tx_builder_build tex b payer instructions alt recent_blockhash =
     (let cleared = tx_builder_reset b;
          filled = cleared\<lparr>tb_instructions := tb_instructions cleared @ instructions\<rparr>
      in case alt of
           Some table \<Rightarrow>
             (let m = \<lparr>msg_version = V0 table, msg_payer = payer, msg_instructions = tb_instructions filled, msg_blockhash = recent_blockhash\<rparr>
              in (if compiles tex m then Some m else None, filled))
         | None \<Rightarrow>
             (Some \<lparr>msg_version = Legacy, msg_payer = payer, msg_instructions = tb_instructions filled, msg_blockhash = recent_blockhash\<rparr>, filled))"

section \<open>The pool\<close>

definition tx_builder_pool :: "tx_builder array_queue" where
  "tx_builder_pool = aq_prefill (max TX_BUILDER_POOL_PREFILL PARALLEL_SENDER_COUNT) tx_builder_new (aq_new TX_BUILDER_POOL_CAP)"

definition acquire_builder :: "tx_builder array_queue \<Rightarrow> tx_builder \<times> tx_builder array_queue" where
  "acquire_builder pool = pool_take tx_builder_new pool"

definition release_builder :: "tx_builder \<Rightarrow> tx_builder array_queue \<Rightarrow> tx_builder array_queue" where
  "release_builder b pool = aq_push (tx_builder_reset b) pool"

definition tx_pool_stats :: "tx_builder array_queue \<Rightarrow> nat \<times> nat" where
  "tx_pool_stats pool = (length (aq_items pool), aq_cap pool)"

text \<open>The guard holds a builder until it is dropped; \<open>get_mut\<close> on a guard whose builder is gone panics.\<close>

type_synonym tx_builder_guard = "tx_builder option"

definition tx_guard_new :: "tx_builder array_queue \<Rightarrow> tx_builder_guard \<times> tx_builder array_queue" where
  "tx_guard_new pool = (let (b, pool') = acquire_builder pool in (Some b, pool'))"

definition tx_guard_get_mut :: "tx_builder_guard \<Rightarrow> tx_builder rust" where
  "tx_guard_get_mut g = g"

definition tx_guard_drop :: "tx_builder_guard \<Rightarrow> tx_builder array_queue \<Rightarrow> tx_builder_guard \<times> tx_builder array_queue" where
  "tx_guard_drop g pool = (case g of Some b \<Rightarrow> (None, release_builder b pool) | None \<Rightarrow> (None, pool))"

text \<open>
  The build of a transaction with a pooled builder. When the message does not compile the build panics and the builder is
  dropped with the stack frame, not returned.
\<close>

definition pooled_versioned_transaction ::
  "tx_ext \<Rightarrow> pubkey \<Rightarrow> instruction list \<Rightarrow> lookup_table option \<Rightarrow> hash \<Rightarrow> middleware list option \<Rightarrow> string \<Rightarrow> bool
     \<Rightarrow> tx_builder array_queue \<Rightarrow> transaction outcome \<times> tx_builder array_queue" where
  "pooled_versioned_transaction tex payer instructions alt blockhash middlewares protocol_name is_buy pool =
     (case (case middlewares of
              Some ms \<Rightarrow> apply_middlewares_process_full_instructions ms instructions protocol_name is_buy
            | None \<Rightarrow> Inr instructions) of
        Inl e \<Rightarrow> (Err e, pool)
      | Inr full_instructions \<Rightarrow>
          (let (builder, pool1) = acquire_builder pool
           in case tx_builder_build tex builder payer full_instructions alt blockhash of
                (Some m, builder') \<Rightarrow> (Ok \<lparr>tx_signatures = [sign tex m], tx_message = m\<rparr>, release_builder builder' pool1)
              | (None, builder') \<Rightarrow> (Panic, pool1)))"

section \<open>The pool is invisible\<close>

fun use_builder ::
  "tx_ext \<times> pubkey \<times> instruction list \<times> lookup_table option \<times> hash \<Rightarrow> tx_builder \<Rightarrow> message rust \<times> tx_builder option" where
  "use_builder (tex, payer, instructions, alt, blockhash) b =
     (case tx_builder_build tex b payer instructions alt blockhash of
        (Some m, b') \<Rightarrow> (Some m, Some (tx_builder_reset b'))
      | (None, b') \<Rightarrow> (None, None))"

interpretation builders: object_pool tx_builder_new use_builder
proof
  fix a x y
  show "fst (use_builder a x) = fst (use_builder a y)"
    by (cases a) (simp add: tx_builder_build_def tx_builder_reset_def Let_def split: option.split)
qed

lemma pooled_transaction_use:
  "pooled_versioned_transaction tex payer instructions alt blockhash middlewares protocol_name is_buy pool =
     (case (case middlewares of
              Some ms \<Rightarrow> apply_middlewares_process_full_instructions ms instructions protocol_name is_buy
            | None \<Rightarrow> Inr instructions) of
        Inl e \<Rightarrow> (Err e, pool)
      | Inr full \<Rightarrow>
          (case builders.pooled_use (tex, payer, full, alt, blockhash) pool of
             (Some m, pool') \<Rightarrow> (Ok \<lparr>tx_signatures = [sign tex m], tx_message = m\<rparr>, pool')
           | (None, pool') \<Rightarrow> (Panic, pool')))"
  by (simp add: pooled_versioned_transaction_def builders.pooled_use_def acquire_builder_def release_builder_def
      Let_def split_beta split: sum.split option.split)

lemma use_fresh_builder:
  "fst (use_builder (tex, payer, instructions, alt, blockhash) tx_builder_new) =
     (case fst (build_zero_alloc tex payer instructions alt blockhash s) of Ok m \<Rightarrow> Some m | _ \<Rightarrow> None)"
  by (simp add: tx_builder_build_def tx_builder_reset_def tx_builder_new_def build_zero_alloc_def Let_def
      split: option.split)

lemma build_zero_alloc_no_error: "fst (build_zero_alloc tex payer instructions alt blockhash s) \<noteq> Err e"
  by (simp add: build_zero_alloc_def Let_def split: option.split)

lemma build_zero_alloc_state: "snd (build_zero_alloc tex payer instructions alt blockhash s) = s"
  by (simp add: build_zero_alloc_def Let_def split: option.split)

text \<open>
  Building with a builder from the pool returns exactly what building from nothing returns, errors and panics included,
  whatever the pool and the builders in it hold; the pool never outgrows its capacity, and a transaction that is built
  leaves as many builders as there were, or the one it made.
\<close>

theorem pooled_build_is_build:
  assumes "aq_ok pool" "0 < aq_cap pool"
  shows "fst (pooled_versioned_transaction tex payer instructions alt blockhash middlewares protocol_name is_buy pool) =
           fst (build_versioned_transaction tex payer instructions alt blockhash middlewares protocol_name is_buy s)
       \<and> aq_ok (snd (pooled_versioned_transaction tex payer instructions alt blockhash middlewares protocol_name is_buy pool))
       \<and> (\<forall>tx. fst (pooled_versioned_transaction tex payer instructions alt blockhash middlewares protocol_name is_buy pool) = Ok tx \<longrightarrow>
            length (aq_items (snd (pooled_versioned_transaction tex payer instructions alt blockhash middlewares protocol_name is_buy pool))) =
              max 1 (length (aq_items pool)))"
proof -
  define full where "full = (case middlewares of
      Some ms \<Rightarrow> apply_middlewares_process_full_instructions ms instructions protocol_name is_buy
    | None \<Rightarrow> Inr instructions)"
  define b where "b ixs = fst (build_zero_alloc tex payer ixs alt blockhash s)" for ixs
  have plain: "fst (build_versioned_transaction tex payer instructions alt blockhash middlewares protocol_name is_buy s) =
      (case full of Inl e \<Rightarrow> Err e
       | Inr ixs \<Rightarrow> (case b ixs of Ok m \<Rightarrow> Ok \<lparr>tx_signatures = [sign tex m], tx_message = m\<rparr> | Err e \<Rightarrow> Err e | Panic \<Rightarrow> Panic))"
    by (auto simp: build_versioned_transaction_def full_def b_def then_do_run build_zero_alloc_def Let_def of_result_def
        split: option.splits sum.splits)
  show ?thesis
  proof (cases full)
    case (Inl e)
    then show ?thesis using assms by (simp add: plain pooled_transaction_use full_def [symmetric])
  next
    case (Inr ixs)
    let ?use = "builders.pooled_use (tex, payer, ixs, alt, blockhash) pool"
    have r: "fst ?use = (case b ixs of Ok m \<Rightarrow> Some m | _ \<Rightarrow> None)"
      by (simp del: use_builder.simps add: builders.pooled_use_fresh use_fresh_builder [of _ _ _ _ _ s] b_def)
    have ok: "aq_ok (snd ?use)" using builders.pooled_use_ok [OF assms(1)] by blast
    have kept: "snd (use_builder (tex, payer, ixs, alt, blockhash) x) \<noteq> None" if "fst ?use \<noteq> None" for x
      using that builders.pooled_use_fresh [of "(tex, payer, ixs, alt, blockhash)" pool]
        builders.reuse [of "(tex, payer, ixs, alt, blockhash)" tx_builder_new x]
      by (auto split: prod.splits option.splits)
    show ?thesis
      using r ok kept [of "fst (pool_take tx_builder_new pool)"] builders.pooled_use_length [OF assms, of "(tex, payer, ixs, alt, blockhash)"]
        build_zero_alloc_no_error [of tex payer ixs alt blockhash s]
      by (cases ?use; cases "b ixs")
         (auto simp del: use_builder.simps simp: plain Inr pooled_transaction_use full_def [symmetric] b_def)
  qed
qed

theorem pooled_build_is_build_witness:
  "fst (pooled_versioned_transaction sample_tx_ext 7 [close_account TOKEN_PROGRAM 9 7 7 []] None 3 None ''PumpSwap'' True
      \<lparr>aq_items = [\<lparr>tb_instructions = [close_account TOKEN_PROGRAM 1 2 3 []], tb_lookup_tables = []\<rparr>], aq_cap = 2\<rparr>) =
     fst (build_versioned_transaction sample_tx_ext 7 [close_account TOKEN_PROGRAM 9 7 7 []] None 3 None ''PumpSwap'' True caches_init)"
  using pooled_build_is_build [of "\<lparr>aq_items = [\<lparr>tb_instructions = [close_account TOKEN_PROGRAM 1 2 3 []], tb_lookup_tables = []\<rparr>], aq_cap = 2\<rparr>"
      sample_tx_ext 7 "[close_account TOKEN_PROGRAM 9 7 7 []]" None 3 None "''PumpSwap''" True caches_init]
  by (simp add: aq_ok_def)

section \<open>The pool at start, and the guard\<close>

lemma tx_builder_pool_stats: "tx_pool_stats tx_builder_pool = (64, 1000)"
  by (simp add: tx_pool_stats_def tx_builder_pool_def prefill_items aq_new_def [of TX_BUILDER_POOL_CAP, symmetric]
      TX_BUILDER_POOL_PREFILL_def PARALLEL_SENDER_COUNT_def TX_BUILDER_POOL_CAP_def)
     (simp add: aq_new_def)

lemma prefill_covers_senders: "PARALLEL_SENDER_COUNT \<le> fst (tx_pool_stats tx_builder_pool)"
  by (simp add: tx_builder_pool_stats PARALLEL_SENDER_COUNT_def)

text \<open>Making and dropping a guard leaves as many builders in the pool as there were, or one; dropping it again does nothing.\<close>

lemma guard_round_trip:
  assumes "aq_ok pool" "0 < aq_cap pool" "tx_guard_new pool = (g, pool1)" "tx_guard_drop g pool1 = (g', pool2)"
  shows "tx_guard_get_mut g \<noteq> None" "tx_guard_get_mut g' = None" "tx_guard_drop g' pool2 = (None, pool2)"
    and "length (aq_items pool2) = max 1 (length (aq_items pool))"
proof -
  obtain b where b: "acquire_builder pool = (b, pool1)" "g = Some b"
    using assms(3) by (auto simp: tx_guard_new_def split_beta Let_def prod_eq_iff)
  then show "tx_guard_get_mut g \<noteq> None" "tx_guard_get_mut g' = None" "tx_guard_drop g' pool2 = (None, pool2)"
    using assms(4) by (auto simp: tx_guard_get_mut_def tx_guard_drop_def)
  show "length (aq_items pool2) = max 1 (length (aq_items pool))"
    using assms(4) b take_push_length [OF assms(1,2), of tx_builder_new b pool1]
    by (auto simp: tx_guard_drop_def release_builder_def acquire_builder_def)
qed

end
