(* ===== verification/Serializer.thy ===== *)
theory Serializer
  imports ObjectPool
begin

text \<open>
  The serializer of transactions (\<open>swqos/serialization.rs\<close>): a process-wide pool of byte buffers, the bincode bytes of a
  value copied into a pooled buffer, and their Base64 or Base58 text. The \<open>bincode\<close>, \<open>base64\<close> and \<open>bs58\<close> packages are
  parameters: the first may fail, the others are functions of the bytes.
\<close>

section \<open>The pool of buffers\<close>

definition SERIALIZER_POOL_SIZE :: nat where "SERIALIZER_POOL_SIZE = 10000"
definition SERIALIZER_PREWARM_BUFFERS :: nat where "SERIALIZER_PREWARM_BUFFERS = 64"

type_synonym buffer_pool = "u8 list array_queue"

text \<open>A buffer is its contents; the capacity reserved for it is not observable.\<close>

definition new_with_prewarm :: "nat \<Rightarrow> nat \<Rightarrow> buffer_pool" where
  "new_with_prewarm pool_size prewarm_buffers = aq_prefill (min prewarm_buffers pool_size) [] (aq_new pool_size)"

definition serializer_new :: "nat \<Rightarrow> buffer_pool" where
  "serializer_new pool_size = new_with_prewarm pool_size SERIALIZER_PREWARM_BUFFERS"

definition SERIALIZER :: buffer_pool where
  "SERIALIZER = serializer_new SERIALIZER_POOL_SIZE"

record 't codec =
  bincode :: "'t \<Rightarrow> string + u8 list"
  base64_standard :: "u8 list \<Rightarrow> string"
  base58 :: "u8 list \<Rightarrow> string"
  tx_signature :: "'t \<Rightarrow> nat"

definition serialize_zero_alloc :: "'t codec \<Rightarrow> 't \<Rightarrow> buffer_pool \<Rightarrow> (string + u8 list) \<times> buffer_pool" where
  "serialize_zero_alloc c value pool =
     (let (buffer, pool') = pool_take [] pool
      in case bincode c value of
           Inl e \<Rightarrow> (Inl e, pool')
         | Inr serialized \<Rightarrow> (let cleared = take 0 buffer in (Inr (cleared @ serialized), pool')))"

definition return_buffer :: "u8 list \<Rightarrow> buffer_pool \<Rightarrow> buffer_pool" where
  "return_buffer buffer pool = aq_push buffer pool"

definition serializer_stats :: "buffer_pool \<Rightarrow> nat \<times> nat" where
  "serializer_stats pool = (length (aq_items pool), aq_cap pool)"

section \<open>Encodings\<close>

datatype ui_encoding = Binary | Base64 | Base58 | Json | JsonParsed

definition encode_base64_simd :: "'t codec \<Rightarrow> u8 list \<Rightarrow> string" where
  "encode_base64_simd c bytes = base64_standard c bytes"

definition encode_bytes :: "'t codec \<Rightarrow> ui_encoding \<Rightarrow> u8 list \<Rightarrow> string + string" where
  "encode_bytes c encoding bytes =
     (case encoding of
        Base58 \<Rightarrow> Inr (base58 c bytes)
      | Base64 \<Rightarrow> Inr (encode_base64_simd c bytes)
      | _ \<Rightarrow> Inl ''Unsupported encoding'')"

definition serialize_and_encode :: "'t codec \<Rightarrow> 't \<Rightarrow> buffer_pool \<Rightarrow> (string + string) \<times> buffer_pool" where
  "serialize_and_encode c value pool =
     (case serialize_zero_alloc c value pool of
        (Inl e, pool') \<Rightarrow> (Inl e, pool')
      | (Inr serialized, pool') \<Rightarrow> (Inr (base64_standard c serialized), return_buffer serialized pool'))"

text \<open>The guard returns a buffer that is not empty when it is dropped.\<close>

definition serialize_transaction_bincode_sync :: "'t codec \<Rightarrow> 't \<Rightarrow> buffer_pool \<Rightarrow> (string + u8 list \<times> nat) \<times> buffer_pool" where
  "serialize_transaction_bincode_sync c transaction pool =
     (case serialize_zero_alloc c transaction pool of
        (Inl e, pool') \<Rightarrow> (Inl e, pool')
      | (Inr serialized, pool') \<Rightarrow> (Inr (serialized, tx_signature c transaction), pool'))"

definition guard_drop :: "u8 list \<Rightarrow> buffer_pool \<Rightarrow> buffer_pool" where
  "guard_drop buffer pool = (if buffer \<noteq> [] then return_buffer buffer pool else pool)"

text \<open>An encoding that is not supported returns before the buffer is put back.\<close>

definition serialize_transaction_sync :: "'t codec \<Rightarrow> 't \<Rightarrow> ui_encoding \<Rightarrow> buffer_pool \<Rightarrow> (string + string \<times> nat) \<times> buffer_pool" where
  "serialize_transaction_sync c transaction encoding pool =
     (case serialize_zero_alloc c transaction pool of
        (Inl e, pool') \<Rightarrow> (Inl e, pool')
      | (Inr serialized_tx, pool') \<Rightarrow>
          (case encode_bytes c encoding serialized_tx of
             Inl e \<Rightarrow> (Inl e, pool')
           | Inr serialized \<Rightarrow> (Inr (serialized, tx_signature c transaction), return_buffer serialized_tx pool')))"

definition serialize_transaction :: "'t codec \<Rightarrow> 't \<Rightarrow> ui_encoding \<Rightarrow> buffer_pool \<Rightarrow> (string + string \<times> nat) \<times> buffer_pool" where
  "serialize_transaction c transaction encoding pool =
     (let signature = tx_signature c transaction
      in case serialize_zero_alloc c transaction pool of
           (Inl e, pool') \<Rightarrow> (Inl e, pool')
         | (Inr serialized_tx, pool') \<Rightarrow>
             (case encode_bytes c encoding serialized_tx of
                Inl e \<Rightarrow> (Inl e, pool')
              | Inr serialized \<Rightarrow> (Inr (serialized, signature), return_buffer serialized_tx pool')))"

text \<open>The batch stops at the first transaction that fails; the texts of the earlier ones are dropped.\<close>

fun batch_loop :: "'t codec \<Rightarrow> ui_encoding \<Rightarrow> string list \<Rightarrow> 't list \<Rightarrow> buffer_pool \<Rightarrow> (string + string list) \<times> buffer_pool" where
  "batch_loop c encoding results [] pool = (Inr results, pool)"
| "batch_loop c encoding results (tx # txs) pool =
     (case serialize_zero_alloc c tx pool of
        (Inl e, pool') \<Rightarrow> (Inl e, pool')
      | (Inr serialized_tx, pool') \<Rightarrow>
          (case encode_bytes c encoding serialized_tx of
             Inl e \<Rightarrow> (Inl e, pool')
           | Inr encoded \<Rightarrow> batch_loop c encoding (results @ [encoded]) txs (return_buffer serialized_tx pool')))"

definition serialize_transactions_batch_sync :: "'t codec \<Rightarrow> 't list \<Rightarrow> ui_encoding \<Rightarrow> buffer_pool \<Rightarrow> (string + string list) \<times> buffer_pool" where
  "serialize_transactions_batch_sync c transactions encoding pool = batch_loop c encoding [] transactions pool"

definition serialize_transactions_batch :: "'t codec \<Rightarrow> 't list \<Rightarrow> ui_encoding \<Rightarrow> buffer_pool \<Rightarrow> (string + string list) \<times> buffer_pool" where
  "serialize_transactions_batch c transactions encoding pool = batch_loop c encoding [] transactions pool"

section \<open>The buffers are invisible\<close>

fun use_buffer :: "'t codec \<times> ui_encoding \<times> 't \<Rightarrow> u8 list \<Rightarrow> (string + string) \<times> u8 list option" where
  "use_buffer (c, encoding, value) buffer =
     (case bincode c value of
       Inl e \<Rightarrow> (Inl e, None)
     | Inr bytes \<Rightarrow> (case encode_bytes c encoding bytes of
         Inl e \<Rightarrow> (Inl e, None) | Inr text \<Rightarrow> (Inr text, Some bytes)))"

interpretation buffers: object_pool "[] :: u8 list" use_buffer
proof
  fix a :: "'b codec \<times> ui_encoding \<times> 'b" and x y
  show "fst (use_buffer a x) = fst (use_buffer a y)" by (cases a) simp
qed

lemma serialize_sync_use:
  "serialize_transaction_sync c tx encoding pool =
     (case buffers.pooled_use (c, encoding, tx) pool of
        (Inl e, pool') \<Rightarrow> (Inl e, pool') | (Inr text, pool') \<Rightarrow> (Inr (text, tx_signature c tx), pool'))"
  by (simp add: serialize_transaction_sync_def serialize_zero_alloc_def buffers.pooled_use_def return_buffer_def
      Let_def split_beta split: sum.split)

text \<open>The text of one transaction, with no buffer involved.\<close>

definition tx_text :: "'t codec \<Rightarrow> ui_encoding \<Rightarrow> 't \<Rightarrow> string + string" where
  "tx_text c encoding tx = (case bincode c tx of Inl e \<Rightarrow> Inl e | Inr bytes \<Rightarrow> encode_bytes c encoding bytes)"

fun first_error :: "(string + 'a) list \<Rightarrow> string + 'a list" where
  "first_error [] = Inr []"
| "first_error (Inl e # xs) = Inl e"
| "first_error (Inr x # xs) = (case first_error xs of Inl e \<Rightarrow> Inl e | Inr ys \<Rightarrow> Inr (x # ys))"

lemma use_buffer_text: "fst (use_buffer (c, encoding, tx) b) = tx_text c encoding tx"
  by (simp add: tx_text_def split: sum.split)

lemma batch_loop_step:
  "batch_loop c encoding results (tx # txs) pool =
     (case buffers.pooled_use (c, encoding, tx) pool of
        (Inl e, pool') \<Rightarrow> (Inl e, pool') | (Inr text, pool') \<Rightarrow> batch_loop c encoding (results @ [text]) txs pool')"
  by (simp add: serialize_zero_alloc_def buffers.pooled_use_def return_buffer_def Let_def split_beta split: sum.split)

lemma batch_loop_text:
  "fst (batch_loop c encoding results txs pool) =
     (case first_error (map (tx_text c encoding) txs) of Inl e \<Rightarrow> Inl e | Inr texts \<Rightarrow> Inr (results @ texts))"
proof (induction txs arbitrary: results pool)
  case Nil then show ?case by simp
next
  case (Cons tx txs)
  show ?case
    using buffers.pooled_use_fresh [of "(c, encoding, tx)" pool] Cons
    by (cases "buffers.pooled_use (c, encoding, tx) pool"; cases "tx_text c encoding tx")
       (auto simp del: batch_loop.simps use_buffer.simps simp: batch_loop_step use_buffer_text split: sum.splits)
qed

lemma batch_loop_ok: "aq_ok pool \<Longrightarrow> aq_ok (snd (batch_loop c encoding results txs pool)) \<and> aq_cap (snd (batch_loop c encoding results txs pool)) = aq_cap pool"
proof (induction txs arbitrary: results pool)
  case Nil then show ?case by simp
next
  case (Cons tx txs)
  show ?case
    using buffers.pooled_use_ok [OF Cons.prems, of "(c, encoding, tx)"] Cons.IH
    by (cases "buffers.pooled_use (c, encoding, tx) pool")
       (auto simp del: batch_loop.simps use_buffer.simps simp: batch_loop_step split: sum.splits)
qed

text \<open>
  What is serialized does not depend on the buffers in the pool: a single transaction gives its own text and signature, a
  batch gives the texts in order or the error of the first transaction that fails, the asynchronous copies agree with the
  synchronous ones, and the pool stays within its capacity.
\<close>

theorem serialization_ignores_buffers:
  "fst (serialize_transaction_sync c tx encoding pool) = map_sum id (\<lambda>text. (text, tx_signature c tx)) (tx_text c encoding tx)
   \<and> serialize_transaction c tx encoding pool = serialize_transaction_sync c tx encoding pool
   \<and> fst (serialize_transactions_batch_sync c txs encoding pool) = first_error (map (tx_text c encoding) txs)
   \<and> serialize_transactions_batch c txs encoding pool = serialize_transactions_batch_sync c txs encoding pool
   \<and> (length (aq_items pool) \<le> aq_cap pool \<longrightarrow>
        length (aq_items (snd (serialize_transactions_batch_sync c txs encoding pool))) \<le> aq_cap pool)"
proof (intro conjI)
  show "fst (serialize_transaction_sync c tx encoding pool) = map_sum id (\<lambda>text. (text, tx_signature c tx)) (tx_text c encoding tx)"
    using buffers.pooled_use_fresh [of "(c, encoding, tx)" pool]
    by (cases "buffers.pooled_use (c, encoding, tx) pool"; cases "tx_text c encoding tx")
       (auto simp del: use_buffer.simps simp: serialize_sync_use use_buffer_text)
  show "serialize_transaction c tx encoding pool = serialize_transaction_sync c tx encoding pool"
    by (simp add: serialize_transaction_def serialize_transaction_sync_def Let_def)
  show "fst (serialize_transactions_batch_sync c txs encoding pool) = first_error (map (tx_text c encoding) txs)"
    by (simp add: serialize_transactions_batch_sync_def batch_loop_text split: sum.split)
  show "serialize_transactions_batch c txs encoding pool = serialize_transactions_batch_sync c txs encoding pool"
    by (simp add: serialize_transactions_batch_def serialize_transactions_batch_sync_def)
  show "length (aq_items pool) \<le> aq_cap pool \<longrightarrow>
        length (aq_items (snd (serialize_transactions_batch_sync c txs encoding pool))) \<le> aq_cap pool"
    using batch_loop_ok [of pool c encoding "[]" txs] by (auto simp: aq_ok_def serialize_transactions_batch_sync_def)
qed

definition sample_codec :: "u8 codec" where
  "sample_codec = \<lparr>bincode = (\<lambda>t. if t = 0 then Inl ''zero'' else Inr [t, 1]), base64_standard = (\<lambda>b. ''b64''),
     base58 = (\<lambda>b. ''b58''), tx_signature = unat\<rparr>"

theorem serialization_ignores_buffers_witness:
  "length (aq_items (snd (serialize_transactions_batch_sync sample_codec [1, 2] Base64 (serializer_new 2)))) \<le> 2
   \<and> fst (serialize_transactions_batch_sync sample_codec [1, 2] Base64 (serializer_new 2)) = Inr [''b64'', ''b64'']"
proof -
  have p: "aq_items (serializer_new 2) = [[], []]" "aq_cap (serializer_new 2) = 2"
    by (simp_all add: serializer_new_def new_with_prewarm_def prefill_items SERIALIZER_PREWARM_BUFFERS_def numeral_2_eq_2)
       (simp add: aq_new_def)
  show ?thesis
    using serialization_ignores_buffers [of sample_codec 1 Base64 "serializer_new 2" "[1, 2]"] p
    by (simp add: tx_text_def sample_codec_def encode_bytes_def encode_base64_simd_def)
qed

text \<open>
  A transaction with an unsupported encoding, or one that bincode refuses, costs the pool a buffer: after as many of them
  as there were buffers, every later serialization allocates.
\<close>

theorem failed_serialization_loses_buffer:
  assumes "length (aq_items pool) \<le> aq_cap pool" "0 < aq_cap pool"
  shows "length (aq_items (snd (serialize_transaction_sync c tx encoding pool))) =
     (if encoding \<in> {Base58, Base64} \<and> (\<exists>bytes. bincode c tx = Inr bytes) then max 1 (length (aq_items pool))
      else length (aq_items pool) - 1)"
proof -
  have ok: "aq_ok pool" using assms(1) by (simp add: aq_ok_def)
  have "snd (serialize_transaction_sync c tx encoding pool) = snd (buffers.pooled_use (c, encoding, tx) pool)"
    by (simp add: serialize_sync_use split: prod.split sum.split)
  moreover have "snd (use_buffer (c, encoding, tx) b) = None \<longleftrightarrow>
      \<not> (encoding \<in> {Base58, Base64} \<and> (\<exists>bytes. bincode c tx = Inr bytes))" for b
    by (cases encoding) (auto simp: encode_bytes_def split: sum.split)
  ultimately show ?thesis using buffers.pooled_use_length [OF ok assms(2), of "(c, encoding, tx)"] by simp
qed

lemma serializer_starts_prewarmed: "serializer_stats SERIALIZER = (64, 10000)"
  by (simp add: serializer_stats_def SERIALIZER_def serializer_new_def new_with_prewarm_def prefill_items
      SERIALIZER_POOL_SIZE_def SERIALIZER_PREWARM_BUFFERS_def) (simp add: aq_new_def)

text \<open>A guard round trip gives the buffer back, with the bytes of the transaction in it.\<close>

lemma guard_returns_buffer:
  assumes "aq_ok pool" "0 < aq_cap pool" "serialize_transaction_bincode_sync c tx pool = (Inr (bytes, sig), pool')" "bytes \<noteq> []"
  shows "bincode c tx = Inr bytes" "length (aq_items (guard_drop bytes pool')) = max 1 (length (aq_items pool))"
proof -
  obtain x where t: "pool_take [] pool = (x, pool')" "bincode c tx = Inr bytes"
    using assms(3) by (auto simp: serialize_transaction_bincode_sync_def serialize_zero_alloc_def Let_def split_beta prod_eq_iff
        split: sum.splits)
  then show "bincode c tx = Inr bytes" by simp
  show "length (aq_items (guard_drop bytes pool')) = max 1 (length (aq_items pool))"
    using take_push_length [OF assms(1,2) t(1)] assms(4) by (simp add: guard_drop_def return_buffer_def)
qed

end
