(* ===== verification/RingBuffer.thy ===== *)
theory RingBuffer
  imports RustInt ObjectPool
begin

text \<open>
  The ring buffer of \<open>perf/hardware_optimizations.rs\<close> (\<open>CacheOptimizedRingBuffer\<close>) and the counter beside it. Both ends are
  64-bit counters that only grow and wrap around; a slot is a counter masked with the capacity, a power of two, minus one,
  and one slot always stays free. The interface \<open>bounded_queue\<close> is what a client of such a buffer relies on; the buffer
  satisfies it, and so does the bounded queue of the object pools. The last section interleaves the loads and stores of one
  producer and one consumer.
\<close>

section \<open>The interface of a bounded queue\<close>

datatype 'a queue_op = Push 'a | Pop

locale bounded_queue =
  fixes inv :: "'s \<Rightarrow> bool"
    and items :: "'s \<Rightarrow> 'a list"
    and room :: "'s \<Rightarrow> nat"
    and push :: "'a \<Rightarrow> 's \<Rightarrow> bool \<times> 's"
    and pop :: "'s \<Rightarrow> 'a option \<times> 's"
  assumes push_keeps: "inv s \<Longrightarrow> inv (snd (push x s)) \<and> room (snd (push x s)) = room s"
    and push_accepts: "inv s \<Longrightarrow> length (items s) < room s \<Longrightarrow> fst (push x s) \<and> items (snd (push x s)) = items s @ [x]"
    and push_refuses: "inv s \<Longrightarrow> room s \<le> length (items s) \<Longrightarrow> \<not> fst (push x s) \<and> items (snd (push x s)) = items s"
    and pop_keeps: "inv s \<Longrightarrow> inv (snd (pop s)) \<and> room (snd (pop s)) = room s"
    and pop_first: "inv s \<Longrightarrow> items s = x # xs \<Longrightarrow> fst (pop s) = Some x \<and> items (snd (pop s)) = xs"
    and pop_empty: "inv s \<Longrightarrow> items s = [] \<Longrightarrow> fst (pop s) = None \<and> items (snd (pop s)) = []"
begin

text \<open>A sequence of calls: what was accepted, what came out, and the final state.\<close>

fun run :: "'a queue_op list \<Rightarrow> 's \<Rightarrow> 'a list \<times> 'a list \<times> 's" where
  "run [] s = ([], [], s)"
| "run (Push x # ops) s =
     (let (ok, s') = push x s; (ins, outs, s'') = run ops s' in ((if ok then x # ins else ins), outs, s''))"
| "run (Pop # ops) s =
     (let (r, s') = pop s; (ins, outs, s'') = run ops s' in (ins, (case r of Some x \<Rightarrow> x # outs | None \<Rightarrow> outs), s''))"

lemma run_fifo: "inv s \<Longrightarrow> run ops s = (ins, outs, s') \<Longrightarrow> items s @ ins = outs @ items s' \<and> inv s' \<and> room s' = room s"
proof (induction ops s arbitrary: ins outs s' rule: run.induct)
  case (1 s) then show ?case by auto
next
  case (2 x ops s)
  obtain ins' outs' s'' where r: "run ops (snd (push x s)) = (ins', outs', s'')" by (cases "run ops (snd (push x s))") auto
  have *: "items (snd (push x s)) @ ins' = outs' @ items s'' \<and> inv s'' \<and> room s'' = room s"
    using "2.IH" [of "push x s" "fst (push x s)" "snd (push x s)" ins' outs' s''] push_keeps [OF "2.prems"(1), of x] r by auto
  show ?case
    using "2.prems"(2) r * push_accepts [OF "2.prems"(1), of x] push_refuses [OF "2.prems"(1), of x]
    by (cases "length (items s) < room s") (auto simp: Let_def split_beta)
next
  case (3 ops s)
  obtain ins' outs' s'' where r: "run ops (snd (pop s)) = (ins', outs', s'')" by (cases "run ops (snd (pop s))") auto
  have *: "items (snd (pop s)) @ ins' = outs' @ items s'' \<and> inv s'' \<and> room s'' = room s"
    using "3.IH" [of "pop s" "fst (pop s)" "snd (pop s)" ins' outs' s''] pop_keeps [OF "3.prems"(1)] r by auto
  show ?case
    using "3.prems"(2) r * pop_empty [OF "3.prems"(1)] pop_first [OF "3.prems"(1)]
    by (cases "items s") (auto simp: Let_def split_beta)
qed

end

interpretation array_queue: bounded_queue aq_ok aq_items aq_cap
    "\<lambda>x q. (length (aq_items q) < aq_cap q, aq_push x q)" aq_pop
  by unfold_locales (auto simp: aq_ok_def aq_push_def aq_pop_def split: list.splits)

section \<open>The ring buffer\<close>

record 'a ring =
  buffer :: "'a list"
  producer_head :: u64
  consumer_tail :: u64
  capacity :: nat
  mask_of :: nat

definition is_power_of_two :: "nat \<Rightarrow> bool" where
  "is_power_of_two n \<longleftrightarrow> n \<in> (\<lambda>k. 2 ^ k) ` {0..<64}"

definition ring_new :: "'a \<Rightarrow> nat \<Rightarrow> string + 'a ring" where
  "ring_new dflt cap =
     (if \<not> is_power_of_two cap then Inl ''Capacity must be a power of 2''
      else Inr \<lparr>buffer = replicate cap dflt, producer_head = 0, consumer_tail = 0, capacity = cap, mask_of = cap - 1\<rparr>)"

abbreviation ring_mask :: "'a ring \<Rightarrow> u64" where
  "ring_mask r \<equiv> of_nat (mask_of r)"

definition try_push :: "profile \<Rightarrow> 'a \<Rightarrow> 'a ring \<Rightarrow> (bool \<times> 'a ring) rust" where
  "try_push p item r = do {
     next \<leftarrow> add_w p (producer_head r) 1;
     if and next (ring_mask r) = and (consumer_tail r) (ring_mask r) then Some (False, r)
     else do {
       let index = unat (and (producer_head r) (ring_mask r));
       head' \<leftarrow> add_w p (producer_head r) 1;
       Some (True, r\<lparr>buffer := (buffer r)[index := item], producer_head := head'\<rparr>)
     }
   }"

definition try_pop :: "profile \<Rightarrow> 'a ring \<Rightarrow> ('a option \<times> 'a ring) rust" where
  "try_pop p r =
     (if consumer_tail r = producer_head r then Some (None, r)
      else do {
        let index = unat (and (consumer_tail r) (ring_mask r));
        let item = buffer r ! index;
        tail' \<leftarrow> add_w p (consumer_tail r) 1;
        Some (Some item, r\<lparr>consumer_tail := tail'\<rparr>)
      })"

definition ring_len :: "profile \<Rightarrow> 'a ring \<Rightarrow> nat rust" where
  "ring_len p r = do {
     sum \<leftarrow> add_w p (producer_head r) (of_nat (capacity r));
     diff \<leftarrow> sub_w p sum (consumer_tail r);
     Some (unat (and diff (ring_mask r)))
   }"

definition ring_is_empty :: "'a ring \<Rightarrow> bool" where
  "ring_is_empty r \<longleftrightarrow> producer_head r = consumer_tail r"

text \<open>The counter that is kept on a cache line of its own; \<open>fetch_add\<close> wraps and returns the old value.\<close>

definition counter_increment :: "u64 \<Rightarrow> u64 \<times> u64" where
  "counter_increment v = (v, v + 1)"

section \<open>Counters modulo the capacity\<close>

definition ring_ok :: "'a ring \<Rightarrow> bool" where
  "ring_ok r \<longleftrightarrow> is_power_of_two (capacity r) \<and> length (buffer r) = capacity r \<and> mask_of r = capacity r - 1
     \<and> unat (producer_head r - consumer_tail r) < capacity r"

definition slot_of :: "'a ring \<Rightarrow> u64 \<Rightarrow> nat" where
  "slot_of r c = unat (and c (ring_mask r))"

definition ring_items :: "'a ring \<Rightarrow> 'a list" where
  "ring_items r = map (\<lambda>i. buffer r ! slot_of r (consumer_tail r + of_nat i)) [0..<unat (producer_head r - consumer_tail r)]"

lemma power_of_two_bounds: "is_power_of_two n \<Longrightarrow> 0 < n \<and> n \<le> 2 ^ 63"
  using power_increasing [of _ 63 "2 :: nat"] by (fastforce simp: is_power_of_two_def)

lemma mask_mod:
  assumes "is_power_of_two n"
  shows "unat (and c (of_nat (n - 1) :: u64)) = unat c mod n"
proof -
  obtain k where k: "n = 2 ^ k" "k < 64" using assms by (auto simp: is_power_of_two_def)
  have "of_nat (n - 1) = (mask k :: u64)"
    by (simp add: k mask_eq_exp_minus_1 of_nat_diff)
  then have "and c (of_nat (n - 1)) = take_bit k c" by (simp only: take_bit_eq_mask)
  then have "unat (and c (of_nat (n - 1))) = take_bit k (unat c)" by (simp only: unsigned_take_bit_eq)
  then show ?thesis by (simp only: k(1) take_bit_eq_mod)
qed

lemma mod_of_nat: "is_power_of_two n \<Longrightarrow> unat (of_nat k :: u64) mod n = k mod n"
proof -
  assume "is_power_of_two n"
  then obtain j where "n = 2 ^ j" "j \<le> 64" by (auto simp: is_power_of_two_def)
  then have "n dvd 2 ^ 64" using le_imp_power_dvd [of j 64 "2 :: nat"] by simp
  then show ?thesis by (simp only: unsigned_of_nat take_bit_eq_mod len_bit0 len_num1 mod_mod_cancel) (simp add: mod_mod_cancel)
qed

lemma word_add_of_nat: "(c :: u64) = of_nat (unat c)"
  by simp

lemma slot_mod:
  assumes "ring_ok r"
  shows "slot_of r c = unat c mod capacity r" "slot_of r (c + of_nat i) = (unat c + i) mod capacity r" "slot_of r c < capacity r"
proof -
  have p: "is_power_of_two (capacity r)" and m: "mask_of r = capacity r - 1" using assms by (simp_all add: ring_ok_def)
  show *: "slot_of r c = unat c mod capacity r" for c unfolding slot_of_def m by (rule mask_mod [OF p])
  have "c + of_nat i = of_nat (unat c + i)" by (simp add: word_of_nat_unat)
  then show "slot_of r (c + of_nat i) = (unat c + i) mod capacity r" unfolding * by (simp only: mod_of_nat [OF p])
  show "slot_of r c < capacity r" using * power_of_two_bounds [OF p] by simp
qed

lemma slot_full_iff: "0 < d \<Longrightarrow> d \<le> n \<Longrightarrow> (t + d) mod n = t mod n \<longleftrightarrow> d = (n :: nat)"
  using mod_eq_dvd_iff_nat [of t "t + d" n] by (auto dest: dvd_imp_le)

lemma slot_inj: "i < n \<Longrightarrow> j < n \<Longrightarrow> (t + i) mod n = (t + j) mod n \<longleftrightarrow> i = (j :: nat)"
proof (induction i j rule: linorder_wlog)
  case (le i j)
  show ?case using mod_eq_dvd_iff_nat [of "t + i" "t + j" n] le by (auto dest!: dvd_imp_le)
qed auto

lemma unat_succ_diff:
  fixes h t :: u64
  assumes "unat (h - t) < n" "n \<le> 2 ^ 63"
  shows "unat (h + 1 - t) = unat (h - t) + 1"
proof -
  have e: "h + 1 - t = (h - t) + 1" by simp
  have "unat (h - t) + unat (1 :: u64) < 2 ^ LENGTH(64)" using assms by simp
  then have "unat ((h - t) + 1) = unat (h - t) + unat (1 :: u64)" by (rule unat_add_ok)
  then show ?thesis unfolding e by simp
qed

lemma unat_pred_diff:
  fixes h t :: u64
  assumes "h \<noteq> t"
  shows "unat (h - (t + 1)) = unat (h - t) - 1"
proof -
  have "h - (t + 1) = (h - t) - 1" by simp
  moreover have "1 \<le> h - t" using assms by (simp add: word_le_unat word_neq_0_unat [symmetric] Suc_le_eq)
  ultimately show ?thesis using unat_sub_ok [of 1 "h - t"] by (metis unat_1)
qed

lemma head_as_tail: "unat (h :: u64) mod n = (unat t + unat (h - t)) mod n" if "is_power_of_two n"
proof -
  have "h = of_nat (unat t + unat (h - t))" by (simp add: word_of_nat_unat)
  then have "unat h mod n = unat (of_nat (unat t + unat (h - t)) :: u64) mod n" by simp
  then show ?thesis by (simp only: mod_of_nat [OF that])
qed

section \<open>The buffer is a bounded queue\<close>

lemma length_ring_items [simp]: "length (ring_items r) = unat (producer_head r - consumer_tail r)"
  by (simp add: ring_items_def)

lemma ring_full_iff:
  assumes "ring_ok r"
  shows "and (producer_head r + 1) (ring_mask r) = and (consumer_tail r) (ring_mask r) \<longleftrightarrow> length (ring_items r) = capacity r - 1"
proof -
  have p: "is_power_of_two (capacity r)" and b: "unat (producer_head r - consumer_tail r) < capacity r"
    using assms by (simp_all add: ring_ok_def)
  have "and (producer_head r + 1) (ring_mask r) = and (consumer_tail r) (ring_mask r) \<longleftrightarrow>
      slot_of r (producer_head r + 1) = slot_of r (consumer_tail r)" by (simp add: slot_of_def word_unat_eq_iff)
  also have "\<dots> \<longleftrightarrow> (unat (consumer_tail r) + (unat (producer_head r - consumer_tail r) + 1)) mod capacity r = unat (consumer_tail r) mod capacity r"
    using head_as_tail [OF p, of "producer_head r + 1" "consumer_tail r"] unat_succ_diff [OF b] power_of_two_bounds [OF p]
    by (simp add: slot_mod(1) [OF assms])
  also have "\<dots> \<longleftrightarrow> unat (producer_head r - consumer_tail r) + 1 = capacity r" using b by (intro slot_full_iff) auto
  finally show ?thesis using b by auto
qed

lemma push_items:
  assumes "ring_ok r" "length (ring_items r) < capacity r - 1"
  assumes r'_def: "r' = r\<lparr>buffer := (buffer r)[slot_of r (producer_head r) := x], producer_head := producer_head r + 1\<rparr>"
  shows "ring_ok r'" "ring_items r' = ring_items r @ [x]"
proof -
  have p: "is_power_of_two (capacity r)" and l: "length (buffer r) = capacity r" and b: "unat (producer_head r - consumer_tail r) < capacity r"
    using assms(1) by (simp_all add: ring_ok_def)
  have n: "unat (producer_head r' - consumer_tail r') = unat (producer_head r - consumer_tail r) + 1"
    using unat_succ_diff [OF b] power_of_two_bounds [OF p] by (simp add: r'_def)
  show ok: "ring_ok r'" using assms(1,2) n by (simp add: ring_ok_def r'_def)
  have s: "slot_of r' c = slot_of r c" for c by (simp add: slot_of_def r'_def)
  have h: "slot_of r (producer_head r) = (unat (consumer_tail r) + unat (producer_head r - consumer_tail r)) mod capacity r"
    by (simp add: slot_mod(1) [OF assms(1)]) (rule head_as_tail [OF p])
  show "ring_items r' = ring_items r @ [x]"
  proof (rule nth_equalityI)
    show "length (ring_items r') = length (ring_items r @ [x])" by (simp add: n)
    fix i assume "i < length (ring_items r')"
    then have i: "i \<le> unat (producer_head r - consumer_tail r)" by (simp add: n)
    have "slot_of r (consumer_tail r + of_nat i) = slot_of r (producer_head r) \<longleftrightarrow> i = unat (producer_head r - consumer_tail r)"
      unfolding h slot_mod(2) [OF assms(1)] using i b by (intro slot_inj) auto
    moreover have "slot_of r (producer_head r) < length (buffer r)" using slot_mod(3) [OF assms(1)] l by simp
    ultimately show "ring_items r' ! i = (ring_items r @ [x]) ! i"
      using i n by (auto simp: ring_items_def nth_append s) (auto simp: r'_def nth_list_update)
  qed
qed

lemma pop_items:
  assumes "ring_ok r" "consumer_tail r \<noteq> producer_head r"
  assumes r'_def: "r' = r\<lparr>consumer_tail := consumer_tail r + 1\<rparr>"
  shows "ring_ok r'" "ring_items r = buffer r ! slot_of r (consumer_tail r) # ring_items r'"
proof -
  have n: "unat (producer_head r' - consumer_tail r') = unat (producer_head r - consumer_tail r) - 1"
    using unat_pred_diff [of "producer_head r" "consumer_tail r"] assms(2) by (simp add: r'_def)
  have pos: "0 < unat (producer_head r - consumer_tail r)" using assms(2) by (simp add: word_neq_0_unat [symmetric])
  have "unat (producer_head r' - consumer_tail r') < capacity r" using assms(1) unfolding n by (auto simp: ring_ok_def)
  then show "ring_ok r'" using assms(1) by (simp add: ring_ok_def r'_def)
  have u: "[0..<unat (producer_head r - consumer_tail r)] = 0 # map Suc [0..<unat (producer_head r - consumer_tail r) - 1]"
    using pos by (simp add: map_Suc_upt upt_conv_Cons)
  show "ring_items r = buffer r ! slot_of r (consumer_tail r) # ring_items r'"
    unfolding ring_items_def n u by (simp add: slot_of_def r'_def add.commute add.left_commute)
qed

lemma try_push_wrapping:
  assumes "ring_ok r"
  shows "try_push Wrapping x r =
     Some (if length (ring_items r) < capacity r - 1
           then (True, r\<lparr>buffer := (buffer r)[slot_of r (producer_head r) := x], producer_head := producer_head r + 1\<rparr>)
           else (False, r))"
proof -
  have "length (ring_items r) < capacity r" using assms by (simp add: ring_ok_def)
  then show ?thesis using ring_full_iff [OF assms] by (auto simp: try_push_def add_w_def slot_of_def Let_def)
qed

lemma try_pop_wrapping:
  "try_pop Wrapping r =
     Some (if ring_items r = [] then (None, r)
           else (Some (buffer r ! slot_of r (consumer_tail r)), r\<lparr>consumer_tail := consumer_tail r + 1\<rparr>))"
proof -
  have "ring_items r = [] \<longleftrightarrow> consumer_tail r = producer_head r"
    using length_ring_items [of r] by (metis eq_iff_diff_eq_0 length_0_conv unat_eq_zero)
  then show ?thesis by (auto simp: try_pop_def add_w_def slot_of_def Let_def)
qed

text \<open>The two calls of a wrapping build, which never panic.\<close>

definition ring_push :: "'a \<Rightarrow> 'a ring \<Rightarrow> bool \<times> 'a ring" where
  "ring_push x r = the (try_push Wrapping x r)"

definition ring_pop :: "'a ring \<Rightarrow> 'a option \<times> 'a ring" where
  "ring_pop r = the (try_pop Wrapping r)"

lemma try_push_some: "ring_ok r \<Longrightarrow> try_push Wrapping x r = Some (ring_push x r)"
  by (simp add: ring_push_def try_push_wrapping)

lemma try_pop_some: "try_pop Wrapping r = Some (ring_pop r)"
  by (simp add: ring_pop_def try_pop_wrapping)

interpretation ring: bounded_queue ring_ok ring_items "\<lambda>r. capacity r - 1"
    ring_push ring_pop
proof
  fix r :: "'a ring" and x
  assume ok: "ring_ok r"
  show "ring_ok (snd (ring_push x r)) \<and> capacity (snd (ring_push x r)) - 1 = capacity r - 1"
    using ok push_items(1) [OF ok _ refl] by (simp add: ring_push_def try_push_wrapping)
  show "fst (ring_push x r) \<and> ring_items (snd (ring_push x r)) = ring_items r @ [x]"
    if "length (ring_items r) < capacity r - 1"
    using ok that push_items(2) [OF ok that refl] by (simp add: ring_push_def try_push_wrapping)
  show "\<not> fst (ring_push x r) \<and> ring_items (snd (ring_push x r)) = ring_items r"
    if "capacity r - 1 \<le> length (ring_items r)"
    using ok that by (simp add: ring_push_def try_push_wrapping)
  show "ring_ok (snd (ring_pop r)) \<and> capacity (snd (ring_pop r)) - 1 = capacity r - 1"
    using ok pop_items(1) [OF ok _ refl] by (cases "consumer_tail r = producer_head r") (auto simp: ring_pop_def try_pop_wrapping ring_items_def)
  show "fst (ring_pop r) = Some x \<and> ring_items (snd (ring_pop r)) = xs"
    if "ring_items r = x # xs" for xs
    using ok that pop_items(2) [OF ok _ refl] by (cases "consumer_tail r = producer_head r") (simp add: ring_items_def, simp add: ring_pop_def try_pop_wrapping)
  show "fst (ring_pop r) = None \<and> ring_items (snd (ring_pop r)) = []"
    if "ring_items r = []"
    using that by (simp add: ring_pop_def try_pop_wrapping)
qed

fun ring_run :: "profile \<Rightarrow> 'a queue_op list \<Rightarrow> 'a ring \<Rightarrow> ('a list \<times> 'a list \<times> 'a ring) rust" where
  "ring_run p [] r = Some ([], [], r)"
| "ring_run p (Push x # ops) r = do {
     (ok, r') \<leftarrow> try_push p x r;
     (ins, outs, r'') \<leftarrow> ring_run p ops r';
     Some ((if ok then x # ins else ins), outs, r'')
   }"
| "ring_run p (Pop # ops) r = do {
     (res, r') \<leftarrow> try_pop p r;
     (ins, outs, r'') \<leftarrow> ring_run p ops r';
     Some (ins, (case res of Some x \<Rightarrow> x # outs | None \<Rightarrow> outs), r'')
   }"

lemma ring_run_eq: "ring_ok r \<Longrightarrow> ring_run Wrapping ops r = Some (ring.run ops r)"
proof (induction ops arbitrary: r)
  case Nil then show ?case by simp
next
  case (Cons op ops)
  show ?case
  proof (cases op)
    case (Push x)
    then show ?thesis using Cons.IH ring.push_keeps [OF Cons.prems, of x]
      by (simp add: try_push_some [OF Cons.prems] Let_def split_beta)
  next
    case Pop
    then show ?thesis using Cons.IH ring.pop_keeps [OF Cons.prems]
      by (simp add: try_pop_some Let_def split_beta)
  qed
qed

text \<open>
  The ring buffer is a bounded queue. In a build that wraps no call panics; pushes succeed exactly while fewer than the
  capacity minus one elements are in it, pops return the first element, the length and the emptiness test are right, and
  whatever the calls, what went in and what came out are the same sequence, up to the elements still in the buffer.
\<close>

theorem ring_buffer_is_fifo:
  assumes "ring_new d cap = Inr r"
  shows "\<exists>ins outs r'. ring_run Wrapping ops r = Some (ins, outs, r')
     \<and> ins = outs @ ring_items r' \<and> length (ring_items r') \<le> cap - 1
     \<and> (\<forall>x. \<exists>b r''. try_push Wrapping x r' = Some (b, r'') \<and> b = (length (ring_items r') < cap - 1)
             \<and> ring_items r'' = (if b then ring_items r' @ [x] else ring_items r'))
     \<and> (\<exists>r''. try_pop Wrapping r' = Some (case ring_items r' of [] \<Rightarrow> None | x # xs \<Rightarrow> Some x, r''))
     \<and> ring_is_empty r' = (ring_items r' = []) \<and> ring_len Wrapping r' = Some (length (ring_items r'))"
proof -
  have cap: "is_power_of_two cap" and r: "r = \<lparr>buffer = replicate cap d, producer_head = 0, consumer_tail = 0, capacity = cap, mask_of = cap - 1\<rparr>"
    using assms(1) by (auto simp: ring_new_def split: if_splits)
  have ok: "ring_ok r" and nil: "ring_items r = []" and c: "capacity r = cap"
    using power_of_two_bounds [OF cap] cap by (auto simp: r ring_ok_def ring_items_def)
  obtain ins outs r' where run: "ring.run ops r = (ins, outs, r')" by (cases "ring.run ops r") auto
  have fifo: "ins = outs @ ring_items r'" and ok': "ring_ok r'" using ring.run_fifo [OF ok run] nil by auto
  have c': "capacity r' = cap"
    using ring.run_fifo [OF ok run] c power_of_two_bounds [OF cap] ok' power_of_two_bounds [of "capacity r'"] by (auto simp: ring_ok_def)
  have "\<exists>b r''. try_push Wrapping x r' = Some (b, r'') \<and> b = (length (ring_items r') < cap - 1)
      \<and> ring_items r'' = (if b then ring_items r' @ [x] else ring_items r')" for x
    using push_items(2) [OF ok' _ refl, of x] by (auto simp: try_push_wrapping [OF ok'] c')
  moreover have "\<exists>r''. try_pop Wrapping r' = Some (case ring_items r' of [] \<Rightarrow> None | x # xs \<Rightarrow> Some x, r'')"
    using pop_items(2) [OF ok' _ refl] by (cases "consumer_tail r' = producer_head r'")
      (auto simp: try_pop_wrapping ring_items_def split: list.split)
  moreover have "ring_is_empty r' = (ring_items r' = [])"
    by (auto simp: ring_is_empty_def ring_items_def unat_eq_zero)
  moreover have "ring_len Wrapping r' = Some (length (ring_items r'))"
  proof -
    have m: "mask_of r' = cap - 1" and b: "unat (producer_head r' - consumer_tail r') < cap" using ok' c' by (auto simp: ring_ok_def)
    have "producer_head r' + of_nat cap - consumer_tail r' = of_nat (unat (producer_head r' - consumer_tail r') + cap)"
      by (simp add: word_of_nat_unat)
    then have "unat (and (producer_head r' + of_nat cap - consumer_tail r') (ring_mask r')) = unat (producer_head r' - consumer_tail r')"
      unfolding m mask_mod [OF cap] using b by (simp only: mod_of_nat [OF cap]) simp
    then show ?thesis by (simp add: ring_len_def add_w_def sub_w_def c')
  qed
  moreover have "length (ring_items r') \<le> cap - 1" using ok' c' by (auto simp: ring_ok_def)
  ultimately show ?thesis using ring_run_eq [OF ok, of ops] run fifo by auto
qed

lemma power_of_two_2: "is_power_of_two 2"
  unfolding is_power_of_two_def by (rule image_eqI [of _ _ 1]) auto

theorem ring_buffer_is_fifo_witness:
  "\<exists>r. ring_new (0 :: nat) 2 = Inr r
     \<and> (\<exists>ins outs r'. ring_run Wrapping [Push 5, Push 6, Pop, Push 7, Pop, Pop] r = Some (ins, outs, r') \<and> ins = outs @ ring_items r')"
proof -
  obtain r where r: "ring_new (0 :: nat) 2 = Inr r" by (simp add: ring_new_def power_of_two_2)
  show ?thesis using r ring_buffer_is_fifo [OF r, of "[Push 5, Push 6, Pop, Push 7, Pop, Pop]"] by blast
qed

section \<open>One producer and one consumer\<close>

text \<open>
  The producer and the consumer run at the same time. Each call is split into the steps other threads can see: the loads of
  the two counters, the access to the slot, and the store of the call's own counter. The lists \<open>sent\<close> and \<open>received\<close>
  record the completed calls.
\<close>

datatype 'a producer = PIdle | PLoaded u64 u64 'a | PWritten u64 'a
datatype 'a consumer = CIdle | CLoaded u64 u64 | CRead u64 'a

record 'a spsc =
  sp_ring :: "'a ring"
  sp_producer :: "'a producer"
  sp_consumer :: "'a consumer"
  sent :: "'a list"
  received :: "'a list"

definition spsc_init :: "'a ring \<Rightarrow> 'a spsc" where
  "spsc_init r = \<lparr>sp_ring = r, sp_producer = PIdle, sp_consumer = CIdle, sent = [], received = []\<rparr>"

inductive spsc_step :: "'a spsc \<Rightarrow> 'a spsc \<Rightarrow> bool" where
  PushLoad: "sp_producer s = PIdle \<Longrightarrow>
     spsc_step s (s\<lparr>sp_producer := PLoaded (producer_head (sp_ring s)) (consumer_tail (sp_ring s)) x\<rparr>)"
| PushFull: "sp_producer s = PLoaded h t x \<Longrightarrow> and (h + 1) (ring_mask (sp_ring s)) = and t (ring_mask (sp_ring s)) \<Longrightarrow>
     spsc_step s (s\<lparr>sp_producer := PIdle\<rparr>)"
| PushWrite: "sp_producer s = PLoaded h t x \<Longrightarrow> and (h + 1) (ring_mask (sp_ring s)) \<noteq> and t (ring_mask (sp_ring s)) \<Longrightarrow>
     spsc_step s (s\<lparr>sp_producer := PWritten h x,
       sp_ring := (sp_ring s)\<lparr>buffer := (buffer (sp_ring s))[slot_of (sp_ring s) h := x]\<rparr>\<rparr>)"
| PushStore: "sp_producer s = PWritten h x \<Longrightarrow>
     spsc_step s (s\<lparr>sp_producer := PIdle, sp_ring := (sp_ring s)\<lparr>producer_head := h + 1\<rparr>, sent := sent s @ [x]\<rparr>)"
| PopLoad: "sp_consumer s = CIdle \<Longrightarrow>
     spsc_step s (s\<lparr>sp_consumer := CLoaded (consumer_tail (sp_ring s)) (producer_head (sp_ring s))\<rparr>)"
| PopEmpty: "sp_consumer s = CLoaded t h \<Longrightarrow> t = h \<Longrightarrow> spsc_step s (s\<lparr>sp_consumer := CIdle\<rparr>)"
| PopRead: "sp_consumer s = CLoaded t h \<Longrightarrow> t \<noteq> h \<Longrightarrow>
     spsc_step s (s\<lparr>sp_consumer := CRead t (buffer (sp_ring s) ! slot_of (sp_ring s) t)\<rparr>)"
| PopStore: "sp_consumer s = CRead t x \<Longrightarrow>
     spsc_step s (s\<lparr>sp_consumer := CIdle, sp_ring := (sp_ring s)\<lparr>consumer_tail := t + 1\<rparr>, received := received s @ [x]\<rparr>)"

section \<open>The interleavings keep the order\<close>

fun producer_ok :: "'a producer \<Rightarrow> nat \<Rightarrow> 'a spsc \<Rightarrow> bool" where
  "producer_ok PIdle cap s = True"
| "producer_ok (PLoaded h t x) cap s =
     (h = of_nat (length (sent s)) \<and> (\<exists>n. t = of_nat n \<and> n \<le> length (received s) \<and> length (sent s) < n + cap))"
| "producer_ok (PWritten h x) cap s =
     (h = of_nat (length (sent s)) \<and> length (sent s) + 1 < length (received s) + cap
      \<and> buffer (sp_ring s) ! (length (sent s) mod cap) = x)"

fun consumer_ok :: "'a consumer \<Rightarrow> 'a spsc \<Rightarrow> bool" where
  "consumer_ok CIdle s = True"
| "consumer_ok (CLoaded t h) s =
     (t = of_nat (length (received s)) \<and> (\<exists>n. h = of_nat n \<and> length (received s) \<le> n \<and> n \<le> length (sent s)))"
| "consumer_ok (CRead t x) s =
     (t = of_nat (length (received s)) \<and> length (received s) < length (sent s) \<and> x = sent s ! length (received s))"

definition spsc_ok :: "nat \<Rightarrow> 'a spsc \<Rightarrow> bool" where
  "spsc_ok cap s \<longleftrightarrow> is_power_of_two cap \<and> length (buffer (sp_ring s)) = cap \<and> mask_of (sp_ring s) = cap - 1
     \<and> producer_head (sp_ring s) = of_nat (length (sent s)) \<and> consumer_tail (sp_ring s) = of_nat (length (received s))
     \<and> length (received s) \<le> length (sent s) \<and> length (sent s) < length (received s) + cap
     \<and> received s = take (length (received s)) (sent s)
     \<and> (\<forall>i. length (received s) \<le> i \<and> i < length (sent s) \<longrightarrow> buffer (sp_ring s) ! (i mod cap) = sent s ! i)
     \<and> producer_ok (sp_producer s) cap s \<and> consumer_ok (sp_consumer s) s"

lemma slot_count:
  assumes "spsc_ok cap s"
  shows "slot_of (sp_ring s) (of_nat n) = n mod cap"
proof -
  have p: "is_power_of_two cap" and m: "mask_of (sp_ring s) = cap - 1" using assms by (simp_all add: spsc_ok_def)
  show ?thesis unfolding slot_of_def m mask_mod [OF p] by (rule mod_of_nat [OF p])
qed

lemma full_count:
  assumes "spsc_ok cap s" "t \<le> h" "h < t + cap"
  shows "and (of_nat h + 1) (ring_mask (sp_ring s)) = and (of_nat t) (ring_mask (sp_ring s)) \<longleftrightarrow> h + 1 = t + cap"
proof -
  have "and (of_nat h + 1) (ring_mask (sp_ring s)) = and (of_nat t) (ring_mask (sp_ring s)) \<longleftrightarrow>
      slot_of (sp_ring s) (of_nat (h + 1)) = slot_of (sp_ring s) (of_nat t)"
    by (simp add: slot_of_def word_unat_eq_iff add.commute)
  also have "\<dots> \<longleftrightarrow> (t + (h + 1 - t)) mod cap = t mod cap" using assms(2) by (simp add: slot_count [OF assms(1)] del: of_nat_add of_nat_Suc)
  also have "\<dots> \<longleftrightarrow> h + 1 - t = cap" using assms(2,3) by (intro slot_full_iff) auto
  finally show ?thesis using assms(2,3) by auto
qed

lemma of_nat_counts:
  assumes "is_power_of_two cap" "t \<le> h" "h < t + cap"
  shows "(of_nat t :: u64) = of_nat h \<longleftrightarrow> t = h"
proof
  assume e: "(of_nat t :: u64) = of_nat h"
  have "(of_nat (h - t) :: u64) = 0" using e assms(2) by (simp add: of_nat_diff)
  moreover have "h - t < 2 ^ 64" using assms power_of_two_bounds [OF assms(1)] by auto
  ultimately have "h - t = 0" using unat_of_nat_small [of "h - t", where 'a = 64] by simp
  then show "t = h" using assms(2) by simp
qed simp

lemma spsc_step_ok: "spsc_step s s' \<Longrightarrow> spsc_ok cap s \<Longrightarrow> spsc_ok cap s'"
proof (induction rule: spsc_step.induct)
  case (PushLoad s x)
  then show ?case by (cases "sp_consumer s") (auto simp: spsc_ok_def)
next
  case (PushFull s h t x) then show ?case by (cases "sp_consumer s") (auto simp: spsc_ok_def)
next
  case (PushWrite s h t x)
  obtain n where n: "h = of_nat (length (sent s))" "t = of_nat n" "n \<le> length (received s)" "length (sent s) < n + cap"
    using PushWrite.prems PushWrite.hyps(1) by (auto simp: spsc_ok_def)
  have "length (sent s) + 1 \<noteq> n + cap"
    using full_count [OF PushWrite.prems, of n "length (sent s)"] PushWrite.hyps(2) n PushWrite.prems by (auto simp: spsc_ok_def)
  then have room: "length (sent s) + 1 < length (received s) + cap" using n by linarith
  have slot: "slot_of (sp_ring s) h = length (sent s) mod cap" using slot_count [OF PushWrite.prems] n by simp
  have other: "length (sent s) mod cap \<noteq> i mod cap" if "length (received s) \<le> i" "i < length (sent s)" for i
  proof -
    have "0 < length (sent s) - i" "length (sent s) - i < cap" using that room by linarith+
    then show ?thesis using slot_full_iff [of "length (sent s) - i" cap i] that by auto
  qed
  have "0 < cap" using PushWrite.prems power_of_two_bounds by (auto simp: spsc_ok_def)
  then show ?case
    using PushWrite.prems slot other room n(1) by (cases "sp_consumer s") (auto simp: spsc_ok_def nth_list_update)
next
  case (PushStore s h x)
  then show ?case
    by (cases "sp_consumer s") (auto simp: spsc_ok_def nth_append less_Suc_eq add.commute)
next
  case (PopLoad s)
  then show ?case by (cases "sp_producer s") (auto simp: spsc_ok_def)
next
  case (PopEmpty s t h) then show ?case by (cases "sp_producer s") (auto simp: spsc_ok_def)
next
  case (PopRead s t h)
  obtain n where n: "t = of_nat (length (received s))" "h = of_nat n" "length (received s) \<le> n" "n \<le> length (sent s)"
    using PopRead.prems PopRead.hyps(1) by (auto simp: spsc_ok_def)
  have "length (received s) \<noteq> n" using n PopRead.hyps(2) by auto
  then have "length (received s) < length (sent s)" using n by linarith
  then show ?case
    using PopRead.prems slot_count [OF PopRead.prems] n(1) by (cases "sp_producer s") (auto simp: spsc_ok_def)
next
  case (PopStore s t x)
  then show ?case
    by (cases "sp_producer s") (auto simp: spsc_ok_def take_Suc_conv_app_nth add.commute)
qed

text \<open>
  C29: Under every interleaving of one producer and one consumer, what has been received is a prefix of what has been sent, and
  never more than the capacity minus one elements are under way: no element is lost, repeated, reordered or overwritten
  before it is read.
\<close>

theorem spsc_order:
  assumes "ring_new d cap = Inr r" "spsc_step\<^sup>*\<^sup>* (spsc_init r) s"
  shows "received s = take (length (received s)) (sent s)
     \<and> length (received s) \<le> length (sent s) \<and> length (sent s) \<le> length (received s) + (cap - 1)"
proof -
  have "spsc_ok cap (spsc_init r)"
    using assms(1) power_of_two_bounds [of cap] by (auto simp: ring_new_def spsc_ok_def spsc_init_def split: if_splits)
  then have "spsc_ok cap s" using assms(2) by (induction rule: rtranclp_induct [consumes 1, OF assms(2)]) (auto intro: spsc_step_ok)
  then show ?thesis by (auto simp: spsc_ok_def)
qed

theorem spsc_order_witness:
  "\<exists>r s. ring_new (0 :: nat) 2 = Inr r \<and> spsc_step\<^sup>*\<^sup>* (spsc_init r) s
     \<and> received s = take (length (received s)) (sent s) \<and> sent s = [7]"
proof -
  obtain r where r: "ring_new (0 :: nat) 2 = Inr r" by (simp add: ring_new_def power_of_two_2)
  let ?s0 = "spsc_init r"
  let ?s1 = "?s0\<lparr>sp_producer := PLoaded (producer_head (sp_ring ?s0)) (consumer_tail (sp_ring ?s0)) 7\<rparr>"
  let ?s2 = "?s1\<lparr>sp_producer := PWritten 0 7, sp_ring := (sp_ring ?s1)\<lparr>buffer := (buffer (sp_ring ?s1))[slot_of (sp_ring ?s1) 0 := 7]\<rparr>\<rparr>"
  let ?s3 = "?s2\<lparr>sp_producer := PIdle, sp_ring := (sp_ring ?s2)\<lparr>producer_head := 0 + 1\<rparr>, sent := sent ?s2 @ [7]\<rparr>"
  have "spsc_step ?s0 ?s1" by (rule PushLoad) (simp add: spsc_init_def)
  moreover have "spsc_step ?s1 ?s2"
    using r by (intro PushWrite [where t = 0]) (auto simp: spsc_init_def ring_new_def power_of_two_2)
  moreover have "spsc_step ?s2 ?s3" by (rule PushStore) simp
  ultimately have "spsc_step\<^sup>*\<^sup>* ?s0 ?s3" by (meson r_into_rtranclp rtranclp_trans)
  then show ?thesis using r spsc_order [OF r] by (intro exI [of _ r] exI [of _ ?s3]) (auto simp: spsc_init_def)
qed

end
