(* ===== verification/SimdMem.thy ===== *)
theory SimdMem
  imports Prelude
begin

text \<open>
  The memory routines of \<open>perf/hardware_optimizations.rs\<close> (\<open>SIMDMemoryOps\<close>: copies, comparisons and clearing that pick an
  instruction width by length) and of \<open>perf/simd.rs\<close> (\<open>SIMDMemory\<close>: whole 32-byte vectors and then single bytes), with
  the wrappers of \<open>trading/core/execution.rs\<close>. Memory is a function from addresses to bytes; a vector load or store moves
  as many bytes as its register is wide, whether or not the caller asked for that many. The code differs by target: the
  wide instructions are compiled for x86-64 only, the widest with AVX-512 only.
\<close>

section \<open>Memory\<close>

type_synonym memory = "nat \<Rightarrow> u8"

definition mem_read :: "memory \<Rightarrow> nat \<Rightarrow> nat \<Rightarrow> u8 list" where
  "mem_read m a n = map (\<lambda>i. m (a + i)) [0..<n]"

definition mem_write :: "memory \<Rightarrow> nat \<Rightarrow> u8 list \<Rightarrow> memory" where
  "mem_write m a bs = (\<lambda>x. if a \<le> x \<and> x < a + length bs then bs ! (x - a) else m x)"

text \<open>A load of \<open>n\<close> bytes into a register and a store of them: also what \<open>copy_nonoverlapping\<close> does.\<close>

definition copy_bytes :: "memory \<Rightarrow> nat \<Rightarrow> nat \<Rightarrow> nat \<Rightarrow> memory" where
  "copy_bytes m dst src n = mem_write m dst (mem_read m src n)"

datatype target = X86_64 (avx512f: bool) | OtherArch

definition is_x86 :: "target \<Rightarrow> bool" where
  "is_x86 t \<longleftrightarrow> t \<noteq> OtherArch"

lemma is_x86_simps [simp]: "is_x86 (X86_64 b)" "\<not> is_x86 OtherArch"
  by (simp_all add: is_x86_def)

section \<open>Copies by size class\<close>

definition memcpy_small :: "memory \<Rightarrow> nat \<Rightarrow> nat \<Rightarrow> nat \<Rightarrow> memory rust" where
  "memcpy_small m dst src len =
     (if len = 1 then Some (copy_bytes m dst src 1)
      else if len = 2 then Some (copy_bytes m dst src 2)
      else if len = 3 then Some (copy_bytes (copy_bytes m dst src 2) (dst + 2) (src + 2) 1)
      else if len = 4 then Some (copy_bytes m dst src 4)
      else if 5 \<le> len \<and> len \<le> 8 then
        (let m' = copy_bytes m dst src 8
         in Some (if 8 < len then copy_bytes m' (dst + 8) (src + 8) (len - 8) else m'))
      else None)"

definition memcpy_sse :: "target \<Rightarrow> memory \<Rightarrow> nat \<Rightarrow> nat \<Rightarrow> nat \<Rightarrow> memory" where
  "memcpy_sse t m dst src len =
     (if is_x86 t then (if len \<le> 16 then copy_bytes m dst src 16 else m) else copy_bytes m dst src len)"

definition memcpy_avx :: "target \<Rightarrow> memory \<Rightarrow> nat \<Rightarrow> nat \<Rightarrow> nat \<Rightarrow> memory" where
  "memcpy_avx t m dst src len =
     (if is_x86 t then (if len \<le> 32 then copy_bytes m dst src 32 else m) else copy_bytes m dst src len)"

definition memcpy_avx2 :: "target \<Rightarrow> memory \<Rightarrow> nat \<Rightarrow> nat \<Rightarrow> nat \<Rightarrow> memory" where
  "memcpy_avx2 t m dst src len =
     (if is_x86 t then
        (let m' = copy_bytes m dst src 32
         in if 32 < len \<and> len - 32 \<le> 32 then copy_bytes m' (dst + 32) (src + 32) 32 else m')
      else copy_bytes m dst src len)"

text \<open>\<open>n\<close> rounds of a loop over chunks; \<open>step\<close> copies the chunk at an offset.\<close>

fun chunk_loop :: "(memory \<Rightarrow> nat \<Rightarrow> memory) \<Rightarrow> nat \<Rightarrow> nat \<Rightarrow> nat \<Rightarrow> memory \<Rightarrow> memory" where
  "chunk_loop step w 0 offset m = m"
| "chunk_loop step w (Suc n) offset m = chunk_loop step w n (offset + w) (step m offset)"

definition memcpy_avx512_or_fallback :: "target \<Rightarrow> memory \<Rightarrow> nat \<Rightarrow> nat \<Rightarrow> nat \<Rightarrow> memory" where
  "memcpy_avx512_or_fallback t m dst src len =
     (if t = X86_64 True then
        (let m' = chunk_loop (\<lambda>m o'. copy_bytes m (dst + o') (src + o') 64) 64 (len div 64) 0 m;
             offset = 64 * (len div 64); remaining = len mod 64
         in if 0 < remaining then memcpy_avx2 t m' (dst + offset) (src + offset) remaining else m')
      else
        (let m' = chunk_loop (\<lambda>m o'. memcpy_avx2 t m (dst + o') (src + o') 32) 32 (len div 32) 0 m;
             offset = 32 * (len div 32); remaining = len mod 32
         in if 0 < remaining then memcpy_avx t m' (dst + offset) (src + offset) remaining else m'))"

definition memcpy_simd_optimized :: "target \<Rightarrow> memory \<Rightarrow> nat \<Rightarrow> nat \<Rightarrow> nat \<Rightarrow> memory rust" where
  "memcpy_simd_optimized t m dst src len =
     (if len = 0 then Some m
      else if len \<le> 8 then memcpy_small m dst src len
      else if len \<le> 16 then Some (memcpy_sse t m dst src len)
      else if len \<le> 32 then Some (memcpy_avx t m dst src len)
      else if len \<le> 64 then Some (memcpy_avx2 t m dst src len)
      else Some (memcpy_avx512_or_fallback t m dst src len))"

section \<open>Comparisons and clearing\<close>

text \<open>\<open>cmpeq\<close> and \<open>movemask\<close>: bit \<open>i\<close> says whether byte \<open>i\<close> of the two registers is the same.\<close>

fun movemask :: "bool list \<Rightarrow> u32" where
  "movemask [] = 0"
| "movemask (b # bs) = or (if b then 1 else 0) (push_bit 1 (movemask bs))"

definition cmp_mask :: "memory \<Rightarrow> nat \<Rightarrow> nat \<Rightarrow> nat \<Rightarrow> u32" where
  "cmp_mask m a b w = movemask (map2 (=) (mem_read m a w) (mem_read m b w))"

definition memcmp_small :: "memory \<Rightarrow> nat \<Rightarrow> nat \<Rightarrow> nat \<Rightarrow> bool rust" where
  "memcmp_small m a b len =
     (if len = 1 then Some (m a = m b)
      else if len = 2 then Some (mem_read m a 2 = mem_read m b 2)
      else if len = 3 then Some (mem_read m a 2 = mem_read m b 2 \<and> m (a + 2) = m (b + 2))
      else if len = 4 then Some (mem_read m a 4 = mem_read m b 4)
      else if 5 \<le> len \<and> len \<le> 8 then Some (mem_read m a 8 = mem_read m b 8)
      else None)"

definition bytewise_equal :: "memory \<Rightarrow> nat \<Rightarrow> nat \<Rightarrow> nat \<Rightarrow> bool" where
  "bytewise_equal m a b len = list_all (\<lambda>i. m (a + i) = m (b + i)) [0..<len]"

definition memcmp_sse :: "target \<Rightarrow> memory \<Rightarrow> nat \<Rightarrow> nat \<Rightarrow> nat \<Rightarrow> bool" where
  "memcmp_sse t m a b len =
     (if is_x86 t then
        (let valid = (if 16 \<le> len then 0xFFFF else push_bit len 1 - 1) in and (cmp_mask m a b 16) valid = valid)
      else bytewise_equal m a b len)"

definition memcmp_avx2 :: "target \<Rightarrow> memory \<Rightarrow> nat \<Rightarrow> nat \<Rightarrow> nat \<Rightarrow> bool" where
  "memcmp_avx2 t m a b len =
     (if is_x86 t then
        (let valid = (if 32 \<le> len then 0xFFFFFFFF else push_bit len 1 - 1) in and (cmp_mask m a b 32) valid = valid)
      else bytewise_equal m a b len)"

definition memcmp_large :: "target \<Rightarrow> memory \<Rightarrow> nat \<Rightarrow> nat \<Rightarrow> nat \<Rightarrow> bool" where
  "memcmp_large t m a b len =
     (let chunks = len div 32; remaining = len mod 32
      in if \<not> list_all (\<lambda>i. memcmp_avx2 t m (a + i * 32) (b + i * 32) 32) [0..<chunks] then False
         else if 0 < remaining then memcmp_avx2 t m (a + chunks * 32) (b + chunks * 32) remaining
         else True)"

definition memcmp_simd_optimized :: "target \<Rightarrow> memory \<Rightarrow> nat \<Rightarrow> nat \<Rightarrow> nat \<Rightarrow> bool rust" where
  "memcmp_simd_optimized t m a b len =
     (if len = 0 then Some True
      else if len \<le> 8 then memcmp_small m a b len
      else if len \<le> 16 then Some (memcmp_sse t m a b len)
      else if len \<le> 32 then Some (memcmp_avx2 t m a b len)
      else Some (memcmp_large t m a b len))"

fun zero_bytes_from :: "memory \<Rightarrow> nat \<Rightarrow> nat \<Rightarrow> nat \<Rightarrow> memory" where
  "zero_bytes_from m p i 0 = m"
| "zero_bytes_from m p i (Suc n) = zero_bytes_from (m(p + i := 0)) p (Suc i) n"

definition memzero_simd_optimized :: "target \<Rightarrow> memory \<Rightarrow> nat \<Rightarrow> nat \<Rightarrow> memory" where
  "memzero_simd_optimized t m p len =
     (if is_x86 t then
        (let m' = chunk_loop (\<lambda>m o'. mem_write m (p + o') (replicate 32 0)) 32 (len div 32) 0 m
         in zero_bytes_from m' (p + 32 * (len div 32)) 0 (len mod 32))
      else mem_write m p (replicate len 0))"

section \<open>Vectors and then bytes\<close>

text \<open>The loops of \<open>SIMDMemory\<close>: whole vectors while they fit, then single bytes.\<close>

function copy_avx2_loop :: "memory \<Rightarrow> nat \<Rightarrow> nat \<Rightarrow> nat \<Rightarrow> nat \<Rightarrow> memory" where
  "copy_avx2_loop m dst src len offset =
     (if offset + 32 \<le> len then copy_avx2_loop (copy_bytes m (dst + offset) (src + offset) 32) dst src len (offset + 32)
      else if offset < len then copy_avx2_loop (m(dst + offset := m (src + offset))) dst src len (offset + 1)
      else m)"
  by pat_completeness auto
termination by (relation "measure (\<lambda>(m, dst, src, len, offset). len - offset)") auto

definition copy_avx2 :: "target \<Rightarrow> memory \<Rightarrow> nat \<Rightarrow> nat \<Rightarrow> nat \<Rightarrow> memory" where
  "copy_avx2 t m dst src len = (if is_x86 t then copy_avx2_loop m dst src len 0 else copy_bytes m dst src len)"

function compare_avx2_loop :: "memory \<Rightarrow> nat \<Rightarrow> nat \<Rightarrow> nat \<Rightarrow> nat \<Rightarrow> bool" where
  "compare_avx2_loop m a b len offset =
     (if offset + 32 \<le> len then
        (if cmp_mask m (a + offset) (b + offset) 32 \<noteq> - 1 then False else compare_avx2_loop m a b len (offset + 32))
      else if offset < len then
        (if m (a + offset) \<noteq> m (b + offset) then False else compare_avx2_loop m a b len (offset + 1))
      else True)"
  by pat_completeness auto
termination by (relation "measure (\<lambda>(m, a, b, len, offset). len - offset)") auto

definition compare_avx2 :: "target \<Rightarrow> memory \<Rightarrow> nat \<Rightarrow> nat \<Rightarrow> nat \<Rightarrow> bool" where
  "compare_avx2 t m a b len = (if is_x86 t then compare_avx2_loop m a b len 0 else mem_read m a len = mem_read m b len)"

function zero_avx2_loop :: "memory \<Rightarrow> nat \<Rightarrow> nat \<Rightarrow> nat \<Rightarrow> memory" where
  "zero_avx2_loop m p len offset =
     (if offset + 32 \<le> len then zero_avx2_loop (mem_write m (p + offset) (replicate 32 0)) p len (offset + 32)
      else if offset < len then zero_avx2_loop (m(p + offset := 0)) p len (offset + 1)
      else m)"
  by pat_completeness auto
termination by (relation "measure (\<lambda>(m, p, len, offset). len - offset)") auto

definition zero_avx2 :: "target \<Rightarrow> memory \<Rightarrow> nat \<Rightarrow> nat \<Rightarrow> memory" where
  "zero_avx2 t m p len = (if is_x86 t then zero_avx2_loop m p len 0 else mem_write m p (replicate len 0))"

declare copy_avx2_loop.simps [simp del] compare_avx2_loop.simps [simp del] zero_avx2_loop.simps [simp del]

section \<open>Reads and writes\<close>

lemma length_mem_read [simp]: "length (mem_read m a n) = n"
  by (simp add: mem_read_def)

lemma nth_mem_read [simp]: "i < n \<Longrightarrow> mem_read m a n ! i = m (a + i)"
  by (simp add: mem_read_def)

lemma mem_read_eq_iff: "mem_read m a n = bs \<longleftrightarrow> length bs = n \<and> (\<forall>i < n. m (a + i) = bs ! i)"
  by (auto simp: list_eq_iff_nth_eq)

lemma mem_read_eq: "mem_read m a n = mem_read m' b n \<longleftrightarrow> (\<forall>i < n. m (a + i) = m' (b + i))"
  by (simp add: mem_read_eq_iff)

lemma mem_read_append: "mem_read m a (n + k) = mem_read m a n @ mem_read m (a + n) k"
  by (rule nth_equalityI) (auto simp: nth_append)

lemma mem_write_append: "mem_write m a (bs @ cs) = mem_write (mem_write m a bs) (a + length bs) cs"
  by (rule ext) (auto simp: mem_write_def nth_append)

lemma mem_write_Nil [simp]: "mem_write m a [] = m"
  by (rule ext) (auto simp: mem_write_def)

lemma mem_write_outside: "x < a \<or> a + length bs \<le> x \<Longrightarrow> mem_write m a bs x = m x"
  by (auto simp: mem_write_def)

lemma mem_write_inside: "i < length bs \<Longrightarrow> mem_write m a bs (a + i) = bs ! i"
  by (simp add: mem_write_def)

lemma read_written: "length bs = n \<Longrightarrow> mem_read (mem_write m a bs) a n = bs"
  by (simp add: mem_read_eq_iff mem_write_inside)

lemma read_other: "b + n \<le> a \<or> a + length bs \<le> b \<Longrightarrow> mem_read (mem_write m a bs) b n = mem_read m b n"
  by (auto simp: mem_read_eq mem_write_def)

lemma mem_write_single: "mem_write m a [v] = m(a := v)"
  by (rule ext) (auto simp: mem_write_def)

text \<open>Two copies of adjacent stretches are one copy, when source and destination do not meet.\<close>

definition apart :: "nat \<Rightarrow> nat \<Rightarrow> nat \<Rightarrow> bool" where
  "apart dst src n \<longleftrightarrow> dst + n \<le> src \<or> src + n \<le> dst"

lemma apart_mono: "apart dst src n \<Longrightarrow> k \<le> n \<Longrightarrow> apart dst src k"
  by (auto simp: apart_def)

lemma copy_bytes_0 [simp]: "copy_bytes m dst src 0 = m"
  by (simp add: copy_bytes_def mem_read_def)

lemma copy_bytes_join:
  assumes "apart dst src (a + b)"
  shows "copy_bytes (copy_bytes m dst src a) (dst + a) (src + a) b = copy_bytes m dst src (a + b)"
proof -
  have "mem_read (mem_write m dst (mem_read m src a)) (src + a) b = mem_read m (src + a) b"
    using assms by (intro read_other) (auto simp: apart_def)
  then show ?thesis by (simp add: copy_bytes_def mem_read_append mem_write_append)
qed

lemma copy_bytes_read: "mem_read (copy_bytes m dst src n) dst n = mem_read m src n"
  by (simp add: copy_bytes_def read_written)

lemma copy_bytes_byte: "copy_bytes m dst src (Suc 0) = m(dst := m src)"
  by (simp add: copy_bytes_def mem_read_def mem_write_single)

lemma chunk_loop_copy:
  assumes "apart dst src (offset + w * n)" "\<And>m o'. step m o' = copy_bytes m (dst + o') (src + o') w"
  shows "chunk_loop step w n offset (copy_bytes m dst src offset) = copy_bytes m dst src (offset + w * n)"
  using assms(1)
proof (induction n arbitrary: offset)
  case 0 then show ?case by simp
next
  case (Suc n)
  have "copy_bytes (copy_bytes m dst src offset) (dst + offset) (src + offset) w = copy_bytes m dst src (offset + w)"
    by (rule copy_bytes_join) (rule apart_mono [OF Suc.prems], simp)
  then show ?case using Suc.IH [of "offset + w"] Suc.prems by (simp add: assms(2) algebra_simps)
qed

lemmas chunk_loop_copy_0 = chunk_loop_copy [where offset = 0, simplified]

section \<open>What a copy touches\<close>

text \<open>How many bytes a copy of \<open>len\<close> bytes moves: the width of the registers it goes through.\<close>

definition copied :: "target \<Rightarrow> nat \<Rightarrow> nat" where
  "copied t len =
     (if len \<le> 4 then len
      else if len \<le> 8 then 8
      else if t = OtherArch then len
      else if len \<le> 16 then 16
      else if len \<le> 32 then 32
      else if len \<le> 64 then 64
      else if t = X86_64 True then
        64 * (len div 64) + (if len mod 64 = 0 then 0 else if len mod 64 \<le> 32 then 32 else 64)
      else 32 * (len div 32) + (if len mod 32 = 0 then 0 else 32))"

lemma copied_bounds: "len \<le> copied t len \<and> copied t len \<le> len + 31"
proof -
  obtain q r where q: "len = 64 * q + r" "r < 64" "len div 64 = q" "len mod 64 = r"
    by (metis mod_less_divisor mult_div_mod_eq zero_less_numeral)
  obtain q' r' where q': "len = 32 * q' + r'" "r' < 32" "len div 32 = q'" "len mod 32 = r'"
    by (metis mod_less_divisor mult_div_mod_eq zero_less_numeral)
  show ?thesis
    unfolding copied_def q(3,4) q'(3,4) using q(1,2) q'(1,2) by (simp split: if_split)
qed

lemmas copied_ge = copied_bounds [THEN conjunct1]

lemma memcpy_avx2_copy:
  "apart dst src (if len \<le> 32 then 32 else 64) \<Longrightarrow> len \<le> 64 \<Longrightarrow> is_x86 t \<Longrightarrow>
     memcpy_avx2 t m dst src len = copy_bytes m dst src (if len \<le> 32 then 32 else 64)"
  using copy_bytes_join [of dst src 32 32 m] by (auto simp: memcpy_avx2_def Let_def split: if_splits)

lemma memcpy_avx2_other: "\<not> is_x86 t \<Longrightarrow> memcpy_avx2 t m dst src len = copy_bytes m dst src len"
  by (simp add: memcpy_avx2_def)

lemma memcpy_wide_512:
  assumes "apart dst src (copied (X86_64 True) len)" "64 < len"
  shows "memcpy_avx512_or_fallback (X86_64 True) m dst src len = copy_bytes m dst src (copied (X86_64 True) len)"
proof -
  define w where "w = (if len mod 64 \<le> 32 then 32 else 64 :: nat)"
  have c: "copied (X86_64 True) len = 64 * (len div 64) + (if len mod 64 = 0 then 0 else w)"
    using assms(2) by (simp add: copied_def w_def)
  have "apart dst src (64 * (len div 64))" using assms(1) by (rule apart_mono) (simp add: c)
  then have loop: "chunk_loop (\<lambda>m o'. copy_bytes m (dst + o') (src + o') 64) 64 (len div 64) 0 m = copy_bytes m dst src (64 * (len div 64))"
    by (rule chunk_loop_copy_0) simp
  have "memcpy_avx2 (X86_64 True) m' (dst + 64 * (len div 64)) (src + 64 * (len div 64)) (len mod 64) =
      copy_bytes m' (dst + 64 * (len div 64)) (src + 64 * (len div 64)) w" if "0 < len mod 64" for m'
    using assms(1) that c by (subst memcpy_avx2_copy) (auto simp: w_def apart_def)
  then show ?thesis
    using assms(1) copy_bytes_join [of dst src "64 * (len div 64)" w m]
    by (auto simp: memcpy_avx512_or_fallback_def loop Let_def c split: if_splits)
qed

lemma memcpy_wide_fallback:
  assumes "apart dst src (copied t len)" "64 < len" "t \<noteq> X86_64 True"
  shows "memcpy_avx512_or_fallback t m dst src len = copy_bytes m dst src (copied t len)"
proof -
  define w where "w = (if t = OtherArch then len mod 32 else 32)"
  have c: "copied t len = 32 * (len div 32) + (if len mod 32 = 0 then 0 else w)"
    using assms(2,3) mult_div_mod_eq [of 32 len] by (auto simp: copied_def w_def)
  have a: "apart dst src (32 * (len div 32))" using assms(1) by (rule apart_mono) (simp add: c)
  have step: "memcpy_avx2 t m' (dst + o') (src + o') 32 = copy_bytes m' (dst + o') (src + o') 32" for m' o'
    using assms(1,2) copied_ge [of len t]
    by (cases "is_x86 t") (auto simp: memcpy_avx2_other memcpy_avx2_copy apart_def)
  have loop: "chunk_loop (\<lambda>m o'. memcpy_avx2 t m (dst + o') (src + o') 32) 32 (len div 32) 0 m = copy_bytes m dst src (32 * (len div 32))"
    using a step by (rule chunk_loop_copy_0)
  have "memcpy_avx t m' d s (len mod 32) = copy_bytes m' d s w" for m' d s
    by (cases t) (auto simp: memcpy_avx_def w_def less_imp_le)
  then show ?thesis
    using assms(1,3) copy_bytes_join [of dst src "32 * (len div 32)" w m]
    by (auto simp: memcpy_avx512_or_fallback_def loop Let_def c split: if_splits)
qed

text \<open>A copy is one move of \<open>copied t len\<close> bytes.\<close>

lemma memcpy_moves:
  assumes "apart dst src (copied t len)"
  shows "memcpy_simd_optimized t m dst src len = Some (copy_bytes m dst src (copied t len))"
proof -
  consider "len \<le> 8" | "8 < len" "len \<le> 32" | "32 < len" "len \<le> 64" | "64 < len" by linarith
  then show ?thesis
  proof cases
    case 1
    then consider "len = 0" | "len = 1" | "len = 2" | "len = 3" | "len = 4" | "5 \<le> len" by linarith
    then show ?thesis
      using 1 assms copy_bytes_join [of dst src 2 1 m]
      by cases (simp_all add: memcpy_simd_optimized_def memcpy_small_def copied_def)
  next
    case 2 then show ?thesis
      by (cases t) (simp_all add: memcpy_simd_optimized_def memcpy_sse_def memcpy_avx_def copied_def)
  next
    case 3 then show ?thesis
      using assms by (cases t) (simp_all add: memcpy_simd_optimized_def memcpy_avx2_copy memcpy_avx2_other copied_def)
  next
    case 4 then show ?thesis
      using memcpy_wide_512 [of dst src len m] memcpy_wide_fallback [of dst src t len m] assms
      by (cases "t = X86_64 True") (simp_all add: memcpy_simd_optimized_def)
  qed
qed

text \<open>
  A copy between stretches that do not meet always returns, and the destination then holds the source; nothing below the
  destination changes, and nothing from \<open>copied t len\<close> bytes on, which is at most 31 bytes beyond the length asked for. The
  bytes in between are overwritten with what follows the source.
\<close>

theorem memcpy_copies:
  assumes "dst + copied t len \<le> src \<or> src + copied t len \<le> dst"
  shows "\<exists>m'. memcpy_simd_optimized t m dst src len = Some m'
     \<and> mem_read m' dst len = mem_read m src len
     \<and> (\<forall>x. x < dst \<or> dst + copied t len \<le> x \<longrightarrow> m' x = m x)
     \<and> (\<forall>i. len \<le> i \<and> i < copied t len \<longrightarrow> m' (dst + i) = m (src + i))
     \<and> len \<le> copied t len \<and> copied t len \<le> len + 31"
proof -
  have "memcpy_simd_optimized t m dst src len = Some (copy_bytes m dst src (copied t len))"
    by (rule memcpy_moves) (use assms in \<open>simp add: apart_def\<close>)
  moreover have "copy_bytes m dst src (copied t len) (dst + i) = m (src + i)" if "i < copied t len" for i
    using that by (simp add: copy_bytes_def mem_write_inside)
  moreover have "copy_bytes m dst src (copied t len) x = m x" if "x < dst \<or> dst + copied t len \<le> x" for x
    using that by (simp add: copy_bytes_def mem_write_outside)
  ultimately show ?thesis using copied_bounds [of len t] by (simp add: mem_read_eq)
qed

theorem memcpy_copies_witness:
  "\<exists>m'. memcpy_simd_optimized (X86_64 False) (\<lambda>x. of_nat x) 100 0 5 = Some m'
     \<and> mem_read m' 100 5 = mem_read (\<lambda>x. of_nat x) 0 5"
  using memcpy_copies [of 100 "X86_64 False" 5 0 "\<lambda>x. of_nat x"] by (auto simp: copied_def)

text \<open>A copy of five bytes overwrites the sixth: the byte after the destination is lost.\<close>

theorem memcpy_overwrites:
  "\<exists>m'. memcpy_simd_optimized t m 100 0 5 = Some m' \<and> m' 105 = m 5"
proof -
  have c: "copied t 5 = 8" by (simp add: copied_def)
  have "memcpy_simd_optimized t m 100 0 5 = Some (copy_bytes m 100 0 8)"
    using memcpy_moves [of 100 0 t 5 m] by (simp add: c apart_def)
  then show ?thesis by (simp add: copy_bytes_def mem_write_def)
qed

lemma copied_exact:
  assumes "len \<le> 4 \<or> len = 8 \<or> 8 < len \<and> t = OtherArch \<or> len = 16 \<or> 32 dvd len"
  shows "copied t len = len"
proof (cases "8 < len \<and> len \<noteq> 16 \<and> t \<noteq> OtherArch")
  case True
  then have d: "32 dvd len" using assms by auto
  then have "32 \<le> len" using True by (auto elim!: dvdE)
  then have "32 dvd copied t len" using True by (simp add: copied_def)
  then show ?thesis using d copied_bounds [of len t] by (auto elim!: dvdE)
next
  case False
  have "len = 0 \<or> 32 \<le> len" if "32 dvd len" using that dvd_imp_le [of 32 len] by auto
  then consider "len \<le> 4" | "len = 8" | "len = 16" | "8 < len" "t = OtherArch" using False assms by linarith
  then show ?thesis by cases (simp_all add: copied_def)
qed

section \<open>What a comparison says\<close>

lemma bit_movemask: "bit (movemask bs) i \<longleftrightarrow> i < 32 \<and> i < length bs \<and> bs ! i"
proof (induction bs arbitrary: i)
  case Nil then show ?case by simp
next
  case (Cons b bs)
  have "bit (movemask (b # bs)) i \<longleftrightarrow> i < 32 \<and> (b \<and> i = 0 \<or> 1 \<le> i \<and> bit (movemask bs) (i - 1))"
    unfolding movemask.simps bit_or_iff bit_push_bit_iff by (cases b; cases i) (simp_all add: bit_1_iff)
  then show ?case by (cases i) (simp_all only: Cons, simp_all, linarith)
qed

lemma masked_equal:
  assumes "n \<le> length bs" "n \<le> 32"
  shows "and (movemask bs) (mask n) = mask n \<longleftrightarrow> (\<forall>i < n. bs ! i)"
proof -
  have "and (movemask bs) (mask n) = mask n \<longleftrightarrow> (\<forall>i < 32. i < n \<longrightarrow> bit (movemask bs) i)"
    by (auto simp: bit_eq_iff bit_and_iff bit_mask_iff)
  then show ?thesis using assms by (auto simp: bit_movemask)
qed

lemma masks: "(0xFFFF :: u32) = mask 16" "(0xFFFFFFFF :: u32) = mask 32" "2 ^ n - 1 = (mask n :: u32)" "(- 1 :: u32) = mask 32"
  by (simp_all add: mask_eq_exp_minus_1)

lemma cmp_mask_equal:
  "n \<le> w \<Longrightarrow> w \<le> 32 \<Longrightarrow> and (cmp_mask m a b w) (mask n) = mask n \<longleftrightarrow> mem_read m a n = mem_read m b n"
  unfolding cmp_mask_def by (subst masked_equal) (auto simp: mem_read_eq)

lemma bytewise_equal_iff: "bytewise_equal m a b len \<longleftrightarrow> mem_read m a len = mem_read m b len"
  by (auto simp: bytewise_equal_def mem_read_eq list_all_iff)

lemma memcmp_sse_iff: "len \<le> 16 \<Longrightarrow> memcmp_sse t m a b len \<longleftrightarrow> mem_read m a len = mem_read m b len"
  by (auto simp: memcmp_sse_def Let_def masks cmp_mask_equal bytewise_equal_iff)

lemma memcmp_avx2_iff: "len \<le> 32 \<Longrightarrow> memcmp_avx2 t m a b len \<longleftrightarrow> mem_read m a len = mem_read m b len"
  by (auto simp: memcmp_avx2_def Let_def masks cmp_mask_equal bytewise_equal_iff)

lemma read_chunks_equal:
  "(\<forall>i < k. mem_read m (a + i * 32) 32 = mem_read m (b + i * 32) 32) \<longleftrightarrow> mem_read m a (k * 32) = mem_read m b (k * 32)"
  by (induction k) (auto simp: mem_read_append less_Suc_eq add.commute [of 32], simp add: mem_read_def)

lemma memcmp_large_iff: "memcmp_large t m a b len \<longleftrightarrow> mem_read m a len = mem_read m b len"
proof -
  define k r where "k = len div 32" and "r = len mod 32"
  have len: "len = k * 32 + r" and r: "r < 32" by (simp_all add: k_def r_def)
  have "memcmp_large t m a b len \<longleftrightarrow>
      mem_read m a (k * 32) = mem_read m b (k * 32) \<and> mem_read m (a + k * 32) r = mem_read m (b + k * 32) r"
    using r by (cases "r = 0") (auto simp: memcmp_large_def Let_def k_def [symmetric] r_def [symmetric] list_all_iff memcmp_avx2_iff
        read_chunks_equal [symmetric] mem_read_eq [of _ _ 0])
  then show ?thesis by (simp add: len mem_read_append)
qed

text \<open>
  The comparison says whether the two stretches hold the same bytes, except for lengths 5, 6 and 7, for which eight bytes
  are compared.
\<close>

theorem memcmp_compares:
  "memcmp_simd_optimized t m a b len =
     Some (mem_read m a (if 5 \<le> len \<and> len \<le> 8 then 8 else len) = mem_read m b (if 5 \<le> len \<and> len \<le> 8 then 8 else len))"
proof -
  consider "len = 0" | "len = 1" | "len = 2" | "len = 3" | "len = 4" | "5 \<le> len" "len \<le> 8" | "8 < len" by linarith
  then show ?thesis
    by cases (auto simp: memcmp_simd_optimized_def memcmp_small_def memcmp_sse_iff memcmp_avx2_iff memcmp_large_iff mem_read_eq
        numeral_2_eq_2 numeral_3_eq_3 less_Suc_eq)
qed

text \<open>Equal five-byte stretches compare as different when the bytes after them differ.\<close>

theorem memcmp_reads_past:
  assumes "mem_read m a 5 = mem_read m b 5" "m (a + 5) \<noteq> m (b + 5)"
  shows "memcmp_simd_optimized t m a b 5 = Some False"
proof -
  have "\<not> (\<forall>i < 8. m (a + i) = m (b + i))" using assms(2) by (auto intro!: exI [of _ 5])
  then show ?thesis by (simp add: memcmp_simd_optimized_def memcmp_small_def mem_read_eq)
qed

section \<open>Clearing, and the exact loops\<close>

lemma zero_bytes_from: "zero_bytes_from m p i n = mem_write m (p + i) (replicate n 0)"
proof (induction n arbitrary: m i)
  case (Suc n)
  have "mem_write m (p + i) (replicate (Suc n) 0) = mem_write (mem_write m (p + i) [0]) (p + i + 1) (replicate n 0)"
    using mem_write_append [of m "p + i" "[0]" "replicate n 0"] by simp
  then show ?case by (simp add: Suc mem_write_single fun_upd_def)
qed simp

lemma replicate_write: "mem_write (mem_write m p (replicate a 0)) (p + a) (replicate b 0) = mem_write m p (replicate (a + b) 0)"
  using mem_write_append [of m p "replicate a 0" "replicate b 0"] by (simp add: replicate_add)

lemma chunk_loop_zero:
  "chunk_loop (\<lambda>m o'. mem_write m (p + o') (replicate w 0)) w n offset (mem_write m p (replicate offset 0)) =
     mem_write m p (replicate (offset + w * n) 0)"
proof (induction n arbitrary: offset)
  case (Suc n) then show ?case using Suc [of "offset + w"] by (simp add: replicate_write add.assoc)
qed simp

lemma copy_avx2_loop_copy:
  "apart dst src len \<Longrightarrow> offset \<le> len \<Longrightarrow> copy_avx2_loop (copy_bytes m dst src offset) dst src len offset = copy_bytes m dst src len"
proof (induction "len - offset" arbitrary: offset rule: less_induct)
  case less
  have step: "copy_bytes (copy_bytes m dst src offset) (dst + offset) (src + offset) k = copy_bytes m dst src (offset + k)"
    if "offset + k \<le> len" for k
    using less.prems that by (intro copy_bytes_join) (auto intro: apart_mono)
  show ?case
    using less.hyps [of "offset + 32"] less.hyps [of "offset + 1"] less.prems step [of 32] step [of 1]
    by (subst copy_avx2_loop.simps) (auto simp: copy_bytes_byte)
qed

lemma copy_avx2_exact: "apart dst src len \<Longrightarrow> copy_avx2 t m dst src len = copy_bytes m dst src len"
  using copy_avx2_loop_copy [of dst src len 0 m] by (simp add: copy_avx2_def)

lemma zero_avx2_loop_zero:
  "offset \<le> len \<Longrightarrow> zero_avx2_loop (mem_write m p (replicate offset 0)) p len offset = mem_write m p (replicate len 0)"
proof (induction "len - offset" arbitrary: offset rule: less_induct)
  case less
  show ?case
    using less.hyps [of "offset + 32"] less.hyps [of "offset + 1"] less.prems replicate_write [of m p offset 32] replicate_write [of m p offset 1]
    by (subst zero_avx2_loop.simps) (auto simp: mem_write_single)
qed

lemma compare_avx2_loop_iff:
  "offset \<le> len \<Longrightarrow> compare_avx2_loop m a b len offset \<longleftrightarrow> mem_read m (a + offset) (len - offset) = mem_read m (b + offset) (len - offset)"
proof (induction "len - offset" arbitrary: offset rule: less_induct)
  case less
  have vec: "cmp_mask m (a + offset) (b + offset) 32 = - 1 \<longleftrightarrow> mem_read m (a + offset) 32 = mem_read m (b + offset) 32"
    using cmp_mask_equal [of 32 32 m "a + offset" "b + offset"] by (simp add: masks(4) [symmetric])
  have split: "mem_read m (x + offset) (len - offset) = mem_read m (x + offset) k @ mem_read m (x + (offset + k)) (len - (offset + k))"
    if "offset + k \<le> len" for x k
    using mem_read_append [of m "x + offset" k "len - (offset + k)"] that by (simp add: algebra_simps)
  show ?case
  proof (cases "offset + 32 \<le> len")
    case True
    then show ?thesis using less.hyps [of "offset + 32"] vec split [of 32 a] split [of 32 b]
      by (subst compare_avx2_loop.simps) simp
  next
    case False
    have one: "mem_read m x (Suc 0) = [m x]" for x by (simp add: mem_read_def)
    show ?thesis
      using False less.hyps [of "offset + 1"] less.prems split [of 1 a] split [of 1 b]
      by (subst compare_avx2_loop.simps) (cases "offset < len", simp_all add: one, simp add: mem_read_def)
  qed
qed

text \<open>
  The routines that work vector by vector and finish byte by byte touch exactly the bytes asked for: they copy, compare and
  clear as a loop over single bytes would, on every target.
\<close>

theorem exact_routines:
  "(dst + len \<le> src \<or> src + len \<le> dst \<longrightarrow> copy_avx2 t m dst src len = mem_write m dst (mem_read m src len))
   \<and> compare_avx2 t m dst src len = (mem_read m dst len = mem_read m src len)
   \<and> zero_avx2 t m dst len = mem_write m dst (replicate len 0)
   \<and> memzero_simd_optimized t m dst len = mem_write m dst (replicate len 0)"
proof (intro conjI impI)
  show "copy_avx2 t m dst src len = mem_write m dst (mem_read m src len)" if "dst + len \<le> src \<or> src + len \<le> dst"
    using copy_avx2_exact [of dst src len t m] that by (simp add: apart_def copy_bytes_def)
  show "compare_avx2 t m dst src len = (mem_read m dst len = mem_read m src len)"
    using compare_avx2_loop_iff [of 0 len m dst src] by (simp add: compare_avx2_def)
  show "zero_avx2 t m dst len = mem_write m dst (replicate len 0)"
    using zero_avx2_loop_zero [of 0 len m dst] by (simp add: zero_avx2_def)
  show "memzero_simd_optimized t m dst len = mem_write m dst (replicate len 0)"
    using chunk_loop_zero [of dst 32 "len div 32" 0 m] replicate_write [of m dst "32 * (len div 32)" "len mod 32"]
    by (simp add: memzero_simd_optimized_def Let_def zero_bytes_from)
qed

theorem exact_routines_witness:
  "copy_avx2 (X86_64 False) (\<lambda>x. of_nat x) 100 0 40 = mem_write (\<lambda>x. of_nat x) 100 (mem_read (\<lambda>x. of_nat x) 0 40)"
  using exact_routines [of 100 40 0 "X86_64 False" "\<lambda>x. of_nat x"] by simp

end
