(* ===== verification/ZeroCopy.thy ===== *)
theory ZeroCopy
  imports SimdMem
begin

text \<open>
  The memory manager of \<open>perf/zero_copy_io.rs\<close>. A shared memory pool is a mapped region cut into blocks of one size, with a
  bitmap of 64-bit words in which a set bit is a free block; allocation clears the lowest set bit of a word with a
  compare-and-exchange, release sets it again. A memory-mapped buffer is a ring of bytes with a read and a write position.
  The manager owns three pools, eight buffers and a set of channels for copies. Copies go through \<open>memcpy_simd_optimized\<close>
  and so through the memory of \<open>SimdMem\<close>. Mapping memory is a parameter: it may fail, and returns a base address.
\<close>

section \<open>Bitmaps\<close>

definition trailing_zeros :: "u64 \<Rightarrow> nat" where
  "trailing_zeros w = length (takeWhile (\<lambda>i. \<not> bit w i) [0..<64])"

definition count_ones :: "u64 \<Rightarrow> nat" where
  "count_ones w = length (filter (bit w) [0..<64])"

text \<open>\<open>1u64 << bit_pos\<close>\<close>

definition block_mask :: "nat \<Rightarrow> u64" where
  "block_mask bit_pos = push_bit bit_pos 1"

lemma bit_block_mask: "bit (block_mask n) i \<longleftrightarrow> i = n \<and> n < 64"
  unfolding block_mask_def bit_push_bit_iff by (auto simp: bit_1_iff)

lemma takeWhile_upt:
  "n < k \<Longrightarrow> P n \<Longrightarrow> (\<And>j. j < n \<Longrightarrow> \<not> P j) \<Longrightarrow> takeWhile (\<lambda>i. \<not> P i) [0..<k] = [0..<n]"
proof -
  assume a: "n < k" "P n" "\<And>j. j < n \<Longrightarrow> \<not> P j"
  have "[0..<k] = [0..<n] @ [n..<k]" using a(1) upt_add_eq_append [of 0 n "k - n"] by simp
  moreover have "[n..<k] = n # [Suc n..<k]" using a(1) by (rule upt_conv_Cons)
  ultimately have "[0..<k] = [0..<n] @ n # [Suc n..<k]" by simp
  then show ?thesis using a(2,3) by (metis (no_types, lifting) atLeastLessThan_iff set_upt takeWhile.simps(2) takeWhile_append2 append_Nil2)
qed

lemma trailing_zeros_bit: "w \<noteq> 0 \<Longrightarrow> bit w (trailing_zeros w) \<and> trailing_zeros w < 64"
proof -
  assume "w \<noteq> 0"
  then obtain i where i: "bit w i" by (auto simp: bit_eq_iff)
  define n where "n = (LEAST i. bit w i)"
  have n: "bit w n" unfolding n_def by (rule LeastI [of "bit w", OF i])
  have below: "\<And>j. j < n \<Longrightarrow> \<not> bit w j" unfolding n_def by (rule not_less_Least)
  have "n < 64" using n bit_imp_le_length [of w n] by simp
  then have "trailing_zeros w = n" unfolding trailing_zeros_def using n below by (subst takeWhile_upt [of n 64 "bit w"]) auto
  then show ?thesis using n \<open>n < 64\<close> by simp
qed

section \<open>The shared memory pool\<close>

record mem_pool =
  mp_base :: nat
  mp_free :: "u64 list"
  mp_block_size :: nat
  mp_total :: nat
  mp_head :: nat
  mp_id :: nat

record block =
  blk_ptr :: nat
  blk_size :: nat
  blk_pool_id :: nat
  blk_index :: nat

definition align64 :: "nat \<Rightarrow> nat" where
  "align64 n = (n + 63) div 64 * 64"

definition free_bits :: "nat \<Rightarrow> nat \<Rightarrow> u64" where
  "free_bits total_blocks i =
     (if i = (total_blocks + 63) div 64 - 1 \<and> total_blocks mod 64 \<noteq> 0 then push_bit (total_blocks mod 64) 1 - 1 else - 1)"

text \<open>A block size of 0 divides by zero. \<open>map_anon len\<close> is the address of a fresh mapping, when there is one.\<close>

definition shared_pool_new :: "(nat \<Rightarrow> nat option) \<Rightarrow> nat \<Rightarrow> nat \<Rightarrow> nat \<Rightarrow> (string + mem_pool) rust" where
  "shared_pool_new map_anon pool_id total_size block_size =
     (let aligned_block_size = align64 block_size
      in if aligned_block_size = 0 then None
         else let total_blocks = total_size div aligned_block_size
              in Some (case map_anon (total_blocks * aligned_block_size) of
                   None \<Rightarrow> Inl ''Failed to create memory mapped region''
                 | Some base \<Rightarrow> Inr \<lparr>mp_base = base, mp_free = map (free_bits total_blocks) [0..<(total_blocks + 63) div 64],
                     mp_block_size = aligned_block_size, mp_total = total_blocks, mp_head = 0, mp_id = pool_id\<rparr>))"

definition block_at :: "mem_pool \<Rightarrow> nat \<Rightarrow> block" where
  "block_at p idx = \<lparr>blk_ptr = mp_base p + idx * mp_block_size p, blk_size = mp_block_size p, blk_pool_id = mp_id p, blk_index = idx\<rparr>"

text \<open>
  One search with no other thread about: each compare-and-exchange succeeds. A bit beyond the last block is put back and
  the search goes on with the next word.
\<close>

fun alloc_scan :: "nat \<Rightarrow> nat list \<Rightarrow> mem_pool \<Rightarrow> block option \<times> mem_pool" where
  "alloc_scan start [] p = (None, p)"
| "alloc_scan start (attempt # attempts) p =
     (let bitmap_index = (start + attempt) mod length (mp_free p);
          current = mp_free p ! bitmap_index
      in if current = 0 then alloc_scan start attempts p
         else let bit_pos = trailing_zeros current;
                  cleared = and current (not (block_mask bit_pos));
                  block_index = bitmap_index * 64 + bit_pos
              in if mp_total p \<le> block_index
                 then alloc_scan start attempts (p\<lparr>mp_free := (mp_free p)[bitmap_index := or cleared (block_mask bit_pos)]\<rparr>)
                 else (Some (block_at p block_index),
                       p\<lparr>mp_free := (mp_free p)[bitmap_index := cleared], mp_head := (block_index + 1) * 64\<rparr>))"

definition allocate_block :: "mem_pool \<Rightarrow> block option \<times> mem_pool" where
  "allocate_block p = alloc_scan (mp_head p div 64) [0..<length (mp_free p)] p"

definition deallocate_block :: "block \<Rightarrow> mem_pool \<Rightarrow> mem_pool" where
  "deallocate_block b p =
     (if blk_pool_id b \<noteq> mp_id p then p
      else let bitmap_index = blk_index b div 64; bit_pos = blk_index b mod 64
           in if bitmap_index < length (mp_free p)
              then p\<lparr>mp_free := (mp_free p)[bitmap_index := or (mp_free p ! bitmap_index) (block_mask bit_pos)]\<rparr>
              else p)"

definition available_blocks :: "mem_pool \<Rightarrow> nat" where
  "available_blocks p = sum_list (map count_ones (mp_free p))"

section \<open>Blocks\<close>

definition block_write_bytes :: "target \<Rightarrow> memory \<Rightarrow> block \<Rightarrow> nat \<Rightarrow> nat \<Rightarrow> (string + unit) rust \<times> memory" where
  "block_write_bytes t m b src len =
     (if blk_size b < len then (Some (Inl ''Data too large for block''), m)
      else case memcpy_simd_optimized t m (blk_ptr b) src len of
             Some m' \<Rightarrow> (Some (Inr ()), m')
           | None \<Rightarrow> (None, m))"

definition block_read_bytes :: "memory \<Rightarrow> block \<Rightarrow> nat \<Rightarrow> string + u8 list" where
  "block_read_bytes m b len =
     (if blk_size b < len then Inl ''Read length exceeds block size'' else Inr (mem_read m (blk_ptr b) len))"

section \<open>The set of free blocks\<close>

definition free_set :: "mem_pool \<Rightarrow> nat set" where
  "free_set p = {i. i < 64 * length (mp_free p) \<and> bit (mp_free p ! (i div 64)) (i mod 64)}"

definition pool_ok :: "mem_pool \<Rightarrow> bool" where
  "pool_ok p \<longleftrightarrow> length (mp_free p) = (mp_total p + 63) div 64 \<and> free_set p \<subseteq> {..<mp_total p}"

lemma bit_clear: "bit (and w (not (block_mask n))) i \<longleftrightarrow> bit (w :: u64) i \<and> i \<noteq> n"
  using bit_imp_le_length [of w i] by (auto simp: bit_and_iff bit_not_iff bit_block_mask)

lemma bit_set: "n < 64 \<Longrightarrow> bit (or w (block_mask n)) i \<longleftrightarrow> bit (w :: u64) i \<or> i = n"
  by (auto simp: bit_or_iff bit_block_mask)

lemma index_split: "b < 64 \<Longrightarrow> i = a * 64 + b \<longleftrightarrow> i div 64 = a \<and> i mod 64 = (b :: nat)"
  by auto

lemma free_set_clear:
  assumes "a < length (mp_free p)" "b < 64"
  shows "free_set (p\<lparr>mp_free := (mp_free p)[a := and (mp_free p ! a) (not (block_mask b))]\<rparr>) = free_set p - {a * 64 + b}"
proof -
  have "bit ((mp_free p)[a := and (mp_free p ! a) (not (block_mask b))] ! (i div 64)) (i mod 64) \<longleftrightarrow>
      bit (mp_free p ! (i div 64)) (i mod 64) \<and> i \<noteq> a * 64 + b" if "i < 64 * length (mp_free p)" for i
    using that assms index_split [OF assms(2), of i a] by (auto simp: nth_list_update bit_clear)
  then show ?thesis by (auto simp: free_set_def)
qed

lemma free_set_set:
  assumes "a < length (mp_free p)" "b < 64"
  shows "free_set (p\<lparr>mp_free := (mp_free p)[a := or (mp_free p ! a) (block_mask b)]\<rparr>) = insert (a * 64 + b) (free_set p)"
proof -
  have "bit ((mp_free p)[a := or (mp_free p ! a) (block_mask b)] ! (i div 64)) (i mod 64) \<longleftrightarrow>
      bit (mp_free p ! (i div 64)) (i mod 64) \<or> i = a * 64 + b" if "i < 64 * length (mp_free p)" for i
    using that assms index_split [OF assms(2), of i a] by (auto simp: nth_list_update bit_set)
  moreover have "a * 64 + b < 64 * length (mp_free p)" using assms by simp
  ultimately show ?thesis by (auto simp: free_set_def)
qed

lemma free_set_word:
  assumes "a < length (mp_free p)" "mp_free p ! a \<noteq> 0"
  shows "a * 64 + trailing_zeros (mp_free p ! a) \<in> free_set p"
  using trailing_zeros_bit [OF assms(2)] assms(1) by (simp add: free_set_def)

lemma free_set_zero: "(\<forall>w \<in> set (mp_free p). w = 0) \<Longrightarrow> free_set p = {}"
proof -
  assume z: "\<forall>w \<in> set (mp_free p). w = 0"
  have "mp_free p ! (i div 64) = 0" if "i < 64 * length (mp_free p)" for i
    using z that nth_mem [of "i div 64" "mp_free p"] by auto
  then show ?thesis by (auto simp: free_set_def)
qed

section \<open>Allocation and release\<close>

lemma pool_ok_word: "pool_ok p \<Longrightarrow> a < length (mp_free p) \<Longrightarrow> mp_free p ! a \<noteq> 0 \<Longrightarrow> a * 64 + trailing_zeros (mp_free p ! a) < mp_total p"
  using free_set_word [of a p] by (auto simp: pool_ok_def)

lemma alloc_scan_result:
  assumes "pool_ok p" "mp_free p \<noteq> []"
  shows "case alloc_scan start attempts p of
      (Some b, p') \<Rightarrow> \<exists>idx. b = block_at p idx \<and> idx \<in> free_set p \<and> free_set p' = free_set p - {idx}
        \<and> p' = p\<lparr>mp_free := mp_free p', mp_head := (idx + 1) * 64\<rparr> \<and> length (mp_free p') = length (mp_free p)
    | (None, p') \<Rightarrow> p' = p \<and> (\<forall>a \<in> set attempts. mp_free p ! ((start + a) mod length (mp_free p)) = 0)"
  using assms
proof (induction start attempts p rule: alloc_scan.induct)
  case (1 start p) then show ?case by simp
next
  case (2 start attempt attempts p)
  define a where "a = (start + attempt) mod length (mp_free p)"
  have a: "a < length (mp_free p)" using "2.prems"(2) by (simp add: a_def)
  show ?case
  proof (cases "mp_free p ! a = 0")
    case True
    then show ?thesis using "2.IH"(1) [OF a_def refl] "2.prems" by (auto simp: Let_def a_def [symmetric] split: prod.splits option.splits)
  next
    case False
    define b where "b = trailing_zeros (mp_free p ! a)"
    have b: "b < 64" "a * 64 + b < mp_total p" "a * 64 + b \<in> free_set p"
      using trailing_zeros_bit [OF False] pool_ok_word [OF "2.prems"(1) a False] free_set_word [OF a False] by (simp_all add: b_def)
    have fs: "free_set (p\<lparr>mp_free := (mp_free p)[a := and (mp_free p ! a) (not (block_mask b))], mp_head := h\<rparr>) = free_set p - {a * 64 + b}" for h
      using free_set_clear [OF a b(1)] by (simp add: free_set_def)
    show ?thesis
      using False b fs by (auto simp: Let_def a_def [symmetric] b_def [symmetric] intro!: exI [of _ "a * 64 + b"])
  qed
qed

lemma offsets_cover:
  assumes "(n :: nat) > 0" "i < n"
  shows "\<exists>a < n. (start + a) mod n = i"
proof (intro exI conjI)
  let ?a = "(i + (n - start mod n)) mod n"
  show "?a < n" using assms by simp
  have "(start + ?a) mod n = (start mod n + (i + (n - start mod n))) mod n" by (simp add: mod_simps)
  also have "start mod n + (i + (n - start mod n)) = i + n" using mod_less_divisor [OF assms(1), of start] by linarith
  finally show "(start + ?a) mod n = i" using assms by simp
qed

lemma allocate_block_result:
  assumes "pool_ok p"
  shows "case allocate_block p of
      (Some b, p') \<Rightarrow> (\<exists>idx. b = block_at p idx \<and> idx \<in> free_set p \<and> free_set p' = free_set p - {idx}
        \<and> p' = p\<lparr>mp_free := mp_free p', mp_head := (idx + 1) * 64\<rparr>) \<and> pool_ok p'
    | (None, p') \<Rightarrow> p' = p \<and> free_set p = {}"
proof (cases "mp_free p = []")
  case True then show ?thesis by (simp add: allocate_block_def free_set_def)
next
  case False
  have res: "case alloc_scan (mp_head p div 64) [0..<length (mp_free p)] p of
      (Some b, p') \<Rightarrow> \<exists>idx. b = block_at p idx \<and> idx \<in> free_set p \<and> free_set p' = free_set p - {idx}
        \<and> p' = p\<lparr>mp_free := mp_free p', mp_head := (idx + 1) * 64\<rparr> \<and> length (mp_free p') = length (mp_free p)
    | (None, p') \<Rightarrow> p' = p \<and> (\<forall>a \<in> set [0..<length (mp_free p)]. mp_free p ! ((mp_head p div 64 + a) mod length (mp_free p)) = 0)"
    by (rule alloc_scan_result [OF assms False])
  have all: "free_set p = {}" if zero: "\<forall>a < length (mp_free p). mp_free p ! ((mp_head p div 64 + a) mod length (mp_free p)) = 0"
  proof (rule free_set_zero)
    have "mp_free p ! i = 0" if i: "i < length (mp_free p)" for i
      using offsets_cover [OF _ i, of "mp_head p div 64"] zero False by (metis length_greater_0_conv)
    then show "\<forall>w \<in> set (mp_free p). w = 0" by (auto simp: in_set_conv_nth)
  qed
  obtain r p' where rp: "allocate_block p = (r, p')" by (cases "allocate_block p") auto
  show ?thesis
  proof (cases r)
    case None then show ?thesis using res all rp by (simp add: allocate_block_def)
  next
    case (Some b)
    then obtain idx where idx: "b = block_at p idx" "idx \<in> free_set p" "free_set p' = free_set p - {idx}"
      "p' = p\<lparr>mp_free := mp_free p', mp_head := (idx + 1) * 64\<rparr>" "length (mp_free p') = length (mp_free p)"
      using res rp by (auto simp: allocate_block_def)
    have "mp_total p' = mp_total p" by (subst idx(4)) simp
    then have "pool_ok p'" using assms idx(3,5) by (auto simp: pool_ok_def)
    then show ?thesis using rp Some idx by auto
  qed
qed

lemma deallocate_block_result:
  assumes "pool_ok p" "idx < mp_total p"
  shows "free_set (deallocate_block (block_at p idx) p) = insert idx (free_set p)" "pool_ok (deallocate_block (block_at p idx) p)"
proof -
  have l: "idx div 64 < length (mp_free p)" using assms by (auto simp: pool_ok_def)
  then have d: "deallocate_block (block_at p idx) p =
      p\<lparr>mp_free := (mp_free p)[idx div 64 := or (mp_free p ! (idx div 64)) (block_mask (idx mod 64))]\<rparr>"
    by (simp add: deallocate_block_def block_at_def Let_def)
  show fs: "free_set (deallocate_block (block_at p idx) p) = insert idx (free_set p)"
    using free_set_set [OF l, of "idx mod 64"] by (simp add: d)
  show "pool_ok (deallocate_block (block_at p idx) p)" using assms fs by (auto simp: pool_ok_def d)
qed

lemma bit_free_bits:
  assumes "i < 64 * ((n + 63) div 64)"
  shows "bit (free_bits n (i div 64)) (i mod 64) \<longleftrightarrow> i < n"
proof -
  obtain q r where n: "n = 64 * q + r" "r < 64" by (metis mod_less_divisor mult_div_mod_eq zero_less_numeral)
  obtain a b where i: "i = 64 * a + b" "b < 64" by (metis mod_less_divisor mult_div_mod_eq zero_less_numeral)
  have words: "(n + 63) div 64 = (if r = 0 then q else Suc q)" and r: "n mod 64 = r" and ai: "i div 64 = a" "i mod 64 = b"
    using n i by (auto simp: div_nat_eqI)
  show ?thesis
  proof (cases "r \<noteq> 0 \<and> a = q")
    case True
    then have "free_bits n a = mask r" by (simp add: free_bits_def words r mask_eq_exp_minus_1)
    then show ?thesis using True n i by (simp add: ai bit_mask_iff)
  next
    case False
    then have "free_bits n a = - 1" and "a < q" using assms i by (auto simp: free_bits_def words r split: if_splits)
    then show ?thesis using n i by (simp add: ai)
  qed
qed

lemma pool_new_ok:
  assumes "shared_pool_new map_anon pool_id total_size block_size = Some (Inr p)"
  shows "pool_ok p" "free_set p = {..<mp_total p}" "64 dvd mp_block_size p" "block_size \<le> mp_block_size p" "0 < mp_block_size p"
    and "mp_total p * mp_block_size p \<le> total_size" "mp_id p = pool_id"
proof -
  obtain base where p: "align64 block_size \<noteq> 0" "p = \<lparr>mp_base = base, mp_free = map (free_bits (total_size div align64 block_size))
      [0..<(total_size div align64 block_size + 63) div 64], mp_block_size = align64 block_size,
      mp_total = total_size div align64 block_size, mp_head = 0, mp_id = pool_id\<rparr>"
    using assms by (auto simp: shared_pool_new_def Let_def split: if_splits option.splits)
  define n where "n = mp_total p"
  have bits: "bit (free_bits n (i div 64)) (i mod 64) \<longleftrightarrow> i < n" if "i < 64 * ((n + 63) div 64)" for i
    using that by (rule bit_free_bits)
  show fs: "free_set p = {..<mp_total p}" using bits by (auto simp: free_set_def p(2) n_def)
  show "pool_ok p" using fs by (simp add: pool_ok_def p(2))
  show "64 dvd mp_block_size p" "block_size \<le> mp_block_size p" "0 < mp_block_size p" "mp_id p = pool_id"
    using p(1) by (auto simp: p(2) align64_def)
  show "mp_total p * mp_block_size p \<le> total_size" by (simp add: p(2))
qed

section \<open>Many threads\<close>

text \<open>
  The atomic steps of \<open>allocate_block\<close> and \<open>deallocate_block\<close> when many threads use one pool: a thread loads a word of the
  bitmap, tries to exchange it (the weak exchange may also fail for no reason), and after a success checks the index and
  either returns the block or sets the bit again. \<open>al_held\<close> are the blocks each thread has been given and not released.
\<close>

datatype phase = Idle | Scanning nat nat | Trying nat nat u64 | Cleared nat nat nat

record alloc_sys =
  al_pool :: mem_pool
  al_phase :: "nat \<Rightarrow> phase"
  al_held :: "nat \<Rightarrow> nat set"

definition word_index :: "mem_pool \<Rightarrow> nat \<Rightarrow> nat \<Rightarrow> nat" where
  "word_index p start attempt = (start + attempt) mod length (mp_free p)"

definition after_load :: "nat \<Rightarrow> nat \<Rightarrow> u64 \<Rightarrow> phase" where
  "after_load start attempt current = (if current = 0 then Scanning start (attempt + 1) else Trying start attempt current)"

inductive alloc_step :: "alloc_sys \<Rightarrow> alloc_sys \<Rightarrow> bool" where
  AllocBegin: "al_phase s i = Idle \<Longrightarrow>
     alloc_step s (s\<lparr>al_phase := (al_phase s)(i := Scanning (mp_head (al_pool s) div 64) 0)\<rparr>)"
| AllocLoad: "al_phase s i = Scanning start a \<Longrightarrow> a < length (mp_free (al_pool s)) \<Longrightarrow>
     alloc_step s (s\<lparr>al_phase := (al_phase s)(i := after_load start a (mp_free (al_pool s) ! word_index (al_pool s) start a))\<rparr>)"
| AllocNone: "al_phase s i = Scanning start a \<Longrightarrow> length (mp_free (al_pool s)) \<le> a \<Longrightarrow>
     alloc_step s (s\<lparr>al_phase := (al_phase s)(i := Idle)\<rparr>)"
| AllocExchange: "al_phase s i = Trying start a current \<Longrightarrow> w = word_index (al_pool s) start a \<Longrightarrow> mp_free (al_pool s) ! w = current \<Longrightarrow>
     alloc_step s (s\<lparr>al_phase := (al_phase s)(i := Cleared start a (trailing_zeros current)),
       al_pool := (al_pool s)\<lparr>mp_free := (mp_free (al_pool s))[w := and current (not (block_mask (trailing_zeros current)))]\<rparr>\<rparr>)"
| AllocRetry: "al_phase s i = Trying start a current \<Longrightarrow>
     alloc_step s (s\<lparr>al_phase := (al_phase s)(i := after_load start a (mp_free (al_pool s) ! word_index (al_pool s) start a))\<rparr>)"
| AllocReturn: "al_phase s i = Cleared start a b \<Longrightarrow> idx = word_index (al_pool s) start a * 64 + b \<Longrightarrow> idx < mp_total (al_pool s) \<Longrightarrow>
     alloc_step s (s\<lparr>al_phase := (al_phase s)(i := Idle), al_held := (al_held s)(i := insert idx (al_held s i)),
       al_pool := (al_pool s)\<lparr>mp_head := (idx + 1) * 64\<rparr>\<rparr>)"
| AllocRestore: "al_phase s i = Cleared start a b \<Longrightarrow> w = word_index (al_pool s) start a \<Longrightarrow> mp_total (al_pool s) \<le> w * 64 + b \<Longrightarrow>
     alloc_step s (s\<lparr>al_phase := (al_phase s)(i := Scanning start (a + 1)),
       al_pool := (al_pool s)\<lparr>mp_free := (mp_free (al_pool s))[w := or (mp_free (al_pool s) ! w) (block_mask b)]\<rparr>\<rparr>)"
| Release: "idx \<in> al_held s i \<Longrightarrow>
     alloc_step s (s\<lparr>al_held := (al_held s)(i := al_held s i - {idx}),
       al_pool := deallocate_block (block_at (al_pool s) idx) (al_pool s)\<rparr>)"

text \<open>The blocks a thread has, including one it has just cleared and not returned yet.\<close>

fun in_hand :: "mem_pool \<Rightarrow> phase \<Rightarrow> nat set" where
  "in_hand p (Cleared start a b) = {word_index p start a * 64 + b}"
| "in_hand p ph = {}"

definition owned :: "alloc_sys \<Rightarrow> nat \<Rightarrow> nat set" where
  "owned s i = al_held s i \<union> in_hand (al_pool s) (al_phase s i)"

fun phase_ok :: "mem_pool \<Rightarrow> phase \<Rightarrow> bool" where
  "phase_ok p (Trying start a current) = (current \<noteq> 0 \<and> mp_free p \<noteq> [])"
| "phase_ok p (Cleared start a b) = (b < 64 \<and> mp_free p \<noteq> [])"
| "phase_ok p ph = True"

definition alloc_ok :: "alloc_sys \<Rightarrow> bool" where
  "alloc_ok s \<longleftrightarrow> length (mp_free (al_pool s)) = (mp_total (al_pool s) + 63) div 64
     \<and> free_set (al_pool s) \<union> (\<Union>i. owned s i) = {..<mp_total (al_pool s)}
     \<and> (\<forall>i. free_set (al_pool s) \<inter> owned s i = {})
     \<and> (\<forall>i j. i \<noteq> j \<longrightarrow> owned s i \<inter> owned s j = {})
     \<and> (\<forall>i. al_held s i \<inter> in_hand (al_pool s) (al_phase s i) = {})
     \<and> (\<forall>i. phase_ok (al_pool s) (al_phase s i))"

lemma alloc_okD:
  assumes "alloc_ok s"
  shows "length (mp_free (al_pool s)) = (mp_total (al_pool s) + 63) div 64"
    and "free_set (al_pool s) \<union> (\<Union>i. owned s i) = {..<mp_total (al_pool s)}"
    and "free_set (al_pool s) \<inter> owned s i = {}" and "i \<noteq> j \<Longrightarrow> owned s i \<inter> owned s j = {}"
    and "al_held s i \<inter> in_hand (al_pool s) (al_phase s i) = {}" and "phase_ok (al_pool s) (al_phase s i)"
  using assms by (simp_all add: alloc_ok_def)

lemma owned_less: "alloc_ok s \<Longrightarrow> idx \<in> owned s i \<Longrightarrow> idx < mp_total (al_pool s)"
  using alloc_okD(2) [of s] by blast

lemma word_index_less: "mp_free p \<noteq> [] \<Longrightarrow> word_index p start a < length (mp_free p)"
  by (simp add: word_index_def)

lemma same_words: "length (mp_free p') = length (mp_free p) \<Longrightarrow> in_hand p' ph = in_hand p ph \<and> (phase_ok p' ph \<longleftrightarrow> phase_ok p ph)"
  by (cases ph) (auto simp: word_index_def)

lemma after_load_simps [simp]: "in_hand p (after_load start a c) = {}" "phase_ok p (after_load start a c) \<longleftrightarrow> c = 0 \<or> mp_free p \<noteq> []"
  by (auto simp: after_load_def)

text \<open>A change of phase that gives up no block and takes none.\<close>

lemma alloc_ok_phase:
  assumes "alloc_ok s" "in_hand (al_pool s) (al_phase s i) = {}" "in_hand (al_pool s) ph = {}" "phase_ok (al_pool s) ph"
  shows "alloc_ok (s\<lparr>al_phase := (al_phase s)(i := ph)\<rparr>)"
proof -
  have "owned (s\<lparr>al_phase := (al_phase s)(i := ph)\<rparr>) = owned s" using assms(2,3) by (auto simp: owned_def fun_eq_iff)
  then show ?thesis using assms by (simp add: alloc_ok_def)
qed

text \<open>A step of thread \<open>i\<close> that moves blocks between the bitmap and its own hands.\<close>

lemma alloc_ok_move:
  assumes "alloc_ok s"
    and words: "length (mp_free (al_pool s')) = length (mp_free (al_pool s))" "mp_total (al_pool s') = mp_total (al_pool s)"
    and all: "free_set (al_pool s') \<union> owned s' i = free_set (al_pool s) \<union> owned s i" "free_set (al_pool s') \<inter> owned s' i = {}"
    and others: "\<And>j. j \<noteq> i \<Longrightarrow> al_held s' j = al_held s j" "\<And>j. j \<noteq> i \<Longrightarrow> al_phase s' j = al_phase s j"
    and own: "al_held s' i \<inter> in_hand (al_pool s') (al_phase s' i) = {}" "phase_ok (al_pool s') (al_phase s' i)"
  shows "alloc_ok s'"
proof -
  have o: "owned s' j = owned s j" if "j \<noteq> i" for j
    using that others same_words [OF words(1)] by (simp add: owned_def)
  have sub: "free_set (al_pool s') \<subseteq> free_set (al_pool s) \<union> owned s i" "owned s' i \<subseteq> free_set (al_pool s) \<union> owned s i" using all by auto
  have disj: "(free_set (al_pool s) \<union> owned s i) \<inter> owned s j = {}" if "j \<noteq> i" for j
    using alloc_okD(3) [OF assms(1), of j] alloc_okD(4) [OF assms(1) that] by blast
  have union: "(\<Union>j. owned t j) = owned t i \<union> (\<Union>j\<in>- {i}. owned t j)" for t by auto
  have "free_set (al_pool s') \<union> (\<Union>j. owned s' j) = free_set (al_pool s) \<union> (\<Union>j. owned s j)"
    unfolding union using all(1) o by auto
  moreover have "free_set (al_pool s') \<inter> owned s' j = {}" for j
    using all(2) sub(1) disj o by (cases "j = i") auto
  moreover have "owned s' j \<inter> owned s' k = {}" if "j \<noteq> k" for j k
  proof -
    have apart: "owned s' i \<inter> owned s' k = {}" if "k \<noteq> i" for k
      unfolding o [OF that] using sub(2) disj [OF that] by blast
    consider "j = i" | "k = i" | "j \<noteq> i" "k \<noteq> i" by blast
    then show ?thesis
    proof cases
      case 1 then show ?thesis using apart [of k] that by simp
    next
      case 2 then show ?thesis using apart [of j] that by (simp add: Int_commute)
    next
      case 3 then show ?thesis using o alloc_okD(4) [OF assms(1) that] by simp
    qed
  qed
  moreover have "al_held s' j \<inter> in_hand (al_pool s') (al_phase s' j) = {}" "phase_ok (al_pool s') (al_phase s' j)" for j
    using own others same_words [OF words(1)] assms(1) by (cases "j = i"; simp add: alloc_ok_def)+
  ultimately show ?thesis using assms(1) words by (auto simp: alloc_ok_def)
qed

lemma alloc_step_ok: "alloc_step s s' \<Longrightarrow> alloc_ok s \<Longrightarrow> alloc_ok s'"
proof (induction rule: alloc_step.induct)
  case (AllocBegin s i) then show ?case by (intro alloc_ok_phase) auto
next
  case (AllocLoad s i start a) then show ?case by (intro alloc_ok_phase) auto
next
  case (AllocNone s i start a) then show ?case by (intro alloc_ok_phase) auto
next
  case (AllocRetry s i start a current)
  then show ?case by (intro alloc_ok_phase) (auto simp: alloc_ok_def dest: spec [of _ i])
next
  case (AllocExchange s i start a current w)
  have ph: "current \<noteq> 0" "mp_free (al_pool s) \<noteq> []"
    using alloc_okD(6) [OF AllocExchange.prems, of i] AllocExchange.hyps(1) by simp_all
  have w: "w < length (mp_free (al_pool s))" using word_index_less [OF ph(2)] AllocExchange.hyps(2) by simp
  define b p' where "b = trailing_zeros current"
    and "p' = (al_pool s)\<lparr>mp_free := (mp_free (al_pool s))[w := and current (not (block_mask b))]\<rparr>"
  let ?s = "s\<lparr>al_phase := (al_phase s)(i := Cleared start a b), al_pool := p'\<rparr>"
  have b: "b < 64" "w * 64 + b \<in> free_set (al_pool s)"
    using trailing_zeros_bit [OF ph(1)] free_set_word [OF w] AllocExchange.hyps(3) ph by (auto simp: b_def)
  have fs: "free_set p' = free_set (al_pool s) - {w * 64 + b}"
    using free_set_clear [OF w b(1)] AllocExchange.hyps(3) by (simp add: p'_def)
  have p': "length (mp_free p') = length (mp_free (al_pool s))" "mp_total p' = mp_total (al_pool s)" by (simp_all add: p'_def)
  have hand: "in_hand p' (Cleared start a b) = {w * 64 + b}" using AllocExchange.hyps(2) by (simp add: p' word_index_def)
  have new: "w * 64 + b \<notin> owned s i" using alloc_okD(3) [OF AllocExchange.prems, of i] b(2) by blast
  have own: "owned ?s i = insert (w * 64 + b) (owned s i)"
    using hand AllocExchange.hyps(1) by (simp add: owned_def)
  have "alloc_ok ?s"
  proof (rule alloc_ok_move [OF AllocExchange.prems, where i = i])
    show "free_set (al_pool ?s) \<union> owned ?s i = free_set (al_pool s) \<union> owned s i" using own fs b(2) by auto
    show "free_set (al_pool ?s) \<inter> owned ?s i = {}" using own fs alloc_okD(3) [OF AllocExchange.prems, of i] by auto
    show "al_held ?s i \<inter> in_hand (al_pool ?s) (al_phase ?s i) = {}" using hand new by (simp add: owned_def)
    show "phase_ok (al_pool ?s) (al_phase ?s i)" using b(1) ph(2) by (simp add: p'_def)
  qed (simp_all add: p')
  then show ?case by (simp add: b_def p'_def)
next
  case (AllocReturn s i start a b idx)
  let ?s = "s\<lparr>al_phase := (al_phase s)(i := Idle), al_held := (al_held s)(i := insert idx (al_held s i)),
       al_pool := (al_pool s)\<lparr>mp_head := (idx + 1) * 64\<rparr>\<rparr>"
  have fs: "free_set (al_pool ?s) = free_set (al_pool s)" by (simp add: free_set_def)
  have own: "owned ?s i = owned s i" using AllocReturn.hyps by (simp add: owned_def)
  show ?case
  proof (rule alloc_ok_move [OF AllocReturn.prems, where i = i])
    show "free_set (al_pool ?s) \<inter> owned ?s i = {}" using alloc_okD(3) [OF AllocReturn.prems, of i] by (simp only: fs own)
    show "free_set (al_pool ?s) \<union> owned ?s i = free_set (al_pool s) \<union> owned s i" by (simp only: fs own)
  qed simp_all
next
  case (AllocRestore s i start a b w)
  have "w * 64 + b < mp_total (al_pool s)"
    using AllocRestore.hyps by (intro owned_less [OF AllocRestore.prems, of _ i]) (simp add: owned_def)
  then show ?case using AllocRestore.hyps(3) by simp
next
  case (Release idx s i)
  have idx: "idx < mp_total (al_pool s)" using Release by (intro owned_less [OF Release.prems, of _ i]) (simp add: owned_def)
  have ok: "pool_ok (al_pool s)" using alloc_okD(1,2) [OF Release.prems] by (auto simp: pool_ok_def)
  define p' where "p' = deallocate_block (block_at (al_pool s) idx) (al_pool s)"
  have fs: "free_set p' = insert idx (free_set (al_pool s))" using deallocate_block_result(1) [OF ok idx] by (simp add: p'_def)
  have p': "length (mp_free p') = length (mp_free (al_pool s))" "mp_total p' = mp_total (al_pool s)"
    by (simp_all add: p'_def deallocate_block_def Let_def)
  let ?s = "s\<lparr>al_held := (al_held s)(i := al_held s i - {idx}), al_pool := p'\<rparr>"
  have same: "in_hand p' ph = in_hand (al_pool s) ph" "phase_ok p' ph = phase_ok (al_pool s) ph" for ph
    using same_words [OF p'(1)] by auto
  have own: "owned ?s i = owned s i - {idx}"
    using alloc_okD(5) [OF Release.prems, of i] Release.hyps by (auto simp: owned_def same)
  have "alloc_ok ?s"
  proof (rule alloc_ok_move [OF Release.prems, where i = i])
    show "free_set (al_pool ?s) \<union> owned ?s i = free_set (al_pool s) \<union> owned s i"
      using own fs Release.hyps by (auto simp: owned_def)
    show "free_set (al_pool ?s) \<inter> owned ?s i = {}" using own fs alloc_okD(3) [OF Release.prems, of i] by auto
    show "al_held ?s i \<inter> in_hand (al_pool ?s) (al_phase ?s i) = {}" using alloc_okD(5) [OF Release.prems, of i] by (auto simp: same)
    show "phase_ok (al_pool ?s) (al_phase ?s i)" using alloc_okD(6) [OF Release.prems] by (simp add: same)
  qed (simp_all add: p')
  then show ?case by (simp add: p'_def)
qed

definition alloc_init :: "mem_pool \<Rightarrow> alloc_sys" where
  "alloc_init p = \<lparr>al_pool = p, al_phase = (\<lambda>i. Idle), al_held = (\<lambda>i. {})\<rparr>"

lemma alloc_reachable_ok:
  assumes "shared_pool_new map_anon pool_id total_size block_size = Some (Inr p)" "alloc_step\<^sup>*\<^sup>* (alloc_init p) s"
  shows "alloc_ok s"
  using assms(2)
proof (induction rule: rtranclp_induct)
  case base
  show ?case using pool_new_ok(1,2) [OF assms(1)] by (simp add: alloc_ok_def alloc_init_def owned_def pool_ok_def)
next
  case (step s s') then show ?case by (blast intro: alloc_step_ok)
qed

lemma alloc_step_shape:
  "alloc_step s s' \<Longrightarrow> mp_base (al_pool s') = mp_base (al_pool s) \<and> mp_block_size (al_pool s') = mp_block_size (al_pool s)
     \<and> mp_total (al_pool s') = mp_total (al_pool s) \<and> mp_id (al_pool s') = mp_id (al_pool s)"
  by (induction rule: alloc_step.induct) (auto simp: deallocate_block_def Let_def)

lemma alloc_reachable_shape:
  "alloc_step\<^sup>*\<^sup>* s s' \<Longrightarrow> mp_base (al_pool s') = mp_base (al_pool s) \<and> mp_block_size (al_pool s') = mp_block_size (al_pool s)
     \<and> mp_total (al_pool s') = mp_total (al_pool s) \<and> mp_id (al_pool s') = mp_id (al_pool s)"
  by (induction rule: rtranclp_induct) (use alloc_step_shape in fastforce)+

definition block_range :: "mem_pool \<Rightarrow> nat \<Rightarrow> nat set" where
  "block_range p idx = {blk_ptr (block_at p idx)..<blk_ptr (block_at p idx) + blk_size (block_at p idx)}"

lemma block_ranges_apart: "idx \<noteq> idx' \<Longrightarrow> block_range p idx \<inter> block_range p idx' = {}"
proof (induction idx idx' rule: linorder_wlog)
  case (le idx idx')
  then have "Suc idx * mp_block_size p \<le> idx' * mp_block_size p" by (intro mult_le_mono1) simp
  then show ?case by (auto simp: block_range_def block_at_def)
qed blast

lemma block_range_inside:
  assumes "idx < mp_total p"
  shows "block_range p idx \<subseteq> {mp_base p..<mp_base p + mp_total p * mp_block_size p}"
proof -
  have "Suc idx * mp_block_size p \<le> mp_total p * mp_block_size p" using assms by (intro mult_le_mono1) simp
  then show ?thesis by (auto simp: block_range_def block_at_def)
qed

text \<open>
  However many threads allocate and release, and however their steps interleave: two blocks that are held at the same time
  never share a byte, every block lies inside the mapped region, and no block is lost: each is free, or in the hands of
  exactly one thread.
\<close>

theorem pool_never_shares_a_block:
  assumes "shared_pool_new map_anon pool_id total_size block_size = Some (Inr p)" "alloc_step\<^sup>*\<^sup>* (alloc_init p) s"
  shows "(\<forall>i j idx idx'. idx \<in> al_held s i \<and> idx' \<in> al_held s j \<and> (i, idx) \<noteq> (j, idx') \<longrightarrow>
            block_range p idx \<inter> block_range p idx' = {})
     \<and> (\<forall>i. \<forall>idx \<in> al_held s i. block_range p idx \<subseteq> {mp_base p..<mp_base p + total_size} \<and> blk_size (block_at p idx) \<ge> block_size)
     \<and> (\<forall>idx < mp_total p. idx \<in> free_set (al_pool s) \<longleftrightarrow> (\<forall>i. idx \<notin> owned s i))"
proof -
  have ok: "alloc_ok s" by (rule alloc_reachable_ok [OF assms])
  have tot: "mp_total (al_pool s) = mp_total p" using alloc_reachable_shape [OF assms(2)] by (simp add: alloc_init_def)
  have held: "idx < mp_total p" if "idx \<in> al_held s i" for i idx
    using ok that tot by (fastforce simp: alloc_ok_def owned_def)
  have "block_range p idx \<inter> block_range p idx' = {}"
    if "idx \<in> al_held s i" "idx' \<in> al_held s j" "(i, idx) \<noteq> (j, idx')" for i j idx idx'
  proof (rule block_ranges_apart)
    show "idx \<noteq> idx'" using ok that by (cases "i = j") (auto simp: alloc_ok_def owned_def disjoint_iff)
  qed
  moreover have "block_range p idx \<subseteq> {mp_base p..<mp_base p + total_size}" if "idx \<in> al_held s i" for i idx
    using block_range_inside [OF held [OF that]] pool_new_ok(6) [OF assms(1)] by fastforce
  moreover have "blk_size (block_at p idx) \<ge> block_size" for idx using pool_new_ok(4) [OF assms(1)] by (simp add: block_at_def)
  moreover have "idx \<in> free_set (al_pool s) \<longleftrightarrow> (\<forall>i. idx \<notin> owned s i)" if "idx < mp_total p" for idx
    using ok that tot by (auto simp: alloc_ok_def)
  ultimately show ?thesis by blast
qed

definition sample_pool :: mem_pool where
  "sample_pool = \<lparr>mp_base = 4096, mp_free = [3], mp_block_size = 64, mp_total = 2, mp_head = 0, mp_id = 7\<rparr>"

lemma sample_pool_new: "shared_pool_new (\<lambda>n. Some 4096) 7 128 64 = Some (Inr sample_pool)"
  by (simp add: shared_pool_new_def align64_def free_bits_def sample_pool_def Let_def)

lemma trailing_zeros_3: "trailing_zeros 3 = 0"
  by (simp add: trailing_zeros_def upt_conv_Cons)

theorem pool_never_shares_a_block_witness:
  "\<exists>s. alloc_step\<^sup>*\<^sup>* (alloc_init sample_pool) s \<and> 0 \<in> al_held s 5 \<and> block_range sample_pool 0 \<subseteq> {4096..<4096 + 128}"
proof -
  let ?s0 = "alloc_init sample_pool"
  let ?s1 = "?s0\<lparr>al_phase := (al_phase ?s0)(5 := Scanning (mp_head (al_pool ?s0) div 64) 0)\<rparr>"
  let ?s2 = "?s1\<lparr>al_phase := (al_phase ?s1)(5 := after_load 0 0 (mp_free (al_pool ?s1) ! word_index (al_pool ?s1) 0 0))\<rparr>"
  let ?s3 = "?s2\<lparr>al_phase := (al_phase ?s2)(5 := Cleared 0 0 (trailing_zeros 3)),
       al_pool := (al_pool ?s2)\<lparr>mp_free := (mp_free (al_pool ?s2))[0 := and 3 (not (block_mask (trailing_zeros 3)))]\<rparr>\<rparr>"
  let ?s4 = "?s3\<lparr>al_phase := (al_phase ?s3)(5 := Idle), al_held := (al_held ?s3)(5 := insert 0 (al_held ?s3 5)),
       al_pool := (al_pool ?s3)\<lparr>mp_head := (0 + 1) * 64\<rparr>\<rparr>"
  have "alloc_step ?s0 ?s1" by (rule AllocBegin) (simp add: alloc_init_def)
  moreover have "alloc_step ?s1 ?s2" by (rule AllocLoad) (simp_all add: alloc_init_def sample_pool_def)
  moreover have "alloc_step ?s2 ?s3"
    by (rule AllocExchange) (simp_all add: alloc_init_def sample_pool_def after_load_def word_index_def)
  moreover have "alloc_step ?s3 ?s4"
    by (rule AllocReturn [where b = 0 and start = 0 and a = 0]) (simp_all add: alloc_init_def sample_pool_def word_index_def trailing_zeros_3)
  ultimately have run: "alloc_step\<^sup>*\<^sup>* ?s0 ?s4" by (meson r_into_rtranclp rtranclp_trans)
  have "0 \<in> al_held ?s4 5" by simp
  moreover have "mp_base sample_pool = 4096" by (simp add: sample_pool_def)
  ultimately show ?thesis using run pool_never_shares_a_block [OF sample_pool_new run] by metis
qed

section \<open>A single thread\<close>

lemma card_free_set: "card (free_set p) = available_blocks p"
proof -
  define bits where "bits a = {b. b < 64 \<and> bit (mp_free p ! a) b}" for a
  have fs: "free_set p = (\<Union>a < length (mp_free p). (\<lambda>b. a * 64 + b) ` bits a)"
  proof (intro set_eqI iffI)
    fix i assume "i \<in> free_set p"
    then have "i div 64 < length (mp_free p)" "i mod 64 \<in> bits (i div 64)" "i = i div 64 * 64 + i mod 64"
      by (auto simp: free_set_def bits_def)
    then show "i \<in> (\<Union>a < length (mp_free p). (\<lambda>b. a * 64 + b) ` bits a)" by blast
  next
    fix i assume "i \<in> (\<Union>a < length (mp_free p). (\<lambda>b. a * 64 + b) ` bits a)"
    then obtain a b where "a < length (mp_free p)" "b \<in> bits a" "i = a * 64 + b" by blast
    then show "i \<in> free_set p" by (auto simp: free_set_def bits_def)
  qed
  have one: "card ((\<lambda>b. a * 64 + b) ` bits a) = count_ones (mp_free p ! a)" for a
  proof -
    have "card ((\<lambda>b. a * 64 + b) ` bits a) = card (bits a)" by (rule card_image) (simp add: inj_on_def)
    moreover have "bits a = set (filter (bit (mp_free p ! a)) [0..<64])" by (auto simp: bits_def)
    moreover have "card (set (filter (bit (mp_free p ! a)) [0..<64])) = count_ones (mp_free p ! a)"
      unfolding count_ones_def by (rule distinct_card) simp
    ultimately show ?thesis by metis
  qed
  have "card (free_set p) = (\<Sum>a < length (mp_free p). card ((\<lambda>b. a * 64 + b) ` bits a))"
    unfolding fs
  proof (rule card_UN_disjoint)
    show "\<forall>i\<in>{..<length (mp_free p)}. finite ((\<lambda>b. i * 64 + b) ` bits i)" by (simp add: bits_def)
    have "a = a'" if "b \<in> bits a" "b' \<in> bits a'" "a * 64 + b = a' * 64 + b'" for a a' b b'
      using that index_split [of b "a * 64 + b" a] index_split [of b' "a * 64 + b" a'] by (simp add: bits_def)
    then show "\<forall>i\<in>{..<length (mp_free p)}. \<forall>j\<in>{..<length (mp_free p)}. i \<noteq> j \<longrightarrow>
        (\<lambda>b. i * 64 + b) ` bits i \<inter> (\<lambda>b. j * 64 + b) ` bits j = {}" by blast
  qed simp
  also have "\<dots> = available_blocks p"
    by (simp add: one available_blocks_def sum_list_sum_nth lessThan_atLeast0)
  finally show ?thesis .
qed

text \<open>
  With no other thread, an allocation succeeds exactly when some block is available, gives out a free block and makes one
  fewer available; releasing that block makes the pool as it was, up to the place where the next search begins.
\<close>

theorem allocate_then_release:
  assumes "pool_ok p"
  shows "(fst (allocate_block p) = None \<longleftrightarrow> available_blocks p = 0)
     \<and> (\<forall>b p'. allocate_block p = (Some b, p') \<longrightarrow>
          blk_index b < mp_total p \<and> available_blocks p' + 1 = available_blocks p
          \<and> free_set (deallocate_block b p') = free_set p \<and> available_blocks (deallocate_block b p') = available_blocks p)"
proof -
  have fin: "finite (free_set p)" using assms by (auto simp: pool_ok_def intro: finite_subset)
  obtain r p' where rp: "allocate_block p = (r, p')" by (cases "allocate_block p") auto
  show ?thesis
  proof (cases r)
    case None
    then show ?thesis using allocate_block_result [OF assms] rp card_free_set [of p] by simp
  next
    case (Some b)
    then obtain idx where idx: "b = block_at p idx" "idx \<in> free_set p" "free_set p' = free_set p - {idx}"
        "p' = p\<lparr>mp_free := mp_free p', mp_head := (idx + 1) * 64\<rparr>" and ok: "pool_ok p'"
      using allocate_block_result [OF assms] rp by auto
    have eq: "mp_total p' = mp_total p" "mp_base p' = mp_base p" "mp_block_size p' = mp_block_size p" "mp_id p' = mp_id p"
      by (subst idx(4), simp)+
    have b: "b = block_at p' idx" using idx(1) eq by (simp add: block_at_def)
    have less: "idx < mp_total p'" using idx(2) assms eq by (auto simp: pool_ok_def)
    have "card (free_set p') + 1 = card (free_set p)" using fin idx(2) by (simp add: idx(3) card_Diff_singleton) (metis Suc_pred card_gt_0_iff empty_iff)
    moreover have "free_set (deallocate_block b p') = free_set p"
      using deallocate_block_result(1) [OF ok less] b idx(2,3) by auto
    moreover have "available_blocks p \<noteq> 0" using fin idx(2) by (auto simp: card_free_set [symmetric])
    ultimately show ?thesis using rp Some less eq b by (simp add: card_free_set [symmetric] block_at_def)
  qed
qed

theorem allocate_then_release_witness:
  "\<exists>b p'. allocate_block sample_pool = (Some b, p') \<and> available_blocks p' + 1 = available_blocks sample_pool"
proof -
  have ok: "pool_ok sample_pool" by (rule pool_new_ok(1) [OF sample_pool_new])
  have "available_blocks sample_pool \<noteq> 0"
    by (simp add: available_blocks_def sample_pool_def count_ones_def upt_conv_Cons)
  then show ?thesis using allocate_then_release [OF ok] by (cases "allocate_block sample_pool") (metis fst_conv option.exhaust)
qed

end
