(* ===== verification/MappedBuffer.thy ===== *)
theory MappedBuffer
  imports ZeroCopy
begin

text \<open>
  The memory-mapped byte ring, the copy channels and the manager of \<open>perf/zero_copy_io.rs\<close>. The ring is shown to be a queue
  of bytes when the copies stay inside the free part of it; the copies of \<open>SimdMem\<close> move up to 31 bytes more than they are
  asked to, so the condition is not empty, and an example shows what is lost without it.
\<close>

section \<open>The ring of bytes\<close>

record mapped =
  mb_base :: nat
  mb_size :: nat
  mb_read :: nat
  mb_write :: nat
  mb_id :: nat

definition mapped_new :: "(nat \<Rightarrow> nat option) \<Rightarrow> nat \<Rightarrow> nat \<Rightarrow> string + mapped" where
  "mapped_new map_anon buffer_id len =
     (case map_anon len of
        None \<Rightarrow> Inl ''Failed to create memory mapped buffer''
      | Some base \<Rightarrow> Inr \<lparr>mb_base = base, mb_size = len, mb_read = 0, mb_write = 0, mb_id = buffer_id\<rparr>)"

definition available_data :: "mapped \<Rightarrow> nat" where
  "available_data b =
     (if mb_read b \<le> mb_write b then mb_write b - mb_read b else mb_size b - (mb_read b - mb_write b))"

definition available_space :: "mapped \<Rightarrow> nat" where
  "available_space b = mb_size b - available_data b - 1"

text \<open>The data is a stretch of \<open>len\<close> bytes at \<open>src\<close>.\<close>

definition write_data :: "target \<Rightarrow> memory \<Rightarrow> mapped \<Rightarrow> nat \<Rightarrow> nat \<Rightarrow> ((string + nat) \<times> memory \<times> mapped) rust" where
  "write_data t m b src data_len =
     (let current_write = mb_write b; current_read = mb_read b;
          space = (if current_read \<le> current_write then mb_size b - (current_write - current_read) - 1
                   else current_read - current_write - 1)
      in if space < data_len then Some (Inl ''Insufficient buffer space'', m, b)
         else do {
           m' \<leftarrow> (if current_write + data_len \<le> mb_size b
                  then memcpy_simd_optimized t m (mb_base b + current_write) src data_len
                  else do {
                    let first_part = mb_size b - current_write;
                    let second_part = data_len - first_part;
                    m1 \<leftarrow> memcpy_simd_optimized t m (mb_base b + current_write) src first_part;
                    memcpy_simd_optimized t m1 (mb_base b) (src + first_part) second_part
                  });
           Some (Inr data_len, m', b\<lparr>mb_write := (current_write + data_len) mod mb_size b\<rparr>)
         })"

text \<open>The caller's buffer is a stretch of \<open>buffer_len\<close> bytes at \<open>dst\<close>.\<close>

definition read_data :: "target \<Rightarrow> memory \<Rightarrow> mapped \<Rightarrow> nat \<Rightarrow> nat \<Rightarrow> ((string + nat) \<times> memory \<times> mapped) rust" where
  "read_data t m b dst buffer_len =
     (let current_read = mb_read b; current_write = mb_write b;
          available = (if current_read \<le> current_write then current_write - current_read
                       else mb_size b - (current_read - current_write))
      in if available = 0 then Some (Inr 0, m, b)
         else let read_len = min buffer_len available
              in do {
                m' \<leftarrow> (if current_read + read_len \<le> mb_size b
                       then memcpy_simd_optimized t m dst (mb_base b + current_read) read_len
                       else do {
                         let first_part = mb_size b - current_read;
                         let second_part = read_len - first_part;
                         m1 \<leftarrow> memcpy_simd_optimized t m dst (mb_base b + current_read) first_part;
                         memcpy_simd_optimized t m1 (dst + first_part) (mb_base b) second_part
                       });
                Some (Inr read_len, m', b\<lparr>mb_read := (current_read + read_len) mod mb_size b\<rparr>)
              })"

section \<open>The bytes under way\<close>

definition mapped_ok :: "mapped \<Rightarrow> bool" where
  "mapped_ok b \<longleftrightarrow> mb_read b < mb_size b \<and> mb_write b < mb_size b"

definition pending :: "memory \<Rightarrow> mapped \<Rightarrow> u8 list" where
  "pending m b = map (\<lambda>i. m (mb_base b + (mb_read b + i) mod mb_size b)) [0..<available_data b]"

text \<open>A stretch outside the mapping, with room for what the copies move in excess.\<close>

definition clear_of :: "mapped \<Rightarrow> nat \<Rightarrow> nat \<Rightarrow> bool" where
  "clear_of b a len \<longleftrightarrow> a + len + 31 \<le> mb_base b \<or> mb_base b + mb_size b + 31 \<le> a"

text \<open>The copies of a write stay inside the mapping and off the bytes that have not been read.\<close>

definition write_fits :: "target \<Rightarrow> mapped \<Rightarrow> nat \<Rightarrow> bool" where
  "write_fits t b len \<longleftrightarrow>
     (if mb_write b + len \<le> mb_size b
      then mb_write b + copied t len \<le> (if mb_read b \<le> mb_write b then mb_size b else mb_read b)
      else copied t (mb_size b - mb_write b) = mb_size b - mb_write b
         \<and> copied t (len - (mb_size b - mb_write b)) \<le> mb_read b)"

lemma length_pending [simp]: "length (pending m b) = available_data b"
  by (simp add: pending_def)

lemma nth_pending: "i < available_data b \<Longrightarrow> pending m b ! i = m (mb_base b + (mb_read b + i) mod mb_size b)"
  by (simp add: pending_def)

lemma available_less: "mapped_ok b \<Longrightarrow> available_data b < mb_size b"
  by (auto simp: mapped_ok_def available_data_def)

lemma space_eq:
  "mapped_ok b \<Longrightarrow> (if mb_read b \<le> mb_write b then mb_size b - (mb_write b - mb_read b) - 1 else mb_read b - mb_write b - 1) = available_space b"
  by (auto simp: mapped_ok_def available_space_def available_data_def)

lemma wrap_add: "x < s \<Longrightarrow> y \<le> s \<Longrightarrow> (x + y) mod s = (if x + y < s then x + y else x + y - s)" for s :: nat
  by (simp add: mod_if le_mod_geq)

lemma position_of_data:
  assumes "mapped_ok b" "i < available_data b"
  defines "q \<equiv> (mb_read b + i) mod mb_size b"
  shows "if mb_read b \<le> mb_write b then mb_read b \<le> q \<and> q < mb_write b else mb_read b \<le> q \<and> q < mb_size b \<or> q < mb_write b"
proof -
  have "i \<le> mb_size b" using assms(2) available_less [OF assms(1)] by simp
  then show ?thesis
    using assms wrap_add [of "mb_read b" "mb_size b" i] by (auto simp: mapped_ok_def available_data_def q_def split: if_splits)
qed

lemma position_of_room:
  assumes "mapped_ok b" "j < available_space b + 1"
  shows "(mb_read b + (available_data b + j)) mod mb_size b = (mb_write b + j) mod mb_size b"
proof -
  have "mb_read b + available_data b = mb_write b \<or> mb_read b + available_data b = mb_write b + mb_size b"
    using assms(1) by (auto simp: mapped_ok_def available_data_def)
  then show ?thesis
  proof
    assume "mb_read b + available_data b = mb_write b + mb_size b"
    then have "mb_read b + (available_data b + j) = (mb_write b + j) + mb_size b" by simp
    then show ?thesis by (simp only: mod_add_self2)
  qed (simp add: add.assoc [symmetric])
qed

lemma advance_write:
  assumes "mapped_ok b" "len \<le> available_space b"
  defines "b' \<equiv> b\<lparr>mb_write := (mb_write b + len) mod mb_size b\<rparr>"
  shows "mapped_ok b'" "available_data b' = available_data b + len"
proof -
  have "len < mb_size b" using assms available_less [OF assms(1)] by (simp add: available_space_def)
  then have "(mb_write b + len) mod mb_size b = (if mb_write b + len < mb_size b then mb_write b + len else mb_write b + len - mb_size b)"
    using assms(1) by (intro wrap_add) (auto simp: mapped_ok_def)
  then show "mapped_ok b'" "available_data b' = available_data b + len"
    using assms by (auto simp: mapped_ok_def available_data_def available_space_def b'_def split: if_splits)
qed

lemma advance_read:
  assumes "mapped_ok b" "n \<le> available_data b"
  defines "b' \<equiv> b\<lparr>mb_read := (mb_read b + n) mod mb_size b\<rparr>"
  shows "mapped_ok b'" "available_data b' = available_data b - n" "pending m b' = drop n (pending m b)"
proof -
  have "n < mb_size b" using assms available_less [OF assms(1)] by simp
  then have w: "(mb_read b + n) mod mb_size b = (if mb_read b + n < mb_size b then mb_read b + n else mb_read b + n - mb_size b)"
    using assms(1) by (intro wrap_add) (auto simp: mapped_ok_def)
  show "mapped_ok b'" using assms(1) by (simp add: mapped_ok_def b'_def)
  show av: "available_data b' = available_data b - n"
    using assms w by (auto simp: mapped_ok_def available_data_def b'_def split: if_splits)
  show "pending m b' = drop n (pending m b)"
    by (rule nth_equalityI) (simp_all add: av nth_pending, simp add: b'_def mod_simps add.assoc)
qed

section \<open>Writes and reads as queue operations\<close>

lemma clear_of_apart:
  assumes "clear_of b a len" "k + n \<le> len" "q + n' \<le> mb_size b" "c \<le> n + 31" "c \<le> n' + 31"
  shows "apart (mb_base b + q) (a + k) c" "apart (a + k) (mb_base b + q) c"
  using assms by (auto simp: clear_of_def apart_def)

text \<open>The memory after a write: the bytes are at their places, and the other bytes of the ring are untouched.\<close>

lemma write_memory:
  assumes ok: "mapped_ok b" and fits: "write_fits t b len" and len: "len \<le> available_space b" and clear: "clear_of b src len"
  shows "\<exists>m'. write_data t m b src len = Some (Inr len, m', b\<lparr>mb_write := (mb_write b + len) mod mb_size b\<rparr>)
     \<and> (\<forall>j < len. m' (mb_base b + (mb_write b + j) mod mb_size b) = m (src + j))
     \<and> (\<forall>i < available_data b. m' (mb_base b + (mb_read b + i) mod mb_size b) = m (mb_base b + (mb_read b + i) mod mb_size b))
     \<and> (\<forall>x. x < mb_base b \<or> mb_base b + mb_size b \<le> x \<longrightarrow> m' x = m x)"
proof -
  have enough: "\<not> (if mb_read b \<le> mb_write b then mb_size b - (mb_write b - mb_read b) - 1 else mb_read b - mb_write b - 1) < len"
    using len by (simp add: space_eq [OF ok] del: One_nat_def)
  show ?thesis
  proof (cases "mb_write b + len \<le> mb_size b")
    case True
    have ap: "apart (mb_base b + mb_write b) (src + 0) (copied t len)"
      using clear True copied_bounds [of len t] by (intro clear_of_apart(1) [OF clear, where n = len and n' = len]) auto
    define m' where "m' = copy_bytes m (mb_base b + mb_write b) src (copied t len)"
    have run: "write_data t m b src len = Some (Inr len, m', b\<lparr>mb_write := (mb_write b + len) mod mb_size b\<rparr>)"
      using True enough ap by (simp add: write_data_def Let_def memcpy_moves m'_def)
    have new: "m' (mb_base b + (mb_write b + j) mod mb_size b) = m (src + j)" if "j < len" for j
      using that True copied_ge [of len t] by (simp add: m'_def copy_bytes_def mem_write_def)
    have old: "m' (mb_base b + q) = m (mb_base b + q)" if "q < mb_write b \<or> mb_write b + copied t len \<le> q" for q
      using that by (auto simp: m'_def copy_bytes_def mem_write_def)
    have "m' (mb_base b + (mb_read b + i) mod mb_size b) = m (mb_base b + (mb_read b + i) mod mb_size b)" if "i < available_data b" for i
      using position_of_data [OF ok that] fits True by (intro old) (auto simp: write_fits_def split: if_splits)
    moreover have "m' x = m x" if "x < mb_base b \<or> mb_base b + mb_size b \<le> x" for x
      using that fits True ok by (auto simp: m'_def copy_bytes_def mem_write_def write_fits_def mapped_ok_def split: if_splits)
    ultimately show ?thesis using run new by blast
  next
    case False
    define f g where "f = mb_size b - mb_write b" and "g = len - f"
    have rw: "mb_read b \<le> mb_write b" using False len ok by (auto simp: mapped_ok_def available_space_def available_data_def split: if_splits)
    have fg: "copied t f = f" "copied t g \<le> mb_read b" "f + g = len" "mb_write b + f = mb_size b" "mb_write b < mb_size b" "f \<le> len"
      using fits False ok by (auto simp: write_fits_def f_def g_def mapped_ok_def)
    have ap1: "apart (mb_base b + mb_write b) (src + 0) (copied t f)"
      using clear fg by (intro clear_of_apart(1) [OF clear, where n = f and n' = f]) auto
    have ap2: "apart (mb_base b + 0) (src + f) (copied t g)"
      using clear fg copied_bounds [of g t] rw ok
      by (intro clear_of_apart(1) [OF clear, where n = g and n' = "mb_read b"]) (auto simp: mapped_ok_def)
    define m1 where "m1 = copy_bytes m (mb_base b + mb_write b) src f"
    define m' where "m' = copy_bytes m1 (mb_base b) (src + f) (copied t g)"
    have run: "write_data t m b src len = Some (Inr len, m', b\<lparr>mb_write := (mb_write b + len) mod mb_size b\<rparr>)"
      using False enough ap1 ap2 fg(1) by (simp add: write_data_def Let_def memcpy_moves m1_def m'_def f_def [symmetric] g_def [symmetric])
    have at1: "m1 x = (if mb_base b + mb_write b \<le> x \<and> x < mb_base b + mb_size b then m (src + (x - (mb_base b + mb_write b))) else m x)" for x
      using fg(4,5) by (auto simp: m1_def copy_bytes_def mem_write_def)
    have src1: "m1 (src + f + k) = m (src + f + k)" if "k < copied t g" for k
      using that clear fg copied_bounds [of g t] by (auto simp: at1 clear_of_def)
    have at': "m' x = (if mb_base b \<le> x \<and> x < mb_base b + copied t g then m (src + f + (x - mb_base b)) else m1 x)" for x
      using src1 [of "x - mb_base b"] by (auto simp: m'_def copy_bytes_def mem_write_def)
    have new: "m' (mb_base b + (mb_write b + j) mod mb_size b) = m (src + j)" if "j < len" for j
    proof (cases "j < f")
      case True then show ?thesis using fg rw by (auto simp: at' at1)
    next
      case False
      have "(mb_write b + j) mod mb_size b = j - f"
        using False that fg wrap_add [of "mb_write b" "mb_size b" j] len available_less [OF ok] by (auto simp: available_space_def)
      then show ?thesis using False that fg copied_ge [of g t] by (auto simp: at')
    qed
    have "m' (mb_base b + (mb_read b + i) mod mb_size b) = m (mb_base b + (mb_read b + i) mod mb_size b)" if "i < available_data b" for i
      using position_of_data [OF ok that] rw fg by (auto simp: at' at1)
    moreover have "m' x = m x" if "x < mb_base b \<or> mb_base b + mb_size b \<le> x" for x
      using that rw fg by (auto simp: at' at1)
    ultimately show ?thesis using run new by blast
  qed
qed

lemma write_queues:
  assumes "mapped_ok b" "write_fits t b len" "len \<le> available_space b" "clear_of b src len"
  shows "\<exists>m' b'. write_data t m b src len = Some (Inr len, m', b') \<and> mapped_ok b' \<and> pending m' b' = pending m b @ mem_read m src len"
proof -
  obtain m' where m': "write_data t m b src len = Some (Inr len, m', b\<lparr>mb_write := (mb_write b + len) mod mb_size b\<rparr>)"
      "\<And>j. j < len \<Longrightarrow> m' (mb_base b + (mb_write b + j) mod mb_size b) = m (src + j)"
      "\<And>i. i < available_data b \<Longrightarrow> m' (mb_base b + (mb_read b + i) mod mb_size b) = m (mb_base b + (mb_read b + i) mod mb_size b)"
    using write_memory [OF assms, of m] by blast
  define b' where "b' = b\<lparr>mb_write := (mb_write b + len) mod mb_size b\<rparr>"
  have av: "available_data b' = available_data b + len" and ok: "mapped_ok b'"
    using advance_write [OF assms(1,3)] by (simp_all add: b'_def)
  have same: "mb_base b' = mb_base b" "mb_read b' = mb_read b" "mb_size b' = mb_size b" by (simp_all add: b'_def)
  have "pending m' b' = pending m b @ mem_read m src len"
  proof (rule nth_equalityI)
    fix i assume "i < length (pending m' b')"
    then have i: "i < available_data b + len" by (simp add: av)
    show "pending m' b' ! i = (pending m b @ mem_read m src len) ! i"
    proof (cases "i < available_data b")
      case True then show ?thesis using m'(3) i av by (simp add: nth_pending same nth_append)
    next
      case False
      then obtain j where j: "i = available_data b + j" "j < len" using i by (metis le_add_diff_inverse linorder_not_less nat_add_left_cancel_less)
      then show ?thesis using m'(2) [OF j(2)] position_of_room [OF assms(1), of j] assms(3) i av by (simp add: nth_pending same nth_append)
    qed
  qed (simp add: av)
  then show ?thesis using m'(1) ok by (auto simp: b'_def)
qed

lemma read_queues:
  assumes ok: "mapped_ok b" and clear: "clear_of b dst len"
  shows "\<exists>m' b'. read_data t m b dst len = Some (Inr (min len (available_data b)), m', b') \<and> mapped_ok b'
     \<and> mem_read m' dst (min len (available_data b)) = take (min len (available_data b)) (pending m b)
     \<and> pending m' b' = drop (min len (available_data b)) (pending m b)"
proof (cases "available_data b = 0")
  case True
  then show ?thesis using ok by (auto simp: read_data_def available_data_def pending_def mem_read_def)
next
  case False
  define n where "n = min len (available_data b)"
  have n: "n \<le> available_data b" "n < mb_size b" "n \<le> len" using available_less [OF ok] by (auto simp: n_def)
  define b' where "b' = b\<lparr>mb_read := (mb_read b + n) mod mb_size b\<rparr>"
  have av: "\<not> (if mb_read b \<le> mb_write b then mb_write b - mb_read b else mb_size b - (mb_read b - mb_write b)) = 0"
    "(if mb_read b \<le> mb_write b then mb_write b - mb_read b else mb_size b - (mb_read b - mb_write b)) = available_data b"
    using False by (auto simp: available_data_def)
  have "\<exists>m'. read_data t m b dst len = Some (Inr n, m', b')
      \<and> (\<forall>j < n. m' (dst + j) = m (mb_base b + (mb_read b + j) mod mb_size b))
      \<and> (\<forall>q < mb_size b. m' (mb_base b + q) = m (mb_base b + q))"
  proof (cases "mb_read b + n \<le> mb_size b")
    case True
    have ap: "apart (dst + 0) (mb_base b + mb_read b) (copied t n)"
      using clear True n copied_bounds [of n t] by (intro clear_of_apart(2) [OF clear, where n = n and n' = n]) auto
    define m' where "m' = copy_bytes m dst (mb_base b + mb_read b) (copied t n)"
    have "read_data t m b dst len = Some (Inr n, m', b')"
      using True av ap False by (simp add: read_data_def Let_def n_def [symmetric] memcpy_moves m'_def b'_def)
    moreover have "m' (dst + j) = m (mb_base b + (mb_read b + j) mod mb_size b)" if "j < n" for j
      using that True copied_ge [of n t] by (simp add: m'_def copy_bytes_def mem_write_def add.assoc)
    moreover have "m' (mb_base b + q) = m (mb_base b + q)" if "q < mb_size b" for q
      using that clear n copied_bounds [of n t] by (auto simp: m'_def copy_bytes_def mem_write_def clear_of_def)
    ultimately show ?thesis by blast
  next
    case cross: False
    define f g where "f = mb_size b - mb_read b" and "g = n - f"
    have fg: "f + g = n" "mb_read b + f = mb_size b" "g \<le> mb_size b" "mb_read b < mb_size b"
      using cross ok n by (auto simp: f_def g_def mapped_ok_def)
    have ap1: "apart (dst + 0) (mb_base b + mb_read b) (copied t f)"
      using clear fg n copied_bounds [of f t] by (intro clear_of_apart(2) [OF clear, where n = f and n' = f]) auto
    have ap2: "apart (dst + f) (mb_base b + 0) (copied t g)"
      using clear fg n copied_bounds [of g t] by (intro clear_of_apart(2) [OF clear, where n = g and n' = g]) auto
    define m1 where "m1 = copy_bytes m dst (mb_base b + mb_read b) (copied t f)"
    define m' where "m' = copy_bytes m1 (dst + f) (mb_base b) (copied t g)"
    have "read_data t m b dst len = Some (Inr n, m', b')"
      using cross av ap1 ap2 False
      by (simp add: read_data_def Let_def n_def [symmetric] f_def [symmetric] g_def [symmetric] memcpy_moves m1_def m'_def b'_def)
    moreover have m1q: "m1 (mb_base b + q) = m (mb_base b + q)" if "q < mb_size b + 31" for q
      using that clear fg n copied_bounds [of f t] by (auto simp: m1_def copy_bytes_def mem_write_def clear_of_def)
    moreover have "m' (dst + j) = m (mb_base b + (mb_read b + j) mod mb_size b)" if "j < n" for j
    proof (cases "j < f")
      case True
      then show ?thesis using fg copied_ge [of f t] by (simp add: m'_def m1_def copy_bytes_def mem_write_def add.assoc)
    next
      case jf: False
      have "(mb_read b + j) mod mb_size b = j - f" using jf that fg n wrap_add [of "mb_read b" "mb_size b" j] by auto
      moreover have "m' (dst + j) = m1 (mb_base b + (j - f))"
        using jf that fg copied_ge [of g t] by (auto simp: m'_def copy_bytes_def mem_write_def)
      ultimately show ?thesis using m1q [of "j - f"] that n by simp
    qed
    moreover have "m' (mb_base b + q) = m (mb_base b + q)" if "q < mb_size b" for q
      using that clear n fg copied_bounds [of g t] m1q [of q] by (auto simp: m'_def copy_bytes_def mem_write_def clear_of_def)
    ultimately show ?thesis by blast
  qed
  then obtain m' where m': "read_data t m b dst len = Some (Inr n, m', b')"
      "\<And>j. j < n \<Longrightarrow> m' (dst + j) = m (mb_base b + (mb_read b + j) mod mb_size b)"
      "\<And>q. q < mb_size b \<Longrightarrow> m' (mb_base b + q) = m (mb_base b + q)" by blast
  have "mem_read m' dst n = take n (pending m b)"
    using n m'(2) by (intro nth_equalityI) (auto simp: nth_pending)
  moreover have "pending m' b' = pending m b'"
    using m'(3) ok by (auto simp: pending_def b'_def mapped_ok_def)
  ultimately show ?thesis using m'(1) advance_read [OF ok n(1)] by (auto simp: n_def b'_def)
qed

text \<open>
  The mapped buffer is a queue of bytes. A write that exceeds the space is refused and changes nothing; one that fits, and
  whose copies stay clear of the unread bytes, appends exactly its data. A read hands over the oldest bytes, as many as there
  are or as the caller has room for, and removes them.
\<close>

theorem mapped_buffer_is_a_queue:
  assumes "mapped_ok b" "clear_of b src len" "clear_of b dst n"
  shows "(available_space b < len \<longrightarrow> write_data t m b src len = Some (Inl ''Insufficient buffer space'', m, b))
     \<and> (len \<le> available_space b \<and> write_fits t b len \<longrightarrow>
          (\<exists>m' b'. write_data t m b src len = Some (Inr len, m', b') \<and> mapped_ok b'
             \<and> pending m' b' = pending m b @ mem_read m src len))
     \<and> (\<exists>m' b'. read_data t m b dst n = Some (Inr (min n (available_data b)), m', b') \<and> mapped_ok b'
          \<and> mem_read m' dst (min n (available_data b)) @ pending m' b' = pending m b)"
proof (intro conjI impI)
  assume "available_space b < len"
  then have "(if mb_read b \<le> mb_write b then mb_size b - (mb_write b - mb_read b) - 1 else mb_read b - mb_write b - 1) < len"
    by (simp only: space_eq [OF assms(1)])
  then show "write_data t m b src len = Some (Inl ''Insufficient buffer space'', m, b)" by (simp add: write_data_def Let_def del: One_nat_def)
next
  assume "len \<le> available_space b \<and> write_fits t b len"
  then show "\<exists>m' b'. write_data t m b src len = Some (Inr len, m', b') \<and> mapped_ok b' \<and> pending m' b' = pending m b @ mem_read m src len"
    using write_queues [OF assms(1) _ _ assms(2)] by blast
next
  obtain m' b' where "read_data t m b dst n = Some (Inr (min n (available_data b)), m', b')" "mapped_ok b'"
      "mem_read m' dst (min n (available_data b)) = take (min n (available_data b)) (pending m b)"
      "pending m' b' = drop (min n (available_data b)) (pending m b)"
    using read_queues [OF assms(1,3)] by blast
  then show "\<exists>m' b'. read_data t m b dst n = Some (Inr (min n (available_data b)), m', b') \<and> mapped_ok b'
      \<and> mem_read m' dst (min n (available_data b)) @ pending m' b' = pending m b" by (metis append_take_drop_id)
qed

definition sample_ring :: mapped where
  "sample_ring = \<lparr>mb_base = 1000, mb_size = 64, mb_read = 0, mb_write = 0, mb_id = 0\<rparr>"

theorem mapped_buffer_is_a_queue_witness:
  "\<exists>m' b'. write_data (X86_64 False) (\<lambda>x. of_nat x) sample_ring 100 23 = Some (Inr 23, m', b')
     \<and> pending m' b' = pending (\<lambda>x. of_nat x) sample_ring @ mem_read (\<lambda>x. of_nat x) 100 23"
  using mapped_buffer_is_a_queue [of sample_ring 100 23 200 30 "X86_64 False" "\<lambda>x. of_nat x"]
  by (auto simp: mapped_ok_def clear_of_def write_fits_def copied_def available_space_def available_data_def sample_ring_def)

text \<open>
  A write that fits the space but whose copy runs over: ten bytes wait at positions 6 to 15 of a ring of 16, five bytes are
  written at its beginning, and two of the waiting bytes are gone.
\<close>

theorem mapped_write_corrupts:
  fixes m :: memory
  defines "b \<equiv> \<lparr>mb_base = 1000, mb_size = 16, mb_read = 6, mb_write = 0, mb_id = 0\<rparr>"
  shows "5 \<le> available_space b
     \<and> (\<exists>m' b'. write_data t m b 100 5 = Some (Inr 5, m', b') \<and> pending m b ! 0 = m 1006 \<and> pending m' b' ! 0 = m 106)"
proof -
  have c: "copied t 5 = 8" by (simp add: copied_def)
  have "memcpy_simd_optimized t m 1000 100 5 = Some (copy_bytes m 1000 100 8)"
    using memcpy_moves [of 1000 100 t 5 m] by (simp add: c apart_def)
  then show ?thesis
    by (simp add: b_def write_data_def available_space_def available_data_def pending_def upt_conv_Cons copy_bytes_def mem_write_def)
qed

section \<open>Copy channels\<close>

record dma_manager =
  dma_channels :: nat
  dma_allocator :: nat
  dma_bytes :: u64
  dma_completed :: u64

definition dma_new :: "nat \<Rightarrow> dma_manager" where
  "dma_new num_channels = \<lparr>dma_channels = num_channels, dma_allocator = 0, dma_bytes = 0, dma_completed = 0\<rparr>"

definition channel_transfer :: "target \<Rightarrow> memory \<Rightarrow> nat \<Rightarrow> nat \<Rightarrow> nat \<Rightarrow> (nat \<times> memory) rust" where
  "channel_transfer t m src dst transfer_size = do {
     m' \<leftarrow> memcpy_simd_optimized t m dst src transfer_size;
     Some (transfer_size, m')
   }"

text \<open>The channel is chosen round robin; with no channel the remainder panics.\<close>

definition dma_transfer :: "target \<Rightarrow> memory \<Rightarrow> dma_manager \<Rightarrow> nat \<Rightarrow> nat \<Rightarrow> nat \<Rightarrow> nat \<Rightarrow> ((string + nat) \<times> memory \<times> dma_manager) rust" where
  "dma_transfer t m d src src_len dst dst_len =
     (if src_len \<noteq> dst_len then Some (Inl ''Source and destination sizes don't match'', m, d)
      else if dma_channels d = 0 then None
      else do {
        (transferred, m') \<leftarrow> channel_transfer t m src dst src_len;
        Some (Inr transferred, m', d\<lparr>dma_allocator := dma_allocator d + 1, dma_bytes := dma_bytes d + of_nat transferred,
                dma_completed := dma_completed d + 1\<rparr>)
      })"

lemma dma_transfer_copies:
  assumes "dma_channels d \<noteq> 0" "dst + copied t len \<le> src \<or> src + copied t len \<le> dst"
  shows "\<exists>m' d'. dma_transfer t m d src len dst len = Some (Inr len, m', d') \<and> mem_read m' dst len = mem_read m src len
     \<and> dma_bytes d' = dma_bytes d + of_nat len \<and> dma_completed d' = dma_completed d + 1"
proof -
  have "memcpy_simd_optimized t m dst src len = Some (copy_bytes m dst src (copied t len))"
    by (rule memcpy_moves) (use assms(2) in \<open>simp add: apart_def\<close>)
  moreover have "mem_read (copy_bytes m dst src (copied t len)) dst len = mem_read m src len"
    using copied_ge [of len t] by (simp add: mem_read_eq copy_bytes_def mem_write_def)
  ultimately show ?thesis using assms(1) by (simp add: dma_transfer_def channel_transfer_def)
qed

section \<open>The manager\<close>

record zc_manager =
  zc_pools :: "mem_pool list"
  zc_buffers :: "mapped list"
  zc_dma :: dma_manager
  zc_allocated :: u64
  zc_freed :: u64

text \<open>Creating the pools and buffers in order; the first mapping that fails ends the construction.\<close>

fun new_buffers :: "(nat \<Rightarrow> nat option) \<Rightarrow> nat list \<Rightarrow> string + mapped list" where
  "new_buffers map_anon [] = Inr []"
| "new_buffers map_anon (i # is) =
     (case mapped_new map_anon i (256 * 1024 * 1024) of
        Inl e \<Rightarrow> Inl e
      | Inr b \<Rightarrow> (case new_buffers map_anon is of Inl e \<Rightarrow> Inl e | Inr bs \<Rightarrow> Inr (b # bs)))"

definition or_fail :: "(string + 'a) rust \<Rightarrow> ('a \<Rightarrow> (string + 'b) rust) \<Rightarrow> (string + 'b) rust" where
  "or_fail x f = (case x of None \<Rightarrow> None | Some (Inl e) \<Rightarrow> Some (Inl e) | Some (Inr v) \<Rightarrow> f v)"

definition zc_manager_new :: "(nat \<Rightarrow> nat option) \<Rightarrow> (string + zc_manager) rust" where
  "zc_manager_new map_anon =
     or_fail (shared_pool_new map_anon 0 (1024 * 1024 * 1024) (64 * 1024)) (\<lambda>small.
     or_fail (shared_pool_new map_anon 1 (4 * 1024 * 1024 * 1024) (1024 * 1024)) (\<lambda>medium.
     or_fail (shared_pool_new map_anon 2 (8 * 1024 * 1024 * 1024) (16 * 1024 * 1024)) (\<lambda>large.
     or_fail (Some (new_buffers map_anon [0..<8])) (\<lambda>buffers.
     Some (Inr \<lparr>zc_pools = [small, medium, large], zc_buffers = buffers, zc_dma = dma_new 16, zc_allocated = 0, zc_freed = 0\<rparr>)))))"

definition pool_for :: "nat \<Rightarrow> nat" where
  "pool_for len = (if len \<le> 64 * 1024 then 0 else if len \<le> 1024 * 1024 then 1 else 2)"

definition zc_allocate :: "nat \<Rightarrow> zc_manager \<Rightarrow> block option \<times> zc_manager" where
  "zc_allocate len z =
     (case allocate_block (zc_pools z ! pool_for len) of
        (Some b, p) \<Rightarrow> (Some b, z\<lparr>zc_pools := (zc_pools z)[pool_for len := p], zc_allocated := zc_allocated z + 1\<rparr>)
      | (None, p) \<Rightarrow> (None, z\<lparr>zc_pools := (zc_pools z)[pool_for len := p]\<rparr>))"

definition zc_deallocate :: "block \<Rightarrow> zc_manager \<Rightarrow> zc_manager" where
  "zc_deallocate b z =
     (if blk_pool_id b < length (zc_pools z)
      then z\<lparr>zc_pools := (zc_pools z)[blk_pool_id b := deallocate_block b (zc_pools z ! blk_pool_id b)], zc_freed := zc_freed z + 1\<rparr>
      else z)"

definition get_mmap_buffer :: "zc_manager \<Rightarrow> nat \<Rightarrow> mapped option" where
  "get_mmap_buffer z i = (if i < length (zc_buffers z) then Some (zc_buffers z ! i) else None)"

text \<open>A call of the manager; the blocks given out and not released are kept beside it.\<close>

inductive zc_step :: "zc_manager \<times> block list \<Rightarrow> zc_manager \<times> block list \<Rightarrow> bool" where
  ZcAllocate: "zc_allocate len z = (Some b, z') \<Longrightarrow> zc_step (z, bs) (z', b # bs)"
| ZcRefuse: "zc_allocate len z = (None, z') \<Longrightarrow> zc_step (z, bs) (z', bs)"
| ZcRelease: "b \<in> set bs \<Longrightarrow> zc_step (z, bs) (zc_deallocate b z, remove1 b bs)"

definition pool_sizes :: "nat list" where
  "pool_sizes = [64 * 1024, 1024 * 1024, 16 * 1024 * 1024]"

definition zc_ok :: "zc_manager \<Rightarrow> block list \<Rightarrow> bool" where
  "zc_ok z bs \<longleftrightarrow> length (zc_pools z) = 3
     \<and> (\<forall>k < 3. pool_ok (zc_pools z ! k) \<and> mp_id (zc_pools z ! k) = k \<and> mp_block_size (zc_pools z ! k) = pool_sizes ! k)
     \<and> distinct bs
     \<and> (\<forall>b \<in> set bs. blk_pool_id b < 3 \<and> b = block_at (zc_pools z ! blk_pool_id b) (blk_index b)
          \<and> blk_index b < mp_total (zc_pools z ! blk_pool_id b) \<and> blk_index b \<notin> free_set (zc_pools z ! blk_pool_id b))"

lemma or_fail_Inr: "or_fail x f = Some (Inr v) \<longleftrightarrow> (\<exists>u. x = Some (Inr u) \<and> f u = Some (Inr v))"
  by (auto simp: or_fail_def split: option.splits sum.splits)

lemma pool_new_size:
  "shared_pool_new map_anon k region len = Some (Inr p) \<Longrightarrow> mp_block_size p = align64 len"
  by (auto simp: shared_pool_new_def Let_def split: if_splits option.splits)

lemma less_3: "(k :: nat) < 3 \<longleftrightarrow> k = 0 \<or> k = 1 \<or> k = 2"
  by auto

lemma zc_new_ok:
  assumes "zc_manager_new map_anon = Some (Inr z)"
  shows "zc_ok z []"
proof -
  obtain s m l bs where p: "shared_pool_new map_anon 0 (1024 * 1024 * 1024) (64 * 1024) = Some (Inr s)"
      "shared_pool_new map_anon 1 (4 * 1024 * 1024 * 1024) (1024 * 1024) = Some (Inr m)"
      "shared_pool_new map_anon 2 (8 * 1024 * 1024 * 1024) (16 * 1024 * 1024) = Some (Inr l)" and z: "zc_pools z = [s, m, l]"
    using assms unfolding zc_manager_new_def or_fail_Inr by auto
  have "mp_block_size s = 64 * 1024" "mp_block_size m = 1024 * 1024" "mp_block_size l = 16 * 1024 * 1024"
    using p [THEN pool_new_size] by (simp_all add: align64_def)
  then show ?thesis
    using pool_new_ok(1,7) [OF p(1)] pool_new_ok(1,7) [OF p(2)] pool_new_ok(1,7) [OF p(3)]
    by (auto simp: zc_ok_def z pool_sizes_def less_3)
qed

lemma pool_for_less: "pool_for len < 3"
  by (simp add: pool_for_def)

lemma zc_allocate_some:
  assumes "zc_ok z bs" "zc_allocate len z = (Some b, z')"
  obtains idx p' where "b = block_at (zc_pools z ! pool_for len) idx" "idx \<in> free_set (zc_pools z ! pool_for len)"
    "free_set p' = free_set (zc_pools z ! pool_for len) - {idx}" "pool_ok p'"
    "zc_pools z' = (zc_pools z)[pool_for len := p']"
    "mp_id p' = mp_id (zc_pools z ! pool_for len)" "mp_base p' = mp_base (zc_pools z ! pool_for len)"
    "mp_block_size p' = mp_block_size (zc_pools z ! pool_for len)" "mp_total p' = mp_total (zc_pools z ! pool_for len)"
proof -
  obtain p' where a: "allocate_block (zc_pools z ! pool_for len) = (Some b, p')" and z': "zc_pools z' = (zc_pools z)[pool_for len := p']"
    using assms(2) by (auto simp: zc_allocate_def split: prod.splits option.splits)
  have ok: "pool_ok (zc_pools z ! pool_for len)" using assms(1) pool_for_less by (auto simp: zc_ok_def)
  obtain idx where idx: "b = block_at (zc_pools z ! pool_for len) idx" "idx \<in> free_set (zc_pools z ! pool_for len)"
      "free_set p' = free_set (zc_pools z ! pool_for len) - {idx}" "pool_ok p'"
      and p': "p' = (zc_pools z ! pool_for len)\<lparr>mp_free := mp_free p', mp_head := (idx + 1) * 64\<rparr>"
    using allocate_block_result [OF ok] a by auto
  have "mp_id p' = mp_id (zc_pools z ! pool_for len)" "mp_base p' = mp_base (zc_pools z ! pool_for len)"
    "mp_block_size p' = mp_block_size (zc_pools z ! pool_for len)" "mp_total p' = mp_total (zc_pools z ! pool_for len)"
    by (subst p', simp)+
  then show ?thesis using that idx z' by blast
qed

lemma block_at_fields: "mp_id p' = mp_id p \<Longrightarrow> mp_base p' = mp_base p \<Longrightarrow> mp_block_size p' = mp_block_size p \<Longrightarrow> block_at p' idx = block_at p idx"
  by (simp add: block_at_def)

lemma zc_step_ok: "zc_step s s' \<Longrightarrow> zc_ok (fst s) (snd s) \<Longrightarrow> zc_ok (fst s') (snd s')"
proof (induction rule: zc_step.induct)
  case (ZcAllocate len z b z' bs)
  then have ok: "zc_ok z bs" by simp
  obtain idx p' where a: "b = block_at (zc_pools z ! pool_for len) idx" "idx \<in> free_set (zc_pools z ! pool_for len)"
    "free_set p' = free_set (zc_pools z ! pool_for len) - {idx}" "pool_ok p'" "zc_pools z' = (zc_pools z)[pool_for len := p']"
    "mp_id p' = mp_id (zc_pools z ! pool_for len)" "mp_base p' = mp_base (zc_pools z ! pool_for len)"
    "mp_block_size p' = mp_block_size (zc_pools z ! pool_for len)" "mp_total p' = mp_total (zc_pools z ! pool_for len)"
    using zc_allocate_some [OF ok ZcAllocate.hyps] by blast
  define k where "k = pool_for len"
  have k: "k < 3" "length (zc_pools z) = 3" "mp_id (zc_pools z ! k) = k" "idx < mp_total (zc_pools z ! k)"
    using ok pool_for_less [of len] a(2) by (auto simp: zc_ok_def k_def pool_ok_def)
  have b: "blk_pool_id b = k" "blk_index b = idx" using a(1) k(3) by (simp_all add: block_at_def k_def)
  have new: "b \<notin> set bs" using ok a(2) b by (auto simp: zc_ok_def k_def)
  have pools: "zc_pools z' ! j = (if j = k then p' else zc_pools z ! j)" if "j < 3" for j
    using that k by (simp add: a(5) k_def [symmetric] nth_list_update)
  have sub: "free_set (zc_pools z' ! j) \<subseteq> free_set (zc_pools z ! j)" if "j < 3" for j
    using pools [OF that] a(3) by (auto simp: k_def)
  have same: "mp_id (zc_pools z' ! j) = mp_id (zc_pools z ! j)" "mp_total (zc_pools z' ! j) = mp_total (zc_pools z ! j)"
    "mp_block_size (zc_pools z' ! j) = mp_block_size (zc_pools z ! j)" "block_at (zc_pools z' ! j) i = block_at (zc_pools z ! j) i" if "j < 3" for j i
    using pools [OF that] a(6-9) by (auto simp: k_def intro: block_at_fields)
  have "pool_ok (zc_pools z' ! j)" if "j < 3" for j using pools [OF that] a(4) ok that by (auto simp: zc_ok_def)
  moreover have "length (zc_pools z') = 3" using k(2) a(5) by simp
  moreover have "b = block_at (zc_pools z' ! k) idx" "idx \<notin> free_set (zc_pools z' ! k)"
    using a(1,3) same(4) [OF k(1)] pools [OF k(1)] by (simp_all add: k_def)
  ultimately show ?case
    using ok new b k same sub by (auto simp: zc_ok_def) (metis subsetD)+
next
  case (ZcRefuse len z z' bs)
  then have ok: "zc_ok z bs" by simp
  have pok: "pool_ok (zc_pools z ! pool_for len)" using ok pool_for_less by (auto simp: zc_ok_def)
  have "zc_pools z' = (zc_pools z)[pool_for len := zc_pools z ! pool_for len]"
    using ZcRefuse.hyps allocate_block_result [OF pok] by (auto simp: zc_allocate_def split: prod.splits option.splits)
  then have "zc_pools z' = zc_pools z" by simp
  then show ?case using ok by (simp add: zc_ok_def)
next
  case (ZcRelease b bs z)
  then have ok: "zc_ok z bs" by simp
  define k where "k = blk_pool_id b"
  have k: "k < 3" "length (zc_pools z) = 3" "b = block_at (zc_pools z ! k) (blk_index b)" "blk_index b < mp_total (zc_pools z ! k)"
    "pool_ok (zc_pools z ! k)" using ok ZcRelease.hyps by (auto simp: zc_ok_def k_def)
  define p' where "p' = deallocate_block b (zc_pools z ! k)"
  have p': "free_set p' = insert (blk_index b) (free_set (zc_pools z ! k))" "pool_ok p'"
    using deallocate_block_result [OF k(5,4)] k(3) by (simp_all add: p'_def)
  have shape: "mp_id p' = mp_id (zc_pools z ! k)" "mp_base p' = mp_base (zc_pools z ! k)"
    "mp_block_size p' = mp_block_size (zc_pools z ! k)" "mp_total p' = mp_total (zc_pools z ! k)"
    by (simp_all add: p'_def deallocate_block_def Let_def)
  define z' where "z' = zc_deallocate b z"
  have pools: "zc_pools z' ! j = (if j = k then p' else zc_pools z ! j)" if "j < 3" for j
    using that k by (simp add: z'_def zc_deallocate_def k_def [symmetric] p'_def nth_list_update)
  have same: "mp_id (zc_pools z' ! j) = mp_id (zc_pools z ! j)" "mp_total (zc_pools z' ! j) = mp_total (zc_pools z ! j)"
    "mp_block_size (zc_pools z' ! j) = mp_block_size (zc_pools z ! j)" "block_at (zc_pools z' ! j) i = block_at (zc_pools z ! j) i" if "j < 3" for j i
    using pools [OF that] shape by (auto intro: block_at_fields)
  have len: "length (zc_pools z') = 3" using k by (simp add: z'_def zc_deallocate_def)
  have "zc_ok z' (remove1 b bs)"
    unfolding zc_ok_def
  proof (intro conjI allI impI ballI)
    show "length (zc_pools z') = 3" by (rule len)
    show "distinct (remove1 b bs)" using ok by (simp add: zc_ok_def)
    fix j assume j: "j < (3 :: nat)"
    show "pool_ok (zc_pools z' ! j)" using pools [OF j] p'(2) ok j by (auto simp: zc_ok_def)
    show "mp_id (zc_pools z' ! j) = j" "mp_block_size (zc_pools z' ! j) = pool_sizes ! j" using same [OF j] ok j by (auto simp: zc_ok_def)
  next
    fix c assume "c \<in> set (remove1 b bs)"
    then have c: "c \<in> set bs" "c \<noteq> b" using ok by (auto simp: zc_ok_def)
    have cz: "blk_pool_id c < 3" "c = block_at (zc_pools z ! blk_pool_id c) (blk_index c)"
      "blk_index c < mp_total (zc_pools z ! blk_pool_id c)" "blk_index c \<notin> free_set (zc_pools z ! blk_pool_id c)"
      using ok c(1) by (auto simp: zc_ok_def)
    show "blk_pool_id c < 3" by (rule cz(1))
    show "c = block_at (zc_pools z' ! blk_pool_id c) (blk_index c)" using cz(2) same(4) [OF cz(1)] by simp
    show "blk_index c < mp_total (zc_pools z' ! blk_pool_id c)" using cz(3) same(2) [OF cz(1)] by simp
    have "blk_index c \<noteq> blk_index b" if "blk_pool_id c = k" using cz(2) k(3) c(2) that by metis
    then show "blk_index c \<notin> free_set (zc_pools z' ! blk_pool_id c)" using pools [OF cz(1)] p'(1) cz(4) by (cases "blk_pool_id c = k") auto
  qed
  then show ?case by (simp add: z'_def)
qed

text \<open>
  Whatever sequence of allocations and releases a manager has served: the blocks that are out are distinct, blocks of one
  pool share no byte, each block can be released to the pool it came from, and a request of up to 16 MiB gets a block at
  least that large. A larger request is not refused: it gets a block of 16 MiB.
\<close>

theorem manager_blocks:
  assumes "zc_manager_new map_anon = Some (Inr z0)" "zc_step\<^sup>*\<^sup>* (z0, []) (z, bs)"
  shows "distinct bs
     \<and> (\<forall>b \<in> set bs. \<forall>c \<in> set bs. b \<noteq> c \<and> blk_pool_id b = blk_pool_id c \<longrightarrow>
          {blk_ptr b..<blk_ptr b + blk_size b} \<inter> {blk_ptr c..<blk_ptr c + blk_size c} = {})
     \<and> (\<forall>len b z'. zc_allocate len z = (Some b, z') \<longrightarrow>
          b \<notin> set bs \<and> zc_step (z', b # bs) (zc_deallocate b z', bs)
          \<and> (len \<le> 16 * 1024 * 1024 \<longrightarrow> len \<le> blk_size b) \<and> blk_size b \<le> 16 * 1024 * 1024)"
proof -
  have ok: "zc_ok z bs"
    using assms(2) by (induction "(z, bs)" arbitrary: z bs rule: rtranclp_induct)
      (use zc_new_ok [OF assms(1)] zc_step_ok in \<open>fastforce+\<close>)
  have "{blk_ptr b..<blk_ptr b + blk_size b} \<inter> {blk_ptr c..<blk_ptr c + blk_size c} = {}"
    if "b \<in> set bs" "c \<in> set bs" "b \<noteq> c" "blk_pool_id b = blk_pool_id c" for b c
  proof -
    define p where "p = zc_pools z ! blk_pool_id b"
    have b: "b = block_at p (blk_index b)" and c: "c = block_at p (blk_index c)" using ok that by (auto simp: zc_ok_def p_def)
    then have "block_range p (blk_index b) \<inter> block_range p (blk_index c) = {}" using that(3) by (intro block_ranges_apart) metis
    then show ?thesis unfolding block_range_def using b c by metis
  qed
  moreover have "b \<notin> set bs \<and> zc_step (z', b # bs) (zc_deallocate b z', bs) \<and> (len \<le> 16 * 1024 * 1024 \<longrightarrow> len \<le> blk_size b)
      \<and> blk_size b \<le> 16 * 1024 * 1024" if a: "zc_allocate len z = (Some b, z')" for len b z'
  proof -
    obtain idx p' where i: "b = block_at (zc_pools z ! pool_for len) idx" "idx \<in> free_set (zc_pools z ! pool_for len)"
      using zc_allocate_some [OF ok a] by blast
    have k: "mp_id (zc_pools z ! pool_for len) = pool_for len" "mp_block_size (zc_pools z ! pool_for len) = pool_sizes ! pool_for len"
      using ok pool_for_less [of len] by (auto simp: zc_ok_def)
    have new: "b \<notin> set bs" using ok i k(1) by (auto simp: zc_ok_def block_at_def)
    have "zc_step (z', b # bs) (zc_deallocate b z', bs)" using ZcRelease [of b "b # bs" z'] by simp
    moreover have "blk_size b = pool_sizes ! pool_for len" using i(1) k(2) by (simp add: block_at_def)
    then have "blk_size b = (if len \<le> 64 * 1024 then 64 * 1024 else if len \<le> 1024 * 1024 then 1024 * 1024 else 16 * 1024 * 1024)"
      by (simp add: pool_sizes_def pool_for_def)
    then have "(len \<le> 16 * 1024 * 1024 \<longrightarrow> len \<le> blk_size b) \<and> blk_size b \<le> 16 * 1024 * 1024" by simp
    ultimately show ?thesis using new by blast
  qed
  ultimately show ?thesis using ok by (auto simp: zc_ok_def)
qed

lemma sample_buffers: "new_buffers (\<lambda>n. Some 0) is = Inr (map (\<lambda>i. \<lparr>mb_base = 0, mb_size = 256 * 1024 * 1024, mb_read = 0, mb_write = 0, mb_id = i\<rparr>) is)"
  by (induction "is") (simp_all add: mapped_new_def)

theorem manager_blocks_witness:
  "\<exists>z. zc_manager_new (\<lambda>n. Some 0) = Some (Inr z)
     \<and> (\<forall>len b z'. zc_allocate len z = (Some b, z') \<longrightarrow> (len \<le> 16 * 1024 * 1024 \<longrightarrow> len \<le> blk_size b))"
proof -
  obtain z where z: "zc_manager_new (\<lambda>n. Some 0) = Some (Inr z)"
    by (simp add: zc_manager_new_def or_fail_def shared_pool_new_def align64_def Let_def sample_buffers)
  show ?thesis using z manager_blocks [OF z, of z "[]"] by blast
qed

end
