(* ===== verification/PerfOps.thy ===== *)
theory PerfOps
  imports Solana SimdMem
begin

text \<open>
  The numeric and byte routines of \<open>perf/simd.rs\<close> (batch additions, extrema, serialization of 64-bit numbers, the
  non-cryptographic hash) and of \<open>perf/compiler_optimization.rs\<close> (the precomputed tables of the event processor and the
  vectorized sum). Each is compared with the plain definition it is meant to speed up. SHA-256 and Base64 are packages of
  others and not modelled.
\<close>

section \<open>Additions of arrays\<close>

text \<open>Four lanes at a time on x86-64: every lane wraps.\<close>

function add_loop :: "u64 list \<Rightarrow> u64 list \<Rightarrow> nat \<Rightarrow> u64 list \<Rightarrow> u64 list" where
  "add_loop a b i result =
     (if i + 4 \<le> length a then
        add_loop a b (i + 4) (result[i := a ! i + b ! i, i + 1 := a ! (i + 1) + b ! (i + 1),
                                     i + 2 := a ! (i + 2) + b ! (i + 2), i + 3 := a ! (i + 3) + b ! (i + 3)])
      else if i < length a then add_loop a b (i + 1) (result[i := a ! i + b ! i])
      else result)"
  by pat_completeness auto
termination by (relation "measure (\<lambda>(a, b, i, result). length a - i)") auto

declare add_loop.simps [simp del]

fun add_each :: "u64 list \<Rightarrow> u64 list \<Rightarrow> nat list \<Rightarrow> u64 list \<Rightarrow> u64 list" where
  "add_each a b [] result = result"
| "add_each a b (i # is) result = add_each a b is (result[i := a ! i + b ! i])"

text \<open>The two assertions on the lengths panic.\<close>

definition add_u64_batch :: "target \<Rightarrow> u64 list \<Rightarrow> u64 list \<Rightarrow> u64 list \<Rightarrow> u64 list rust" where
  "add_u64_batch t a b result =
     (if length a \<noteq> length b \<or> length a \<noteq> length result then None
      else if is_x86 t then Some (add_loop a b 0 result)
      else Some (add_each a b [0..<length a] result))"

definition added :: "u64 list \<Rightarrow> u64 list \<Rightarrow> nat \<Rightarrow> u64 list \<Rightarrow> u64 list" where
  "added a b n result = map (\<lambda>j. if j < n then a ! j + b ! j else result ! j) [0..<length a]"

lemma added_step: "n < length a \<Longrightarrow> (added a b n result)[n := a ! n + b ! n] = added a b (n + 1) result"
  by (rule nth_equalityI) (auto simp: added_def nth_list_update less_Suc_eq)

lemma added_step4:
  "n + 4 \<le> length a \<Longrightarrow> (added a b n result)[n := a ! n + b ! n, n + 1 := a ! (n + 1) + b ! (n + 1),
     n + 2 := a ! (n + 2) + b ! (n + 2), n + 3 := a ! (n + 3) + b ! (n + 3)] = added a b (n + 4) result"
  using added_step [of n a b result] added_step [of "n + 1" a b result] added_step [of "n + 2" a b result]
    added_step [of "n + 3" a b result] by (simp add: numeral_eq_Suc)

lemma add_loop_added: "i \<le> length a \<Longrightarrow> add_loop a b i (added a b i result) = added a b (length a) result"
proof (induction "length a - i" arbitrary: i rule: less_induct)
  case less
  consider "i + 4 \<le> length a" | "length a < i + 4" "i < length a" | "i = length a" using less.prems by linarith
  then show ?case
  proof cases
    case 1 then show ?thesis using less.hyps [of "i + 4"] added_step4 [OF 1, of b result] by (subst add_loop.simps) simp
  next
    case 2 then show ?thesis using less.hyps [of "i + 1"] added_step [OF 2(2), of b result] by (subst add_loop.simps) simp
  next
    case 3 then show ?thesis by (subst add_loop.simps) simp
  qed
qed

lemma add_each_added: "n \<le> length a \<Longrightarrow> add_each a b [n..<length a] (added a b n result) = added a b (length a) result"
proof (induction "length a - n" arbitrary: n)
  case 0 then show ?case by simp
next
  case (Suc k)
  then have "n < length a" by simp
  then show ?case using Suc added_step [of n a b result] by (simp add: upt_conv_Cons)
qed

section \<open>Extrema\<close>

fun max_loop :: "u64 \<Rightarrow> u64 list \<Rightarrow> u64" where
  "max_loop m [] = m"
| "max_loop m (v # vs) = max_loop (if m < v then v else m) vs"

definition max_u64_batch :: "u64 list \<Rightarrow> u64" where
  "max_u64_batch xs = (case xs of [] \<Rightarrow> 0 | x # rest \<Rightarrow> max_loop x rest)"

fun min_loop :: "u64 \<Rightarrow> u64 list \<Rightarrow> u64" where
  "min_loop m [] = m"
| "min_loop m (v # vs) = min_loop (if v < m then v else m) vs"

definition min_u64_batch :: "u64 list \<Rightarrow> u64" where
  "min_u64_batch xs = (case xs of [] \<Rightarrow> 0 | x # rest \<Rightarrow> min_loop x rest)"

lemma max_loop_Max: "max_loop m vs = Max (insert m (set vs))"
proof (induction vs arbitrary: m)
  case (Cons v vs)
  have "Max (insert m (insert v (set vs))) = Max (insert (max m v) (set vs))"
    by (cases "set vs = {}") (simp_all add: max.assoc)
  then show ?case using Cons by (simp add: max_def not_less)
qed simp

lemma min_loop_Min: "min_loop m vs = Min (insert m (set vs))"
proof (induction vs arbitrary: m)
  case (Cons v vs)
  have "Min (insert m (insert v (set vs))) = Min (insert (min m v) (set vs))"
    by (cases "set vs = {}") (simp_all add: min.assoc)
  then show ?case using Cons by (auto simp: min_def not_less)
qed simp

section \<open>Serialization and hash\<close>

definition serialize_u64_batch :: "u64 list \<Rightarrow> u8 list" where
  "serialize_u64_batch xs = concat (map to_le_bytes xs)"

definition deserialize_u64_batch :: "u8 list \<Rightarrow> u64 list" where
  "deserialize_u64_batch bytes =
     map (\<lambda>i. word_of_nat (le_value (map (\<lambda>k. bytes ! (i * 8 + k)) [0..<8]))) [0..<length bytes div 8]"

definition fast_hash_u64 :: "u8 list \<Rightarrow> u64" where
  "fast_hash_u64 bytes = fold (\<lambda>byte hash. xor hash (ucast byte) * 0x100000001b3) bytes 0xcbf29ce484222325"

definition hash_batch_sha256 :: "(u8 list \<Rightarrow> u8 list) \<Rightarrow> u8 list list \<Rightarrow> u8 list list" where
  "hash_batch_sha256 sha256 items = map sha256 items"

definition parallel_map :: "('a \<Rightarrow> 'a) \<Rightarrow> 'a list \<Rightarrow> 'a list" where
  "parallel_map f xs = map f xs"

definition parallel_filter :: "('a \<Rightarrow> bool) \<Rightarrow> 'a list \<Rightarrow> 'a list" where
  "parallel_filter predicate xs = filter predicate xs"

lemma length_serialize [simp]: "length (serialize_u64_batch xs) = 8 * length xs"
  by (induction xs) (simp_all add: serialize_u64_batch_def)

lemma deserialize_Cons:
  assumes "length (bs :: u8 list) = 8"
  shows "deserialize_u64_batch (bs @ rest) = word_of_nat (le_value bs) # deserialize_u64_batch rest"
proof -
  have n: "[0..<length (bs @ rest) div 8] = 0 # map Suc [0..<length rest div 8]"
    using assms by (simp add: map_Suc_upt upt_conv_Cons del: upt_Suc)
  have first: "map ((!) (bs @ rest)) [0..<8] = bs"
    using assms by (intro nth_equalityI) (auto simp: nth_append)
  have later: "map (\<lambda>k. (bs @ rest) ! (Suc i * 8 + k)) [0..<8] = map (\<lambda>k. rest ! (i * 8 + k)) [0..<8]" for i
    using assms by (simp add: nth_append)
  show ?thesis unfolding deserialize_u64_batch_def n by (simp add: first later comp_def del: mult_Suc)
qed

text \<open>Reading back what was serialized gives the numbers; fewer than eight bytes after them are ignored.\<close>

lemma serialize_roundtrip: "length rest < 8 \<Longrightarrow> deserialize_u64_batch (serialize_u64_batch xs @ rest) = xs"
proof (induction xs)
  case Nil then show ?case by (simp add: serialize_u64_batch_def deserialize_u64_batch_def)
next
  case (Cons x xs)
  have "serialize_u64_batch (x # xs) @ rest = to_le_bytes x @ (serialize_u64_batch xs @ rest)" by (simp add: serialize_u64_batch_def)
  then show ?case using Cons deserialize_Cons [of "to_le_bytes x" "serialize_u64_batch xs @ rest"]
    by (simp add: le_value_to_le_bytes word_of_nat_unat)
qed

section \<open>The event processor\<close>

definition const_hash :: "u8 \<Rightarrow> u64" where
  "const_hash input =
     (let h0 = ucast input; h1 = xor h0 (push_bit 13 h0); h2 = xor h1 (drop_bit 7 h1) in xor h2 (push_bit 17 h2))"

definition hash_table :: "u64 list" where
  "hash_table = map (\<lambda>i. const_hash (word_of_nat i)) [0..<256]"

definition route_table :: "u32 list" where
  "route_table = map (\<lambda>i. word_of_nat i mod 16) [0..<1024]"

definition route_event_zero_cost :: "u8 \<Rightarrow> u32" where
  "route_event_zero_cost event_id = route_table ! unat (and (ucast event_id :: u64) 1023)"

definition hash_lookup_optimized :: "u8 \<Rightarrow> u64" where
  "hash_lookup_optimized key = hash_table ! unat key"

lemma hash_lookup: "hash_lookup_optimized key = const_hash key"
proof -
  have "unat key < 256" using unsigned_less [of key, where 'a = nat] by simp
  then show ?thesis by (simp add: hash_lookup_optimized_def hash_table_def word_of_nat_unat)
qed

lemma route_event: "route_event_zero_cost event_id = ucast event_id mod 16 \<and> route_event_zero_cost event_id < 16"
proof -
  have e: "unat event_id < 256" using unsigned_less [of event_id, where 'a = nat] by simp
  have "and (ucast event_id :: u64) 1023 = take_bit 10 (ucast event_id)"
    using take_bit_eq_mask [of 10 "ucast event_id :: u64"] by (simp add: mask_eq_exp_minus_1)
  then have "unat (and (ucast event_id :: u64) 1023) = take_bit 10 (unat (ucast event_id :: u64))" by (simp only: unsigned_take_bit_eq)
  also have "\<dots> = unat event_id" using e by (simp add: unsigned_ucast_eq take_bit_eq_mod)
  finally have i: "unat (and (ucast event_id :: u64) 1023) = unat event_id" .
  have "route_event_zero_cost event_id = word_of_nat (unat event_id) mod 16"
    unfolding route_event_zero_cost_def i using e by (simp add: route_table_def)
  moreover have "(word_of_nat (unat event_id) :: u32) = ucast event_id" by (simp add: unsigned_ucast_eq word_unat_eq_iff e unat_of_nat take_bit_eq_mod)
  moreover have "(x :: u32) mod 16 < 16" for x by (simp add: word_mod_less_divisor)
  ultimately show ?thesis by metis
qed

section \<open>The vectorized sum\<close>

text \<open>\<open>iter().sum()\<close>: the additions overflow as the build profile says.\<close>

fun sum_from :: "profile \<Rightarrow> u64 \<Rightarrow> u64 list \<Rightarrow> u64 rust" where
  "sum_from p acc [] = Some acc"
| "sum_from p acc (x # xs) = do { acc' \<leftarrow> add_w p acc x; sum_from p acc' xs }"

definition iter_sum :: "profile \<Rightarrow> u64 list \<Rightarrow> u64 rust" where
  "iter_sum p xs = sum_from p 0 xs"

definition lane_sum :: "u64 list \<Rightarrow> nat \<Rightarrow> nat \<Rightarrow> u64" where
  "lane_sum xs chunks lane = fold (\<lambda>i acc. acc + xs ! (i * 4 + lane)) [0..<chunks] 0"

definition vectorized_sum :: "target \<Rightarrow> profile \<Rightarrow> u64 list \<Rightarrow> u64 rust" where
  "vectorized_sum t p xs =
     (if \<not> is_x86 t \<or> length xs < 4 then iter_sum p xs
      else do {
        let chunks = length xs div 4;
        partial_sum \<leftarrow> iter_sum p (map (lane_sum xs chunks) [0..<4]);
        remaining \<leftarrow> iter_sum p (drop (chunks * 4) xs);
        add_w p partial_sum remaining
      })"

lemma sum_from_wrapping: "sum_from Wrapping acc xs = Some (acc + sum_list xs)"
  by (induction xs arbitrary: acc) (simp_all add: add_w_def add.assoc)

lemma sum_from_small: "unat acc + sum_list (map unat xs) < 2 ^ 64 \<Longrightarrow> sum_from p acc xs = Some (acc + sum_list xs)"
proof (induction xs arbitrary: acc)
  case (Cons x xs)
  then have "unat acc + unat x < 2 ^ LENGTH(64)" by simp
  then have "add_w p acc x = Some (acc + x)" and u: "unat (acc + x) = unat acc + unat x"
    by (simp_all only: add_w_ok unat_add_ok)
  then show ?case using Cons by (simp add: add.assoc)
qed simp

lemma fold_add: "fold (\<lambda>i acc. acc + f i) is a = a + sum_list (map f is)" for f :: "nat \<Rightarrow> 'b::comm_monoid_add"
  by (induction "is" arbitrary: a) (simp_all add: add.assoc)

lemma lanes_total:
  fixes g :: "nat \<Rightarrow> 'b::comm_monoid_add"
  shows "(\<Sum>l < 4. \<Sum>i < k. g (i * 4 + l)) = (\<Sum>j < 4 * k. g j)"
proof (induction k)
  case (Suc k)
  have "(\<Sum>l < 4. \<Sum>i < Suc k. g (i * 4 + l)) = (\<Sum>l < 4. \<Sum>i < k. g (i * 4 + l)) + (\<Sum>l < 4. g (k * 4 + l))"
    by (simp add: sum.distrib)
  moreover have "(\<Sum>j < 4 * Suc k. g j) = (\<Sum>j < 4 * k. g j) + (\<Sum>l < 4. g (k * 4 + l))"
  proof -
    have "(\<Sum>j < 4 * k + 4. g j) = (\<Sum>j < 4 * k. g j) + (\<Sum>l < 4. g (4 * k + l))"
      using sum.nat_group by (simp add: numeral_eq_Suc add.assoc)
    then show ?thesis by (simp add: algebra_simps)
  qed
  ultimately show ?case using Suc by simp
qed simp

lemma lane_sum_sum: "lane_sum xs k l = (\<Sum>i < k. xs ! (i * 4 + l))"
  by (simp add: lane_sum_def fold_add sum_list_distinct_conv_sum_set lessThan_atLeast0)

lemma sum_upt4: "sum_list (map f [0..<4]) = (\<Sum>l < 4. f l)" for f :: "nat \<Rightarrow> 'b::comm_monoid_add"
  by (simp add: sum_list_distinct_conv_sum_set lessThan_atLeast0)

lemma sum_split:
  fixes h :: "u64 \<Rightarrow> 'b::comm_monoid_add"
  shows "(\<Sum>l < 4. \<Sum>i < length xs div 4. h (xs ! (i * 4 + l))) + sum_list (map h (drop (length xs div 4 * 4) xs)) = sum_list (map h xs)"
proof -
  let ?k = "length xs div 4"
  have "sum_list (map h xs) = sum_list (map h (take (4 * ?k) xs)) + sum_list (map h (drop (4 * ?k) xs))"
    by (metis append_take_drop_id map_append sum_list_append)
  moreover have "sum_list (map h (take (4 * ?k) xs)) = (\<Sum>j < 4 * ?k. h (xs ! j))"
    by (simp add: sum_list_sum_nth lessThan_atLeast0)
  moreover have "(\<Sum>l < 4. \<Sum>i < ?k. h (xs ! (i * 4 + l))) = (\<Sum>j < 4 * ?k. h (xs ! j))" by (rule lanes_total)
  ultimately show ?thesis by (simp add: mult.commute)
qed

lemma unat_sum_small:
  assumes "finite A" "(\<Sum>i \<in> A. unat (f i)) < 2 ^ 64"
  shows "unat (\<Sum>i \<in> A. f i :: u64) = (\<Sum>i \<in> A. unat (f i))"
  using assms
proof (induction rule: finite_induct)
  case (insert x F)
  then have "unat (sum f F) = (\<Sum>i \<in> F. unat (f i))" by simp
  moreover have "unat (f x + sum f F) = unat (f x) + unat (sum f F)" using insert calculation by (intro unat_add_ok) simp
  ultimately show ?case using insert by simp
qed simp

lemma unat_sum_list_small: "sum_list (map unat xs) < 2 ^ 64 \<Longrightarrow> unat (sum_list xs :: u64) = sum_list (map unat xs)"
proof (induction xs)
  case (Cons x xs)
  then have i: "unat (sum_list xs) = sum_list (map unat xs)" by simp
  then have "unat (x + sum_list xs) = unat x + unat (sum_list xs)" using Cons.prems by (intro unat_add_ok) simp
  then show ?case using i by simp
qed simp

lemma vectorized_sum_wrapping: "vectorized_sum t Wrapping xs = Some (sum_list xs)"
proof (cases "is_x86 t \<and> 4 \<le> length xs")
  case True
  have "(\<Sum>l < 4. \<Sum>i < length xs div 4. xs ! (i * 4 + l)) + sum_list (drop (length xs div 4 * 4) xs) = sum_list xs"
    using sum_split [of "\<lambda>x. x" xs] by simp
  then show ?thesis
    using True by (simp add: vectorized_sum_def iter_sum_def sum_from_wrapping sum_upt4 lane_sum_sum add_w_def Let_def del: upt_rec_numeral)
next
  case False then show ?thesis by (auto simp: vectorized_sum_def iter_sum_def sum_from_wrapping)
qed

lemma vectorized_sum_small:
  assumes "sum_list (map unat xs) < 2 ^ 64"
  shows "vectorized_sum t p xs = Some (sum_list xs)"
proof (cases "is_x86 t \<and> 4 \<le> length xs")
  case True
  let ?k = "length xs div 4"
  let ?rest = "drop (?k * 4) xs"
  have nat: "(\<Sum>l < 4. \<Sum>i < ?k. unat (xs ! (i * 4 + l))) + sum_list (map unat ?rest) = sum_list (map unat xs)"
    by (rule sum_split)
  have lane: "unat (lane_sum xs ?k l) = (\<Sum>i < ?k. unat (xs ! (i * 4 + l)))" if "l < 4" for l
  proof -
    have "(\<Sum>i < ?k. unat (xs ! (i * 4 + l))) \<le> (\<Sum>l < 4. \<Sum>i < ?k. unat (xs ! (i * 4 + l)))"
      using that by (intro member_le_sum) auto
    then show ?thesis using nat assms unfolding lane_sum_sum by (intro unat_sum_small) auto
  qed
  have lanes: "sum_list (map unat (map (lane_sum xs ?k) [0..<4])) = (\<Sum>l < 4. \<Sum>i < ?k. unat (xs ! (i * 4 + l)))"
    unfolding map_map sum_upt4 using lane by (intro sum.cong) auto
  have part: "iter_sum p (map (lane_sum xs ?k) [0..<4]) = Some (sum_list (map (lane_sum xs ?k) [0..<4]))"
    using nat assms lanes unfolding iter_sum_def by (subst sum_from_small) (simp_all del: upt_rec_numeral)
  have rem: "iter_sum p ?rest = Some (sum_list ?rest)"
    using nat assms unfolding iter_sum_def by (subst sum_from_small) simp_all
  have bound: "unat (sum_list (map (lane_sum xs ?k) [0..<4])) + unat (sum_list ?rest) < 2 ^ LENGTH(64)"
    using nat assms lanes unat_sum_list_small [of "map (lane_sum xs ?k) [0..<4]"] unat_sum_list_small [of ?rest] by (simp del: upt_rec_numeral)
  have "sum_list (map (lane_sum xs ?k) [0..<4]) + sum_list ?rest = sum_list xs"
    using sum_split [of "\<lambda>x. x" xs] by (simp add: sum_upt4 lane_sum_sum del: upt_rec_numeral)
  then show ?thesis
    using True part rem add_w_ok [OF bound] by (simp add: vectorized_sum_def Let_def del: upt_rec_numeral)
next
  case False then show ?thesis using assms by (auto simp: vectorized_sum_def iter_sum_def sum_from_small)
qed

text \<open>
  The routines agree with the definitions they speed up. Additions of arrays add element by element, wrapping, on every
  target, and panic exactly when the lengths differ; the extrema are those of the set; reading serialized numbers back gives
  the numbers; the tables hold what they were computed from; and the vectorized sum is the plain sum modulo \<open>2^64\<close> in a build
  that wraps, and the exact sum in every build when the exact sum fits.
\<close>

theorem perf_routines_agree:
  "(add_u64_batch t a b result = (if length a = length b \<and> length a = length result then Some (map2 (+) a b) else None))
   \<and> max_u64_batch (x # xs) = Max (set (x # xs)) \<and> min_u64_batch (x # xs) = Min (set (x # xs))
   \<and> deserialize_u64_batch (serialize_u64_batch xs) = xs
   \<and> hash_lookup_optimized key = const_hash key
   \<and> route_event_zero_cost key = ucast key mod 16
   \<and> vectorized_sum t Wrapping xs = Some (sum_list xs)
   \<and> (sum_list (map unat xs) < 2 ^ 64 \<longrightarrow> vectorized_sum t p xs = Some (sum_list xs))"
proof (intro conjI impI)
  have "added a b (length a) result = map2 (+) a b" if "length a = length b"
    using that by (intro nth_equalityI) (auto simp: added_def)
  moreover have "added a b 0 result = result" if "length a = length result"
    using that by (intro nth_equalityI) (auto simp: added_def)
  ultimately show "add_u64_batch t a b result = (if length a = length b \<and> length a = length result then Some (map2 (+) a b) else None)"
    using add_loop_added [of 0 a b result] add_each_added [of 0 a b result] by (auto simp: add_u64_batch_def)
  show "max_u64_batch (x # xs) = Max (set (x # xs))" by (simp add: max_u64_batch_def max_loop_Max)
  show "min_u64_batch (x # xs) = Min (set (x # xs))" by (simp add: min_u64_batch_def min_loop_Min)
  show "deserialize_u64_batch (serialize_u64_batch xs) = xs" using serialize_roundtrip [of "[]" xs] by simp
  show "hash_lookup_optimized key = const_hash key" by (rule hash_lookup)
  show "route_event_zero_cost key = ucast key mod 16" using route_event by blast
  show "vectorized_sum t Wrapping xs = Some (sum_list xs)" by (rule vectorized_sum_wrapping)
  show "vectorized_sum t p xs = Some (sum_list xs)" if "sum_list (map unat xs) < 2 ^ 64" using that by (rule vectorized_sum_small)
qed

theorem perf_routines_agree_witness:
  "vectorized_sum (X86_64 False) Checked [1, 2, 3, 4, 5] = Some 15
   \<and> add_u64_batch (X86_64 False) [1, 2, 3, 4, 5] [1, 1, 1, 1, 1] [0, 0, 0, 0, 0] = Some [2, 3, 4, 5, 6]"
  using perf_routines_agree [of "X86_64 False" "[1, 2, 3, 4, 5]" "[1, 1, 1, 1, 1]" "[0, 0, 0, 0, 0]" 1 "[1, 2, 3, 4, 5]" 0 Checked] by simp

text \<open>
  In a checked build the lanes still wrap in silence: a sum that the plain loop refuses with a panic comes out wrong.
\<close>

theorem lanes_wrap_in_checked_builds:
  "vectorized_sum (X86_64 False) Checked [18446744073709551615, 0, 0, 0, 1, 0, 0, 0] = Some 0 \<and> iter_sum Checked [18446744073709551615, 0, 0, 0, 1, 0, 0, 0] = None"
  by (simp add: vectorized_sum_def iter_sum_def lane_sum_def add_w_def Let_def upt_conv_Cons)

text \<open>The published test vectors of the hash for the empty text and for the letter \<open>a\<close>.\<close>

lemma fast_hash_vectors: "fast_hash_u64 [] = 0xcbf29ce484222325" "fast_hash_u64 [97] = 0xaf63dc4c8601ec8c"
  by (simp_all add: fast_hash_u64_def)

end
