(* ===== verification/Syscalls.thy ===== *)
theory Syscalls
  imports RustInt ObjectPool
begin

text \<open>
  The system-call layer of \<open>perf/syscall_bypass.rs\<close> (time provider, request batches, bump allocator, write statistics,
  manager). What the operating system answers is a parameter: a reading of the clocks, the text of \<open>uname -r\<close>, the result of a mapping.
\<close>

section \<open>Configuration\<close>

record syscall_config =
  enable_batch_processing :: bool
  batch_size :: nat
  enable_fast_time :: bool
  enable_vdso :: bool
  enable_io_uring :: bool
  enable_mmap_optimization :: bool
  enable_userspace_impl :: bool
  syscall_cache_size :: nat

definition default_config :: syscall_config where
  "default_config = \<lparr>enable_batch_processing = True, batch_size = 100, enable_fast_time = True, enable_vdso = True,
     enable_io_uring = True, enable_mmap_optimization = True, enable_userspace_impl = True, syscall_cache_size = 1000\<rparr>"

definition extreme_bypass_config :: syscall_config where
  "extreme_bypass_config = \<lparr>enable_batch_processing = True, batch_size = 1000, enable_fast_time = True, enable_vdso = True,
     enable_io_uring = True, enable_mmap_optimization = True, enable_userspace_impl = True, syscall_cache_size = 10000\<rparr>"

section \<open>Time\<close>

text \<open>
  One reading: nanoseconds on the monotonic clock since the provider was made, nanoseconds since the Unix epoch unless the
  clock stands before it, and seconds and nanoseconds of the raw monotonic clock where it can be read.
\<close>

record reading =
  rd_mono :: u64
  rd_unix :: "u64 option"
  rd_raw :: "(u64 \<times> u64) option"

record time_provider =
  time_cache :: u64
  cache_update_interval_ns :: u64
  last_update :: u64
  vdso_enabled :: bool

definition time_provider_new :: "bool \<Rightarrow> reading \<Rightarrow> string + time_provider" where
  "time_provider_new vdso rd =
     (case rd_unix rd of
        None \<Rightarrow> Inl ''second time provided was later than self''
      | Some nanos \<Rightarrow> Inr \<lparr>time_cache = nanos, cache_update_interval_ns = 1000000, last_update = rd_mono rd, vdso_enabled = vdso\<rparr>)"

definition update_time_cache :: "reading \<Rightarrow> time_provider \<Rightarrow> time_provider" where
  "update_time_cache rd p =
     (case rd_unix rd of Some nanos \<Rightarrow> p\<lparr>time_cache := nanos, last_update := rd_mono rd\<rparr> | None \<Rightarrow> p)"

definition vdso_time_nanos :: "profile \<Rightarrow> reading \<Rightarrow> time_provider \<Rightarrow> u64 rust" where
  "vdso_time_nanos q rd p =
     (case rd_raw rd of
        Some (sec, nsec) \<Rightarrow> do { s \<leftarrow> mul_w q sec 1000000000; add_w q s nsec }
      | None \<Rightarrow> Some (time_cache p))"

definition fast_now_nanos :: "profile \<Rightarrow> reading \<Rightarrow> time_provider \<Rightarrow> (u64 \<times> time_provider) rust" where
  "fast_now_nanos q rd p =
     (if vdso_enabled p then do { t \<leftarrow> vdso_time_nanos q rd p; Some (t, p) }
      else let p' = (if cache_update_interval_ns p < saturating_sub (rd_mono rd) (last_update p) then update_time_cache rd p else p)
           in Some (time_cache p', p'))"

definition fast_now_micros :: "profile \<Rightarrow> reading \<Rightarrow> time_provider \<Rightarrow> (u64 \<times> time_provider) rust" where
  "fast_now_micros q rd p = do { (t, p') \<leftarrow> fast_now_nanos q rd p; Some (t div 1000, p') }"

definition fast_now_millis :: "profile \<Rightarrow> reading \<Rightarrow> time_provider \<Rightarrow> (u64 \<times> time_provider) rust" where
  "fast_now_millis q rd p = do { (t, p') \<leftarrow> fast_now_nanos q rd p; Some (t div 1000000, p') }"

text \<open>A run of calls, one reading each.\<close>

fun now_run :: "profile \<Rightarrow> reading list \<Rightarrow> time_provider \<Rightarrow> (u64 list \<times> time_provider) rust" where
  "now_run q [] p = Some ([], p)"
| "now_run q (rd # rds) p = do {
     (t, p') \<leftarrow> fast_now_nanos q rd p;
     (ts, p'') \<leftarrow> now_run q rds p';
     Some (t # ts, p'')
   }"

section \<open>The cached clock\<close>

text \<open>Readings whose clocks do not run backwards.\<close>

definition forward :: "u64 \<Rightarrow> reading list \<Rightarrow> bool" where
  "forward t0 rds \<longleftrightarrow> sorted (t0 # List.map_filter rd_unix rds)"

lemma forward_Cons:
  "forward t0 (rd # rds) \<longleftrightarrow> (case rd_unix rd of Some t \<Rightarrow> t0 \<le> t \<and> forward t0 rds \<and> forward t rds | None \<Rightarrow> forward t0 rds)"
  by (auto simp: forward_def map_filter_simps split: option.split)

lemma fast_now_cached:
  assumes "\<not> vdso_enabled p" "fast_now_nanos q rd p = Some (t, p')" "forward (time_cache p) (rd # rds)"
  shows "time_cache p \<le> t" "t = time_cache p'" "\<not> vdso_enabled p'" "forward t rds"
    "cache_update_interval_ns p' = cache_update_interval_ns p"
    "rd_unix rd \<noteq> None \<Longrightarrow> unat (rd_mono rd) \<le> unat (last_update p') + unat (cache_update_interval_ns p')"
proof -
  have d: "t = time_cache p' \<and> \<not> vdso_enabled p' \<and>
      p' = (if cache_update_interval_ns p < saturating_sub (rd_mono rd) (last_update p) then update_time_cache rd p else p)"
    using assms(1,2) by (auto simp: fast_now_nanos_def Let_def update_time_cache_def split: option.splits if_splits)
  then show "t = time_cache p'" "\<not> vdso_enabled p'" by blast+
  show "time_cache p \<le> t" "forward t rds" "cache_update_interval_ns p' = cache_update_interval_ns p"
    using d assms(3) by (auto simp: forward_Cons update_time_cache_def split: option.splits if_splits)
  show "unat (rd_mono rd) \<le> unat (last_update p') + unat (cache_update_interval_ns p')" if "rd_unix rd \<noteq> None"
    using d that by (auto simp: update_time_cache_def word_less_nat_alt unat_saturating_sub split: if_splits)
qed

text \<open>
  Without the raw clock the provider answers from its cache: its answers never run backwards as long as the wall clock does
  not, no call panics, and when the wall clock can be read the answer was read at most a millisecond before, on the
  monotonic clock.
\<close>

theorem cached_time_is_fresh:
  assumes "time_provider_new False rd0 = Inr p0" "forward (the (rd_unix rd0)) rds"
  shows "\<exists>ts p. now_run q rds p0 = Some (ts, p) \<and> sorted (the (rd_unix rd0) # ts)
     \<and> (rds \<noteq> [] \<and> rd_unix (last rds) \<noteq> None \<longrightarrow>
          last ts = time_cache p \<and> unat (rd_mono (last rds)) \<le> unat (last_update p) + 1000000)"
proof -
  have run: "\<not> vdso_enabled p \<Longrightarrow> cache_update_interval_ns p = 1000000 \<Longrightarrow> forward (time_cache p) rds \<Longrightarrow>
      \<exists>ts p'. now_run q rds p = Some (ts, p') \<and> sorted (time_cache p # ts)
     \<and> (rds \<noteq> [] \<and> rd_unix (last rds) \<noteq> None \<longrightarrow>
          ts \<noteq> [] \<and> last ts = time_cache p' \<and> unat (rd_mono (last rds)) \<le> unat (last_update p') + 1000000)" for p
  proof (induction rds arbitrary: p)
    case Nil then show ?case by simp
  next
    case (Cons rd rds)
    obtain t p' where now: "fast_now_nanos q rd p = Some (t, p')"
      using Cons.prems(1) by (auto simp: fast_now_nanos_def Let_def)
    note c = fast_now_cached [OF Cons.prems(1) now Cons.prems(3)]
    obtain ts p'' where r: "now_run q rds p' = Some (ts, p'')" "sorted (time_cache p' # ts)"
        "rds \<noteq> [] \<and> rd_unix (last rds) \<noteq> None \<longrightarrow>
          ts \<noteq> [] \<and> last ts = time_cache p'' \<and> unat (rd_mono (last rds)) \<le> unat (last_update p'') + 1000000"
      using Cons.IH [of p'] c Cons.prems(2) by auto
    have "ts = [] \<and> p'' = p'" if "rds = []" using r(1) that by simp
    then show ?case using now r c Cons.prems(2) by (auto intro: order_trans)
  qed
  have p0: "\<not> vdso_enabled p0" "cache_update_interval_ns p0 = 1000000" "time_cache p0 = the (rd_unix rd0)"
    using assms(1) by (auto simp: time_provider_new_def split: option.splits)
  then show ?thesis using run [of p0] assms(2) by auto
qed

theorem cached_time_is_fresh_witness:
  "\<exists>ts p. now_run Checked [\<lparr>rd_mono = 5, rd_unix = Some 105, rd_raw = None\<rparr>, \<lparr>rd_mono = 2000000, rd_unix = Some 2000100, rd_raw = None\<rparr>]
      \<lparr>time_cache = 100, cache_update_interval_ns = 1000000, last_update = 0, vdso_enabled = False\<rparr> = Some (ts, p) \<and> sorted (100 # ts)"
  using cached_time_is_fresh [of "\<lparr>rd_mono = 0, rd_unix = Some 100, rd_raw = None\<rparr>"
      "\<lparr>time_cache = 100, cache_update_interval_ns = 1000000, last_update = 0, vdso_enabled = False\<rparr>"
      "[\<lparr>rd_mono = 5, rd_unix = Some 105, rd_raw = None\<rparr>, \<lparr>rd_mono = 2000000, rd_unix = Some 2000100, rd_raw = None\<rparr>]" Checked]
  by (auto simp: time_provider_new_def forward_def map_filter_simps)

text \<open>
  With the raw clock the same call answers in another time: the time since the machine started, not since the Unix epoch.
\<close>

theorem vdso_time_has_another_epoch:
  "fast_now_nanos Checked \<lparr>rd_mono = 0, rd_unix = Some 1700000000000000000, rd_raw = Some (3600, 0)\<rparr>
      \<lparr>time_cache = 1700000000000000000, cache_update_interval_ns = 1000000, last_update = 0, vdso_enabled = vdso\<rparr> =
     Some (if vdso then 3600000000000 else 1700000000000000000,
       \<lparr>time_cache = 1700000000000000000, cache_update_interval_ns = 1000000, last_update = 0, vdso_enabled = vdso\<rparr>)"
  by (simp add: fast_now_nanos_def vdso_time_nanos_def mul_w_def add_w_def saturating_sub_def Let_def)

section \<open>Batches of requests\<close>

datatype syscall_request =
    SysWrite int "u8 list" | SysRead int nat | SysSend int "u8 list" | SysRecv int nat | SysGetTime | SysMemAlloc nat | SysMemFree nat

record batch_processor =
  pending_calls :: "syscall_request array_queue"
  batch_stats :: u64

text \<open>A queue of capacity 0 cannot be made.\<close>

definition batch_processor_new :: "nat \<Rightarrow> batch_processor rust" where
  "batch_processor_new size' = (if size' * 10 = 0 then None else Some \<lparr>pending_calls = aq_new (size' * 10), batch_stats = 0\<rparr>)"

definition submit_request :: "syscall_request \<Rightarrow> batch_processor \<Rightarrow> (string + unit) \<times> batch_processor" where
  "submit_request r b =
     (if length (aq_items (pending_calls b)) < aq_cap (pending_calls b)
      then (Inr (), b\<lparr>pending_calls := aq_push r (pending_calls b)\<rparr>)
      else (Inl ''Batch queue full'', b))"

text \<open>The loop that fills a batch: at most 100 requests, while there are any.\<close>

fun collect :: "nat \<Rightarrow> syscall_request array_queue \<Rightarrow> syscall_request list \<times> syscall_request array_queue" where
  "collect 0 q = ([], q)"
| "collect (Suc n) q =
     (case aq_pop q of
        (Some r, q') \<Rightarrow> (let (rs, q'') = collect n q' in (r # rs, q''))
      | (None, q') \<Rightarrow> ([], q'))"

text \<open>The three groups; requests of the other kinds fall through.\<close>

fun group_requests ::
  "syscall_request list \<Rightarrow> (int \<times> u8 list) list \<times> (int \<times> nat) list \<times> (int \<times> u8 list) list" where
  "group_requests [] = ([], [], [])"
| "group_requests (r # rs) =
     (let (ws, rds, ns) = group_requests rs
      in case r of SysWrite fd bytes \<Rightarrow> ((fd, bytes) # ws, rds, ns)
                 | SysRead fd n \<Rightarrow> (ws, (fd, n) # rds, ns)
                 | SysSend socket bytes \<Rightarrow> (ws, rds, (socket, bytes) # ns)
                 | _ \<Rightarrow> (ws, rds, ns))"

text \<open>
  The groups are handed to routines that log them and do nothing else, so what a batch does is its answer, the groups it
  handed over, and the requests that are gone.
\<close>

definition execute_batch ::
  "batch_processor \<Rightarrow> (string + nat) \<times> ((int \<times> u8 list) list \<times> (int \<times> nat) list \<times> (int \<times> u8 list) list) \<times> batch_processor" where
  "execute_batch b =
     (let (batch, q) = collect 100 (pending_calls b)
      in if batch = [] then (Inr 0, ([], [], []), b\<lparr>pending_calls := q\<rparr>)
         else (Inr (length batch), group_requests batch, b\<lparr>pending_calls := q, batch_stats := batch_stats b + 1\<rparr>))"

lemma collect_take:
  "collect n q = (take n (aq_items q), q\<lparr>aq_items := drop n (aq_items q)\<rparr>)"
proof (induction n arbitrary: q)
  case (Suc n)
  show ?case
  proof (cases "aq_items q")
    case Nil then show ?thesis by (simp add: aq_pop_def)
  next
    case (Cons r rs) then show ?thesis using Suc [of "q\<lparr>aq_items := rs\<rparr>"] by (simp add: aq_pop_def)
  qed
qed simp

fun handled :: "syscall_request \<Rightarrow> bool" where
  "handled (SysWrite fd bytes) = True"
| "handled (SysRead fd n) = True"
| "handled (SysSend fd bytes) = True"
| "handled r = False"

lemma group_requests_all:
  "case group_requests rs of (ws, rds, ns) \<Rightarrow>
     set (map (\<lambda>(fd, bytes). SysWrite fd bytes) ws) \<union> set (map (\<lambda>(fd, n). SysRead fd n) rds) \<union> set (map (\<lambda>(fd, bytes). SysSend fd bytes) ns)
       = {r \<in> set rs. handled r}
     \<and> length ws + length rds + length ns = length (filter handled rs)"
proof (induction rs)
  case (Cons r rs)
  then show ?case by (cases r; cases "group_requests rs") (auto simp: Let_def)
qed simp

text \<open>
  A batch takes the oldest requests, up to a hundred, out of the queue and reports all of them as done; writes, reads and
  sends are handed on, each once; requests for the time, for memory and for receiving are dropped.
\<close>

theorem batch_takes_the_oldest:
  "execute_batch b = (n, (ws, rds, ns), b') \<Longrightarrow>
     n = Inr (min 100 (length (aq_items (pending_calls b))))
     \<and> aq_items (pending_calls b') = drop 100 (aq_items (pending_calls b))
     \<and> length ws + length rds + length ns = length (filter handled (take 100 (aq_items (pending_calls b))))
     \<and> set (map (\<lambda>(fd, bytes). SysWrite fd bytes) ws) = {r \<in> set (take 100 (aq_items (pending_calls b))). \<exists>fd bytes. r = SysWrite fd bytes}"
proof -
  assume e: "execute_batch b = (n, (ws, rds, ns), b')"
  define batch where "batch = take 100 (aq_items (pending_calls b))"
  have g: "(ws, rds, ns) = group_requests batch" "n = Inr (length batch)" "aq_items (pending_calls b') = drop 100 (aq_items (pending_calls b))"
    using e by (auto simp: execute_batch_def collect_take Let_def batch_def split: if_splits)
  have all: "set (map (\<lambda>(fd, bytes). SysWrite fd bytes) ws) \<union> set (map (\<lambda>(fd, n). SysRead fd n) rds) \<union> set (map (\<lambda>(fd, bytes). SysSend fd bytes) ns)
       = {r \<in> set batch. handled r}" "length ws + length rds + length ns = length (filter handled batch)"
    using group_requests_all [of batch] by (simp_all add: g(1) [symmetric])
  have "set (map (\<lambda>(fd, bytes). SysWrite fd bytes) ws) = {r \<in> set batch. \<exists>fd bytes. r = SysWrite fd bytes}"
  proof (intro set_eqI iffI)
    fix r assume "r \<in> set (map (\<lambda>(fd, bytes). SysWrite fd bytes) ws)"
    then show "r \<in> {r \<in> set batch. \<exists>fd bytes. r = SysWrite fd bytes}" using all(1) by auto
  next
    fix r assume r: "r \<in> {r \<in> set batch. \<exists>fd bytes. r = SysWrite fd bytes}"
    then have "r \<in> {r \<in> set batch. handled r}" by auto
    then show "r \<in> set (map (\<lambda>(fd, bytes). SysWrite fd bytes) ws)" using r all(1) [symmetric] by auto
  qed
  then show ?thesis using g all(2) by (simp add: batch_def min.commute)
qed

section \<open>The bump allocator\<close>

definition POOL_BYTES :: u64 where "POOL_BYTES = 1048576"

text \<open>The offset that is returned stands for the pointer; nothing is ever given back.\<close>

definition userspace_allocate :: "profile \<Rightarrow> u64 \<Rightarrow> u64 \<Rightarrow> ((string + u64) \<times> u64) rust" where
  "userspace_allocate q len offset = do {
     end \<leftarrow> add_w q offset len;
     if POOL_BYTES < end then Some (Inl ''Memory pool exhausted'', offset)
     else do {
       up \<leftarrow> add_w q len 7;
       offset' \<leftarrow> add_w q offset (and up (not 7));
       Some (Inr offset, offset')
     }
   }"

fun allocate_run :: "profile \<Rightarrow> u64 list \<Rightarrow> u64 \<Rightarrow> ((u64 \<times> u64) list \<times> u64) rust" where
  "allocate_run q [] offset = Some ([], offset)"
| "allocate_run q (len # lens) offset = do {
     (r, offset') \<leftarrow> userspace_allocate q len offset;
     (rs, offset'') \<leftarrow> allocate_run q lens offset';
     Some ((case r of Inr ptr \<Rightarrow> (ptr, len) # rs | Inl e \<Rightarrow> rs), offset'')
   }"

lemma and_not_7: "unat (and (x :: u64) (not 7)) = unat x div 8 * 8"
proof -
  have m: "(7 :: u64) = mask 3" by (simp add: mask_eq_exp_minus_1)
  have "and x (not (mask 3)) + and x (mask 3) = or (and x (not (mask 3))) (and x (mask 3))"
    by (rule disjunctive_add) (simp add: bit_and_iff bit_not_iff)
  also have "\<dots> = x" by (rule bit_eqI) (auto simp: bit_or_iff bit_and_iff bit_not_iff)
  finally have e: "and x (not 7) = x - take_bit 3 x" unfolding m take_bit_eq_mask by (simp add: algebra_simps)
  have "unat (take_bit 3 x) = take_bit 3 (unat x)" by (simp only: unsigned_take_bit_eq)
  also have "\<dots> = unat x mod 8" by (simp add: take_bit_eq_mod)
  finally have t: "unat (take_bit 3 x) = unat x mod 8" .
  have "take_bit 3 x \<le> x" unfolding word_le_unat t by simp
  then have "unat (and x (not 7)) = unat x - unat x mod 8" unfolding e by (simp only: unat_sub_ok t)
  then show ?thesis by (simp add: minus_mod_eq_div_mult)
qed

lemma round_up_bounds: "(n + 7) div 8 * 8 \<ge> n \<and> (n + 7) div 8 * 8 < n + (8 :: nat) \<and> 8 dvd (n + 7) div 8 * 8"
  using div_mult_mod_eq [of "n + 7" 8] mod_less_divisor [of 8 "n + 7"] by simp linarith

text \<open>A request that cannot wrap the addition: the sizes a caller means.\<close>

lemma multiple_below: "8 dvd a \<Longrightarrow> 8 dvd b \<Longrightarrow> a + b < 1048584 \<Longrightarrow> a + b \<le> (1048576 :: nat)"
proof -
  assume "8 dvd a" "8 dvd b" and less: "a + b < 1048584"
  then obtain k where "a + b = 8 * k" using dvd_add by blast
  with less show ?thesis by presburger
qed

lemma allocate_exact:
  assumes "unat offset \<le> 1048576" "8 dvd unat offset" "unat len < 2 ^ 63"
  shows "\<exists>offset'. userspace_allocate q len offset =
       Some (if unat offset + unat len \<le> 1048576 then (Inr offset, offset') else (Inl ''Memory pool exhausted'', offset))
     \<and> (unat offset + unat len \<le> 1048576 \<longrightarrow> unat offset' = unat offset + (unat len + 7) div 8 * 8 \<and> unat offset' \<le> 1048576 \<and> 8 dvd unat offset')"
proof -
  have s: "unat offset + unat len < 2 ^ LENGTH(64)" "unat len + unat (7 :: u64) < 2 ^ LENGTH(64)" using assms by auto
  have e: "add_w q offset len = Some (offset + len)" "unat (offset + len) = unat offset + unat len"
    and u: "add_w q len 7 = Some (len + 7)" "unat (len + 7) = unat len + 7"
    using add_w_ok [OF s(1)] unat_add_ok [OF s(1)] add_w_ok [OF s(2)] unat_add_ok [OF s(2)] by simp_all
  have cmp: "POOL_BYTES < offset + len \<longleftrightarrow> 1048576 < unat offset + unat len" by (simp add: POOL_BYTES_def word_less_nat_alt e(2))
  define up where "up = and (len + 7) (- 8 :: u64)"
  have "up = and (len + 7) (not 7)" by (simp add: up_def)
  then have up: "unat up = (unat len + 7) div 8 * 8" by (simp only: and_not_7 u(2))
  show ?thesis
  proof (cases "unat offset + unat len \<le> 1048576")
    case True
    have r: "(unat len + 7) div 8 * 8 < unat len + 8" "8 dvd (unat len + 7) div 8 * 8" using round_up_bounds [of "unat len"] by auto
    have le: "unat offset + (unat len + 7) div 8 * 8 \<le> 1048576" using multiple_below [OF assms(2) r(2)] True r(1) by simp
    then have s3: "unat offset + unat up < 2 ^ LENGTH(64)" by (simp add: up)
    have "8 dvd unat offset + (unat len + 7) div 8 * 8" using assms(2) r(2) by (rule dvd_add)
    then show ?thesis
      using True e u cmp le add_w_ok [OF s3] unat_add_ok [OF s3] by (simp add: userspace_allocate_def up_def [symmetric] up)
  next
    case False then show ?thesis using e cmp by (simp add: userspace_allocate_def)
  qed
qed

definition apart_in_pool :: "(u64 \<times> u64) list \<Rightarrow> u64 \<Rightarrow> bool" where
  "apart_in_pool rs lo \<longleftrightarrow> (\<forall>(ptr, len) \<in> set rs. unat lo \<le> unat ptr \<and> unat ptr + unat len \<le> 1048576 \<and> 8 dvd unat ptr)
     \<and> sorted_wrt (\<lambda>(ptr, len) (ptr', len'). unat ptr + unat len \<le> unat ptr') rs"

text \<open>
  Whatever the sizes asked for, below half the address space: every allocation is answered, the stretches it hands out lie in
  the pool of one mebibyte, are aligned to eight bytes and do not overlap, and the first request that does not fit is
  refused without using anything up.
\<close>

theorem bump_allocations_are_apart:
  assumes "\<forall>len \<in> set lens. unat len < 2 ^ 63"
  shows "\<exists>rs offset. allocate_run q lens 0 = Some (rs, offset) \<and> apart_in_pool rs 0 \<and> unat offset \<le> 1048576"
proof -
  have "unat offset \<le> 1048576 \<Longrightarrow> 8 dvd unat offset \<Longrightarrow> \<forall>len \<in> set lens. unat len < 2 ^ 63 \<Longrightarrow>
      \<exists>rs offset'. allocate_run q lens offset = Some (rs, offset') \<and> apart_in_pool rs offset \<and> unat offset' \<le> 1048576" for offset
  proof (induction lens arbitrary: offset)
    case Nil then show ?case by (simp add: apart_in_pool_def)
  next
    case (Cons len lens)
    have l: "unat len < 2 ^ 63" using Cons.prems(3) by simp
    obtain offset' where a: "userspace_allocate q len offset =
       Some (if unat offset + unat len \<le> 1048576 then (Inr offset, offset') else (Inl ''Memory pool exhausted'', offset))"
      and o: "unat offset + unat len \<le> 1048576 \<longrightarrow> unat offset' = unat offset + (unat len + 7) div 8 * 8 \<and> unat offset' \<le> 1048576 \<and> 8 dvd unat offset'"
      using allocate_exact [OF Cons.prems(1,2) l] by blast
    show ?case
    proof (cases "unat offset + unat len \<le> 1048576")
      case True
      obtain rs offset'' where r: "allocate_run q lens offset' = Some (rs, offset'')" "apart_in_pool rs offset'" "unat offset'' \<le> 1048576"
        using Cons.IH [of offset'] o True Cons.prems(3) by auto
      have "unat offset + unat len \<le> unat offset'" using o True round_up_bounds [of "unat len"] by auto
      then have "apart_in_pool ((offset, len) # rs) offset"
        using r(2) True Cons.prems(2) by (fastforce simp: apart_in_pool_def)
      then show ?thesis using a r True by simp
    next
      case False
      then show ?thesis using Cons.IH [of offset] a Cons.prems by auto
    qed
  qed
  from this [of 0] show ?thesis using assms by simp
qed

theorem bump_allocations_are_apart_witness:
  "\<exists>rs offset. allocate_run Checked [5, 64, 2000000] 0 = Some (rs, offset) \<and> apart_in_pool rs 0"
  using bump_allocations_are_apart [of "[5, 64, 2000000]" Checked] by auto

text \<open>
  The check adds before it compares: in a build that wraps, a request of nearly the whole address space passes it, and the
  next request is given memory from the very beginning again.
\<close>

theorem bump_allocator_wraps:
  "userspace_allocate Wrapping (- 64) 64 = Some (Inr 64, 0)"
  by (simp add: userspace_allocate_def add_w_def POOL_BYTES_def)

section \<open>Writes\<close>

record io_stats =
  operations_queued :: u64
  operations_completed :: u64
  bytes_transferred :: u64
  syscalls_avoided :: u64

record io_optimizer =
  io_uring_available :: bool
  async_io_stats :: io_stats
  mmap_regions :: "(nat \<times> nat \<times> int) list"

definition io_stats_zero :: io_stats where
  "io_stats_zero = \<lparr>operations_queued = 0, operations_completed = 0, bytes_transferred = 0, syscalls_avoided = 0\<rparr>"

text \<open>The part of the kernel version before the first full stop, read as a number: an optional plus sign and digits.\<close>

definition is_digit :: "char \<Rightarrow> bool" where
  "is_digit c \<longleftrightarrow> 48 \<le> (of_char c :: nat) \<and> (of_char c :: nat) \<le> 57"

definition digits_value :: "string \<Rightarrow> nat" where
  "digits_value ds = fold (\<lambda>c n. n * 10 + (of_char c - 48)) ds 0"

definition parse_u32 :: "string \<Rightarrow> nat option" where
  "parse_u32 s =
     (let ds = (case s of CHR ''+'' # rest \<Rightarrow> rest | _ \<Rightarrow> s)
      in if ds \<noteq> [] \<and> list_all is_digit ds \<and> digits_value ds < 2 ^ 32 then Some (digits_value ds) else None)"

definition check_io_uring_support :: "bool \<Rightarrow> string option \<Rightarrow> bool" where
  "check_io_uring_support linux uname =
     (case (linux, uname) of
        (True, Some kernel_version) \<Rightarrow>
          (case parse_u32 (takeWhile (\<lambda>c. c \<noteq> CHR ''.'') kernel_version) of Some major \<Rightarrow> 5 \<le> major | None \<Rightarrow> False)
      | _ \<Rightarrow> False)"

definition io_optimizer_new :: "bool \<Rightarrow> string option \<Rightarrow> io_optimizer" where
  "io_optimizer_new linux uname =
     \<lparr>io_uring_available = check_io_uring_support linux uname, async_io_stats = io_stats_zero, mmap_regions = []\<rparr>"

fun io_uring_loop :: "u8 list list \<Rightarrow> io_stats \<Rightarrow> nat list \<times> io_stats" where
  "io_uring_loop [] st = ([], st)"
| "io_uring_loop (bytes # rest) st =
     (let (results, st') = io_uring_loop rest (st\<lparr>operations_queued := operations_queued st + 1,
            bytes_transferred := bytes_transferred st + of_nat (length bytes), operations_completed := operations_completed st + 1\<rparr>)
      in (length bytes # results, st'))"

definition io_uring_batch_write :: "u8 list list \<Rightarrow> io_optimizer \<Rightarrow> nat list \<times> io_optimizer" where
  "io_uring_batch_write requests o' =
     (let (results, st) = io_uring_loop requests (async_io_stats o')
      in (results, o'\<lparr>async_io_stats := st\<lparr>syscalls_avoided := syscalls_avoided st + (of_nat (length requests) - 1)\<rparr>\<rparr>))"

fun standard_loop :: "u8 list list \<Rightarrow> io_stats \<Rightarrow> nat list \<times> io_stats" where
  "standard_loop [] st = ([], st)"
| "standard_loop (bytes # rest) st =
     (let (results, st') = standard_loop rest (st\<lparr>bytes_transferred := bytes_transferred st + of_nat (length bytes)\<rparr>)
      in (length bytes # results, st'))"

definition standard_batch_write :: "u8 list list \<Rightarrow> io_optimizer \<Rightarrow> nat list \<times> io_optimizer" where
  "standard_batch_write requests o' =
     (let (results, st) = standard_loop requests (async_io_stats o') in (results, o'\<lparr>async_io_stats := st\<rparr>))"

definition batch_async_write :: "u8 list list \<Rightarrow> io_optimizer \<Rightarrow> nat list \<times> io_optimizer" where
  "batch_async_write requests o' =
     (if io_uring_available o' \<and> 1 < length requests then io_uring_batch_write requests o' else standard_batch_write requests o')"

text \<open>\<open>open\<close> gives a descriptor or fails; \<open>map\<close> gives an address or fails.\<close>

definition create_memory_mapped_io :: "bool \<Rightarrow> string + int \<Rightarrow> nat option \<Rightarrow> nat \<Rightarrow> io_optimizer \<Rightarrow> (string + nat) \<times> io_optimizer" where
  "create_memory_mapped_io unix opened addr len o' =
     (if \<not> unix then (Inl ''Memory mapped I/O not supported on this platform'', o')
      else case opened of
             Inl e \<Rightarrow> (Inl e, o')
           | Inr fd \<Rightarrow> (case addr of
               None \<Rightarrow> (Inl ''Memory mapping failed'', o')
             | Some a \<Rightarrow> (Inr a, o'\<lparr>mmap_regions := mmap_regions o' @ [(a, len, fd)]\<rparr>)))"

lemma io_uring_loop_result:
  "io_uring_loop rs st = (map length rs, st\<lparr>operations_queued := operations_queued st + of_nat (length rs),
     bytes_transferred := bytes_transferred st + of_nat (sum_list (map length rs)),
     operations_completed := operations_completed st + of_nat (length rs)\<rparr>)"
  by (induction rs arbitrary: st) (simp_all add: Let_def algebra_simps)

lemma standard_loop_result:
  "standard_loop rs st = (map length rs, st\<lparr>bytes_transferred := bytes_transferred st + of_nat (sum_list (map length rs))\<rparr>)"
  by (induction rs arbitrary: st) (simp_all add: Let_def algebra_simps)

text \<open>Both ways of writing report every byte as written and count the same bytes.\<close>

lemma batch_write_result:
  "fst (batch_async_write rs o') = map length rs
   \<and> bytes_transferred (async_io_stats (snd (batch_async_write rs o'))) = bytes_transferred (async_io_stats o') + of_nat (sum_list (map length rs))"
  by (simp add: batch_async_write_def io_uring_batch_write_def standard_batch_write_def io_uring_loop_result standard_loop_result)

section \<open>The manager\<close>

record bypass_stats =
  st_bypassed :: u64
  st_batched :: u64
  st_time_cached :: u64
  st_io_optimized :: u64
  st_mem_avoided :: u64

record bypass_manager =
  bm_config :: syscall_config
  bm_batch :: batch_processor
  bm_time :: time_provider
  bm_io :: io_optimizer
  bm_stats :: bypass_stats

definition bypass_manager_new :: "syscall_config \<Rightarrow> reading \<Rightarrow> bool \<Rightarrow> string option \<Rightarrow> (string + bypass_manager) rust" where
  "bypass_manager_new config rd linux uname = do {
     batch \<leftarrow> batch_processor_new (batch_size config);
     Some (case time_provider_new (enable_vdso config) rd of
        Inl e \<Rightarrow> Inl e
      | Inr time \<Rightarrow> Inr \<lparr>bm_config = config, bm_batch = batch, bm_time = time, bm_io = io_optimizer_new linux uname,
          bm_stats = \<lparr>st_bypassed = 0, st_batched = 0, st_time_cached = 0, st_io_optimized = 0, st_mem_avoided = 0\<rparr>\<rparr>)
   }"

definition fast_timestamp_nanos :: "profile \<Rightarrow> reading \<Rightarrow> bypass_manager \<Rightarrow> (u64 \<times> bypass_manager) rust" where
  "fast_timestamp_nanos q rd m =
     (if enable_fast_time (bm_config m) then do {
        let m1 = m\<lparr>bm_stats := (bm_stats m)\<lparr>st_time_cached := st_time_cached (bm_stats m) + 1\<rparr>\<rparr>;
        (t, time) \<leftarrow> fast_now_nanos q rd (bm_time m1);
        Some (t, m1\<lparr>bm_time := time\<rparr>)
      }
      else Some (case rd_unix rd of Some t \<Rightarrow> t | None \<Rightarrow> 0, m))"

fun submit_all :: "syscall_request list \<Rightarrow> batch_processor \<Rightarrow> (string + unit) \<times> batch_processor" where
  "submit_all [] b = (Inr (), b)"
| "submit_all (r # rs) b =
     (case submit_request r b of (Inl e, b') \<Rightarrow> (Inl e, b') | (Inr u, b') \<Rightarrow> submit_all rs b')"

definition submit_batch_io :: "syscall_request list \<Rightarrow> bypass_manager \<Rightarrow> (string + unit) \<times> bypass_manager" where
  "submit_batch_io operations m =
     (if \<not> enable_batch_processing (bm_config m) then (Inl ''Batch processing disabled'', m)
      else case submit_all operations (bm_batch m) of
             (Inl e, b) \<Rightarrow> (Inl e, m\<lparr>bm_batch := b\<rparr>)
           | (Inr u, b) \<Rightarrow> (Inr (), m\<lparr>bm_batch := b, bm_stats := (bm_stats m)\<lparr>st_batched := st_batched (bm_stats m) + 1\<rparr>\<rparr>))"

text \<open>One tick of the batch worker.\<close>

definition batch_tick :: "bypass_manager \<Rightarrow> bypass_manager" where
  "batch_tick m =
     (case execute_batch (bm_batch m) of
        (Inr processed, groups, b) \<Rightarrow>
          (if 0 < processed
           then m\<lparr>bm_batch := b, bm_stats := (bm_stats m)\<lparr>st_bypassed := st_bypassed (bm_stats m) + of_nat processed\<rparr>\<rparr>
           else m\<lparr>bm_batch := b\<rparr>)
      | (Inl e, groups, b) \<Rightarrow> m\<lparr>bm_batch := b\<rparr>)"

text \<open>The general allocator answers with an address or fails.\<close>

definition fast_allocate :: "profile \<Rightarrow> (u64 \<Rightarrow> u64 option) \<Rightarrow> u64 \<Rightarrow> u64 \<Rightarrow> bypass_manager \<Rightarrow> ((string + u64) \<times> u64 \<times> bypass_manager) rust" where
  "fast_allocate q alloc len offset m =
     (if enable_userspace_impl (bm_config m) then do {
        let m1 = m\<lparr>bm_stats := (bm_stats m)\<lparr>st_mem_avoided := st_mem_avoided (bm_stats m) + 1\<rparr>\<rparr>;
        (r, offset') \<leftarrow> userspace_allocate q len offset;
        Some (r, offset', m1)
      }
      else Some (case alloc len of Some ptr \<Rightarrow> Inr ptr | None \<Rightarrow> Inl ''Allocation failed'', offset, m))"

lemma submit_all_room:
  assumes "aq_ok (pending_calls b)"
  shows "aq_items (pending_calls (snd (submit_all rs b))) = aq_items (pending_calls b) @ take (aq_cap (pending_calls b) - length (aq_items (pending_calls b))) rs
     \<and> (fst (submit_all rs b) = Inr () \<longleftrightarrow> length (aq_items (pending_calls b)) + length rs \<le> aq_cap (pending_calls b))"
  using assms
proof (induction rs arbitrary: b)
  case (Cons r rs)
  define b' where "b' = b\<lparr>pending_calls := aq_push r (pending_calls b)\<rparr>"
  have ok: "aq_ok (pending_calls b')" using Cons.prems by (auto simp: b'_def)
  show ?case
  proof (cases "length (aq_items (pending_calls b)) < aq_cap (pending_calls b)")
    case True
    have "aq_items (pending_calls b') = aq_items (pending_calls b) @ [r]" "aq_cap (pending_calls b') = aq_cap (pending_calls b)"
      using True by (simp_all add: b'_def aq_push_def)
    moreover have "submit_all (r # rs) b = submit_all rs b'" using True by (simp add: submit_request_def b'_def)
    ultimately show ?thesis using Cons.IH [OF ok] True by (auto simp: take_Cons' Suc_diff_Suc simp del: submit_all.simps)
  next
    case False then show ?thesis using Cons.prems by (simp add: submit_request_def aq_ok_def)
  qed
qed (simp add: aq_ok_def)

text \<open>
  A batch of operations that does not fit the queue is refused with an error, but the operations up to the one that did not
  fit stay in the queue and will be executed.
\<close>

theorem refused_batch_stays_queued:
  assumes "enable_batch_processing (bm_config m)" "aq_ok (pending_calls (bm_batch m))"
    "aq_cap (pending_calls (bm_batch m)) < length (aq_items (pending_calls (bm_batch m))) + length ops"
  shows "\<exists>e m'. submit_batch_io ops m = (Inl e, m') \<and> bm_stats m' = bm_stats m
     \<and> aq_items (pending_calls (bm_batch m')) =
         aq_items (pending_calls (bm_batch m)) @ take (aq_cap (pending_calls (bm_batch m)) - length (aq_items (pending_calls (bm_batch m)))) ops"
proof -
  obtain r b where r: "submit_all ops (bm_batch m) = (r, b)" by (cases "submit_all ops (bm_batch m)") auto
  have "r \<noteq> Inr ()" "aq_items (pending_calls b) =
      aq_items (pending_calls (bm_batch m)) @ take (aq_cap (pending_calls (bm_batch m)) - length (aq_items (pending_calls (bm_batch m)))) ops"
    using submit_all_room [OF assms(2), of ops] assms(3) r by auto
  then show ?thesis using assms(1) r by (cases r) (auto simp: submit_batch_io_def)
qed

end
