(* ===== verification/Clocks.thy ===== *)
theory Clocks
  imports Syscalls
begin

text \<open>
  The clock of \<open>common/clock.rs\<close>, which adds the time of the monotonic clock to a base read once from the wall clock, and
  the timers of \<open>common/fast_timing.rs\<close>. An instant is its distance in nanoseconds from some origin; every reading of the
  two system clocks is an argument.
\<close>

section \<open>The calibrated clock\<close>

record high_performance_clock =
  base_instant :: nat
  base_timestamp_us :: int
  last_calibration :: nat
  calibration_interval_secs :: u64

record clock_sample =
  instant_before :: nat
  sample_utc :: int
  instant_after :: nat

definition sample_latency :: "clock_sample \<Rightarrow> int" where
  "sample_latency s = wrap_i64 (int (instant_after s - instant_before s))"

fun best_sample :: "clock_sample list \<Rightarrow> int \<times> nat \<times> int \<Rightarrow> int \<times> nat \<times> int" where
  "best_sample [] best = best"
| "best_sample (s # ss) (best_offset, best_instant, best_timestamp) =
     best_sample ss (if sample_latency s < best_offset then (sample_latency s, instant_before s, sample_utc s)
                     else (best_offset, best_instant, best_timestamp))"

definition new_with_calibration_interval :: "u64 \<Rightarrow> nat \<times> int \<Rightarrow> clock_sample list \<Rightarrow> high_performance_clock" where
  "new_with_calibration_interval secs first samples =
     (case best_sample (take 3 samples) (2 ^ 63 - 1, first) of
        (offset, best_instant, best_timestamp) \<Rightarrow>
          \<lparr>base_instant = best_instant, base_timestamp_us = best_timestamp, last_calibration = best_instant,
           calibration_interval_secs = secs\<rparr>)"

definition clock_new :: "nat \<times> int \<Rightarrow> clock_sample list \<Rightarrow> high_performance_clock" where
  "clock_new = new_with_calibration_interval 300"

definition clock_now_micros :: "profile \<Rightarrow> nat \<Rightarrow> high_performance_clock \<Rightarrow> int rust" where
  "clock_now_micros q now c = i64_result q (base_timestamp_us c + wrap_i64 (int ((now - base_instant c) div 1000)))"

definition recalibrate :: "profile \<Rightarrow> nat \<Rightarrow> int \<Rightarrow> high_performance_clock \<Rightarrow> high_performance_clock rust" where
  "recalibrate q current_monotonic current_utc c = do {
     expected_utc \<leftarrow> i64_result q (base_timestamp_us c + wrap_i64 (int ((current_monotonic - base_instant c) div 1000)));
     drift_us \<leftarrow> i64_result q (current_utc - expected_utc);
     drift \<leftarrow> i64_result q \<bar>drift_us\<bar>;
     let c1 = (if 1000 < drift then c\<lparr>base_instant := current_monotonic, base_timestamp_us := current_utc\<rparr> else c);
     Some (c1\<lparr>last_calibration := current_monotonic\<rparr>)
   }"

text \<open>The arguments are the instants read by the test, by the calibration with its wall-clock reading, and by the answer.\<close>

definition now_micros_with_calibration ::
  "profile \<Rightarrow> nat \<Rightarrow> nat \<times> int \<Rightarrow> nat \<Rightarrow> high_performance_clock \<Rightarrow> (int \<times> high_performance_clock) rust" where
  "now_micros_with_calibration q t1 rd t3 c = do {
     c' \<leftarrow> (if unat (calibration_interval_secs c) \<le> (t1 - last_calibration c) div 1000000000 then recalibrate q (fst rd) (snd rd) c else Some c);
     t \<leftarrow> clock_now_micros q t3 c';
     Some (t, c')
   }"

text \<open>The process-wide clock, made by the first call.\<close>

definition global_now_micros ::
  "profile \<Rightarrow> nat \<times> int \<Rightarrow> clock_sample list \<Rightarrow> nat \<Rightarrow> high_performance_clock option \<Rightarrow> (int \<times> high_performance_clock option) rust" where
  "global_now_micros q first samples now g = do {
     let c = unwrap_or g (clock_new first samples);
     t \<leftarrow> clock_now_micros q now c;
     Some (t, Some c)
   }"

definition elapsed_micros_since ::
  "profile \<Rightarrow> nat \<times> int \<Rightarrow> clock_sample list \<Rightarrow> nat \<Rightarrow> int \<Rightarrow> high_performance_clock option \<Rightarrow> (int \<times> high_performance_clock option) rust" where
  "elapsed_micros_since q first samples now start_timestamp_us g = do {
     (t, g') \<leftarrow> global_now_micros q first samples now g;
     d \<leftarrow> i64_result q (t - start_timestamp_us);
     Some (d, g')
   }"

section \<open>Accuracy\<close>

text \<open>The wall clock as a function of the instant, in whole microseconds, with its offset from the monotonic clock.\<close>

definition utc_micros :: "int \<Rightarrow> nat \<Rightarrow> int" where
  "utc_micros offset t = (offset + int t) div 1000"

definition honest :: "int \<Rightarrow> clock_sample \<Rightarrow> bool" where
  "honest offset s \<longleftrightarrow> (\<exists>t. instant_before s \<le> t \<and> t \<le> instant_after s \<and> sample_utc s = utc_micros offset t)
     \<and> instant_after s - instant_before s < 2 ^ 63 - 1"

lemma sample_latency_honest: "honest offset s \<Longrightarrow> sample_latency s = int (instant_after s - instant_before s) \<and> sample_latency s < 2 ^ 63 - 1"
  by (auto simp: honest_def sample_latency_def wrap_i64_small i64_range_def)

definition chosen_from :: "clock_sample list \<Rightarrow> int \<times> nat \<times> int \<Rightarrow> bool" where
  "chosen_from ss best \<longleftrightarrow> (\<exists>s \<in> set ss. best = (sample_latency s, instant_before s, sample_utc s)
     \<and> (\<forall>s' \<in> set ss. sample_latency s \<le> sample_latency s'))"

lemma chosen_head:
  "\<forall>s' \<in> set ss. sample_latency s \<le> sample_latency s' \<Longrightarrow> chosen_from (s # ss) (sample_latency s, instant_before s, sample_utc s)"
  by (simp add: chosen_from_def)

lemma chosen_tail: "chosen_from ss best \<Longrightarrow> fst best \<le> sample_latency s \<Longrightarrow> chosen_from (s # ss) best"
  by (auto simp: chosen_from_def)

lemma best_sample_cases:
  "best_sample ss (b, i, t) = (b, i, t) \<and> (\<forall>s \<in> set ss. b \<le> sample_latency s)
   \<or> chosen_from ss (best_sample ss (b, i, t)) \<and> fst (best_sample ss (b, i, t)) < b"
proof (induction ss arbitrary: b i t)
  case (Cons s ss)
  show ?case
  proof (cases "sample_latency s < b")
    case True
    then have "best_sample (s # ss) (b, i, t) = best_sample ss (sample_latency s, instant_before s, sample_utc s)" by simp
    then show ?thesis
      using Cons.IH [of "sample_latency s" "instant_before s" "sample_utc s"] True chosen_head [of ss s]
        chosen_tail [of ss "best_sample (s # ss) (b, i, t)" s]
      by (elim disjE conjE) (simp_all only: fst_conv less_imp_le less_trans simp_thms)
  next
    case False
    then have e: "best_sample (s # ss) (b, i, t) = best_sample ss (b, i, t)" by simp
    from Cons.IH [of b i t] show ?thesis
    proof (elim disjE conjE)
      assume "chosen_from ss (best_sample ss (b, i, t))" "fst (best_sample ss (b, i, t)) < b"
      with False show ?thesis unfolding e by (auto intro!: chosen_tail)
    qed (use False e in simp)
  qed
qed simp

lemma best_sample_chosen:
  assumes "ss \<noteq> []" "\<forall>s \<in> set ss. honest offset s"
  shows "chosen_from ss (best_sample ss (2 ^ 63 - 1, first))"
proof -
  obtain i t where f: "first = (i, t)" by force
  have "\<not> (\<forall>s \<in> set ss. 2 ^ 63 - 1 \<le> sample_latency s)"
    using assms sample_latency_honest [of offset "hd ss"] by (metis hd_in_set linorder_not_le)
  then show ?thesis using best_sample_cases [of ss "2 ^ 63 - 1" i t] unfolding f by blast
qed

lemma i64_range_sums:
  assumes "\<bar>a\<bar> < 2 ^ 61" "\<bar>b\<bar> < 2 ^ 61" "\<bar>d\<bar> < 2 ^ 60"
  shows "i64_range d" "i64_range (a + d)" "i64_range (b - (a + d))" "i64_range \<bar>b - (a + d)\<bar>"
  using assms unfolding i64_range_def abs_less_iff by auto

lemma micros_add: "int ((a + b) div 1000) - int (a div 1000) - int (b div 1000) \<in> {0, 1}"
proof -
  have "a mod 1000 < 1000" "b mod 1000 < 1000" by simp_all
  then have "(a mod 1000 + b mod 1000) div 1000 < 2" by linarith
  then have "(a mod 1000 + b mod 1000) div 1000 = 0 \<or> (a mod 1000 + b mod 1000) div 1000 = 1" by linarith
  then show ?thesis unfolding div_add1_eq [of a b 1000] by auto
qed

lemma drift_step: "\<not> 1000 < \<bar>utc - (b + x)\<bar> \<Longrightarrow> y - x - z \<in> {0, 1} \<Longrightarrow> \<bar>b + y - (utc + z)\<bar> \<le> 1001" for b x y z utc :: int
  by auto

lemma clock_now_ok:
  assumes "t < 2 ^ 60" "\<bar>base_timestamp_us c\<bar> < 2 ^ 61"
  shows "clock_now_micros q t c = Some (base_timestamp_us c + int ((t - base_instant c) div 1000))"
proof -
  have "(t - base_instant c) div 1000 \<le> t" using div_le_dividend [of "t - base_instant c" 1000] by linarith
  then have "\<bar>int ((t - base_instant c) div 1000)\<bar> < 2 ^ 60" using assms(1) by simp
  note r = i64_range_sums [OF assms(2) assms(2) this]
  show ?thesis using r(1,2) by (simp only: clock_now_micros_def wrap_i64_small i64_result_ok)
qed



text \<open>
  A reading that falls due for calibration agrees afterwards with the wall clock: it answers within a millisecond and a
  microsecond of the time that the wall-clock reading of the calibration and the time passed since give.
\<close>

theorem calibration_bounds_drift:
  assumes "unat (calibration_interval_secs c) \<le> (t1 - last_calibration c) div 1000000000"
    "base_instant c \<le> m" "m \<le> now" "now < 2 ^ 60" "\<bar>base_timestamp_us c\<bar> < 2 ^ 61" "\<bar>utc\<bar> < 2 ^ 61"
  shows "\<exists>t c'. now_micros_with_calibration q t1 (m, utc) now c = Some (t, c') \<and> last_calibration c' = m
     \<and> \<bar>t - (utc + int ((now - m) div 1000))\<bar> \<le> 1001"
proof -
  define u where "u = base_timestamp_us c + int ((m - base_instant c) div 1000)"
  define c' where "c' = (if 1000 < \<bar>utc - u\<bar> then c\<lparr>base_instant := m, base_timestamp_us := utc, last_calibration := m\<rparr>
                         else c\<lparr>last_calibration := m\<rparr>)"
  have "m < 2 ^ 60" using assms(3,4) by linarith
  note u = clock_now_ok [OF this assms(5), of q, unfolded clock_now_micros_def, folded u_def]
  have "\<bar>int ((m - base_instant c) div 1000)\<bar> < 2 ^ 60"
    using \<open>m < 2 ^ 60\<close> div_le_dividend [of "m - base_instant c" 1000] by simp
  then have "i64_range (utc - u)" "i64_range \<bar>utc - u\<bar>" unfolding u_def by (rule i64_range_sums [OF assms(5,6)])+
  then have r: "recalibrate q m utc c = Some c'" by (simp add: recalibrate_def u i64_result_ok c'_def)
  have "\<bar>base_timestamp_us c'\<bar> < 2 ^ 61" using assms(5,6) by (simp add: c'_def)
  note now = clock_now_ok [OF assms(4) this, of q]
  have split: "now - base_instant c = (m - base_instant c) + (now - m)" using assms(2,3) by simp
  have "\<bar>base_timestamp_us c' + int ((now - base_instant c') div 1000) - (utc + int ((now - m) div 1000))\<bar> \<le> 1001"
  proof (cases "1000 < \<bar>utc - u\<bar>")
    case False
    have "int ((now - base_instant c) div 1000) - int ((m - base_instant c) div 1000) - int ((now - m) div 1000) \<in> {0, 1}"
      unfolding split by (rule micros_add)
    then have "\<bar>base_timestamp_us c + int ((now - base_instant c) div 1000) - (utc + int ((now - m) div 1000))\<bar> \<le> 1001"
      using False unfolding u_def by (rule drift_step [rotated])
    then show ?thesis using False by (simp add: c'_def)
  next
    case True
    then have "base_instant c' = m" "base_timestamp_us c' = utc" by (simp_all add: c'_def)
    then show ?thesis by simp
  qed
  moreover have "last_calibration c' = m" by (simp add: c'_def)
  ultimately show ?thesis using assms(1) r now by (simp add: now_micros_with_calibration_def)
qed

theorem calibration_bounds_drift_witness:
  "\<exists>t c'. now_micros_with_calibration Checked 300000000000 (300000000500, 300005000) 300000002000
      \<lparr>base_instant = 0, base_timestamp_us = 0, last_calibration = 0, calibration_interval_secs = 300\<rparr> = Some (t, c')
     \<and> \<bar>t - 300005001\<bar> \<le> 1001"
  using calibration_bounds_drift [of "\<lparr>base_instant = 0, base_timestamp_us = 0, last_calibration = 0, calibration_interval_secs = 300\<rparr>"
      300000000000 300000000500 300000002000 300005000 Checked] by auto

section \<open>Timers\<close>

text \<open>The timer of \<open>common/fast_timing.rs\<close>: the bypass manager with its default configuration, made by the first use.\<close>

record fast_timer =
  timer_manager :: bypass_manager
  timer_base_nanos :: u64

definition fast_timer_new :: "profile \<Rightarrow> reading \<Rightarrow> bool \<Rightarrow> string option \<Rightarrow> reading \<Rightarrow> fast_timer rust" where
  "fast_timer_new q rd linux uname rd' = do {
     r \<leftarrow> bypass_manager_new default_config rd linux uname;
     m \<leftarrow> unwrap_ok r;
     (t, m') \<leftarrow> fast_timestamp_nanos q rd' m;
     Some \<lparr>timer_manager = m', timer_base_nanos = t\<rparr>
   }"

definition timer_now_nanos :: "profile \<Rightarrow> reading \<Rightarrow> fast_timer \<Rightarrow> (u64 \<times> fast_timer) rust" where
  "timer_now_nanos q rd f = do { (t, m) \<leftarrow> fast_timestamp_nanos q rd (timer_manager f); Some (t, f\<lparr>timer_manager := m\<rparr>) }"

definition timer_now_micros :: "profile \<Rightarrow> reading \<Rightarrow> fast_timer \<Rightarrow> (u64 \<times> fast_timer) rust" where
  "timer_now_micros q rd f = do { (t, f') \<leftarrow> timer_now_nanos q rd f; Some (t div 1000, f') }"

definition timer_now_millis :: "profile \<Rightarrow> reading \<Rightarrow> fast_timer \<Rightarrow> (u64 \<times> fast_timer) rust" where
  "timer_now_millis q rd f = do { (t, f') \<leftarrow> timer_now_nanos q rd f; Some (t div 1000000, f') }"

text \<open>Elapsed time since a start that may lie in the future is 0; a \<open>Duration\<close> is the same number of nanoseconds.\<close>

definition timer_elapsed_nanos :: "profile \<Rightarrow> reading \<Rightarrow> u64 \<Rightarrow> fast_timer \<Rightarrow> (u64 \<times> fast_timer) rust" where
  "timer_elapsed_nanos q rd start_nanos f = do { (t, f') \<leftarrow> timer_now_nanos q rd f; Some (saturating_sub t start_nanos, f') }"

record stopwatch =
  start_nanos :: u64
  sw_label :: string

definition stopwatch_start :: "profile \<Rightarrow> reading \<Rightarrow> string \<Rightarrow> fast_timer \<Rightarrow> (stopwatch \<times> fast_timer) rust" where
  "stopwatch_start q rd lbl f = do { (t, f') \<leftarrow> timer_now_nanos q rd f; Some (\<lparr>start_nanos = t, sw_label = lbl\<rparr>, f') }"

definition stopwatch_elapsed_nanos :: "profile \<Rightarrow> reading \<Rightarrow> stopwatch \<Rightarrow> fast_timer \<Rightarrow> (u64 \<times> fast_timer) rust" where
  "stopwatch_elapsed_nanos q rd sw = timer_elapsed_nanos q rd (start_nanos sw)"

definition stopwatch_elapsed_micros :: "profile \<Rightarrow> reading \<Rightarrow> stopwatch \<Rightarrow> fast_timer \<Rightarrow> (u64 \<times> fast_timer) rust" where
  "stopwatch_elapsed_micros q rd sw f = do { (t, f') \<leftarrow> stopwatch_elapsed_nanos q rd sw f; Some (t div 1000, f') }"

definition stopwatch_elapsed_millis :: "profile \<Rightarrow> reading \<Rightarrow> stopwatch \<Rightarrow> fast_timer \<Rightarrow> (u64 \<times> fast_timer) rust" where
  "stopwatch_elapsed_millis q rd sw f = do { (t, f') \<leftarrow> stopwatch_elapsed_nanos q rd sw f; Some (t div 1000000, f') }"

lemma timer_raw:
  assumes "enable_fast_time (bm_config (timer_manager f))" "vdso_enabled (bm_time (timer_manager f))" "rd_raw rd = Some (s, n)"
    "unat s * 1000000000 + unat n < 2 ^ LENGTH(64)"
  shows "\<exists>f' t. timer_now_nanos q rd f = Some (t, f') \<and> unat t = unat s * 1000000000 + unat n
     \<and> enable_fast_time (bm_config (timer_manager f')) \<and> vdso_enabled (bm_time (timer_manager f'))"
proof -
  have m: "unat s * unat (1000000000 :: u64) < 2 ^ LENGTH(64)" using assms(4) by simp
  have "mul_w q s 1000000000 = Some (s * 1000000000)" "unat (s * 1000000000) = unat s * 1000000000"
    using mul_w_ok [OF m] unat_mul_ok [OF m] by simp_all
  moreover have "add_w q (s * 1000000000) n = Some (s * 1000000000 + n)" "unat (s * 1000000000 + n) = unat s * 1000000000 + unat n"
    using add_w_ok [of "s * 1000000000" n q] unat_add_ok [of "s * 1000000000" n] assms(4) calculation(2) by simp_all
  ultimately show ?thesis using assms by (simp add: timer_now_nanos_def fast_timestamp_nanos_def fast_now_nanos_def vdso_time_nanos_def)
qed

text \<open>
  A stopwatch on a timer of the default configuration measures, where the raw clock can be read at both ends, exactly the
  nanoseconds between the two readings, and 0 when the second lies before the first.
\<close>

theorem stopwatch_measures:
  assumes "enable_fast_time (bm_config (timer_manager f))" "vdso_enabled (bm_time (timer_manager f))"
    "rd_raw rd = Some (s, n)" "unat s * 1000000000 + unat n < 2 ^ LENGTH(64)"
    "rd_raw rd' = Some (s', n')" "unat s' * 1000000000 + unat n' < 2 ^ LENGTH(64)"
  shows "\<exists>sw f' t f''. stopwatch_start q rd lbl f = Some (sw, f') \<and> stopwatch_elapsed_nanos q rd' sw f' = Some (t, f'')
     \<and> unat t = (unat s' * 1000000000 + unat n') - (unat s * 1000000000 + unat n)"
proof -
  obtain f1 t1 where a: "timer_now_nanos q rd f = Some (t1, f1)" "unat t1 = unat s * 1000000000 + unat n"
      "enable_fast_time (bm_config (timer_manager f1))" "vdso_enabled (bm_time (timer_manager f1))"
    using timer_raw [OF assms(1-4)] by blast
  obtain f2 t2 where "timer_now_nanos q rd' f1 = Some (t2, f2)" "unat t2 = unat s' * 1000000000 + unat n'"
    using timer_raw [OF a(3,4) assms(5,6)] by blast
  with a show ?thesis
    by (simp add: stopwatch_start_def stopwatch_elapsed_nanos_def timer_elapsed_nanos_def unat_saturating_sub)
qed

end
