(* ===== verification/Layouts.thy ===== *)
theory Layouts
  imports PoolLookup
begin

text \<open>
  The accounts of the Bonk, Raydium CPMM, Raydium AMM v4 and Meteora DAMM v2 pools (\<open>instruction/utils/*_types.rs\<close>) and of
  the PumpFun curve (\<open>common/bonding_curve.rs\<close>): the structs, field by field, and the Borsh readers their derives stand
  for. The locale \<open>layout\<close> is what a reader promises: it accepts exactly the encodings of well-formed values. It is
  interpreted on every account type; the decoders' round trips are its one lemma.
\<close>

section \<open>Readers\<close>

fun read_many :: "nat \<Rightarrow> (u8 list \<Rightarrow> ('a \<times> u8 list) option) \<Rightarrow> u8 list \<Rightarrow> ('a list \<times> u8 list) option" where
  "read_many 0 rd xs = Some ([], xs)"
| "read_many (Suc n) rd xs = do {
     (v, xs) \<leftarrow> rd xs;
     (vs, xs) \<leftarrow> read_many n rd xs;
     Some (v # vs, xs)
   }"

text \<open>The first \<open>n\<close> bytes, all of which the reader must use.\<close>

definition from_prefix :: "nat \<Rightarrow> (u8 list \<Rightarrow> ('a \<times> u8 list) option) \<Rightarrow> u8 list \<Rightarrow> 'a option" where
  "from_prefix n rd bytes =
     (if length bytes < n then None else case rd (take n bytes) of Some (v, []) \<Rightarrow> Some v | _ \<Rightarrow> None)"

locale layout =
  fixes rd :: "u8 list \<Rightarrow> ('a \<times> u8 list) option"
    and enc :: "'a \<Rightarrow> u8 list"
    and ok :: "'a \<Rightarrow> bool"
    and n :: nat
  assumes rd_iff: "rd xs = Some (v, rest) \<longleftrightarrow> xs = enc v @ rest \<and> ok v"
    and length_enc: "ok v \<Longrightarrow> length (enc v) = n"
begin

lemma from_prefix_iff: "from_prefix n rd bytes = Some v \<longleftrightarrow> ok v \<and> (\<exists>tail. bytes = enc v @ tail)"
proof -
  have "from_prefix n rd bytes = Some v \<longleftrightarrow> n \<le> length bytes \<and> take n bytes = enc v \<and> ok v"
    using rd_iff [of "take n bytes" v "[]"] by (auto simp: from_prefix_def split: option.splits list.splits)
  also have "\<dots> \<longleftrightarrow> ok v \<and> (\<exists>tail. bytes = enc v @ tail)"
    using length_enc [of v] by auto (metis append_take_drop_id)
  finally show ?thesis .
qed

lemma enc_inject: "ok v \<Longrightarrow> ok w \<Longrightarrow> enc v @ s = enc w @ t \<Longrightarrow> v = w \<and> s = t"
  using rd_iff [of "enc v @ s" v s] rd_iff [of "enc v @ s" w t] by simp

end

text \<open>Readers of integers and addresses never fail on enough bytes; \<open>total_layout\<close> is the contract of a struct of such.\<close>

locale total_layout = layout +
  assumes rd_total: "n \<le> length xs \<Longrightarrow> rd xs \<noteq> None"
begin

lemma from_prefix_total: "from_prefix n rd bytes \<noteq> None \<longleftrightarrow> n \<le> length bytes"
proof
  assume "n \<le> length bytes"
  moreover from this obtain v rest where r: "rd (take n bytes) = Some (v, rest)" using rd_total [of "take n bytes"] by auto
  moreover have "rest = []"
    using r [unfolded rd_iff] length_enc [of v] by (metis append_eq_conv_conj append_self_conv2 length_append length_0_conv
      add_cancel_right_right length_take min.absorb2 calculation(1))
  ultimately show "from_prefix n rd bytes \<noteq> None" by (simp add: from_prefix_def)
qed (simp add: from_prefix_def split: if_splits)

end

section \<open>Chains of readers\<close>

lemma read_chainE:
  assumes "(m \<bind> (\<lambda>(v, ys). f v ys)) = Some z"
  obtains v ys where "m = Some (v, ys)" "f v ys = Some z"
  using assms by (auto simp: bind_Some_iff)

lemma read_many_iff:
  assumes "\<And>xs v rest. rd xs = Some (v, rest) \<longleftrightarrow> xs = enc v @ rest \<and> ok v"
  shows "read_many n rd xs = Some (vs, rest) \<longleftrightarrow> length vs = n \<and> xs = concat (map enc vs) @ rest \<and> list_all ok vs"
proof (induction n arbitrary: xs vs)
  case (Suc n)
  show ?case
  proof
    assume "read_many (Suc n) rd xs = Some (vs, rest)"
    then show "length vs = Suc n \<and> xs = concat (map enc vs) @ rest \<and> list_all ok vs"
      by (auto simp: assms Suc.IH elim!: read_chainE)
  next
    assume "length vs = Suc n \<and> xs = concat (map enc vs) @ rest \<and> list_all ok vs"
    then obtain w ws where w: "vs = w # ws" "length ws = n" "xs = enc w @ concat (map enc ws) @ rest" "ok w" "list_all ok ws"
      by (cases vs) auto
    have "rd xs = Some (w, concat (map enc ws) @ rest)" using w by (simp add: assms)
    moreover have "read_many n rd (concat (map enc ws) @ rest) = Some (ws, rest)" using w by (simp add: Suc.IH)
    ultimately show "read_many (Suc n) rd xs = Some (vs, rest)" using w(1) by simp
  qed
qed auto

lemma read_words_iff:
  assumes "LENGTH('a::len) = 8 * k"
  shows "read_many n (read_word k) xs = Some (vs :: 'a word list, rest) \<longleftrightarrow> length vs = n \<and> xs = concat (map to_le_bytes vs) @ rest"
  using read_many_iff [of "read_word k :: u8 list \<Rightarrow> ('a word \<times> u8 list) option" to_le_bytes "\<lambda>_. True" n xs vs rest]
    read_word_iff [OF assms] by (simp add: list_all_iff)

lemma read_back:
  "LENGTH('a::len) = 8 * k \<Longrightarrow> read_word k (to_le_bytes w @ rest) = Some (w :: 'a word, rest)"
  "read_pubkey (pubkey_bytes a @ rest) = Some (a, rest)"
  "length b = n \<Longrightarrow> read_bytes n (b @ rest) = Some (b, rest)"
  "read_bool (bool_byte c # rest) = Some (c, rest)"
  "LENGTH('b::len) = 8 * k \<Longrightarrow> length vs = n \<Longrightarrow> read_many n (read_word k) (concat (map to_le_bytes vs) @ rest) = Some (vs :: 'b word list, rest)"
  by (simp_all add: read_word_iff read_pubkey_iff read_bytes_iff read_bool_iff read_words_iff)

lemma length_concat_words: "length (concat (map to_le_bytes (vs :: 'a::len word list))) = length vs * (LENGTH('a) div 8)"
  by (induction vs) (simp_all add: length_to_le_bytes)

definition consumes :: "(u8 list \<Rightarrow> ('a \<times> u8 list) option) \<Rightarrow> nat \<Rightarrow> bool" where
  "consumes rd n \<longleftrightarrow> (\<forall>xs. n \<le> length xs \<longrightarrow> (\<exists>v. rd xs = Some (v, drop n xs)))"

named_theorems consumes_intro \<open>readers that never fail on enough bytes\<close>

lemma consumes_basic [consumes_intro]:
  "consumes (read_bytes n) n" "consumes (read_word n) n" "consumes read_pubkey 32" "consumes (\<lambda>xs. Some (v, xs)) 0"
  by (simp_all add: consumes_def read_bytes_def read_word_def read_pubkey_def)

lemma consumesD: "consumes rd n \<Longrightarrow> n \<le> length xs \<Longrightarrow> \<exists>v. rd xs = Some (v, drop n xs)"
  by (simp add: consumes_def)

lemma consumes_chain [consumes_intro]:
  "consumes rd n \<Longrightarrow> (\<And>v. consumes (f v) k) \<Longrightarrow> consumes (\<lambda>xs. rd xs \<bind> (\<lambda>(v, ys). f v ys)) (n + k)"
proof -
  assume rd: "consumes rd n" and f: "\<And>v. consumes (f v) k"
  have "\<exists>w. (rd xs \<bind> (\<lambda>(v, ys). f v ys)) = Some (w, drop (n + k) xs)" if le: "n + k \<le> length xs" for xs
  proof -
    have k: "k \<le> length (drop n xs)" using le by simp
    obtain v where "rd xs = Some (v, drop n xs)" using consumesD [OF rd, of xs] le by auto
    moreover obtain w where "f v (drop n xs) = Some (w, drop k (drop n xs))" using consumesD [OF f [of v] k] by blast
    ultimately show ?thesis by (simp add: add.commute)
  qed
  then show ?thesis by (simp add: consumes_def)
qed

lemma consumes_many [consumes_intro]: "consumes rd k \<Longrightarrow> consumes (read_many n rd) (n * k)"
proof (induction n)
  case (Suc n)
  have "consumes (\<lambda>xs. rd xs \<bind> (\<lambda>(v, ys). read_many n rd ys \<bind> (\<lambda>(vs, zs). Some (v # vs, zs)))) (k + (n * k + 0))"
    using Suc by (intro consumes_chain consumes_basic)
  then show ?case by (simp add: consumes_def)
qed (simp add: consumes_def)

lemma consumes_total: "consumes rd n \<Longrightarrow> n \<le> length xs \<Longrightarrow> rd xs \<noteq> None"
  by (auto simp: consumes_def)

section \<open>The accounts\<close>

record vesting_schedule =
  vs_total_locked_amount :: u64
  vs_cliff_period :: u64
  vs_unlock_period :: u64
  vs_start_time :: u64
  vs_allocated_share_amount :: u64

definition read_vesting_schedule :: "u8 list \<Rightarrow> (vesting_schedule \<times> u8 list) option" where
  "read_vesting_schedule xs = do {
     (total_locked_amount, xs) \<leftarrow> read_word 8 xs;
     (cliff_period, xs) \<leftarrow> read_word 8 xs;
     (unlock_period, xs) \<leftarrow> read_word 8 xs;
     (start_time, xs) \<leftarrow> read_word 8 xs;
     (allocated_share_amount, xs) \<leftarrow> read_word 8 xs;
     Some (\<lparr>
       vs_total_locked_amount = total_locked_amount, vs_cliff_period = cliff_period,
       vs_unlock_period = unlock_period, vs_start_time = start_time,
       vs_allocated_share_amount = allocated_share_amount\<rparr>, xs)
   }"

definition enc_vesting_schedule :: "vesting_schedule \<Rightarrow> u8 list" where
  "enc_vesting_schedule r =
     to_le_bytes (vs_total_locked_amount r) @ to_le_bytes (vs_cliff_period r) @
     to_le_bytes (vs_unlock_period r) @ to_le_bytes (vs_start_time r) @
     to_le_bytes (vs_allocated_share_amount r)"

record bonk_pool_state =
  bs_epoch :: u64
  bs_auth_bump :: u8
  bs_status :: u8
  bs_base_decimals :: u8
  bs_quote_decimals :: u8
  bs_migrate_type :: u8
  bs_supply :: u64
  bs_total_base_sell :: u64
  bs_virtual_base :: u64
  bs_virtual_quote :: u64
  bs_real_base :: u64
  bs_real_quote :: u64
  bs_total_quote_fund_raising :: u64
  bs_quote_protocol_fee :: u64
  bs_platform_fee :: u64
  bs_migrate_fee :: u64
  bs_vesting_schedule :: vesting_schedule
  bs_global_config :: pubkey
  bs_platform_config :: pubkey
  bs_base_mint :: pubkey
  bs_quote_mint :: pubkey
  bs_base_vault :: pubkey
  bs_quote_vault :: pubkey
  bs_creator :: pubkey
  bs_padding :: "u64 list"

definition read_bonk_pool_state :: "u8 list \<Rightarrow> (bonk_pool_state \<times> u8 list) option" where
  "read_bonk_pool_state xs = do {
     (epoch, xs) \<leftarrow> read_word 8 xs;
     (auth_bump, xs) \<leftarrow> read_word 1 xs;
     (status, xs) \<leftarrow> read_word 1 xs;
     (base_decimals, xs) \<leftarrow> read_word 1 xs;
     (quote_decimals, xs) \<leftarrow> read_word 1 xs;
     (migrate_type, xs) \<leftarrow> read_word 1 xs;
     (supply, xs) \<leftarrow> read_word 8 xs;
     (total_base_sell, xs) \<leftarrow> read_word 8 xs;
     (virtual_base, xs) \<leftarrow> read_word 8 xs;
     (virtual_quote, xs) \<leftarrow> read_word 8 xs;
     (real_base, xs) \<leftarrow> read_word 8 xs;
     (real_quote, xs) \<leftarrow> read_word 8 xs;
     (total_quote_fund_raising, xs) \<leftarrow> read_word 8 xs;
     (quote_protocol_fee, xs) \<leftarrow> read_word 8 xs;
     (platform_fee, xs) \<leftarrow> read_word 8 xs;
     (migrate_fee, xs) \<leftarrow> read_word 8 xs;
     (vesting_schedule, xs) \<leftarrow> read_vesting_schedule xs;
     (global_config, xs) \<leftarrow> read_pubkey xs;
     (platform_config, xs) \<leftarrow> read_pubkey xs;
     (base_mint, xs) \<leftarrow> read_pubkey xs;
     (quote_mint, xs) \<leftarrow> read_pubkey xs;
     (base_vault, xs) \<leftarrow> read_pubkey xs;
     (quote_vault, xs) \<leftarrow> read_pubkey xs;
     (creator, xs) \<leftarrow> read_pubkey xs;
     (padding, xs) \<leftarrow> read_many 8 (read_word 8) xs;
     Some (\<lparr>
       bs_epoch = epoch, bs_auth_bump = auth_bump, bs_status = status, bs_base_decimals = base_decimals,
       bs_quote_decimals = quote_decimals, bs_migrate_type = migrate_type, bs_supply = supply,
       bs_total_base_sell = total_base_sell, bs_virtual_base = virtual_base, bs_virtual_quote = virtual_quote,
       bs_real_base = real_base, bs_real_quote = real_quote,
       bs_total_quote_fund_raising = total_quote_fund_raising, bs_quote_protocol_fee = quote_protocol_fee,
       bs_platform_fee = platform_fee, bs_migrate_fee = migrate_fee, bs_vesting_schedule = vesting_schedule,
       bs_global_config = global_config, bs_platform_config = platform_config, bs_base_mint = base_mint,
       bs_quote_mint = quote_mint, bs_base_vault = base_vault, bs_quote_vault = quote_vault,
       bs_creator = creator, bs_padding = padding\<rparr>, xs)
   }"

definition enc_bonk_pool_state :: "bonk_pool_state \<Rightarrow> u8 list" where
  "enc_bonk_pool_state r =
     to_le_bytes (bs_epoch r) @ to_le_bytes (bs_auth_bump r) @ to_le_bytes (bs_status r) @
     to_le_bytes (bs_base_decimals r) @ to_le_bytes (bs_quote_decimals r) @ to_le_bytes (bs_migrate_type r) @
     to_le_bytes (bs_supply r) @ to_le_bytes (bs_total_base_sell r) @ to_le_bytes (bs_virtual_base r) @
     to_le_bytes (bs_virtual_quote r) @ to_le_bytes (bs_real_base r) @ to_le_bytes (bs_real_quote r) @
     to_le_bytes (bs_total_quote_fund_raising r) @ to_le_bytes (bs_quote_protocol_fee r) @
     to_le_bytes (bs_platform_fee r) @ to_le_bytes (bs_migrate_fee r) @
     enc_vesting_schedule (bs_vesting_schedule r) @ pubkey_bytes (bs_global_config r) @
     pubkey_bytes (bs_platform_config r) @ pubkey_bytes (bs_base_mint r) @ pubkey_bytes (bs_quote_mint r) @
     pubkey_bytes (bs_base_vault r) @ pubkey_bytes (bs_quote_vault r) @ pubkey_bytes (bs_creator r) @
     concat (map to_le_bytes (bs_padding r))"

definition ok_bonk_pool_state :: "bonk_pool_state \<Rightarrow> bool" where
  "ok_bonk_pool_state r \<longleftrightarrow> length (bs_padding r) = 8"

record cpmm_pool_account =
  cs_amm_config :: pubkey
  cs_pool_creator :: pubkey
  cs_token0_vault :: pubkey
  cs_token1_vault :: pubkey
  cs_lp_mint :: pubkey
  cs_token0_mint :: pubkey
  cs_token1_mint :: pubkey
  cs_token0_program :: pubkey
  cs_token1_program :: pubkey
  cs_observation_key :: pubkey
  cs_auth_bump :: u8
  cs_status :: u8
  cs_lp_mint_decimals :: u8
  cs_mint0_decimals :: u8
  cs_mint1_decimals :: u8
  cs_lp_supply :: u64
  cs_protocol_fees_token0 :: u64
  cs_protocol_fees_token1 :: u64
  cs_fund_fees_token0 :: u64
  cs_fund_fees_token1 :: u64
  cs_open_time :: u64
  cs_recent_epoch :: u64
  cs_padding :: "u64 list"

definition read_cpmm_pool_account :: "u8 list \<Rightarrow> (cpmm_pool_account \<times> u8 list) option" where
  "read_cpmm_pool_account xs = do {
     (amm_config, xs) \<leftarrow> read_pubkey xs;
     (pool_creator, xs) \<leftarrow> read_pubkey xs;
     (token0_vault, xs) \<leftarrow> read_pubkey xs;
     (token1_vault, xs) \<leftarrow> read_pubkey xs;
     (lp_mint, xs) \<leftarrow> read_pubkey xs;
     (token0_mint, xs) \<leftarrow> read_pubkey xs;
     (token1_mint, xs) \<leftarrow> read_pubkey xs;
     (token0_program, xs) \<leftarrow> read_pubkey xs;
     (token1_program, xs) \<leftarrow> read_pubkey xs;
     (observation_key, xs) \<leftarrow> read_pubkey xs;
     (auth_bump, xs) \<leftarrow> read_word 1 xs;
     (status, xs) \<leftarrow> read_word 1 xs;
     (lp_mint_decimals, xs) \<leftarrow> read_word 1 xs;
     (mint0_decimals, xs) \<leftarrow> read_word 1 xs;
     (mint1_decimals, xs) \<leftarrow> read_word 1 xs;
     (lp_supply, xs) \<leftarrow> read_word 8 xs;
     (protocol_fees_token0, xs) \<leftarrow> read_word 8 xs;
     (protocol_fees_token1, xs) \<leftarrow> read_word 8 xs;
     (fund_fees_token0, xs) \<leftarrow> read_word 8 xs;
     (fund_fees_token1, xs) \<leftarrow> read_word 8 xs;
     (open_time, xs) \<leftarrow> read_word 8 xs;
     (recent_epoch, xs) \<leftarrow> read_word 8 xs;
     (padding, xs) \<leftarrow> read_many 31 (read_word 8) xs;
     Some (\<lparr>
       cs_amm_config = amm_config, cs_pool_creator = pool_creator, cs_token0_vault = token0_vault,
       cs_token1_vault = token1_vault, cs_lp_mint = lp_mint, cs_token0_mint = token0_mint,
       cs_token1_mint = token1_mint, cs_token0_program = token0_program, cs_token1_program = token1_program,
       cs_observation_key = observation_key, cs_auth_bump = auth_bump, cs_status = status,
       cs_lp_mint_decimals = lp_mint_decimals, cs_mint0_decimals = mint0_decimals,
       cs_mint1_decimals = mint1_decimals, cs_lp_supply = lp_supply,
       cs_protocol_fees_token0 = protocol_fees_token0, cs_protocol_fees_token1 = protocol_fees_token1,
       cs_fund_fees_token0 = fund_fees_token0, cs_fund_fees_token1 = fund_fees_token1,
       cs_open_time = open_time, cs_recent_epoch = recent_epoch, cs_padding = padding\<rparr>, xs)
   }"

definition enc_cpmm_pool_account :: "cpmm_pool_account \<Rightarrow> u8 list" where
  "enc_cpmm_pool_account r =
     pubkey_bytes (cs_amm_config r) @ pubkey_bytes (cs_pool_creator r) @ pubkey_bytes (cs_token0_vault r) @
     pubkey_bytes (cs_token1_vault r) @ pubkey_bytes (cs_lp_mint r) @ pubkey_bytes (cs_token0_mint r) @
     pubkey_bytes (cs_token1_mint r) @ pubkey_bytes (cs_token0_program r) @ pubkey_bytes (cs_token1_program r) @
     pubkey_bytes (cs_observation_key r) @ to_le_bytes (cs_auth_bump r) @ to_le_bytes (cs_status r) @
     to_le_bytes (cs_lp_mint_decimals r) @ to_le_bytes (cs_mint0_decimals r) @
     to_le_bytes (cs_mint1_decimals r) @ to_le_bytes (cs_lp_supply r) @ to_le_bytes (cs_protocol_fees_token0 r) @
     to_le_bytes (cs_protocol_fees_token1 r) @ to_le_bytes (cs_fund_fees_token0 r) @
     to_le_bytes (cs_fund_fees_token1 r) @ to_le_bytes (cs_open_time r) @ to_le_bytes (cs_recent_epoch r) @
     concat (map to_le_bytes (cs_padding r))"

definition ok_cpmm_pool_account :: "cpmm_pool_account \<Rightarrow> bool" where
  "ok_cpmm_pool_account r \<longleftrightarrow> length (cs_padding r) = 31"

record amm_fees =
  af_min_separate_numerator :: u64
  af_min_separate_denominator :: u64
  af_trade_fee_numerator :: u64
  af_trade_fee_denominator :: u64
  af_pnl_numerator :: u64
  af_pnl_denominator :: u64
  af_swap_fee_numerator :: u64
  af_swap_fee_denominator :: u64

definition read_amm_fees :: "u8 list \<Rightarrow> (amm_fees \<times> u8 list) option" where
  "read_amm_fees xs = do {
     (min_separate_numerator, xs) \<leftarrow> read_word 8 xs;
     (min_separate_denominator, xs) \<leftarrow> read_word 8 xs;
     (trade_fee_numerator, xs) \<leftarrow> read_word 8 xs;
     (trade_fee_denominator, xs) \<leftarrow> read_word 8 xs;
     (pnl_numerator, xs) \<leftarrow> read_word 8 xs;
     (pnl_denominator, xs) \<leftarrow> read_word 8 xs;
     (swap_fee_numerator, xs) \<leftarrow> read_word 8 xs;
     (swap_fee_denominator, xs) \<leftarrow> read_word 8 xs;
     Some (\<lparr>
       af_min_separate_numerator = min_separate_numerator,
       af_min_separate_denominator = min_separate_denominator, af_trade_fee_numerator = trade_fee_numerator,
       af_trade_fee_denominator = trade_fee_denominator, af_pnl_numerator = pnl_numerator,
       af_pnl_denominator = pnl_denominator, af_swap_fee_numerator = swap_fee_numerator,
       af_swap_fee_denominator = swap_fee_denominator\<rparr>, xs)
   }"

definition enc_amm_fees :: "amm_fees \<Rightarrow> u8 list" where
  "enc_amm_fees r =
     to_le_bytes (af_min_separate_numerator r) @ to_le_bytes (af_min_separate_denominator r) @
     to_le_bytes (af_trade_fee_numerator r) @ to_le_bytes (af_trade_fee_denominator r) @
     to_le_bytes (af_pnl_numerator r) @ to_le_bytes (af_pnl_denominator r) @
     to_le_bytes (af_swap_fee_numerator r) @ to_le_bytes (af_swap_fee_denominator r)"

record output_data =
  ao_need_take_pnl_coin :: u64
  ao_need_take_pnl_pc :: u64
  ao_total_pnl_pc :: u64
  ao_total_pnl_coin :: u64
  ao_pool_open_time :: u64
  ao_punish_pc_amount :: u64
  ao_punish_coin_amount :: u64
  ao_orderbook_to_init_time :: u64
  ao_swap_coin_in_amount :: u128
  ao_swap_pc_out_amount :: u128
  ao_swap_take_pc_fee :: u64
  ao_swap_pc_in_amount :: u128
  ao_swap_coin_out_amount :: u128
  ao_swap_take_coin_fee :: u64

definition read_output_data :: "u8 list \<Rightarrow> (output_data \<times> u8 list) option" where
  "read_output_data xs = do {
     (need_take_pnl_coin, xs) \<leftarrow> read_word 8 xs;
     (need_take_pnl_pc, xs) \<leftarrow> read_word 8 xs;
     (total_pnl_pc, xs) \<leftarrow> read_word 8 xs;
     (total_pnl_coin, xs) \<leftarrow> read_word 8 xs;
     (pool_open_time, xs) \<leftarrow> read_word 8 xs;
     (punish_pc_amount, xs) \<leftarrow> read_word 8 xs;
     (punish_coin_amount, xs) \<leftarrow> read_word 8 xs;
     (orderbook_to_init_time, xs) \<leftarrow> read_word 8 xs;
     (swap_coin_in_amount, xs) \<leftarrow> read_word 16 xs;
     (swap_pc_out_amount, xs) \<leftarrow> read_word 16 xs;
     (swap_take_pc_fee, xs) \<leftarrow> read_word 8 xs;
     (swap_pc_in_amount, xs) \<leftarrow> read_word 16 xs;
     (swap_coin_out_amount, xs) \<leftarrow> read_word 16 xs;
     (swap_take_coin_fee, xs) \<leftarrow> read_word 8 xs;
     Some (\<lparr>
       ao_need_take_pnl_coin = need_take_pnl_coin, ao_need_take_pnl_pc = need_take_pnl_pc,
       ao_total_pnl_pc = total_pnl_pc, ao_total_pnl_coin = total_pnl_coin, ao_pool_open_time = pool_open_time,
       ao_punish_pc_amount = punish_pc_amount, ao_punish_coin_amount = punish_coin_amount,
       ao_orderbook_to_init_time = orderbook_to_init_time, ao_swap_coin_in_amount = swap_coin_in_amount,
       ao_swap_pc_out_amount = swap_pc_out_amount, ao_swap_take_pc_fee = swap_take_pc_fee,
       ao_swap_pc_in_amount = swap_pc_in_amount, ao_swap_coin_out_amount = swap_coin_out_amount,
       ao_swap_take_coin_fee = swap_take_coin_fee\<rparr>, xs)
   }"

definition enc_output_data :: "output_data \<Rightarrow> u8 list" where
  "enc_output_data r =
     to_le_bytes (ao_need_take_pnl_coin r) @ to_le_bytes (ao_need_take_pnl_pc r) @
     to_le_bytes (ao_total_pnl_pc r) @ to_le_bytes (ao_total_pnl_coin r) @ to_le_bytes (ao_pool_open_time r) @
     to_le_bytes (ao_punish_pc_amount r) @ to_le_bytes (ao_punish_coin_amount r) @
     to_le_bytes (ao_orderbook_to_init_time r) @ to_le_bytes (ao_swap_coin_in_amount r) @
     to_le_bytes (ao_swap_pc_out_amount r) @ to_le_bytes (ao_swap_take_pc_fee r) @
     to_le_bytes (ao_swap_pc_in_amount r) @ to_le_bytes (ao_swap_coin_out_amount r) @
     to_le_bytes (ao_swap_take_coin_fee r)"

record amm_info =
  ai_status :: u64
  ai_nonce :: u64
  ai_order_num :: u64
  ai_depth :: u64
  ai_coin_decimals :: u64
  ai_pc_decimals :: u64
  ai_state :: u64
  ai_reset_flag :: u64
  ai_min_size :: u64
  ai_vol_max_cut_ratio :: u64
  ai_amount_wave :: u64
  ai_coin_lot_size :: u64
  ai_pc_lot_size :: u64
  ai_min_price_multiplier :: u64
  ai_max_price_multiplier :: u64
  ai_sys_decimal_value :: u64
  ai_fees :: amm_fees
  ai_out_put :: output_data
  ai_token_coin :: pubkey
  ai_token_pc :: pubkey
  ai_coin_mint :: pubkey
  ai_pc_mint :: pubkey
  ai_lp_mint :: pubkey
  ai_open_orders :: pubkey
  ai_market :: pubkey
  ai_serum_dex :: pubkey
  ai_target_orders :: pubkey
  ai_withdraw_queue :: pubkey
  ai_token_temp_lp :: pubkey
  ai_amm_owner :: pubkey
  ai_lp_amount :: u64
  ai_client_order_id :: u64
  ai_padding :: "u64 list"

definition read_amm_info :: "u8 list \<Rightarrow> (amm_info \<times> u8 list) option" where
  "read_amm_info xs = do {
     (status, xs) \<leftarrow> read_word 8 xs;
     (nonce, xs) \<leftarrow> read_word 8 xs;
     (order_num, xs) \<leftarrow> read_word 8 xs;
     (depth, xs) \<leftarrow> read_word 8 xs;
     (coin_decimals, xs) \<leftarrow> read_word 8 xs;
     (pc_decimals, xs) \<leftarrow> read_word 8 xs;
     (state, xs) \<leftarrow> read_word 8 xs;
     (reset_flag, xs) \<leftarrow> read_word 8 xs;
     (min_size, xs) \<leftarrow> read_word 8 xs;
     (vol_max_cut_ratio, xs) \<leftarrow> read_word 8 xs;
     (amount_wave, xs) \<leftarrow> read_word 8 xs;
     (coin_lot_size, xs) \<leftarrow> read_word 8 xs;
     (pc_lot_size, xs) \<leftarrow> read_word 8 xs;
     (min_price_multiplier, xs) \<leftarrow> read_word 8 xs;
     (max_price_multiplier, xs) \<leftarrow> read_word 8 xs;
     (sys_decimal_value, xs) \<leftarrow> read_word 8 xs;
     (fees, xs) \<leftarrow> read_amm_fees xs;
     (out_put, xs) \<leftarrow> read_output_data xs;
     (token_coin, xs) \<leftarrow> read_pubkey xs;
     (token_pc, xs) \<leftarrow> read_pubkey xs;
     (coin_mint, xs) \<leftarrow> read_pubkey xs;
     (pc_mint, xs) \<leftarrow> read_pubkey xs;
     (lp_mint, xs) \<leftarrow> read_pubkey xs;
     (open_orders, xs) \<leftarrow> read_pubkey xs;
     (market, xs) \<leftarrow> read_pubkey xs;
     (serum_dex, xs) \<leftarrow> read_pubkey xs;
     (target_orders, xs) \<leftarrow> read_pubkey xs;
     (withdraw_queue, xs) \<leftarrow> read_pubkey xs;
     (token_temp_lp, xs) \<leftarrow> read_pubkey xs;
     (amm_owner, xs) \<leftarrow> read_pubkey xs;
     (lp_amount, xs) \<leftarrow> read_word 8 xs;
     (client_order_id, xs) \<leftarrow> read_word 8 xs;
     (padding, xs) \<leftarrow> read_many 2 (read_word 8) xs;
     Some (\<lparr>
       ai_status = status, ai_nonce = nonce, ai_order_num = order_num, ai_depth = depth,
       ai_coin_decimals = coin_decimals, ai_pc_decimals = pc_decimals, ai_state = state,
       ai_reset_flag = reset_flag, ai_min_size = min_size, ai_vol_max_cut_ratio = vol_max_cut_ratio,
       ai_amount_wave = amount_wave, ai_coin_lot_size = coin_lot_size, ai_pc_lot_size = pc_lot_size,
       ai_min_price_multiplier = min_price_multiplier, ai_max_price_multiplier = max_price_multiplier,
       ai_sys_decimal_value = sys_decimal_value, ai_fees = fees, ai_out_put = out_put,
       ai_token_coin = token_coin, ai_token_pc = token_pc, ai_coin_mint = coin_mint, ai_pc_mint = pc_mint,
       ai_lp_mint = lp_mint, ai_open_orders = open_orders, ai_market = market, ai_serum_dex = serum_dex,
       ai_target_orders = target_orders, ai_withdraw_queue = withdraw_queue, ai_token_temp_lp = token_temp_lp,
       ai_amm_owner = amm_owner, ai_lp_amount = lp_amount, ai_client_order_id = client_order_id,
       ai_padding = padding\<rparr>, xs)
   }"

definition enc_amm_info :: "amm_info \<Rightarrow> u8 list" where
  "enc_amm_info r =
     to_le_bytes (ai_status r) @ to_le_bytes (ai_nonce r) @ to_le_bytes (ai_order_num r) @
     to_le_bytes (ai_depth r) @ to_le_bytes (ai_coin_decimals r) @ to_le_bytes (ai_pc_decimals r) @
     to_le_bytes (ai_state r) @ to_le_bytes (ai_reset_flag r) @ to_le_bytes (ai_min_size r) @
     to_le_bytes (ai_vol_max_cut_ratio r) @ to_le_bytes (ai_amount_wave r) @ to_le_bytes (ai_coin_lot_size r) @
     to_le_bytes (ai_pc_lot_size r) @ to_le_bytes (ai_min_price_multiplier r) @
     to_le_bytes (ai_max_price_multiplier r) @ to_le_bytes (ai_sys_decimal_value r) @ enc_amm_fees (ai_fees r) @
     enc_output_data (ai_out_put r) @ pubkey_bytes (ai_token_coin r) @ pubkey_bytes (ai_token_pc r) @
     pubkey_bytes (ai_coin_mint r) @ pubkey_bytes (ai_pc_mint r) @ pubkey_bytes (ai_lp_mint r) @
     pubkey_bytes (ai_open_orders r) @ pubkey_bytes (ai_market r) @ pubkey_bytes (ai_serum_dex r) @
     pubkey_bytes (ai_target_orders r) @ pubkey_bytes (ai_withdraw_queue r) @ pubkey_bytes (ai_token_temp_lp r) @
     pubkey_bytes (ai_amm_owner r) @ to_le_bytes (ai_lp_amount r) @ to_le_bytes (ai_client_order_id r) @
     concat (map to_le_bytes (ai_padding r))"

definition ok_amm_info :: "amm_info \<Rightarrow> bool" where
  "ok_amm_info r \<longleftrightarrow> length (ai_padding r) = 2"

record base_fee_struct =
  bf_cliff_fee_numerator :: u64
  bf_fee_scheduler_mode :: u8
  bf_padding_0 :: "u8 list"
  bf_number_of_period :: u16
  bf_period_frequency :: u64
  bf_reduction_factor :: u64
  bf_padding_1 :: u64

definition read_base_fee_struct :: "u8 list \<Rightarrow> (base_fee_struct \<times> u8 list) option" where
  "read_base_fee_struct xs = do {
     (cliff_fee_numerator, xs) \<leftarrow> read_word 8 xs;
     (fee_scheduler_mode, xs) \<leftarrow> read_word 1 xs;
     (padding_0, xs) \<leftarrow> read_bytes 5 xs;
     (number_of_period, xs) \<leftarrow> read_word 2 xs;
     (period_frequency, xs) \<leftarrow> read_word 8 xs;
     (reduction_factor, xs) \<leftarrow> read_word 8 xs;
     (padding_1, xs) \<leftarrow> read_word 8 xs;
     Some (\<lparr>
       bf_cliff_fee_numerator = cliff_fee_numerator, bf_fee_scheduler_mode = fee_scheduler_mode,
       bf_padding_0 = padding_0, bf_number_of_period = number_of_period,
       bf_period_frequency = period_frequency, bf_reduction_factor = reduction_factor,
       bf_padding_1 = padding_1\<rparr>, xs)
   }"

definition enc_base_fee_struct :: "base_fee_struct \<Rightarrow> u8 list" where
  "enc_base_fee_struct r =
     to_le_bytes (bf_cliff_fee_numerator r) @ to_le_bytes (bf_fee_scheduler_mode r) @ bf_padding_0 r @
     to_le_bytes (bf_number_of_period r) @ to_le_bytes (bf_period_frequency r) @
     to_le_bytes (bf_reduction_factor r) @ to_le_bytes (bf_padding_1 r)"

definition ok_base_fee_struct :: "base_fee_struct \<Rightarrow> bool" where
  "ok_base_fee_struct r \<longleftrightarrow> length (bf_padding_0 r) = 5"

record dynamic_fee_struct =
  df_initialized :: u8
  df_padding :: "u8 list"
  df_max_volatility_accumulator :: u32
  df_variable_fee_control :: u32
  df_bin_step :: u16
  df_filter_period :: u16
  df_decay_period :: u16
  df_reduction_factor :: u16
  df_last_update_timestamp :: u64
  df_bin_step_u128 :: u128
  df_sqrt_price_reference :: u128
  df_volatility_accumulator :: u128
  df_volatility_reference :: u128

definition read_dynamic_fee_struct :: "u8 list \<Rightarrow> (dynamic_fee_struct \<times> u8 list) option" where
  "read_dynamic_fee_struct xs = do {
     (initialized, xs) \<leftarrow> read_word 1 xs;
     (padding, xs) \<leftarrow> read_bytes 7 xs;
     (max_volatility_accumulator, xs) \<leftarrow> read_word 4 xs;
     (variable_fee_control, xs) \<leftarrow> read_word 4 xs;
     (bin_step, xs) \<leftarrow> read_word 2 xs;
     (filter_period, xs) \<leftarrow> read_word 2 xs;
     (decay_period, xs) \<leftarrow> read_word 2 xs;
     (reduction_factor, xs) \<leftarrow> read_word 2 xs;
     (last_update_timestamp, xs) \<leftarrow> read_word 8 xs;
     (bin_step_u128, xs) \<leftarrow> read_word 16 xs;
     (sqrt_price_reference, xs) \<leftarrow> read_word 16 xs;
     (volatility_accumulator, xs) \<leftarrow> read_word 16 xs;
     (volatility_reference, xs) \<leftarrow> read_word 16 xs;
     Some (\<lparr>
       df_initialized = initialized, df_padding = padding,
       df_max_volatility_accumulator = max_volatility_accumulator,
       df_variable_fee_control = variable_fee_control, df_bin_step = bin_step,
       df_filter_period = filter_period, df_decay_period = decay_period,
       df_reduction_factor = reduction_factor, df_last_update_timestamp = last_update_timestamp,
       df_bin_step_u128 = bin_step_u128, df_sqrt_price_reference = sqrt_price_reference,
       df_volatility_accumulator = volatility_accumulator, df_volatility_reference = volatility_reference\<rparr>, xs)
   }"

definition enc_dynamic_fee_struct :: "dynamic_fee_struct \<Rightarrow> u8 list" where
  "enc_dynamic_fee_struct r =
     to_le_bytes (df_initialized r) @ df_padding r @ to_le_bytes (df_max_volatility_accumulator r) @
     to_le_bytes (df_variable_fee_control r) @ to_le_bytes (df_bin_step r) @ to_le_bytes (df_filter_period r) @
     to_le_bytes (df_decay_period r) @ to_le_bytes (df_reduction_factor r) @
     to_le_bytes (df_last_update_timestamp r) @ to_le_bytes (df_bin_step_u128 r) @
     to_le_bytes (df_sqrt_price_reference r) @ to_le_bytes (df_volatility_accumulator r) @
     to_le_bytes (df_volatility_reference r)"

definition ok_dynamic_fee_struct :: "dynamic_fee_struct \<Rightarrow> bool" where
  "ok_dynamic_fee_struct r \<longleftrightarrow> length (df_padding r) = 7"

record pool_fees_struct =
  fs_base_fee :: base_fee_struct
  fs_protocol_fee_percent :: u8
  fs_partner_fee_percent :: u8
  fs_referral_fee_percent :: u8
  fs_padding_0 :: "u8 list"
  fs_dynamic_fee :: dynamic_fee_struct
  fs_padding_1 :: "u64 list"

definition read_pool_fees_struct :: "u8 list \<Rightarrow> (pool_fees_struct \<times> u8 list) option" where
  "read_pool_fees_struct xs = do {
     (base_fee, xs) \<leftarrow> read_base_fee_struct xs;
     (protocol_fee_percent, xs) \<leftarrow> read_word 1 xs;
     (partner_fee_percent, xs) \<leftarrow> read_word 1 xs;
     (referral_fee_percent, xs) \<leftarrow> read_word 1 xs;
     (padding_0, xs) \<leftarrow> read_bytes 5 xs;
     (dynamic_fee, xs) \<leftarrow> read_dynamic_fee_struct xs;
     (padding_1, xs) \<leftarrow> read_many 2 (read_word 8) xs;
     Some (\<lparr>
       fs_base_fee = base_fee, fs_protocol_fee_percent = protocol_fee_percent,
       fs_partner_fee_percent = partner_fee_percent, fs_referral_fee_percent = referral_fee_percent,
       fs_padding_0 = padding_0, fs_dynamic_fee = dynamic_fee, fs_padding_1 = padding_1\<rparr>, xs)
   }"

definition enc_pool_fees_struct :: "pool_fees_struct \<Rightarrow> u8 list" where
  "enc_pool_fees_struct r =
     enc_base_fee_struct (fs_base_fee r) @ to_le_bytes (fs_protocol_fee_percent r) @
     to_le_bytes (fs_partner_fee_percent r) @ to_le_bytes (fs_referral_fee_percent r) @ fs_padding_0 r @
     enc_dynamic_fee_struct (fs_dynamic_fee r) @ concat (map to_le_bytes (fs_padding_1 r))"

definition ok_pool_fees_struct :: "pool_fees_struct \<Rightarrow> bool" where
  "ok_pool_fees_struct r \<longleftrightarrow> ok_base_fee_struct (fs_base_fee r) \<and> length (fs_padding_0 r) = 5 \<and> ok_dynamic_fee_struct (fs_dynamic_fee r) \<and> length (fs_padding_1 r) = 2"

record pool_metrics =
  pm_total_lp_a_fee :: u128
  pm_total_lp_b_fee :: u128
  pm_total_protocol_a_fee :: u64
  pm_total_protocol_b_fee :: u64
  pm_total_partner_a_fee :: u64
  pm_total_partner_b_fee :: u64
  pm_total_position :: u64
  pm_padding :: u64

definition read_pool_metrics :: "u8 list \<Rightarrow> (pool_metrics \<times> u8 list) option" where
  "read_pool_metrics xs = do {
     (total_lp_a_fee, xs) \<leftarrow> read_word 16 xs;
     (total_lp_b_fee, xs) \<leftarrow> read_word 16 xs;
     (total_protocol_a_fee, xs) \<leftarrow> read_word 8 xs;
     (total_protocol_b_fee, xs) \<leftarrow> read_word 8 xs;
     (total_partner_a_fee, xs) \<leftarrow> read_word 8 xs;
     (total_partner_b_fee, xs) \<leftarrow> read_word 8 xs;
     (total_position, xs) \<leftarrow> read_word 8 xs;
     (padding, xs) \<leftarrow> read_word 8 xs;
     Some (\<lparr>
       pm_total_lp_a_fee = total_lp_a_fee, pm_total_lp_b_fee = total_lp_b_fee,
       pm_total_protocol_a_fee = total_protocol_a_fee, pm_total_protocol_b_fee = total_protocol_b_fee,
       pm_total_partner_a_fee = total_partner_a_fee, pm_total_partner_b_fee = total_partner_b_fee,
       pm_total_position = total_position, pm_padding = padding\<rparr>, xs)
   }"

definition enc_pool_metrics :: "pool_metrics \<Rightarrow> u8 list" where
  "enc_pool_metrics r =
     to_le_bytes (pm_total_lp_a_fee r) @ to_le_bytes (pm_total_lp_b_fee r) @
     to_le_bytes (pm_total_protocol_a_fee r) @ to_le_bytes (pm_total_protocol_b_fee r) @
     to_le_bytes (pm_total_partner_a_fee r) @ to_le_bytes (pm_total_partner_b_fee r) @
     to_le_bytes (pm_total_position r) @ to_le_bytes (pm_padding r)"

record reward_info =
  ri_initialized :: u8
  ri_reward_token_flag :: u8
  ri_padding_0 :: "u8 list"
  ri_padding_1 :: "u8 list"
  ri_mint :: pubkey
  ri_vault :: pubkey
  ri_funder :: pubkey
  ri_reward_duration :: u64
  ri_reward_duration_end :: u64
  ri_reward_rate :: u128
  ri_reward_per_token_stored :: "u8 list"
  ri_last_update_time :: u64
  ri_cumulative_seconds_with_empty_liquidity_reward :: u64

definition read_reward_info :: "u8 list \<Rightarrow> (reward_info \<times> u8 list) option" where
  "read_reward_info xs = do {
     (initialized, xs) \<leftarrow> read_word 1 xs;
     (reward_token_flag, xs) \<leftarrow> read_word 1 xs;
     (padding_0, xs) \<leftarrow> read_bytes 6 xs;
     (padding_1, xs) \<leftarrow> read_bytes 8 xs;
     (mint, xs) \<leftarrow> read_pubkey xs;
     (vault, xs) \<leftarrow> read_pubkey xs;
     (funder, xs) \<leftarrow> read_pubkey xs;
     (reward_duration, xs) \<leftarrow> read_word 8 xs;
     (reward_duration_end, xs) \<leftarrow> read_word 8 xs;
     (reward_rate, xs) \<leftarrow> read_word 16 xs;
     (reward_per_token_stored, xs) \<leftarrow> read_bytes 32 xs;
     (last_update_time, xs) \<leftarrow> read_word 8 xs;
     (cumulative_seconds_with_empty_liquidity_reward, xs) \<leftarrow> read_word 8 xs;
     Some (\<lparr>
       ri_initialized = initialized, ri_reward_token_flag = reward_token_flag, ri_padding_0 = padding_0,
       ri_padding_1 = padding_1, ri_mint = mint, ri_vault = vault, ri_funder = funder,
       ri_reward_duration = reward_duration, ri_reward_duration_end = reward_duration_end,
       ri_reward_rate = reward_rate, ri_reward_per_token_stored = reward_per_token_stored,
       ri_last_update_time = last_update_time,
       ri_cumulative_seconds_with_empty_liquidity_reward = cumulative_seconds_with_empty_liquidity_reward\<rparr>, xs)
   }"

definition enc_reward_info :: "reward_info \<Rightarrow> u8 list" where
  "enc_reward_info r =
     to_le_bytes (ri_initialized r) @ to_le_bytes (ri_reward_token_flag r) @ ri_padding_0 r @ ri_padding_1 r @
     pubkey_bytes (ri_mint r) @ pubkey_bytes (ri_vault r) @ pubkey_bytes (ri_funder r) @
     to_le_bytes (ri_reward_duration r) @ to_le_bytes (ri_reward_duration_end r) @
     to_le_bytes (ri_reward_rate r) @ ri_reward_per_token_stored r @ to_le_bytes (ri_last_update_time r) @
     to_le_bytes (ri_cumulative_seconds_with_empty_liquidity_reward r)"

definition ok_reward_info :: "reward_info \<Rightarrow> bool" where
  "ok_reward_info r \<longleftrightarrow> length (ri_padding_0 r) = 6 \<and> length (ri_padding_1 r) = 8 \<and> length (ri_reward_per_token_stored r) = 32"

record damm_pool =
  dp_pool_fees :: pool_fees_struct
  dp_token_a_mint :: pubkey
  dp_token_b_mint :: pubkey
  dp_token_a_vault :: pubkey
  dp_token_b_vault :: pubkey
  dp_whitelisted_vault :: pubkey
  dp_partner :: pubkey
  dp_liquidity :: u128
  dp_padding :: u128
  dp_protocol_a_fee :: u64
  dp_protocol_b_fee :: u64
  dp_partner_a_fee :: u64
  dp_partner_b_fee :: u64
  dp_sqrt_min_price :: u128
  dp_sqrt_max_price :: u128
  dp_sqrt_price :: u128
  dp_activation_point :: u64
  dp_activation_type :: u8
  dp_pool_status :: u8
  dp_token_a_flag :: u8
  dp_token_b_flag :: u8
  dp_collect_fee_mode :: u8
  dp_pool_type :: u8
  dp_padding_0 :: "u8 list"
  dp_fee_a_per_liquidity :: "u8 list"
  dp_fee_b_per_liquidity :: "u8 list"
  dp_permanent_lock_liquidity :: u128
  dp_metrics :: pool_metrics
  dp_padding_1 :: "u64 list"
  dp_reward_infos :: "reward_info list"

definition read_damm_pool :: "u8 list \<Rightarrow> (damm_pool \<times> u8 list) option" where
  "read_damm_pool xs = do {
     (pool_fees, xs) \<leftarrow> read_pool_fees_struct xs;
     (token_a_mint, xs) \<leftarrow> read_pubkey xs;
     (token_b_mint, xs) \<leftarrow> read_pubkey xs;
     (token_a_vault, xs) \<leftarrow> read_pubkey xs;
     (token_b_vault, xs) \<leftarrow> read_pubkey xs;
     (whitelisted_vault, xs) \<leftarrow> read_pubkey xs;
     (partner, xs) \<leftarrow> read_pubkey xs;
     (liquidity, xs) \<leftarrow> read_word 16 xs;
     (padding, xs) \<leftarrow> read_word 16 xs;
     (protocol_a_fee, xs) \<leftarrow> read_word 8 xs;
     (protocol_b_fee, xs) \<leftarrow> read_word 8 xs;
     (partner_a_fee, xs) \<leftarrow> read_word 8 xs;
     (partner_b_fee, xs) \<leftarrow> read_word 8 xs;
     (sqrt_min_price, xs) \<leftarrow> read_word 16 xs;
     (sqrt_max_price, xs) \<leftarrow> read_word 16 xs;
     (sqrt_price, xs) \<leftarrow> read_word 16 xs;
     (activation_point, xs) \<leftarrow> read_word 8 xs;
     (activation_type, xs) \<leftarrow> read_word 1 xs;
     (pool_status, xs) \<leftarrow> read_word 1 xs;
     (token_a_flag, xs) \<leftarrow> read_word 1 xs;
     (token_b_flag, xs) \<leftarrow> read_word 1 xs;
     (collect_fee_mode, xs) \<leftarrow> read_word 1 xs;
     (pool_type, xs) \<leftarrow> read_word 1 xs;
     (padding_0, xs) \<leftarrow> read_bytes 2 xs;
     (fee_a_per_liquidity, xs) \<leftarrow> read_bytes 32 xs;
     (fee_b_per_liquidity, xs) \<leftarrow> read_bytes 32 xs;
     (permanent_lock_liquidity, xs) \<leftarrow> read_word 16 xs;
     (metrics, xs) \<leftarrow> read_pool_metrics xs;
     (padding_1, xs) \<leftarrow> read_many 10 (read_word 8) xs;
     (reward_infos, xs) \<leftarrow> read_many 2 read_reward_info xs;
     Some (\<lparr>
       dp_pool_fees = pool_fees, dp_token_a_mint = token_a_mint, dp_token_b_mint = token_b_mint,
       dp_token_a_vault = token_a_vault, dp_token_b_vault = token_b_vault,
       dp_whitelisted_vault = whitelisted_vault, dp_partner = partner, dp_liquidity = liquidity,
       dp_padding = padding, dp_protocol_a_fee = protocol_a_fee, dp_protocol_b_fee = protocol_b_fee,
       dp_partner_a_fee = partner_a_fee, dp_partner_b_fee = partner_b_fee, dp_sqrt_min_price = sqrt_min_price,
       dp_sqrt_max_price = sqrt_max_price, dp_sqrt_price = sqrt_price, dp_activation_point = activation_point,
       dp_activation_type = activation_type, dp_pool_status = pool_status, dp_token_a_flag = token_a_flag,
       dp_token_b_flag = token_b_flag, dp_collect_fee_mode = collect_fee_mode, dp_pool_type = pool_type,
       dp_padding_0 = padding_0, dp_fee_a_per_liquidity = fee_a_per_liquidity,
       dp_fee_b_per_liquidity = fee_b_per_liquidity, dp_permanent_lock_liquidity = permanent_lock_liquidity,
       dp_metrics = metrics, dp_padding_1 = padding_1, dp_reward_infos = reward_infos\<rparr>, xs)
   }"

definition enc_damm_pool :: "damm_pool \<Rightarrow> u8 list" where
  "enc_damm_pool r =
     enc_pool_fees_struct (dp_pool_fees r) @ pubkey_bytes (dp_token_a_mint r) @
     pubkey_bytes (dp_token_b_mint r) @ pubkey_bytes (dp_token_a_vault r) @ pubkey_bytes (dp_token_b_vault r) @
     pubkey_bytes (dp_whitelisted_vault r) @ pubkey_bytes (dp_partner r) @ to_le_bytes (dp_liquidity r) @
     to_le_bytes (dp_padding r) @ to_le_bytes (dp_protocol_a_fee r) @ to_le_bytes (dp_protocol_b_fee r) @
     to_le_bytes (dp_partner_a_fee r) @ to_le_bytes (dp_partner_b_fee r) @ to_le_bytes (dp_sqrt_min_price r) @
     to_le_bytes (dp_sqrt_max_price r) @ to_le_bytes (dp_sqrt_price r) @ to_le_bytes (dp_activation_point r) @
     to_le_bytes (dp_activation_type r) @ to_le_bytes (dp_pool_status r) @ to_le_bytes (dp_token_a_flag r) @
     to_le_bytes (dp_token_b_flag r) @ to_le_bytes (dp_collect_fee_mode r) @ to_le_bytes (dp_pool_type r) @
     dp_padding_0 r @ dp_fee_a_per_liquidity r @ dp_fee_b_per_liquidity r @
     to_le_bytes (dp_permanent_lock_liquidity r) @ enc_pool_metrics (dp_metrics r) @
     concat (map to_le_bytes (dp_padding_1 r)) @ concat (map enc_reward_info (dp_reward_infos r))"

definition ok_damm_pool :: "damm_pool \<Rightarrow> bool" where
  "ok_damm_pool r \<longleftrightarrow> ok_pool_fees_struct (dp_pool_fees r) \<and> length (dp_padding_0 r) = 2 \<and> length (dp_fee_a_per_liquidity r) = 32 \<and> length (dp_fee_b_per_liquidity r) = 32 \<and> length (dp_padding_1 r) = 10 \<and> length (dp_reward_infos r) = 2 \<and> list_all ok_reward_info (dp_reward_infos r)"

text \<open>The curve account; \<open>#[borsh(skip)]\<close> leaves the discriminator and the address at their defaults.\<close>

definition read_bonding_curve :: "u8 list \<Rightarrow> (bonding_curve_account \<times> u8 list) option" where
  "read_bonding_curve xs = do {
     (virtual_token_reserves, xs) \<leftarrow> read_word 8 xs;
     (virtual_sol_reserves, xs) \<leftarrow> read_word 8 xs;
     (real_token_reserves, xs) \<leftarrow> read_word 8 xs;
     (real_sol_reserves, xs) \<leftarrow> read_word 8 xs;
     (token_total_supply, xs) \<leftarrow> read_word 8 xs;
     (finished, xs) \<leftarrow> read_bool xs;
     (creator, xs) \<leftarrow> read_pubkey xs;
     (is_mayhem_mode, xs) \<leftarrow> read_bool xs;
     (is_cashback_coin, xs) \<leftarrow> read_bool xs;
     Some (\<lparr>
       bc_discriminator = 0, bc_account = pubkey_default, bc_virtual_token_reserves = virtual_token_reserves,
       bc_virtual_sol_reserves = virtual_sol_reserves, bc_real_token_reserves = real_token_reserves,
       bc_real_sol_reserves = real_sol_reserves, bc_token_total_supply = token_total_supply, bc_complete = finished,
       bc_creator = creator, bc_is_mayhem_mode = is_mayhem_mode, bc_is_cashback_coin = is_cashback_coin\<rparr>, xs)
   }"

definition enc_bonding_curve :: "bonding_curve_account \<Rightarrow> u8 list" where
  "enc_bonding_curve r =
     to_le_bytes (bc_virtual_token_reserves r) @ to_le_bytes (bc_virtual_sol_reserves r) @
     to_le_bytes (bc_real_token_reserves r) @ to_le_bytes (bc_real_sol_reserves r) @
     to_le_bytes (bc_token_total_supply r) @ [bool_byte (bc_complete r)] @ pubkey_bytes (bc_creator r) @
     [bool_byte (bc_is_mayhem_mode r), bool_byte (bc_is_cashback_coin r)]"

definition ok_bonding_curve :: "bonding_curve_account \<Rightarrow> bool" where
  "ok_bonding_curve r \<longleftrightarrow> bc_discriminator r = 0 \<and> bc_account r = pubkey_default"

section \<open>The decoders\<close>

definition BONK_POOL_STATE_SIZE :: nat where
  "BONK_POOL_STATE_SIZE = 8 + 1 * 5 + 8 * 10 + 32 * 7 + 8 * 8 + 8 * 5"

definition bonk_pool_state_decode :: "u8 list \<Rightarrow> bonk_pool_state option" where
  "bonk_pool_state_decode = from_prefix BONK_POOL_STATE_SIZE read_bonk_pool_state"

definition CPMM_POOL_STATE_SIZE :: nat where "CPMM_POOL_STATE_SIZE = 629"

definition cpmm_pool_state_decode :: "u8 list \<Rightarrow> cpmm_pool_account option" where
  "cpmm_pool_state_decode = from_prefix CPMM_POOL_STATE_SIZE read_cpmm_pool_account"

definition AMM_INFO_SIZE :: nat where "AMM_INFO_SIZE = 752"

definition amm_info_decode :: "u8 list \<Rightarrow> amm_info option" where
  "amm_info_decode = from_prefix AMM_INFO_SIZE read_amm_info"

definition DAMM_POOL_SIZE :: nat where "DAMM_POOL_SIZE = 1104"

definition damm_pool_decode :: "u8 list \<Rightarrow> damm_pool option" where
  "damm_pool_decode = from_prefix DAMM_POOL_SIZE read_damm_pool"

text \<open>\<open>try_from_slice_unchecked\<close> does not ask that every byte is used.\<close>

definition curve_decode :: "u8 list \<Rightarrow> bonding_curve_account option" where
  "curve_decode bytes = map_option fst (read_bonding_curve bytes)"

section \<open>What the readers accept\<close>

lemma vesting_schedule_iff: "read_vesting_schedule xs = Some (r, rest) \<longleftrightarrow> xs = enc_vesting_schedule r @ rest"
proof
  assume "read_vesting_schedule xs = Some (r, rest)"
  then show "xs = enc_vesting_schedule r @ rest"
    unfolding read_vesting_schedule_def by (elim read_chainE) (auto simp: enc_vesting_schedule_def reader_iff read_words_iff  )
next
  assume "xs = enc_vesting_schedule r @ rest"
  then show "read_vesting_schedule xs = Some (r, rest)"
    by (cases r) (simp add: read_vesting_schedule_def enc_vesting_schedule_def read_back  )
qed

lemma vesting_schedule_back: "read_vesting_schedule (enc_vesting_schedule r @ rest) = Some (r, rest)"
  by (simp add: vesting_schedule_iff)

lemma length_vesting_schedule: "length (enc_vesting_schedule r) = 40"
  by (simp add: enc_vesting_schedule_def length_concat_words )

lemma vesting_schedule_consumes [consumes_intro]: "consumes read_vesting_schedule 40"
proof -
  have "consumes (\<lambda>xs. read_vesting_schedule xs) (8 + (8 + (8 + (8 + (8 + 0)))))"
    unfolding read_vesting_schedule_def by (intro consumes_intro)
  then show ?thesis by simp
qed

lemma bonk_pool_state_iff: "read_bonk_pool_state xs = Some (r, rest) \<longleftrightarrow> xs = enc_bonk_pool_state r @ rest \<and> ok_bonk_pool_state r"
proof
  assume "read_bonk_pool_state xs = Some (r, rest)"
  then show "xs = enc_bonk_pool_state r @ rest \<and> ok_bonk_pool_state r"
    unfolding read_bonk_pool_state_def by (elim read_chainE) (auto simp: enc_bonk_pool_state_def ok_bonk_pool_state_def reader_iff read_words_iff vesting_schedule_iff )
next
  assume "xs = enc_bonk_pool_state r @ rest \<and> ok_bonk_pool_state r"
  then show "read_bonk_pool_state xs = Some (r, rest)"
    by (cases r) (simp add: read_bonk_pool_state_def enc_bonk_pool_state_def ok_bonk_pool_state_def read_back vesting_schedule_back )
qed

lemma bonk_pool_state_back: "ok_bonk_pool_state r \<Longrightarrow> read_bonk_pool_state (enc_bonk_pool_state r @ rest) = Some (r, rest)"
  by (simp add: bonk_pool_state_iff)

lemma length_bonk_pool_state: "ok_bonk_pool_state r \<Longrightarrow> length (enc_bonk_pool_state r) = 421"
  by (simp add: enc_bonk_pool_state_def ok_bonk_pool_state_def length_concat_words length_vesting_schedule)

lemma bonk_pool_state_consumes [consumes_intro]: "consumes read_bonk_pool_state 421"
proof -
  have "consumes (\<lambda>xs. read_bonk_pool_state xs) (8 + (1 + (1 + (1 + (1 + (1 + (8 + (8 + (8 + (8 + (8 + (8 + (8 + (8 + (8 + (8 + (40 + (32 + (32 + (32 + (32 + (32 + (32 + (32 + (8 * 8 + 0)))))))))))))))))))))))))"
    unfolding read_bonk_pool_state_def by (intro consumes_intro)
  then show ?thesis by simp
qed

lemma cpmm_pool_account_iff: "read_cpmm_pool_account xs = Some (r, rest) \<longleftrightarrow> xs = enc_cpmm_pool_account r @ rest \<and> ok_cpmm_pool_account r"
proof
  assume "read_cpmm_pool_account xs = Some (r, rest)"
  then show "xs = enc_cpmm_pool_account r @ rest \<and> ok_cpmm_pool_account r"
    unfolding read_cpmm_pool_account_def by (elim read_chainE) (auto simp: enc_cpmm_pool_account_def ok_cpmm_pool_account_def reader_iff read_words_iff  )
next
  assume "xs = enc_cpmm_pool_account r @ rest \<and> ok_cpmm_pool_account r"
  then show "read_cpmm_pool_account xs = Some (r, rest)"
    by (cases r) (simp add: read_cpmm_pool_account_def enc_cpmm_pool_account_def ok_cpmm_pool_account_def read_back  )
qed

lemma cpmm_pool_account_back: "ok_cpmm_pool_account r \<Longrightarrow> read_cpmm_pool_account (enc_cpmm_pool_account r @ rest) = Some (r, rest)"
  by (simp add: cpmm_pool_account_iff)

lemma length_cpmm_pool_account: "ok_cpmm_pool_account r \<Longrightarrow> length (enc_cpmm_pool_account r) = 629"
  by (simp add: enc_cpmm_pool_account_def ok_cpmm_pool_account_def length_concat_words )

lemma cpmm_pool_account_consumes [consumes_intro]: "consumes read_cpmm_pool_account 629"
proof -
  have "consumes (\<lambda>xs. read_cpmm_pool_account xs) (32 + (32 + (32 + (32 + (32 + (32 + (32 + (32 + (32 + (32 + (1 + (1 + (1 + (1 + (1 + (8 + (8 + (8 + (8 + (8 + (8 + (8 + (31 * 8 + 0)))))))))))))))))))))))"
    unfolding read_cpmm_pool_account_def by (intro consumes_intro)
  then show ?thesis by simp
qed

lemma amm_fees_iff: "read_amm_fees xs = Some (r, rest) \<longleftrightarrow> xs = enc_amm_fees r @ rest"
proof
  assume "read_amm_fees xs = Some (r, rest)"
  then show "xs = enc_amm_fees r @ rest"
    unfolding read_amm_fees_def by (elim read_chainE) (auto simp: enc_amm_fees_def reader_iff read_words_iff  )
next
  assume "xs = enc_amm_fees r @ rest"
  then show "read_amm_fees xs = Some (r, rest)"
    by (cases r) (simp add: read_amm_fees_def enc_amm_fees_def read_back  )
qed

lemma amm_fees_back: "read_amm_fees (enc_amm_fees r @ rest) = Some (r, rest)"
  by (simp add: amm_fees_iff)

lemma length_amm_fees: "length (enc_amm_fees r) = 64"
  by (simp add: enc_amm_fees_def length_concat_words )

lemma amm_fees_consumes [consumes_intro]: "consumes read_amm_fees 64"
proof -
  have "consumes (\<lambda>xs. read_amm_fees xs) (8 + (8 + (8 + (8 + (8 + (8 + (8 + (8 + 0))))))))"
    unfolding read_amm_fees_def by (intro consumes_intro)
  then show ?thesis by simp
qed

lemma output_data_iff: "read_output_data xs = Some (r, rest) \<longleftrightarrow> xs = enc_output_data r @ rest"
proof
  assume "read_output_data xs = Some (r, rest)"
  then show "xs = enc_output_data r @ rest"
    unfolding read_output_data_def by (elim read_chainE) (auto simp: enc_output_data_def reader_iff read_words_iff  )
next
  assume "xs = enc_output_data r @ rest"
  then show "read_output_data xs = Some (r, rest)"
    by (cases r) (simp add: read_output_data_def enc_output_data_def read_back  )
qed

lemma output_data_back: "read_output_data (enc_output_data r @ rest) = Some (r, rest)"
  by (simp add: output_data_iff)

lemma length_output_data: "length (enc_output_data r) = 144"
  by (simp add: enc_output_data_def length_concat_words )

lemma output_data_consumes [consumes_intro]: "consumes read_output_data 144"
proof -
  have "consumes (\<lambda>xs. read_output_data xs) (8 + (8 + (8 + (8 + (8 + (8 + (8 + (8 + (16 + (16 + (8 + (16 + (16 + (8 + 0))))))))))))))"
    unfolding read_output_data_def by (intro consumes_intro)
  then show ?thesis by simp
qed

lemma amm_info_iff: "read_amm_info xs = Some (r, rest) \<longleftrightarrow> xs = enc_amm_info r @ rest \<and> ok_amm_info r"
proof
  assume "read_amm_info xs = Some (r, rest)"
  then show "xs = enc_amm_info r @ rest \<and> ok_amm_info r"
    unfolding read_amm_info_def by (elim read_chainE) (auto simp: enc_amm_info_def ok_amm_info_def reader_iff read_words_iff amm_fees_iff output_data_iff )
next
  assume "xs = enc_amm_info r @ rest \<and> ok_amm_info r"
  then show "read_amm_info xs = Some (r, rest)"
    by (cases r) (simp add: read_amm_info_def enc_amm_info_def ok_amm_info_def read_back amm_fees_back output_data_back )
qed

lemma amm_info_back: "ok_amm_info r \<Longrightarrow> read_amm_info (enc_amm_info r @ rest) = Some (r, rest)"
  by (simp add: amm_info_iff)

lemma length_amm_info: "ok_amm_info r \<Longrightarrow> length (enc_amm_info r) = 752"
  by (simp add: enc_amm_info_def ok_amm_info_def length_concat_words length_amm_fees length_output_data)

lemma amm_info_consumes [consumes_intro]: "consumes read_amm_info 752"
proof -
  have "consumes (\<lambda>xs. read_amm_info xs) (8 + (8 + (8 + (8 + (8 + (8 + (8 + (8 + (8 + (8 + (8 + (8 + (8 + (8 + (8 + (8 + (64 + (144 + (32 + (32 + (32 + (32 + (32 + (32 + (32 + (32 + (32 + (32 + (32 + (32 + (8 + (8 + (2 * 8 + 0)))))))))))))))))))))))))))))))))"
    unfolding read_amm_info_def by (intro consumes_intro)
  then show ?thesis by simp
qed

lemma base_fee_struct_iff: "read_base_fee_struct xs = Some (r, rest) \<longleftrightarrow> xs = enc_base_fee_struct r @ rest \<and> ok_base_fee_struct r"
proof
  assume "read_base_fee_struct xs = Some (r, rest)"
  then show "xs = enc_base_fee_struct r @ rest \<and> ok_base_fee_struct r"
    unfolding read_base_fee_struct_def by (elim read_chainE) (auto simp: enc_base_fee_struct_def ok_base_fee_struct_def reader_iff read_words_iff  )
next
  assume "xs = enc_base_fee_struct r @ rest \<and> ok_base_fee_struct r"
  then show "read_base_fee_struct xs = Some (r, rest)"
    by (cases r) (simp add: read_base_fee_struct_def enc_base_fee_struct_def ok_base_fee_struct_def read_back  )
qed

lemma base_fee_struct_back: "ok_base_fee_struct r \<Longrightarrow> read_base_fee_struct (enc_base_fee_struct r @ rest) = Some (r, rest)"
  by (simp add: base_fee_struct_iff)

lemma length_base_fee_struct: "ok_base_fee_struct r \<Longrightarrow> length (enc_base_fee_struct r) = 40"
  by (simp add: enc_base_fee_struct_def ok_base_fee_struct_def length_concat_words )

lemma base_fee_struct_consumes [consumes_intro]: "consumes read_base_fee_struct 40"
proof -
  have "consumes (\<lambda>xs. read_base_fee_struct xs) (8 + (1 + (5 + (2 + (8 + (8 + (8 + 0)))))))"
    unfolding read_base_fee_struct_def by (intro consumes_intro)
  then show ?thesis by simp
qed

lemma dynamic_fee_struct_iff: "read_dynamic_fee_struct xs = Some (r, rest) \<longleftrightarrow> xs = enc_dynamic_fee_struct r @ rest \<and> ok_dynamic_fee_struct r"
proof
  assume "read_dynamic_fee_struct xs = Some (r, rest)"
  then show "xs = enc_dynamic_fee_struct r @ rest \<and> ok_dynamic_fee_struct r"
    unfolding read_dynamic_fee_struct_def by (elim read_chainE) (auto simp: enc_dynamic_fee_struct_def ok_dynamic_fee_struct_def reader_iff read_words_iff  )
next
  assume "xs = enc_dynamic_fee_struct r @ rest \<and> ok_dynamic_fee_struct r"
  then show "read_dynamic_fee_struct xs = Some (r, rest)"
    by (cases r) (simp add: read_dynamic_fee_struct_def enc_dynamic_fee_struct_def ok_dynamic_fee_struct_def read_back  )
qed

lemma dynamic_fee_struct_back: "ok_dynamic_fee_struct r \<Longrightarrow> read_dynamic_fee_struct (enc_dynamic_fee_struct r @ rest) = Some (r, rest)"
  by (simp add: dynamic_fee_struct_iff)

lemma length_dynamic_fee_struct: "ok_dynamic_fee_struct r \<Longrightarrow> length (enc_dynamic_fee_struct r) = 96"
  by (simp add: enc_dynamic_fee_struct_def ok_dynamic_fee_struct_def length_concat_words )

lemma dynamic_fee_struct_consumes [consumes_intro]: "consumes read_dynamic_fee_struct 96"
proof -
  have "consumes (\<lambda>xs. read_dynamic_fee_struct xs) (1 + (7 + (4 + (4 + (2 + (2 + (2 + (2 + (8 + (16 + (16 + (16 + (16 + 0)))))))))))))"
    unfolding read_dynamic_fee_struct_def by (intro consumes_intro)
  then show ?thesis by simp
qed

lemma pool_fees_struct_iff: "read_pool_fees_struct xs = Some (r, rest) \<longleftrightarrow> xs = enc_pool_fees_struct r @ rest \<and> ok_pool_fees_struct r"
proof
  assume "read_pool_fees_struct xs = Some (r, rest)"
  then show "xs = enc_pool_fees_struct r @ rest \<and> ok_pool_fees_struct r"
    unfolding read_pool_fees_struct_def by (elim read_chainE) (auto simp: enc_pool_fees_struct_def ok_pool_fees_struct_def reader_iff read_words_iff base_fee_struct_iff dynamic_fee_struct_iff )
next
  assume "xs = enc_pool_fees_struct r @ rest \<and> ok_pool_fees_struct r"
  then show "read_pool_fees_struct xs = Some (r, rest)"
    by (cases r) (simp add: read_pool_fees_struct_def enc_pool_fees_struct_def ok_pool_fees_struct_def read_back base_fee_struct_back dynamic_fee_struct_back )
qed

lemma pool_fees_struct_back: "ok_pool_fees_struct r \<Longrightarrow> read_pool_fees_struct (enc_pool_fees_struct r @ rest) = Some (r, rest)"
  by (simp add: pool_fees_struct_iff)

lemma length_pool_fees_struct: "ok_pool_fees_struct r \<Longrightarrow> length (enc_pool_fees_struct r) = 160"
  by (simp add: enc_pool_fees_struct_def ok_pool_fees_struct_def length_concat_words length_base_fee_struct length_dynamic_fee_struct)

lemma pool_fees_struct_consumes [consumes_intro]: "consumes read_pool_fees_struct 160"
proof -
  have "consumes (\<lambda>xs. read_pool_fees_struct xs) (40 + (1 + (1 + (1 + (5 + (96 + (2 * 8 + 0)))))))"
    unfolding read_pool_fees_struct_def by (intro consumes_intro)
  then show ?thesis by simp
qed

lemma pool_metrics_iff: "read_pool_metrics xs = Some (r, rest) \<longleftrightarrow> xs = enc_pool_metrics r @ rest"
proof
  assume "read_pool_metrics xs = Some (r, rest)"
  then show "xs = enc_pool_metrics r @ rest"
    unfolding read_pool_metrics_def by (elim read_chainE) (auto simp: enc_pool_metrics_def reader_iff read_words_iff  )
next
  assume "xs = enc_pool_metrics r @ rest"
  then show "read_pool_metrics xs = Some (r, rest)"
    by (cases r) (simp add: read_pool_metrics_def enc_pool_metrics_def read_back  )
qed

lemma pool_metrics_back: "read_pool_metrics (enc_pool_metrics r @ rest) = Some (r, rest)"
  by (simp add: pool_metrics_iff)

lemma length_pool_metrics: "length (enc_pool_metrics r) = 80"
  by (simp add: enc_pool_metrics_def length_concat_words )

lemma pool_metrics_consumes [consumes_intro]: "consumes read_pool_metrics 80"
proof -
  have "consumes (\<lambda>xs. read_pool_metrics xs) (16 + (16 + (8 + (8 + (8 + (8 + (8 + (8 + 0))))))))"
    unfolding read_pool_metrics_def by (intro consumes_intro)
  then show ?thesis by simp
qed

lemma reward_info_iff: "read_reward_info xs = Some (r, rest) \<longleftrightarrow> xs = enc_reward_info r @ rest \<and> ok_reward_info r"
proof
  assume "read_reward_info xs = Some (r, rest)"
  then show "xs = enc_reward_info r @ rest \<and> ok_reward_info r"
    unfolding read_reward_info_def by (elim read_chainE) (auto simp: enc_reward_info_def ok_reward_info_def reader_iff read_words_iff  )
next
  assume "xs = enc_reward_info r @ rest \<and> ok_reward_info r"
  then show "read_reward_info xs = Some (r, rest)"
    by (cases r) (simp add: read_reward_info_def enc_reward_info_def ok_reward_info_def read_back  )
qed

lemma reward_info_back: "ok_reward_info r \<Longrightarrow> read_reward_info (enc_reward_info r @ rest) = Some (r, rest)"
  by (simp add: reward_info_iff)

lemma length_reward_info: "ok_reward_info r \<Longrightarrow> length (enc_reward_info r) = 192"
  by (simp add: enc_reward_info_def ok_reward_info_def length_concat_words )

lemma reward_info_consumes [consumes_intro]: "consumes read_reward_info 192"
proof -
  have "consumes (\<lambda>xs. read_reward_info xs) (1 + (1 + (6 + (8 + (32 + (32 + (32 + (8 + (8 + (16 + (32 + (8 + (8 + 0)))))))))))))"
    unfolding read_reward_info_def by (intro consumes_intro)
  then show ?thesis by simp
qed

lemma reward_infos_iff:
  "read_many n read_reward_info xs = Some (vs, rest) \<longleftrightarrow> length vs = n \<and> xs = concat (map enc_reward_info vs) @ rest \<and> list_all ok_reward_info vs"
  by (rule read_many_iff) (rule reward_info_iff)

lemma reward_infos_back:
  "length vs = n \<Longrightarrow> list_all ok_reward_info vs \<Longrightarrow> read_many n read_reward_info (concat (map enc_reward_info vs) @ rest) = Some (vs, rest)"
  by (simp add: reward_infos_iff)

lemma length_reward_infos: "list_all ok_reward_info vs \<Longrightarrow> length (concat (map enc_reward_info vs)) = 192 * length vs"
  by (induction vs) (simp_all add: length_reward_info)

lemma damm_pool_iff: "read_damm_pool xs = Some (r, rest) \<longleftrightarrow> xs = enc_damm_pool r @ rest \<and> ok_damm_pool r"
proof
  assume "read_damm_pool xs = Some (r, rest)"
  then show "xs = enc_damm_pool r @ rest \<and> ok_damm_pool r"
    unfolding read_damm_pool_def by (elim read_chainE) (auto simp: enc_damm_pool_def ok_damm_pool_def reader_iff read_words_iff pool_fees_struct_iff pool_metrics_iff reward_info_iff reward_infos_iff)
next
  assume "xs = enc_damm_pool r @ rest \<and> ok_damm_pool r"
  then show "read_damm_pool xs = Some (r, rest)"
    by (cases r) (simp add: read_damm_pool_def enc_damm_pool_def ok_damm_pool_def read_back pool_fees_struct_back pool_metrics_back reward_info_back reward_infos_back)
qed

lemma damm_pool_back: "ok_damm_pool r \<Longrightarrow> read_damm_pool (enc_damm_pool r @ rest) = Some (r, rest)"
  by (simp add: damm_pool_iff)

lemma length_damm_pool: "ok_damm_pool r \<Longrightarrow> length (enc_damm_pool r) = 1104"
  by (simp add: enc_damm_pool_def ok_damm_pool_def length_concat_words length_pool_fees_struct length_pool_metrics length_reward_info length_reward_infos)

lemma damm_pool_consumes [consumes_intro]: "consumes read_damm_pool 1104"
proof -
  have "consumes (\<lambda>xs. read_damm_pool xs) (160 + (32 + (32 + (32 + (32 + (32 + (32 + (16 + (16 + (8 + (8 + (8 + (8 + (16 + (16 + (16 + (8 + (1 + (1 + (1 + (1 + (1 + (1 + (2 + (32 + (32 + (16 + (80 + (10 * 8 + (2 * 192 + 0))))))))))))))))))))))))))))))"
    unfolding read_damm_pool_def by (intro consumes_intro)
  then show ?thesis by simp
qed

lemma bonding_curve_iff: "read_bonding_curve xs = Some (r, rest) \<longleftrightarrow> xs = enc_bonding_curve r @ rest \<and> ok_bonding_curve r"
proof
  assume "read_bonding_curve xs = Some (r, rest)"
  then show "xs = enc_bonding_curve r @ rest \<and> ok_bonding_curve r"
    unfolding read_bonding_curve_def by (elim read_chainE) (auto simp: enc_bonding_curve_def ok_bonding_curve_def reader_iff)
next
  assume "xs = enc_bonding_curve r @ rest \<and> ok_bonding_curve r"
  then show "read_bonding_curve xs = Some (r, rest)"
    by (cases r) (simp add: read_bonding_curve_def enc_bonding_curve_def ok_bonding_curve_def read_back)
qed

lemma length_bonding_curve: "length (enc_bonding_curve r) = 75"
  by (simp add: enc_bonding_curve_def)

section \<open>The contract on every account type\<close>

interpretation pumpswap_layout: layout borsh_pool pool_encode "\<lambda>p. length (po_reserved p) = 7" POOL_SIZE
  by unfold_locales (auto simp: borsh_pool_iff length_pool_encode POOL_SIZE_def)

interpretation curve_layout: layout read_bonding_curve enc_bonding_curve ok_bonding_curve 75
  by unfold_locales (simp_all add: bonding_curve_iff length_bonding_curve)

interpretation bonk_layout: total_layout read_bonk_pool_state enc_bonk_pool_state ok_bonk_pool_state BONK_POOL_STATE_SIZE
  by unfold_locales
    (simp_all add: bonk_pool_state_iff length_bonk_pool_state BONK_POOL_STATE_SIZE_def consumes_total [OF bonk_pool_state_consumes])

interpretation cpmm_layout: total_layout read_cpmm_pool_account enc_cpmm_pool_account ok_cpmm_pool_account CPMM_POOL_STATE_SIZE
  by unfold_locales
    (simp_all add: cpmm_pool_account_iff length_cpmm_pool_account CPMM_POOL_STATE_SIZE_def consumes_total [OF cpmm_pool_account_consumes])

interpretation amm_layout: total_layout read_amm_info enc_amm_info ok_amm_info AMM_INFO_SIZE
  by unfold_locales (simp_all add: amm_info_iff length_amm_info AMM_INFO_SIZE_def consumes_total [OF amm_info_consumes])

interpretation damm_layout: total_layout read_damm_pool enc_damm_pool ok_damm_pool DAMM_POOL_SIZE
  by unfold_locales (simp_all add: damm_pool_iff length_damm_pool DAMM_POOL_SIZE_def consumes_total [OF damm_pool_consumes])

lemma curve_decode_iff: "curve_decode bytes = Some r \<longleftrightarrow> ok_bonding_curve r \<and> (\<exists>tail. bytes = enc_bonding_curve r @ tail)"
  by (auto simp: curve_decode_def bonding_curve_iff)

lemma decoder_iffs:
  "bonk_pool_state_decode b = Some v1 \<longleftrightarrow> ok_bonk_pool_state v1 \<and> (\<exists>tail. b = enc_bonk_pool_state v1 @ tail)"
  "cpmm_pool_state_decode b = Some v2 \<longleftrightarrow> ok_cpmm_pool_account v2 \<and> (\<exists>tail. b = enc_cpmm_pool_account v2 @ tail)"
  "amm_info_decode b = Some v3 \<longleftrightarrow> ok_amm_info v3 \<and> (\<exists>tail. b = enc_amm_info v3 @ tail)"
  "damm_pool_decode b = Some v4 \<longleftrightarrow> ok_damm_pool v4 \<and> (\<exists>tail. b = enc_damm_pool v4 @ tail)"
  by (simp_all only: bonk_pool_state_decode_def cpmm_pool_state_decode_def amm_info_decode_def damm_pool_decode_def
      bonk_layout.from_prefix_iff cpmm_layout.from_prefix_iff amm_layout.from_prefix_iff damm_layout.from_prefix_iff)

lemma decoders_total:
  "bonk_pool_state_decode b \<noteq> None \<longleftrightarrow> 421 \<le> length b" "cpmm_pool_state_decode b \<noteq> None \<longleftrightarrow> 629 \<le> length b"
  "amm_info_decode b \<noteq> None \<longleftrightarrow> 752 \<le> length b" "damm_pool_decode b \<noteq> None \<longleftrightarrow> 1104 \<le> length b"
  unfolding bonk_pool_state_decode_def cpmm_pool_state_decode_def amm_info_decode_def damm_pool_decode_def
    bonk_layout.from_prefix_total cpmm_layout.from_prefix_total amm_layout.from_prefix_total damm_layout.from_prefix_total
  by (simp_all add: BONK_POOL_STATE_SIZE_def CPMM_POOL_STATE_SIZE_def AMM_INFO_SIZE_def DAMM_POOL_SIZE_def)

text \<open>
  C26: The decoders invert the layouts of the accounts: each accepts exactly the byte strings that begin with the encoding of a
  well-formed value, whatever follows, and returns that value. The stated account sizes are those of the structs, and the
  four pool decoders accept every byte string of at least that length.
\<close>

theorem account_layouts:
  "(bonk_pool_state_decode b = Some v1 \<longleftrightarrow> ok_bonk_pool_state v1 \<and> (\<exists>tail. b = enc_bonk_pool_state v1 @ tail))
   \<and> (cpmm_pool_state_decode b = Some v2 \<longleftrightarrow> ok_cpmm_pool_account v2 \<and> (\<exists>tail. b = enc_cpmm_pool_account v2 @ tail))
   \<and> (amm_info_decode b = Some v3 \<longleftrightarrow> ok_amm_info v3 \<and> (\<exists>tail. b = enc_amm_info v3 @ tail))
   \<and> (damm_pool_decode b = Some v4 \<longleftrightarrow> ok_damm_pool v4 \<and> (\<exists>tail. b = enc_damm_pool v4 @ tail))
   \<and> (bonk_pool_state_decode b \<noteq> None \<longleftrightarrow> 421 \<le> length b) \<and> (cpmm_pool_state_decode b \<noteq> None \<longleftrightarrow> 629 \<le> length b)
   \<and> (amm_info_decode b \<noteq> None \<longleftrightarrow> 752 \<le> length b) \<and> (damm_pool_decode b \<noteq> None \<longleftrightarrow> 1104 \<le> length b)"
  by (intro conjI decoder_iffs decoders_total)

end
