(* ===== verification/PoolAccounts.thy ===== *)
theory PoolAccounts
  imports Layouts BuilderBonk BuilderPools BuilderPumpFun
begin

text \<open>
  Swap parameters read from the chain: the account fetchers of \<open>instruction/utils/*.rs\<close>, the balance helpers of
  \<open>trading/common/utils.rs\<close>, and the RPC constructors of the PumpFun, Bonk, Raydium and Meteora parameters in
  \<open>trading/core/params.rs\<close>. A node is the record \<open>pool_rpc\<close> of the pool lookup with the calls these constructors add.
\<close>

section \<open>Fetching accounts\<close>

record account_rpc = pool_rpc +
  get_account_data :: "pubkey \<Rightarrow> string + u8 list"
  get_multiple_accounts :: "pubkey list \<Rightarrow> string + (pubkey \<times> u8 list) option list"

text \<open>
  An account of a program, decoded behind its discriminator of eight bytes. The slice panics on a shorter account.
\<close>

definition fetch_owned :: "pubkey \<Rightarrow> string \<Rightarrow> string \<Rightarrow> (u8 list \<Rightarrow> 'a option) \<Rightarrow> 'x account_rpc_scheme \<Rightarrow> pubkey \<Rightarrow> ('s, 'a) prog" where
  "fetch_owned program not_owned not_decoded decode rpc address =
     then_do (of_result (get_account rpc address)) (\<lambda>(owner, acc_data).
     if owner \<noteq> program then fail not_owned
     else if length acc_data < 8 then panic
     else ok_or not_decoded (decode (drop 8 acc_data)))"

definition bonk_fetch_pool_state :: "'x account_rpc_scheme \<Rightarrow> pubkey \<Rightarrow> ('s, bonk_pool_state) prog" where
  "bonk_fetch_pool_state = fetch_owned BONK ''Account is not owned by Bonk program'' ''Failed to decode pool state'' bonk_pool_state_decode"

definition cpmm_fetch_pool_state :: "'x account_rpc_scheme \<Rightarrow> pubkey \<Rightarrow> ('s, cpmm_pool_account) prog" where
  "cpmm_fetch_pool_state =
     fetch_owned RAYDIUM_CPMM ''Account is not owned by Raydium Cpmm program'' ''Failed to decode pool state'' cpmm_pool_state_decode"

definition damm_fetch_pool :: "'x account_rpc_scheme \<Rightarrow> pubkey \<Rightarrow> ('s, damm_pool) prog" where
  "damm_fetch_pool = fetch_owned METEORA_DAMM_V2 ''Account is not owned by Meteora Damm V2 program'' ''Failed to decode pool'' damm_pool_decode"

text \<open>The AMM v4 account has no discriminator and its owner is not looked at.\<close>

definition fetch_amm_info :: "'x account_rpc_scheme \<Rightarrow> pubkey \<Rightarrow> ('s, amm_info) prog" where
  "fetch_amm_info rpc amm =
     then_do (of_result (get_account_data rpc amm)) (\<lambda>info. ok_or ''Failed to decode amm info'' (amm_info_decode info))"

definition fetch_bonding_curve_account ::
  "chain_ext \<Rightarrow> 'x account_rpc_scheme \<Rightarrow> pubkey \<Rightarrow> (caches, bonding_curve_account \<times> pubkey) prog" where
  "fetch_bonding_curve_account ext rpc mint =
     then_do (get_bonding_curve_pda ext mint) (\<lambda>pda.
     then_do (ok_or ''Bonding curve not found'' pda) (\<lambda>address.
     then_do (of_result (get_account rpc address)) (\<lambda>(owner, acc_data).
     if acc_data = [] then fail ''Bonding curve not found''
     else if length acc_data < 8 then panic
     else then_do (ok_or ''Failed to deserialize bonding curve account'' (curve_decode (drop 8 acc_data))) (\<lambda>curve.
     ret (curve, address)))))"

section \<open>Balances\<close>

definition get_multi_token_balances :: "'x account_rpc_scheme \<Rightarrow> pubkey \<Rightarrow> pubkey \<Rightarrow> ('s, u64 \<times> u64) prog" where
  "get_multi_token_balances rpc token0_vault token1_vault =
     then_do (of_result (token_balance rpc token0_vault)) (\<lambda>token0_balance.
     then_do (of_result (token_balance rpc token1_vault)) (\<lambda>token1_balance.
     then_do (of_result token0_balance) (\<lambda>token0_amount.
     then_do (of_result token1_balance) (\<lambda>token1_amount.
     ret (token0_amount, token1_amount)))))"

definition get_pool_token_balances ::
  "chain_ext \<Rightarrow> 'x account_rpc_scheme \<Rightarrow> pubkey \<Rightarrow> pubkey \<Rightarrow> pubkey \<Rightarrow> ('s, u64 \<times> u64) prog" where
  "get_pool_token_balances ext rpc pool_state token0_mint token1_mint =
     then_do (of_rust (cpmm_get_vault_pda ext pool_state token0_mint)) (\<lambda>token0_vault.
     then_do (of_result (token_balance rpc token0_vault)) (\<lambda>token0_balance.
     then_do (of_rust (cpmm_get_vault_pda ext pool_state token1_mint)) (\<lambda>token1_vault.
     then_do (of_result (token_balance rpc token1_vault)) (\<lambda>token1_balance.
     then_do (of_result token0_balance) (\<lambda>token0_amount.
     then_do (of_result token1_balance) (\<lambda>token1_amount.
     ret (token0_amount, token1_amount)))))))"

section \<open>Parameters\<close>

definition pumpfun_from_mint_by_rpc ::
  "chain_ext \<Rightarrow> 'x account_rpc_scheme \<Rightarrow> pubkey \<Rightarrow> (caches, pumpfun_params) prog" where
  "pumpfun_from_mint_by_rpc ext rpc mint =
     then_do (fetch_bonding_curve_account ext rpc mint) (\<lambda>(account, address).
     then_do (of_result (get_account rpc mint)) (\<lambda>(mint_owner, mint_data).
     let curve = account\<lparr>bc_discriminator := 0, bc_account := address\<rparr>;
         associated = get_associated_token_address_with_program_id ext address mint mint_owner in
     then_do (get_creator_vault_pda ext (bc_creator curve)) (\<lambda>creator_vault.
     then_do (of_rust creator_vault) (\<lambda>vault.
     ret \<lparr>pf_bonding_curve = curve, pf_associated_bonding_curve = associated, pf_creator_vault = vault,
       pf_token_program = mint_owner, pf_close_token_account_when_sell = None, pf_fee_recipient = pubkey_default\<rparr>))))"

definition bonk_from_mint_by_rpc ::
  "chain_ext \<Rightarrow> 'x account_rpc_scheme \<Rightarrow> pubkey \<Rightarrow> bool \<Rightarrow> (caches, bonk_params) prog" where
  "bonk_from_mint_by_rpc ext rpc mint usd1 =
     then_do (bonk_get_pool_pda ext mint (if usd1 then USD1_TOKEN_ACCOUNT else WSOL_TOKEN_ACCOUNT)) (\<lambda>pda.
     then_do (of_rust pda) (\<lambda>pool_address.
     then_do (bonk_fetch_pool_state rpc pool_address) (\<lambda>pool.
     then_do (of_result (get_account rpc (bs_base_mint pool))) (\<lambda>(mint_owner, mint_data).
     then_do (of_rust (get_platform_associated_account ext (bs_platform_config pool))) (\<lambda>platform_account.
     then_do (of_rust (get_creator_associated_account ext (bs_creator pool))) (\<lambda>creator_account.
     ret \<lparr>bk_virtual_base = as_u128 (bs_virtual_base pool), bk_virtual_quote = as_u128 (bs_virtual_quote pool),
       bk_real_base = as_u128 (bs_real_base pool), bk_real_quote = as_u128 (bs_real_quote pool), bk_pool_state = pool_address,
       bk_base_vault = bs_base_vault pool, bk_quote_vault = bs_quote_vault pool, bk_mint_token_program = mint_owner,
       bk_platform_config = bs_platform_config pool, bk_platform_associated_account = platform_account,
       bk_creator_associated_account = creator_account, bk_global_config = bs_global_config pool\<rparr>))))))"

definition cpmm_from_pool_address_by_rpc ::
  "chain_ext \<Rightarrow> 'x account_rpc_scheme \<Rightarrow> pubkey \<Rightarrow> ('s, raydium_cpmm_params) prog" where
  "cpmm_from_pool_address_by_rpc ext rpc pool_address =
     then_do (cpmm_fetch_pool_state rpc pool_address) (\<lambda>pool.
     then_do (get_pool_token_balances ext rpc pool_address (cs_token0_mint pool) (cs_token1_mint pool)) (\<lambda>(token0_balance, token1_balance).
     ret \<lparr>rc_pool_state = pool_address, rc_amm_config = cs_amm_config pool, rc_base_mint = cs_token0_mint pool,
       rc_quote_mint = cs_token1_mint pool, rc_base_reserve = token0_balance, rc_quote_reserve = token1_balance,
       rc_base_vault = cs_token0_vault pool, rc_quote_vault = cs_token1_vault pool, rc_base_token_program = cs_token0_program pool,
       rc_quote_token_program = cs_token1_program pool, rc_observation_state = cs_observation_key pool\<rparr>))"

definition from_amm_address_by_rpc :: "'x account_rpc_scheme \<Rightarrow> pubkey \<Rightarrow> ('s, raydium_amm_v4_params) prog" where
  "from_amm_address_by_rpc rpc amm =
     then_do (fetch_amm_info rpc amm) (\<lambda>info.
     then_do (get_multi_token_balances rpc (ai_token_coin info) (ai_token_pc info)) (\<lambda>(coin_reserve, pc_reserve).
     ret \<lparr>ra_amm = amm, ra_coin_mint = ai_coin_mint info, ra_pc_mint = ai_pc_mint info, ra_token_coin = ai_token_coin info,
       ra_token_pc = ai_token_pc info, ra_coin_reserve = coin_reserve, ra_pc_reserve = pc_reserve\<rparr>))"

definition mint_owner :: "(pubkey \<times> u8 list) option list \<Rightarrow> nat \<Rightarrow> pubkey option" where
  "mint_owner accs i = (if i < length accs then map_option fst (accs ! i) else None)"

definition damm_from_pool_address_by_rpc :: "'x account_rpc_scheme \<Rightarrow> pubkey \<Rightarrow> ('s, meteora_damm_v2_params) prog" where
  "damm_from_pool_address_by_rpc rpc pool_address =
     then_do (damm_fetch_pool rpc pool_address) (\<lambda>pool.
     then_do (of_result (get_multiple_accounts rpc [dp_token_a_mint pool, dp_token_b_mint pool])) (\<lambda>mint_accounts.
     then_do (ok_or ''Token A mint account not found'' (mint_owner mint_accounts 0)) (\<lambda>token_a_program.
     then_do (ok_or ''Token B mint account not found'' (mint_owner mint_accounts 1)) (\<lambda>token_b_program.
     ret \<lparr>md_pool = pool_address, md_token_a_vault = dp_token_a_vault pool, md_token_b_vault = dp_token_b_vault pool,
       md_token_a_mint = dp_token_a_mint pool, md_token_b_mint = dp_token_b_mint pool, md_token_a_program = token_a_program,
       md_token_b_program = token_b_program\<rparr>))))"

section \<open>Outcomes\<close>

named_theorems ok_iff \<open>when a step of a program succeeds\<close>

lemma then_steps [ok_iff]:
  "fst (then_do (of_result x) f s) = Ok b \<longleftrightarrow> (\<exists>a. x = Inr a \<and> fst (f a s) = Ok b)"
  "fst (then_do (of_rust y) f s) = Ok b \<longleftrightarrow> (\<exists>a. y = Some a \<and> fst (f a s) = Ok b)"
  "fst (then_do (ok_or e y) f s) = Ok b \<longleftrightarrow> (\<exists>a. y = Some a \<and> fst (f a s) = Ok b)"
  "fst (ok_or e y s) = Ok v \<longleftrightarrow> y = Some v" "fst (ret v s) = Ok w \<longleftrightarrow> v = w" "fst (fail e s) \<noteq> Ok w" "fst (panic s) \<noteq> Ok w"
  by (cases x; simp) (cases y; simp)+

lemma cached_step:
  assumes "coherent ext r1 r2 s"
  shows "coherent ext r1 r2 (snd (cached_pda ext k s))"
    and "then_do (cached_pda ext k) f s = f (pda_spec ext k) (snd (cached_pda ext k s))"
proof -
  show "coherent ext r1 r2 (snd (cached_pda ext k s))"
    using cached_pda_yields [of ext r1 r2 k] assms by (simp add: yields_def)
  have "cached_pda ext k s = (Ok (pda_spec ext k), snd (cached_pda ext k s))"
    using cached_pda_yields [of ext r1 r2 k] assms by (simp add: yields_def prod_eq_iff)
  then show "then_do (cached_pda ext k) f s = f (pda_spec ext k) (snd (cached_pda ext k s))"
    by (metis bind_outcome.simps(1) then_do_run)
qed

text \<open>An account of a program: its owner, a discriminator, the encoding of a value, and anything after it.\<close>

definition holds_account :: "'x account_rpc_scheme \<Rightarrow> pubkey \<Rightarrow> pubkey \<Rightarrow> u8 list \<Rightarrow> bool" where
  "holds_account rpc address program bytes \<longleftrightarrow>
     (\<exists>disc tail. get_account rpc address = Inr (program, disc @ bytes @ tail) \<and> length disc = 8)"

lemma behind_discriminator:
  "(\<exists>d. get_account rpc a = Inr (p, d) \<and> 8 \<le> length d \<and> (\<exists>tail. drop 8 d = bytes @ tail)) \<longleftrightarrow> holds_account rpc a p bytes"
proof
  assume "\<exists>d. get_account rpc a = Inr (p, d) \<and> 8 \<le> length d \<and> (\<exists>tail. drop 8 d = bytes @ tail)"
  then obtain d tail where d: "get_account rpc a = Inr (p, d)" "8 \<le> length d" "drop 8 d = bytes @ tail" by blast
  have "d = take 8 d @ bytes @ tail" using append_take_drop_id [of 8 d] d(3) by simp
  moreover have "length (take 8 d) = 8" using d(2) by simp
  ultimately show "holds_account rpc a p bytes" unfolding holds_account_def using d(1) by metis
qed (auto simp: holds_account_def)

lemma fetch_owned_ok:
  "fst (then_do (fetch_owned p e1 e2 decode rpc a) f s) = Ok b \<longleftrightarrow>
     (\<exists>d v. get_account rpc a = Inr (p, d) \<and> 8 \<le> length d \<and> decode (drop 8 d) = Some v \<and> fst (f v s) = Ok b)"
proof (cases "get_account rpc a")
  case (Inr x)
  obtain owner d where x: "x = (owner, d)" by force
  show ?thesis
  proof (cases "owner = p \<and> 8 \<le> length d")
    case True
    then show ?thesis by (cases "decode (drop 8 d)") (auto simp: fetch_owned_def Inr x ok_iff simp del: prog_simps(1,2,3))
  qed (auto simp: fetch_owned_def Inr x ok_iff simp del: prog_simps(1,2,3))
qed (simp add: fetch_owned_def)

lemma decoded_iff:
  assumes "\<And>b v. decode b = Some v \<longleftrightarrow> ok v \<and> (\<exists>tail. b = enc v @ tail)"
  shows "(\<exists>d v. get_account rpc a = Inr (p, d) \<and> 8 \<le> length d \<and> decode (drop 8 d) = Some v \<and> P v)
     \<longleftrightarrow> (\<exists>v. holds_account rpc a p (enc v) \<and> ok v \<and> P v)"
  unfolding assms behind_discriminator [symmetric] by blast

lemmas fetchers = bonk_fetch_pool_state_def cpmm_fetch_pool_state_def damm_fetch_pool_def

text \<open>
  C27: Parameters read from the chain are those of the account: each constructor succeeds exactly when the account is there,
  belongs to the protocol's program and holds the encoding of a pool (and the addresses, mints and balances it goes on to
  ask for are answered), and then returns what the constructor without RPC returns on the fields of that pool.
\<close>

theorem params_from_chain:
  assumes "coherent ext r1 r2 s"
  shows "(fst (cpmm_from_pool_address_by_rpc ext rpc a s) = Ok p1 \<longleftrightarrow>
      (\<exists>v v0 v1 b0 b1. holds_account rpc a RAYDIUM_CPMM (enc_cpmm_pool_account v) \<and> ok_cpmm_pool_account v
         \<and> cpmm_get_vault_pda ext a (cs_token0_mint v) = Some v0 \<and> cpmm_get_vault_pda ext a (cs_token1_mint v) = Some v1
         \<and> token_balance rpc v0 = Inr (Inr b0) \<and> token_balance rpc v1 = Inr (Inr b1)
         \<and> p1 = raydium_cpmm_from_trade a (cs_amm_config v) (cs_token0_mint v) (cs_token1_mint v) (cs_token0_vault v) (cs_token1_vault v)
             (cs_token0_program v) (cs_token1_program v) (cs_observation_key v) b0 b1))
   \<and> (fst (damm_from_pool_address_by_rpc rpc a s) = Ok p2 \<longleftrightarrow>
      (\<exists>v accs pa pb. holds_account rpc a METEORA_DAMM_V2 (enc_damm_pool v) \<and> ok_damm_pool v
         \<and> get_multiple_accounts rpc [dp_token_a_mint v, dp_token_b_mint v] = Inr accs
         \<and> mint_owner accs 0 = Some pa \<and> mint_owner accs 1 = Some pb
         \<and> p2 = meteora_damm_v2_new a (dp_token_a_vault v) (dp_token_b_vault v) (dp_token_a_mint v) (dp_token_b_mint v) pa pb))
   \<and> (fst (from_amm_address_by_rpc rpc a s) = Ok p3 \<longleftrightarrow>
      (\<exists>v tail b0 b1. get_account_data rpc a = Inr (enc_amm_info v @ tail) \<and> ok_amm_info v
         \<and> token_balance rpc (ai_token_coin v) = Inr (Inr b0) \<and> token_balance rpc (ai_token_pc v) = Inr (Inr b1)
         \<and> p3 = raydium_amm_v4_new a (ai_coin_mint v) (ai_pc_mint v) (ai_token_coin v) (ai_token_pc v) b0 b1))
   \<and> (fst (bonk_from_mint_by_rpc ext rpc mint usd1 s) = Ok p4 \<longleftrightarrow>
      (\<exists>pool v owner d plat creat. pda_spec ext (BonkPool mint (if usd1 then USD1_TOKEN_ACCOUNT else WSOL_TOKEN_ACCOUNT)) = Some pool
         \<and> holds_account rpc pool BONK (enc_bonk_pool_state v) \<and> ok_bonk_pool_state v
         \<and> get_account rpc (bs_base_mint v) = Inr (owner, d)
         \<and> get_platform_associated_account ext (bs_platform_config v) = Some plat
         \<and> get_creator_associated_account ext (bs_creator v) = Some creat
         \<and> p4 = bonk_from_trade (bs_virtual_base v) (bs_virtual_quote v) (bs_real_base v) (bs_real_quote v) pool
             (bs_base_vault v) (bs_quote_vault v) owner (bs_platform_config v) plat creat (bs_global_config v)))"
  (is "?A \<and> ?B \<and> ?C \<and> ?D")
proof (intro conjI)
  show ?A unfolding cpmm_from_pool_address_by_rpc_def fetchers fetch_owned_ok decoded_iff [OF decoder_iffs(2)]
    by (auto simp: get_pool_token_balances_def then_do_assoc raydium_cpmm_from_trade_def ok_iff simp del: prog_simps(1,2,3))
  show ?B unfolding damm_from_pool_address_by_rpc_def fetchers fetch_owned_ok decoded_iff [OF decoder_iffs(4)]
    by (auto simp: meteora_damm_v2_new_def ok_iff simp del: prog_simps(1,2,3))
  show ?C unfolding from_amm_address_by_rpc_def fetch_amm_info_def get_multi_token_balances_def
    by (simp add: then_do_assoc raydium_amm_v4_new_def ok_iff decoder_iffs(3) del: prog_simps(1,2,3)) metis
  show ?D unfolding bonk_from_mint_by_rpc_def bonk_get_pool_pda_def cached_step(2) [OF assms] then_steps(2) fetchers fetch_owned_ok decoded_iff [OF decoder_iffs(1)]
      bonk_from_trade_def [symmetric]
    by (auto simp: ok_iff simp del: prog_simps(1,2,3) pda_spec.simps split del: if_split) metis+
qed

definition sample_rpc :: account_rpc where
  "sample_rpc = \<lparr>get_account = \<lambda>_. Inr (RAYDIUM_CPMM, [1, 2, 3]), program_accounts = \<lambda>_ _ _. Inr [], token_balance = \<lambda>_. Inr (Inr 5),
     lookup_times_out = \<lambda>_. False, get_account_data = \<lambda>_. Inr (replicate 752 0), get_multiple_accounts = \<lambda>_. Inr []\<rparr>"

theorem params_from_chain_witness:
  "\<exists>p3. fst (from_amm_address_by_rpc sample_rpc 1 caches_init) = Ok p3 \<and> ra_coin_reserve p3 = 5"
proof -
  obtain v where "amm_info_decode (replicate 752 0) = Some v" using decoders_total(3) [of "replicate 752 0"] by auto
  then obtain tail where v: "replicate 752 0 = enc_amm_info v @ tail" "ok_amm_info v" unfolding decoder_iffs(3) by blast
  define p3 where "p3 = raydium_amm_v4_new 1 (ai_coin_mint v) (ai_pc_mint v) (ai_token_coin v) (ai_token_pc v) 5 5"
  have "fst (from_amm_address_by_rpc sample_rpc 1 caches_init) = Ok p3"
    using params_from_chain [OF coherent_init, of undefined sample_rpc 1 undefined undefined p3] v
    by (auto simp: sample_rpc_def p3_def simp del: replicate.simps)
  then show ?thesis by (auto simp: p3_def raydium_amm_v4_new_def)
qed

section \<open>Panics\<close>

lemma panic_steps:
  "fst (then_do (of_result x) f s) = Panic \<longleftrightarrow> (\<exists>a. x = Inr a \<and> fst (f a s) = Panic)"
  "fst (then_do (of_rust y) f s) = Panic \<longleftrightarrow> y = None \<or> (\<exists>a. y = Some a \<and> fst (f a s) = Panic)"
  "fst (then_do (ok_or e y) f s) = Panic \<longleftrightarrow> (\<exists>a. y = Some a \<and> fst (f a s) = Panic)"
  "fst (ok_or e y s) \<noteq> Panic" "fst (ret w s) \<noteq> Panic" "fst (fail e s) \<noteq> Panic" "fst (panic s) = Panic"
  by (cases x; simp) (cases y; simp)+

lemma fetch_owned_panics:
  "fst (then_do (fetch_owned p e1 e2 decode rpc a) f s) = Panic \<longleftrightarrow>
     (\<exists>d. get_account rpc a = Inr (p, d) \<and> (length d < 8 \<or> (\<exists>v. decode (drop 8 d) = Some v \<and> fst (f v s) = Panic) \<and> 8 \<le> length d))"
proof (cases "get_account rpc a")
  case (Inr x)
  obtain owner d where x: "x = (owner, d)" by force
  show ?thesis
  proof (cases "owner = p \<and> 8 \<le> length d")
    case True
    then show ?thesis by (cases "decode (drop 8 d)") (auto simp: fetch_owned_def Inr x panic_steps simp del: prog_simps(1,2,3))
  qed (auto simp: fetch_owned_def Inr x panic_steps simp del: prog_simps(1,2,3))
qed (simp add: fetch_owned_def)

text \<open>
  When reading a pool panics: the Meteora reader on an account of its program shorter than the discriminator, the CPMM
  reader there and when a vault address cannot be derived, the AMM v4 reader never.
\<close>

theorem reader_panics:
  "(fst (damm_from_pool_address_by_rpc rpc a s) = Panic \<longleftrightarrow> (\<exists>d. get_account rpc a = Inr (METEORA_DAMM_V2, d) \<and> length d < 8))
   \<and> (fst (cpmm_from_pool_address_by_rpc ext rpc a s) = Panic \<longleftrightarrow>
        (\<exists>d. get_account rpc a = Inr (RAYDIUM_CPMM, d) \<and> (length d < 8 \<or> 8 \<le> length d \<and> (\<exists>v. cpmm_pool_state_decode (drop 8 d) = Some v
           \<and> (cpmm_get_vault_pda ext a (cs_token0_mint v) = None
             \<or> (\<exists>v0 b. cpmm_get_vault_pda ext a (cs_token0_mint v) = Some v0 \<and> token_balance rpc v0 = Inr b
                  \<and> cpmm_get_vault_pda ext a (cs_token1_mint v) = None))))))
   \<and> fst (from_amm_address_by_rpc rpc a s) \<noteq> Panic"
  (is "?A \<and> ?B \<and> ?C")
proof (intro conjI)
  show ?A unfolding damm_from_pool_address_by_rpc_def fetchers fetch_owned_panics by (auto simp: panic_steps simp del: prog_simps(1,2,3))
  show ?B unfolding cpmm_from_pool_address_by_rpc_def fetchers fetch_owned_panics get_pool_token_balances_def
    by (auto simp: panic_steps then_do_assoc simp del: prog_simps(1,2,3))
  show ?C unfolding from_amm_address_by_rpc_def fetch_amm_info_def get_multi_token_balances_def
    by (auto simp: panic_steps then_do_assoc simp del: prog_simps(1,2,3))
qed

text \<open>
  The AMM v4 reader takes the account of any program for a pool: whoever owns it, its first 752 bytes are read as one.
\<close>

theorem amm_info_owner_unchecked:
  "752 \<le> length b \<Longrightarrow> get_account_data rpc a = Inr b \<Longrightarrow> \<exists>v. fst (fetch_amm_info rpc a s) = Ok v"
  using decoders_total(3) [of b] by (auto simp: fetch_amm_info_def)

section \<open>The PumpFun curve\<close>

text \<open>
  PumpFun parameters read from the chain: the curve is the one its account encodes, under the address derived from the
  mint, with the vault derived from its creator and the token account of the curve under the mint's own token program.
\<close>

theorem pumpfun_params_from_chain:
  assumes "coherent ext r1 r2 s"
  shows "fst (pumpfun_from_mint_by_rpc ext rpc mint s) = Ok pp \<longleftrightarrow>
     (\<exists>address owner d v mint_program md vault. pda_spec ext (PumpFunBondingCurve mint) = Some address
        \<and> get_account rpc address = Inr (owner, d) \<and> 8 \<le> length d \<and> curve_decode (drop 8 d) = Some v
        \<and> get_account rpc mint = Inr (mint_program, md)
        \<and> pda_spec ext (PumpFunCreatorVault (bc_creator v)) = Some vault
        \<and> pp = \<lparr>pf_bonding_curve = v\<lparr>bc_account := address\<rparr>,
             pf_associated_bonding_curve = get_associated_token_address_with_program_id ext address mint mint_program,
             pf_creator_vault = vault, pf_token_program = mint_program, pf_close_token_account_when_sell = None,
             pf_fee_recipient = pubkey_default\<rparr>)"
proof -
  have zero: "v\<lparr>bc_discriminator := 0, bc_account := a\<rparr> = v\<lparr>bc_account := a\<rparr>" if "curve_decode b = Some v" for v a b
    using that by (simp add: curve_decode_iff ok_bonding_curve_def)
  show ?thesis
    unfolding pumpfun_from_mint_by_rpc_def fetch_bonding_curve_account_def get_bonding_curve_pda_def get_creator_vault_pda_def
      then_do_assoc cached_step(2) [OF assms]
    by (auto simp: ok_iff cached_step(2) [OF cached_step(1) [OF assms]] Let_def zero then_do_assoc simp del: prog_simps(1,2,3) pda_spec.simps split: if_splits)
      (metis length_0_conv not_less not_numeral_le_zero zero)
qed

end
