(* ===== verification/HttpClients.thy ===== *)
theory HttpClients
  imports Executor Serializer
begin

text \<open>
  The submission channels that speak HTTP and gRPC (\<open>swqos/*.rs\<close>): the request each one builds from a transaction, what it
  makes of the answer, and the wait for a confirmation. The network, the JSON parser and printer and the encodings are
  parameters; the state is the process-wide pool of buffers and the requests sent so far.
\<close>

section \<open>Requests and answers\<close>

datatype json = JsonNull | JsonBool bool | JsonInt int | JsonString string | JsonArray "json list" | JsonObject "(string \<times> json) list"

definition json_get :: "string \<Rightarrow> json \<Rightarrow> json option" where
  "json_get key j = (case j of JsonObject members \<Rightarrow> map_of members key | _ \<Rightarrow> None)"

definition json_str :: "json option \<Rightarrow> string \<Rightarrow> string" where
  "json_str j d = (case j of Some (JsonString s) \<Rightarrow> s | _ \<Rightarrow> d)"

datatype http_method = Get | Post
datatype http_body = TextBody string | BytesBody "u8 list" | NoBody

record http_request =
  rq_method :: http_method
  rq_url :: string
  rq_query :: "(string \<times> string) list"
  rq_headers :: "(string \<times> string) list"
  rq_body :: http_body

text \<open>No answer, or a status with the text of the body, whose reading may fail too.\<close>

datatype http_answer = NoAnswer string | Answer nat "string + string"

definition is_success :: "nat \<Rightarrow> bool" where
  "is_success status \<longleftrightarrow> 200 \<le> status \<and> status < 300"

record 't send_env =
  env_codec :: "'t codec"
  env_http :: "http_request list \<Rightarrow> http_request \<Rightarrow> http_answer"
  env_json :: "string \<Rightarrow> json option"
  env_print :: "json \<Rightarrow> string"
  env_confirm :: "nat \<Rightarrow> bool \<Rightarrow> (any_error + nat) option"

record wire =
  w_pool :: buffer_pool
  w_requests :: "http_request list"

datatype 'a reply = Delivered 'a | Undelivered any_error | Panicked | Hangs

type_synonym 'a act = "wire \<Rightarrow> 'a reply \<times> wire"

definition act_ret :: "'a \<Rightarrow> 'a act" where
  "act_ret a w = (Delivered a, w)"

definition act_fail :: "string \<Rightarrow> 'a act" where
  "act_fail e w = (Undelivered (OtherError e), w)"

definition act_then :: "'a act \<Rightarrow> ('a \<Rightarrow> 'b act) \<Rightarrow> 'b act" where
  "act_then m f w =
     (case m w of
        (Delivered a, w') \<Rightarrow> f a w'
      | (Undelivered e, w') \<Rightarrow> (Undelivered e, w')
      | (Panicked, w') \<Rightarrow> (Panicked, w')
      | (Hangs, w') \<Rightarrow> (Hangs, w'))"

definition act_of_result :: "string + 'a \<Rightarrow> 'a act" where
  "act_of_result r = (case r of Inl e \<Rightarrow> act_fail e | Inr a \<Rightarrow> act_ret a)"

section \<open>Shared steps\<close>

definition serialize_transaction_and_encode :: "'t send_env \<Rightarrow> 't \<Rightarrow> ui_encoding \<Rightarrow> (string \<times> nat) act" where
  "serialize_transaction_and_encode env tx encoding w =
     (case serialize_transaction_sync (env_codec env) tx encoding (w_pool w) of
        (Inl e, pool) \<Rightarrow> (Undelivered (OtherError e), w\<lparr>w_pool := pool\<rparr>)
      | (Inr r, pool) \<Rightarrow> (Delivered r, w\<lparr>w_pool := pool\<rparr>))"

definition bincode_serialize :: "'t send_env \<Rightarrow> 't \<Rightarrow> u8 list act" where
  "bincode_serialize env tx = act_of_result (bincode (env_codec env) tx)"

text \<open>\<open>send().await?\<close>: the request is on the wire whether or not it is answered.\<close>

definition http_send :: "'t send_env \<Rightarrow> http_request \<Rightarrow> (nat \<times> (string + string)) act" where
  "http_send env rq w =
     (let w' = w\<lparr>w_requests := w_requests w @ [rq]\<rparr>
      in case env_http env (w_requests w) rq of
           NoAnswer e \<Rightarrow> (Undelivered (OtherError e), w')
         | Answer status body \<Rightarrow> (Delivered (status, body), w'))"

definition poll_step :: "'t send_env \<Rightarrow> nat \<Rightarrow> bool \<Rightarrow> unit act" where
  "poll_step env sig wait_confirmation w =
     (case env_confirm env sig wait_confirmation of
        None \<Rightarrow> (Hangs, w)
      | Some (Inl e) \<Rightarrow> (Undelivered e, w)
      | Some (Inr _) \<Rightarrow> (Delivered (), w))"

text \<open>One transaction after the other, up to the first that fails.\<close>

fun send_each :: "('t \<Rightarrow> unit act) \<Rightarrow> 't list \<Rightarrow> unit act" where
  "send_each send [] = act_ret ()"
| "send_each send (tx # txs) = act_then (send tx) (\<lambda>_. send_each send txs)"

section \<open>Requests of the channels\<close>

record http_client =
  hc_endpoint :: string
  hc_auth_token :: string
  hc_mev :: bool

definition json_content :: "string \<times> string" where "json_content = (''Content-Type'', ''application/json'')"

definition rpc_body :: "json \<Rightarrow> json list \<Rightarrow> json" where
  "rpc_body req_id params = JsonObject [(''jsonrpc'', JsonString ''2.0''), (''id'', req_id), (''method'', JsonString ''sendTransaction''),
     (''params'', JsonArray params)]"

definition post_json :: "'t send_env \<Rightarrow> string \<Rightarrow> (string \<times> string) list \<Rightarrow> json \<Rightarrow> http_request" where
  "post_json env url headers body =
     \<lparr>rq_method = Post, rq_url = url, rq_query = [], rq_headers = headers, rq_body = TextBody (env_print env body)\<rparr>"

definition jito_auth :: "http_client \<Rightarrow> (string \<times> string) list" where
  "jito_auth c = (if hc_auth_token c = [] then [] else [(''x-jito-auth'', hc_auth_token c)])"

definition jito_url :: "http_client \<Rightarrow> string \<Rightarrow> string" where
  "jito_url c path = (if hc_auth_token c = [] then hc_endpoint c @ path else hc_endpoint c @ path @ ''?uuid='' @ hc_auth_token c)"

definition jito_request :: "'t send_env \<Rightarrow> http_client \<Rightarrow> string \<Rightarrow> http_request" where
  "jito_request env c content =
     post_json env (jito_url c ''/api/v1/transactions'') (jito_auth c @ [json_content])
       (rpc_body (JsonInt 1) [JsonString content, JsonObject [(''encoding'', JsonString ''base64'')]])"

definition bloxroute_request :: "'t send_env \<Rightarrow> http_client \<Rightarrow> string \<Rightarrow> http_request" where
  "bloxroute_request env c content =
     \<lparr>rq_method = Post, rq_url = hc_endpoint c @ ''/api/v2/submit'', rq_query = [],
      rq_headers = [json_content, (''Authorization'', hc_auth_token c)],
      rq_body = TextBody (''{\"transaction\":{\"content\":\"'' @ content @ ''\"},\"frontRunningProtection\":false,\"useStakedRPCs\":true}'')\<rparr>"

definition flashblock_request :: "'t send_env \<Rightarrow> http_client \<Rightarrow> string \<Rightarrow> http_request" where
  "flashblock_request env c content =
     post_json env (hc_endpoint c @ ''/api/v2/submit-batch'')
       [(''Authorization'', hc_auth_token c), json_content, (''Connection'', ''keep-alive''), (''Keep-Alive'', ''timeout=30, max=1000'')]
       (JsonObject [(''transactions'', JsonArray [JsonString content])])"

definition helius_request :: "'t send_env \<Rightarrow> http_client \<Rightarrow> string \<Rightarrow> http_request" where
  "helius_request env c content =
     post_json env (hc_endpoint c) [json_content]
       (rpc_body (JsonString ''1'') [JsonString content, JsonObject [(''encoding'', JsonString ''base64''), (''skipPreflight'', JsonBool True),
          (''maxRetries'', JsonInt 0)]])"

definition lightspeed_request :: "'t send_env \<Rightarrow> http_client \<Rightarrow> string \<Rightarrow> http_request" where
  "lightspeed_request env c content =
     post_json env (hc_endpoint c) [json_content]
       (rpc_body (JsonInt 1) [JsonString content, JsonObject [(''encoding'', JsonString ''base64''), (''skipPreflight'', JsonBool True),
          (''preflightCommitment'', JsonString ''processed''), (''maxRetries'', JsonInt 0)]])"

fun trim_end_slashes :: "string \<Rightarrow> string" where
  "trim_end_slashes s = rev (dropWhile (\<lambda>ch. ch = CHR ''/'') (rev s))"

definition ends_with :: "string \<Rightarrow> string \<Rightarrow> bool" where
  "ends_with s suf \<longleftrightarrow> length suf \<le> length s \<and> drop (length s - length suf) s = suf"

definition nextblock_new :: "string \<Rightarrow> string \<Rightarrow> http_client" where
  "nextblock_new endpoint auth_token =
     \<lparr>hc_endpoint = (if ends_with endpoint ''/api/v2/submit'' then endpoint else trim_end_slashes endpoint @ ''/api/v2/submit''),
      hc_auth_token = auth_token, hc_mev = False\<rparr>"

definition nextblock_request :: "'t send_env \<Rightarrow> http_client \<Rightarrow> string \<Rightarrow> http_request" where
  "nextblock_request env c content =
     post_json env (hc_endpoint c) [(''Authorization'', hc_auth_token c), json_content]
       (JsonObject [(''transaction'', JsonObject [(''content'', JsonString content)]), (''frontRunningProtection'', JsonBool False)])"

definition node1_request :: "'t send_env \<Rightarrow> http_client \<Rightarrow> string \<Rightarrow> http_request" where
  "node1_request env c content =
     post_json env (hc_endpoint c) [json_content, (''api-key'', hc_auth_token c)]
       (rpc_body (JsonInt 1) [JsonString content, JsonObject [(''encoding'', JsonString ''base64''), (''skipPreflight'', JsonBool True)]])"

definition temporal_request :: "'t send_env \<Rightarrow> http_client \<Rightarrow> string \<Rightarrow> http_request" where
  "temporal_request env c content =
     post_json env (hc_endpoint c @ ''/?c='' @ hc_auth_token c) [json_content]
       (rpc_body (JsonInt 1) [JsonString content, JsonObject [(''encoding'', JsonString ''base64'')]])"

definition stellium_request :: "'t send_env \<Rightarrow> http_client \<Rightarrow> string \<Rightarrow> http_request" where
  "stellium_request env c content =
     post_json env (hc_endpoint c @ ''/'' @ hc_auth_token c)
       [json_content, (''Connection'', ''keep-alive''), (''Keep-Alive'', ''timeout=30, max=1000'')]
       (rpc_body (JsonInt 1) [JsonString content, JsonObject [(''encoding'', JsonString ''base64'')]])"

definition zeroslot_request :: "http_client \<Rightarrow> u8 list \<Rightarrow> http_request" where
  "zeroslot_request c tx_bytes =
     \<lparr>rq_method = Post, rq_url = hc_endpoint c @ ''/txb?api-key='' @ hc_auth_token c, rq_query = [],
      rq_headers = [(''User-Agent'', [])], rq_body = BytesBody tx_bytes\<rparr>"

definition astralane_request :: "http_client \<Rightarrow> u8 list \<Rightarrow> http_request" where
  "astralane_request c body_bytes =
     \<lparr>rq_method = Post, rq_url = hc_endpoint c,
      rq_query = [(''api-key'', hc_auth_token c), (''method'', ''sendTransaction'')] @ (if hc_mev c then [(''mev-protect'', ''true'')] else []),
      rq_headers = [(''Content-Type'', ''application/octet-stream'')], rq_body = BytesBody body_bytes\<rparr>"

definition blockrazor_mode :: "http_client \<Rightarrow> string" where
  "blockrazor_mode c = (if hc_mev c then ''sandwichMitigation'' else ''fast'')"

definition blockrazor_request :: "http_client \<Rightarrow> string \<Rightarrow> http_request" where
  "blockrazor_request c content =
     \<lparr>rq_method = Post, rq_url = hc_endpoint c, rq_query = [(''auth'', hc_auth_token c), (''mode'', blockrazor_mode c)],
      rq_headers = [(''Content-Type'', ''text/plain'')], rq_body = TextBody content\<rparr>"

section \<open>Sending\<close>

text \<open>
  Eight channels read the body of the answer, log what it says, and go on to the confirmation in any case: neither the
  status nor an error in the body is looked at.
\<close>

definition send_and_log :: "('t send_env \<Rightarrow> http_client \<Rightarrow> string \<Rightarrow> http_request) \<Rightarrow> 't send_env \<Rightarrow> http_client \<Rightarrow> 't \<Rightarrow> bool \<Rightarrow> unit act" where
  "send_and_log request env c tx wait_confirmation =
     act_then (serialize_transaction_and_encode env tx Base64) (\<lambda>(content, signature).
     act_then (http_send env (request env c content)) (\<lambda>(status, body).
     act_then (act_of_result body) (\<lambda>response_text.
     poll_step env signature wait_confirmation)))"

definition jito_send_transaction :: "'t send_env \<Rightarrow> http_client \<Rightarrow> 't \<Rightarrow> bool \<Rightarrow> unit act" where
  "jito_send_transaction = send_and_log jito_request"

definition bloxroute_send_transaction :: "'t send_env \<Rightarrow> http_client \<Rightarrow> 't \<Rightarrow> bool \<Rightarrow> unit act" where
  "bloxroute_send_transaction = send_and_log bloxroute_request"

definition flashblock_send_transaction :: "'t send_env \<Rightarrow> http_client \<Rightarrow> 't \<Rightarrow> bool \<Rightarrow> unit act" where
  "flashblock_send_transaction = send_and_log flashblock_request"

definition lightspeed_send_transaction :: "'t send_env \<Rightarrow> http_client \<Rightarrow> 't \<Rightarrow> bool \<Rightarrow> unit act" where
  "lightspeed_send_transaction = send_and_log lightspeed_request"

definition nextblock_send_transaction :: "'t send_env \<Rightarrow> http_client \<Rightarrow> 't \<Rightarrow> bool \<Rightarrow> unit act" where
  "nextblock_send_transaction = send_and_log nextblock_request"

definition node1_send_transaction :: "'t send_env \<Rightarrow> http_client \<Rightarrow> 't \<Rightarrow> bool \<Rightarrow> unit act" where
  "node1_send_transaction = send_and_log node1_request"

definition temporal_send_transaction :: "'t send_env \<Rightarrow> http_client \<Rightarrow> 't \<Rightarrow> bool \<Rightarrow> unit act" where
  "temporal_send_transaction = send_and_log temporal_request"

definition stellium_send_transaction :: "'t send_env \<Rightarrow> http_client \<Rightarrow> 't \<Rightarrow> bool \<Rightarrow> unit act" where
  "stellium_send_transaction = send_and_log stellium_request"

definition helius_check :: "'t send_env \<Rightarrow> nat \<Rightarrow> string \<Rightarrow> unit act" where
  "helius_check env status response_text =
     (if \<not> is_success status then act_fail (''Helius Sender failed: '' @ response_text)
      else case env_json env response_text of
             None \<Rightarrow> act_ret ()
           | Some j \<Rightarrow> (case json_get ''error'' j of
               None \<Rightarrow> act_ret ()
             | Some e \<Rightarrow> act_fail (''Helius Sender error: '' @ json_str (json_get ''message'' e) ''unknown'')))"

definition helius_send_transaction :: "'t send_env \<Rightarrow> http_client \<Rightarrow> 't \<Rightarrow> bool \<Rightarrow> unit act" where
  "helius_send_transaction env c tx wait_confirmation =
     act_then (serialize_transaction_and_encode env tx Base64) (\<lambda>(content, signature).
     act_then (http_send env (helius_request env c content)) (\<lambda>(status, body).
     act_then (act_of_result body) (\<lambda>response_text.
     act_then (helius_check env status response_text) (\<lambda>_.
     poll_step env signature wait_confirmation))))"

definition zeroslot_check :: "'t send_env \<Rightarrow> nat \<Rightarrow> string \<Rightarrow> unit act" where
  "zeroslot_check env status response_text =
     (if status = 200 then
        (case env_json env response_text of
           None \<Rightarrow> act_fail (''0slot Binary-Tx invalid JSON: '' @ response_text)
         | Some j \<Rightarrow>
             if json_get ''result'' j \<noteq> None then act_ret ()
             else (case json_get ''error'' j of
                 Some e \<Rightarrow> act_fail (''0slot Binary-Tx error: '' @ json_str (json_get ''message'' e) ''unknown error'')
               | None \<Rightarrow> act_fail (''0slot Binary-Tx unexpected JSON: '' @ response_text)))
      else if status = 403 then act_fail (''0slot API key error: '' @ response_text)
      else if status = 419 then act_fail ''0slot rate limit exceeded''
      else if status = 500 then act_fail ''0slot transaction submission failed''
      else act_fail (''0slot Binary-Tx failed with status: '' @ response_text))"

definition zeroslot_send_transaction :: "'t send_env \<Rightarrow> http_client \<Rightarrow> 't \<Rightarrow> bool \<Rightarrow> unit act" where
  "zeroslot_send_transaction env c tx wait_confirmation =
     act_then (bincode_serialize env tx) (\<lambda>tx_bytes.
     act_then (http_send env (zeroslot_request c tx_bytes)) (\<lambda>(status, body).
     act_then (act_of_result body) (\<lambda>response_text.
     act_then (zeroslot_check env status response_text) (\<lambda>_.
     poll_step env (tx_signature (env_codec env) tx) wait_confirmation))))"

definition astralane_http_send_transaction :: "'t send_env \<Rightarrow> http_client \<Rightarrow> 't \<Rightarrow> bool \<Rightarrow> unit act" where
  "astralane_http_send_transaction env c tx wait_confirmation =
     act_then (bincode_serialize env tx) (\<lambda>body_bytes.
     act_then (http_send env (astralane_request c body_bytes)) (\<lambda>(status, body).
     if is_success status then poll_step env (tx_signature (env_codec env) tx) wait_confirmation
     else act_fail ''Astralane sendTransaction failed''))"

definition blockrazor_http_send_transaction :: "'t send_env \<Rightarrow> http_client \<Rightarrow> 't \<Rightarrow> bool \<Rightarrow> unit act" where
  "blockrazor_http_send_transaction env c tx wait_confirmation =
     act_then (serialize_transaction_and_encode env tx Base64) (\<lambda>(content, _).
     act_then (http_send env (blockrazor_request c content)) (\<lambda>(status, body).
     if is_success status then poll_step env (tx_signature (env_codec env) tx) wait_confirmation
     else act_fail ''BlockRazor HTTP sendTransaction failed''))"

text \<open>The gRPC transport of BlockRazor: an API key that is no header value, a failed call and an empty signature are errors.\<close>

record grpc_request =
  gr_transaction :: string
  gr_mode :: string
  gr_safe_window :: "int option"
  gr_revert_protection :: bool
  gr_apikey :: string

definition grpc_send_transaction ::
  "(string \<Rightarrow> bool) \<Rightarrow> (grpc_request \<Rightarrow> string + string) \<Rightarrow> http_client \<Rightarrow> string \<Rightarrow> string \<Rightarrow> string act" where
  "grpc_send_transaction header_ok call c transaction mode =
     (if \<not> header_ok (hc_auth_token c) then act_fail ''Invalid API key format''
      else act_of_result (call \<lparr>gr_transaction = transaction, gr_mode = mode, gr_safe_window = None, gr_revert_protection = False,
             gr_apikey = hc_auth_token c\<rparr>))"

definition blockrazor_grpc_send_transaction ::
  "(string \<Rightarrow> bool) \<Rightarrow> (grpc_request \<Rightarrow> string + string) \<Rightarrow> 't send_env \<Rightarrow> http_client \<Rightarrow> 't \<Rightarrow> bool \<Rightarrow> unit act" where
  "blockrazor_grpc_send_transaction header_ok call env c tx wait_confirmation =
     act_then (serialize_transaction_and_encode env tx Base64) (\<lambda>(content, _).
     act_then (grpc_send_transaction header_ok call c content (blockrazor_mode c)) (\<lambda>sig.
     if sig = [] then act_fail ''BlockRazor gRPC returned empty signature''
     else poll_step env (tx_signature (env_codec env) tx) wait_confirmation))"

text \<open>The plain RPC channel polls for the signature the node answers with.\<close>

definition rpc_send_transaction :: "('t \<Rightarrow> string + nat) \<Rightarrow> 't send_env \<Rightarrow> 't \<Rightarrow> bool \<Rightarrow> unit act" where
  "rpc_send_transaction node env tx wait_confirmation =
     act_then (act_of_result (node tx)) (\<lambda>signature. poll_step env signature wait_confirmation)"

section \<open>Bundles\<close>

text \<open>Jito takes a bundle in one request and unwraps the serialisation; Bloxroute takes a batch in one request.\<close>

fun to_base64_strings :: "'t codec \<Rightarrow> 't list \<Rightarrow> string list option" where
  "to_base64_strings cd [] = Some []"
| "to_base64_strings cd (tx # txs) =
     (case bincode cd tx of
        Inl e \<Rightarrow> None
      | Inr bytes \<Rightarrow> map_option (Cons (base64_standard cd bytes)) (to_base64_strings cd txs))"

definition jito_bundle_request :: "'t send_env \<Rightarrow> http_client \<Rightarrow> string list \<Rightarrow> http_request" where
  "jito_bundle_request env c txs_base64 =
     post_json env (jito_url c ''/api/v1/bundles'') (jito_auth c @ [json_content])
       (JsonObject [(''jsonrpc'', JsonString ''2.0''), (''method'', JsonString ''sendBundle''),
          (''params'', JsonArray [JsonArray (map JsonString txs_base64), JsonObject [(''encoding'', JsonString ''base64'')]]), (''id'', JsonInt 1)])"

definition jito_send_transactions :: "'t send_env \<Rightarrow> http_client \<Rightarrow> 't list \<Rightarrow> bool \<Rightarrow> unit act" where
  "jito_send_transactions env c txs wait_confirmation =
     (case to_base64_strings (env_codec env) txs of
        None \<Rightarrow> (\<lambda>w. (Panicked, w))
      | Some txs_base64 \<Rightarrow>
          act_then (http_send env (jito_bundle_request env c txs_base64)) (\<lambda>(status, body).
          act_then (act_of_result body) (\<lambda>_. act_ret ())))"

fun join_commas :: "string list \<Rightarrow> string" where
  "join_commas [] = []"
| "join_commas [s] = s"
| "join_commas (s # ss) = s @ '','' @ join_commas ss"

definition bloxroute_batch_request :: "http_client \<Rightarrow> string list \<Rightarrow> http_request" where
  "bloxroute_batch_request c contents =
     \<lparr>rq_method = Post, rq_url = hc_endpoint c @ ''/api/v2/submit-batch'', rq_query = [],
      rq_headers = [json_content, (''Authorization'', hc_auth_token c)],
      rq_body = TextBody (''{\"entries\":['' @ join_commas (map (\<lambda>ct. ''{\"transaction\":{\"content\":\"'' @ ct @ ''\"}}'') contents) @ '']}'')\<rparr>"

definition bloxroute_send_transactions :: "'t send_env \<Rightarrow> http_client \<Rightarrow> 't list \<Rightarrow> bool \<Rightarrow> unit act" where
  "bloxroute_send_transactions env c txs wait_confirmation w =
     (case serialize_transactions_batch_sync (env_codec env) txs Base64 (w_pool w) of
        (Inl e, pool) \<Rightarrow> (Undelivered (OtherError e), w\<lparr>w_pool := pool\<rparr>)
      | (Inr contents, pool) \<Rightarrow>
          act_then (http_send env (bloxroute_batch_request c contents)) (\<lambda>(status, body).
          act_then (act_of_result body) (\<lambda>_. act_ret ())) (w\<lparr>w_pool := pool\<rparr>))"

section \<open>The channels behind one interface\<close>

datatype http_channel = ViaJito | ViaBloxroute | ViaFlashBlock | ViaLightspeed | ViaNextBlock | ViaNode1 | ViaTemporal | ViaStellium
  | ViaHelius | ViaZeroSlot | ViaAstralane | ViaBlockRazor

fun channel_send :: "http_channel \<Rightarrow> 't send_env \<Rightarrow> http_client \<Rightarrow> 't \<Rightarrow> bool \<Rightarrow> unit act" where
  "channel_send ViaJito = jito_send_transaction"
| "channel_send ViaBloxroute = bloxroute_send_transaction"
| "channel_send ViaFlashBlock = flashblock_send_transaction"
| "channel_send ViaLightspeed = lightspeed_send_transaction"
| "channel_send ViaNextBlock = nextblock_send_transaction"
| "channel_send ViaNode1 = node1_send_transaction"
| "channel_send ViaTemporal = temporal_send_transaction"
| "channel_send ViaStellium = stellium_send_transaction"
| "channel_send ViaHelius = helius_send_transaction"
| "channel_send ViaZeroSlot = zeroslot_send_transaction"
| "channel_send ViaAstralane = astralane_http_send_transaction"
| "channel_send ViaBlockRazor = blockrazor_http_send_transaction"

definition channel_send_transactions :: "http_channel \<Rightarrow> 't send_env \<Rightarrow> http_client \<Rightarrow> 't list \<Rightarrow> bool \<Rightarrow> unit act" where
  "channel_send_transactions ch env c txs wait_confirmation =
     (case ch of
        ViaJito \<Rightarrow> jito_send_transactions env c txs wait_confirmation
      | ViaBloxroute \<Rightarrow> bloxroute_send_transactions env c txs wait_confirmation
      | _ \<Rightarrow> send_each (\<lambda>tx. channel_send ch env c tx wait_confirmation) txs)"

text \<open>What a channel puts on the wire for the bytes of a transaction, and which answers it takes for a success.\<close>

fun request_of :: "http_channel \<Rightarrow> 't send_env \<Rightarrow> http_client \<Rightarrow> u8 list \<Rightarrow> http_request" where
  "request_of ViaJito env c b = jito_request env c (base64_standard (env_codec env) b)"
| "request_of ViaBloxroute env c b = bloxroute_request env c (base64_standard (env_codec env) b)"
| "request_of ViaFlashBlock env c b = flashblock_request env c (base64_standard (env_codec env) b)"
| "request_of ViaLightspeed env c b = lightspeed_request env c (base64_standard (env_codec env) b)"
| "request_of ViaNextBlock env c b = nextblock_request env c (base64_standard (env_codec env) b)"
| "request_of ViaNode1 env c b = node1_request env c (base64_standard (env_codec env) b)"
| "request_of ViaTemporal env c b = temporal_request env c (base64_standard (env_codec env) b)"
| "request_of ViaStellium env c b = stellium_request env c (base64_standard (env_codec env) b)"
| "request_of ViaHelius env c b = helius_request env c (base64_standard (env_codec env) b)"
| "request_of ViaZeroSlot env c b = zeroslot_request c b"
| "request_of ViaAstralane env c b = astralane_request c b"
| "request_of ViaBlockRazor env c b = blockrazor_request c (base64_standard (env_codec env) b)"

definition has_key :: "'t send_env \<Rightarrow> string \<Rightarrow> string \<Rightarrow> bool" where
  "has_key env key text \<longleftrightarrow> (\<exists>j. env_json env text = Some j \<and> json_get key j \<noteq> None)"

fun takes_for_success :: "http_channel \<Rightarrow> 't send_env \<Rightarrow> nat \<Rightarrow> string + string \<Rightarrow> bool" where
  "takes_for_success ViaHelius env status body \<longleftrightarrow> (\<exists>text. body = Inr text \<and> is_success status \<and> \<not> has_key env ''error'' text)"
| "takes_for_success ViaZeroSlot env status body \<longleftrightarrow> (\<exists>text. body = Inr text \<and> status = 200 \<and> has_key env ''result'' text)"
| "takes_for_success ViaAstralane env status body \<longleftrightarrow> is_success status"
| "takes_for_success ViaBlockRazor env status body \<longleftrightarrow> is_success status"
| "takes_for_success ch env status body \<longleftrightarrow> (\<exists>text. body = Inr text)"

section \<open>Outcomes\<close>

lemma act_simps [simp]:
  "act_then (act_ret a) f = f a" "act_then (act_fail e) f = act_fail e"
  "act_of_result (Inl e) = act_fail e" "act_of_result (Inr a) = act_ret a"
  by (simp_all add: fun_eq_iff act_then_def act_ret_def act_fail_def act_of_result_def)

lemma act_then_run:
  "m w = (Delivered a, w') \<Longrightarrow> act_then m f w = f a w'" "m w = (Undelivered e, w') \<Longrightarrow> act_then m f w = (Undelivered e, w')"
  by (simp_all add: act_then_def)

lemma encode_run:
  "bincode (env_codec env) tx = Inr b \<Longrightarrow> \<exists>pool. serialize_transaction_and_encode env tx Base64 w =
     (Delivered (base64_standard (env_codec env) b, tx_signature (env_codec env) tx), w\<lparr>w_pool := pool\<rparr>)"
  "bincode (env_codec env) tx = Inl e \<Longrightarrow> \<exists>pool. serialize_transaction_and_encode env tx Base64 w =
     (Undelivered (OtherError e), w\<lparr>w_pool := pool\<rparr>)"
  by (auto simp: serialize_transaction_and_encode_def serialize_transaction_sync_def serialize_zero_alloc_def encode_bytes_def
      encode_base64_simd_def split_beta Let_def)

lemma http_run:
  "env_http env (w_requests w) rq = Answer status body \<Longrightarrow>
     act_then (http_send env rq) f w = f (status, body) (w\<lparr>w_requests := w_requests w @ [rq]\<rparr>)"
  "env_http env (w_requests w) rq = NoAnswer e \<Longrightarrow>
     act_then (http_send env rq) f w = (Undelivered (OtherError e), w\<lparr>w_requests := w_requests w @ [rq]\<rparr>)"
  by (simp_all add: act_then_def http_send_def Let_def)

lemmas channel_defs = jito_send_transaction_def bloxroute_send_transaction_def flashblock_send_transaction_def
  lightspeed_send_transaction_def nextblock_send_transaction_def node1_send_transaction_def temporal_send_transaction_def
  stellium_send_transaction_def send_and_log_def helius_send_transaction_def zeroslot_send_transaction_def
  astralane_http_send_transaction_def blockrazor_http_send_transaction_def bincode_serialize_def

text \<open>A transaction that cannot be serialised: nothing is sent.\<close>

lemma channel_send_unserialised:
  assumes "bincode (env_codec env) tx = Inl e"
  shows "fst (channel_send ch env c tx wait w) = Undelivered (OtherError e) \<and> w_requests (snd (channel_send ch env c tx wait w)) = w_requests w"
proof -
  obtain pool where p: "serialize_transaction_and_encode env tx Base64 w = (Undelivered (OtherError e), w\<lparr>w_pool := pool\<rparr>)"
    using encode_run(2) [OF assms] by blast
  show ?thesis by (cases ch) (simp_all add: channel_defs act_then_run(2) [where m = "serialize_transaction_and_encode env tx Base64", OF p] assms act_fail_def)
qed

text \<open>Otherwise exactly one request is sent, and an answer the channel takes for a success leads to the confirmation.\<close>

lemma channel_send_answered:
  assumes "bincode (env_codec env) tx = Inr b"
  shows "w_requests (snd (channel_send ch env c tx wait w)) = w_requests w @ [request_of ch env c b]"
    and "env_http env (w_requests w) (request_of ch env c b) = Answer status body \<Longrightarrow>
      (if takes_for_success ch env status body
       then \<exists>w'. channel_send ch env c tx wait w = poll_step env (tx_signature (env_codec env) tx) wait w'
       else \<exists>e. fst (channel_send ch env c tx wait w) = Undelivered e)"
    and "env_http env (w_requests w) (request_of ch env c b) = NoAnswer e \<Longrightarrow>
      fst (channel_send ch env c tx wait w) = Undelivered (OtherError e)"
proof -
  obtain pool where p: "serialize_transaction_and_encode env tx Base64 w =
      (Delivered (base64_standard (env_codec env) b, tx_signature (env_codec env) tx), w\<lparr>w_pool := pool\<rparr>)"
    using encode_run(1) [OF assms] by blast
  note run = channel_defs act_then_run(1) [where m = "serialize_transaction_and_encode env tx Base64", OF p] assms http_run act_ret_def
  have poll: "w_requests (snd (poll_step env sig wait v)) = w_requests v" for sig v
    by (simp add: poll_step_def split: option.split sum.split)
  show "w_requests (snd (channel_send ch env c tx wait w)) = w_requests w @ [request_of ch env c b]"
  proof (cases "env_http env (w_requests w) (request_of ch env c b)")
    case (Answer st bd)
    then show ?thesis
      by (cases ch; cases bd)
        (auto simp: run poll act_fail_def helius_check_def zeroslot_check_def split: option.split)
  next
    case (NoAnswer e)
    then show ?thesis by (cases ch) (simp_all add: run)
  qed
  show "if takes_for_success ch env status body
       then \<exists>w'. channel_send ch env c tx wait w = poll_step env (tx_signature (env_codec env) tx) wait w'
       else \<exists>e. fst (channel_send ch env c tx wait w) = Undelivered e"
    if "env_http env (w_requests w) (request_of ch env c b) = Answer status body"
    using that
    by (cases ch; cases body)
      (auto simp: run has_key_def act_fail_def helius_check_def zeroslot_check_def split: option.split)
  show "fst (channel_send ch env c tx wait w) = Undelivered (OtherError e)"
    if "env_http env (w_requests w) (request_of ch env c b) = NoAnswer e"
    using that by (cases ch) (simp_all add: run)
qed

section \<open>The confirmation\<close>

text \<open>What the channels rely on of the poll for a confirmation: without waiting it returns at once.\<close>

locale confirmation =
  fixes confirm :: "nat \<Rightarrow> bool \<Rightarrow> (any_error + nat) option"
  assumes at_once: "confirm sig False = Some (Inr sig)"
begin

lemma poll_delivers:
  "env_confirm env = confirm \<Longrightarrow>
     fst (poll_step env sig wait w) = Delivered () \<longleftrightarrow> (wait \<longrightarrow> (\<exists>sig'. confirm sig True = Some (Inr sig')))"
  by (cases wait) (auto simp: poll_step_def at_once split: option.splits sum.splits)

lemma poll_delivers_at_once: "env_confirm env = confirm \<Longrightarrow> poll_step env sig False w = (Delivered (), w)"
  by (simp add: poll_step_def at_once)

end

interpretation polled: confirmation "poll_transaction_confirmation n" for n
  by unfold_locales (simp add: poll_transaction_confirmation_def poll_any_transaction_confirmation_def)

lemma channel_send_accepted:
  assumes "env_confirm env = poll_transaction_confirmation n" "bincode (env_codec env) tx = Inr b"
    and "env_http env (w_requests w) (request_of ch env c b) = Answer status body" "takes_for_success ch env status body"
  shows "fst (channel_send ch env c tx False w) = Delivered ()"
  using channel_send_answered(2) [OF assms(2,3), where wait = False] assms(4) polled.poll_delivers_at_once [OF assms(1)] by auto

lemma send_each_delivers:
  "(\<And>tx w. tx \<in> set txs \<Longrightarrow> fst (f tx w) = Delivered ()) \<Longrightarrow> fst (send_each f txs w) = Delivered ()"
  by (induction txs arbitrary: w) (auto simp: act_then_def act_ret_def split: prod.split reply.split dest: arg_cong [where f = fst])


definition plain_json :: "string \<Rightarrow> json option" where
  "plain_json s = (if s = ''refused'' then Some (JsonObject [(''error'', JsonString ''no'')]) else Some (JsonObject [(''result'', JsonString ''ok'')]))"

definition answering :: "nat \<Rightarrow> string \<Rightarrow> u8 send_env" where
  "answering status text = \<lparr>env_codec = sample_codec, env_http = (\<lambda>_ _. Answer status (Inr text)), env_json = plain_json,
     env_print = (\<lambda>_. []), env_confirm = poll_transaction_confirmation sample_net\<rparr>"

definition sample_channel :: http_client where
  "sample_channel = \<lparr>hc_endpoint = ''https://node'', hc_auth_token = ''key'', hc_mev = False\<rparr>"

definition idle_wire :: wire where
  "idle_wire = \<lparr>w_pool = SERIALIZER, w_requests = []\<rparr>"


text \<open>
  Eight channels report a refused transaction as sent: whatever the status and whatever the body of the answer, also an
  error the provider states in so many words, the transaction counts as delivered when no confirmation is waited for.
\<close>

theorem refusals_hidden:
  assumes "ch \<in> {ViaJito, ViaBloxroute, ViaFlashBlock, ViaLightspeed, ViaNextBlock, ViaNode1, ViaTemporal, ViaStellium}"
    and "env_confirm env = poll_transaction_confirmation n" and "bincode (env_codec env) tx = Inr b"
    and "env_http env (w_requests w) (request_of ch env c b) = Answer status (Inr said)"
  shows "fst (channel_send ch env c tx False w) = Delivered ()"
  using assms(1) channel_send_accepted [OF assms(2-4)] by auto

theorem refusals_hidden_witness:
  "fst (channel_send ViaJito (answering 401 ''refused'') sample_channel 3 False idle_wire) = Delivered ()"
  by (rule refusals_hidden [where status = 401 and said = "''refused''" and n = sample_net and b = "[3, 1]"])
    (simp_all add: answering_def sample_codec_def)

text \<open>
  A batch that a channel reports as sent went out transaction by transaction, one request each, in order; Jito and Bloxroute
  send one request for the whole batch.
\<close>

theorem batch_sends_each_once:
  assumes "ch \<notin> {ViaJito, ViaBloxroute}" and "fst (channel_send_transactions ch env c txs wait w) = Delivered ()"
  shows "\<exists>bs. map (bincode (env_codec env)) txs = map Inr bs
     \<and> w_requests (snd (channel_send_transactions ch env c txs wait w)) = w_requests w @ map (request_of ch env c) bs"
proof -
  have each: "channel_send_transactions ch env c txs wait = send_each (\<lambda>tx. channel_send ch env c tx wait) txs"
    using assms(1) by (cases ch) (auto simp: channel_send_transactions_def fun_eq_iff)
  have "fst (send_each (\<lambda>tx. channel_send ch env c tx wait) txs w) = Delivered () \<Longrightarrow> \<exists>bs. map (bincode (env_codec env)) txs = map Inr bs
     \<and> w_requests (snd (send_each (\<lambda>tx. channel_send ch env c tx wait) txs w)) = w_requests w @ map (request_of ch env c) bs"
  proof (induction txs arbitrary: w)
    case (Cons tx txs)
    obtain w' where sent: "channel_send ch env c tx wait w = (Delivered (), w')"
      using Cons.prems by (auto simp: act_then_def split: prod.splits reply.splits)
    then obtain b where b: "bincode (env_codec env) tx = Inr b"
      using channel_send_unserialised [where env = env and tx = tx and ch = ch and c = c and wait = wait and w = w] by (cases "bincode (env_codec env) tx") auto
    have w': "w_requests w' = w_requests w @ [request_of ch env c b]" using channel_send_answered(1) [OF b, where ch = ch and c = c and wait = wait and w = w] sent by simp
    have "fst (send_each (\<lambda>tx. channel_send ch env c tx wait) txs w') = Delivered ()"
      using Cons.prems sent by (simp add: act_then_def)
    then obtain bs where "map (bincode (env_codec env)) txs = map Inr bs"
        "w_requests (snd (send_each (\<lambda>tx. channel_send ch env c tx wait) txs w')) = w_requests w' @ map (request_of ch env c) bs"
      using Cons.IH by blast
    then show ?case using sent b w' by (intro exI [of _ "b # bs"]) (simp add: act_then_def)
  qed (simp add: act_ret_def)
  then show ?thesis using assms(2) unfolding each by blast
qed

theorem batch_sends_each_once_witness:
  "length (w_requests (snd (channel_send_transactions ViaHelius (answering 200 ''fine'') sample_channel [3, 4] False idle_wire))) = 2"
proof -
  have other: "ViaHelius \<notin> {ViaJito, ViaBloxroute}" by simp
  have "fst (channel_send_transactions ViaHelius (answering 200 ''fine'') sample_channel [3, 4] False idle_wire) = Delivered ()"
    unfolding channel_send_transactions_def http_channel.case
    by (rule send_each_delivers, rule channel_send_accepted [where n = sample_net and b = "[_, 1]" and status = 200 and body = "Inr ''fine''"])
      (auto simp: answering_def sample_codec_def plain_json_def has_key_def json_get_def is_success_def)
  then obtain bs where "map (bincode (env_codec (answering 200 ''fine''))) [3, 4] = map Inr bs"
      "w_requests (snd (channel_send_transactions ViaHelius (answering 200 ''fine'') sample_channel [3, 4] False idle_wire)) =
        w_requests idle_wire @ map (request_of ViaHelius (answering 200 ''fine'') sample_channel) bs"
    using batch_sends_each_once [OF other] by blast
  moreover then have "length bs = 2" using map_eq_imp_length_eq by fastforce
  ultimately show ?thesis by (simp add: idle_wire_def)
qed

section \<open>Helpers that allocate\<close>

definition common_serialize_and_encode :: "'t codec \<Rightarrow> u8 list \<Rightarrow> ui_encoding \<Rightarrow> string + string" where
  "common_serialize_and_encode cd bytes encoding =
     (case encoding of
        Base58 \<Rightarrow> Inr (base58 cd bytes)
      | Base64 \<Rightarrow> Inr (base64_standard cd bytes)
      | _ \<Rightarrow> Inl ''Unsupported encoding'')"

definition serialize_smart_transaction_and_encode :: "'t codec \<Rightarrow> 't \<Rightarrow> ui_encoding \<Rightarrow> string + string \<times> nat" where
  "serialize_smart_transaction_and_encode cd tx encoding =
     (case bincode cd tx of
        Inl e \<Rightarrow> Inl e
      | Inr serialized_tx \<Rightarrow>
          (case common_serialize_and_encode cd serialized_tx encoding of
             Inl e \<Rightarrow> Inl e
           | Inr serialized \<Rightarrow> Inr (serialized, tx_signature cd tx)))"

text \<open>The answer of the endpoint of \<open>send_nb_transaction\<close>: a stated reason is the error; a signature is required otherwise.\<close>

definition nb_request :: "'t send_env \<Rightarrow> string \<Rightarrow> string \<Rightarrow> string \<Rightarrow> http_request" where
  "nb_request env endpoint auth_token encoded =
     post_json env (endpoint @ ''/api/v2/submit'') [(''Authorization'', auth_token), json_content]
       (JsonObject [(''transaction'', JsonObject [(''content'', JsonString encoded)]), (''frontRunningProtection'', JsonBool True)])"

definition nb_answer :: "(string \<Rightarrow> nat option) \<Rightarrow> json \<Rightarrow> nat act" where
  "nb_answer parse_signature resp =
     (case json_get ''reason'' resp of
        Some (JsonString reason) \<Rightarrow> act_fail reason
      | _ \<Rightarrow> (case json_get ''signature'' resp of
          Some (JsonString sig) \<Rightarrow> (case parse_signature sig of None \<Rightarrow> act_fail ''Invalid signature'' | Some n \<Rightarrow> act_ret n)
        | _ \<Rightarrow> act_fail ''Missing signature field in response''))"

definition send_nb_transaction :: "(string \<Rightarrow> nat option) \<Rightarrow> 't send_env \<Rightarrow> string \<Rightarrow> string \<Rightarrow> 't \<Rightarrow> nat act" where
  "send_nb_transaction parse_signature env endpoint auth_token tx =
     act_then (bincode_serialize env tx) (\<lambda>serialized.
     act_then (http_send env (nb_request env endpoint auth_token (base64_standard (env_codec env) serialized))) (\<lambda>(status, body).
     act_then (act_of_result body) (\<lambda>body_text.
     case env_json env body_text of None \<Rightarrow> act_fail ''Response parsing failed'' | Some resp \<Rightarrow> nb_answer parse_signature resp)))"

text \<open>The encoder that takes its buffer from the pool returns what the one that allocates does.\<close>

lemma pooled_encoding_agrees:
  "fst (serialize_transaction_sync cd tx encoding pool) = serialize_smart_transaction_and_encode cd tx encoding"
  by (cases encoding) (auto simp: serialize_transaction_sync_def serialize_zero_alloc_def serialize_smart_transaction_and_encode_def
      common_serialize_and_encode_def encode_bytes_def encode_base64_simd_def Let_def split_beta split: sum.split)

end
