(* ===== verification/KeepAlive.thy ===== *)
theory KeepAlive
  imports HttpClients
begin

text \<open>
  The keep-alive tasks of the submission channels (\<open>start_ping_task\<close>, \<open>send_ping_request\<close> and \<open>Drop\<close> in \<open>swqos/node1.rs\<close>,
  \<open>zeroslot.rs\<close>, \<open>temporal.rs\<close>, \<open>astralane.rs\<close>, \<open>blockrazor.rs\<close> and \<open>stellium.rs\<close>). A client starts a task that starts a
  task that pings; all clones of the client share a flag and the handle of the pinging task. The tasks and the owners of the
  client interleave: a state holds what is left of each task's program, and an event runs the next step of one of them. A
  store to the flag is seen by the next load.
\<close>

section \<open>Programs\<close>

text \<open>What a pinging task does, step by step: the body of its loop is repeated until a break.\<close>

datatype ping_op = SendPing | CheckHealth bool | Tick | BreakIfFlag

text \<open>What the task that runs \<open>start_ping_task\<close> does; its clone of the client is dropped when it ends.\<close>

datatype start_op = SpawnPings "ping_op list" "ping_op list" | StoreHandle | DropClone

datatype drop_op = StoreFlag bool | SpawnAbort

datatype ping = HttpPing http_request | GrpcHealth string

record ping_client =
  pc_flag :: bool
  pc_start :: "start_op list"
  pc_drop :: "drop_op list"
  pc_ping :: "http_client \<Rightarrow> ping"

subsection \<open>The requests\<close>

definition ping_url :: "string \<Rightarrow> string" where
  "ping_url endpoint = (if ends_with endpoint ''/'' then endpoint @ ''ping'' else endpoint @ ''/ping'')"

definition get_request :: "string \<Rightarrow> http_request" where
  "get_request url = \<lparr>rq_method = Get, rq_url = url, rq_query = [], rq_headers = [], rq_body = NoBody\<rparr>"

definition node1_send_ping_request :: "http_client \<Rightarrow> http_request" where
  "node1_send_ping_request c = get_request (ping_url (hc_endpoint c))"

definition temporal_send_ping_request :: "http_client \<Rightarrow> http_request" where
  "temporal_send_ping_request c = get_request (ping_url (hc_endpoint c))"

definition zeroslot_send_ping_request :: "http_client \<Rightarrow> http_request" where
  "zeroslot_send_ping_request c =
     \<lparr>rq_method = Post, rq_url = hc_endpoint c @ ''/?api-key='' @ hc_auth_token c, rq_query = [], rq_headers = [json_content],
      rq_body = TextBody ''{\"jsonrpc\":\"2.0\",\"id\":1,\"method\":\"getHealth\"}''\<rparr>"

definition astralane_send_ping_request :: "http_client \<Rightarrow> http_request" where
  "astralane_send_ping_request c =
     \<lparr>rq_method = Post, rq_url = hc_endpoint c, rq_query = [(''api-key'', hc_auth_token c), (''method'', ''getHealth'')],
      rq_headers = [], rq_body = BytesBody []\<rparr>"

definition stellium_ping_request :: "http_client \<Rightarrow> http_request" where
  "stellium_ping_request c = get_request (hc_endpoint c @ ''/'' @ hc_auth_token c)"

text \<open>\<open>str::replace\<close>: every occurrence, from the left, without overlaps.\<close>

function str_replace :: "string \<Rightarrow> string \<Rightarrow> string \<Rightarrow> string" where
  "str_replace pat new s =
     (if s = [] \<or> pat = [] then s
      else if prefix pat s then new @ str_replace pat new (drop (length pat) s)
      else hd s # str_replace pat new (tl s))"
  by auto
termination by (relation "measure (\<lambda>(pat, new, s). length s)") auto

declare str_replace.simps [simp del]

definition send_http_ping :: "http_client \<Rightarrow> http_request" where
  "send_http_ping c =
     \<lparr>rq_method = Post, rq_url = str_replace ''/v2/sendTransaction'' ''/v2/health'' (hc_endpoint c),
      rq_query = [(''auth'', hc_auth_token c)], rq_headers = [(''Content-Type'', ''text/plain'')], rq_body = BytesBody []\<rparr>"

subsection \<open>The clients\<close>

definition node1_start_ping_task :: "start_op list" where
  "node1_start_ping_task = [SpawnPings [SendPing] [Tick, BreakIfFlag, SendPing], StoreHandle]"

definition node1_drop :: "drop_op list" where
  "node1_drop = [StoreFlag True, SpawnAbort]"

definition node1_new :: ping_client where
  "node1_new = \<lparr>pc_flag = False, pc_start = node1_start_ping_task @ [DropClone], pc_drop = node1_drop,
     pc_ping = HttpPing \<circ> node1_send_ping_request\<rparr>"

definition zeroslot_start_ping_task :: "start_op list" where
  "zeroslot_start_ping_task = [SpawnPings [SendPing] [Tick, BreakIfFlag, SendPing], StoreHandle]"

definition zeroslot_drop :: "drop_op list" where
  "zeroslot_drop = [StoreFlag True, SpawnAbort]"

definition zeroslot_new :: ping_client where
  "zeroslot_new = \<lparr>pc_flag = False, pc_start = zeroslot_start_ping_task @ [DropClone], pc_drop = zeroslot_drop,
     pc_ping = HttpPing \<circ> zeroslot_send_ping_request\<rparr>"

definition temporal_start_ping_task :: "start_op list" where
  "temporal_start_ping_task = [SpawnPings [SendPing] [Tick, BreakIfFlag, SendPing], StoreHandle]"

definition temporal_drop :: "drop_op list" where
  "temporal_drop = [StoreFlag True, SpawnAbort]"

definition temporal_new :: ping_client where
  "temporal_new = \<lparr>pc_flag = False, pc_start = temporal_start_ping_task @ [DropClone], pc_drop = temporal_drop,
     pc_ping = HttpPing \<circ> temporal_send_ping_request\<rparr>"

text \<open>Astralane sends no first ping of its own: its first tick is immediate.\<close>

definition astralane_start_ping_task :: "start_op list" where
  "astralane_start_ping_task = [SpawnPings [] [Tick, BreakIfFlag, SendPing], StoreHandle]"

definition astralane_drop :: "drop_op list" where
  "astralane_drop = [StoreFlag True, SpawnAbort]"

definition astralane_new :: ping_client where
  "astralane_new = \<lparr>pc_flag = False, pc_start = astralane_start_ping_task @ [DropClone], pc_drop = astralane_drop,
     pc_ping = HttpPing \<circ> astralane_send_ping_request\<rparr>"

text \<open>
  BlockRazor has a task per backend. Over gRPC the first health check is only logged; one of the loop reconnects on failure
  after a pause.
\<close>

definition blockrazor_start_ping_task :: "bool \<Rightarrow> start_op list" where
  "blockrazor_start_ping_task grpc =
     (if grpc then [SpawnPings [CheckHealth False] [Tick, BreakIfFlag, CheckHealth True], StoreHandle]
      else [SpawnPings [SendPing] [Tick, BreakIfFlag, SendPing], StoreHandle])"

definition blockrazor_drop :: "drop_op list" where
  "blockrazor_drop = [StoreFlag True, SpawnAbort]"

definition blockrazor_new_http :: ping_client where
  "blockrazor_new_http = \<lparr>pc_flag = False, pc_start = blockrazor_start_ping_task False @ [DropClone], pc_drop = blockrazor_drop,
     pc_ping = HttpPing \<circ> send_http_ping\<rparr>"

definition get_health :: "http_client \<Rightarrow> ping" where
  "get_health c = GrpcHealth (hc_auth_token c)"

definition blockrazor_new_grpc :: ping_client where
  "blockrazor_new_grpc = \<lparr>pc_flag = False, pc_start = blockrazor_start_ping_task True @ [DropClone], pc_drop = blockrazor_drop,
     pc_ping = get_health\<rparr>"

text \<open>
  Stellium's flag is named for the opposite meaning: it starts as true, a drop stores false, and the loop breaks when it reads
  true. There is no handle to abort the task by.
\<close>

definition stellium_start_ping_task :: "start_op list" where
  "stellium_start_ping_task = [SpawnPings [SendPing] [Tick, BreakIfFlag, SendPing]]"

definition stellium_drop :: "drop_op list" where
  "stellium_drop = [StoreFlag False]"

definition stellium_stop_ping_task :: "drop_op list" where
  "stellium_stop_ping_task = [StoreFlag False]"

definition stellium_new :: ping_client where
  "stellium_new = \<lparr>pc_flag = True, pc_start = stellium_start_ping_task @ [DropClone], pc_drop = stellium_drop,
     pc_ping = HttpPing \<circ> stellium_ping_request\<rparr>"

section \<open>Health checks and back-off\<close>

datatype health = Healthy | Reconnected | StillDown

text \<open>One health check of the loop: the pause before the next attempt, and how long this one waited.\<close>

fun health_check :: "health \<Rightarrow> nat \<Rightarrow> nat \<times> nat" where
  "health_check Healthy delay = (1, 0)"
| "health_check Reconnected delay = (1, delay)"
| "health_check StillDown delay = (min (delay * 2) 60, delay)"

definition delay_after :: "health list \<Rightarrow> nat" where
  "delay_after hs = foldl (\<lambda>delay h. fst (health_check h delay)) 1 hs"

section \<open>The machine\<close>

record keep_alive =
  ka_flag :: bool
  ka_handle :: bool
  ka_starter :: "start_op list"
  ka_pinger :: "(ping_op list \<times> ping_op list) option"
  ka_aborts :: nat
  ka_clients :: nat
  ka_delay :: nat
  ka_pings :: "ping list"

definition ka_new :: "ping_client \<Rightarrow> keep_alive" where
  "ka_new pc = \<lparr>ka_flag = pc_flag pc, ka_handle = False, ka_starter = pc_start pc, ka_pinger = None, ka_aborts = 0,
     ka_clients = 1, ka_delay = 1, ka_pings = []\<rparr>"

fun run_drop :: "drop_op list \<Rightarrow> keep_alive \<Rightarrow> keep_alive" where
  "run_drop [] s = s"
| "run_drop (StoreFlag b # ops) s = run_drop ops (s\<lparr>ka_flag := b\<rparr>)"
| "run_drop (SpawnAbort # ops) s = run_drop ops (s\<lparr>ka_aborts := ka_aborts s + 1\<rparr>)"

fun starter_step :: "ping_client \<Rightarrow> keep_alive \<Rightarrow> keep_alive option" where
  "starter_step pc s =
     (case ka_starter s of
        [] \<Rightarrow> None
      | SpawnPings first loop # ops \<Rightarrow> Some (s\<lparr>ka_starter := ops, ka_pinger := Some (first, loop)\<rparr>)
      | StoreHandle # ops \<Rightarrow> Some (s\<lparr>ka_starter := ops, ka_handle := True\<rparr>)
      | DropClone # ops \<Rightarrow> Some (run_drop (pc_drop pc) (s\<lparr>ka_starter := ops\<rparr>)))"

fun pinger_step :: "ping_client \<Rightarrow> http_client \<Rightarrow> health \<Rightarrow> keep_alive \<Rightarrow> keep_alive option" where
  "pinger_step pc c h s =
     (case ka_pinger s of
        None \<Rightarrow> None
      | Some ([], loop) \<Rightarrow> Some (s\<lparr>ka_pinger := Some (loop, loop)\<rparr>)
      | Some (SendPing # ops, loop) \<Rightarrow> Some (s\<lparr>ka_pinger := Some (ops, loop), ka_pings := ka_pings s @ [pc_ping pc c]\<rparr>)
      | Some (CheckHealth reconnects # ops, loop) \<Rightarrow>
          Some (s\<lparr>ka_pinger := Some (ops, loop), ka_pings := ka_pings s @ [pc_ping pc c],
                  ka_delay := (if reconnects then fst (health_check h (ka_delay s)) else ka_delay s)\<rparr>)
      | Some (Tick # ops, loop) \<Rightarrow> Some (s\<lparr>ka_pinger := Some (ops, loop)\<rparr>)
      | Some (BreakIfFlag # ops, loop) \<Rightarrow> Some (s\<lparr>ka_pinger := (if ka_flag s then None else Some (ops, loop))\<rparr>))"

text \<open>The task a drop spawns: it aborts the pinging task if its handle is stored and clears the handle.\<close>

definition abort_step :: "keep_alive \<Rightarrow> keep_alive option" where
  "abort_step s =
     (if ka_aborts s = 0 then None
      else Some (s\<lparr>ka_aborts := ka_aborts s - 1, ka_pinger := (if ka_handle s then None else ka_pinger s), ka_handle := False\<rparr>))"

datatype ka_event = Starter | Pinger health | Abort | CloneClient | DropClient | StopPings

text \<open>\<open>StopPings\<close> is \<open>stop_ping_task\<close>, which only Stellium's client has.\<close>

fun ka_apply :: "ping_client \<Rightarrow> http_client \<Rightarrow> ka_event \<Rightarrow> keep_alive \<Rightarrow> keep_alive option" where
  "ka_apply pc c Starter s = starter_step pc s"
| "ka_apply pc c (Pinger h) s = pinger_step pc c h s"
| "ka_apply pc c Abort s = abort_step s"
| "ka_apply pc c CloneClient s = (if ka_clients s = 0 then None else Some (s\<lparr>ka_clients := ka_clients s + 1\<rparr>))"
| "ka_apply pc c DropClient s = (if ka_clients s = 0 then None else Some (run_drop (pc_drop pc) (s\<lparr>ka_clients := ka_clients s - 1\<rparr>)))"
| "ka_apply pc c StopPings s = (if ka_clients s = 0 \<or> pc_drop pc \<noteq> stellium_drop then None else Some (run_drop stellium_stop_ping_task s))"

fun ka_run :: "ping_client \<Rightarrow> http_client \<Rightarrow> ka_event list \<Rightarrow> keep_alive \<Rightarrow> keep_alive option" where
  "ka_run pc c [] s = Some s"
| "ka_run pc c (e # es) s = (case ka_apply pc c e s of None \<Rightarrow> None | Some s' \<Rightarrow> ka_run pc c es s')"

section \<open>Back-off\<close>

lemma delay_after_append: "delay_after (hs @ [h]) = fst (health_check h (delay_after hs))"
  by (simp add: delay_after_def)

lemma delay_bounds: "1 \<le> delay_after hs \<and> delay_after hs \<le> 60"
proof (induction hs rule: rev_induct)
  case (snoc h hs)
  then show ?case by (cases h) (auto simp: delay_after_append)
qed (simp add: delay_after_def)

lemma delay_doubles: "delay_after hs = 1 \<Longrightarrow> delay_after (hs @ replicate n StillDown) = min (2 ^ n) 60"
proof (induction n)
  case (Suc n)
  have "hs @ replicate (Suc n) StillDown = (hs @ replicate n StillDown) @ [StillDown]"
    by (simp add: replicate_append_same)
  then show ?case using Suc by (simp only: delay_after_append) simp
qed simp

text \<open>
  The pause of the gRPC channel: after \<open>n\<close> failed attempts since the last good one it is \<open>2 ^ n\<close> seconds and at most a
  minute, whatever happened before.
\<close>

theorem grpc_backoff:
  "delay_after (replicate n StillDown) = min (2 ^ n) 60
   \<and> (h \<noteq> StillDown \<longrightarrow> delay_after (hs @ h # replicate n StillDown) = min (2 ^ n) 60)
   \<and> 1 \<le> delay_after hs \<and> delay_after hs \<le> 60"
proof (intro conjI impI)
  show "delay_after (replicate n StillDown) = min (2 ^ n) 60" using delay_doubles [of "[]" n] by (simp add: delay_after_def)
  show "delay_after (hs @ h # replicate n StillDown) = min (2 ^ n) 60" if "h \<noteq> StillDown"
  proof -
    have "delay_after (hs @ [h]) = 1" using that by (cases h) (simp_all add: delay_after_append)
    then show ?thesis using delay_doubles [of "hs @ [h]" n] by simp
  qed
qed (use delay_bounds in auto)

theorem grpc_backoff_witness:
  "delay_after [StillDown, StillDown, Reconnected, StillDown, StillDown, StillDown] = 8"
  using grpc_backoff [of 3 Reconnected "[StillDown, StillDown]"] by (simp add: numeral_3_eq_3)

section \<open>Runs\<close>

lemma ka_run_append: "ka_run pc c (es @ es') s = (case ka_run pc c es s of None \<Rightarrow> None | Some s' \<Rightarrow> ka_run pc c es' s')"
  by (induction es arbitrary: s) (auto split: option.split)

lemma ka_run_invariant:
  assumes step: "\<And>e s s'. I s \<Longrightarrow> ka_apply pc c e s = Some s' \<Longrightarrow> I s'" and start: "I s" and run: "ka_run pc c es s = Some s'"
  shows "I s'"
  using start run by (induction es arbitrary: s) (auto split: option.splits intro: step)

text \<open>A quantity that no step raises is no larger at the end of a run; the same for one that counts the pinging task's steps.\<close>

fun is_pinger :: "ka_event \<Rightarrow> bool" where
  "is_pinger (Pinger h) = True"
| "is_pinger _ = False"

definition pinger_steps :: "ka_event list \<Rightarrow> nat" where
  "pinger_steps es = length (filter is_pinger es)"

lemma ka_run_potential:
  assumes step: "\<And>e s s'. I s \<Longrightarrow> ka_apply pc c e s = Some s' \<Longrightarrow> I s' \<and> f s' + (if is_pinger e then k else 0) \<le> f s"
    and start: "I s" and run: "ka_run pc c es s = Some s'"
  shows "f s' + k * pinger_steps es \<le> (f s :: nat)"
  using start run
proof (induction es arbitrary: s)
  case (Cons e es)
  then obtain t where t: "ka_apply pc c e s = Some t" "ka_run pc c es t = Some s'" by (auto split: option.splits)
  then show ?case using Cons.IH [OF _ t(2)] step [OF Cons.prems(1) t(1)] by (auto simp: pinger_steps_def split: if_splits)
qed (simp add: pinger_steps_def)

lemma starter_finishes:
  "\<exists>s'. ka_run pc c (replicate (length (ka_starter s)) Starter) s = Some s' \<and> ka_starter s' = []"
proof (induction "ka_starter s" arbitrary: s)
  case (Cons op ops)
  have drop_keeps: "ka_starter (run_drop d s) = ka_starter s" for d s by (induction d s rule: run_drop.induct) simp_all
  obtain s' where "ka_apply pc c Starter s = Some s'" "ka_starter s' = ops"
    using Cons.hyps(2) [symmetric] by (cases op) (simp_all add: drop_keeps)
  then show ?case using Cons.hyps by (metis (no_types) length_Cons replicate_Suc ka_run.simps(2) option.simps(5))
qed simp

section \<open>Tasks that a drop stops\<close>

text \<open>
  The contract of the clients whose loop is ended by a drop: what the start-up task does, what a drop does, and that at most
  one ping precedes the loop and one is sent per turn of it.
\<close>

locale stopped_by_drop =
  fixes pc :: ping_client and first :: "ping_op list" and beat :: ping_op
  assumes starts: "pc_start pc = [SpawnPings first [Tick, BreakIfFlag, beat], StoreHandle, DropClone]"
    and drops: "pc_drop pc = [StoreFlag True, SpawnAbort]"
    and beats: "beat \<noteq> BreakIfFlag" "BreakIfFlag \<notin> set first" "length first \<le> 1"
begin

definition places :: "ping_op list set" where
  "places = {first, [], [Tick, BreakIfFlag, beat], [BreakIfFlag, beat], [beat]}"

definition stages :: "start_op list set" where
  "stages = {pc_start pc, [StoreHandle, DropClone], [DropClone], []}"

definition on_track :: "(ping_op list \<times> ping_op list) option \<Rightarrow> bool" where
  "on_track p \<longleftrightarrow> (case p of None \<Rightarrow> True | Some (ops, loop) \<Rightarrow> loop = [Tick, BreakIfFlag, beat] \<and> ops \<in> places)"

definition inv :: "keep_alive \<Rightarrow> bool" where
  "inv s \<longleftrightarrow> ka_starter s \<in> stages \<and> (ka_starter s = [] \<longrightarrow> ka_flag s) \<and> on_track (ka_pinger s)"

lemma inv_new: "inv (ka_new pc)"
  by (simp add: inv_def ka_new_def starts stages_def on_track_def)

lemma first_cases: obtains "first = []" | op where "first = [op]" "op \<noteq> BreakIfFlag"
  using beats(2,3) by (cases first) auto

lemma run_drop_pc: "run_drop (pc_drop pc) s = s\<lparr>ka_flag := True, ka_aborts := ka_aborts s + 1\<rparr>"
  by (simp add: drops)

lemma inv_starter:
  assumes "inv s" "starter_step pc s = Some s'"
  shows "inv s'"
proof -
  consider "ka_starter s = pc_start pc" | "ka_starter s = [StoreHandle, DropClone]" | "ka_starter s = [DropClone]" | "ka_starter s = []"
    using assms(1) by (auto simp: inv_def stages_def)
  then show ?thesis
    by cases (use assms in \<open>auto simp: inv_def starts run_drop_pc places_def stages_def on_track_def\<close>)
qed

text \<open>The steps the pinging task has left when the flag is set, and the pings among them.\<close>

definition steps_left :: "(ping_op list \<times> ping_op list) option \<Rightarrow> nat" where
  "steps_left p =
     (case p of None \<Rightarrow> 0
      | Some (ops, _) \<Rightarrow> if BreakIfFlag \<in> set ops then length ops - 1 else length ops + 3)"

definition pings_left :: "(ping_op list \<times> ping_op list) option \<Rightarrow> nat" where
  "pings_left p = (case p of None \<Rightarrow> 0 | Some (ops, _) \<Rightarrow> if BreakIfFlag \<in> set ops then 0 else length ops)"

lemma left_bounds: "on_track p \<Longrightarrow> steps_left p \<le> 4 \<and> pings_left p \<le> 1"
  using beats by (auto simp: on_track_def steps_left_def pings_left_def places_def split: option.splits)

lemma pinger_moves:
  assumes "on_track (ka_pinger s)" "pinger_step pc c h s = Some s'"
  shows "on_track (ka_pinger s')" "ka_starter s' = ka_starter s" "ka_flag s' = ka_flag s"
    "ka_flag s \<Longrightarrow> steps_left (ka_pinger s') + 1 \<le> steps_left (ka_pinger s)"
    "ka_flag s \<Longrightarrow> length (ka_pings s') + pings_left (ka_pinger s') \<le> length (ka_pings s) + pings_left (ka_pinger s)"
proof -
  obtain ops where p: "ka_pinger s = Some (ops, [Tick, BreakIfFlag, beat])" and ops: "ops \<in> places"
    using assms by (auto simp: on_track_def split: option.splits)
  have all: "on_track (ka_pinger s') \<and> ka_starter s' = ka_starter s \<and> ka_flag s' = ka_flag s
    \<and> (ka_flag s \<longrightarrow> steps_left (ka_pinger s') + 1 \<le> steps_left (ka_pinger s)
        \<and> length (ka_pings s') + pings_left (ka_pinger s') \<le> length (ka_pings s) + pings_left (ka_pinger s))"
  proof (cases ops)
    case Nil
    then show ?thesis using assms p by (auto simp: on_track_def places_def steps_left_def pings_left_def)
  next
    case (Cons op rest)
    have rest: "rest \<in> places" using ops beats(3) unfolding places_def Cons by (cases first) auto
    have ahead: "op = Tick \<and> rest = [BreakIfFlag, beat]" if "BreakIfFlag \<in> set rest"
      using that ops beats unfolding places_def Cons by (cases first) auto
    show ?thesis
    proof (cases op)
      case BreakIfFlag
      then have "rest = [beat]" using ops beats unfolding places_def Cons by (cases first) auto
      then show ?thesis using assms p Cons BreakIfFlag rest by (auto simp: on_track_def steps_left_def pings_left_def)
    qed (use assms p Cons rest ahead in \<open>auto simp: on_track_def steps_left_def pings_left_def\<close>)
  qed
  show "on_track (ka_pinger s')" "ka_starter s' = ka_starter s" "ka_flag s' = ka_flag s" using all by blast+
  show "ka_flag s \<Longrightarrow> steps_left (ka_pinger s') + 1 \<le> steps_left (ka_pinger s)"
    "ka_flag s \<Longrightarrow> length (ka_pings s') + pings_left (ka_pinger s') \<le> length (ka_pings s) + pings_left (ka_pinger s)"
    using all by blast+
qed

lemma inv_step:
  assumes "inv s" "ka_apply pc c e s = Some s'"
  shows "inv s'"
proof (cases e)
  case Starter
  then show ?thesis using inv_starter assms by simp
next
  case (Pinger h)
  then show ?thesis using pinger_moves(1-3) [of s c h s'] assms by (simp add: inv_def)
next
  case StopPings
  then show ?thesis using assms by (simp add: drops stellium_drop_def)
qed (use assms in \<open>auto simp: inv_def run_drop_pc abort_step_def on_track_def split: if_splits\<close>)

definition over :: "keep_alive \<Rightarrow> bool" where
  "over s \<longleftrightarrow> inv s \<and> ka_starter s = []"

lemma over_step:
  assumes "over s" "ka_apply pc c e s = Some s'"
  shows "over s' \<and> steps_left (ka_pinger s') + (if is_pinger e then 1 else 0) \<le> steps_left (ka_pinger s)"
    "length (ka_pings s') + pings_left (ka_pinger s') \<le> length (ka_pings s) + pings_left (ka_pinger s)"
proof -
  have s: "inv s" "ka_starter s = []" "ka_flag s" using assms(1) by (auto simp: over_def inv_def)
  have inv: "inv s'" using inv_step s(1) assms(2) .
  have "ka_starter s' = [] \<and> steps_left (ka_pinger s') + (if is_pinger e then 1 else 0) \<le> steps_left (ka_pinger s)
    \<and> length (ka_pings s') + pings_left (ka_pinger s') \<le> length (ka_pings s) + pings_left (ka_pinger s)"
  proof (cases e)
    case (Pinger h)
    then show ?thesis using pinger_moves [of s c h s'] s assms(2) by (simp add: inv_def)
  next
    case StopPings
    then show ?thesis using assms(2) by (simp add: drops stellium_drop_def)
  qed (use s assms(2) in \<open>auto simp: run_drop_pc abort_step_def steps_left_def pings_left_def split: if_splits\<close>)
  then show "over s' \<and> steps_left (ka_pinger s') + (if is_pinger e then 1 else 0) \<le> steps_left (ka_pinger s)"
    "length (ka_pings s') + pings_left (ka_pinger s') \<le> length (ka_pings s) + pings_left (ka_pinger s)"
    using inv by (auto simp: over_def)
qed

lemma ends_with_starter:
  assumes "ka_run pc c es (ka_new pc) = Some s" "ka_starter s = []" "ka_run pc c es' s = Some s'"
  shows "pinger_steps es' \<le> 4 \<and> length (ka_pings s') \<le> length (ka_pings s) + 1"
proof -
  have "inv s" using ka_run_invariant [of inv, OF inv_step inv_new assms(1)] .
  then have s: "over s" "on_track (ka_pinger s)" using assms(2) by (simp_all add: over_def inv_def)
  have "steps_left (ka_pinger s') + 1 * pinger_steps es' \<le> steps_left (ka_pinger s)"
    by (rule ka_run_potential [where I = over, OF _ s(1) assms(3)]) (rule over_step(1))
  moreover have "length (ka_pings s') + pings_left (ka_pinger s') + 0 * pinger_steps es' \<le> length (ka_pings s) + pings_left (ka_pinger s)"
    by (rule ka_run_potential [where I = over, OF _ s(1) assms(3)]) (use over_step in \<open>auto split: if_splits\<close>)
  ultimately show ?thesis using left_bounds [OF s(2)] by simp
qed

end

interpretation node1: stopped_by_drop node1_new "[SendPing]" SendPing
  by unfold_locales (simp_all add: node1_new_def node1_start_ping_task_def node1_drop_def)

interpretation zeroslot: stopped_by_drop zeroslot_new "[SendPing]" SendPing
  by unfold_locales (simp_all add: zeroslot_new_def zeroslot_start_ping_task_def zeroslot_drop_def)

interpretation temporal: stopped_by_drop temporal_new "[SendPing]" SendPing
  by unfold_locales (simp_all add: temporal_new_def temporal_start_ping_task_def temporal_drop_def)

interpretation astralane: stopped_by_drop astralane_new "[]" SendPing
  by unfold_locales (simp_all add: astralane_new_def astralane_start_ping_task_def astralane_drop_def)

interpretation blockrazor_http: stopped_by_drop blockrazor_new_http "[SendPing]" SendPing
  by unfold_locales (simp_all add: blockrazor_new_http_def blockrazor_start_ping_task_def blockrazor_drop_def)

interpretation blockrazor_grpc: stopped_by_drop blockrazor_new_grpc "[CheckHealth False]" "CheckHealth True"
  by unfold_locales (simp_all add: blockrazor_new_grpc_def blockrazor_start_ping_task_def blockrazor_drop_def)

text \<open>
  C24: The keep-alive of five providers dies with its own start-up. Whatever the interleaving and however many clients are alive,
  the start-up task ends by itself, and once it has, the pinging task takes at most four more steps and sends at most one
  more ping: the clone that the start-up task owns is dropped with it, and a drop stops the pings of all clones.
\<close>

theorem keep_alive_ends_with_start_up:
  assumes "pc \<in> {node1_new, zeroslot_new, temporal_new, astralane_new, blockrazor_new_http, blockrazor_new_grpc}"
    and "ka_run pc c es (ka_new pc) = Some s"
  shows "(\<exists>t. ka_run pc c (replicate (length (ka_starter s)) Starter) s = Some t \<and> ka_starter t = [])
    \<and> (ka_starter s = [] \<longrightarrow> (\<forall>es' s'. ka_run pc c es' s = Some s' \<longrightarrow>
          pinger_steps es' \<le> 4 \<and> length (ka_pings s') \<le> length (ka_pings s) + 1))"
proof (intro conjI impI allI)
  obtain first beat where "stopped_by_drop pc first beat"
    using assms(1) node1.stopped_by_drop_axioms zeroslot.stopped_by_drop_axioms temporal.stopped_by_drop_axioms
      astralane.stopped_by_drop_axioms blockrazor_http.stopped_by_drop_axioms blockrazor_grpc.stopped_by_drop_axioms by auto
  then show "pinger_steps es' \<le> 4" "length (ka_pings s') \<le> length (ka_pings s) + 1"
    if "ka_starter s = []" "ka_run pc c es' s = Some s'" for es' s'
    using stopped_by_drop.ends_with_starter assms(2) that by blast+
qed (rule starter_finishes)

theorem keep_alive_ends_with_start_up_witness:
  "\<exists>s. ka_run node1_new sample_channel [Starter, Pinger Healthy, Starter, Starter] (ka_new node1_new) = Some s
     \<and> ka_clients s = 1 \<and> ka_starter s = []
     \<and> (\<forall>es' s'. ka_run node1_new sample_channel es' s = Some s' \<longrightarrow> pinger_steps es' \<le> 4)"
proof -
  obtain s where s: "ka_run node1_new sample_channel [Starter, Pinger Healthy, Starter, Starter] (ka_new node1_new) = Some s"
      "ka_clients s = 1" "ka_starter s = []"
    by (simp add: ka_new_def node1_new_def node1_start_ping_task_def node1_drop_def)
  then show ?thesis using keep_alive_ends_with_start_up [of node1_new sample_channel _ s] by blast
qed

section \<open>The task that nothing stops\<close>

text \<open>How far Stellium's pinging task is from its next ping.\<close>

definition to_ping :: "(ping_op list \<times> ping_op list) option \<Rightarrow> nat" where
  "to_ping p = (case p of None \<Rightarrow> 0 | Some (ops, _) \<Rightarrow> if ops = [] then 4 else length ops)"

definition stellium_on_track :: "(ping_op list \<times> ping_op list) option \<Rightarrow> bool" where
  "stellium_on_track p \<longleftrightarrow> p \<in> insert None ((\<lambda>ops. Some (ops, [Tick, BreakIfFlag, SendPing])) `
     {[], [Tick, BreakIfFlag, SendPing], [BreakIfFlag, SendPing], [SendPing]})"

definition stellium_inv :: "keep_alive \<Rightarrow> bool" where
  "stellium_inv s \<longleftrightarrow> \<not> ka_handle s \<and> ka_starter s \<in> {pc_start stellium_new, [DropClone], []} \<and> (ka_starter s = [] \<longrightarrow> \<not> ka_flag s)
     \<and> stellium_on_track (ka_pinger s)"

lemmas stellium_defs = stellium_new_def stellium_start_ping_task_def stellium_drop_def stellium_stop_ping_task_def

lemma stellium_new_inv: "stellium_inv (ka_new stellium_new)"
  by (simp add: stellium_inv_def ka_new_def stellium_new_def stellium_on_track_def)

lemma stellium_starter:
  assumes "stellium_inv s" "starter_step stellium_new s = Some s'"
  shows "stellium_inv s'"
proof -
  consider "ka_starter s = pc_start stellium_new" | "ka_starter s = [DropClone]" | "ka_starter s = []"
    using assms(1) by (auto simp: stellium_inv_def)
  then show ?thesis by cases (use assms in \<open>auto simp: stellium_inv_def stellium_on_track_def stellium_defs\<close>)
qed

lemma stellium_pinger:
  assumes "stellium_on_track (ka_pinger s)" "pinger_step stellium_new c h s = Some s'"
  shows "stellium_on_track (ka_pinger s')
    \<and> (\<not> ka_flag s \<longrightarrow> ka_pinger s' \<noteq> None
        \<and> 4 * length (ka_pings s') + to_ping (ka_pinger s) = 4 * length (ka_pings s) + to_ping (ka_pinger s') + 1)
    \<and> ka_starter s' = ka_starter s \<and> ka_flag s' = ka_flag s \<and> ka_handle s' = ka_handle s"
proof -
  obtain ops where p: "ka_pinger s = Some (ops, [Tick, BreakIfFlag, SendPing])"
      and "ops \<in> {[], [Tick, BreakIfFlag, SendPing], [BreakIfFlag, SendPing], [SendPing]}"
    using assms by (auto simp: stellium_on_track_def)
  then consider "ops = []" | "ops = [Tick, BreakIfFlag, SendPing]" | "ops = [BreakIfFlag, SendPing]" | "ops = [SendPing]" by auto
  then show ?thesis by cases (cases "ka_flag s"; use assms(2) p in \<open>auto simp: stellium_on_track_def to_ping_def\<close>)+
qed

lemma stellium_inv_step:
  assumes "stellium_inv s" "ka_apply stellium_new c e s = Some s'"
  shows "stellium_inv s'"
proof (cases e)
  case Starter
  then show ?thesis using assms stellium_starter by simp
next
  case (Pinger h)
  then show ?thesis using assms stellium_pinger [of s c h s'] by (simp add: stellium_inv_def)
qed (use assms in \<open>auto simp: stellium_inv_def stellium_drop_def stellium_stop_ping_task_def stellium_new_def abort_step_def split: if_splits\<close>)

definition pinging :: "keep_alive \<Rightarrow> bool" where
  "pinging s \<longleftrightarrow> stellium_inv s \<and> ka_starter s = [] \<and> ka_pinger s \<noteq> None"

lemma pinging_step:
  assumes "pinging s" "ka_apply stellium_new c e s = Some s'"
  shows "pinging s'" "4 * length (ka_pings s') + to_ping (ka_pinger s) =
    4 * length (ka_pings s) + to_ping (ka_pinger s') + (if is_pinger e then 1 else 0)"
proof -
  have s: "stellium_inv s" "ka_starter s = []" "ka_pinger s \<noteq> None" "\<not> ka_flag s" "\<not> ka_handle s" "stellium_on_track (ka_pinger s)"
    using assms(1) by (auto simp: pinging_def stellium_inv_def)
  have inv: "stellium_inv s'" using stellium_inv_step [OF s(1) assms(2)] .
  have "ka_starter s' = [] \<and> ka_pinger s' \<noteq> None \<and> 4 * length (ka_pings s') + to_ping (ka_pinger s) =
      4 * length (ka_pings s) + to_ping (ka_pinger s') + (if is_pinger e then 1 else 0)"
  proof (cases e)
    case (Pinger h)
    then show ?thesis using s assms(2) stellium_pinger [of s c h s'] by simp
  qed (use s assms(2) in \<open>auto simp: stellium_drop_def stellium_stop_ping_task_def stellium_new_def abort_step_def split: if_splits\<close>)
  then show "pinging s'" "4 * length (ka_pings s') + to_ping (ka_pinger s) =
      4 * length (ka_pings s) + to_ping (ka_pinger s') + (if is_pinger e then 1 else 0)"
    using inv by (auto simp: pinging_def)
qed

lemma pinging_run:
  assumes "pinging s" "ka_run stellium_new c es s = Some s'"
  shows "pinging s' \<and> 4 * length (ka_pings s') + to_ping (ka_pinger s) = 4 * length (ka_pings s) + to_ping (ka_pinger s') + pinger_steps es"
  using assms
proof (induction es arbitrary: s)
  case (Cons e es)
  then obtain t where t: "ka_apply stellium_new c e s = Some t" "ka_run stellium_new c es t = Some s'" by (auto split: option.splits)
  show ?case
    using pinging_step [OF Cons.prems(1) t(1)] Cons.IH [OF _ t(2)] by (auto simp: pinger_steps_def)
qed (simp add: pinger_steps_def)

lemma to_ping_range: "pinging s \<Longrightarrow> 1 \<le> to_ping (ka_pinger s) \<and> to_ping (ka_pinger s) \<le> 4"
  by (auto simp: pinging_def stellium_inv_def stellium_on_track_def to_ping_def)

text \<open>
  Stellium's pings, once past their first turn when the start-up task ends, are never stopped: not by dropping every client
  and not by \<open>stop_ping_task\<close>. The task keeps running, with a ping for every four of its steps.
\<close>

theorem stellium_pings_forever:
  assumes "ka_run stellium_new c es (ka_new stellium_new) = Some s" "ka_starter s = []" "ka_pinger s \<noteq> None"
    and "ka_run stellium_new c es' s = Some s'"
  shows "ka_pinger s' \<noteq> None \<and> length (ka_pings s) + pinger_steps es' div 4 \<le> length (ka_pings s')"
proof -
  have "stellium_inv s" using ka_run_invariant [of stellium_inv, OF stellium_inv_step stellium_new_inv assms(1)] .
  then have s: "pinging s" using assms(2,3) by (simp add: pinging_def)
  note run = pinging_run [OF s assms(4)]
  show ?thesis
    using run to_ping_range [OF s] to_ping_range [of s'] by (auto simp: pinging_def)
qed

theorem stellium_pings_forever_witness:
  "\<exists>s. ka_run stellium_new sample_channel ([Starter, Starter, StopPings, DropClient] @ replicate 5 (Pinger Healthy)) (ka_new stellium_new) = Some s
     \<and> ka_clients s = 0 \<and> ka_pinger s \<noteq> None"
proof -
  define t where "t = the (ka_run stellium_new sample_channel [Starter, Starter] (ka_new stellium_new))"
  define s where "s = the (ka_run stellium_new sample_channel ([StopPings, DropClient] @ replicate 5 (Pinger Healthy)) t)"
  have t: "ka_run stellium_new sample_channel [Starter, Starter] (ka_new stellium_new) = Some t" "ka_starter t = []" "ka_pinger t \<noteq> None"
    by (simp_all add: t_def ka_new_def stellium_defs)
  have s: "ka_run stellium_new sample_channel ([StopPings, DropClient] @ replicate 5 (Pinger Healthy)) t = Some s" "ka_clients s = 0"
    by (simp_all add: s_def t_def ka_new_def stellium_defs numeral_eq_Suc)
  have "ka_pinger s \<noteq> None" using stellium_pings_forever [OF t s(1)] by blast
  then show ?thesis
    using t(1) s ka_run_append [of stellium_new sample_channel "[Starter, Starter]" "[StopPings, DropClient] @ replicate 5 (Pinger Healthy)"]
    by (simp del: ka_run.simps)
qed

text \<open>If the task reaches its first turn before the start-up task has ended, it stops at once although the client lives.\<close>

theorem stellium_may_stop_early:
  "\<exists>s. ka_run stellium_new c (Starter # replicate 4 (Pinger Healthy)) (ka_new stellium_new) = Some s
     \<and> ka_clients s = 1 \<and> ka_pinger s = None \<and> length (ka_pings s) = 1"
  by (simp add: ka_new_def stellium_defs numeral_eq_Suc)

end
