(* ===== verification/QuicClients.thy ===== *)
theory QuicClients
  imports HttpClients
begin

text \<open>
  The submission channels over QUIC (\<open>swqos/node1_quic.rs\<close>, \<open>astralane_quic.rs\<close>, \<open>soyas.rs\<close>, \<open>speedlanding.rs\<close>): connecting,
  authentication, reconnection and what a send puts on a stream. The transport, name resolution and the TLS set-up are
  parameters whose answers may depend on everything that happened before; the state holds the current connection and the
  trace of what was done on the network. A connection is named by its place in the trace. A timeout is an error answer of
  the call it bounds.
\<close>

section \<open>The transport\<close>

datatype ip = V4 u8 u8 u8 u8 | V6 "u16 list"

type_synonym socket_addr = "ip \<times> u16"

text \<open>Streams carry the bytes written and, when they have two directions, the bytes that come back.\<close>

datatype quic_event =
  Dialled socket_addr string | DialFailed socket_addr string
  | BiStream nat "u8 list" "u8 list" | BiFailed nat "u8 list"
  | UniStream nat "u8 list" | UniFailed nat "u8 list"
  | Closed nat

datatype close_reason = ApplicationClosed nat | OtherClose

record quic_env =
  qe_config :: "string option"
  qe_resolve :: "string \<Rightarrow> string + socket_addr list"
  qe_parse_addr :: "string \<Rightarrow> socket_addr option"
  qe_uuid :: "string \<Rightarrow> string + u8 list"
  qe_connect :: "quic_event list \<Rightarrow> socket_addr \<Rightarrow> string \<Rightarrow> string option"
  qe_close_reason :: "quic_event list \<Rightarrow> nat \<Rightarrow> close_reason option"
  qe_bi :: "quic_event list \<Rightarrow> nat \<Rightarrow> u8 list \<Rightarrow> string + u8 list"
  qe_uni :: "quic_event list \<Rightarrow> nat \<Rightarrow> u8 list \<Rightarrow> string option"

record quic =
  q_conn :: nat
  q_next :: u64
  q_pool :: buffer_pool
  q_trace :: "quic_event list"

type_synonym 'a qact = "quic \<Rightarrow> (string + 'a) \<times> quic"

definition q_then :: "'a qact \<Rightarrow> ('a \<Rightarrow> 'b qact) \<Rightarrow> 'b qact" where
  "q_then m f s = (case m s of (Inl e, s') \<Rightarrow> (Inl e, s') | (Inr a, s') \<Rightarrow> f a s')"

definition q_of :: "string + 'a \<Rightarrow> 'a qact" where
  "q_of r s = (r, s)"

definition note_event :: "quic_event \<Rightarrow> quic \<Rightarrow> quic" where
  "note_event e s = s\<lparr>q_trace := q_trace s @ [e]\<rparr>"

definition dial :: "quic_env \<Rightarrow> socket_addr \<Rightarrow> string \<Rightarrow> nat qact" where
  "dial env addr name s =
     (case qe_connect env (q_trace s) addr name of
        Some e \<Rightarrow> (Inl e, note_event (DialFailed addr name) s)
      | None \<Rightarrow> (Inr (length (q_trace s)), note_event (Dialled addr name) s))"

definition bi_stream :: "quic_env \<Rightarrow> nat \<Rightarrow> u8 list \<Rightarrow> u8 list qact" where
  "bi_stream env conn bytes s =
     (case qe_bi env (q_trace s) conn bytes of
        Inl e \<Rightarrow> (Inl e, note_event (BiFailed conn bytes) s)
      | Inr back \<Rightarrow> (Inr back, note_event (BiStream conn bytes back) s))"

text \<open>\<open>try_send_bytes\<close>: a stream of one direction, written and finished.\<close>

definition try_send_bytes :: "quic_env \<Rightarrow> nat \<Rightarrow> u8 list \<Rightarrow> unit qact" where
  "try_send_bytes env conn payload s =
     (case qe_uni env (q_trace s) conn payload of
        Some e \<Rightarrow> (Inl e, note_event (UniFailed conn payload) s)
      | None \<Rightarrow> (Inr (), note_event (UniStream conn payload) s))"

definition close_reason_of :: "quic_env \<Rightarrow> quic \<Rightarrow> close_reason option" where
  "close_reason_of env s = qe_close_reason env (q_trace s) (q_conn s)"

definition set_conn :: "nat \<Rightarrow> unit qact" where
  "set_conn conn s = (Inr (), s\<lparr>q_conn := conn\<rparr>)"

definition first_addr :: "quic_env \<Rightarrow> string \<Rightarrow> string + socket_addr" where
  "first_addr env server =
     (case qe_resolve env server of
        Inl e \<Rightarrow> Inl e
      | Inr [] \<Rightarrow> Inl ''no socket address''
      | Inr (a # _) \<Rightarrow> Inr a)"

definition config_ok :: "quic_env \<Rightarrow> string + unit" where
  "config_ok env = (case qe_config env of Some e \<Rightarrow> Inl e | None \<Rightarrow> Inr ())"

definition read_exact :: "nat \<Rightarrow> u8 list \<Rightarrow> string + u8 list \<times> u8 list" where
  "read_exact n bs = (if length bs < n then Inl ''read'' else Inr (take n bs, drop n bs))"

definition be_value :: "u8 list \<Rightarrow> nat" where
  "be_value bs = foldl (\<lambda>v b. v * 256 + unat b) 0 bs"

section \<open>Node1\<close>

definition NODE1_MAX_TX_SIZE :: nat where "NODE1_MAX_TX_SIZE = 1232"

record node1_quic_client =
  nq_server_addr :: string
  nq_server_name :: string
  nq_api_key_uuid :: "u8 list"

definition authenticate :: "quic_env \<Rightarrow> nat \<Rightarrow> u8 list \<Rightarrow> unit qact" where
  "authenticate env conn api_key_bytes =
     q_then (bi_stream env conn api_key_bytes) (\<lambda>back.
     q_then (q_of (read_exact 1 back)) (\<lambda>(reply, _).
     q_of (if reply ! 0 = 0 then Inr () else Inl ''Node1 QUIC auth rejected'')))"

definition node1_quic_connect :: "quic_env \<Rightarrow> string \<Rightarrow> string \<Rightarrow> node1_quic_client qact" where
  "node1_quic_connect env server_addr api_key =
     q_then (q_of (first_addr env server_addr)) (\<lambda>addr.
     q_then (q_of (qe_uuid env api_key)) (\<lambda>uuid.
     q_then (q_of (config_ok env)) (\<lambda>_.
     q_then (dial env addr (takeWhile (\<lambda>ch. ch \<noteq> CHR '':'') server_addr)) (\<lambda>conn.
     q_then (authenticate env conn uuid) (\<lambda>_.
     q_then (set_conn conn) (\<lambda>_.
     q_of (Inr \<lparr>nq_server_addr = server_addr, nq_server_name = takeWhile (\<lambda>ch. ch \<noteq> CHR '':'') server_addr,
       nq_api_key_uuid = uuid\<rparr>)))))))"

definition node1_ensure_connected :: "quic_env \<Rightarrow> node1_quic_client \<Rightarrow> nat qact" where
  "node1_ensure_connected env c s =
     (if close_reason_of env s \<noteq> None then
        q_then (q_of (first_addr env (nq_server_addr c))) (\<lambda>addr.
        q_then (dial env addr (nq_server_name c)) (\<lambda>conn.
        q_then (authenticate env conn (nq_api_key_uuid c)) (\<lambda>_.
        q_then (set_conn conn) (\<lambda>_.
        q_of (Inr conn))))) s
      else (Inr (q_conn s), s))"

definition read_response :: "u8 list \<Rightarrow> string + u16 \<times> u8 list" where
  "read_response back =
     (case read_exact 6 back of
        Inl e \<Rightarrow> Inl e
      | Inr (header, rest) \<Rightarrow>
          (let status = word_of_nat (be_value (take 2 header)); msg_len = be_value (drop 2 header)
           in if msg_len > 0 then (case read_exact msg_len rest of Inl e \<Rightarrow> Inl e | Inr (msg, _) \<Rightarrow> Inr (status, msg))
              else Inr (status, [])))"

definition send_transaction_bytes :: "quic_env \<Rightarrow> node1_quic_client \<Rightarrow> u8 list \<Rightarrow> (u16 \<times> u8 list) qact" where
  "send_transaction_bytes env c tx_bytes =
     (if length tx_bytes > NODE1_MAX_TX_SIZE then q_of (Inl ''Node1 QUIC: transaction too large'')
      else q_then (node1_ensure_connected env c) (\<lambda>conn.
           q_then (bi_stream env conn tx_bytes) (\<lambda>back.
           q_of (read_response back))))"

definition node1_quic_submit :: "quic_env \<Rightarrow> node1_quic_client \<Rightarrow> u8 list \<Rightarrow> unit qact" where
  "node1_quic_submit env c tx_bytes =
     q_then (send_transaction_bytes env c tx_bytes) (\<lambda>(status, msg).
     q_of (if status \<noteq> 200 then Inl ''Node1 QUIC submit failed'' else Inr ()))"

section \<open>Astralane\<close>

definition MAX_TRANSACTION_SIZE :: nat where "MAX_TRANSACTION_SIZE = 1232"

definition ERROR_CODE_OK :: nat where "ERROR_CODE_OK = 0"
definition UNKNOWN_API_KEY :: nat where "UNKNOWN_API_KEY = 1"
definition CONNECTION_LIMIT :: nat where "CONNECTION_LIMIT = 2"

definition describe :: "nat \<Rightarrow> string" where
  "describe code =
     (if code = ERROR_CODE_OK then ''OK'' else if code = UNKNOWN_API_KEY then ''Unknown API key''
      else if code = CONNECTION_LIMIT then ''Connection limit exceeded'' else ''Unknown error'')"

definition astralane_quic_ip_candidates :: "string \<Rightarrow> u16 \<Rightarrow> socket_addr list" where
  "astralane_quic_ip_candidates host port =
     (if host = ''fr.gateway.astralane.io'' then [(V4 185 191 117 97, port), (V4 45 139 132 160, port)]
      else if host = ''ny.gateway.astralane.io'' then [(V4 64 130 45 19, port)]
      else if host = ''ams.gateway.astralane.io'' then [(V4 64 130 43 43, port), (V4 84 32 186 73, port)]
      else if host = ''la.gateway.astralane.io'' then [(V4 74 118 142 151, port)]
      else if host = ''lim.gateway.astralane.io'' then [(V4 162 19 222 232, port)]
      else if host = ''sg.gateway.astralane.io'' then [(V4 67 209 54 176, port)]
      else if host = ''lit.gateway.astralane.io'' then [(V4 84 32 97 47, port)]
      else [])"

definition digit_value :: "char \<Rightarrow> nat option" where
  "digit_value ch = (let v = of_char ch :: nat in if 48 \<le> v \<and> v \<le> 57 then Some (v - 48) else None)"

text \<open>\<open>str::parse::<u16>\<close>: an optional plus sign and at least one digit, within the range of the type.\<close>

fun parse_digits :: "nat \<Rightarrow> string \<Rightarrow> nat option" where
  "parse_digits v [] = Some v"
| "parse_digits v (ch # s) =
     (case digit_value ch of
        None \<Rightarrow> None
      | Some d \<Rightarrow> if v * 10 + d < 65536 then parse_digits (v * 10 + d) s else None)"

definition parse_u16 :: "string \<Rightarrow> u16 option" where
  "parse_u16 s =
     (let ds = (case s of ch # rest \<Rightarrow> if ch = CHR ''+'' then rest else s | [] \<Rightarrow> [])
      in if ds = [] then None else map_option word_of_nat (parse_digits 0 ds))"

text \<open>\<open>rsplit_once\<close>: at the last colon.\<close>

definition rsplit_colon :: "string \<Rightarrow> (string \<times> string) option" where
  "rsplit_colon s =
     (if CHR '':'' \<in> set s
      then Some (rev (tl (dropWhile (\<lambda>ch. ch \<noteq> CHR '':'') (rev s))), rev (takeWhile (\<lambda>ch. ch \<noteq> CHR '':'') (rev s)))
      else None)"

definition parse_host_port :: "string \<Rightarrow> (string \<times> u16) option" where
  "parse_host_port server_addr =
     (case rsplit_colon server_addr of
        None \<Rightarrow> None
      | Some (host, port_str) \<Rightarrow> map_option (Pair host) (parse_u16 port_str))"

definition is_ipv4 :: "socket_addr \<Rightarrow> bool" where
  "is_ipv4 a = (case fst a of V4 _ _ _ _ \<Rightarrow> True | V6 _ \<Rightarrow> False)"

definition resolve_server_candidates :: "quic_env \<Rightarrow> string \<Rightarrow> string + socket_addr list" where
  "resolve_server_candidates env server_addr =
     (case qe_parse_addr env server_addr of
        Some addr \<Rightarrow> Inr [addr]
      | None \<Rightarrow>
          (let candidates = (case parse_host_port server_addr of None \<Rightarrow> [] | Some (host, port) \<Rightarrow> astralane_quic_ip_candidates host port)
           in case qe_resolve env server_addr of
                Inl e \<Rightarrow> Inl e
              | Inr addrs \<Rightarrow>
                  if addrs = [] \<and> candidates = [] then Inl ''Cannot resolve address''
                  else Inr (foldl (\<lambda>cs a. if a \<in> set cs then cs else cs @ [a]) candidates
                              (sort_key (\<lambda>a. if is_ipv4 a then 0 else 1 :: nat) addrs))))"

definition local_bind_for_remote :: "socket_addr \<Rightarrow> socket_addr" where
  "local_bind_for_remote remote = (case fst remote of V4 _ _ _ _ \<Rightarrow> (V4 0 0 0 0, 0) | V6 _ \<Rightarrow> (V6 (replicate 8 0), 0))"

text \<open>The candidates one after the other, up to the first that answers; the error is the last one.\<close>

fun dial_first :: "quic_env \<Rightarrow> string \<Rightarrow> socket_addr list \<Rightarrow> string \<Rightarrow> nat qact" where
  "dial_first env name [] last_err = q_of (Inl last_err)"
| "dial_first env name (a # as) last_err =
     (\<lambda>s. case dial env a name s of
            (Inr conn, s') \<Rightarrow> (Inr conn, s')
          | (Inl e, s') \<Rightarrow> dial_first env name as e s')"

definition astralane_quic_connect :: "quic_env \<Rightarrow> string \<Rightarrow> socket_addr list qact" where
  "astralane_quic_connect env server_addr =
     q_then (q_of (resolve_server_candidates env server_addr)) (\<lambda>candidates.
     q_then (q_of (config_ok env)) (\<lambda>_.
     q_then (dial_first env ''astralane'' candidates ''Failed to connect to Astralane QUIC server'') (\<lambda>conn.
     q_then (\<lambda>s. set_conn conn (s\<lparr>q_next := 0\<rparr>)) (\<lambda>_.
     q_of (Inr candidates)))))"

text \<open>Every candidate once, from the next one on, around the list, which a client that connected never has empty.\<close>

definition candidate_order :: "socket_addr list \<Rightarrow> u64 \<Rightarrow> socket_addr list" where
  "candidate_order candidates idx =
     (let total = length candidates; start = unat idx mod total
      in map (\<lambda>offset. candidates ! ((start + offset) mod total)) [0..<total])"

definition reconnect_next_candidate :: "quic_env \<Rightarrow> socket_addr list \<Rightarrow> nat qact" where
  "reconnect_next_candidate env candidates s =
     dial_first env ''astralane'' (candidate_order candidates (q_next s)) ''Failed to reconnect to Astralane QUIC server''
       (s\<lparr>q_next := q_next s + 1\<rparr>)"

definition astralane_ensure :: "quic_env \<Rightarrow> socket_addr list \<Rightarrow> nat qact" where
  "astralane_ensure env candidates s =
     (case close_reason_of env s of
        None \<Rightarrow> (Inr (q_conn s), s)
      | Some (ApplicationClosed code) \<Rightarrow>
          if code \<noteq> ERROR_CODE_OK then (Inl (''Server closed connection: '' @ describe (code mod 2 ^ 32)), s)
          else q_then (reconnect_next_candidate env candidates) (\<lambda>conn. q_then (set_conn conn) (\<lambda>_. q_of (Inr conn))) s
      | Some OtherClose \<Rightarrow> q_then (reconnect_next_candidate env candidates) (\<lambda>conn. q_then (set_conn conn) (\<lambda>_. q_of (Inr conn))) s)"

definition astralane_quic_submit :: "quic_env \<Rightarrow> socket_addr list \<Rightarrow> u8 list \<Rightarrow> unit qact" where
  "astralane_quic_submit env candidates transaction_bytes =
     (if length transaction_bytes > MAX_TRANSACTION_SIZE then q_of (Inl ''Transaction too large'')
      else q_then (astralane_ensure env candidates) (\<lambda>conn. try_send_bytes env conn transaction_bytes))"

definition astralane_reconnect :: "quic_env \<Rightarrow> socket_addr list \<Rightarrow> unit qact" where
  "astralane_reconnect env candidates s =
     (if close_reason_of env s \<noteq> None then q_then (reconnect_next_candidate env candidates) set_conn s else (Inr (), s))"

definition is_connected :: "quic_env \<Rightarrow> quic \<Rightarrow> bool" where
  "is_connected env s \<longleftrightarrow> close_reason_of env s = None"

definition quic_close :: "quic \<Rightarrow> quic" where
  "quic_close s = note_event (Closed (q_conn s)) s"

section \<open>Soyas\<close>

text \<open>
  A reconnection gives up at once when another sender is already reconnecting; \<open>busy\<close> says so.
\<close>

record tpu_client =
  tc_addr :: socket_addr

definition SOYAS_SERVER :: string where "SOYAS_SERVER = ''soyas-landing''"

definition soyas_new :: "quic_env \<Rightarrow> (string \<Rightarrow> string option) \<Rightarrow> string \<Rightarrow> string \<Rightarrow> tpu_client qact" where
  "soyas_new env bad_key endpoint_string api_key =
     q_then (q_of (case bad_key api_key of Some e \<Rightarrow> Inl e | None \<Rightarrow> Inr ())) (\<lambda>_.
     q_then (q_of (config_ok env)) (\<lambda>_.
     q_then (q_of (first_addr env endpoint_string)) (\<lambda>addr.
     q_then (dial env addr SOYAS_SERVER) (\<lambda>conn.
     q_then (set_conn conn) (\<lambda>_. q_of (Inr \<lparr>tc_addr = addr\<rparr>))))))"

definition soyas_reconnect :: "quic_env \<Rightarrow> bool \<Rightarrow> tpu_client \<Rightarrow> unit qact" where
  "soyas_reconnect env busy c =
     (if busy then q_of (Inl ''operation would block'')
      else q_then (dial env (tc_addr c) SOYAS_SERVER) set_conn)"

definition soyas_submit :: "quic_env \<Rightarrow> bool \<Rightarrow> tpu_client \<Rightarrow> u8 list \<Rightarrow> unit qact" where
  "soyas_submit env busy c serialized_tx s =
     (case try_send_bytes env (q_conn s) serialized_tx s of
        (Inr u, s') \<Rightarrow> (Inr u, s')
      | (Inl e, s') \<Rightarrow>
          q_then (soyas_reconnect env busy c) (\<lambda>_ t. try_send_bytes env (q_conn t) serialized_tx t) s')"

section \<open>Speedlanding\<close>

definition SPEED_SERVER :: string where "SPEED_SERVER = ''speed-landing''"

definition speedlanding_new :: "quic_env \<Rightarrow> (string \<Rightarrow> string option) \<Rightarrow> string \<Rightarrow> string \<Rightarrow> tpu_client qact" where
  "speedlanding_new env bad_key endpoint_string api_key =
     q_then (q_of (case bad_key api_key of Some e \<Rightarrow> Inl e | None \<Rightarrow> Inr ())) (\<lambda>_.
     q_then (q_of (config_ok env)) (\<lambda>_.
     q_then (q_of (first_addr env endpoint_string)) (\<lambda>addr.
     q_then (dial env addr SPEED_SERVER) (\<lambda>conn.
     q_then (set_conn conn) (\<lambda>_. q_of (Inr \<lparr>tc_addr = addr\<rparr>))))))"

definition speedlanding_ensure_connected :: "quic_env \<Rightarrow> tpu_client \<Rightarrow> nat qact" where
  "speedlanding_ensure_connected env c s =
     (if close_reason_of env s = None then (Inr (q_conn s), s)
      else q_then (dial env (tc_addr c) SPEED_SERVER) (\<lambda>conn. q_then (set_conn conn) (\<lambda>_. q_of (Inr conn))) s)"

definition speedlanding_submit :: "quic_env \<Rightarrow> tpu_client \<Rightarrow> u8 list \<Rightarrow> unit qact" where
  "speedlanding_submit env c payload =
     q_then (speedlanding_ensure_connected env c) (\<lambda>conn s.
       case try_send_bytes env conn payload s of
         (Inr u, s') \<Rightarrow> (Inr u, s')
       | (Inl e, s') \<Rightarrow> q_then (speedlanding_ensure_connected env c) (\<lambda>conn. try_send_bytes env conn payload) s')"

section \<open>Transactions\<close>

datatype quic_client = Node1Quic node1_quic_client | AstralaneQuic "socket_addr list" | Soyas bool tpu_client | Speedlanding tpu_client

fun quic_submit :: "quic_env \<Rightarrow> quic_client \<Rightarrow> u8 list \<Rightarrow> unit qact" where
  "quic_submit env (Node1Quic c) = node1_quic_submit env c"
| "quic_submit env (AstralaneQuic cs) = astralane_quic_submit env cs"
| "quic_submit env (Soyas busy c) = soyas_submit env busy c"
| "quic_submit env (Speedlanding c) = speedlanding_submit env c"

text \<open>Speedlanding serialises into a buffer of the pool, which goes back when the transaction has been dealt with.\<close>

definition with_bytes :: "'t codec \<Rightarrow> quic_client \<Rightarrow> 't \<Rightarrow> (u8 list \<Rightarrow> unit qact) \<Rightarrow> unit qact" where
  "with_bytes cd c tx f s =
     (case c of
        Speedlanding _ \<Rightarrow>
          (case serialize_transaction_bincode_sync cd tx (q_pool s) of
             (Inl e, pool) \<Rightarrow> (Inl e, s\<lparr>q_pool := pool\<rparr>)
           | (Inr (bytes, _), pool) \<Rightarrow>
               (case f bytes (s\<lparr>q_pool := pool\<rparr>) of (r, s') \<Rightarrow> (r, s'\<lparr>q_pool := guard_drop bytes (q_pool s')\<rparr>)))
      | _ \<Rightarrow> (case bincode cd tx of Inl e \<Rightarrow> (Inl e, s) | Inr bytes \<Rightarrow> f bytes s))"

definition quic_send :: "'t send_env \<Rightarrow> quic_env \<Rightarrow> quic_client \<Rightarrow> 't \<Rightarrow> bool \<Rightarrow> quic \<Rightarrow> unit reply \<times> quic" where
  "quic_send senv env c tx wait_confirmation s =
     (case with_bytes (env_codec senv) c tx (quic_submit env c) s of
        (Inl e, s') \<Rightarrow> (Undelivered (OtherError e), s')
      | (Inr _, s') \<Rightarrow>
          (case env_confirm senv (tx_signature (env_codec senv) tx) wait_confirmation of
             None \<Rightarrow> (Hangs, s')
           | Some (Inl e) \<Rightarrow> (Undelivered e, s')
           | Some (Inr _) \<Rightarrow> (Delivered (), s')))"

fun quic_send_transactions :: "'t send_env \<Rightarrow> quic_env \<Rightarrow> quic_client \<Rightarrow> 't list \<Rightarrow> bool \<Rightarrow> quic \<Rightarrow> unit reply \<times> quic" where
  "quic_send_transactions senv env c [] wait_confirmation s = (Delivered (), s)"
| "quic_send_transactions senv env c (tx # txs) wait_confirmation s =
     (case quic_send senv env c tx wait_confirmation s of
        (Delivered _, s') \<Rightarrow> quic_send_transactions senv env c txs wait_confirmation s'
      | (r, s') \<Rightarrow> (r, s'))"

section \<open>Steps and traces\<close>

lemma q_then_simps [simp]:
  "q_then (q_of (Inr a)) f = f a" "q_then (q_of (Inl e)) f = q_of (Inl e)"
  by (simp_all add: fun_eq_iff q_then_def q_of_def)

lemma q_then_Inr: "q_then m f s = (Inr b, s') \<longleftrightarrow> (\<exists>a t. m s = (Inr a, t) \<and> f a t = (Inr b, s'))"
  by (auto simp: q_then_def split: prod.splits sum.splits)

lemma note_event_simps [simp]:
  "q_trace (note_event e s) = q_trace s @ [e]" "q_conn (note_event e s) = q_conn s" "q_pool (note_event e s) = q_pool s"
  "q_next (note_event e s) = q_next s"
  by (simp_all add: note_event_def)

text \<open>An operation of a client that only appends to the trace and leaves the buffers alone.\<close>

definition appends :: "'a qact \<Rightarrow> bool" where
  "appends m \<longleftrightarrow> (\<forall>s. prefix (q_trace s) (q_trace (snd (m s))) \<and> q_pool (snd (m s)) = q_pool s)"

named_theorems appends_rules

lemma appends_then [appends_rules]: "appends m \<Longrightarrow> (\<And>a. appends (f a)) \<Longrightarrow> appends (q_then m f)"
proof (unfold appends_def, intro allI)
  fix s
  assume m: "\<forall>s. prefix (q_trace s) (q_trace (snd (m s))) \<and> q_pool (snd (m s)) = q_pool s"
    and f: "\<And>a. \<forall>s. prefix (q_trace s) (q_trace (snd (f a s))) \<and> q_pool (snd (f a s)) = q_pool s"
  obtain r t where t: "m s = (r, t)" by (cases "m s")
  then have "prefix (q_trace s) (q_trace t)" "q_pool t = q_pool s" using m [rule_format, of s] by simp_all
  then show "prefix (q_trace s) (q_trace (snd (q_then m f s))) \<and> q_pool (snd (q_then m f s)) = q_pool s"
    using t f [rule_format, of t] by (cases r) (auto simp: q_then_def intro: prefix_order.trans)
qed

lemma appends_basic [appends_rules]:
  "appends (q_of r)" "appends (set_conn conn)" "appends (dial env addr name)" "appends (bi_stream env conn bytes)"
  "appends (try_send_bytes env conn bytes)"
  by (auto simp: appends_def q_of_def set_conn_def dial_def bi_stream_def try_send_bytes_def split: option.split sum.split)

lemma appends_case_prod [appends_rules]: "(\<And>a b. appends (f a b)) \<Longrightarrow> appends (case_prod f p)"
  by (cases p) simp

lemma appends_authenticate [appends_rules]: "appends (authenticate env conn key)"
  unfolding authenticate_def by (intro appends_rules)

lemma appends_node1_ensure [appends_rules]: "appends (node1_ensure_connected env c)"
proof -
  have "appends (q_then (q_of (first_addr env (nq_server_addr c))) (\<lambda>addr. q_then (dial env addr (nq_server_name c)) (\<lambda>conn.
      q_then (authenticate env conn (nq_api_key_uuid c)) (\<lambda>_. q_then (set_conn conn) (\<lambda>_. q_of (Inr conn))))))"
    by (intro appends_rules)
  then show ?thesis by (auto simp: appends_def node1_ensure_connected_def)
qed

lemma appends_dial_first [appends_rules]: "appends (dial_first env name as e)"
proof (induction as arbitrary: e)
  case (Cons a as)
  then show ?case
    using appends_basic(3) [of env a name]
    by (auto simp: appends_def split: prod.split sum.split intro: prefix_order.trans)
       (metis prefix_order.trans snd_conv)+
qed (simp add: appends_rules)

lemma appends_astralane_ensure [appends_rules]: "appends (astralane_ensure env cs)"
proof -
  have "appends (reconnect_next_candidate env cs)"
    unfolding appends_def reconnect_next_candidate_def
  proof
    show "prefix (q_trace s) (q_trace (snd (dial_first env name as e (s\<lparr>q_next := q_next s + 1\<rparr>))))
      \<and> q_pool (snd (dial_first env name as e (s\<lparr>q_next := q_next s + 1\<rparr>))) = q_pool s" for s name as e
      using appends_dial_first [unfolded appends_def, rule_format, of "s\<lparr>q_next := q_next s + 1\<rparr>" env name as e] by simp
  qed
  then have "appends (q_then (reconnect_next_candidate env cs) (\<lambda>conn. q_then (set_conn conn) (\<lambda>_. q_of (Inr conn))))"
    by (intro appends_rules)
  then show ?thesis by (auto simp: appends_def astralane_ensure_def split: option.split close_reason.split)
qed

lemma appends_speedlanding_ensure [appends_rules]: "appends (speedlanding_ensure_connected env c)"
proof -
  have "appends (q_then (dial env (tc_addr c) SPEED_SERVER) (\<lambda>conn. q_then (set_conn conn) (\<lambda>_. q_of (Inr conn))))"
    by (intro appends_rules)
  then show ?thesis by (auto simp: appends_def speedlanding_ensure_connected_def)
qed

text \<open>A second attempt after a failed one.\<close>

lemma appends_retry: "appends m \<Longrightarrow> appends m' \<Longrightarrow> appends (\<lambda>s. case m s of (Inr a, s') \<Rightarrow> (Inr a, s') | (Inl e, s') \<Rightarrow> m' s')"
  by (auto simp: appends_def split: prod.split sum.split) (metis prefix_order.trans snd_conv)+

lemma soyas_retry: "soyas_submit env busy t b =
    (\<lambda>s. case try_send_bytes env (q_conn s) b s of (Inr a, s') \<Rightarrow> (Inr a, s')
      | (Inl e, s') \<Rightarrow> q_then (soyas_reconnect env busy t) (\<lambda>_ s. try_send_bytes env (q_conn s) b s) s')"
  by (simp add: fun_eq_iff soyas_submit_def split: prod.split sum.split)

lemma appends_submit:
  "appends (node1_quic_submit env n b)" "appends (astralane_quic_submit env cs b)" "appends (soyas_submit env busy t b)"
  "appends (speedlanding_submit env t b)"
proof -
  show "appends (node1_quic_submit env n b)"
    by (auto simp: node1_quic_submit_def send_transaction_bytes_def intro!: appends_rules)
  show "appends (astralane_quic_submit env cs b)"
    by (auto simp: astralane_quic_submit_def intro!: appends_rules)
  have here: "appends (\<lambda>s. try_send_bytes env (q_conn s) b s)" for b using appends_basic(5) by (auto simp: appends_def)
  have "appends (q_then (soyas_reconnect env busy t) (\<lambda>_ s. try_send_bytes env (q_conn s) b s))"
    by (auto simp: soyas_reconnect_def intro!: appends_rules here)
  from appends_retry [OF here this] show "appends (soyas_submit env busy t b)"
    unfolding soyas_retry .
  have "appends (q_then (speedlanding_ensure_connected env t) (\<lambda>conn. try_send_bytes env conn b))" by (intro appends_rules)
  from appends_retry [OF appends_basic(5) this] show "appends (speedlanding_submit env t b)"
    unfolding speedlanding_submit_def by (intro appends_rules)
qed

section \<open>What a success means\<close>

text \<open>The bytes that a stream carried to a peer that took them: written and finished, or answered with the status 200.\<close>

fun delivered_bytes :: "quic_event \<Rightarrow> u8 list option" where
  "delivered_bytes (UniStream conn b) = Some b"
| "delivered_bytes (BiStream conn b back) = (case read_response back of Inr (status, _) \<Rightarrow> if status = 200 then Some b else None | Inl _ \<Rightarrow> None)"
| "delivered_bytes _ = None"

lemma sent_bytes: "try_send_bytes env conn b s = (Inr (), s') \<Longrightarrow> q_trace s' = q_trace s @ [UniStream conn b]"
  by (auto simp: try_send_bytes_def split: option.splits)

lemma appends_extends: "appends m \<Longrightarrow> m s = (r, s') \<Longrightarrow> \<exists>mid. q_trace s' = q_trace s @ mid"
  by (metis appends_def prefix_def snd_conv)

text \<open>
  The contract of a channel: it only appends to the trace, and a success ends with a stream that carried the bytes.
\<close>

locale quic_channel =
  fixes env :: quic_env and c :: quic_client
  assumes keeps: "appends (quic_submit env c b)"
    and carries: "quic_submit env c b s = (Inr (), s') \<Longrightarrow> \<exists>mid e. q_trace s' = q_trace s @ mid @ [e] \<and> delivered_bytes e = Some b"
begin

lemma with_bytes_keeps: "prefix (q_trace s) (q_trace (snd (with_bytes cd c tx (quic_submit env c) s)))"
  using keeps by (auto simp: with_bytes_def appends_def split: quic_client.split prod.split sum.split)
    (metis quic.select_convs(4) quic.surjective quic.update_convs(3) snd_conv)+

lemma with_bytes_carries:
  assumes "with_bytes cd c tx (quic_submit env c) s = (Inr (), s')"
  shows "\<exists>b mid e. bincode cd tx = Inr b \<and> q_trace s' = q_trace s @ mid @ [e] \<and> delivered_bytes e = Some b"
proof (cases "\<exists>t. c = Speedlanding t")
  case True
  obtain b sig pool t where b: "serialize_transaction_bincode_sync cd tx (q_pool s) = (Inr (b, sig), pool)"
      and t: "quic_submit env c b (s\<lparr>q_pool := pool\<rparr>) = (Inr (), t)" and s': "s' = t\<lparr>q_pool := guard_drop b (q_pool t)\<rparr>"
    using assms True by (auto simp: with_bytes_def split: prod.splits sum.splits)
  have "bincode cd tx = Inr b"
    using b by (auto simp: serialize_transaction_bincode_sync_def serialize_zero_alloc_def Let_def split: prod.splits sum.splits)
  then show ?thesis using carries [OF t] s' by auto
next
  case False
  then show ?thesis using assms carries by (cases c) (auto simp: with_bytes_def split: sum.splits)
qed

lemma send_carries:
  assumes "quic_send senv env c tx wait s = (Delivered (), s')"
  shows "\<exists>b mid e sig. bincode (env_codec senv) tx = Inr b \<and> q_trace s' = q_trace s @ mid @ [e] \<and> delivered_bytes e = Some b
    \<and> env_confirm senv (tx_signature (env_codec senv) tx) wait = Some (Inr sig)"
proof -
  obtain sig where "with_bytes (env_codec senv) c tx (quic_submit env c) s = (Inr (), s')"
      "env_confirm senv (tx_signature (env_codec senv) tx) wait = Some (Inr sig)"
    using assms by (auto simp: quic_send_def case_unit_Unity split: prod.splits sum.splits option.splits)
  then show ?thesis using with_bytes_carries [of "env_codec senv" tx s s'] by auto
qed

lemma batch_carries:
  assumes "quic_send_transactions senv env c txs wait s = (Delivered (), s')"
  shows "\<exists>bs new. map (bincode (env_codec senv)) txs = map Inr bs \<and> q_trace s' = q_trace s @ new \<and> subseq (map Some bs) (map delivered_bytes new)"
    "list_all (\<lambda>tx. \<exists>sig. env_confirm senv (tx_signature (env_codec senv) tx) wait = Some (Inr sig)) txs"
proof -
  show "list_all (\<lambda>tx. \<exists>sig. env_confirm senv (tx_signature (env_codec senv) tx) wait = Some (Inr sig)) txs"
    using assms
  proof (induction txs arbitrary: s)
    case (Cons tx txs)
    then show ?case using send_carries [of senv tx wait s] by (auto simp: case_unit_Unity split: prod.splits reply.splits)
  qed simp
  show "\<exists>bs new. map (bincode (env_codec senv)) txs = map Inr bs \<and> q_trace s' = q_trace s @ new \<and> subseq (map Some bs) (map delivered_bytes new)"
  using assms
proof (induction txs arbitrary: s)
  case (Cons tx txs)
  obtain t where t: "quic_send senv env c tx wait s = (Delivered (), t)" "quic_send_transactions senv env c txs wait t = (Delivered (), s')"
    using Cons.prems by (auto simp: case_unit_Unity split: prod.splits reply.splits)
  obtain b mid e where b: "bincode (env_codec senv) tx = Inr b" "q_trace t = q_trace s @ mid @ [e]" "delivered_bytes e = Some b"
    using send_carries [OF t(1)] by blast
  obtain bs new where bs: "map (bincode (env_codec senv)) txs = map Inr bs" "q_trace s' = q_trace t @ new"
      "subseq (map Some bs) (map delivered_bytes new)"
    using Cons.IH [OF t(2)] by blast
  have "subseq (map Some (b # bs)) (map delivered_bytes (mid @ e # new))"
    using bs(3) b(3) by (simp add: list_emb_append2)
  then show ?case using b bs by (intro exI [of _ "b # bs"] exI [of _ "mid @ e # new"]) simp
  qed (auto intro: exI [of _ "[]"])
qed

end

interpretation node1_quic: quic_channel env "Node1Quic n" for env n
proof
  show "appends (quic_submit env (Node1Quic n) b)" for b by (simp add: appends_submit)
  fix b s s'
  assume "quic_submit env (Node1Quic n) b s = (Inr (), s')"
  then obtain conn t ans msg where t: "node1_ensure_connected env n s = (Inr conn, t)"
      and "bi_stream env conn b t = (Inr ans, s')" "read_response ans = Inr (200, msg)"
    by (auto simp: node1_quic_submit_def send_transaction_bytes_def q_then_Inr q_of_def split: if_splits)
  then have "q_trace s' = q_trace t @ [BiStream conn b ans]" "delivered_bytes (BiStream conn b ans) = Some b"
    by (auto simp: bi_stream_def split: sum.splits)
  then show "\<exists>mid e. q_trace s' = q_trace s @ mid @ [e] \<and> delivered_bytes e = Some b"
    using appends_extends [OF appends_node1_ensure t] by auto
qed

interpretation astralane_quic: quic_channel env "AstralaneQuic cs" for env cs
proof
  show "appends (quic_submit env (AstralaneQuic cs) b)" for b by (simp add: appends_submit)
  fix b s s'
  assume "quic_submit env (AstralaneQuic cs) b s = (Inr (), s')"
  then obtain conn t where t: "astralane_ensure env cs s = (Inr conn, t)" "try_send_bytes env conn b t = (Inr (), s')"
    by (auto simp: astralane_quic_submit_def q_then_Inr q_of_def split: if_splits)
  then show "\<exists>mid e. q_trace s' = q_trace s @ mid @ [e] \<and> delivered_bytes e = Some b"
    using appends_extends [OF appends_astralane_ensure t(1)] sent_bytes [OF t(2)] by auto
qed

text \<open>The two channels that try a second time.\<close>

lemma retry_carries:
  assumes "appends m" "appends f"
    and m: "\<And>s s'. m s = (Inr (), s') \<Longrightarrow> \<exists>mid e. q_trace s' = q_trace s @ mid @ [e] \<and> delivered_bytes e = Some b"
    and f: "\<And>s s'. f s = (Inr (), s') \<Longrightarrow> \<exists>mid e. q_trace s' = q_trace s @ mid @ [e] \<and> delivered_bytes e = Some b"
    and run: "(case m s of (Inr a, s') \<Rightarrow> (Inr a, s') | (Inl e, s') \<Rightarrow> f s') = (Inr (), s')"
  shows "\<exists>mid e. q_trace s' = q_trace s @ mid @ [e] \<and> delivered_bytes e = Some b"
proof (cases "m s")
  case (Pair r t)
  show ?thesis
  proof (cases r)
    case (Inl e)
    then have "f t = (Inr (), s')" using run Pair by simp
    then show ?thesis using f appends_extends [OF assms(1) Pair] by fastforce
  qed (use run Pair m in auto)
qed

lemma then_sends:
  "appends m \<Longrightarrow> q_then m (\<lambda>a s. try_send_bytes env (g a s) b s) s = (Inr (), s') \<Longrightarrow>
     \<exists>mid e. q_trace s' = q_trace s @ mid @ [e] \<and> delivered_bytes e = Some b"
  by (auto simp: q_then_Inr dest!: sent_bytes) (fastforce dest: appends_extends)

lemma here_sends:
  "try_send_bytes env conn b s = (Inr (), s') \<Longrightarrow> \<exists>mid e. q_trace s' = q_trace s @ mid @ [e] \<and> delivered_bytes e = Some b"
  by (auto dest!: sent_bytes)

interpretation soyas: quic_channel env "Soyas busy t" for env busy t
proof
  show "appends (quic_submit env (Soyas busy t) b)" for b by (simp add: appends_submit)
  fix b s s'
  assume run: "quic_submit env (Soyas busy t) b s = (Inr (), s')"
  have here: "appends (\<lambda>s. try_send_bytes env (q_conn s) b s)" using appends_basic(5) by (auto simp: appends_def)
  have again: "appends (soyas_reconnect env busy t)" by (auto simp: soyas_reconnect_def intro!: appends_rules)
  show "\<exists>mid e. q_trace s' = q_trace s @ mid @ [e] \<and> delivered_bytes e = Some b"
    by (rule retry_carries [OF here appends_then [OF again here] here_sends then_sends [OF again] run [simplified soyas_retry quic_submit.simps]])
qed

interpretation speedlanding: quic_channel env "Speedlanding t" for env t
proof
  show "appends (quic_submit env (Speedlanding t) b)" for b by (simp add: appends_submit)
  fix b s s'
  assume run: "quic_submit env (Speedlanding t) b s = (Inr (), s')"
  then obtain conn u where u: "speedlanding_ensure_connected env t s = (Inr conn, u)"
      and again: "(case try_send_bytes env conn b u of (Inr a, s') \<Rightarrow> (Inr a, s')
        | (Inl e, s') \<Rightarrow> q_then (speedlanding_ensure_connected env t) (\<lambda>conn. try_send_bytes env conn b) s') = (Inr (), s')"
    unfolding quic_submit.simps speedlanding_submit_def q_then_Inr by blast
  have "appends (q_then (speedlanding_ensure_connected env t) (\<lambda>conn. try_send_bytes env conn b))" by (intro appends_rules)
  then have "\<exists>mid e. q_trace s' = q_trace u @ mid @ [e] \<and> delivered_bytes e = Some b"
    by (rule retry_carries [OF appends_basic(5) _ here_sends then_sends [OF appends_speedlanding_ensure] again])
  then show "\<exists>mid e. q_trace s' = q_trace s @ mid @ [e] \<and> delivered_bytes e = Some b"
    using appends_extends [OF appends_speedlanding_ensure u] by fastforce
qed

text \<open>
  A batch that a QUIC channel reports as sent went out in full and in order: the trace gained, for each transaction in turn,
  a stream that carried its bytes and was taken by the peer, and every transaction was confirmed as asked.
\<close>

theorem quic_batch_delivery:
  assumes "quic_send_transactions senv env c txs wait s = (Delivered (), s')"
  shows "(\<exists>bs new. map (bincode (env_codec senv)) txs = map Inr bs \<and> q_trace s' = q_trace s @ new
      \<and> subseq (map Some bs) (map delivered_bytes new))
    \<and> list_all (\<lambda>tx. \<exists>sig. env_confirm senv (tx_signature (env_codec senv) tx) wait = Some (Inr sig)) txs"
proof -
  have "quic_channel env c"
    using node1_quic.quic_channel_axioms astralane_quic.quic_channel_axioms soyas.quic_channel_axioms speedlanding.quic_channel_axioms
    by (cases c) auto
  then show ?thesis using quic_channel.batch_carries [OF _ assms] by blast
qed

definition calm_quic :: quic_env where
  "calm_quic = \<lparr>qe_config = None, qe_resolve = (\<lambda>_. Inr [(V4 1 2 3 4, 5)]), qe_parse_addr = (\<lambda>_. None), qe_uuid = (\<lambda>_. Inr (replicate 16 7)),
     qe_connect = (\<lambda>_ _ _. None), qe_close_reason = (\<lambda>_ _. None),
     qe_bi = (\<lambda>_ _ b. Inr (if b = replicate 16 7 then [0] else [0, 200, 0, 0, 0, 0])), qe_uni = (\<lambda>_ _ _. None)\<rparr>"

definition fresh_quic :: quic where
  "fresh_quic = \<lparr>q_conn = 0, q_next = 0, q_pool = SERIALIZER, q_trace = []\<rparr>"

theorem quic_batch_delivery_witness:
  "\<exists>new. q_trace (snd (quic_send_transactions (answering 200 ''fine'') calm_quic (Soyas False \<lparr>tc_addr = (V4 1 2 3 4, 5)\<rparr>) [3, 4] False fresh_quic)) = new
     \<and> subseq [Some [3, 1], Some [4, 1]] (map delivered_bytes new)"
proof -
  obtain s' where run: "quic_send_transactions (answering 200 ''fine'') calm_quic (Soyas False \<lparr>tc_addr = (V4 1 2 3 4, 5)\<rparr>) [3, 4] False fresh_quic = (Delivered (), s')"
    by (simp add: quic_send_def with_bytes_def soyas_submit_def try_send_bytes_def calm_quic_def answering_def sample_codec_def
        poll_transaction_confirmation_def poll_any_transaction_confirmation_def)
  from quic_batch_delivery [OF this] obtain bs new where bs: "map (bincode (env_codec (answering 200 ''fine''))) [3, 4] = map Inr bs"
      "q_trace s' = q_trace fresh_quic @ new" "subseq (map Some bs) (map delivered_bytes new)" by blast
  have "bs = [[3, 1], [4, 1]]" using bs(1) by (auto simp: answering_def sample_codec_def)
  then show ?thesis using run bs by (simp add: fresh_quic_def)
qed

section \<open>Node1: authentication\<close>

lemma be_value_rev: "be_value bs = le_value (rev bs)"
proof (induction bs rule: rev_induct)
  case (snoc b bs)
  then show ?case by (simp add: be_value_def)
qed (simp add: be_value_def)

text \<open>A response as the server writes it: status, length and message, the integers with their high byte first.\<close>

definition response_bytes :: "u16 \<Rightarrow> u32 \<Rightarrow> u8 list \<Rightarrow> u8 list" where
  "response_bytes status len msg = rev (to_le_bytes status) @ rev (to_le_bytes len) @ msg"

text \<open>
  A response is read back as it was written, also with bytes after it; one that is cut short anywhere is an error.
\<close>

theorem node1_response_roundtrip:
  assumes "length msg < 2 ^ 32"
  shows "read_response (response_bytes status (word_of_nat (length msg)) msg @ junk) = Inr (status, msg)
    \<and> (n < length (response_bytes status (word_of_nat (length msg)) msg)
        \<longrightarrow> (\<exists>e. read_response (take n (response_bytes status (word_of_nat (length msg)) msg)) = Inl e))"
proof -
  define len :: u32 where "len = word_of_nat (length msg)"
  have u: "unat len = length msg" using assms by (simp add: len_def unat_of_nat_small)
  have le: "le_value (to_le_bytes status) = unat status" "le_value (to_le_bytes len) = length msg"
    using le_value_to_le_bytes [of status] le_value_to_le_bytes [of len] u by simp_all
  have "n < length (response_bytes status len msg) \<Longrightarrow> \<exists>e. read_response (take n (response_bytes status len msg)) = Inl e"
  proof -
    assume n: "n < length (response_bytes status len msg)"
    show ?thesis
    proof (cases "n < 6")
      case False
      then obtain k where k: "n = 6 + k" using le_Suc_ex [of 6 n] by auto
      then have "k < length msg" using n by (simp add: response_bytes_def)
      then show ?thesis
        using k le by (auto simp: read_response_def read_exact_def response_bytes_def be_value_rev Let_def)
    next
      case True
      then have "length (take n (response_bytes status len msg)) < 6" by simp
      then show ?thesis by (simp add: read_response_def read_exact_def)
    qed
  qed
  then show ?thesis
    using le by (auto simp: read_response_def read_exact_def response_bytes_def be_value_rev Let_def len_def [symmetric])
qed

theorem node1_response_roundtrip_witness:
  "read_response (response_bytes 200 2 [111, 107] @ [9]) = Inr (200, [111, 107])"
  using node1_response_roundtrip [of "[111, 107]" 200 "[9]" 0] by simp

text \<open>A connection is authenticated once the server has answered the key with a zero byte on one of its streams.\<close>

definition authenticated :: "u8 list \<Rightarrow> quic_event list \<Rightarrow> nat \<Rightarrow> bool" where
  "authenticated key tr conn \<longleftrightarrow> (\<exists>rest. BiStream conn key (0 # rest) \<in> set tr)"

fun bi_payload :: "quic_event \<Rightarrow> (nat \<times> u8 list) option" where
  "bi_payload (BiStream conn b _) = Some (conn, b)"
| "bi_payload (BiFailed conn b) = Some (conn, b)"
| "bi_payload _ = None"

definition stream_ok :: "u8 list \<Rightarrow> quic_event list \<Rightarrow> quic_event \<Rightarrow> bool" where
  "stream_ok key tr e \<longleftrightarrow> (\<forall>conn b. bi_payload e = Some (conn, b) \<longrightarrow>
     b = key \<or> authenticated key tr conn \<and> length b \<le> NODE1_MAX_TX_SIZE)"

definition streams_ok :: "u8 list \<Rightarrow> quic_event list \<Rightarrow> bool" where
  "streams_ok key tr \<longleftrightarrow> (\<forall>pre e post. tr = pre @ e # post \<longrightarrow> stream_ok key pre e)"

lemma streams_ok_Nil: "streams_ok key []"
  by (simp add: streams_ok_def)

lemma streams_ok_snoc: "streams_ok key (tr @ [e]) \<longleftrightarrow> streams_ok key tr \<and> stream_ok key tr e"
proof
  assume all: "streams_ok key (tr @ [e])"
  then show "streams_ok key tr \<and> stream_ok key tr e"
    unfolding streams_ok_def by (metis append.assoc append_Cons append_Nil)
next
  assume "streams_ok key tr \<and> stream_ok key tr e"
  then show "streams_ok key (tr @ [e])"
    unfolding streams_ok_def by (metis append_butlast_last_id butlast.simps(2) butlast_append butlast_snoc last_ConsL last_appendR last_snoc list.distinct(1))
qed

lemma authenticated_mono: "authenticated key tr conn \<Longrightarrow> authenticated key (tr @ es) conn"
  by (auto simp: authenticated_def)

definition node1_inv :: "u8 list \<Rightarrow> quic \<Rightarrow> bool" where
  "node1_inv key s \<longleftrightarrow> streams_ok key (q_trace s) \<and> authenticated key (q_trace s) (q_conn s)"

lemma authenticate_ok:
  assumes "streams_ok key (q_trace s)" "authenticate env conn key s = (r, s')"
  shows "streams_ok key (q_trace s')" "q_conn s' = q_conn s" "\<exists>es. q_trace s' = q_trace s @ es" "r = Inr () \<Longrightarrow> authenticated key (q_trace s') conn"
proof -
  obtain e where e: "q_trace s' = q_trace s @ [e]" "q_conn s' = q_conn s" "bi_payload e = Some (conn, key)"
      "r = Inr () \<Longrightarrow> \<exists>rest. e = BiStream conn key (0 # rest)"
  proof (cases "qe_bi env (q_trace s) conn key")
    case (Inl x)
    then show ?thesis using assms(2) that [of "BiFailed conn key"] by (auto simp: authenticate_def q_then_def bi_stream_def)
  next
    case (Inr ans)
    have "\<exists>rest. ans = 0 # rest" if "r = Inr ()"
      using assms(2) Inr that by (cases ans) (auto simp: authenticate_def q_then_def bi_stream_def q_of_def read_exact_def split: if_splits)
    then show ?thesis
      using assms(2) Inr that [of "BiStream conn key ans"]
      by (auto simp: authenticate_def q_then_def bi_stream_def q_of_def read_exact_def split: if_splits)
  qed
  show "streams_ok key (q_trace s')" using assms(1) e by (simp add: streams_ok_snoc stream_ok_def)
  show "q_conn s' = q_conn s" "\<exists>es. q_trace s' = q_trace s @ es" using e by auto
  show "authenticated key (q_trace s') conn" if "r = Inr ()" using e that by (auto simp: authenticated_def)
qed

lemma dial_ok:
  assumes "dial env addr name s = (r, s')"
  shows "streams_ok key (q_trace s) \<Longrightarrow> streams_ok key (q_trace s')" "q_conn s' = q_conn s" "\<exists>es. q_trace s' = q_trace s @ es"
  using assms by (auto simp: dial_def streams_ok_snoc stream_ok_def split: option.splits)

lemma node1_ensure_inv:
  assumes "node1_inv (nq_api_key_uuid c) s" "node1_ensure_connected env c s = (r, s')"
  shows "node1_inv (nq_api_key_uuid c) s' \<and> (\<forall>conn. r = Inr conn \<longrightarrow> conn = q_conn s')"
proof (cases "close_reason_of env s = None")
  case True
  then show ?thesis using assms by (auto simp: node1_ensure_connected_def)
next
  case False
  show ?thesis
  proof (cases "first_addr env (nq_server_addr c)")
    case (Inl e)
    then show ?thesis using assms False by (auto simp: node1_ensure_connected_def q_of_def)
  next
    case (Inr addr)
    obtain r1 t where d: "dial env addr (nq_server_name c) s = (r1, t)" by fastforce
    note dok = dial_ok [OF d]
    have t: "node1_inv (nq_api_key_uuid c) t"
      using assms(1) dok authenticated_mono by (fastforce simp: node1_inv_def)
    show ?thesis
    proof (cases r1)
      case (Inl e)
      then show ?thesis using assms False Inr d t by (auto simp: node1_ensure_connected_def q_then_def q_of_def)
    next
      case conn: (Inr conn)
      obtain r2 u where a: "authenticate env conn (nq_api_key_uuid c) t = (r2, u)" by fastforce
      have "streams_ok (nq_api_key_uuid c) (q_trace t)" using t by (simp add: node1_inv_def)
      note aok = authenticate_ok [OF this a]
      have u: "node1_inv (nq_api_key_uuid c) u" using t aok authenticated_mono by (fastforce simp: node1_inv_def)
      then show ?thesis
        using assms False Inr d conn a aok
        by (cases r2) (auto simp: node1_ensure_connected_def q_then_def q_of_def set_conn_def node1_inv_def)
    qed
  qed
qed

lemma node1_submit_inv:
  assumes "node1_inv (nq_api_key_uuid c) s"
  shows "node1_inv (nq_api_key_uuid c) (snd (node1_quic_submit env c b s))"
proof (cases "length b > NODE1_MAX_TX_SIZE")
  case True
  then show ?thesis using assms by (simp add: node1_quic_submit_def send_transaction_bytes_def q_of_def)
next
  case False
  obtain r t where t: "node1_ensure_connected env c s = (r, t)" by fastforce
  note inv = node1_ensure_inv [OF assms t]
  show ?thesis
  proof (cases r)
    case (Inl e)
    then show ?thesis using False t inv by (simp add: node1_quic_submit_def send_transaction_bytes_def q_then_def)
  next
    case (Inr conn)
    have "node1_inv (nq_api_key_uuid c) (snd (bi_stream env conn b t))"
      using inv Inr False by (auto simp: bi_stream_def node1_inv_def streams_ok_snoc stream_ok_def authenticated_mono split: sum.split)
    then show ?thesis
      using False t Inr by (cases "bi_stream env conn b t")
        (auto simp: node1_quic_submit_def send_transaction_bytes_def q_then_def q_of_def split: sum.splits)
  qed
qed

definition node1_submit_all :: "quic_env \<Rightarrow> node1_quic_client \<Rightarrow> u8 list list \<Rightarrow> quic \<Rightarrow> quic" where
  "node1_submit_all env c = fold (\<lambda>b s. snd (node1_quic_submit env c b s))"

text \<open>
  C23: Node1 over QUIC never sends on a connection that has not been authenticated. From a client that connected, through any
  number of transactions, lost connections and failed reconnections, every stream carries the key itself, or a transaction
  of at most 1232 bytes on a connection whose server had accepted the key before.
\<close>

theorem node1_streams_authenticated:
  assumes "node1_quic_connect env server api_key s0 = (Inr c, s)" "q_trace s0 = []"
  shows "streams_ok (nq_api_key_uuid c) (q_trace (node1_submit_all env c txs s))
    \<and> authenticated (nq_api_key_uuid c) (q_trace (node1_submit_all env c txs s)) (q_conn (node1_submit_all env c txs s))"
proof -
  have "node1_inv (nq_api_key_uuid c) s"
  proof -
    obtain addr conn t u where "dial env addr (takeWhile (\<lambda>ch. ch \<noteq> CHR '':'') server) s0 = (Inr conn, t)"
        and a: "authenticate env conn (nq_api_key_uuid c) t = (Inr (), u)" and s: "s = u\<lparr>q_conn := conn\<rparr>"
      using assms(1) by (auto simp: node1_quic_connect_def q_then_Inr q_of_def set_conn_def)
    then have "streams_ok (nq_api_key_uuid c) (q_trace t)" using dial_ok(1) assms(2) streams_ok_Nil by metis
    from authenticate_ok [OF this a] s show ?thesis by (simp add: node1_inv_def)
  qed
  then have "node1_inv (nq_api_key_uuid c) (node1_submit_all env c txs s)"
    unfolding node1_submit_all_def by (induction txs arbitrary: s) (simp_all add: node1_submit_inv)
  then show ?thesis by (simp add: node1_inv_def)
qed

theorem node1_streams_authenticated_witness:
  "\<exists>c s. node1_quic_connect calm_quic ''host:16666'' ''key'' fresh_quic = (Inr c, s)
     \<and> streams_ok (nq_api_key_uuid c) (q_trace (node1_submit_all calm_quic c [[1, 2]] s))"
proof -
  obtain c s where "node1_quic_connect calm_quic ''host:16666'' ''key'' fresh_quic = (Inr c, s)"
    by (simp add: node1_quic_connect_def calm_quic_def first_addr_def config_ok_def dial_def authenticate_def q_then_def q_of_def
        bi_stream_def read_exact_def set_conn_def)
  then show ?thesis
    using node1_streams_authenticated [of calm_quic "''host:16666''" "''key''" fresh_quic c s "[[1, 2]]"] by (auto simp: fresh_quic_def)
qed

section \<open>Astralane: candidates\<close>

lemma candidate_order_rotate: "candidate_order cs idx = rotate (unat idx mod length cs) cs"
  by (rule nth_equalityI) (simp_all add: candidate_order_def Let_def nth_rotate)

lemma push_new_set:
  "set (foldl (\<lambda>cs a. if a \<in> set cs then cs else cs @ [a]) cs as) = set cs \<union> set as"
  "distinct cs \<Longrightarrow> distinct (foldl (\<lambda>cs a. if a \<in> set cs then cs else cs @ [a]) cs as)"
  "prefix cs (foldl (\<lambda>cs a. if a \<in> set cs then cs else cs @ [a]) cs as)"
proof (induction as arbitrary: cs)
  case (Cons a as)
  { case 1 show ?case using Cons(1) by auto }
  { case 2 then show ?case using Cons(2) by simp }
  { case 3 show ?case using Cons(3) [of "if a \<in> set cs then cs else cs @ [a]"]
      by (auto split: if_splits dest: append_prefixD) }
qed simp_all

definition recommended :: "string \<Rightarrow> socket_addr list" where
  "recommended server = (case parse_host_port server of None \<Rightarrow> [] | Some (host, port) \<Rightarrow> astralane_quic_ip_candidates host port)"

lemma recommended_distinct: "distinct (recommended server)"
  by (auto simp: recommended_def astralane_quic_ip_candidates_def split: option.split)

lemma dial_first_trace:
  assumes "dial_first env name as e s = (r, s')"
  shows "q_next s' = q_next s"
    "r = Inl e' \<Longrightarrow> q_trace s' = q_trace s @ map (\<lambda>a. DialFailed a name) as"
    "r = Inr conn \<Longrightarrow> \<exists>k < length as. q_trace s' = q_trace s @ map (\<lambda>a. DialFailed a name) (take k as) @ [Dialled (as ! k) name]
        \<and> conn = length (q_trace s) + k"
  using assms
proof (induction as arbitrary: e s)
  case (Cons a as)
  { case 1 then show ?case using Cons(1) by (cases "qe_connect env (q_trace s) a name") (fastforce simp: dial_def)+ }
  { case 2 then show ?case using Cons(2) by (cases "qe_connect env (q_trace s) a name") (fastforce simp: dial_def)+ }
  { case 3
    show ?case
    proof (cases "qe_connect env (q_trace s) a name")
      case None
      then show ?thesis using 3 by (intro exI [of _ 0]) (auto simp: dial_def)
    next
      case (Some x)
      then have "dial_first env name as x (note_event (DialFailed a name) s) = (r, s')" using 3(2) by (simp add: dial_def)
      from Cons(3) [OF 3(1) this] obtain k where "k < length as" "conn = Suc (length (q_trace s)) + k"
          "q_trace s' = (q_trace s @ [DialFailed a name]) @ map (\<lambda>a. DialFailed a name) (take k as) @ [Dialled (as ! k) name]" by auto
      then show ?thesis by (intro exI [of _ "Suc k"]) simp
    qed }
qed (auto simp: q_of_def)

text \<open>
  C28: Where an Astralane client connects to. The addresses it may use are never none and never repeated; they start with the
  recommended ones of the host and hold every address the resolver returned. A reconnection dials them in turn from the
  next one on, around the list, each at most once; it fails only when every one of them has failed, and the following
  reconnection starts one further.
\<close>

theorem astralane_reconnects:
  assumes "resolve_server_candidates env server = Inr cs"
  shows "cs \<noteq> [] \<and> distinct cs
    \<and> (qe_parse_addr env server = None \<longrightarrow> prefix (recommended server) cs
        \<and> (\<exists>addrs. qe_resolve env server = Inr addrs \<and> set cs = set (recommended server) \<union> set addrs))
    \<and> (let order = rotate (unat (q_next s) mod length cs) cs; (r, s') = reconnect_next_candidate env cs s
       in q_next s' = q_next s + 1
          \<and> (case r of
               Inl e \<Rightarrow> q_trace s' = q_trace s @ map (\<lambda>a. DialFailed a ''astralane'') order
             | Inr conn \<Rightarrow> \<exists>k < length cs. q_trace s' = q_trace s @ map (\<lambda>a. DialFailed a ''astralane'') (take k order)
                 @ [Dialled (order ! k) ''astralane''] \<and> conn = length (q_trace s) + k))"
proof (intro conjI)
  show "distinct cs"
    using assms push_new_set(2) [OF recommended_distinct, of server]
    by (auto simp: resolve_server_candidates_def recommended_def [symmetric] Let_def split: option.splits sum.splits if_splits)
  show found: "qe_parse_addr env server = None \<longrightarrow> prefix (recommended server) cs
      \<and> (\<exists>addrs. qe_resolve env server = Inr addrs \<and> set cs = set (recommended server) \<union> set addrs)"
    using assms push_new_set(1,3) [of "recommended server"]
    by (auto simp: resolve_server_candidates_def recommended_def [symmetric] Let_def split: sum.splits if_splits)
  show "cs \<noteq> []"
  proof (cases "qe_parse_addr env server")
    case None
    then show ?thesis
      using assms found push_new_set(1) [of "recommended server"]
      by (auto simp: resolve_server_candidates_def recommended_def [symmetric] Let_def split: sum.splits if_splits)
  qed (use assms in \<open>auto simp: resolve_server_candidates_def\<close>)
  obtain r s' where run: "reconnect_next_candidate env cs s = (r, s')" by fastforce
  note d = dial_first_trace [OF run [unfolded reconnect_next_candidate_def candidate_order_rotate]]
  show "let order = rotate (unat (q_next s) mod length cs) cs; (r, s') = reconnect_next_candidate env cs s
       in q_next s' = q_next s + 1
          \<and> (case r of
               Inl e \<Rightarrow> q_trace s' = q_trace s @ map (\<lambda>a. DialFailed a ''astralane'') order
             | Inr conn \<Rightarrow> \<exists>k < length cs. q_trace s' = q_trace s @ map (\<lambda>a. DialFailed a ''astralane'') (take k order)
                 @ [Dialled (order ! k) ''astralane''] \<and> conn = length (q_trace s) + k)"
    using d(1) d(2,3) run by (auto simp: Let_def split: sum.split)
qed

theorem astralane_reconnects_witness:
  "q_next (snd (reconnect_next_candidate calm_quic [(V4 1 2 3 4, 5)] fresh_quic)) = 1"
proof -
  have "resolve_server_candidates calm_quic ''host'' = Inr [(V4 1 2 3 4, 5)]"
    by (simp add: resolve_server_candidates_def parse_host_port_def rsplit_colon_def calm_quic_def)
  from astralane_reconnects [OF this, of fresh_quic] show ?thesis by (auto simp: Let_def split_beta fresh_quic_def)
qed

section \<open>Soyas: lost transactions\<close>

text \<open>
  While one sender of a Soyas client reconnects, a transaction whose own first attempt fails is given up: it is not tried on
  the connection that is being set up.
\<close>

theorem soyas_gives_up:
  assumes "qe_uni env (q_trace s) (q_conn s) b = Some e"
  shows "soyas_submit env True c b s = (Inl ''operation would block'', note_event (UniFailed (q_conn s) b) s)"
  using assms by (simp add: soyas_submit_def try_send_bytes_def soyas_reconnect_def q_of_def)

end
