(* ===== verification/Wallet.thy ===== *)
theory Wallet
  imports Client PoolLookup
begin

text \<open>
  The helpers of the client around a wallet (\<open>trading/common/utils.rs\<close>, \<open>utils/mod.rs\<close>), the reader of address lookup
  tables (\<open>common/address_lookup.rs\<close>) and the prices for display (\<open>utils/price/*.rs\<close>). The node is a record of answers;
  \<open>powi\<close> of a decimal base is a parameter.
\<close>

section \<open>Balances\<close>

record wallet_node = wallet_rpc +
  balance_of :: "pubkey \<Rightarrow> string + u64"
  token_amount :: "pubkey \<Rightarrow> string + (string + u64)"

text \<open>\<open>token_amount\<close> answers with the amount as parsed from its decimal string.\<close>

definition get_token_balance_with_options :: "chain_ext \<Rightarrow> wallet_node \<Rightarrow> pubkey \<Rightarrow> pubkey \<Rightarrow> pubkey \<Rightarrow> bool \<Rightarrow> (caches, u64) prog" where
  "get_token_balance_with_options ext rpc payer mint token_program use_seed =
     then_do (get_associated_token_address_with_program_id_fast_use_seed ext payer mint token_program use_seed) (\<lambda>ata.
     then_do (of_result (token_amount rpc ata)) (\<lambda>balance.
     of_result balance))"

definition utils_get_token_balance :: "chain_ext \<Rightarrow> wallet_node \<Rightarrow> pubkey \<Rightarrow> pubkey \<Rightarrow> (caches, u64) prog" where
  "utils_get_token_balance ext rpc payer mint = get_token_balance_with_options ext rpc payer mint TOKEN_PROGRAM False"

definition get_sol_balance :: "wallet_node \<Rightarrow> pubkey \<Rightarrow> (caches, u64) prog" where
  "get_sol_balance rpc account = of_result (balance_of rpc account)"

definition get_payer_sol_balance :: "wallet_node \<Rightarrow> trading_client \<Rightarrow> (caches, u64) prog" where
  "get_payer_sol_balance rpc c = get_sol_balance rpc (cl_payer c)"

definition get_payer_token_balance :: "chain_ext \<Rightarrow> wallet_node \<Rightarrow> trading_client \<Rightarrow> pubkey \<Rightarrow> (caches, u64) prog" where
  "get_payer_token_balance ext rpc c mint = utils_get_token_balance ext rpc (cl_payer c) mint"

definition get_payer_token_balance_with_program :: "chain_ext \<Rightarrow> wallet_node \<Rightarrow> trading_client \<Rightarrow> pubkey \<Rightarrow> pubkey \<Rightarrow> (caches, u64) prog" where
  "get_payer_token_balance_with_program ext rpc c mint token_program =
     get_token_balance_with_options ext rpc (cl_payer c) mint token_program (cl_use_seed_optimize c)"

section \<open>Transfers\<close>

definition confirmed :: "send_outcome \<Rightarrow> string + nat" where
  "confirmed r = (case r of Confirmed sig \<Rightarrow> Inr sig | SendError e \<Rightarrow> Inl e | SendTimeout \<Rightarrow> Inl ''timeout'')"

definition transfer_sol :: "chain_ext \<Rightarrow> tx_ext \<Rightarrow> wallet_node \<Rightarrow> pubkey \<Rightarrow> pubkey \<Rightarrow> u64 \<Rightarrow> (caches, unit) prog" where
  "transfer_sol ext tex rpc payer receive_wallet amount =
     (if amount = 0 then fail ''transfer_sol: Amount cannot be zero''
      else then_do (get_sol_balance rpc payer) (\<lambda>balance.
           if balance < amount then fail ''Insufficient balance''
           else then_do (of_result (latest_blockhash rpc 0)) (\<lambda>recent_blockhash.
                then_do (of_result (confirmed (send_and_confirm rpc 0
                  (legacy_transaction tex payer [ix_transfer ext payer receive_wallet amount] recent_blockhash)))) (\<lambda>_.
                ret ()))))"

definition close_token_account :: "chain_ext \<Rightarrow> tx_ext \<Rightarrow> wallet_node \<Rightarrow> pubkey \<Rightarrow> pubkey \<Rightarrow> (caches, unit) prog" where
  "close_token_account ext tex rpc payer mint =
     then_do (get_associated_token_address_with_program_id_fast ext payer mint TOKEN_PROGRAM) (\<lambda>ata.
     if \<not> account_exists rpc 0 ata then ret ()
     else then_do (of_result (latest_blockhash rpc 0)) (\<lambda>recent_blockhash.
          then_do (of_result (confirmed (send_and_confirm rpc 0
            (legacy_transaction tex payer [close_account TOKEN_PROGRAM ata payer payer [payer]] recent_blockhash)))) (\<lambda>_.
          ret ())))"

section \<open>Address lookup tables\<close>

text \<open>The addresses behind the header of 56 bytes, without those whose bytes are all zero.\<close>

function table_addresses :: "u8 list \<Rightarrow> pubkey list" where
  "table_addresses bs =
     (if length bs < 32 then []
      else (if take 32 bs \<noteq> replicate 32 0 then [word_of_nat (le_value (rev (take 32 bs)))] else [])
           @ table_addresses (drop 32 bs))"
  by auto
termination by (relation "measure length") auto

declare table_addresses.simps [simp del]

definition fetch_address_lookup_table_account :: "pool_rpc \<Rightarrow> pubkey \<Rightarrow> string + lookup_table" where
  "fetch_address_lookup_table_account rpc lookup_table_address =
     (case get_account rpc lookup_table_address of
        Inl e \<Rightarrow> Inl e
      | Inr (_, bs) \<Rightarrow>
          if length bs < 56 then Inl ''Address lookup table account data too short''
          else Inr (lookup_table_address, table_addresses (drop 56 bs)))"

section \<open>Prices\<close>

definition SOL_DECIMALS :: nat where "SOL_DECIMALS = 9"
definition DEFAULT_TOKEN_DECIMALS :: nat where "DEFAULT_TOKEN_DECIMALS = 6"

definition price_token_in_sol :: "u64 \<Rightarrow> u64 \<Rightarrow> f64" where
  "price_token_in_sol virtual_sol_reserves virtual_token_reserves =
     (let v_sol = f64_div (f64_of_u64 virtual_sol_reserves) (f64_of_nat 1000000000);
          v_tokens = f64_div (f64_of_u64 virtual_token_reserves) (f64_of_nat 1000000)
      in if f64_eq v_tokens (f64_of_nat 0) then f64_of_nat 0 else f64_div v_sol v_tokens)"

definition price_base_in_quote :: "(int \<Rightarrow> f64) \<Rightarrow> u64 \<Rightarrow> u64 \<Rightarrow> u8 \<Rightarrow> u8 \<Rightarrow> f64" where
  "price_base_in_quote ten_powi base_reserve quote_reserve base_decimals quote_decimals =
     (let base = f64_div (f64_of_u64 base_reserve) (ten_powi (int (unat base_decimals)));
          quote = f64_div (f64_of_u64 quote_reserve) (ten_powi (int (unat quote_decimals)))
      in if f64_eq base (f64_of_nat 0) then f64_of_nat 0 else f64_div quote base)"

definition price_quote_in_base :: "(int \<Rightarrow> f64) \<Rightarrow> u64 \<Rightarrow> u64 \<Rightarrow> u8 \<Rightarrow> u8 \<Rightarrow> f64" where
  "price_quote_in_base ten_powi base_reserve quote_reserve base_decimals quote_decimals =
     (let base = f64_div (f64_of_u64 base_reserve) (ten_powi (int (unat base_decimals)));
          quote = f64_div (f64_of_u64 quote_reserve) (ten_powi (int (unat quote_decimals)))
      in if f64_eq quote (f64_of_nat 0) then f64_of_nat 0 else f64_div base quote)"

definition bonk_price_base_in_quote :: "(int \<Rightarrow> f64) \<Rightarrow> u64 \<Rightarrow> u64 \<Rightarrow> u64 \<Rightarrow> u64 \<Rightarrow> u8 \<Rightarrow> u8 \<Rightarrow> f64" where
  "bonk_price_base_in_quote ten_powi virtual_base virtual_quote real_base real_quote base_decimals quote_decimals =
     (let decimal_diff = int (unat quote_decimals) - int (unat base_decimals);
          decimal_factor = (if decimal_diff \<ge> 0 then ten_powi decimal_diff else f64_div (f64_of_nat 1) (ten_powi (- decimal_diff)));
          quote_reserves = (if unat virtual_quote + unat real_quote < 2 ^ 64 then virtual_quote + real_quote else 0);
          base_reserves = (if real_base \<le> virtual_base then virtual_base - real_base else 0)
      in if base_reserves = 0 then f64_of_nat 0
         else if f64_eq decimal_factor (f64_of_nat 0) then f64_of_nat 0
         else f64_div (f64_div (f64_of_u64 quote_reserves) (f64_of_u64 base_reserves)) decimal_factor)"

definition bonk_price_token_in_wsol :: "(int \<Rightarrow> f64) \<Rightarrow> u64 \<Rightarrow> u64 \<Rightarrow> u64 \<Rightarrow> u64 \<Rightarrow> f64" where
  "bonk_price_token_in_wsol ten_powi virtual_base virtual_quote real_base real_quote =
     bonk_price_base_in_quote ten_powi virtual_base virtual_quote real_base real_quote
       (word_of_nat DEFAULT_TOKEN_DECIMALS) (word_of_nat SOL_DECIMALS)"

definition price_token0_in_token1 :: "(int \<Rightarrow> f64) \<Rightarrow> 128 word \<Rightarrow> u8 \<Rightarrow> u8 \<Rightarrow> f64" where
  "price_token0_in_token1 ten_powi sqrt_price_x64 decimals_token0 decimals_token1 =
     (let sqrt_price = f64_div (f64_of_u64 sqrt_price_x64) (f64_of_nat (2 ^ 64));
          price_raw = f64_mul sqrt_price sqrt_price;
          scale = ten_powi (int (unat decimals_token0) - int (unat decimals_token1))
      in f64_mul price_raw scale)"

definition price_token1_in_token0 :: "(int \<Rightarrow> f64) \<Rightarrow> 128 word \<Rightarrow> u8 \<Rightarrow> u8 \<Rightarrow> f64" where
  "price_token1_in_token0 ten_powi sqrt_price_x64 decimals_token0 decimals_token1 =
     f64_div (f64_of_nat 1) (price_token0_in_token1 ten_powi sqrt_price_x64 decimals_token0 decimals_token1)"

section \<open>Transfers and balances\<close>

text \<open>
  A transfer is reported as done exactly when it moves something the wallet had and the node confirmed the one transaction
  that carries it: the system transfer of that amount, paid for and signed by the wallet.
\<close>

theorem transfer_sol_outcome:
  "fst (transfer_sol ext tex rpc payer receive_wallet amount s) = Ok () \<longleftrightarrow>
     amount \<noteq> 0 \<and> (\<exists>balance blockhash sig. balance_of rpc payer = Inr balance \<and> amount \<le> balance \<and> latest_blockhash rpc 0 = Inr blockhash
       \<and> send_and_confirm rpc 0 (legacy_transaction tex payer [ix_transfer ext payer receive_wallet amount] blockhash) = Confirmed sig)"
  by (auto simp: transfer_sol_def get_sol_balance_def then_do_def of_result_def confirmed_def split: sum.splits send_outcome.splits)

text \<open>
  Which account a balance is read from. The query that is given the token program reads the account that trades of the
  client use; the short one always reads the associated account under the classic token program.
\<close>

lemma balance_account:
  assumes "coherent ext r1 r2 s" "ata_spec ext (payer, mint, prog, u) = Ok ata"
  shows "fst (get_token_balance_with_options ext rpc payer mint prog u s) =
    (case token_amount rpc ata of Inr (Inr n) \<Rightarrow> Ok n | Inr (Inl e) \<Rightarrow> Err e | Inl e \<Rightarrow> Err e)"
proof -
  have "fst (get_associated_token_address_with_program_id_fast_use_seed ext payer mint prog u s) = Ok ata"
    using ata_fast_yields(2) [of ext r1 r2 payer mint prog u] assms by (auto simp: yields_def simp del: ata_spec.simps)
  then show ?thesis
    by (cases "get_associated_token_address_with_program_id_fast_use_seed ext payer mint prog u s")
      (auto simp: get_token_balance_with_options_def then_do_def of_result_def split: sum.split)
qed

text \<open>
  The balance that the client can sell is read from the account its purchases fill: for coherent caches, the query with the
  token program asks for the very address that creating the account would create, whether or not addresses are derived from
  seeds.
\<close>

theorem balance_is_of_the_trading_account:
  assumes "coherent ext r1 r2 s" "coherent ext r1 r2 s'"
    and "fst (create_associated_token_account_idempotent_fast_use_seed ext (cl_payer c) (cl_payer c) mint prog (cl_use_seed_optimize c) s) = Ok ixs"
  shows "fst (get_payer_token_balance_with_program ext rpc c mint prog s') =
    (case token_amount rpc (created_account mint prog (cl_use_seed_optimize c) ixs) of Inr (Inr n) \<Rightarrow> Ok n | Inr (Inl e) \<Rightarrow> Err e | Inl e \<Rightarrow> Err e)"
proof -
  have "ix_spec ext r1 r2 (CreateAssociatedTokenAccount (cl_payer c) (cl_payer c) mint prog (cl_use_seed_optimize c)) = Ok ixs"
    using create_ata_yields [of ext r1 r2 "cl_payer c" "cl_payer c" mint prog "cl_use_seed_optimize c"] assms(1,3)
    by (auto simp: yields_def simp del: ix_spec.simps)
  then show ?thesis
    using created_of_spec balance_account [OF assms(2)] by (simp add: get_payer_token_balance_with_program_def del: ix_spec.simps ata_spec.simps)
qed

section \<open>Lookup tables\<close>

lemma pubkey_bytes_zero: "pubkey_bytes k = replicate 32 0 \<longleftrightarrow> k = 0"
proof
  assume "pubkey_bytes k = replicate 32 0"
  then have "rev (pubkey_bytes k) = replicate 32 0" by simp
  then have "to_le_bytes k = replicate 32 0" by (simp add: pubkey_bytes_def)
  then have "unat k = le_value (replicate 32 0)" using le_value_to_le_bytes [of k] by simp
  also have "le_value (replicate n 0) = 0" for n by (induction n) simp_all
  finally show "k = 0" by (simp add: unat_eq_zero)
qed (simp add: pubkey_bytes_def to_le_bytes_def map_replicate_const)

lemma table_addresses_pubkeys: "table_addresses (concat (map pubkey_bytes ks)) = filter (\<lambda>k. k \<noteq> 0) ks"
proof (induction ks)
  case (Cons k ks)
  have "word_of_nat (le_value (rev (pubkey_bytes k))) = k"
    using le_value_to_le_bytes [of k] by (simp add: pubkey_bytes_def word_of_nat_unat)
  then show ?case using Cons pubkey_bytes_zero [of k] by (subst table_addresses.simps) auto
qed (simp add: table_addresses.simps)

lemma filter_prefix_iff: "prefix (filter P xs) xs \<longleftrightarrow> (\<exists>ys zs. xs = ys @ zs \<and> list_all P ys \<and> list_all (\<lambda>x. \<not> P x) zs)"
proof
  show "prefix (filter P xs) xs \<Longrightarrow> \<exists>ys zs. xs = ys @ zs \<and> list_all P ys \<and> list_all (\<lambda>x. \<not> P x) zs"
  proof (induction xs)
    case (Cons x xs)
    show ?case
    proof (cases "P x")
      case True
      then obtain ys zs where "xs = ys @ zs" "list_all P ys" "list_all (\<lambda>x. \<not> P x) zs" using Cons by auto
      then show ?thesis using True by (intro exI [of _ "x # ys"] exI [of _ zs]) simp
    next
      case False
      then have "filter P xs = []" using Cons.prems by (cases "filter P xs") (auto simp: filter_eq_Cons_iff)
      then show ?thesis using False by (intro exI [of _ "[]"] exI [of _ "x # xs"]) (auto simp: list_all_iff filter_empty_conv)
    qed
  qed simp
qed (auto simp: list_all_iff filter_id_conv filter_empty_conv)

text \<open>
  C25: The reader of lookup tables drops every zero address, and the zero address is that of the system program. A message refers
  to a table entry by its position, so what is fetched agrees with the table on chain, position by position, only if zero
  addresses stand nowhere but at its end; otherwise the entries behind the first one move and a message compiled with them
  names other accounts.
\<close>

theorem lookup_table_positions:
  assumes "get_account rpc table = Inr (owner, header @ concat (map pubkey_bytes ks))" "length header = 56"
  shows "\<exists>fetched. fetch_address_lookup_table_account rpc table = Inr (table, fetched) \<and> fetched = filter (\<lambda>k. k \<noteq> 0) ks
    \<and> (prefix fetched ks \<longleftrightarrow> (\<exists>used unused. ks = used @ unused \<and> list_all (\<lambda>k. k \<noteq> 0) used \<and> list_all (\<lambda>k. k = 0) unused))"
  using assms filter_prefix_iff [of "\<lambda>k. k \<noteq> 0" ks] by (simp add: fetch_address_lookup_table_account_def table_addresses_pubkeys)

definition table_node :: "pubkey list \<Rightarrow> pool_rpc" where
  "table_node ks = \<lparr>get_account = (\<lambda>_. Inr (0, replicate 56 1 @ concat (map pubkey_bytes ks))), program_accounts = (\<lambda>_ _ _. Inr []),
     token_balance = (\<lambda>_. Inl ''none''), lookup_times_out = (\<lambda>_. False)\<rparr>"

theorem lookup_table_positions_witness:
  "fetch_address_lookup_table_account (table_node [7, 0, 9]) 5 = Inr (5, [7, 9])
   \<and> \<not> prefix [7, 9] [7, 0, 9 :: pubkey]"
proof -
  have "get_account (table_node [7, 0, 9]) 5 = Inr (0, replicate 56 1 @ concat (map pubkey_bytes [7, 0, 9]))"
    by (simp add: table_node_def)
  from lookup_table_positions [OF this] show ?thesis by simp
qed

section \<open>Prices are numbers\<close>

lemma f64_zero: "f64_of_nat 0 = Fin False 0"
  by (simp add: f64_of_nat_def of_exact_def)

lemma f64_million: "f64_of_nat 1000000 = Fin False 1000000" "f64_of_nat 1000000000 = Fin False 1000000000"
  using f64_of_nat_eq [of 1000000 53] f64_of_nat_eq [of 1000000000 53] by (simp_all add: round_mag_rep rep_numeral)

text \<open>
  The price of a token in SOL is a finite number for all reserves, also for an empty curve.
\<close>

theorem price_token_in_sol_finite: "\<exists>q \<ge> 0. price_token_in_sol sol tokens = Fin False q"
proof -
  have nn: "0 \<le> round_mag (of_nat (unat w))" for w :: u64 by (intro round_mag_nonneg) simp
  have le: "round_mag (of_nat (unat w)) \<le> 2 ^ 64" for w :: u64
    using round_mag_of_nat_bounds(1) [of "unat w" 64] unat_u64_less [of w] by simp
  define x where "x = round_mag (of_nat (unat sol)) / 1000000000"
  define y where "y = round_mag (of_nat (unat tokens)) / 1000000"
  have x: "0 \<le> x" "x \<le> 2 ^ 64" using nn [of sol] le [of sol] by (simp_all add: x_def)
  have y: "0 \<le> y" "y \<le> 2 ^ 64" using nn [of tokens] le [of tokens] by (simp_all add: y_def)
  have v: "f64_div (f64_of_u64 sol) (f64_of_nat 1000000000) = Fin False (round_mag x)"
      "f64_div (f64_of_u64 tokens) (f64_of_nat 1000000) = Fin False (round_mag y)"
    using mk_finite [OF x, of False] mk_finite [OF y, of False] by (simp_all add: f64_of_u64_eq f64_million x_def y_def)
  show ?thesis
  proof (cases "tokens = 0")
    case True
    then have "y = 0" by (simp add: y_def)
    then show ?thesis by (simp add: price_token_in_sol_def v f64_zero f64_eq_def Let_def)
  next
    case False
    then have "1 \<le> round_mag (of_nat (unat tokens))" using round_mag_of_nat_bounds(2) by (simp add: unat_gt_0)
    then have "2 powi (- 20) \<le> y" by (simp add: y_def power_int_minus divide_simps)
    then have ry: "2 powi (- 20) \<le> round_mag y" by (intro round_mag_ge rep_powi) simp_all
    have rx: "0 \<le> round_mag x" "round_mag x \<le> 2 ^ 64" using x round_mag_nonneg round_mag_le [OF rep_pow2] by blast+
    have pos: "0 < round_mag y" using ry by (rule order.strict_trans2 [rotated]) simp
    have "round_mag x / round_mag y \<le> 2 ^ 64 / 2 powi (- 20)" using rx ry by (intro frac_le) simp_all
    then have "round_mag x / round_mag y \<le> 2 ^ 84" by (simp add: power_int_minus)
    then have "mk False (round_mag x / round_mag y) = Fin False (round_mag (round_mag x / round_mag y))"
      using rx pos by (intro mk_finite [where n = 84]) simp_all
    then show ?thesis
      using pos rx round_mag_nonneg [of "round_mag x / round_mag y"]
      by (simp add: price_token_in_sol_def v f64_zero f64_eq_def Let_def)
  qed
qed

end
