(* ===== verification/Subscription.thy ===== *)
theory Subscription
  imports TradeStore
begin

text \<open>
  How the events of the chain reach the bot's store (\<open>src/grpc_subscriber.rs\<close>, \<open>start_grpc_subscription\<close> in
  \<open>src/strategy.rs\<close>). The subscription task connects and subscribes; the callback spawns a task for every event, that task
  spawns another one to send the update, and one consumer takes updates from the channel and stores them. The tasks are
  steps of one relation, in any order the scheduler chooses. It is shown to refine a bag of updates in flight: nothing is
  lost or stored twice and everything is stored in the end, but in any order at all, so that the latest price the bot reads
  can be that of an older trade.
\<close>

section \<open>The subscription\<close>

datatype protocol = PumpSwapProtocol
datatype event_type = PumpSwapBuy | PumpSwapSell

record transaction_filter =
  account_include :: "string list"
  account_exclude :: "string list"
  account_required :: "string list"

record account_filter =
  af_account :: "string list"
  af_owner :: "string list"
  af_filters :: "string list"

record subscription =
  sb_protocols :: "protocol list"
  sb_transactions :: "transaction_filter list"
  sb_accounts :: "account_filter list"
  sb_event_types :: "event_type list option"

text \<open>
  The streaming library: its constant for the program, making a client from an address and a token, and the call that
  subscribes. A client is a number. A failed call drops the callback it was given.
\<close>

record grpc_ext =
  streamer_program_id :: string
  yellowstone_new :: "string \<Rightarrow> string option \<Rightarrow> string + nat"
  subscribe_events_immediate :: "nat \<Rightarrow> subscription \<Rightarrow> string + unit"

record grpc_subscriber =
  grpc_url :: string
  grpc_token :: "string option"

definition grpc_subscriber_new :: "string \<Rightarrow> string option \<Rightarrow> grpc_subscriber" where
  "grpc_subscriber_new url token = \<lparr>grpc_url = url, grpc_token = token\<rparr>"

definition pumpswap_subscription :: "grpc_ext \<Rightarrow> subscription" where
  "pumpswap_subscription gx =
     \<lparr>sb_protocols = [PumpSwapProtocol],
      sb_transactions = [\<lparr>account_include = [streamer_program_id gx], account_exclude = [], account_required = []\<rparr>],
      sb_accounts = [\<lparr>af_account = [], af_owner = [], af_filters = []\<rparr>],
      sb_event_types = Some [PumpSwapBuy, PumpSwapSell]\<rparr>"

text \<open>\<open>run_subscription\<close> from one await to the next; once it listens, it sleeps for ever.\<close>

datatype sub_task = Starting | Subscribing nat | Listening | Failed string

fun run_subscription :: "grpc_ext \<Rightarrow> grpc_subscriber \<Rightarrow> sub_task \<Rightarrow> sub_task option" where
  "run_subscription gx g Starting =
     Some (case yellowstone_new gx (grpc_url g) (grpc_token g) of
             Inl e \<Rightarrow> Failed (''Failed to create YellowstoneGrpc client: '' @ e)
           | Inr h \<Rightarrow> Subscribing h)"
| "run_subscription gx g (Subscribing h) =
     Some (case subscribe_events_immediate gx h (pumpswap_subscription gx) of
             Inl e \<Rightarrow> Failed (''Failed to subscribe to gRPC events: '' @ e)
           | Inr _ \<Rightarrow> Listening)"
| "run_subscription gx g Listening = None"
| "run_subscription gx g (Failed e) = None"

section \<open>The tasks\<close>

datatype unified_event = BuyEvent pumpswap_event | SellEvent pumpswap_event | OtherEvent

text \<open>
  What the handler of an event hands on: \<open>match_event!\<close> calls the branch of its kind. The handler of an event without
  wrapped SOL, or one that panics on a time out of range, hands on nothing.
\<close>

definition event_update :: "profile \<Rightarrow> unified_event \<Rightarrow> transaction_update list" where
  "event_update p ev =
     (case (case ev of BuyEvent e \<Rightarrow> handle_event p True e | SellEvent e \<Rightarrow> handle_event p False e | OtherEvent \<Rightarrow> Some None) of
        Some (Some u) \<Rightarrow> [u]
      | _ \<Rightarrow> [])"

record 'j sub_env =
  se_grpc :: grpc_ext
  se_subscriber :: grpc_subscriber
  se_profile :: profile
  se_codec :: "'j codec"
  se_store :: "nat option"
  se_base58 :: "pubkey \<Rightarrow> string"

text \<open>
  The tasks alive and the data between them: handlers that have not run, senders that wait for the lock, the channel, the
  consumer, Redis. The last three fields are history: the events delivered, the updates consumed, and those whose sending
  failed because the receiver was gone.
\<close>

record 'j pipeline =
  pl_task :: sub_task
  pl_handlers :: "unified_event list"
  pl_senders :: "transaction_update list"
  pl_channel :: "transaction_update list"
  pl_receiving :: bool
  pl_db :: "'j redis_db"
  pl_delivered :: "unified_event list"
  pl_consumed :: "transaction_update list"
  pl_unsent :: "transaction_update list"

text \<open>\<open>subscribe\<close> and the start of the consumer: both tasks are spawned, and the call succeeds whatever becomes of them.\<close>

definition spawned :: "sub_task \<Rightarrow> 'j redis_db \<Rightarrow> 'j pipeline" where
  "spawned t db = \<lparr>pl_task = t, pl_handlers = [], pl_senders = [], pl_channel = [], pl_receiving = True, pl_db = db,
     pl_delivered = [], pl_consumed = [], pl_unsent = []\<rparr>"

definition start_grpc_subscription :: "'j redis_db \<Rightarrow> string + 'j pipeline" where
  "start_grpc_subscription db = Inr (spawned Starting db)"

definition callback_alive :: "sub_task \<Rightarrow> bool" where
  "callback_alive t \<longleftrightarrow> (case t of Subscribing h \<Rightarrow> True | Listening \<Rightarrow> True | _ \<Rightarrow> False)"

definition callback :: "unified_event \<Rightarrow> 'j pipeline \<Rightarrow> 'j pipeline" where
  "callback ev s = s\<lparr>pl_handlers := pl_handlers s @ [ev], pl_delivered := pl_delivered s @ [ev]\<rparr>"

text \<open>The inner task of \<open>handle_event\<close>: with the lock held, the update goes on the channel unless the receiver is gone.\<close>

definition send_update :: "transaction_update \<Rightarrow> 'j pipeline \<Rightarrow> 'j pipeline" where
  "send_update u s =
     (if pl_receiving s then s\<lparr>pl_channel := pl_channel s @ [u]\<rparr> else s\<lparr>pl_unsent := pl_unsent s @ [u]\<rparr>)"

text \<open>Every sender is held by the subscription task, its callback, or a task of an event.\<close>

definition senders_gone :: "'j pipeline \<Rightarrow> bool" where
  "senders_gone s \<longleftrightarrow> (case pl_task s of Failed e \<Rightarrow> True | _ \<Rightarrow> False) \<and> pl_handlers s = [] \<and> pl_senders s = []"

definition receive_update :: "'j sub_env \<Rightarrow> bool \<times> bool \<Rightarrow> transaction_update \<Rightarrow> 'j pipeline \<Rightarrow> 'j pipeline" where
  "receive_update env faults u s =
     s\<lparr>pl_channel := tl (pl_channel s), pl_consumed := pl_consumed s @ [u],
       pl_db := consume_update (se_codec env) (se_store env) (se_base58 env) faults u (pl_db s)\<rparr>"

inductive work :: "'j sub_env \<Rightarrow> 'j pipeline \<Rightarrow> 'j pipeline \<Rightarrow> bool" for env where
  subscribing: "run_subscription (se_grpc env) (se_subscriber env) (pl_task s) = Some t \<Longrightarrow> work env s (s\<lparr>pl_task := t\<rparr>)"
| handling: "pl_handlers s = xs @ ev # ys
    \<Longrightarrow> work env s (s\<lparr>pl_handlers := xs @ ys, pl_senders := pl_senders s @ event_update (se_profile env) ev\<rparr>)"
| sending: "pl_senders s = xs @ u # ys \<Longrightarrow> work env s (send_update u (s\<lparr>pl_senders := xs @ ys\<rparr>))"
| receiving: "pl_receiving s \<Longrightarrow> pl_channel s = u # us \<Longrightarrow> work env s (receive_update env faults u s)"
| closing: "pl_receiving s \<Longrightarrow> pl_channel s = [] \<Longrightarrow> senders_gone s \<Longrightarrow> work env s (s\<lparr>pl_receiving := False\<rparr>)"

inductive pl_reach :: "'j sub_env \<Rightarrow> 'j redis_db \<Rightarrow> 'j pipeline \<Rightarrow> bool" for env db where
  started: "start_grpc_subscription db = Inr s \<Longrightarrow> pl_reach env db s"
| worked: "pl_reach env db s \<Longrightarrow> work env s t \<Longrightarrow> pl_reach env db t"
| delivered: "pl_reach env db s \<Longrightarrow> callback_alive (pl_task s) \<Longrightarrow> pl_reach env db (callback ev s)"

inductive_cases workE: "work env s t"

section \<open>A bag of updates\<close>

text \<open>
  The specification: an event adds its update to a bag, and the consumer takes any update out of it. The state is the bag
  and the sequence taken.
\<close>

type_synonym bag = "transaction_update multiset \<times> transaction_update list"

inductive bag_step :: "bag \<Rightarrow> bag \<Rightarrow> bool" where
  takes: "u \<in># b \<Longrightarrow> bag_step (b, taken) (b - {#u#}, taken @ [u])"

definition updates_of :: "profile \<Rightarrow> unified_event list \<Rightarrow> transaction_update list" where
  "updates_of p evs = concat (map (event_update p) evs)"

definition bag_of :: "'j sub_env \<Rightarrow> 'j pipeline \<Rightarrow> bag" where
  "bag_of env s = (mset (updates_of (se_profile env) (pl_handlers s)) + mset (pl_senders s) + mset (pl_channel s), pl_consumed s)"

lemma updates_of_simps [simp]:
  "updates_of p [] = []" "updates_of p (ev # evs) = event_update p ev @ updates_of p evs"
  "updates_of p (evs @ evs') = updates_of p evs @ updates_of p evs'"
  by (simp_all add: updates_of_def)

text \<open>The receiver is only dropped when nobody can send any more.\<close>

definition receiver_inv :: "'j pipeline \<Rightarrow> bool" where
  "receiver_inv s \<longleftrightarrow> pl_unsent s = [] \<and> (\<not> pl_receiving s \<longrightarrow> senders_gone s \<and> pl_channel s = [])"

lemma work_receiver_inv: "work env s t \<Longrightarrow> receiver_inv s \<Longrightarrow> receiver_inv t"
  by (induction rule: work.induct)
    (auto simp: receiver_inv_def senders_gone_def send_update_def receive_update_def split: sub_task.splits)

lemma reach_receiver_inv: "pl_reach env db s \<Longrightarrow> receiver_inv s"
proof (induction rule: pl_reach.induct)
  case (started s)
  then show ?case by (auto simp: start_grpc_subscription_def spawned_def receiver_inv_def)
next
  case (worked s t)
  then show ?case by (blast intro: work_receiver_inv)
next
  case (delivered s ev)
  then show ?case by (auto simp: receiver_inv_def senders_gone_def callback_def callback_alive_def split: sub_task.splits)
qed

lemma work_refines_bag: "work env s t \<Longrightarrow> receiver_inv s \<Longrightarrow> bag_of env t = bag_of env s \<or> bag_step (bag_of env s) (bag_of env t)"
proof (induction rule: work.induct)
  case (receiving s u us faults)
  let ?b = "mset (updates_of (se_profile env) (pl_handlers s)) + mset (pl_senders s) + mset (pl_channel s)"
  have "bag_step (?b, pl_consumed s) (?b - {#u#}, pl_consumed s @ [u])" by (rule bag_step.takes) (simp add: receiving.hyps)
  then show ?case using receiving.hyps by (simp add: bag_of_def receive_update_def)
qed (auto simp: bag_of_def send_update_def receiver_inv_def senders_gone_def)

lemma bag_step_total: "bag_step (b, taken) (b', taken') \<Longrightarrow> b' + mset taken' = b + mset taken"
  by (auto elim!: bag_step.cases)

lemma work_delivered: "work env s t \<Longrightarrow> pl_delivered t = pl_delivered s"
  by (induction rule: work.induct) (simp_all add: send_update_def receive_update_def)

lemma reach_conserves:
  assumes "pl_reach env db s"
  shows "mset (updates_of (se_profile env) (pl_delivered s)) = fst (bag_of env s) + mset (pl_consumed s)"
  using assms
proof (induction rule: pl_reach.induct)
  case (started s)
  then show ?case by (auto simp: start_grpc_subscription_def spawned_def bag_of_def)
next
  case (worked s t)
  from work_refines_bag [OF worked.hyps(2) reach_receiver_inv [OF worked.hyps(1)]]
  have "fst (bag_of env t) + mset (pl_consumed t) = fst (bag_of env s) + mset (pl_consumed s)"
    by (auto simp: bag_of_def dest: bag_step_total)
  then show ?case using worked.IH work_delivered [OF worked.hyps(2)] by simp
next
  case (delivered s ev)
  then show ?case by (simp add: callback_def bag_of_def)
qed

text \<open>Redis holds what the consumed updates leave there, with some requests failing.\<close>

definition consume_all :: "'j sub_env \<Rightarrow> (transaction_update \<times> bool \<times> bool) list \<Rightarrow> 'j redis_db \<Rightarrow> 'j redis_db" where
  "consume_all env = fold (\<lambda>(u, faults). consume_update (se_codec env) (se_store env) (se_base58 env) faults u)"

lemma consume_all_simps [simp]:
  "consume_all env [] db = db"
  "consume_all env (us @ [(u, faults)]) db = consume_update (se_codec env) (se_store env) (se_base58 env) faults u (consume_all env us db)"
  by (simp_all add: consume_all_def)

lemma work_db:
  assumes "work env s t" "\<exists>us. map fst us = pl_consumed s \<and> pl_db s = consume_all env us db"
  shows "\<exists>us. map fst us = pl_consumed t \<and> pl_db t = consume_all env us db"
  using assms
proof (induction rule: work.induct)
  case (receiving s u vs faults)
  then obtain us where "map fst us = pl_consumed s" "pl_db s = consume_all env us db" by blast
  then show ?case by (intro exI [of _ "us @ [(u, faults)]"]) (simp add: receive_update_def)
qed (simp_all add: send_update_def)

lemma reach_db:
  assumes "pl_reach env db s"
  shows "\<exists>us. map fst us = pl_consumed s \<and> pl_db s = consume_all env us db"
  using assms
proof (induction rule: pl_reach.induct)
  case (started s)
  then show ?case by (auto simp: start_grpc_subscription_def spawned_def)
next
  case (worked s t)
  then show ?case by (blast intro: work_db)
qed (simp add: callback_def)

lemma consume_all_reach:
  assumes "store_reach (se_codec env) n (se_base58 env) db" "se_store env = Some n" "\<forall>u \<in> fst ` set us. 1000000000000 \<le> up_blocktime_us u"
  shows "store_reach (se_codec env) n (se_base58 env) (consume_all env us db)"
  using assms(3) by (induction us rule: rev_induct) (auto simp: assms(1,2) intro: store_reach.update)

section \<open>The pipeline comes to rest\<close>

fun task_left :: "sub_task \<Rightarrow> nat" where
  "task_left Starting = 2"
| "task_left (Subscribing h) = 1"
| "task_left Listening = 0"
| "task_left (Failed e) = 0"

definition work_left :: "'j pipeline \<Rightarrow> nat" where
  "work_left s = task_left (pl_task s) + 3 * length (pl_handlers s) + 2 * length (pl_senders s) + length (pl_channel s)
     + (if pl_receiving s then 1 else 0)"

lemma event_update_length: "length (event_update p ev) \<le> 1"
  by (simp add: event_update_def split: option.split)

lemma run_subscription_left: "run_subscription gx g t = Some t' \<Longrightarrow> task_left t' < task_left t"
  by (cases t) (auto split: sum.splits)

lemma work_decreases: "work env s t \<Longrightarrow> work_left t < work_left s"
proof (induction rule: work.induct)
  case (subscribing s t)
  then show ?case using run_subscription_left by (simp add: work_left_def)
next
  case (handling s xs ev ys)
  then show ?case using event_update_length [of "se_profile env" ev] by (simp add: work_left_def)
qed (auto simp: work_left_def send_update_def receive_update_def)

lemma work_bounded: "(work env ^^ k) s t \<Longrightarrow> k + work_left t \<le> work_left s"
proof (induction k arbitrary: t)
  case (Suc k)
  then obtain u where "(work env ^^ k) s u" "work env u t" by auto
  then show ?case using Suc.IH [of u] work_decreases [of env u t] by simp
qed simp

lemma at_rest:
  assumes "receiver_inv s" "\<nexists>t. work env s t"
  shows "pl_handlers s = []" "pl_senders s = []" "pl_channel s = []"
proof -
  show h: "pl_handlers s = []"
    using assms(2) work.handling [of s "[]" "hd (pl_handlers s)" "tl (pl_handlers s)" env] by fastforce
  show n: "pl_senders s = []"
    using assms(2) work.sending [of s "[]" "hd (pl_senders s)" "tl (pl_senders s)" env] by fastforce
  show "pl_channel s = []"
  proof (cases "pl_receiving s")
    case True
    then show ?thesis using assms(2) work.receiving [of s "hd (pl_channel s)" "tl (pl_channel s)" env] by fastforce
  qed (use assms(1) in \<open>simp add: receiver_inv_def\<close>)
qed

lemma comes_to_rest: "\<exists>t. (work env)\<^sup>*\<^sup>* s t \<and> (\<nexists>u. work env t u)"
proof (induction "work_left s" arbitrary: s rule: less_induct)
  case less
  show ?case
  proof (cases "\<exists>t. work env s t")
    case True
    then obtain t where "work env s t" by blast
    with less [OF work_decreases] show ?thesis by (meson converse_rtranclp_into_rtranclp)
  qed auto
qed

section \<open>Any order\<close>

abbreviation in_flight :: "'j pipeline \<Rightarrow> bool" where
  "in_flight s \<equiv> pl_receiving s \<and> callback_alive (pl_task s)"

lemma empty_updates:
  "pl_handlers s = [] \<Longrightarrow> s\<lparr>pl_handlers := []\<rparr> = s" "pl_senders s = [] \<Longrightarrow> s\<lparr>pl_senders := []\<rparr> = s"
  "pl_channel s = [] \<Longrightarrow> s\<lparr>pl_channel := []\<rparr> = s"
  by simp_all

lemma deliver_all:
  assumes "pl_reach env db s" "in_flight s"
  shows "pl_reach env db (s\<lparr>pl_handlers := pl_handlers s @ evs, pl_delivered := pl_delivered s @ evs\<rparr>)"
  using assms
proof (induction evs arbitrary: s)
  case (Cons ev evs)
  from Cons.IH [OF pl_reach.delivered, of s ev] Cons.prems show ?case by (simp add: callback_def)
qed simp

lemma handle_all:
  assumes "pl_reach env db s" "pl_handlers s = evs"
  shows "pl_reach env db (s\<lparr>pl_handlers := [], pl_senders := pl_senders s @ updates_of (se_profile env) evs\<rparr>)"
  using assms
proof (induction evs arbitrary: s)
  case (Cons ev evs)
  have "work env s (s\<lparr>pl_handlers := [] @ evs, pl_senders := pl_senders s @ event_update (se_profile env) ev\<rparr>)"
    using Cons.prems(2) by (intro work.handling) simp
  from Cons.IH [OF pl_reach.worked [OF Cons.prems(1) this]] show ?case by simp
qed (simp add: empty_updates)

lemma send_all:
  assumes "pl_reach env db s" "pl_receiving s" "mset (pl_senders s) = mset us"
  shows "pl_reach env db (s\<lparr>pl_senders := [], pl_channel := pl_channel s @ us\<rparr>)"
  using assms
proof (induction us arbitrary: s)
  case (Cons u us)
  then obtain xs ys where split: "pl_senders s = xs @ u # ys" by (metis list.set_intros(1) set_mset_mset split_list)
  have "work env s (send_update u (s\<lparr>pl_senders := xs @ ys\<rparr>))" using split by (rule work.sending)
  then have "pl_reach env db (s\<lparr>pl_senders := xs @ ys, pl_channel := pl_channel s @ [u]\<rparr>)"
    using pl_reach.worked [OF Cons.prems(1)] Cons.prems(2) by (fastforce simp: send_update_def)
  from Cons.IH [OF this] show ?case using Cons.prems split by simp
qed (simp add: empty_updates)

lemma receive_all:
  assumes "pl_reach env db s" "pl_receiving s" "pl_channel s = us"
  shows "pl_reach env db (s\<lparr>pl_channel := [], pl_consumed := pl_consumed s @ us,
      pl_db := consume_all env (map (\<lambda>u. (u, False, False)) us) (pl_db s)\<rparr>)"
  using assms
proof (induction us arbitrary: s)
  case (Cons u us)
  have "work env s (receive_update env (False, False) u s)" using Cons.prems(2,3) by (intro work.receiving)
  from Cons.IH [OF pl_reach.worked [OF Cons.prems(1) this]] Cons.prems show ?case
    by (simp add: receive_update_def consume_all_def)
qed (simp add: empty_updates consume_all_def)

definition listens :: "'j sub_env \<Rightarrow> bool" where
  "listens env \<longleftrightarrow> (\<exists>h. yellowstone_new (se_grpc env) (grpc_url (se_subscriber env)) (grpc_token (se_subscriber env)) = Inr h
     \<and> subscribe_events_immediate (se_grpc env) h (pumpswap_subscription (se_grpc env)) = Inr ())"

lemma listening_reached:
  assumes "listens env"
  shows "pl_reach env db (spawned Listening db)"
proof -
  obtain h where h: "yellowstone_new (se_grpc env) (grpc_url (se_subscriber env)) (grpc_token (se_subscriber env)) = Inr h"
      "subscribe_events_immediate (se_grpc env) h (pumpswap_subscription (se_grpc env)) = Inr ()"
    using assms by (auto simp: listens_def)
  have next_task: "work env (spawned t db) (spawned t' db)"
    if "run_subscription (se_grpc env) (se_subscriber env) t = Some t'" for t t'
    using work.subscribing [of env "spawned t db" t'] that by (simp add: spawned_def)
  have "pl_reach env db (spawned Starting db)" by (rule pl_reach.started) (simp add: start_grpc_subscription_def)
  then have "pl_reach env db (spawned (Subscribing h) db)" by (rule pl_reach.worked) (intro next_task, simp add: h(1))
  then show ?thesis by (rule pl_reach.worked) (intro next_task, simp add: h(2))
qed

lemma any_order_reached:
  assumes "listens env" "mset us = mset (updates_of (se_profile env) evs)"
  shows "\<exists>s. pl_reach env db s \<and> pl_delivered s = evs \<and> pl_consumed s = us
    \<and> pl_db s = consume_all env (map (\<lambda>u. (u, False, False)) us) db \<and> (\<nexists>t. work env s t)"
proof -
  let ?s = "\<lambda>hs ss cs ds xs. \<lparr>pl_task = Listening, pl_handlers = hs, pl_senders = ss, pl_channel = cs, pl_receiving = True, pl_db = xs,
     pl_delivered = evs, pl_consumed = ds, pl_unsent = []\<rparr>"
  have "pl_reach env db (?s evs [] [] [] db)"
    using deliver_all [OF listening_reached [OF assms(1)], of db evs] by (simp add: spawned_def callback_alive_def)
  from handle_all [OF this] have "pl_reach env db (?s [] (updates_of (se_profile env) evs) [] [] db)" by simp
  from send_all [OF this, of us] have "pl_reach env db (?s [] [] us [] db)" using assms(2) by simp
  from receive_all [OF this]
  have "pl_reach env db (?s [] [] [] us (consume_all env (map (\<lambda>u. (u, False, False)) us) db))" by simp
  then show ?thesis by (intro exI conjI) (assumption, auto elim!: workE simp: senders_gone_def)
qed

text \<open>What the bot takes for the latest price, in terms of the book that a store represents.\<close>

lemma latest_price_of_book:
  assumes "represents cd db b" "codec_ok cd" "fst (b mint) = r # rs" "storable r"
  shows "get_latest_price_from_trades p now cd False mint db = (Ok (Some (tr_price r)), db)"
proof -
  have "db_lists db (trades_key mint) = map (to_json cd) (r # rs)" using assms(1,3) by (simp add: represents_def)
  then have "get_recent_trades p now cd False mint 1 db = (Ok [r], db)"
    using parse_all_roundtrip [OF assms(2), of "[r]"] assms(4)
    by (simp add: get_recent_trades_def then_do_run head_range_take [of 1, simplified] newest_first_def)
  then show ?thesis by (simp add: get_latest_price_from_trades_def then_do_run effective_price_def)
qed

definition record_of_update :: "(pubkey \<Rightarrow> string) \<Rightarrow> transaction_update \<Rightarrow> token_trade_record" where
  "record_of_update base58 u =
     from_transaction (base58 (up_mint u)) (up_token_amount u) (up_sol_amount u) (up_is_buy u) (up_signature u) (up_blocktime_us u)"

lemma consume_update_book:
  assumes "represents cd db b" "1 \<le> n"
  shows "represents cd (consume_update cd (Some n) base58 (False, False) u db)
    (book_store n (base58 (up_mint u)) (record_of_update base58 u) b)"
proof -
  let ?st = "store_trade cd n (False, False) (base58 (up_mint u)) (record_of_update base58 u) db"
  have "fst ?st = Ok ()" by (simp add: store_trade_cases [OF assms(2)])
  then show ?thesis using store_trade_refines [OF assms(2,1), of "(False, False)" "base58 (up_mint u)" "record_of_update base58 u"]
    by (simp add: consume_update_def record_of_update_def)
qed

section \<open>Properties\<close>

text \<open>
  C19: Between the chain and the store no update is lost, made up or stored twice. In every reachable state the updates of the
  events delivered so far are, as a multiset, those still with a handler or a sender, those in the channel and those
  consumed; no sending ever fails; and Redis holds what the consumed updates leave there, in the order they were consumed
  and up to failed requests, so that a store that was well-formed before stays so.
\<close>

theorem pipeline_keeps_updates:
  assumes "pl_reach env db s" "se_store env = Some n" "store_reach (se_codec env) n (se_base58 env) db"
    "\<forall>u \<in> set (updates_of (se_profile env) (pl_delivered s)). 1000000000000 \<le> up_blocktime_us u"
  shows "mset (updates_of (se_profile env) (pl_delivered s)) =
      mset (updates_of (se_profile env) (pl_handlers s)) + mset (pl_senders s) + mset (pl_channel s) + mset (pl_consumed s)
    \<and> pl_unsent s = []
    \<and> (\<exists>us. map fst us = pl_consumed s \<and> pl_db s = consume_all env us db)
    \<and> store_reach (se_codec env) n (se_base58 env) (pl_db s)"
proof -
  have kept: "mset (updates_of (se_profile env) (pl_delivered s)) =
      mset (updates_of (se_profile env) (pl_handlers s)) + mset (pl_senders s) + mset (pl_channel s) + mset (pl_consumed s)"
    using reach_conserves [OF assms(1)] by (simp add: bag_of_def)
  obtain us where us: "map fst us = pl_consumed s" "pl_db s = consume_all env us db" using reach_db [OF assms(1)] by blast
  have "fst ` set us = set (pl_consumed s)" using us(1) by (metis list.set_map)
  also have "\<dots> \<subseteq> set (updates_of (se_profile env) (pl_delivered s))"
    using arg_cong [OF kept, of set_mset] by auto
  finally have "store_reach (se_codec env) n (se_base58 env) (pl_db s)"
    unfolding us(2) using assms(2,3,4) by (intro consume_all_reach) auto
  then show ?thesis using kept us reach_receiver_inv [OF assms(1)] by (auto simp: receiver_inv_def)
qed

text \<open>
  C20: The pipeline comes to rest. However its tasks are scheduled, without further events they take no more steps than the
  work left in the state; a state in which none can take a step is reached; and in every such state all updates of the
  events delivered have been consumed.
\<close>

theorem pipeline_drains:
  assumes "pl_reach env db s"
  shows "(\<forall>k t. (work env ^^ k) s t \<longrightarrow> k \<le> work_left s)
    \<and> (\<exists>t. (work env)\<^sup>*\<^sup>* s t \<and> (\<nexists>u. work env t u))
    \<and> ((\<nexists>t. work env s t) \<longrightarrow> mset (pl_consumed s) = mset (updates_of (se_profile env) (pl_delivered s)))"
proof (intro conjI impI allI)
  show "k \<le> work_left s" if "(work env ^^ k) s t" for k t using work_bounded [OF that] by simp
  show "\<exists>t. (work env)\<^sup>*\<^sup>* s t \<and> (\<nexists>u. work env t u)" by (rule comes_to_rest)
  assume "\<nexists>t. work env s t"
  from at_rest [OF reach_receiver_inv [OF assms] this]
  show "mset (pl_consumed s) = mset (updates_of (se_profile env) (pl_delivered s))"
    using reach_conserves [OF assms] by (simp add: bag_of_def)
qed

text \<open>
  The order of the events is not kept: every event has tasks of its own. Whatever order the updates of the events
  delivered are put in, the bot can come to rest having stored them in that order.
\<close>

theorem any_order_possible:
  assumes "listens env" "mset us = mset (updates_of (se_profile env) evs)"
  shows "\<exists>s. pl_reach env db s \<and> pl_delivered s = evs \<and> pl_consumed s = us
    \<and> pl_db s = consume_all env (map (\<lambda>u. (u, False, False)) us) db \<and> (\<nexists>t. work env s t)"
  using assms by (rule any_order_reached)


text \<open>
  A subscription that cannot be made goes unnoticed: starting it succeeds, and when the client cannot be created no event
  ever arrives, Redis stays as it was and the consumer ends, while the bot goes on trading on what is stored.
\<close>

theorem failed_subscription_is_silent:
  assumes "yellowstone_new (se_grpc env) (grpc_url (se_subscriber env)) (grpc_token (se_subscriber env)) = Inl err" "pl_reach env db s"
  shows "(\<exists>s0. start_grpc_subscription db = Inr s0) \<and> pl_delivered s = [] \<and> pl_consumed s = [] \<and> pl_db s = db
    \<and> ((\<nexists>t. work env s t) \<longrightarrow> \<not> pl_receiving s)"
proof -
  have "pl_task s \<in> insert Starting (range Failed) \<and> pl_handlers s = [] \<and> pl_senders s = [] \<and> pl_channel s = []
      \<and> pl_delivered s = [] \<and> pl_consumed s = [] \<and> pl_db s = db"
    using assms(2)
  proof (induction rule: pl_reach.induct)
    case (started s)
    then show ?case by (auto simp: start_grpc_subscription_def spawned_def)
  next
    case (worked s t)
    from worked.hyps(2) worked.IH show ?case by cases (auto simp: assms(1))
  next
    case (delivered s ev)
    then show ?case by (auto simp: callback_alive_def)
  qed
  moreover have "pl_task s \<noteq> Starting" "\<not> (pl_receiving s \<and> pl_channel s = [] \<and> senders_gone s)" if "\<nexists>t. work env s t"
    using that work.subscribing [of env s] work.closing [of s env] by force+
  ultimately show ?thesis by (auto simp: start_grpc_subscription_def senders_gone_def)
qed

section \<open>Two events of one mint\<close>

definition sample_grpc :: grpc_ext where
  "sample_grpc = \<lparr>streamer_program_id = ''pAMM'', yellowstone_new = (\<lambda>url token. Inr 0), subscribe_events_immediate = (\<lambda>h sub. Inr ())\<rparr>"

definition sample_link :: "(token_trade_record \<times> json_value) sub_env" where
  "sample_link = \<lparr>se_grpc = sample_grpc, se_subscriber = grpc_subscriber_new ''https://grpc'' None, se_profile = Checked,
     se_codec = sample_codec, se_store = Some 5, se_base58 = (\<lambda>k. ''m'')\<rparr>"

definition later_event :: pumpswap_event where
  "later_event = sample_event\<lparr>ev_pool_base_token_reserves := 700, ev_timestamp := 1700000003, ev_signature := ''b''\<rparr>"

lemma sample_updates:
  "event_update Checked (BuyEvent sample_event) = [\<lparr>up_mint = 9, up_token_amount = 1000, up_sol_amount = 500, up_is_buy = True,
     up_signature = ''a'', up_blocktime_us = 1700000000000000\<rparr>]"
  "event_update Checked (SellEvent later_event) = [\<lparr>up_mint = 9, up_token_amount = 1000, up_sol_amount = 700, up_is_buy = False,
     up_signature = ''b'', up_blocktime_us = 1700000003000000\<rparr>]"
  by (simp_all add: event_update_def handle_event_def sample_event_def later_event_def i64_result_def i64_range_def)

lemma sample_listens: "listens sample_link"
  by (simp add: listens_def sample_link_def sample_grpc_def)

lemmas sample_link_simps = sample_link_def sample_updates sample_codec_ok

lemma one_delivered: "pl_reach sample_link empty_db (callback (BuyEvent sample_event) (spawned Listening empty_db))"
  by (intro pl_reach.delivered listening_reached sample_listens) (simp add: spawned_def callback_alive_def)

theorem pipeline_keeps_updates_witness:
  "store_reach sample_codec 5 (\<lambda>k. ''m'') (pl_db (callback (BuyEvent sample_event) (spawned Listening empty_db)))"
  using pipeline_keeps_updates [OF one_delivered, of 5]
  by (simp add: sample_link_simps callback_def spawned_def store_reach.start)

theorem pipeline_drains_witness:
  "\<exists>t. (work sample_link)\<^sup>*\<^sup>* (callback (BuyEvent sample_event) (spawned Listening empty_db)) t \<and> (\<nexists>u. work sample_link t u)"
  using pipeline_drains [OF one_delivered] by blast

theorem any_order_possible_witness:
  "\<exists>s. pl_reach sample_link empty_db s \<and> pl_delivered s = [BuyEvent sample_event, SellEvent later_event]
     \<and> map up_signature (pl_consumed s) = [''b'', ''a''] \<and> (\<nexists>t. work sample_link s t)"
proof -
  let ?us = "event_update Checked (SellEvent later_event) @ event_update Checked (BuyEvent sample_event)"
  have "mset ?us = mset (updates_of (se_profile sample_link) [BuyEvent sample_event, SellEvent later_event])"
    by (simp add: sample_link_def)
  from any_order_possible [OF sample_listens this, of empty_db] show ?thesis by (auto simp: sample_updates)
qed


definition unreachable_link :: "(token_trade_record \<times> json_value) sub_env" where
  "unreachable_link = sample_link\<lparr>se_grpc := sample_grpc\<lparr>yellowstone_new := (\<lambda>url token. Inl ''refused'')\<rparr>\<rparr>"

theorem failed_subscription_is_silent_witness:
  "\<exists>s. pl_reach unreachable_link empty_db s \<and> pl_db s = empty_db \<and> pl_delivered s = []"
proof -
  have s: "pl_reach unreachable_link empty_db (spawned Starting empty_db)"
    by (rule pl_reach.started) (simp add: start_grpc_subscription_def)
  from failed_subscription_is_silent [OF _ s, of "''refused''"] s show ?thesis
    by (auto simp: unreachable_link_def sample_link_def sample_grpc_def)
qed

end
