(* ===== verification/Spec2Isabelle.thy ===== *)
theory Spec2Isabelle
  imports Strategy TxPool Serializer RingBuffer MappedBuffer PerfOps Clocks PoolAccounts KeepAlive QuicClients Wallet Subscription
begin

text \<open>
  Verification of the PumpSwap trading bot (\<open>src/src\<close>) and of the trading SDK it is built on
  (\<open>src/sol-trade-sdk/src\<close>). The bot listens to the pools of the chain, keeps the trades it sees in Redis, buys a token
  whose recent trades rise and sells it on profit or stop loss; the SDK quotes a trade, builds the instructions of one of
  six protocols, wraps them into a transaction for every submission channel, sends them in parallel and waits for a
  confirmation.

  \<^bold>\<open>How the program is modelled.\<close> Machine integers are words at their width. Arithmetic that panics in a checked build and
  wraps in a release build takes the build profile as an argument and returns an option (\<open>None\<close> is the panic), so that a
  theorem over all profiles covers both. \<open>f64\<close> is IEEE binary64 with exact rational magnitudes and rounding to nearest
  even (\<open>F64\<close>). A function that reads or writes caches, tables or the world is a program over a state (\<open>Prog\<close>): its
  outcome is \<open>Ok\<close>, \<open>Err\<close> or \<open>Panic\<close>. A loop that may never end is a \<open>partial_function\<close> into an option. Concurrent code is
  a step relation over the atomic steps of the source. What lies outside the repository is an argument: address derivation
  and hashing (\<open>chain_ext\<close>), message compilation and signing (\<open>tx_ext\<close>), the connections of the channels and SHA-256
  (\<open>channel_env\<close>), the answers of nodes and channels (\<open>net\<close>, \<open>wallet_rpc\<close>, \<open>pool_rpc\<close>, \<open>account_rpc\<close>, \<open>wallet_node\<close>,
  \<open>bot_rpc\<close>), the HTTP and QUIC transports with the JSON and binary encoders (\<open>send_env\<close>, \<open>quic_env\<close>), the event stream (\<open>grpc_ext\<close>), the JSON serialiser
  of the bot (\<open>codec\<close>), base-58 decoding and the file system (\<open>bot_env\<close>, \<open>from_file\<close>), the readings of the system clocks and
  the answers of the operating system to a mapping or a write. Log output is left out; the texts of error messages are
  shortened where nothing reads them.

  \<^bold>\<open>Foundations.\<close> \<open>Prelude\<close> (types, collections of rules, generic lemmas), \<open>RustInt\<close> (checked, wrapping and saturating
  operations under both profiles), \<open>Solana\<close> (keys, accounts, instructions, the external functions), \<open>F64\<close>, \<open>Prog\<close> (programs,
  outcomes, and \<open>transparent\<close>: the same outcome from every state of an invariant).

  \<^bold>\<open>Quotes.\<close> \<open>CalcCommon\<close> (\<open>utils/calc/common.rs\<close>: fees and slippage), \<open>CalcPumpSwap\<close> (\<open>utils/calc/pumpswap.rs\<close>),
  \<open>CalcPumpFun\<close> (\<open>utils/calc/pumpfun.rs\<close>, \<open>common/bonding_curve.rs\<close>, \<open>common/global.rs\<close>), \<open>CalcBonk\<close> (\<open>utils/calc/bonk.rs\<close>),
  \<open>CalcRaydium\<close> (\<open>utils/calc/raydium_amm_v4.rs\<close>, \<open>raydium_cpmm.rs\<close>). The locale of constant-product pools states what a
  quote promises; each protocol interprets it. Shown: no quote takes a pool below its product, round trips never gain, which
  inputs are refused, where rounding goes the wrong way.

  \<^bold>\<open>State of the SDK.\<close> \<open>GasFee\<close> (\<open>common/gas_fee_strategy.rs\<close>: the table, its non-atomic updates and their interleavings),
  \<open>Caches\<close> (\<open>common/fast_fn.rs\<close>, \<open>common/seed.rs\<close>, compute-budget cache), \<open>Pdas\<close> (address derivations with their caches),
  \<open>WsolManager\<close> (wrapping and unwrapping), \<open>Params\<close> (\<open>trading/core/params.rs\<close>, fee recipients, creator vaults). Shown: at
  most one kind of fee strategy per channel, coherent caches never change an outcome, the account created is the one looked
  up, a creator vault is never the phantom one.

  \<^bold>\<open>Instruction builders.\<close> \<open>BuilderPumpSwap\<close>, \<open>BuilderPumpFun\<close>, \<open>BuilderPools\<close> (Raydium CPMM and AMM v4, Meteora DAMM v2),
  \<open>BuilderBonk\<close>: the whole buy and sell builders of \<open>instruction/*.rs\<close>. Shown, for each: what the swap instruction is once
  it reaches the chain, its program, signer, accounts and decoded amounts, and what is created, wrapped and closed around it.

  \<^bold>\<open>From instructions to an answer.\<close> \<open>TxBuilder\<close> (middlewares, nonce, message, transaction), \<open>Collector\<close> (the collector
  of results with its senders and pollers as atomic steps), \<open>WorkerPool\<close> (queue, workers, wake-ups), \<open>Executor\<close> (jobs of a
  batch, simulation, \<open>swap\<close>, the poll for confirmations). Shown: the layout of a transaction, the answer of a batch under
  every interleaving, that a batch is drained, which jobs it has, that the poll ends after its fifteen seconds and reports
  only what the chain confirmed, that a success was sent. The locale \<open>instruction_builder\<close> is the interface between the
  executor and the six builders.

  \<^bold>\<open>The client.\<close> \<open>Channels\<close> (endpoints and tip accounts of every provider, construction of the clients, fallback, sender
  cores), \<open>Client\<close> (\<open>lib.rs\<close>: configuration, start-up, buy, sell, sell by percent, wrapped SOL, cashback). Shown: an
  infrastructure always has a channel, tips go to the provider, what start-up returns and when it panics, what a reported
  success means.

  \<^bold>\<open>The bot.\<close> \<open>PoolLookup\<close> (the pool account and its search), \<open>TradeStore\<close> (records, Redis, events),
  \<open>Subscription\<close> (\<open>grpc_subscriber.rs\<close>: the tasks between an event and Redis), \<open>Trader\<close> (pools as the
  bot keeps them, retries, prices, buy and sell), \<open>Strategy\<close> (configuration, positions, conditions, the loop, \<open>main\<close>). Shown:
  the decoder inverts the layout and a found pool trades the mint, the store refines a book of trades and reads back what was
  stored, no update is lost on the way to it and all arrive, in any order, the lookup ends, a check trades exactly on its signals, the invariant of positions, that the loop ends only by a
  failure. The locale \<open>trading_desk\<close> is the interface between strategy and trader.

  \<^bold>\<open>On the wire.\<close> \<open>ObjectPool\<close> (the bounded queue behind every pool of idle objects), \<open>TxPool\<close>
  (\<open>trading/core/transaction_pool.rs\<close>), \<open>Serializer\<close> (\<open>swqos/serialization.rs\<close>), \<open>HttpClients\<close> (the request each HTTP or gRPC
  channel of \<open>swqos/*.rs\<close> builds, what it makes of the answer, \<open>poll_transaction_confirmation\<close> and the helpers of
  \<open>swqos/common.rs\<close>), \<open>KeepAlive\<close> (\<open>start_ping_task\<close>, pings and \<open>Drop\<close> of the channels that hold a connection open),
  \<open>QuicClients\<close> (\<open>node1_quic.rs\<close>, \<open>astralane_quic.rs\<close>, \<open>soyas.rs\<close>, \<open>speedlanding.rs\<close>). Shown: a build or an encoding through a
  pool is the one without it, what a channel puts on the wire and what its answer means, which refusals never reach the
  caller, that a batch sends every transaction once and in order, that the pinging of six clients ends with their own
  start-up task, that every stream of Node1 follows an authentication on the same connection, how often a QUIC client
  reconnects. The locale \<open>confirmation\<close> is what the channels share when they wait for the chain, \<open>stopped_by_drop\<close> what the
  six ping loops share, \<open>quic_channel\<close> what the four QUIC clients promise a batch, \<open>object_pool\<close> what a pool promises its
  users.

  \<^bold>\<open>Accounts and wallet.\<close> \<open>Layouts\<close> (the account structures of \<open>instruction/utils/*_types.rs\<close> and of
  \<open>common/bonding_curve.rs\<close>, field by field), \<open>PoolAccounts\<close> (the account readers of \<open>instruction/utils/*.rs\<close> and the
  constructors of swap parameters that call a node), \<open>Wallet\<close> (balances, transfers, closing of accounts, address lookup
  tables, the prices of \<open>utils/price\<close>). Shown: every decoder inverts its layout and accepts every account of the stated size,
  parameters read from a node are those of the account it holds, when the entries of a lookup table
  keep their positions, which account a balance belongs to. The locales \<open>layout\<close> and \<open>total_layout\<close> compose the readers of fields.

  \<^bold>\<open>Performance layer.\<close> \<open>SimdMem\<close> (vector copies, comparisons, fills), \<open>RingBuffer\<close> (\<open>CacheOptimizedRingBuffer\<close>, alone and
  with a producer and a consumer interleaved; locale \<open>bounded_queue\<close>), \<open>ZeroCopy\<close> and \<open>MappedBuffer\<close> (\<open>perf/zero_copy_io.rs\<close>:
  the bitmap allocator under concurrent callers, the byte ring, the channels), \<open>PerfOps\<close> (\<open>perf/simd.rs\<close>, the tables of
  \<open>perf/compiler_optimization.rs\<close>), \<open>Syscalls\<close> (\<open>perf/syscall_bypass.rs\<close>), \<open>Clocks\<close> (\<open>common/clock.rs\<close> and its users). Shown:
  vector routines compute what the scalar ones do, the rings are queues, no two callers hold the same block, a calibrated
  clock is off by no more than the latency of its best sample and a microsecond, and never runs backwards.

  \<^bold>\<open>Bounds.\<close> No fuel is used: loops over data are structural, the retry loop runs over its attempt numbers, the two loops
  that wait (\<open>poll_loop\<close>, \<open>monitoring_loop\<close>) are partial functions. The first is shown to return when the clock advances by
  the second that every round sleeps; the second is meant not to return, and is shown to do so only on failure.

  \<^bold>\<open>Assumptions of the model.\<close> The jobs of a batch are run one after the other for the purpose of the caches, which is
  harmless since no outcome depends on them; which results have arrived when the caller stops waiting is arbitrary. When a
  tip account cannot be had, the jobs pushed before it may still be sent; their results belong to nobody and are not part of
  the answer. A timeout of a library call is an error answer of the parameter that stands for the call. The ping loops see a store to their stop flag at their next load: the flag is accessed with relaxed
  ordering, which delays the store by no bounded time but never loses it.

  \<^bold>\<open>Not modelled.\<close> Log output and the printing of statistics. The performance files \<open>kernel_bypass.rs\<close>,
  \<open>protocol_optimization.rs\<close>, \<open>realtime_tuning.rs\<close> and \<open>ultra_low_latency.rs\<close>: \<open>perf/mod.rs\<close> does not declare them and they are
  not compiled. The compiler flags that \<open>perf/compiler_optimization.rs\<close> prints as text. The generated protocol buffers
  (\<open>swqos/pb\<close>), TLS configuration and certificates, pinning of threads and hints to the processor: code of libraries or
  without effect on what is traded. Examples and tests.
\<close>

end
